(* ===== verification/Prelude.thy ===== *)
theory Prelude
  imports Main "HOL-Library.AList" "HOL-Library.Char_ord" "HOL-Library.List_Lexorder"
begin

text \<open>
  Shared vocabulary of the development: the Go run-time facts every component uses.
  Byte strings are \<^typ>\<open>string\<close>, instants and durations are \<^typ>\<open>int\<close> nanoseconds, a Go
  \<open>map[string]V\<close> is an association list read with \<^const>\<open>map_of\<close> and written with
  \<^const>\<open>AList.update\<close> and \<^const>\<open>AList.delete\<close> (the list order stands for the unspecified
  iteration order of the run time), and a Go \<open>error\<close> is a \<open>goerror\<close>: the sentinels
  \<open>errors.Is\<close> finds in its chain and its message.

  The second half models what the sources use of the \<open>strings\<close> and \<open>strconv\<close> packages,
  with the lemmas the components share.
\<close>

section \<open>Collections of facts\<close>

named_theorems go_alist \<open>lookups after writes to a Go map\<close>
named_theorems go_string \<open>facts on the modelled part of the strings package\<close>

section \<open>Types\<close>

type_synonym duration = int
type_synonym instant = int
type_synonym 'v gomap = "(string \<times> 'v) list"

text \<open>The sentinel errors of the auth and cache packages that \<open>errors.Is\<close> is asked about.\<close>

datatype sentinel =
    ErrServerError
  | ErrGrantFailure
  | ErrLookupUnavailable
  | ErrSubjectNamesClient
  | ErrCredentialKindRefused
  | ErrNoVetoRule
  | ErrLoginHookDenied
  | ErrTTLExceedsMax
  | ErrUnknownSubjectKind
  | ErrSubjectlessCredential
  | ErrUpstreamGrantRevoked
  | ErrSealParse
  | ErrNonExpiringToken
  | ErrTokenExpired
  | ErrLoginNotBound

record goerror =
  err_is :: "sentinel list"
  err_msg :: string

text \<open>\<open>errors.New\<close>/\<open>fmt.Errorf\<close> without a wrapped error, and with a sentinel in the chain.\<close>

definition errorf :: "string \<Rightarrow> goerror" where
  "errorf m = \<lparr>err_is = [], err_msg = m\<rparr>"

definition wrapf :: "sentinel list \<Rightarrow> string \<Rightarrow> goerror" where
  "wrapf ss m = \<lparr>err_is = ss, err_msg = m\<rparr>"

text \<open>\<open>errors.Is err target\<close>.\<close>

definition errors_Is :: "goerror \<Rightarrow> sentinel \<Rightarrow> bool" where
  "errors_Is e s \<longleftrightarrow> s \<in> set (err_is e)"

text \<open>\<open>x, err := f(); if err != nil { return err }; ...\<close>: continue with the value or return the error.\<close>

fun bindE :: "'e + 'a \<Rightarrow> ('a \<Rightarrow> 'e + 'b) \<Rightarrow> 'e + 'b" where
  "bindE (Inl e) f = Inl e"
| "bindE (Inr x) f = f x"

lemma bindE_Inr_iff: "bindE r f = Inr y \<longleftrightarrow> (\<exists>x. r = Inr x \<and> f x = Inr y)"
  by (cases r) auto

abbreviation nanosecond :: duration where "nanosecond \<equiv> 1"
abbreviation millisecond :: duration where "millisecond \<equiv> 1000000"
abbreviation second :: duration where "second \<equiv> 1000000000"
abbreviation minute :: duration where "minute \<equiv> 60 * second"
abbreviation hour :: duration where "hour \<equiv> 3600 * second"

abbreviation int64_max :: int where "int64_max \<equiv> 9223372036854775807"
abbreviation int64_min :: int where "int64_min \<equiv> -9223372036854775808"

text \<open>Two's-complement wrap-around of an \<open>int64\<close> result.\<close>

definition wrap64 :: "int \<Rightarrow> int" where
  "wrap64 n = (n + 9223372036854775808) mod 18446744073709551616 - 9223372036854775808"

lemma wrap64_range: "int64_min \<le> wrap64 n \<and> wrap64 n \<le> int64_max"
  by (auto simp: wrap64_def pos_mod_bound [of 18446744073709551616, simplified] dest: order.strict_implies_order
      intro: order_trans)

lemma wrap64_id: "int64_min \<le> n \<Longrightarrow> n \<le> int64_max \<Longrightarrow> wrap64 n = n"
  by (simp add: wrap64_def)

section \<open>Go maps\<close>

text \<open>\<open>len(m)\<close> of a map held as an association list with distinct keys.\<close>

definition mapkeys :: "'v gomap \<Rightarrow> string list" where
  "mapkeys m = map fst m"

lemma map_of_update [simp, go_alist]: "map_of (AList.update k v m) = (map_of m)(k \<mapsto> v)"
  by (simp add: update_conv')

lemma map_of_delete [simp, go_alist]: "map_of (AList.delete k m) = (map_of m)(k := None)"
  by (simp add: delete_conv')

lemma distinct_keys_update [simp]:
  "distinct (map fst m) \<Longrightarrow> distinct (map fst (AList.update k v m))"
  by (rule distinct_update)

lemma distinct_keys_delete [simp]:
  "distinct (map fst m) \<Longrightarrow> distinct (map fst (AList.delete k m))"
  by (rule distinct_delete)

lemma map_of_delete_self [simp]: "map_of m k = None \<Longrightarrow> AList.delete k m = m"
  by (induction m) (auto split: if_splits)

text \<open>\<open>maps.Copy dst src\<close>: the iteration order does not matter, the keys of a map being distinct.\<close>

definition maps_Copy :: "'v gomap \<Rightarrow> 'v gomap \<Rightarrow> 'v gomap" where
  "maps_Copy dst src = foldr (\<lambda>(k, v). AList.update k v) src dst"

lemma map_of_maps_Copy [simp, go_alist]: "map_of (maps_Copy dst src) = map_of dst ++ map_of src"
proof (induction src)
  case (Cons kv src)
  then show ?case by (cases kv) (auto simp: maps_Copy_def map_add_def fun_eq_iff)
qed (simp add: maps_Copy_def)

lemma distinct_keys_maps_Copy [simp]:
  "distinct (map fst dst) \<Longrightarrow> distinct (map fst (maps_Copy dst src))"
  by (induction src) (auto simp: maps_Copy_def)

text \<open>A loop that deletes each of a list of keys.\<close>

definition delete_keys :: "string list \<Rightarrow> 'v gomap \<Rightarrow> 'v gomap" where
  "delete_keys ks m = fold AList.delete ks m"

lemma map_of_delete_keys [simp, go_alist]:
  "map_of (delete_keys ks m) k = (if k \<in> set ks then None else map_of m k)"
  by (induction ks arbitrary: m) (auto simp: delete_keys_def)

lemma distinct_keys_delete_keys [simp]:
  "distinct (map fst m) \<Longrightarrow> distinct (map fst (delete_keys ks m))"
  by (induction ks arbitrary: m) (auto simp: delete_keys_def)

text \<open>A loop that copies those of a list of keys that the source has.\<close>

fun copy_keys :: "string list \<Rightarrow> 'v gomap \<Rightarrow> 'v gomap \<Rightarrow> 'v gomap" where
  "copy_keys [] src dst = dst"
| "copy_keys (k # ks) src dst =
     copy_keys ks src (case map_of src k of Some v \<Rightarrow> AList.update k v dst | None \<Rightarrow> dst)"

lemma map_of_copy_keys [simp, go_alist]:
  "map_of (copy_keys ks src dst) k =
     (if k \<in> set ks \<and> map_of src k \<noteq> None then map_of src k else map_of dst k)"
proof (induction ks arbitrary: dst)
  case (Cons c ks)
  then show ?case by (cases "map_of src c") auto
qed simp

section \<open>The strings package\<close>

definition HasPrefix :: "string \<Rightarrow> string \<Rightarrow> bool" where
  "HasPrefix s p \<longleftrightarrow> take (length p) s = p"

definition HasSuffix :: "string \<Rightarrow> string \<Rightarrow> bool" where
  "HasSuffix s p \<longleftrightarrow> length p \<le> length s \<and> drop (length s - length p) s = p"

text \<open>\<open>strings.Contains\<close>, and \<open>ContainsRune\<close> for a single byte.\<close>

fun Contains :: "string \<Rightarrow> string \<Rightarrow> bool" where
  "Contains [] sub \<longleftrightarrow> sub = []"
| "Contains (c # s) sub \<longleftrightarrow> HasPrefix (c # s) sub \<or> Contains s sub"

definition ContainsAny :: "string \<Rightarrow> string \<Rightarrow> bool" where
  "ContainsAny s chars \<longleftrightarrow> list_ex (\<lambda>c. c \<in> set chars) s"

definition CutPrefix :: "string \<Rightarrow> string \<Rightarrow> string \<times> bool" where
  "CutPrefix s p = (if HasPrefix s p then (drop (length p) s, True) else (s, False))"

definition TrimPrefix :: "string \<Rightarrow> string \<Rightarrow> string" where
  "TrimPrefix s p = (if HasPrefix s p then drop (length p) s else s)"

text \<open>ASCII white space, the bytes \<open>strings.TrimSpace\<close> and \<open>strings.Fields\<close> separate on.\<close>

definition is_space :: "char \<Rightarrow> bool" where
  "is_space c \<longleftrightarrow> c \<in> set [CHR 0x20, CHR 0x09, CHR 0x0A, CHR 0x0B, CHR 0x0C, CHR 0x0D]"

definition TrimSpace :: "string \<Rightarrow> string" where
  "TrimSpace s = rev (dropWhile is_space (rev (dropWhile is_space s)))"

text \<open>\<open>strings.Split s sep\<close> for a one-byte separator: always at least one piece.\<close>

fun Split :: "string \<Rightarrow> char \<Rightarrow> string list" where
  "Split [] sep = [[]]"
| "Split (c # s) sep =
     (if c = sep then [] # Split s sep
      else (case Split s sep of [] \<Rightarrow> [[c]] | p # ps \<Rightarrow> (c # p) # ps))"

text \<open>\<open>strings.Fields\<close>: the maximal runs of non-space bytes.\<close>

fun Fields_acc :: "string \<Rightarrow> string \<Rightarrow> string list" where
  "Fields_acc cur [] = (if cur = [] then [] else [rev cur])"
| "Fields_acc cur (c # s) =
     (if is_space c then (if cur = [] then Fields_acc [] s else rev cur # Fields_acc [] s)
      else Fields_acc (c # cur) s)"

definition Fields :: "string \<Rightarrow> string list" where
  "Fields s = Fields_acc [] s"

fun Join :: "string list \<Rightarrow> string \<Rightarrow> string" where
  "Join [] sep = []"
| "Join [s] sep = s"
| "Join (s # t # ts) sep = s @ sep @ Join (t # ts) sep"

text \<open>ASCII case folding, for \<open>strings.EqualFold\<close>.\<close>

definition ascii_lower :: "char \<Rightarrow> char" where
  "ascii_lower c =
     (if 65 \<le> (of_char c :: nat) \<and> (of_char c :: nat) \<le> 90 then char_of ((of_char c :: nat) + 32) else c)"

definition EqualFold :: "string \<Rightarrow> string \<Rightarrow> bool" where
  "EqualFold s t \<longleftrightarrow> map ascii_lower s = map ascii_lower t"

lemma HasPrefix_append [simp, go_string]: "HasPrefix (p @ s) p"
  by (simp add: HasPrefix_def)

lemma HasPrefix_iff [go_string]: "HasPrefix s p \<longleftrightarrow> (\<exists>r. s = p @ r)"
  unfolding HasPrefix_def by (metis append_take_drop_id append_eq_conv_conj)

lemma TrimPrefix_append [simp, go_string]: "TrimPrefix (p @ s) p = s"
  by (simp add: TrimPrefix_def)

lemma CutPrefix_append [simp, go_string]: "CutPrefix (p @ s) p = (s, True)"
  by (simp add: CutPrefix_def)

lemma Contains_single [go_string]: "Contains s [c] \<longleftrightarrow> c \<in> set s"
  by (induction s) (auto simp: HasPrefix_def)

lemma Contains_append_single [go_string]: "Contains (s @ t) [c] \<longleftrightarrow> Contains s [c] \<or> Contains t [c]"
  by (simp add: Contains_single)

lemma Split_not_Nil [simp]: "Split s sep \<noteq> []"
  by (induction s) (auto split: list.splits)

lemma Split_none [go_string]: "c \<notin> set s \<Longrightarrow> Split s c = [s]"
  by (induction s) auto

lemma Split_append [go_string]: "c \<notin> set s \<Longrightarrow> Split (s @ c # t) c = s # Split t c"
  by (induction s) auto

lemma Fields_acc_words:
  "w \<in> set (Fields_acc cur s) \<Longrightarrow> list_all (\<lambda>c. \<not> is_space c) cur \<Longrightarrow>
    list_all (\<lambda>c. \<not> is_space c) w \<and> w \<noteq> []"
proof (induction s arbitrary: cur)
  case Nil
  then show ?case by (auto split: if_splits)
next
  case (Cons c s)
  show ?case
  proof (cases "is_space c")
    case True
    then show ?thesis using Cons.prems Cons.IH [of "[]"] by (auto split: if_splits)
  next
    case False
    then show ?thesis using Cons.prems Cons.IH [of "c # cur"] by simp
  qed
qed

lemma Fields_acc_word:
  "list_all (\<lambda>c. \<not> is_space c) w \<Longrightarrow> Fields_acc cur (w @ s) = Fields_acc (rev w @ cur) s"
  by (induction w arbitrary: cur) auto

lemma Fields_Join [go_string]:
  "(\<And>w. w \<in> set ws \<Longrightarrow> w \<noteq> [] \<and> list_all (\<lambda>c. \<not> is_space c) w) \<Longrightarrow> Fields (Join ws '' '') = ws"
proof (induction ws rule: induct_list012)
  case (2 w)
  then show ?case using Fields_acc_word [of w "[]" "[]"] by (simp add: Fields_def)
next
  case (3 v w ws)
  have "Fields (Join (w # ws) '' '') = w # ws" using 3 by auto
  moreover have "is_space (CHR '' '')" by (simp add: is_space_def)
  ultimately show ?case
    using Fields_acc_word [of v "[]" "'' '' @ Join (w # ws) '' ''"] 3(3) [of v] by (simp add: Fields_def)
qed (simp add: Fields_def)

section \<open>The strconv package\<close>

definition digit_char :: "nat \<Rightarrow> char" where
  "digit_char d = char_of (48 + d)"

definition digit_val :: "char \<Rightarrow> nat option" where
  "digit_val c = (let n = (of_char c :: nat) in if 48 \<le> n \<and> n \<le> 57 then Some (n - 48) else None)"

fun format_nat :: "nat \<Rightarrow> string" where
  "format_nat n = (if n < 10 then [digit_char n] else format_nat (n div 10) @ [digit_char (n mod 10)])"

declare format_nat.simps [simp del]

fun parse_nat_acc :: "nat \<Rightarrow> string \<Rightarrow> nat option" where
  "parse_nat_acc a [] = Some a"
| "parse_nat_acc a (c # s) = (case digit_val c of None \<Rightarrow> None | Some d \<Rightarrow> parse_nat_acc (10 * a + d) s)"

text \<open>\<open>strconv.FormatInt n 10\<close>.\<close>

definition FormatInt :: "int \<Rightarrow> string" where
  "FormatInt n = (if n < 0 then CHR ''-'' # format_nat (nat (- n)) else format_nat (nat n))"

text \<open>\<open>strconv.ParseInt s 10 64\<close>: an optional sign, at least one digit, in the int64 range.\<close>

definition parse_magnitude :: "string \<Rightarrow> nat option" where
  "parse_magnitude s = (if s = [] then None else parse_nat_acc 0 s)"

definition ParseInt :: "string \<Rightarrow> int option" where
  "ParseInt s =
     (let signed = (case s of c # r \<Rightarrow> if c = CHR ''-'' then map_option (\<lambda>n. - int n) (parse_magnitude r)
                                   else if c = CHR ''+'' then map_option int (parse_magnitude r)
                                   else map_option int (parse_magnitude s)
                    | [] \<Rightarrow> None)
      in (case signed of None \<Rightarrow> None
          | Some n \<Rightarrow> if int64_min \<le> n \<and> n \<le> int64_max then Some n else None))"

lemma of_char_digit: "d < 10 \<Longrightarrow> (of_char (digit_char d) :: nat) = 48 + d"
  by (simp add: digit_char_def)

lemma digit_val_char [simp]: "d < 10 \<Longrightarrow> digit_val (digit_char d) = Some d"
  by (simp add: digit_val_def of_char_digit Let_def)

lemma parse_nat_acc_append:
  "parse_nat_acc a (s @ t) = (case parse_nat_acc a s of None \<Rightarrow> None | Some b \<Rightarrow> parse_nat_acc b t)"
  by (induction s arbitrary: a) (auto split: option.splits)

lemma parse_format_nat: "parse_nat_acc 0 (format_nat n) = Some n"
proof (induction n rule: format_nat.induct)
  case (1 n)
  show ?case
  proof (cases "n < 10")
    case True
    then show ?thesis by (simp add: format_nat.simps)
  next
    case False
    then show ?thesis
      using 1 by (subst format_nat.simps) (simp add: parse_nat_acc_append)
  qed
qed

lemma format_nat_not_Nil [simp]: "format_nat n \<noteq> []"
  by (subst format_nat.simps) simp

lemma format_nat_head: "\<exists>d. d < 10 \<and> hd (format_nat n) = digit_char d"
proof (induction n rule: format_nat.induct)
  case (1 n)
  show ?case
  proof (cases "n < 10")
    case True
    then show ?thesis by (subst format_nat.simps) auto
  next
    case False
    then show ?thesis using 1 by (subst format_nat.simps) simp
  qed
qed

lemma digit_char_not_sign: "d < 10 \<Longrightarrow> digit_char d \<noteq> CHR ''-'' \<and> digit_char d \<noteq> CHR ''+''"
proof -
  assume d: "d < 10"
  have "(of_char (digit_char d) :: nat) \<noteq> 45 \<and> (of_char (digit_char d) :: nat) \<noteq> 43"
    using of_char_digit [OF d] by simp
  then show ?thesis by auto
qed

lemma ParseInt_FormatInt:
  assumes "int64_min \<le> n" and "n \<le> int64_max"
  shows "ParseInt (FormatInt n) = Some n"
proof (cases "n < 0")
  case True
  then show ?thesis
    using assms by (simp add: FormatInt_def ParseInt_def parse_magnitude_def parse_format_nat)
next
  case False
  obtain c r where cr: "format_nat (nat n) = c # r"
    by (cases "format_nat (nat n)") auto
  from format_nat_head [of "nat n"] obtain d where "d < 10" and "c = digit_char d"
    by (auto simp: cr)
  then have "c \<noteq> CHR ''-''" and "c \<noteq> CHR ''+''"
    by (auto dest: digit_char_not_sign)
  moreover have "parse_nat_acc 0 (c # r) = Some (nat n)"
    using parse_format_nat [of "nat n"] by (simp add: cr)
  ultimately show ?thesis
    using assms False by (simp add: FormatInt_def ParseInt_def parse_magnitude_def cr)
qed

end
