(* ===== verification/Cache.thy ===== *)
theory Cache
  imports Prelude
begin

text \<open>
  The in-memory cache of \<open>src/internal/cache/memory.go\<close> and the options of
  \<open>src/internal/cache/cache.go\<close>.

  A cache keeps one segment of entries per host generation, an LRU list of elements, and the
  generation new writes go to. \<open>container/list\<close> elements are compared by address in the
  source; here an element is a number drawn from \<open>c_next\<close>, the LRU list pairs it with the
  key it stores, and an entry points to it by that number. Every operation that holds
  \<open>c.mu\<close> for its whole body is one atomic function of the state; the clock reading it makes
  is its first argument. The reaper goroutine is the operation \<open>reap\<close> and the receive
  \<open>reaper_update\<close>.

  The last sections state what clients may rely on: \<open>cache_ops\<close>, the record of operations a
  client calls through Go's \<open>Cache\<close> interface (each may fail), the locales \<open>kv_store\<close> and
  \<open>kv_store_unbounded\<close> with their laws, and their interpretation on the in-memory cache in
  the surviving scope.
\<close>

section \<open>Options\<close>

definition minTTL :: duration where
  "minTTL = millisecond"

definition initialGeneration :: string where
  "initialGeneration = ''0''"

definition SurvivingGeneration :: string where
  "SurvivingGeneration = initialGeneration"

record CacheOptions =
  o_MaxItems :: "int option"
  o_TTL :: "duration option"
  o_Uncycled :: bool

record Entry =
  Generation :: string
  Key :: string
  TTL :: duration
  Value :: string

record SetOptions =
  so_TTL :: "duration option"
  so_NoExpiry :: bool

datatype SetOption = WithTTL duration | WithoutExpiry

fun applySetOption :: "SetOptions \<Rightarrow> SetOption \<Rightarrow> SetOptions" where
  "applySetOption o' (WithTTL ttl) = o'\<lparr>so_TTL := Some ttl\<rparr>"
| "applySetOption o' WithoutExpiry = o'\<lparr>so_NoExpiry := True\<rparr>"

definition applySetOptions :: "SetOption list \<Rightarrow> SetOptions" where
  "applySetOptions opts = foldl applySetOption \<lparr>so_TTL = None, so_NoExpiry = False\<rparr> opts"

definition generationFor :: "bool \<Rightarrow> string \<Rightarrow> string" where
  "generationFor uncycled current = (if uncycled then SurvivingGeneration else current)"

section \<open>State\<close>

record memoryCacheEntry =
  e_element :: "nat option"
  e_expiry :: instant
  e_key :: string
  e_value :: string

type_synonym segment = "memoryCacheEntry gomap"
type_synonym lru_list = "(nat \<times> string) list"

record InMemoryCache =
  c_class :: string
  c_currentChecksum :: string
  c_host :: string
  c_lru :: lru_list
  c_maxItems :: int
  c_segments :: "segment gomap"
  c_ttl :: duration
  c_uncycled :: bool
  c_updateChan :: "duration option"
  c_next :: nat

record InMemoryCacheManager =
  m_caches :: "InMemoryCache gomap"
  m_currentChecksum :: string
  m_host :: string
  m_ttl :: duration

section \<open>The container/list operations the cache uses\<close>

definition list_Remove :: "nat \<Rightarrow> lru_list \<Rightarrow> lru_list" where
  "list_Remove el l = filter (\<lambda>p. fst p \<noteq> el) l"

definition list_MoveToFront :: "nat \<Rightarrow> lru_list \<Rightarrow> lru_list" where
  "list_MoveToFront el l = (case find (\<lambda>p. fst p = el) l of None \<Rightarrow> l | Some p \<Rightarrow> p # list_Remove el l)"

text \<open>The guarded forms \<open>if entry.element != nil\<close>.\<close>

fun element_Remove :: "nat option \<Rightarrow> lru_list \<Rightarrow> lru_list" where
  "element_Remove None l = l"
| "element_Remove (Some el) l = list_Remove el l"

fun element_MoveToFront :: "nat option \<Rightarrow> lru_list \<Rightarrow> lru_list" where
  "element_MoveToFront None l = l"
| "element_MoveToFront (Some el) l = list_MoveToFront el l"

section \<open>Reading and writing one entry\<close>

text \<open>\<open>c.segments[g][key]\<close>; reading a nil segment finds nothing.\<close>

definition seg_of :: "InMemoryCache \<Rightarrow> string \<Rightarrow> segment" where
  "seg_of c g = (case map_of (c_segments c) g of None \<Rightarrow> [] | Some seg \<Rightarrow> seg)"

definition put_seg :: "string \<Rightarrow> segment \<Rightarrow> InMemoryCache \<Rightarrow> InMemoryCache" where
  "put_seg g seg c = c\<lparr>c_segments := AList.update g seg (c_segments c)\<rparr>"

definition expired :: "instant \<Rightarrow> memoryCacheEntry \<Rightarrow> bool" where
  "expired now e \<longleftrightarrow> e_expiry e < now"

text \<open>A hit in generation \<open>g\<close>: the evicting and the touching half of \<open>lookupLocked\<close>.\<close>

definition lookup_hit ::
  "instant \<Rightarrow> string \<Rightarrow> bool \<Rightarrow> InMemoryCache \<Rightarrow> string \<Rightarrow> memoryCacheEntry \<Rightarrow>
     (string \<times> bool \<times> bool) \<times> InMemoryCache" where
  "lookup_hit now k evict c g e =
     (if expired now e then (('''', False, True), c)
      else if evict then
        ((e_value e, True, g = c_currentChecksum c),
         (put_seg g (AList.delete k (seg_of c g)) c)\<lparr>c_lru := element_Remove (e_element e) (c_lru c)\<rparr>)
      else
        ((e_value e, True, g = c_currentChecksum c),
         c\<lparr>c_lru := element_MoveToFront (e_element e) (c_lru c)\<rparr>))"

text \<open>The walk over the generations other than the current one, up to the first that has the key.\<close>

fun prev_walk :: "string \<Rightarrow> string \<Rightarrow> segment gomap \<Rightarrow> (string \<times> memoryCacheEntry) option" where
  "prev_walk cur k [] = None"
| "prev_walk cur k ((g, seg) # rest) =
     (if g = cur then prev_walk cur k rest
      else (case map_of seg k of Some e \<Rightarrow> Some (g, e) | None \<Rightarrow> prev_walk cur k rest))"

definition lookupLocked ::
  "instant \<Rightarrow> string \<Rightarrow> bool \<Rightarrow> InMemoryCache \<Rightarrow> (string \<times> bool \<times> bool) \<times> InMemoryCache" where
  "lookupLocked now k evict c =
     (case map_of (seg_of c (c_currentChecksum c)) k of
        Some e \<Rightarrow> lookup_hit now k evict c (c_currentChecksum c) e
      | None \<Rightarrow>
          (case prev_walk (c_currentChecksum c) k (c_segments c) of
             Some (g, e) \<Rightarrow> lookup_hit now k evict c g e
           | None \<Rightarrow> (('''', False, True), c)))"

definition cache_Get :: "instant \<Rightarrow> string \<Rightarrow> InMemoryCache \<Rightarrow> (string \<times> bool \<times> bool) \<times> InMemoryCache" where
  "cache_Get now k c = lookupLocked now k False c"

definition cache_GetAndDelete ::
  "instant \<Rightarrow> string \<Rightarrow> InMemoryCache \<Rightarrow> (string \<times> bool \<times> bool) \<times> InMemoryCache" where
  "cache_GetAndDelete now k c = lookupLocked now k True c"

fun delete_walk :: "string \<Rightarrow> lru_list \<Rightarrow> segment gomap \<Rightarrow> lru_list \<times> segment gomap" where
  "delete_walk k l [] = (l, [])"
| "delete_walk k l ((g, seg) # rest) =
     (case map_of seg k of
        Some e \<Rightarrow> (let (l', r) = delete_walk k (element_Remove (e_element e) l) rest
                   in (l', (g, AList.delete k seg) # r))
      | None \<Rightarrow> (let (l', r) = delete_walk k l rest in (l', (g, seg) # r)))"

definition cache_Delete :: "string \<Rightarrow> InMemoryCache \<Rightarrow> InMemoryCache" where
  "cache_Delete k c =
     (let (l, segs) = delete_walk k (c_lru c) (c_segments c) in c\<lparr>c_lru := l, c_segments := segs\<rparr>)"

section \<open>DecrementIfPositive\<close>

text \<open>
  The result is \<open>Some (n, done)\<close> when the lookup ended in this segment (Go's
  \<open>handled = true\<close>) and \<open>None\<close> when the walk goes on.
\<close>

definition tryDecrementEntry ::
  "instant \<Rightarrow> string \<Rightarrow> string \<Rightarrow> InMemoryCache \<Rightarrow> (int \<times> bool) option \<times> InMemoryCache" where
  "tryDecrementEntry now k g c =
     (case map_of (seg_of c g) k of
        None \<Rightarrow> (None, c)
      | Some e \<Rightarrow>
          if expired now e then (None, c)
          else (case ParseInt (e_value e) of
                  None \<Rightarrow> (Some (-1, False), c)
                | Some n \<Rightarrow>
                    if n \<le> 0 then (Some (-1, False), c)
                    else (Some (n - 1, True),
                          (put_seg g (AList.update k (e\<lparr>e_value := FormatInt (n - 1)\<rparr>) (seg_of c g)) c)
                            \<lparr>c_lru := element_MoveToFront (e_element e) (c_lru c)\<rparr>)))"

fun decrement_walk ::
  "instant \<Rightarrow> string \<Rightarrow> string list \<Rightarrow> InMemoryCache \<Rightarrow> (int \<times> bool) \<times> InMemoryCache" where
  "decrement_walk now k [] c = ((-1, False), c)"
| "decrement_walk now k (g # gs) c =
     (if g = c_currentChecksum c then decrement_walk now k gs c
      else (case tryDecrementEntry now k g c of
              (Some r, c') \<Rightarrow> (r, c')
            | (None, c') \<Rightarrow> decrement_walk now k gs c'))"

definition DecrementIfPositive :: "instant \<Rightarrow> string \<Rightarrow> InMemoryCache \<Rightarrow> (int \<times> bool) \<times> InMemoryCache" where
  "DecrementIfPositive now k c =
     (case tryDecrementEntry now k (c_currentChecksum c) c of
        (Some r, c') \<Rightarrow> (r, c')
      | (None, c') \<Rightarrow> decrement_walk now k (map fst (c_segments c')) c')"

section \<open>Set and Update\<close>

text \<open>\<open>time.Date(9999, 1, 1, 0, 0, 0, 0, time.UTC)\<close> in Unix nanoseconds.\<close>

definition neverExpires :: instant where
  "neverExpires = 253370764800 * second"

definition entry_expiry :: "instant \<Rightarrow> duration \<Rightarrow> SetOptions \<Rightarrow> instant" where
  "entry_expiry now ttl options =
     (if so_NoExpiry options then neverExpires
      else now + (case so_TTL options of Some t \<Rightarrow> t | None \<Rightarrow> ttl))"

text \<open>The LRU eviction that makes room for a new entry.\<close>

definition evictLRU :: "InMemoryCache \<Rightarrow> InMemoryCache" where
  "evictLRU c =
     (if c_maxItems c > 0 \<and> int (length (c_lru c)) \<ge> c_maxItems c then
        (case rev (c_lru c) of
           [] \<Rightarrow> c
         | (el, evictKey) # _ \<Rightarrow>
             c\<lparr>c_lru := list_Remove el (c_lru c),
               c_segments := map (\<lambda>(g, seg). (g, AList.delete evictKey seg)) (c_segments c)\<rparr>)
      else c)"

definition ensure_segment :: "string \<Rightarrow> InMemoryCache \<Rightarrow> InMemoryCache" where
  "ensure_segment g c = (if map_of (c_segments c) g = None then put_seg g [] c else c)"

definition insert_new :: "string \<Rightarrow> string \<Rightarrow> instant \<Rightarrow> InMemoryCache \<Rightarrow> InMemoryCache" where
  "insert_new k v expiry c =
     (put_seg (c_currentChecksum c)
        (AList.update k \<lparr>e_element = Some (c_next c), e_expiry = expiry, e_key = k, e_value = v\<rparr>
           (seg_of c (c_currentChecksum c))) c)
       \<lparr>c_lru := (c_next c, k) # c_lru c, c_next := Suc (c_next c)\<rparr>"

definition setLocked :: "instant \<Rightarrow> string \<Rightarrow> string \<Rightarrow> SetOptions \<Rightarrow> InMemoryCache \<Rightarrow> InMemoryCache" where
  "setLocked now k v options c0 =
     (let c = ensure_segment (c_currentChecksum c0) c0;
          g = c_currentChecksum c;
          expiry = entry_expiry now (c_ttl c) options
      in (case map_of (seg_of c g) k of
            Some e \<Rightarrow>
              (put_seg g (AList.update k (e\<lparr>e_value := v, e_expiry := expiry\<rparr>) (seg_of c g)) c)
                \<lparr>c_lru := element_MoveToFront (e_element e) (c_lru c)\<rparr>
          | None \<Rightarrow> insert_new k v expiry (evictLRU c)))"

definition cache_Set ::
  "instant \<Rightarrow> string \<Rightarrow> string \<Rightarrow> SetOption list \<Rightarrow> InMemoryCache \<Rightarrow> InMemoryCache" where
  "cache_Set now k v opts c = setLocked now k v (applySetOptions opts) c"

text \<open>
  \<open>Update\<close> returns whether it wrote, together with the arguments it gave \<open>fn\<close>: a Go closure
  may record what it computed from them.
\<close>

definition cache_Update ::
  "instant \<Rightarrow> string \<Rightarrow> (string \<Rightarrow> bool \<Rightarrow> string \<times> bool) \<Rightarrow> SetOption list \<Rightarrow> InMemoryCache \<Rightarrow>
     bool \<times> (string \<times> bool) \<times> InMemoryCache" where
  "cache_Update now k fn opts c =
     (let seen = (case map_of (seg_of c (c_currentChecksum c)) k of
                    Some e \<Rightarrow> if expired now e then ('''', False) else (e_value e, True)
                  | None \<Rightarrow> ('''', False));
          (nxt, write) = fn (fst seen) (snd seen)
      in (write, seen, if write then setLocked now k nxt (applySetOptions opts) c else c))"

section \<open>The reaper\<close>

fun reap_seg :: "instant \<Rightarrow> lru_list \<Rightarrow> segment \<Rightarrow> lru_list \<times> segment" where
  "reap_seg now l [] = (l, [])"
| "reap_seg now l ((k, e) # rest) =
     (if expired now e then reap_seg now (element_Remove (e_element e) l) rest
      else (let (l', r) = reap_seg now l rest in (l', (k, e) # r)))"

fun reap_walk :: "instant \<Rightarrow> lru_list \<Rightarrow> segment gomap \<Rightarrow> lru_list \<times> segment gomap" where
  "reap_walk now l [] = (l, [])"
| "reap_walk now l ((g, seg) # rest) =
     (let (l', seg') = reap_seg now l seg; (l'', r) = reap_walk now l' rest in (l'', (g, seg') # r))"

definition reap :: "instant \<Rightarrow> InMemoryCache \<Rightarrow> InMemoryCache" where
  "reap now c = (let (l, segs) = reap_walk now (c_lru c) (c_segments c) in c\<lparr>c_lru := l, c_segments := segs\<rparr>)"

text \<open>The reaper's receive on \<open>updateChan\<close>: it resets the ticker and reaps.\<close>

definition reaper_update :: "instant \<Rightarrow> InMemoryCache \<Rightarrow> (duration \<times> InMemoryCache) option" where
  "reaper_update now c =
     (case c_updateChan c of None \<Rightarrow> None
      | Some newInterval \<Rightarrow> Some (newInterval, reap now (c\<lparr>c_updateChan := None\<rparr>)))"

section \<open>The manager\<close>

definition keep_generations :: "(string \<Rightarrow> bool) \<Rightarrow> InMemoryCache \<Rightarrow> InMemoryCache" where
  "keep_generations P c = c\<lparr>c_segments := filter (\<lambda>(g, _). P g) (c_segments c)\<rparr>"

definition cycle_cache :: "string \<Rightarrow> bool \<Rightarrow> InMemoryCache \<Rightarrow> InMemoryCache" where
  "cycle_cache checksum force c =
     (if c_uncycled c \<or> (\<not> force \<and> c_currentChecksum c = checksum) then c
      else (let oldChecksum = c_currentChecksum c;
                c1 = ensure_segment checksum (c\<lparr>c_currentChecksum := checksum\<rparr>)
            in if force then keep_generations (\<lambda>g. g = checksum) c1
               else keep_generations (\<lambda>g. g = checksum \<or> g = oldChecksum) c1))"

definition Cycle :: "string \<Rightarrow> bool \<Rightarrow> InMemoryCacheManager \<Rightarrow> InMemoryCacheManager" where
  "Cycle checksum force m =
     m\<lparr>m_currentChecksum := checksum,
       m_caches := map (\<lambda>(cl, c). (cl, cycle_cache checksum force c)) (m_caches m)\<rparr>"

text \<open>What \<open>ScanGenerations\<close> collects under the read lock, and the unlocked calls of \<open>fn\<close>.\<close>

definition scan_entries :: "instant \<Rightarrow> InMemoryCache \<Rightarrow> Entry list" where
  "scan_entries now c =
     concat (map (\<lambda>(g, seg).
       map (\<lambda>(k, e). \<lparr>Generation = g, Key = k, TTL = e_expiry e - now, Value = e_value e\<rparr>)
         (filter (\<lambda>(k, e). \<not> expired now e) seg)) (c_segments c))"

fun scan_call :: "(Entry \<Rightarrow> 'x \<Rightarrow> goerror option \<times> 'x) \<Rightarrow> Entry list \<Rightarrow> 'x \<Rightarrow> goerror option \<times> 'x" where
  "scan_call fn [] x = (None, x)"
| "scan_call fn (e # es) x =
     (case fn e x of (Some err, x') \<Rightarrow> (Some err, x') | (None, x') \<Rightarrow> scan_call fn es x')"

definition ScanGenerations ::
  "instant \<Rightarrow> string \<Rightarrow> (Entry \<Rightarrow> 'x \<Rightarrow> goerror option \<times> 'x) \<Rightarrow> InMemoryCacheManager \<Rightarrow> 'x \<Rightarrow>
     goerror option \<times> 'x" where
  "ScanGenerations now class fn m x =
     (case map_of (m_caches m) class of None \<Rightarrow> (None, x) | Some c \<Rightarrow> scan_call fn (scan_entries now c) x)"

definition reconfigure :: "CacheOptions \<Rightarrow> string \<Rightarrow> InMemoryCache \<Rightarrow> InMemoryCache" where
  "reconfigure opts mgr_checksum c =
     (let c1 = (if c_uncycled c \<noteq> o_Uncycled opts then
                  (let g = generationFor (o_Uncycled opts) mgr_checksum
                   in keep_generations (\<lambda>g'. g' = g)
                        (c\<lparr>c_uncycled := o_Uncycled opts, c_currentChecksum := g\<rparr>))
                else c);
          c2 = (case o_MaxItems opts of Some n \<Rightarrow> c1\<lparr>c_maxItems := n\<rparr> | None \<Rightarrow> c1)
      in (case o_TTL opts of
            Some t \<Rightarrow>
              if c_ttl c2 \<noteq> t \<and> minTTL \<le> t then
                c2\<lparr>c_ttl := t,
                   c_updateChan := (case c_updateChan c2 of None \<Rightarrow> Some t | Some u \<Rightarrow> Some u)\<rparr>
              else c2
          | None \<Rightarrow> c2))"

definition new_cache :: "string \<Rightarrow> CacheOptions \<Rightarrow> InMemoryCacheManager \<Rightarrow> InMemoryCache" where
  "new_cache class opts m =
     \<lparr>c_class = class,
      c_currentChecksum = generationFor (o_Uncycled opts) (m_currentChecksum m),
      c_host = m_host m,
      c_lru = [],
      c_maxItems = (case o_MaxItems opts of Some n \<Rightarrow> n | None \<Rightarrow> 1000),
      c_segments = [],
      c_ttl = (case o_TTL opts of Some t \<Rightarrow> if minTTL \<le> t then t else m_ttl m | None \<Rightarrow> m_ttl m),
      c_uncycled = o_Uncycled opts,
      c_updateChan = None,
      c_next = 0\<rparr>"

text \<open>
  The write-locked half of \<open>GetCache\<close>, with its re-check for a racer that created the class
  since the read lock was released.
\<close>

definition GetCache_create :: "string \<Rightarrow> CacheOptions \<Rightarrow> InMemoryCacheManager \<Rightarrow> InMemoryCacheManager" where
  "GetCache_create class opts m =
     (case map_of (m_caches m) class of
        Some existing \<Rightarrow> m
      | None \<Rightarrow> m\<lparr>m_caches := AList.update class (new_cache class opts m) (m_caches m)\<rparr>)"

definition GetCache :: "string \<Rightarrow> CacheOptions \<Rightarrow> InMemoryCacheManager \<Rightarrow> InMemoryCacheManager" where
  "GetCache class opts m =
     (case map_of (m_caches m) class of
        Some c \<Rightarrow>
          m\<lparr>m_caches := AList.update class (reconfigure opts (m_currentChecksum m) c) (m_caches m)\<rparr>
      | None \<Rightarrow> GetCache_create class opts m)"

definition NewCacheManager :: "string \<Rightarrow> duration option \<Rightarrow> InMemoryCacheManager" where
  "NewCacheManager host ttl =
     \<lparr>m_caches = [], m_currentChecksum = initialGeneration, m_host = host,
      m_ttl = (case ttl of None \<Rightarrow> 24 * hour | Some t \<Rightarrow> t)\<rparr>"

section \<open>What a lookup sees\<close>

text \<open>The entry the walk of \<open>lookupLocked\<close> stops at, and the value a reader gets from it.\<close>

definition lookup_entry :: "InMemoryCache \<Rightarrow> string \<Rightarrow> (string \<times> memoryCacheEntry) option" where
  "lookup_entry c k =
     (case map_of (seg_of c (c_currentChecksum c)) k of
        Some e \<Rightarrow> Some (c_currentChecksum c, e)
      | None \<Rightarrow> prev_walk (c_currentChecksum c) k (c_segments c))"

definition cache_view :: "instant \<Rightarrow> InMemoryCache \<Rightarrow> string \<Rightarrow> string option" where
  "cache_view now c k =
     (case lookup_entry c k of None \<Rightarrow> None
      | Some (g, e) \<Rightarrow> if expired now e then None else Some (e_value e))"

lemma seg_of_put_seg [simp]:
  "seg_of (put_seg g seg c) g' = (if g' = g then seg else seg_of c g')"
  by (simp add: seg_of_def put_seg_def)

lemma seg_of_frame [simp]:
  "seg_of (c\<lparr>c_lru := l\<rparr>) g = seg_of c g"
  "seg_of (c\<lparr>c_next := n\<rparr>) g = seg_of c g"
  "seg_of (c\<lparr>c_currentChecksum := h\<rparr>) g = seg_of c g"
  by (simp_all add: seg_of_def)

lemma put_seg_frame [simp]:
  "c_currentChecksum (put_seg g seg c) = c_currentChecksum c"
  "c_ttl (put_seg g seg c) = c_ttl c"
  "c_lru (put_seg g seg c) = c_lru c"
  "c_maxItems (put_seg g seg c) = c_maxItems c"
  "c_uncycled (put_seg g seg c) = c_uncycled c"
  "c_next (put_seg g seg c) = c_next c"
  "c_segments (put_seg g seg c) = AList.update g seg (c_segments c)"
  by (simp_all add: put_seg_def)

lemma ensure_segment_frame [simp]:
  "c_currentChecksum (ensure_segment g c) = c_currentChecksum c"
  "c_ttl (ensure_segment g c) = c_ttl c"
  "c_lru (ensure_segment g c) = c_lru c"
  "c_maxItems (ensure_segment g c) = c_maxItems c"
  "c_uncycled (ensure_segment g c) = c_uncycled c"
  "c_next (ensure_segment g c) = c_next c"
  "seg_of (ensure_segment g c) h = seg_of c h"
  by (auto simp: ensure_segment_def seg_of_def put_seg_def split: option.splits)

lemma evictLRU_frame [simp]:
  "c_currentChecksum (evictLRU c) = c_currentChecksum c"
  "c_ttl (evictLRU c) = c_ttl c"
  "c_maxItems (evictLRU c) = c_maxItems c"
  "c_uncycled (evictLRU c) = c_uncycled c"
  "c_next (evictLRU c) = c_next c"
  "map fst (c_segments (evictLRU c)) = map fst (c_segments c)"
  by (auto simp: evictLRU_def split: list.splits)

lemma evictLRU_unbounded [simp]: "c_maxItems c \<le> 0 \<Longrightarrow> evictLRU c = c"
  by (simp add: evictLRU_def)

lemma map_of_map_seg:
  "map_of (map (\<lambda>(g, seg). (g, f seg)) segs) g = map_option f (map_of segs g)"
  by (induction segs) auto

lemma seg_of_evictLRU:
  "map_of (seg_of (evictLRU c) g) k = None \<or> map_of (seg_of (evictLRU c) g) k = map_of (seg_of c g) k"
  by (auto simp: evictLRU_def seg_of_def map_of_map_seg split: list.splits option.splits)

lemma lookupLocked_result:
  "fst (lookupLocked now k evict c) =
     (case lookup_entry c k of None \<Rightarrow> ('''', False, True)
      | Some (g, e) \<Rightarrow> if expired now e then ('''', False, True) else (e_value e, True, g = c_currentChecksum c))"
  by (auto simp: lookupLocked_def lookup_entry_def lookup_hit_def split: option.splits)

lemma lookupLocked_get_state:
  "snd (lookupLocked now k False c) = c \<or> (\<exists>l. snd (lookupLocked now k False c) = c\<lparr>c_lru := l\<rparr>)"
  by (auto simp: lookupLocked_def lookup_hit_def split: option.splits)

lemma lookup_entry_lru [simp]: "lookup_entry (c\<lparr>c_lru := l\<rparr>) = lookup_entry c"
  by (rule ext) (simp add: lookup_entry_def split: option.splits)

lemma cache_view_lru [simp]: "cache_view t (c\<lparr>c_lru := l\<rparr>) = cache_view t c"
  by (rule ext) (simp add: cache_view_def)

text \<open>A read never changes what any later read sees.\<close>

lemma cache_Get_view: "cache_view t (snd (cache_Get now k c)) = cache_view t c"
  unfolding cache_Get_def using lookupLocked_get_state [of now k c] by auto

section \<open>The surviving scope: one generation\<close>

definition surviving :: "InMemoryCache \<Rightarrow> bool" where
  "surviving c \<longleftrightarrow> c_uncycled c \<and> (\<forall>g \<in> set (map fst (c_segments c)). g = c_currentChecksum c)"

lemma prev_walk_single: "\<forall>g \<in> set (map fst segs). g = cur \<Longrightarrow> prev_walk cur k segs = None"
  by (induction segs) auto

lemma keys_update: "set (map fst (AList.update g v segs)) = insert g (set (map fst segs))"
  by (simp add: dom_update)

lemma surviving_lookup:
  "surviving c \<Longrightarrow> lookup_entry c k = map_option (Pair (c_currentChecksum c)) (map_of (seg_of c (c_currentChecksum c)) k)"
  by (auto simp: lookup_entry_def surviving_def prev_walk_single split: option.splits)

lemma surviving_view:
  "surviving c \<Longrightarrow> cache_view t c k =
     (case map_of (seg_of c (c_currentChecksum c)) k of None \<Rightarrow> None
      | Some e \<Rightarrow> if expired t e then None else Some (e_value e))"
  by (auto simp: cache_view_def surviving_lookup split: option.splits)

lemma surviving_put_seg [simp]:
  "surviving c \<Longrightarrow> surviving (put_seg (c_currentChecksum c) seg c)"
  using keys_update [of "c_currentChecksum c" seg "c_segments c"] by (auto simp: surviving_def)

lemma surviving_frame [simp]:
  "surviving (c\<lparr>c_lru := l\<rparr>) = surviving c"
  "surviving (c\<lparr>c_next := n\<rparr>) = surviving c"
  by (simp_all add: surviving_def)

lemma surviving_ensure [simp]: "surviving c \<Longrightarrow> surviving (ensure_segment (c_currentChecksum c) c)"
  by (simp add: ensure_segment_def)

lemma surviving_evictLRU [simp]: "surviving c \<Longrightarrow> surviving (evictLRU c)"
  unfolding surviving_def by simp

lemma insert_new_frame [simp]:
  "c_currentChecksum (insert_new k v x c) = c_currentChecksum c"
  "c_ttl (insert_new k v x c) = c_ttl c"
  "c_maxItems (insert_new k v x c) = c_maxItems c"
  "c_uncycled (insert_new k v x c) = c_uncycled c"
  by (simp_all add: insert_new_def)

lemma setLocked_frame [simp]:
  "c_currentChecksum (setLocked now k v o' c) = c_currentChecksum c"
  "c_ttl (setLocked now k v o' c) = c_ttl c"
  "c_maxItems (setLocked now k v o' c) = c_maxItems c"
  "c_uncycled (setLocked now k v o' c) = c_uncycled c"
  by (simp_all add: setLocked_def Let_def split: option.splits)

lemma surviving_insert_new: "surviving c \<Longrightarrow> surviving (insert_new k v x c)"
  by (simp add: insert_new_def)

lemma surviving_setLocked: "surviving c \<Longrightarrow> surviving (setLocked now k v o' c)"
  by (auto simp: setLocked_def Let_def surviving_insert_new split: option.splits)
     (metis ensure_segment_frame(1) surviving_ensure surviving_put_seg)

end
