(* ===== verification/Store.thy ===== *)
theory Store
  imports Cache
begin

text \<open>
  The contract between the cache package and its clients.

  A client reaches a cache through the interface \<open>Cache\<close> of \<open>src/internal/cache/cache.go\<close>,
  whose methods may fail; \<open>cache_ops\<close> is that interface over an abstract state, and the
  clients' definitions take it as an argument. The locale \<open>kv_store\<close> states what the
  interface's comments promise for a cache of the surviving scope, \<open>kv_store_unbounded\<close>
  adds that nothing is evicted to make room (\<open>MaxItems\<close> 0), and both are interpreted on the
  in-memory cache. \<open>run_calls\<close> runs an interleaving of calls by any number of callers.
\<close>

section \<open>The Cache interface\<close>

record 's cache_ops =
  op_Get :: "instant \<Rightarrow> string \<Rightarrow> 's \<Rightarrow> (goerror + string \<times> bool \<times> bool) \<times> 's"
  op_GetAndDelete :: "instant \<Rightarrow> string \<Rightarrow> 's \<Rightarrow> (goerror + string \<times> bool \<times> bool) \<times> 's"
  op_Set :: "instant \<Rightarrow> string \<Rightarrow> string \<Rightarrow> SetOption list \<Rightarrow> 's \<Rightarrow> goerror option \<times> 's"
  op_Delete :: "string \<Rightarrow> 's \<Rightarrow> goerror option \<times> 's"
  op_Update :: "instant \<Rightarrow> string \<Rightarrow> (string \<Rightarrow> bool \<Rightarrow> string \<times> bool) \<Rightarrow> SetOption list \<Rightarrow> 's \<Rightarrow>
                  (goerror + bool) \<times> (string \<times> bool) \<times> 's"

definition mem_ops :: "InMemoryCache cache_ops" where
  "mem_ops =
     \<lparr>op_Get = (\<lambda>now k c. map_prod Inr id (cache_Get now k c)),
      op_GetAndDelete = (\<lambda>now k c. map_prod Inr id (cache_GetAndDelete now k c)),
      op_Set = (\<lambda>now k v opts c. (None, cache_Set now k v opts c)),
      op_Delete = (\<lambda>k c. (None, cache_Delete k c)),
      op_Update = (\<lambda>now k fn opts c. map_prod Inr id (cache_Update now k fn opts c))\<rparr>"

definition found_result :: "string option \<Rightarrow> string \<times> bool \<times> bool" where
  "found_result r = (case r of Some v \<Rightarrow> (v, True, True) | None \<Rightarrow> ('''', False, True))"

definition seen_args :: "string option \<Rightarrow> string \<times> bool" where
  "seen_args r = (case r of Some v \<Rightarrow> (v, True) | None \<Rightarrow> ('''', False))"

lemma found_result_simps [simp]:
  "found_result None = ('''', False, True)" "found_result (Some v) = (v, True, True)"
  by (simp_all add: found_result_def)

lemma seen_args_simps [simp]:
  "seen_args None = ('''', False)" "seen_args (Some v) = (v, True)"
  by (simp_all add: seen_args_def)

section \<open>Interleavings of calls\<close>

text \<open>
  The callers of one cache, in the order their atomic operations take effect, each with the
  clock reading it makes. \<open>run_calls\<close> counts the \<open>GetAndDelete\<close> calls of a key that win.
\<close>

datatype call =
    CGet string
  | CGetAndDelete string
  | CSet string string "SetOption list"
  | CDelete string
  | CUpdate string "string \<Rightarrow> bool \<Rightarrow> string \<times> bool" "SetOption list"

fun call_key :: "call \<Rightarrow> string" where
  "call_key (CGet k) = k"
| "call_key (CGetAndDelete k) = k"
| "call_key (CSet k v opts) = k"
| "call_key (CDelete k) = k"
| "call_key (CUpdate k fn opts) = k"

text \<open>The calls that may create an entry, and those that may remove one.\<close>

fun writes_to :: "string \<Rightarrow> call \<Rightarrow> bool" where
  "writes_to k (CSet k' v opts) \<longleftrightarrow> k' = k"
| "writes_to k (CUpdate k' fn opts) \<longleftrightarrow> k' = k"
| "writes_to k _ \<longleftrightarrow> False"

fun exec_call :: "'s cache_ops \<Rightarrow> instant \<Rightarrow> call \<Rightarrow> 's \<Rightarrow> 's" where
  "exec_call ops t (CGet k) s = snd (op_Get ops t k s)"
| "exec_call ops t (CGetAndDelete k) s = snd (op_GetAndDelete ops t k s)"
| "exec_call ops t (CSet k v opts) s = snd (op_Set ops t k v opts s)"
| "exec_call ops t (CDelete k) s = snd (op_Delete ops k s)"
| "exec_call ops t (CUpdate k fn opts) s = snd (snd (op_Update ops t k fn opts s))"

definition wins_call :: "'s cache_ops \<Rightarrow> string \<Rightarrow> instant \<Rightarrow> call \<Rightarrow> 's \<Rightarrow> bool" where
  "wins_call ops k t cl s =
     (case cl of CGetAndDelete k' \<Rightarrow>
        k' = k \<and> (case fst (op_GetAndDelete ops t k' s) of Inr (v, found, cur) \<Rightarrow> found | Inl e \<Rightarrow> False)
      | _ \<Rightarrow> False)"

fun run_calls :: "'s cache_ops \<Rightarrow> string \<Rightarrow> (instant \<times> call) list \<Rightarrow> 's \<Rightarrow> nat \<times> 's" where
  "run_calls ops k [] s = (0, s)"
| "run_calls ops k ((t, cl) # cs) s =
     (let (n, s') = run_calls ops k cs (exec_call ops t cl s)
      in (if wins_call ops k t cl s then Suc n else n, s'))"

section \<open>The laws a client may rely on\<close>

locale kv_store =
  fixes ops :: "'s cache_ops"
    and inv :: "'s \<Rightarrow> bool"
    and view :: "instant \<Rightarrow> 's \<Rightarrow> string \<Rightarrow> string option"
    and deadline :: "instant \<Rightarrow> SetOption list \<Rightarrow> 's \<Rightarrow> instant"
  assumes get_result: "inv s \<Longrightarrow> fst (op_Get ops t k s) = Inr (found_result (view t s k))"
    and get_inv: "inv s \<Longrightarrow> inv (snd (op_Get ops t k s))"
    and get_view: "inv s \<Longrightarrow> view t' (snd (op_Get ops t k s)) = view t' s"
    and take_result: "inv s \<Longrightarrow> fst (op_GetAndDelete ops t k s) = Inr (found_result (view t s k))"
    and take_inv: "inv s \<Longrightarrow> inv (snd (op_GetAndDelete ops t k s))"
    and take_self: "inv s \<Longrightarrow> view t s k \<noteq> None \<Longrightarrow> view t' (snd (op_GetAndDelete ops t k s)) k = None"
    and take_miss: "inv s \<Longrightarrow> view t s k = None \<Longrightarrow> view t' (snd (op_GetAndDelete ops t k s)) k = view t' s k"
    and take_other: "inv s \<Longrightarrow> k' \<noteq> k \<Longrightarrow> view t' (snd (op_GetAndDelete ops t k s)) k' = view t' s k'"
    and set_result: "inv s \<Longrightarrow> fst (op_Set ops t k v opts s) = None"
    and set_inv: "inv s \<Longrightarrow> inv (snd (op_Set ops t k v opts s))"
    and set_self: "inv s \<Longrightarrow> view t' (snd (op_Set ops t k v opts s)) k =
                     (if t' \<le> deadline t opts s then Some v else None)"
    and set_other_le: "inv s \<Longrightarrow> k' \<noteq> k \<Longrightarrow>
                     view t' (snd (op_Set ops t k v opts s)) k' = None \<or>
                     view t' (snd (op_Set ops t k v opts s)) k' = view t' s k'"
    and del_result: "inv s \<Longrightarrow> fst (op_Delete ops k s) = None"
    and del_inv: "inv s \<Longrightarrow> inv (snd (op_Delete ops k s))"
    and del_self: "inv s \<Longrightarrow> view t' (snd (op_Delete ops k s)) k = None"
    and del_other: "inv s \<Longrightarrow> k' \<noteq> k \<Longrightarrow> view t' (snd (op_Delete ops k s)) k' = view t' s k'"
    and update_is: "inv s \<Longrightarrow> op_Update ops t k fn opts s =
                     (let a = seen_args (view t s k); r = fn (fst a) (snd a)
                      in (Inr (snd r), a, if snd r then snd (op_Set ops t k (fst r) opts s) else s))"
begin

lemmas store_results = get_result take_result set_result del_result
lemmas store_inv = get_inv take_inv set_inv del_inv
lemmas store_views = get_view take_self take_other set_self del_self del_other

lemma update_inv: "inv s \<Longrightarrow> inv (snd (snd (op_Update ops t k fn opts s)))"
  by (simp add: update_is Let_def set_inv)

lemma exec_inv: "inv s \<Longrightarrow> inv (exec_call ops t cl s)"
  by (cases cl) (simp_all add: store_inv update_inv)

lemma wins_iff:
  "inv s \<Longrightarrow> wins_call ops k t cl s \<longleftrightarrow> cl = CGetAndDelete k \<and> view t s k \<noteq> None"
  by (cases cl) (auto simp: wins_call_def take_result found_result_def split: option.splits)

text \<open>A call that does not write the key never brings its entry back.\<close>

lemma exec_no_write_le:
  assumes "inv s" and "\<not> writes_to k cl"
  shows "view t' (exec_call ops t cl s) k \<in> {None, view t' s k}"
proof (cases "call_key cl = k")
  case False
  have so: "view t' (snd (op_Set ops t x v opts s)) k = None \<or>
      view t' (snd (op_Set ops t x v opts s)) k = view t' s k" if "x \<noteq> k" for x v opts
    using that by (intro set_other_le assms) simp
  show ?thesis
    using False assms so by (cases cl) (auto simp: get_view take_other del_other update_is Let_def)
next
  case True
  show ?thesis
  proof (cases cl)
    case (CGetAndDelete x)
    with True assms show ?thesis
      by (cases "view t s k") (auto simp: take_self take_miss)
  qed (use True assms in \<open>auto simp: get_view del_self\<close>)
qed

definition absent :: "string \<Rightarrow> 's \<Rightarrow> bool" where
  "absent k s \<longleftrightarrow> (\<forall>t. view t s k = None)"

lemma exec_absent: "inv s \<Longrightarrow> \<not> writes_to k cl \<Longrightarrow> absent k s \<Longrightarrow> absent k (exec_call ops t cl s)"
  unfolding absent_def using exec_no_write_le by fastforce

lemma wins_absent: "inv s \<Longrightarrow> wins_call ops k t cl s \<Longrightarrow> absent k (exec_call ops t cl s)"
  by (auto simp: wins_iff absent_def take_self)

lemma no_wins_when_absent:
  assumes "inv s" and "absent k s" and "\<forall>(t, cl) \<in> set cs. \<not> writes_to k cl"
  shows "fst (run_calls ops k cs s) = 0"
  using assms
proof (induction cs arbitrary: s)
  case (Cons tc cs)
  obtain t cl where tc: "tc = (t, cl)" by (cases tc)
  have nw: "\<not> writes_to k cl" using Cons.prems(3) by (simp add: tc)
  have "\<not> wins_call ops k t cl s"
    using Cons.prems(1,2) by (auto simp: wins_iff absent_def)
  moreover have "fst (run_calls ops k cs (exec_call ops t cl s)) = 0"
    using Cons.prems nw by (intro Cons.IH) (auto intro: exec_inv exec_absent)
  ultimately show ?case by (simp add: tc Let_def split_beta)
qed simp

text \<open>Single winner: without a write of the key, at most one \<open>GetAndDelete\<close> of it finds it.\<close>

lemma at_most_one_winner:
  assumes "inv s" and "\<forall>(t, cl) \<in> set cs. \<not> writes_to k cl"
  shows "fst (run_calls ops k cs s) \<le> 1"
  using assms
proof (induction cs arbitrary: s)
  case (Cons tc cs)
  obtain t cl where tc: "tc = (t, cl)" by (cases tc)
  let ?s = "exec_call ops t cl s"
  have rest: "\<forall>(t, cl) \<in> set cs. \<not> writes_to k cl" and i: "inv ?s"
    using Cons.prems by (auto intro: exec_inv)
  show ?case
  proof (cases "wins_call ops k t cl s")
    case True
    then have "fst (run_calls ops k cs ?s) = 0"
      using Cons.prems(1) rest i by (intro no_wins_when_absent) (auto intro: wins_absent)
    with True show ?thesis by (simp add: tc Let_def split_beta)
  next
    case False
    with Cons.IH [OF i rest] show ?thesis by (simp add: tc Let_def split_beta)
  qed
qed simp

end

locale kv_store_unbounded = kv_store +
  assumes set_other: "inv s \<Longrightarrow> k' \<noteq> k \<Longrightarrow> view t' (snd (op_Set ops t k v opts s)) k' = view t' s k'"
begin

lemma exec_other:
  assumes "inv s" and "call_key cl \<noteq> k"
  shows "view t' (exec_call ops t cl s) k = view t' s k"
  using assms by (cases cl) (auto simp: get_view take_other del_other set_other update_is Let_def)

text \<open>
  Among calls that neither write nor delete the key, while its entry is live, the first
  \<open>GetAndDelete\<close> of it wins.
\<close>

lemma exactly_one_winner:
  assumes "inv s" and "\<forall>(t, cl) \<in> set cs. call_key cl = k \<longrightarrow> (cl = CGet k \<or> cl = CGetAndDelete k)"
    and "\<exists>t. (t, CGetAndDelete k) \<in> set cs" and "\<forall>(t, cl) \<in> set cs. view t s k \<noteq> None"
  shows "fst (run_calls ops k cs s) = 1"
  using assms
proof (induction cs arbitrary: s)
  case (Cons tc cs)
  obtain t cl where tc: "tc = (t, cl)" by (cases tc)
  let ?s = "exec_call ops t cl s"
  have nw: "\<forall>(t, cl) \<in> set cs. \<not> writes_to k cl"
  proof clarify
    fix t' cl' assume "(t', cl') \<in> set cs" and "writes_to k cl'"
    then show False using Cons.prems(2) by (cases cl') auto
  qed
  have i: "inv ?s" using Cons.prems(1) by (rule exec_inv)
  show ?case
  proof (cases "cl = CGetAndDelete k")
    case True
    then have w: "wins_call ops k t cl s"
      using Cons.prems(1,4) by (simp add: wins_iff tc)
    then have "fst (run_calls ops k cs ?s) = 0"
      using Cons.prems(1) nw i by (intro no_wins_when_absent) (auto intro: wins_absent)
    with w show ?thesis by (simp add: tc Let_def split_beta)
  next
    case False
    have same: "view t' ?s k = view t' s k" for t'
    proof (cases "call_key cl = k")
      case True
      then show ?thesis using Cons.prems(1,2) False by (auto simp: tc get_view)
    next
      case False
      then show ?thesis using Cons.prems(1) by (simp add: exec_other)
    qed
    have "\<not> wins_call ops k t cl s" using Cons.prems(1) False by (simp add: wins_iff)
    moreover have "fst (run_calls ops k cs ?s) = 1"
    proof (rule Cons.IH)
      show "inv ?s" by (rule i)
      show "\<forall>(t, cl) \<in> set cs. call_key cl = k \<longrightarrow> (cl = CGet k \<or> cl = CGetAndDelete k)"
        using Cons.prems(2) by simp
      show "\<exists>t. (t, CGetAndDelete k) \<in> set cs"
        using Cons.prems(3) False by (auto simp: tc)
      show "\<forall>(t, cl) \<in> set cs. view t ?s k \<noteq> None"
        using Cons.prems(4) by (simp add: same)
    qed
    ultimately show ?thesis by (simp add: tc Let_def split_beta)
  qed
qed simp

end

section \<open>The in-memory cache implements the contract\<close>

definition mem_deadline :: "instant \<Rightarrow> SetOption list \<Rightarrow> InMemoryCache \<Rightarrow> instant" where
  "mem_deadline now opts c = entry_expiry now (c_ttl c) (applySetOptions opts)"

lemma mem_ops_simps [simp]:
  "op_Get mem_ops now k c = map_prod Inr id (cache_Get now k c)"
  "op_GetAndDelete mem_ops now k c = map_prod Inr id (cache_GetAndDelete now k c)"
  "op_Set mem_ops now k v opts c = (None, cache_Set now k v opts c)"
  "op_Delete mem_ops k c = (None, cache_Delete k c)"
  "op_Update mem_ops now k fn opts c = map_prod Inr id (cache_Update now k fn opts c)"
  by (simp_all add: mem_ops_def)

lemma mem_lookup_result: "surviving c \<Longrightarrow> fst (lookupLocked t k evict c) = found_result (cache_view t c k)"
  by (auto simp: lookupLocked_result cache_view_def surviving_lookup split: option.splits)

lemma mem_take_state:
  assumes "surviving c"
  shows "snd (lookupLocked t k True c) =
     (case map_of (seg_of c (c_currentChecksum c)) k of
        None \<Rightarrow> c
      | Some e \<Rightarrow> if expired t e then c
                 else (put_seg (c_currentChecksum c) (AList.delete k (seg_of c (c_currentChecksum c))) c)
                        \<lparr>c_lru := element_Remove (e_element e) (c_lru c)\<rparr>)"
  using assms by (auto simp: lookupLocked_def lookup_hit_def surviving_def prev_walk_single split: option.splits)

lemma mem_take_surviving: "surviving c \<Longrightarrow> surviving (snd (cache_GetAndDelete t k c))"
  by (auto simp: cache_GetAndDelete_def mem_take_state split: option.splits)

lemma mem_take_view:
  assumes "surviving c"
  shows "cache_view t' (snd (cache_GetAndDelete t k c)) k' =
     (if k' = k \<and> cache_view t c k \<noteq> None then None else cache_view t' c k')"
  using assms
  by (auto simp: cache_GetAndDelete_def mem_take_state surviving_view split: option.splits if_splits)

lemma mem_set_view:
  assumes "surviving c"
  shows "cache_view t' (cache_Set t k v opts c) k = (if t' \<le> mem_deadline t opts c then Some v else None)"
  using assms surviving_setLocked [OF assms]
  by (auto simp: cache_Set_def mem_deadline_def surviving_view setLocked_def Let_def insert_new_def
        expired_def split: option.splits)

lemma seg_setLocked_other:
  assumes "k' \<noteq> k"
  shows "map_of (seg_of (setLocked t k v o' c) (c_currentChecksum c)) k' = None \<or>
    map_of (seg_of (setLocked t k v o' c) (c_currentChecksum c)) k' = map_of (seg_of c (c_currentChecksum c)) k'"
  using assms seg_of_evictLRU [of "ensure_segment (c_currentChecksum c) c" "c_currentChecksum c" k']
  by (auto simp: setLocked_def Let_def insert_new_def split: option.split)

lemma mem_set_other_le:
  assumes "surviving c" and "k' \<noteq> k"
  shows "cache_view t' (cache_Set t k v opts c) k' = None \<or>
    cache_view t' (cache_Set t k v opts c) k' = cache_view t' c k'"
  using seg_setLocked_other [OF assms(2), of t v "applySetOptions opts" c] assms(1)
  by (auto simp: cache_Set_def surviving_view surviving_setLocked)

lemma mem_set_other:
  assumes "surviving c" and "c_maxItems c \<le> 0" and "k' \<noteq> k"
  shows "cache_view t' (cache_Set t k v opts c) k' = cache_view t' c k'"
  using assms surviving_setLocked [OF assms(1)]
  by (auto simp: cache_Set_def surviving_view setLocked_def Let_def insert_new_def split: option.splits)

lemma delete_walk_map:
  "snd (delete_walk k l segs) = map (\<lambda>(g, seg). (g, AList.delete k seg)) segs"
  by (induction segs arbitrary: l) (auto simp: split_beta Let_def split: option.splits)

lemma cache_Delete_frame [simp]:
  "c_currentChecksum (cache_Delete k c) = c_currentChecksum c"
  "c_uncycled (cache_Delete k c) = c_uncycled c"
  "c_maxItems (cache_Delete k c) = c_maxItems c"
  "c_ttl (cache_Delete k c) = c_ttl c"
  "c_segments (cache_Delete k c) = map (\<lambda>(g, seg). (g, AList.delete k seg)) (c_segments c)"
  by (simp_all add: cache_Delete_def split_beta delete_walk_map)

lemma mem_delete_surviving: "surviving c \<Longrightarrow> surviving (cache_Delete k c)"
  by (auto simp: surviving_def)

lemma mem_delete_view:
  assumes "surviving c"
  shows "cache_view t (cache_Delete k c) k' = (if k' = k then None else cache_view t c k')"
  using assms mem_delete_surviving [OF assms, of k]
  by (auto simp: surviving_view seg_of_def map_of_map_seg split: option.splits)

lemma mem_update_is:
  assumes "surviving c"
  shows "cache_Update t k fn opts c =
     (let a = seen_args (cache_view t c k); r = fn (fst a) (snd a)
      in (snd r, a, if snd r then cache_Set t k (fst r) opts c else c))"
  using assms by (auto simp: cache_Update_def cache_Set_def surviving_view Let_def split_beta split: option.splits)

lemma mem_get_surviving: "surviving c \<Longrightarrow> surviving (snd (cache_Get t k c))"
  unfolding cache_Get_def using lookupLocked_get_state [of t k c] by auto

lemma mem_set_surviving: "surviving c \<Longrightarrow> surviving (cache_Set t k v opts c)"
  by (simp add: cache_Set_def surviving_setLocked)

lemma mem_maxItems [simp]:
  "c_maxItems (snd (cache_Get t k c)) = c_maxItems c"
  "c_maxItems (snd (cache_GetAndDelete t k c)) = c_maxItems c"
  "c_maxItems (cache_Set t k v opts c) = c_maxItems c"
  by (auto simp: cache_Get_def cache_GetAndDelete_def cache_Set_def lookupLocked_def lookup_hit_def split: option.splits)

lemma mem_get_result: "surviving c \<Longrightarrow> fst (cache_Get t k c) = found_result (cache_view t c k)"
  by (simp add: cache_Get_def mem_lookup_result)

lemma mem_take_result: "surviving c \<Longrightarrow> fst (cache_GetAndDelete t k c) = found_result (cache_view t c k)"
  by (simp add: cache_GetAndDelete_def mem_lookup_result)

lemmas mem_facts =
  mem_get_result mem_take_result mem_get_surviving mem_take_surviving mem_set_surviving mem_delete_surviving
  cache_Get_view mem_take_view mem_set_view mem_set_other_le mem_set_other mem_delete_view

interpretation mem: kv_store mem_ops surviving cache_view mem_deadline
  using mem_set_other_le by unfold_locales (auto simp: mem_facts mem_update_is Let_def)

definition unbounded :: "InMemoryCache \<Rightarrow> bool" where
  "unbounded c \<longleftrightarrow> surviving c \<and> c_maxItems c \<le> 0"

interpretation memu: kv_store_unbounded mem_ops unbounded cache_view mem_deadline
  using mem_set_other_le
  by unfold_locales (auto simp: unbounded_def mem_facts mem_update_is Let_def)

text \<open>Of any number of concurrent \<open>GetAndDelete\<close> calls on one live key of an unbounded cache of the
  surviving scope, interleaved with reads of it and any calls on other keys, exactly one wins.\<close>

theorem single_winner:
  assumes "unbounded c" and "\<forall>(t, cl) \<in> set cs. call_key cl = k \<longrightarrow> (cl = CGet k \<or> cl = CGetAndDelete k)"
    and "\<exists>t. (t, CGetAndDelete k) \<in> set cs" and "\<forall>(t, cl) \<in> set cs. cache_view t c k \<noteq> None"
  shows "fst (run_calls mem_ops k cs c) = 1"
  using assms by (rule memu.exactly_one_winner)

definition demo_codes :: InMemoryCache where
  "demo_codes = cache_Set 0 ''code'' ''claims'' [WithTTL 100]
     (new_cache ''auth-codes'' \<lparr>o_MaxItems = Some 0, o_TTL = None, o_Uncycled = True\<rparr> (NewCacheManager ''host'' None))"

theorem single_winner_witness:
  "fst (run_calls mem_ops ''code'' [(1, CGetAndDelete ''code''), (1, CSet ''x'' ''y'' []), (2, CGetAndDelete ''code'')] demo_codes) = 1"
proof -
  have "unbounded demo_codes"
    unfolding unbounded_def demo_codes_def
    by (intro conjI mem_set_surviving) (simp_all add: surviving_def new_cache_def)
  moreover have "cache_view 1 demo_codes ''code'' \<noteq> None" "cache_view 2 demo_codes ''code'' \<noteq> None" by code_simp+
  ultimately show ?thesis by (intro single_winner) auto
qed

end
