(* ===== verification/CacheSafety.thy ===== *)
theory CacheSafety
  imports Store
begin

text \<open>
  Safety of the in-memory cache. The invariant \<open>cache_ok\<close> ties the three parts of the state
  together: the maps have distinct keys, every entry points to its own element of the LRU
  list, and that element names the entry's key. Every operation of the cache, the reaper and
  the manager keeps it (\<open>mem_step\<close>, \<open>cache_reach\<close>), which bounds the entries a cache holds
  by its LRU list and the list by \<open>maxItems\<close>.

  Then the counting of \<open>DecrementIfPositive\<close>, the generation semantics of \<open>Cycle\<close>, and the
  one behaviour of the LRU list that does not follow: elements of abandoned generations stay
  in it.
\<close>

section \<open>The invariant\<close>

type_synonym entry_map = "string \<Rightarrow> string \<Rightarrow> memoryCacheEntry option"

definition entry_at :: "InMemoryCache \<Rightarrow> entry_map" where
  "entry_at c g k = map_of (seg_of c g) k"

definition links_ok :: "entry_map \<Rightarrow> lru_list \<Rightarrow> nat \<Rightarrow> bool" where
  "links_ok ent l n \<longleftrightarrow>
     distinct (map fst l) \<and> (\<forall>p \<in> set l. fst p < n) \<and>
     (\<forall>g k e. ent g k = Some e \<longrightarrow> (\<exists>el. e_element e = Some el \<and> (el, k) \<in> set l)) \<and>
     (\<forall>g k e g' k' e'. ent g k = Some e \<longrightarrow> ent g' k' = Some e' \<longrightarrow> e_element e = e_element e' \<longrightarrow>
        g = g' \<and> k = k')"

definition maps_ok :: "InMemoryCache \<Rightarrow> bool" where
  "maps_ok c \<longleftrightarrow> distinct (map fst (c_segments c)) \<and>
     (\<forall>seg \<in> set (map snd (c_segments c)). distinct (map fst seg))"

definition cache_ok :: "InMemoryCache \<Rightarrow> bool" where
  "cache_ok c \<longleftrightarrow> maps_ok c \<and> links_ok (entry_at c) (c_lru c) (c_next c)"

definition entry_count :: "InMemoryCache \<Rightarrow> nat" where
  "entry_count c = sum_list (map (\<lambda>(g, seg). length seg) (c_segments c))"

section \<open>The links under each kind of change\<close>

named_theorems links_intro \<open>preservation of the entry/element links\<close>

lemma links_okD:
  assumes "links_ok ent l n"
  shows "distinct (map fst l)" and "p \<in> set l \<Longrightarrow> fst p < n"
    and "ent g k = Some e \<Longrightarrow> \<exists>el. e_element e = Some el \<and> (el, k) \<in> set l"
    and "ent g k = Some e \<Longrightarrow> ent g' k' = Some e' \<Longrightarrow> e_element e = e_element e' \<Longrightarrow> g = g' \<and> k = k'"
  using assms by (auto simp: links_ok_def)

lemma links_okI:
  assumes "distinct (map fst l)" and "\<And>p. p \<in> set l \<Longrightarrow> fst p < n"
    and "\<And>g k e. ent g k = Some e \<Longrightarrow> \<exists>el. e_element e = Some el \<and> (el, k) \<in> set l"
    and "\<And>g k e g' k' e'. ent g k = Some e \<Longrightarrow> ent g' k' = Some e' \<Longrightarrow> e_element e = e_element e' \<Longrightarrow>
           g = g' \<and> k = k'"
  shows "links_ok ent l n"
  using assms unfolding links_ok_def by blast

lemma links_shrink [links_intro]:
  assumes "links_ok ent l n" and "\<And>g k e. ent' g k = Some e \<Longrightarrow> ent g k = Some e"
  shows "links_ok ent' l n"
  using assms unfolding links_ok_def by blast

lemma links_filter:
  assumes l: "links_ok ent l n" and sub: "\<And>g k e. ent' g k = Some e \<Longrightarrow> ent g k = Some e"
    and P: "\<And>g k e el. ent' g k = Some e \<Longrightarrow> e_element e = Some el \<Longrightarrow> P el"
  shows "links_ok ent' (filter (\<lambda>p. P (fst p)) l) n"
proof (rule links_okI)
  show "distinct (map fst (filter (\<lambda>p. P (fst p)) l))"
    using links_okD(1) [OF l] by (simp add: distinct_map_filter)
  show "fst p < n" if "p \<in> set (filter (\<lambda>p. P (fst p)) l)" for p
    using that links_okD(2) [OF l] by simp
  show "\<exists>el. e_element e = Some el \<and> (el, k) \<in> set (filter (\<lambda>p. P (fst p)) l)" if "ent' g k = Some e" for g k e
    using links_okD(3) [OF l sub [OF that]] P [OF that] by auto
qed (use sub links_okD(4) [OF l] in blast)

lemma element_Remove_filter: "element_Remove x l = filter (\<lambda>p. Some (fst p) \<noteq> x) l"
  by (cases x) (auto simp: list_Remove_def)

lemma same_element: "distinct (map fst l) \<Longrightarrow> p \<in> set l \<Longrightarrow> q \<in> set l \<Longrightarrow> fst p = fst q \<Longrightarrow> p = q"
  unfolding distinct_map using inj_onD [of fst "set l" p q] by blast

lemma set_list_MoveToFront [simp]:
  assumes "distinct (map fst l)"
  shows "set (list_MoveToFront el l) = set l"
proof (cases "find (\<lambda>p. fst p = el) l")
  case None
  then show ?thesis by (simp add: list_MoveToFront_def)
next
  case (Some p)
  then have p: "p \<in> set l" "fst p = el" by (auto simp: find_Some_iff)
  have only: "q = p" if "q \<in> set l" "fst q = el" for q
    using same_element [OF assms that(1) p(1)] that(2) p(2) by simp
  show ?thesis
    using p Some by (auto simp: list_MoveToFront_def list_Remove_def dest: only)
qed

lemma distinct_list_MoveToFront:
  assumes "distinct (map fst l)"
  shows "distinct (map fst (list_MoveToFront el l))"
proof (cases "find (\<lambda>p. fst p = el) l")
  case None
  then show ?thesis using assms by (simp add: list_MoveToFront_def)
next
  case (Some p)
  then have "fst p = el" by (auto simp: find_Some_iff)
  then show ?thesis
    using Some assms by (auto simp: list_MoveToFront_def list_Remove_def distinct_map_filter)
qed

lemma links_move [links_intro]: "links_ok ent l n \<Longrightarrow> links_ok ent (element_MoveToFront x l) n"
  by (cases x) (simp_all add: links_ok_def distinct_list_MoveToFront)

lemma links_drop_entry:
  assumes l: "links_ok ent l n" and e: "ent g k = Some e"
    and sub: "\<And>g' k' x. ent' g' k' = Some x \<Longrightarrow> ent g' k' = Some x \<and> (g', k') \<noteq> (g, k)"
  shows "links_ok ent' (element_Remove (e_element e) l) n"
  unfolding element_Remove_filter
proof (rule links_filter [OF l])
  fix g' k' x assume x: "ent' g' k' = Some x"
  from sub [OF x] show "ent g' k' = Some x" by blast
  fix el assume "e_element x = Some el"
  then show "Some el \<noteq> e_element e" using sub [OF x] links_okD(4) [OF l e] by metis
qed

lemma links_update_entry:
  assumes l: "links_ok ent l n" and e: "ent g k = Some e" and same: "e_element d = e_element e"
    and upd: "\<And>g' k'. ent' g' k' = (if g' = g \<and> k' = k then Some d else ent g' k')"
  shows "links_ok ent' l n"
proof -
  have pre: "\<exists>f. ent g' k' = Some f \<and> e_element f = e_element x" if "ent' g' k' = Some x" for g' k' x
    using that e same by (auto simp: upd split: if_splits)
  show ?thesis
  proof (rule links_okI)
    show "\<exists>el. e_element x = Some el \<and> (el, k') \<in> set l" if "ent' g' k' = Some x" for g' k' x
      using pre [OF that] links_okD(3) [OF l] by metis
    show "g1 = g2 \<and> k1 = k2"
      if "ent' g1 k1 = Some x1" "ent' g2 k2 = Some x2" "e_element x1 = e_element x2" for g1 k1 x1 g2 k2 x2
      using pre [OF that(1)] pre [OF that(2)] links_okD(4) [OF l] that(3) by metis
  qed (use links_okD(1,2) [OF l] in auto)
qed

lemma links_insert:
  assumes l: "links_ok ent l n" and el: "e_element e = Some n"
    and upd: "\<And>g' k'. ent' g' k' = (if g' = g \<and> k' = k then Some e else ent g' k')"
  shows "links_ok ent' ((n, k) # l) (Suc n)"
proof -
  have fresh: "e_element x \<noteq> Some n" if "ent g' k' = Some x" for g' k' x
    using links_okD(2,3) [OF l] that by fastforce
  show ?thesis
  proof (rule links_okI)
    show "distinct (map fst ((n, k) # l))" using links_okD(1,2) [OF l] by fastforce
    show "fst p < Suc n" if "p \<in> set ((n, k) # l)" for p using links_okD(2) [OF l] that by fastforce
    show "\<exists>x'. e_element x = Some x' \<and> (x', k') \<in> set ((n, k) # l)" if "ent' g' k' = Some x" for g' k' x
      using that links_okD(3) [OF l] el by (auto simp: upd split: if_splits; meson)
    show "g1 = g2 \<and> k1 = k2"
      if "ent' g1 k1 = Some x1" "ent' g2 k2 = Some x2" "e_element x1 = e_element x2" for g1 k1 x1 g2 k2 x2
      using that el links_okD(4) [OF l] fresh unfolding upd by (smt (verit, best) option.inject)
  qed
qed

section \<open>Every operation keeps the invariant\<close>

lemma entry_at_segments: "c_segments c' = c_segments c \<Longrightarrow> entry_at c' = entry_at c"
  by (intro ext) (simp add: entry_at_def seg_of_def)

lemma entry_at_put_seg [simp]:
  "entry_at (put_seg g seg c) g' k = (if g' = g then map_of seg k else entry_at c g' k)"
  by (simp add: entry_at_def)

lemma entry_at_lru [simp]:
  "entry_at (c\<lparr>c_lru := l\<rparr>) = entry_at c" "entry_at (c\<lparr>c_next := n\<rparr>) = entry_at c"
  "entry_at (c\<lparr>c_currentChecksum := h\<rparr>) = entry_at c"
  by (rule entry_at_segments, simp)+

lemma maps_ok_frame [simp]:
  "maps_ok (c\<lparr>c_lru := l\<rparr>) = maps_ok c" "maps_ok (c\<lparr>c_next := n\<rparr>) = maps_ok c"
  "maps_ok (c\<lparr>c_currentChecksum := h\<rparr>) = maps_ok c"
  by (simp_all add: maps_ok_def)

lemma in_set_update: "(k', v') \<in> set (AList.update k v m) \<Longrightarrow> v' = v \<or> v' \<in> snd ` set m"
  by (induction m) (force split: if_splits)+

lemma maps_ok_put_seg: "maps_ok c \<Longrightarrow> distinct (map fst seg) \<Longrightarrow> maps_ok (put_seg g seg c)"
  by (force simp: maps_ok_def dest: in_set_update)

lemma maps_ok_seg_of: "maps_ok c \<Longrightarrow> distinct (map fst (seg_of c g))"
  by (auto simp: maps_ok_def seg_of_def split: option.splits dest!: map_of_SomeD)

lemma maps_ok_map_seg:
  assumes "maps_ok c" and "\<And>seg. distinct (map fst seg) \<Longrightarrow> distinct (map fst (f seg))"
  shows "maps_ok (c\<lparr>c_segments := map (\<lambda>(g, seg). (g, f seg)) (c_segments c)\<rparr>)"
  using assms by (auto simp: maps_ok_def comp_def split_beta)

lemma prev_walk_entry:
  assumes "distinct (map fst segs)" and "prev_walk cur k segs = Some (g, e)"
  shows "\<exists>seg. map_of segs g = Some seg \<and> map_of seg k = Some e \<and> g \<noteq> cur"
  using assms
proof (induction segs)
  case (Cons x segs)
  obtain h seg where x: "x = (h, seg)" by (cases x)
  show ?case
  proof (cases "h = cur \<or> map_of seg k = None")
    case True
    then have "prev_walk cur k segs = Some (g, e)" using Cons.prems(2) by (auto simp: x split: if_splits)
    with Cons obtain seg' where s: "map_of segs g = Some seg'" "map_of seg' k = Some e" "g \<noteq> cur" by auto
    moreover have "g \<noteq> h" using Cons.prems(1) s(1) by (force simp: x dest: map_of_SomeD)
    ultimately show ?thesis by (simp add: x)
  next
    case False
    then show ?thesis using Cons.prems(2) by (auto simp: x)
  qed
qed simp

lemma lookup_entry_at:
  assumes "cache_ok c" and "lookup_entry c k = Some (g, e)"
  shows "entry_at c g k = Some e"
proof (cases "map_of (seg_of c (c_currentChecksum c)) k")
  case None
  then have "prev_walk (c_currentChecksum c) k (c_segments c) = Some (g, e)"
    using assms(2) by (simp add: lookup_entry_def)
  then obtain seg where "map_of (c_segments c) g = Some seg" "map_of seg k = Some e"
    using assms(1) prev_walk_entry by (force simp: cache_ok_def maps_ok_def)
  then show ?thesis by (simp add: entry_at_def seg_of_def)
next
  case (Some d)
  then show ?thesis using assms(2) by (simp add: lookup_entry_def entry_at_def)
qed

lemma lookupLocked_split:
  "lookupLocked now k evict c =
     (case lookup_entry c k of None \<Rightarrow> (('''', False, True), c) | Some (g, e) \<Rightarrow> lookup_hit now k evict c g e)"
  by (auto simp: lookupLocked_def lookup_entry_def split: option.splits)

lemma cache_ok_hit:
  assumes ok: "cache_ok c" and e: "entry_at c g k = Some e"
  shows "cache_ok (snd (lookup_hit now k evict c g e))"
proof -
  have "links_ok (entry_at (put_seg g (AList.delete k (seg_of c g)) c)) (element_Remove (e_element e) (c_lru c)) (c_next c)"
    using ok e by (intro links_drop_entry [where ent = "entry_at c" and g = g and k = k]) (auto simp: cache_ok_def entry_at_def split: if_splits)
  then show ?thesis
    using ok by (auto simp: lookup_hit_def cache_ok_def maps_ok_put_seg maps_ok_seg_of intro: links_move)
qed

lemma cache_ok_lookup: "cache_ok c \<Longrightarrow> cache_ok (snd (lookupLocked now k evict c))"
  by (auto simp: lookupLocked_split split: option.splits intro: cache_ok_hit lookup_entry_at)

lemma delete_walk_lru:
  "fst (delete_walk k l segs) =
     filter (\<lambda>p. Some (fst p) \<notin> {e_element e |seg e. seg \<in> snd ` set segs \<and> map_of seg k = Some e}) l"
proof (induction segs arbitrary: l)
  case (Cons x segs)
  obtain g seg where x: "x = (g, seg)" by (cases x)
  show ?case
    by (cases "map_of seg k") (auto simp: x Let_def split_beta Cons.IH element_Remove_filter intro!: filter_cong)
qed simp

lemma entry_at_map_seg:
  "entry_at (c\<lparr>c_lru := l, c_segments := map (\<lambda>(g, seg). (g, AList.delete k seg)) (c_segments c)\<rparr>) g k' =
     (if k' = k then None else entry_at c g k')"
  by (auto simp: entry_at_def seg_of_def map_of_map_seg split: option.splits)

lemma cache_ok_delete:
  assumes ok: "cache_ok c"
  shows "cache_ok (cache_Delete k c)"
proof -
  let ?gone = "{e_element e |seg e. seg \<in> snd ` set (c_segments c) \<and> map_of seg k = Some e}"
  let ?c = "c\<lparr>c_lru := filter (\<lambda>p. Some (fst p) \<notin> ?gone) (c_lru c),
             c_segments := map (\<lambda>(g, seg). (g, AList.delete k seg)) (c_segments c)\<rparr>"
  have c: "cache_Delete k c = ?c"
    by (simp add: cache_Delete_def split_beta delete_walk_lru delete_walk_map)
  have gone: "\<exists>g. entry_at c g k = Some e" if "seg \<in> snd ` set (c_segments c)" "map_of seg k = Some e" for seg e
  proof -
    from that(1) obtain g where "(g, seg) \<in> set (c_segments c)" by auto
    then have "map_of (c_segments c) g = Some seg" using ok by (simp add: cache_ok_def maps_ok_def)
    then have "entry_at c g k = Some e" using that(2) by (simp add: entry_at_def seg_of_def)
    then show ?thesis ..
  qed
  have "links_ok (entry_at ?c) (filter (\<lambda>p. Some (fst p) \<notin> ?gone) (c_lru c)) (c_next c)"
  proof (rule links_filter [where P = "\<lambda>el. Some el \<notin> ?gone"])
    show l: "links_ok (entry_at c) (c_lru c) (c_next c)" using ok by (simp add: cache_ok_def)
    fix g k' e assume "entry_at ?c g k' = Some e"
    then have e: "entry_at c g k' = Some e" and ne: "k' \<noteq> k" by (simp_all add: entry_at_map_seg split: if_splits)
    show "entry_at c g k' = Some e" by (rule e)
    fix el assume "e_element e = Some el"
    then show "Some el \<notin> ?gone" using gone links_okD(4) [OF l e] ne by fastforce
  qed
  then show ?thesis
    using ok maps_ok_map_seg [of c "AList.delete k"] unfolding c by (simp add: cache_ok_def maps_ok_def)
qed

lemma cache_ok_update_entry:
  assumes ok: "cache_ok c" and e: "entry_at c g k = Some e" and same: "e_element d = e_element e"
  shows "cache_ok ((put_seg g (AList.update k d (seg_of c g)) c)\<lparr>c_lru := element_MoveToFront x (c_lru c)\<rparr>)"
proof -
  have "links_ok (entry_at (put_seg g (AList.update k d (seg_of c g)) c)) (c_lru c) (c_next c)"
  proof (rule links_update_entry)
    show "links_ok (entry_at c) (c_lru c) (c_next c)" using ok by (simp add: cache_ok_def)
    show "entry_at (put_seg g (AList.update k d (seg_of c g)) c) g' k' =
        (if g' = g \<and> k' = k then Some d else entry_at c g' k')" for g' k'
      by (simp add: entry_at_def)
  qed (fact e same)+
  then show ?thesis
    using ok by (simp add: cache_ok_def maps_ok_put_seg maps_ok_seg_of links_move)
qed

lemma entry_at_ensure [simp]: "entry_at (ensure_segment g c) = entry_at c"
  by (intro ext) (simp add: entry_at_def)

lemma cache_ok_ensure: "cache_ok c \<Longrightarrow> cache_ok (ensure_segment g c)"
  by (auto simp: cache_ok_def) (simp add: ensure_segment_def maps_ok_put_seg)

lemma cache_ok_evictLRU:
  assumes ok: "cache_ok c"
  shows "cache_ok (evictLRU c)"
proof (cases "rev (c_lru c)")
  case Nil
  then show ?thesis using ok by (simp add: evictLRU_def)
next
  case (Cons p r)
  obtain el ek where p: "p = (el, ek)" by (cases p)
  have l: "links_ok (entry_at c) (c_lru c) (c_next c)" using ok by (simp add: cache_ok_def)
  have mem: "(el, ek) \<in> set (c_lru c)" using Cons p by (metis list.set_intros(1) set_rev)
  let ?c = "c\<lparr>c_lru := list_Remove el (c_lru c),
             c_segments := map (\<lambda>(g, seg). (g, AList.delete ek seg)) (c_segments c)\<rparr>"
  have "links_ok (entry_at ?c) (filter (\<lambda>p. fst p \<noteq> el) (c_lru c)) (c_next c)"
  proof (rule links_filter [OF l])
    fix g k e assume "entry_at ?c g k = Some e"
    then have e: "entry_at c g k = Some e" and ne: "k \<noteq> ek" by (simp_all add: entry_at_map_seg split: if_splits)
    show "entry_at c g k = Some e" by (rule e)
    fix x assume "e_element e = Some x"
    then have "(x, k) \<in> set (c_lru c)" using links_okD(3) [OF l e] by auto
    then show "x \<noteq> el" using same_element [OF links_okD(1) [OF l] _ mem] ne by fastforce
  qed
  then have "cache_ok ?c"
    using ok maps_ok_map_seg [of c "AList.delete ek"] by (simp add: cache_ok_def maps_ok_def list_Remove_def)
  then show ?thesis using ok by (simp add: evictLRU_def Cons p)
qed

lemma cache_ok_insert_new:
  assumes ok: "cache_ok c"
  shows "cache_ok (insert_new k v x c)"
proof -
  let ?e = "\<lparr>e_element = Some (c_next c), e_expiry = x, e_key = k, e_value = v\<rparr>"
  let ?g = "c_currentChecksum c"
  have "links_ok (entry_at (put_seg ?g (AList.update k ?e (seg_of c ?g)) c)) ((c_next c, k) # c_lru c) (Suc (c_next c))"
    using ok by (intro links_insert [where ent = "entry_at c" and g = ?g and e = ?e]) (auto simp: cache_ok_def entry_at_def)
  then show ?thesis
    using ok by (simp add: cache_ok_def insert_new_def maps_ok_put_seg maps_ok_seg_of)
qed

lemma cache_ok_setLocked: "cache_ok c \<Longrightarrow> cache_ok (setLocked now k v o' c)"
  using cache_ok_update_entry [OF cache_ok_ensure, of c "c_currentChecksum c" "c_currentChecksum c" k]
  by (auto simp: setLocked_def Let_def entry_at_def split: option.split
        intro!: cache_ok_insert_new cache_ok_evictLRU cache_ok_ensure)

lemma cache_ok_Update: "cache_ok c \<Longrightarrow> cache_ok (snd (snd (cache_Update now k fn opts c)))"
  by (simp add: cache_Update_def Let_def split_beta cache_ok_setLocked)

lemma cache_ok_tryDecrement: "cache_ok c \<Longrightarrow> cache_ok (snd (tryDecrementEntry now k g c))"
  by (auto simp: tryDecrementEntry_def entry_at_def split: option.splits intro!: cache_ok_update_entry)

lemma cache_ok_decrement_walk: "cache_ok c \<Longrightarrow> cache_ok (snd (decrement_walk now k gs c))"
proof (induction gs arbitrary: c)
  case (Cons g gs)
  then show ?case
    using cache_ok_tryDecrement [of c now k g] by (auto split: prod.splits option.splits)
qed simp

lemma cache_ok_Decrement: "cache_ok c \<Longrightarrow> cache_ok (snd (DecrementIfPositive now k c))"
  using cache_ok_tryDecrement [of c now k "c_currentChecksum c"]
  by (auto simp: DecrementIfPositive_def split: prod.splits option.splits intro: cache_ok_decrement_walk)

section \<open>The reaper and the manager keep the invariant\<close>

definition dead_elements :: "instant \<Rightarrow> segment \<Rightarrow> nat option set" where
  "dead_elements now seg = {e_element e |k e. (k, e) \<in> set seg \<and> expired now e}"

lemma reap_seg_is:
  "reap_seg now l seg = (filter (\<lambda>p. Some (fst p) \<notin> dead_elements now seg) l, filter (\<lambda>(k, e). \<not> expired now e) seg)"
proof (induction seg arbitrary: l)
  case (Cons x seg)
  obtain k e where x: "x = (k, e)" by (cases x)
  show ?case
    by (auto simp: x Cons.IH element_Remove_filter dead_elements_def intro!: filter_cong)
qed (simp add: dead_elements_def)

lemma reap_walk_is:
  "reap_walk now l segs =
     (filter (\<lambda>p. Some (fst p) \<notin> (\<Union>seg \<in> snd ` set segs. dead_elements now seg)) l,
      map (\<lambda>(g, seg). (g, filter (\<lambda>(k, e). \<not> expired now e) seg)) segs)"
  by (induction segs arbitrary: l) (auto simp: reap_seg_is Let_def intro!: filter_cong)

lemma map_of_filter_Some:
  "distinct (map fst m) \<Longrightarrow> map_of (filter (\<lambda>(k, e). P e) m) k = Some e \<Longrightarrow> map_of m k = Some e \<and> P e"
  by (induction m) (force split: if_splits dest: map_of_SomeD)+

lemma cache_ok_reap:
  assumes ok: "cache_ok c"
  shows "cache_ok (reap now c)"
proof -
  let ?f = "filter (\<lambda>(k, e). \<not> expired now e)"
  let ?dead = "\<Union>seg \<in> snd ` set (c_segments c). dead_elements now seg"
  let ?c = "c\<lparr>c_lru := filter (\<lambda>p. Some (fst p) \<notin> ?dead) (c_lru c),
             c_segments := map (\<lambda>(g, seg). (g, ?f seg)) (c_segments c)\<rparr>"
  have c: "reap now c = ?c" by (simp add: reap_def reap_walk_is)
  have l: "links_ok (entry_at c) (c_lru c) (c_next c)" and m: "maps_ok c" using ok by (auto simp: cache_ok_def)
  have dead: "\<exists>g k d. entry_at c g k = Some d \<and> expired now d \<and> e_element d = x" if x: "x \<in> ?dead" for x
  proof -
    from x obtain g seg k d where d: "(g, seg) \<in> set (c_segments c)" "(k, d) \<in> set seg" "expired now d" "x = e_element d"
      by (auto simp: dead_elements_def)
    moreover have "distinct (map fst seg)" using m d(1) by (auto simp: maps_ok_def)
    ultimately have "entry_at c g k = Some d" using m by (simp add: entry_at_def seg_of_def maps_ok_def)
    then show ?thesis using d by blast
  qed
  have "links_ok (entry_at ?c) (filter (\<lambda>p. Some (fst p) \<notin> ?dead) (c_lru c)) (c_next c)"
  proof (rule links_filter [OF l, where P = "\<lambda>x. Some x \<notin> ?dead"])
    fix g k e assume "entry_at ?c g k = Some e"
    then have "map_of (?f (seg_of c g)) k = Some e"
      by (auto simp: entry_at_def seg_of_def map_of_map_seg split: option.splits)
    then have e: "entry_at c g k = Some e" and live: "\<not> expired now e"
      using map_of_filter_Some [OF maps_ok_seg_of [OF m]] by (auto simp: entry_at_def)
    show "entry_at c g k = Some e" by (rule e)
    fix x assume "e_element e = Some x"
    then show "Some x \<notin> ?dead" using dead links_okD(4) [OF l e] live e by (metis option.inject)
  qed
  then show ?thesis
    using m maps_ok_map_seg [of c ?f] unfolding c by (simp add: cache_ok_def maps_ok_def distinct_map_filter)
qed

lemma map_of_filter_key: "map_of (filter (\<lambda>(g, _). P g) m) g = (if P g then map_of m g else None)"
  by (induction m) auto

lemma cache_ok_keep: "cache_ok c \<Longrightarrow> cache_ok (keep_generations P c)"
  unfolding cache_ok_def
  by (auto simp: keep_generations_def maps_ok_def distinct_map_filter entry_at_def seg_of_def map_of_filter_key
        split: if_splits elim!: links_shrink)

lemma cache_ok_fields [simp]:
  "cache_ok (c\<lparr>c_maxItems := n\<rparr>) = cache_ok c"
  "cache_ok (c\<lparr>c_ttl := t\<rparr>) = cache_ok c"
  "cache_ok (c\<lparr>c_updateChan := u\<rparr>) = cache_ok c"
  "cache_ok (c\<lparr>c_uncycled := b\<rparr>) = cache_ok c"
  "cache_ok (c\<lparr>c_currentChecksum := h\<rparr>) = cache_ok c"
  by (simp_all add: cache_ok_def maps_ok_def entry_at_def [abs_def] seg_of_def)

lemma cache_ok_cycle: "cache_ok c \<Longrightarrow> cache_ok (cycle_cache checksum force c)"
  by (simp add: cycle_cache_def Let_def cache_ok_keep cache_ok_ensure)

lemma cache_ok_reconfigure: "cache_ok c \<Longrightarrow> cache_ok (reconfigure opts mgr c)"
  by (simp add: reconfigure_def Let_def cache_ok_keep split: option.split)

lemma cache_ok_new: "cache_ok (new_cache class opts m)"
  by (auto simp: cache_ok_def maps_ok_def links_ok_def entry_at_def seg_of_def new_cache_def)

section \<open>Reachable states and the bound on entries\<close>

text \<open>
  One step of the life of a cache: an operation of a client, of the reaper or of the manager.
  A reconfiguration that changes \<open>MaxItems\<close> is left to \<open>mem_step\<close>'s caller: \<open>cache_reach M\<close>
  follows the states of a cache whose \<open>maxItems\<close> is \<open>M\<close> throughout.
\<close>

inductive mem_step :: "InMemoryCache \<Rightarrow> InMemoryCache \<Rightarrow> bool" where
  step_get: "mem_step c (snd (cache_Get now k c))"
| step_take: "mem_step c (snd (cache_GetAndDelete now k c))"
| step_set: "mem_step c (cache_Set now k v opts c)"
| step_update: "mem_step c (snd (snd (cache_Update now k fn opts c)))"
| step_delete: "mem_step c (cache_Delete k c)"
| step_decrement: "mem_step c (snd (DecrementIfPositive now k c))"
| step_reap: "mem_step c (reap now c)"
| step_reaper_update: "reaper_update now c = Some (d, c') \<Longrightarrow> mem_step c c'"
| step_cycle: "mem_step c (cycle_cache checksum force c)"
| step_reconfigure: "mem_step c (reconfigure opts mgr_checksum c)"

inductive cache_reach :: "int \<Rightarrow> InMemoryCache \<Rightarrow> bool" for M where
  reach_new: "c_maxItems (new_cache class opts m) = M \<Longrightarrow> cache_reach M (new_cache class opts m)"
| reach_step: "cache_reach M c \<Longrightarrow> mem_step c c' \<Longrightarrow> c_maxItems c' = M \<Longrightarrow> cache_reach M c'"

lemma mem_step_ok: "mem_step c c' \<Longrightarrow> cache_ok c \<Longrightarrow> cache_ok c'"
proof (induction rule: mem_step.induct)
  case (step_reaper_update now c d c')
  then show ?case by (auto simp: reaper_update_def cache_ok_reap split: option.splits)
qed (simp_all add: cache_Get_def cache_GetAndDelete_def cache_Set_def cache_ok_lookup cache_ok_setLocked
       cache_ok_Update cache_ok_delete cache_ok_Decrement cache_ok_reap cache_ok_cycle cache_ok_reconfigure)

lemma cache_reach_ok: "cache_reach M c \<Longrightarrow> cache_ok c"
  by (induction rule: cache_reach.induct) (auto intro: cache_ok_new mem_step_ok)

text \<open>How the LRU list grows: only a \<open>Set\<close> of a new key adds to it, after making room.\<close>

lemma length_list_Remove_le: "length (list_Remove el l) \<le> length l"
  by (simp add: list_Remove_def)

lemma length_element_Remove_le: "length (element_Remove x l) \<le> length l"
  by (cases x) (simp_all add: length_list_Remove_le)

lemma length_list_MoveToFront: "distinct (map fst l) \<Longrightarrow> length (list_MoveToFront el l) = length l"
  using distinct_list_MoveToFront [of l el] set_list_MoveToFront [of l el]
  by (metis distinct_card distinct_map)

lemma length_element_MoveToFront: "cache_ok c \<Longrightarrow> length (element_MoveToFront x (c_lru c)) = length (c_lru c)"
  by (cases x) (auto simp: cache_ok_def links_ok_def length_list_MoveToFront)

lemma length_evictLRU:
  assumes "c_maxItems c > 0"
  shows "int (length (c_lru (evictLRU c))) + 1 \<le> max (c_maxItems c) (int (length (c_lru c)))"
proof (cases "rev (c_lru c)")
  case Nil
  then show ?thesis using assms by (simp add: evictLRU_def)
next
  case (Cons p r)
  then have mem: "p \<in> set (c_lru c)" by (metis list.set_intros(1) set_rev)
  have "length (list_Remove (fst p) (c_lru c)) < length (c_lru c)"
    unfolding list_Remove_def by (rule length_filter_less [OF mem]) simp
  then show ?thesis using assms Cons by (auto simp: evictLRU_def split: prod.splits)
qed

lemma length_setLocked:
  assumes "cache_ok c" and "c_maxItems c > 0"
  shows "int (length (c_lru (setLocked now k v o' c))) \<le> max (c_maxItems c) (int (length (c_lru c)))"
  using assms length_evictLRU [of "ensure_segment (c_currentChecksum c) c"]
  by (auto simp: setLocked_def Let_def insert_new_def length_element_MoveToFront split: option.split)

lemma length_tryDecrement: "cache_ok c \<Longrightarrow> length (c_lru (snd (tryDecrementEntry now k g c))) = length (c_lru c)"
  by (auto simp: tryDecrementEntry_def length_element_MoveToFront split: option.split)

lemma length_decrement_walk: "cache_ok c \<Longrightarrow> length (c_lru (snd (decrement_walk now k gs c))) = length (c_lru c)"
proof (induction gs arbitrary: c)
  case (Cons g gs)
  then show ?case
    using cache_ok_tryDecrement [of c now k g] length_tryDecrement [of c now k g]
    by (auto split: prod.splits option.splits)
qed simp

lemma length_Decrement: "cache_ok c \<Longrightarrow> length (c_lru (snd (DecrementIfPositive now k c))) = length (c_lru c)"
  using cache_ok_tryDecrement [of c now k "c_currentChecksum c"] length_tryDecrement [of c now k "c_currentChecksum c"]
  by (auto simp: DecrementIfPositive_def length_decrement_walk split: prod.splits option.splits)

lemma length_lookup: "cache_ok c \<Longrightarrow> length (c_lru (snd (lookupLocked now k evict c))) \<le> length (c_lru c)"
  by (auto simp: lookupLocked_split lookup_hit_def length_element_MoveToFront length_element_Remove_le split: option.split)

lemma length_delete_reap:
  "length (c_lru (cache_Delete k c)) \<le> length (c_lru c)" "length (c_lru (reap now c)) \<le> length (c_lru c)"
  by (simp_all add: cache_Delete_def reap_def split_beta delete_walk_lru reap_walk_is)

lemma length_manager [simp]:
  "c_lru (cycle_cache checksum force c) = c_lru c" "c_lru (reconfigure opts mgr c) = c_lru c"
  by (simp_all add: cycle_cache_def reconfigure_def keep_generations_def Let_def split: option.split)

lemma mem_step_length:
  assumes "mem_step c c'" and "cache_ok c" and "c_maxItems c > 0"
  shows "int (length (c_lru c')) \<le> max (c_maxItems c) (int (length (c_lru c)))"
  using assms
proof (induction rule: mem_step.induct)
  case (step_get c now k)
  then show ?case using length_lookup [of c now k False] by (simp add: cache_Get_def)
next
  case (step_take c now k)
  then show ?case using length_lookup [of c now k True] by (simp add: cache_GetAndDelete_def)
next
  case (step_reaper_update now c d c')
  then show ?case
    using length_delete_reap(2) [of now "c\<lparr>c_updateChan := None\<rparr>"] by (auto simp: reaper_update_def split: option.splits)
next
  case (step_delete c k)
  then show ?case using length_delete_reap(1) [of k c] by simp
next
  case (step_reap c now)
  then show ?case using length_delete_reap(2) [of now c] by simp
qed (auto simp: cache_Set_def cache_Update_def Let_def split_beta length_setLocked length_Decrement)

text \<open>An entry's element is its own, so there are at least as many elements as entries.\<close>

definition all_keys :: "InMemoryCache \<Rightarrow> (string \<times> string) list" where
  "all_keys c = concat (map (\<lambda>(g, seg). map (\<lambda>(k, e). (g, k)) seg) (c_segments c))"

lemma length_all_keys: "length (all_keys c) = entry_count c"
proof -
  have "length (concat (map (\<lambda>(g, seg). map (\<lambda>(k, e). (g, k)) seg) segs)) = sum_list (map (\<lambda>(g, seg). length seg) segs)"
    for segs :: "segment gomap"
    by (induction segs) auto
  then show ?thesis by (simp add: all_keys_def entry_count_def)
qed

lemma distinct_all_keys_aux:
  "distinct (map fst segs) \<Longrightarrow> \<forall>seg \<in> set (map snd segs). distinct (map fst seg) \<Longrightarrow>
     distinct (concat (map (\<lambda>(g, seg). map (\<lambda>(k, e). (g, k)) seg) segs))"
proof (induction segs)
  case (Cons x segs)
  obtain g seg where x: "x = (g, seg)" by (cases x)
  have "map (\<lambda>(k, e). (g, k)) seg = map (Pair g) (map fst seg)" by auto
  then have "distinct (map (\<lambda>(k, e). (g, k)) seg)"
    using Cons.prems by (simp add: x distinct_map [of "Pair g"] inj_on_def del: map_map)
  then show ?case using Cons by (force simp: x)
qed simp

lemma all_keys_entry: "cache_ok c \<Longrightarrow> (g, k) \<in> set (all_keys c) \<Longrightarrow> \<exists>e. entry_at c g k = Some e"
  by (force simp: all_keys_def cache_ok_def maps_ok_def entry_at_def seg_of_def split: prod.splits)

lemma entry_count_le_lru:
  assumes ok: "cache_ok c"
  shows "entry_count c \<le> length (c_lru c)"
proof -
  have l: "links_ok (entry_at c) (c_lru c) (c_next c)" using ok by (simp add: cache_ok_def)
  define elt where "elt = (\<lambda>(g, k). the (e_element (the (entry_at c g k))))"
  have elt: "entry_at c g k = Some e \<Longrightarrow> e_element e = Some (elt (g, k)) \<and> elt (g, k) \<in> fst ` set (c_lru c)" for g k e
    using links_okD(3) [OF l, of g k e] by (force simp: elt_def)
  have "inj_on elt (set (all_keys c))"
  proof (rule inj_onI, clarify)
    fix g k g' k' assume "(g, k) \<in> set (all_keys c)" "(g', k') \<in> set (all_keys c)" and eq: "elt (g, k) = elt (g', k')"
    then obtain e e' where "entry_at c g k = Some e" "entry_at c g' k' = Some e'"
      using all_keys_entry [OF ok] by blast
    then show "g = g' \<and> k = k'" using elt eq links_okD(4) [OF l] by metis
  qed
  moreover have "elt ` set (all_keys c) \<subseteq> fst ` set (c_lru c)"
    using all_keys_entry [OF ok] elt by fast
  ultimately have "card (set (all_keys c)) \<le> card (fst ` set (c_lru c))"
    by (intro card_inj_on_le) auto
  moreover have "distinct (all_keys c)"
    using ok distinct_all_keys_aux [of "c_segments c"] by (simp add: all_keys_def cache_ok_def maps_ok_def)
  moreover have "card (fst ` set (c_lru c)) \<le> length (c_lru c)"
    by (metis card_length length_map set_map)
  ultimately show ?thesis by (simp add: length_all_keys [symmetric] distinct_card)
qed

lemma cache_reach_length: "cache_reach M c \<Longrightarrow> M > 0 \<Longrightarrow> int (length (c_lru c)) \<le> M \<and> c_maxItems c = M"
proof (induction rule: cache_reach.induct)
  case (reach_new cl opts m)
  then show ?case by (simp add: new_cache_def)
next
  case (reach_step c c')
  then show ?case using mem_step_length [OF reach_step(2) cache_reach_ok [OF reach_step(1)]] by auto
qed

section \<open>Bounded-use counters, generations, and the manager\<close>

text \<open>Repeated \<open>DecrementIfPositive\<close> calls of one key, counting those that succeed.\<close>

fun decrement_times :: "instant list \<Rightarrow> string \<Rightarrow> InMemoryCache \<Rightarrow> nat \<times> InMemoryCache" where
  "decrement_times [] k c = (0, c)"
| "decrement_times (t # ts) k c =
     (let ((n, ok), c') = DecrementIfPositive t k c; (m, c'') = decrement_times ts k c'
      in (if ok then Suc m else m, c''))"

text \<open>What one host does to the cache manager: reconfigurations and cache requests.\<close>

datatype mgr_op = MCycle string bool | MGetCache string CacheOptions

fun mgr_step :: "mgr_op \<Rightarrow> InMemoryCacheManager \<Rightarrow> InMemoryCacheManager" where
  "mgr_step (MCycle checksum force) m = Cycle checksum force m"
| "mgr_step (MGetCache cl opts) m = GetCache cl opts m"

lemma decrement_live:
  assumes "map_of (seg_of c (c_currentChecksum c)) k = Some e" and "t \<le> e_expiry e" and "ParseInt (e_value e) = Some n"
  shows "DecrementIfPositive t k c =
    (if n \<le> 0 then ((-1, False), c)
     else ((n - 1, True),
       (put_seg (c_currentChecksum c)
          (AList.update k (e\<lparr>e_value := FormatInt (n - 1)\<rparr>) (seg_of c (c_currentChecksum c))) c)
          \<lparr>c_lru := element_MoveToFront (e_element e) (c_lru c)\<rparr>))"
  using assms by (simp add: DecrementIfPositive_def tryDecrementEntry_def expired_def)

lemma decrement_times_live:
  assumes "map_of (seg_of c (c_currentChecksum c)) k = Some e" and "\<forall>t \<in> set ts. t \<le> e_expiry e"
    and "e_value e = FormatInt n" and "0 \<le> n" and "n \<le> int64_max"
  shows "fst (decrement_times ts k c) = min (length ts) (nat n)"
  using assms
proof (induction ts arbitrary: c e n)
  case (Cons t ts)
  have p: "ParseInt (e_value e) = Some n" using Cons.prems by (simp add: ParseInt_FormatInt)
  show ?case
  proof (cases "n = 0")
    case True
    then have "DecrementIfPositive t k c = ((-1, False), c)"
      using Cons.prems p by (simp add: decrement_live)
    then show ?thesis using Cons.IH [OF Cons.prems(1)] Cons.prems True by (simp add: split_beta)
  next
    case False
    define c' where "c' = snd (DecrementIfPositive t k c)"
    have d: "DecrementIfPositive t k c = ((n - 1, True), c')"
      using Cons.prems p False by (simp add: decrement_live c'_def)
    have "map_of (seg_of c' (c_currentChecksum c')) k = Some (e\<lparr>e_value := FormatInt (n - 1)\<rparr>)"
      using Cons.prems p False by (simp add: decrement_live c'_def)
    from Cons.IH [OF this, of "n - 1"] Cons.prems False
    have "fst (decrement_times ts k c') = min (length ts) (nat (n - 1))" by simp
    then show ?thesis using d False Cons.prems by (simp add: split_beta nat_diff_distrib)
  qed
qed simp

lemma seg_of_keep: "seg_of (keep_generations P c) g = (if P g then seg_of c g else [])"
  by (simp add: seg_of_def keep_generations_def map_of_filter_key)

lemma keep_frame [simp]: "c_currentChecksum (keep_generations P c) = c_currentChecksum c"
  "c_uncycled (keep_generations P c) = c_uncycled c"
  by (simp_all add: keep_generations_def)

lemma prev_walk_some:
  "map_of segs g = Some seg \<Longrightarrow> map_of seg k = Some e \<Longrightarrow> g \<noteq> cur \<Longrightarrow> prev_walk cur k segs \<noteq> None"
  by (induction segs) (auto split: if_splits option.splits)

lemma cache_ok_prev_walk:
  assumes "cache_ok c" and "g \<noteq> cur" and "map_of (seg_of c g) k = Some e"
    and "\<And>h. h \<noteq> cur \<Longrightarrow> h \<noteq> g \<Longrightarrow> map_of (seg_of c h) k = None"
  shows "prev_walk cur k (c_segments c) = Some (g, e)"
proof (cases "prev_walk cur k (c_segments c)")
  case None
  obtain seg where "map_of (c_segments c) g = Some seg" "map_of seg k = Some e"
    using assms(3) by (auto simp: seg_of_def split: option.splits)
  then have "prev_walk cur k (c_segments c) \<noteq> None"
    using assms(2) by (rule prev_walk_some)
  then show ?thesis using None by simp
next
  case (Some p)
  obtain h d where p: "p = (h, d)" by (cases p)
  have "distinct (map fst (c_segments c))" using assms(1) by (simp add: cache_ok_def maps_ok_def)
  from prev_walk_entry [OF this Some [unfolded p]]
  have "map_of (seg_of c h) k = Some d" "h \<noteq> cur" by (auto simp: seg_of_def)
  then show ?thesis using assms(3,4) Some p by (cases "h = g") auto
qed

lemma cycle_seg:
  assumes "\<not> c_uncycled c" and "g' \<noteq> c_currentChecksum c"
  shows "seg_of (cycle_cache g' force c) h =
     (if h = g' \<or> (\<not> force \<and> h = c_currentChecksum c) then seg_of c h else [])"
    and "c_currentChecksum (cycle_cache g' force c) = g'"
    and "c_uncycled (cycle_cache g' force c) = c_uncycled c"
  using assms by (auto simp: cycle_cache_def Let_def seg_of_keep)

lemma prev_walk_none:
  "(\<And>g seg. (g, seg) \<in> set segs \<Longrightarrow> g \<noteq> cur \<Longrightarrow> map_of seg k = None) \<Longrightarrow> prev_walk cur k segs = None"
proof (induction segs)
  case (Cons x segs)
  obtain g seg where x: "x = (g, seg)" by (cases x)
  have "prev_walk cur k segs = None" using Cons.prems by (intro Cons.IH) auto
  moreover have "g \<noteq> cur \<Longrightarrow> map_of seg k = None" using Cons.prems [of g seg] by (simp add: x)
  ultimately show ?case by (simp add: x)
qed simp

lemma cache_view_cong:
  "c_segments c' = c_segments c \<Longrightarrow> c_currentChecksum c' = c_currentChecksum c \<Longrightarrow> cache_view t c' = cache_view t c"
  by (rule ext) (simp add: cache_view_def lookup_entry_def seg_of_def cong: option.case_cong)

lemma lookup_none:
  assumes "cache_ok c" and "\<And>g. map_of (seg_of c g) k = None"
  shows "fst (cache_Get t k c) = ('''', False, True)"
proof -
  have "prev_walk (c_currentChecksum c) k (c_segments c) = None"
  proof (rule prev_walk_none)
    fix g seg assume "(g, seg) \<in> set (c_segments c)"
    then have "map_of (c_segments c) g = Some seg" using assms(1) by (simp add: cache_ok_def maps_ok_def)
    then show "map_of seg k = None" using assms(2) [of g] by (simp add: seg_of_def)
  qed
  then show ?thesis using assms(2) by (simp add: cache_Get_def lookupLocked_result lookup_entry_def)
qed

text \<open>C40: a cache that starts empty and is capped at \<open>M\<close> items keeps its invariant and never holds more
  than \<open>M\<close> entries, across all generations, whatever clients, reaper and manager do.\<close>

theorem cache_bounded:
  assumes "cache_reach M c" and "M > 0"
  shows "cache_ok c \<and> int (entry_count c) \<le> M"
  using cache_reach_ok [OF assms(1)] entry_count_le_lru [of c] cache_reach_length [OF assms] by linarith

definition demo_opts :: CacheOptions where
  "demo_opts = \<lparr>o_MaxItems = Some 2, o_TTL = None, o_Uncycled = False\<rparr>"

definition demo_cache :: InMemoryCache where
  "demo_cache = new_cache ''page'' demo_opts (NewCacheManager ''host'' None)"

lemma demo_reach: "cache_reach 2 (cache_Set 5 ''a'' ''x'' [] demo_cache)"
proof (rule cache_reach.reach_step)
  show "cache_reach 2 demo_cache"
    unfolding demo_cache_def by (rule cache_reach.reach_new) (simp add: new_cache_def demo_opts_def)
  show "mem_step demo_cache (cache_Set 5 ''a'' ''x'' [] demo_cache)" by (rule mem_step.step_set)
  show "c_maxItems (cache_Set 5 ''a'' ''x'' [] demo_cache) = 2"
    by (simp add: demo_cache_def new_cache_def demo_opts_def)
qed

theorem cache_bounded_witness:
  "cache_reach 2 (cache_Set 5 ''a'' ''x'' [] demo_cache) \<and>
   int (entry_count (cache_Set 5 ''a'' ''x'' [] demo_cache)) \<le> 2 \<and> entry_count (cache_Set 5 ''a'' ''x'' [] demo_cache) = 1"
proof -
  have "entry_count (cache_Set 5 ''a'' ''x'' [] demo_cache) = 1" by code_simp
  then show ?thesis using demo_reach cache_bounded [OF demo_reach] by simp
qed

text \<open>A counter stored as \<open>n\<close> grants exactly \<open>n\<close> uses: of any number of calls of
  \<open>DecrementIfPositive\<close> made while the entry is live, the first \<open>n\<close> succeed and the rest fail.\<close>

theorem decrement_exact:
  assumes "map_of (seg_of c (c_currentChecksum c)) k = Some e" and "\<forall>t \<in> set ts. t \<le> e_expiry e"
    and "e_value e = FormatInt n" and "0 \<le> n" and "n \<le> int64_max"
  shows "fst (decrement_times ts k c) = min (length ts) (nat n)"
  using assms by (rule decrement_times_live)

definition demo_counter :: InMemoryCache where
  "demo_counter = cache_Set 0 ''cap'' ''2'' [WithTTL 100] demo_cache"

theorem decrement_exact_witness:
  "fst (decrement_times [10, 20, 30] ''cap'' demo_counter) = 2"
proof -
  let ?e = "\<lparr>e_element = Some 0, e_expiry = 100, e_key = ''cap'', e_value = ''2''\<rparr>"
  have "map_of (seg_of demo_counter (c_currentChecksum demo_counter)) ''cap'' = Some ?e" by code_simp
  moreover have "e_value ?e = FormatInt 2" by code_simp
  ultimately show ?thesis
    using decrement_exact [of demo_counter "''cap''" ?e "[10, 20, 30]" 2] by simp
qed

text \<open>A plain cycle to a new generation keeps the previous generation readable, flagged as not
  current; the next cycle, or a forced one, makes its entries unreachable.\<close>

theorem cycle_generations:
  assumes ok: "cache_ok c" and cyc: "\<not> c_uncycled c" and g: "c_currentChecksum c = g"
    and e: "map_of (seg_of c g) k = Some e" and live: "t \<le> e_expiry e"
    and new: "g' \<noteq> g" "g'' \<noteq> g" "g'' \<noteq> g'" "map_of (seg_of c g') k = None" "map_of (seg_of c g'') k = None"
  shows "fst (cache_Get t k (cycle_cache g' False c)) = (e_value e, True, False) \<and>
    fst (cache_Get t k (cycle_cache g'' False (cycle_cache g' False c))) = ('''', False, True) \<and>
    fst (cache_Get t k (cycle_cache g' True c)) = ('''', False, True)"
proof (intro conjI)
  let ?c1 = "cycle_cache g' False c"
  have g'g: "g' \<noteq> c_currentChecksum c" using new(1) g by simp
  note seg1 = cycle_seg [OF cyc g'g]
  have ok1: "cache_ok ?c1" by (rule cache_ok_cycle [OF ok])
  have "prev_walk g' k (c_segments ?c1) = Some (g, e)"
    using ok1 new e g by (intro cache_ok_prev_walk) (auto simp: seg1)
  then show "fst (cache_Get t k ?c1) = (e_value e, True, False)"
    using new live by (simp add: cache_Get_def lookupLocked_result lookup_entry_def seg1 expired_def)
  have seg2: "seg_of (cycle_cache g'' False ?c1) h = (if h = g'' \<or> h = g' then seg_of ?c1 h else [])" for h
    using cyc new by (subst cycle_seg) (auto simp: seg1)
  show "fst (cache_Get t k (cycle_cache g'' False ?c1)) = ('''', False, True)"
    using ok1 new g by (intro lookup_none) (auto simp: seg2 seg1 intro: cache_ok_cycle)
  show "fst (cache_Get t k (cycle_cache g' True c)) = ('''', False, True)"
    using ok new by (intro lookup_none) (auto simp: seg1 intro: cache_ok_cycle)
qed

theorem cycle_generations_witness:
  "fst (cache_Get 7 ''a'' (cycle_cache ''1'' False (cache_Set 5 ''a'' ''x'' [] demo_cache))) = (''x'', True, False)"
proof -
  let ?c = "cache_Set 5 ''a'' ''x'' [] demo_cache"
  let ?e = "\<lparr>e_element = Some 0, e_expiry = 5 + 24 * hour, e_key = ''a'', e_value = ''x''\<rparr>"
  have "map_of (seg_of ?c ''0'') ''a'' = Some ?e" "c_currentChecksum ?c = ''0''" "\<not> c_uncycled ?c"
    "map_of (seg_of ?c ''1'') ''a'' = None" "map_of (seg_of ?c ''2'') ''a'' = None"
    by code_simp+
  then show ?thesis
    using cycle_generations [OF cache_reach_ok [OF demo_reach], of "''0''" "''a''" ?e 7 "''1''" "''2''"] by simp
qed

lemma mgr_step_surviving:
  assumes "map_of (m_caches m) cl = Some c" and "surviving c"
    and "\<And>opts. op = MGetCache cl opts \<Longrightarrow> o_Uncycled opts"
  shows "\<exists>c'. map_of (m_caches (mgr_step op m)) cl = Some c' \<and> surviving c' \<and> cache_view t c' = cache_view t c"
proof (cases op)
  case (MCycle checksum force)
  have "c_uncycled c" using assms(2) by (simp add: surviving_def)
  then show ?thesis
    using assms(1,2) MCycle by (simp add: Cycle_def map_of_map_seg cycle_cache_def)
next
  case (MGetCache cl' opts)
  show ?thesis
  proof (cases "cl' = cl")
    case False
    then show ?thesis
      using assms(1,2) MGetCache by (auto simp: GetCache_def GetCache_create_def split: option.split)
  next
    case True
    then have u: "o_Uncycled opts" using assms(3) MGetCache by simp
    let ?c = "reconfigure opts (m_currentChecksum m) c"
    have f: "c_segments ?c = c_segments c" "c_currentChecksum ?c = c_currentChecksum c" "c_uncycled ?c"
      using u assms(2) by (auto simp: reconfigure_def Let_def surviving_def split: option.split)
    then have "surviving ?c" using assms(2) by (simp add: surviving_def)
    moreover have "cache_view t ?c = cache_view t c"
      using f by (intro cache_view_cong) simp_all
    ultimately show ?thesis using assms(1) MGetCache True by (simp add: GetCache_def)
  qed
qed

text \<open>State in the surviving scope (revocations, sessions, registered clients) is untouched by any
  sequence of host reconfigurations and re-requests of the cache, forced or not.\<close>

theorem surviving_scope_preserved:
  assumes "map_of (m_caches m) cl = Some c" and "surviving c"
    and "\<forall>opts. MGetCache cl opts \<in> set ops \<longrightarrow> o_Uncycled opts"
  shows "\<exists>c'. map_of (m_caches (fold mgr_step ops m)) cl = Some c' \<and> surviving c' \<and> cache_view t c' = cache_view t c"
  using assms
proof (induction ops arbitrary: m c)
  case (Cons op ops)
  obtain c1 where c1: "map_of (m_caches (mgr_step op m)) cl = Some c1" "surviving c1" "cache_view t c1 = cache_view t c"
    using mgr_step_surviving [OF Cons.prems(1,2), of op t] Cons.prems(3) by auto
  then show ?case using Cons.IH [OF c1(1,2)] Cons.prems(3) by simp
qed auto

definition demo_uncycled :: CacheOptions where
  "demo_uncycled = \<lparr>o_MaxItems = Some 0, o_TTL = None, o_Uncycled = True\<rparr>"

definition demo_manager :: InMemoryCacheManager where
  "demo_manager =
     (let m = GetCache ''sessions'' demo_uncycled (NewCacheManager ''host'' None)
      in m\<lparr>m_caches := [(''sessions'', cache_Set 0 ''s1'' ''alice'' [] (new_cache ''sessions'' demo_uncycled m))]\<rparr>)"

theorem surviving_scope_preserved_witness:
  "\<exists>c'. map_of (m_caches (fold mgr_step
          [MCycle ''7'' True, MGetCache ''sessions'' demo_uncycled, MCycle ''8'' False] demo_manager)) ''sessions'' = Some c' \<and>
        surviving c' \<and> cache_view 5 c' ''s1'' = Some ''alice''"
proof -
  let ?c = "cache_Set 0 ''s1'' ''alice'' [] (new_cache ''sessions'' demo_uncycled (GetCache ''sessions'' demo_uncycled (NewCacheManager ''host'' None)))"
  have m: "map_of (m_caches demo_manager) ''sessions'' = Some ?c" by (simp add: demo_manager_def Let_def)
  have s: "surviving ?c"
    by (intro mem_set_surviving) (simp add: surviving_def new_cache_def demo_uncycled_def)
  have v: "cache_view 5 ?c ''s1'' = Some ''alice''" by code_simp
  show ?thesis
    using surviving_scope_preserved [OF m s, of "[MCycle ''7'' True, MGetCache ''sessions'' demo_uncycled, MCycle ''8'' False]" 5]
      v by (auto simp: demo_uncycled_def)
qed

text \<open>Elements of an abandoned generation stay in the LRU list, so a later \<open>Set\<close> can evict a live,
  recently written key although the cache holds fewer entries than its cap.\<close>

theorem stale_lru_evicts_live_key:
  "let c = cycle_cache ''2'' False (cycle_cache ''1'' False (cache_Set 0 ''k'' ''old'' [] demo_cache));
       c1 = cache_Set 1 ''k'' ''new'' [] c;
       c2 = cache_Set 2 ''j'' ''other'' [] c1
   in entry_count c = 0 \<and> length (c_lru c) = 1 \<and> fst (cache_Get 1 ''k'' c1) = (''new'', True, True) \<and>
      entry_count c1 = 1 \<and> c_maxItems c1 = 2 \<and> fst (cache_Get 2 ''k'' c2) = ('''', False, True)"
  by code_simp

end
