(* ===== verification/Claims.thy ===== *)
theory Claims
  imports Prelude
begin

text \<open>
  Claim sets and the JWT signer: the accessors of \<open>src/internal/auth/context.go\<close>, the signer of
  \<open>src/internal/sign/sign.go\<close> (projection, scope confinement, the expiry gate) and the claim
  helpers of \<open>src/internal/auth/exchange.go\<close>, \<open>config.go\<close> and \<open>session_grants.go\<close> that build
  the signing context.

  A Go \<open>any\<close> held in a claim is a \<open>goany\<close>; \<open>jwt.MapClaims\<close> is a Go map of them. What the code calls
  in third-party packages is a field of \<open>signer_lib\<close>: golang-jwt's \<open>GetSubject\<close> and
  \<open>SignedString\<close>, the entitlements library's \<open>Compact\<close>, and the compiled claim mapper is an
  optional function of the signer.
\<close>

section \<open>Claim values\<close>

text \<open>A float keeps what the code asks of it: whether it is NaN and whether it is zero.\<close>

datatype gofloat = FNaN | FInf bool | FFinite int int

datatype goany =
    VNil
  | VBool bool
  | VInt int               \<comment> \<open>int, int32, int64\<close>
  | VFloat gofloat         \<comment> \<open>float32, float64\<close>
  | VNumber "gofloat option" \<comment> \<open>json.Number, with the result of its Float64\<close>
  | VStr string
  | VStrs "string list"    \<comment> \<open>[]string\<close>
  | VList "goany list"     \<comment> \<open>[]any\<close>
  | VMap "(string \<times> goany) list"
  | VOther                 \<comment> \<open>any other dynamic type\<close>

type_synonym mapclaims = "goany gomap"

fun float_zero :: "gofloat \<Rightarrow> bool" where
  "float_zero (FFinite m e) \<longleftrightarrow> m = 0"
| "float_zero _ \<longleftrightarrow> False"

fun as_string :: "goany \<Rightarrow> string option" where
  "as_string (VStr s) = Some s"
| "as_string _ = None"

text \<open>\<open>s, _ := m[k].(string)\<close> and \<open>b, _ := m[k].(bool)\<close>.\<close>

definition claim_string :: "mapclaims \<Rightarrow> string \<Rightarrow> string" where
  "claim_string m k = (case map_of m k of Some (VStr s) \<Rightarrow> s | _ \<Rightarrow> [])"

definition claim_bool :: "mapclaims \<Rightarrow> string \<Rightarrow> bool" where
  "claim_bool m k = (case map_of m k of Some (VBool b) \<Rightarrow> b | _ \<Rightarrow> False)"

fun any_strings :: "goany list \<Rightarrow> string list option" where
  "any_strings [] = Some []"
| "any_strings (a # as) =
     (case as_string a of None \<Rightarrow> None | Some s \<Rightarrow> map_option (\<lambda>ss. s # ss) (any_strings as))"

section \<open>The auth context\<close>

definition PATBridgeClaim :: string where "PATBridgeClaim = ''pat_bridge''"
definition ClaimIssuedAt :: string where "ClaimIssuedAt = ''iat''"
definition ClaimSubjectKind :: string where "ClaimSubjectKind = ''knd''"
definition GRANT_TYPE_CLIENT_CREDENTIALS :: string where
  "GRANT_TYPE_CLIENT_CREDENTIALS = ''client_credentials''"

definition parseToStringArray :: "mapclaims \<Rightarrow> string \<Rightarrow> goerror + string list" where
  "parseToStringArray ac key =
     (case map_of ac key of
        Some (VStr v) \<Rightarrow> Inr [TrimSpace v]
      | Some (VStrs v) \<Rightarrow> Inr (map TrimSpace v)
      | Some (VList v) \<Rightarrow>
          (case any_strings v of
             None \<Rightarrow> Inl (errorf (key @ '' is invalid''))
           | Some ss \<Rightarrow> Inr (map TrimSpace ss))
      | _ \<Rightarrow> Inr [])"

definition GetEntitlements :: "mapclaims \<Rightarrow> goerror + string list" where
  "GetEntitlements ac = parseToStringArray ac ''entitlements''"

definition GetRoles :: "mapclaims \<Rightarrow> goerror + string list" where
  "GetRoles ac = parseToStringArray ac ''roles''"

definition GetScopes :: "mapclaims \<Rightarrow> goerror + string list" where
  "GetScopes ac =
     (case map_of ac ''scope'' of
        Some (VStr v) \<Rightarrow> Inr (map TrimSpace (Split v CHR '' ''))
      | Some (VStrs v) \<Rightarrow> Inr (map TrimSpace v)
      | Some (VList v) \<Rightarrow>
          (case any_strings v of
             None \<Rightarrow> Inl (errorf (''scope is invalid''))
           | Some ss \<Rightarrow> Inr (map TrimSpace ss))
      | _ \<Rightarrow> Inr [])"

definition IsPATBridge :: "mapclaims \<Rightarrow> bool" where
  "IsPATBridge ac = claim_bool ac PATBridgeClaim"

definition ClientCredentialsSubject :: "mapclaims \<Rightarrow> string \<times> bool" where
  "ClientCredentialsSubject ac =
     (if claim_string ac ''grant_type'' \<noteq> GRANT_TYPE_CLIENT_CREDENTIALS then ([], False)
      else let sub = claim_string ac ''sub'' in (sub, sub \<noteq> []))"

definition GetAuthMethod :: "mapclaims \<Rightarrow> goerror + string" where
  "GetAuthMethod ac =
     (case map_of ac ''auth_method'' of
        Some (VStr s) \<Rightarrow> Inr s
      | _ \<Rightarrow> Inl (errorf ''auth_method is not a string''))"

section \<open>The signer\<close>

text \<open>The third-party code the signer calls.\<close>

record signer_lib =
  lib_GetSubject :: "mapclaims \<Rightarrow> goerror + string"
  lib_Compact :: "string list \<Rightarrow> string list"
  lib_SignedString :: "string \<Rightarrow> string \<Rightarrow> mapclaims \<Rightarrow> goerror + string"

text \<open>golang-jwt's documented \<open>GetSubject\<close>: a missing \<open>sub\<close> is empty, a string is returned, anything
  else is an error.\<close>

definition subject_law :: "signer_lib \<Rightarrow> bool" where
  "subject_law L \<longleftrightarrow>
     (\<forall>c. (map_of c ''sub'' = None \<longrightarrow> lib_GetSubject L c = Inr []) \<and>
          (\<forall>s. map_of c ''sub'' = Some (VStr s) \<longrightarrow> lib_GetSubject L c = Inr s) \<and>
          (\<forall>v. map_of c ''sub'' = Some v \<and> as_string v = None \<longrightarrow> (\<exists>e. lib_GetSubject L c = Inl e)))"

datatype key_type = RSAKey | ECDSAKey | OtherKey

record Signer =
  s_audience :: string
  s_duration :: duration
  s_issuer :: string
  s_key :: key_type
  s_kid :: string
  s_mapper :: "(mapclaims \<Rightarrow> goerror + mapclaims) option"

definition NewSigner ::
  "string \<Rightarrow> duration \<Rightarrow> string \<Rightarrow> key_type option \<Rightarrow> string \<Rightarrow>
   (mapclaims \<Rightarrow> goerror + mapclaims) option \<Rightarrow> goerror + Signer" where
  "NewSigner audience dur issuer privateKey kid mapper =
     (if audience = [] then Inl (errorf ''signer requires an audience'')
      else if dur = 0 then Inl (errorf ''signer requires a duration'')
      else if issuer = [] then Inl (errorf ''signer requires an issuer'')
      else case privateKey of
             None \<Rightarrow> Inl (errorf ''signer requires a private key'')
           | Some key \<Rightarrow>
               if kid = [] then Inl (errorf ''signer requires a key id'')
               else Inr \<lparr>s_audience = audience, s_duration = dur, s_issuer = issuer,
                         s_key = key, s_kid = kid, s_mapper = mapper\<rparr>)"

definition mintDecidedClaims :: "string list" where
  "mintDecidedClaims = [''auth_method'', ClaimSubjectKind]"

definition projectedClaims :: "string list" where
  "projectedClaims = mintDecidedClaims @
     [''email'', ''email_verified'', ''entitlements'', ''idp'', ''roles'', ''scope'', ''scp'',
      ''grant_type'', ''act'']"

definition profileClaims :: "string list" where
  "profileClaims =
     [''birthdate'', ''family_name'', ''gender'', ''given_name'', ''locale'', ''middle_name'',
      ''name'', ''nickname'', ''picture'', ''preferred_username'', ''profile'', ''updated_at'',
      ''website'', ''zoneinfo'']"

definition compactEntitlements :: "signer_lib \<Rightarrow> goany \<Rightarrow> goany" where
  "compactEntitlements L v =
     (case v of
        VStrs ss \<Rightarrow> VStrs (lib_Compact L ss)
      | VList as \<Rightarrow>
          (case any_strings as of
             None \<Rightarrow> v
           | Some ss \<Rightarrow> VList (map VStr (lib_Compact L ss)))
      | _ \<Rightarrow> v)"

text \<open>The loop that re-asserts the mint-decided claims after the mapper.\<close>

fun reassert :: "string list \<Rightarrow> mapclaims \<Rightarrow> mapclaims \<Rightarrow> mapclaims" where
  "reassert [] ctx m = m"
| "reassert (k # ks) ctx m =
     reassert ks ctx (case map_of ctx k of Some v \<Rightarrow> AList.update k v m | None \<Rightarrow> AList.delete k m)"

definition compact_claim :: "signer_lib \<Rightarrow> mapclaims \<Rightarrow> mapclaims" where
  "compact_claim L m =
     (case map_of m ''entitlements'' of
        Some ent \<Rightarrow> AList.update ''entitlements'' (compactEntitlements L ent) m
      | None \<Rightarrow> m)"

definition ErrSubjectless :: goerror where
  "ErrSubjectless = wrapf [ErrSubjectlessCredential]
     ''subject-less credential: the credential source resolved without a `sub` claim''"

definition ErrNonExpiring :: goerror where
  "ErrNonExpiring = wrapf [ErrNonExpiringToken]
     ''refusing to sign a token that never expires: `exp` is missing, null, non-numeric or zero''"

definition Project :: "signer_lib \<Rightarrow> Signer \<Rightarrow> mapclaims \<Rightarrow> goerror + mapclaims" where
  "Project L s ctx =
     (case lib_GetSubject L ctx of
        Inl e \<Rightarrow> Inl (wrapf (err_is e) (''failed to get subject from claims: '' @ err_msg e))
      | Inr sub \<Rightarrow>
          if sub = [] then Inl ErrSubjectless
          else
            (let envelope = [(''sub'', VStr sub), (''iss'', VStr (s_issuer s)),
                             (''aud'', VStrs [s_audience s])];
                 projected = copy_keys profileClaims ctx (copy_keys projectedClaims ctx envelope)
             in case s_mapper s of
                  None \<Rightarrow> Inr (compact_claim L projected)
                | Some mapper \<Rightarrow>
                    (case mapper (maps_Copy ctx envelope) of
                       Inl e \<Rightarrow> Inl (wrapf (err_is e) (''failed to map claims: '' @ err_msg e))
                     | Inr extra \<Rightarrow>
                         Inr (compact_claim L
                               (reassert mintDecidedClaims ctx (maps_Copy projected extra))))))"

fun expires :: "goany option \<Rightarrow> bool" where
  "expires (Some (VInt n)) \<longleftrightarrow> n \<noteq> 0"
| "expires (Some (VFloat f)) \<longleftrightarrow> \<not> float_zero f \<and> f \<noteq> FNaN"
| "expires (Some (VNumber (Some f))) \<longleftrightarrow> \<not> float_zero f \<and> f \<noteq> FNaN"
| "expires _ \<longleftrightarrow> False"

text \<open>\<open>time.Time.Unix\<close>: whole seconds, rounded down.\<close>

definition Unix :: "instant \<Rightarrow> int" where
  "Unix t = t div second"

text \<open>The claims \<open>SignProjected\<close> is about to sign: its gates, then the per-token identifiers under
  the projection.\<close>

definition outboundClaims ::
  "signer_lib \<Rightarrow> Signer \<Rightarrow> instant \<Rightarrow> string \<Rightarrow> mapclaims \<Rightarrow> goerror + mapclaims" where
  "outboundClaims L s now jti projected =
     (case lib_GetSubject L projected of
        Inl _ \<Rightarrow> Inl ErrSubjectless
      | Inr sub \<Rightarrow>
          if sub = [] then Inl ErrSubjectless
          else
            (let out = maps_Copy [(''exp'', VInt (Unix (now + s_duration s))), (''iat'', VInt (Unix now)),
                                  (''jti'', VStr jti)] projected
             in if expires (map_of out ''exp'') then Inr out else Inl ErrNonExpiring))"

definition SignProjected ::
  "signer_lib \<Rightarrow> Signer \<Rightarrow> instant \<Rightarrow> string \<Rightarrow> mapclaims \<Rightarrow> goerror + string" where
  "SignProjected L s now jti projected =
     (case outboundClaims L s now jti projected of
        Inl e \<Rightarrow> Inl e
      | Inr out \<Rightarrow>
          (case s_key s of
             RSAKey \<Rightarrow> lib_SignedString L ''RS256'' (s_kid s) out
           | ECDSAKey \<Rightarrow> lib_SignedString L ''ES256'' (s_kid s) out
           | OtherKey \<Rightarrow> Inl (errorf ''unsupported signer type'')))"

definition Sign :: "signer_lib \<Rightarrow> Signer \<Rightarrow> instant \<Rightarrow> string \<Rightarrow> mapclaims \<Rightarrow> goerror + string" where
  "Sign L s now jti ctx =
     (case Project L s ctx of Inl e \<Rightarrow> Inl e | Inr p \<Rightarrow> SignProjected L s now jti p)"

definition confineByScope :: "mapclaims \<Rightarrow> string list \<Rightarrow> mapclaims" where
  "confineByScope projected grantedScopes =
     (let p1 = (if ''email'' \<in> set grantedScopes then projected
                else AList.delete ''email_verified'' (AList.delete ''email'' projected));
          p2 = (if ''profile'' \<in> set grantedScopes then p1 else delete_keys profileClaims p1);
          p3 = (if ''entitlements'' \<in> set grantedScopes then p2 else AList.delete ''entitlements'' p2)
      in if ''roles'' \<in> set grantedScopes then p3 else AList.delete ''roles'' p3)"

definition SignScoped ::
  "signer_lib \<Rightarrow> Signer \<Rightarrow> instant \<Rightarrow> string \<Rightarrow> mapclaims \<Rightarrow> string list \<Rightarrow> goerror + string" where
  "SignScoped L s now jti ctx grantedScopes =
     (case Project L s ctx of
        Inl e \<Rightarrow> Inl e
      | Inr p \<Rightarrow> SignProjected L s now jti (confineByScope p grantedScopes))"

section \<open>Building the signing context\<close>

definition SupportedScopes :: "string list" where
  "SupportedScopes = [''openid'', ''email'', ''profile'', ''entitlements'', ''roles'']"

definition defaultSessionScopes :: "string list" where
  "defaultSessionScopes = [''email'', ''entitlements'', ''openid'', ''profile'', ''roles'']"

definition reservedMintClaims :: "string list" where
  "reservedMintClaims =
     [''scope'', ''scp'', ''sub'', ''grant_type'', ''idp'', ''iat'', ''exp'', ''jti'', ''iss'',
      ''aud'', ''nbf'', ''act''] @ mintDecidedClaims"

fun mergeBackendClaims :: "mapclaims \<Rightarrow> mapclaims \<Rightarrow> mapclaims" where
  "mergeBackendClaims ctx [] = ctx"
| "mergeBackendClaims ctx ((k, v) # backend) =
     (if k \<in> set reservedMintClaims then mergeBackendClaims ctx backend
      else if map_of ctx k = None then mergeBackendClaims (AList.update k v ctx) backend
      else mergeBackendClaims ctx backend)"

definition idpClaimSnapshot :: "mapclaims \<Rightarrow> mapclaims" where
  "idpClaimSnapshot ctx = filter (\<lambda>(k, v). k \<notin> set reservedMintClaims) ctx"

fun string_items :: "goany list \<Rightarrow> string list" where
  "string_items [] = []"
| "string_items (a # as) = (case as_string a of Some s \<Rightarrow> s # string_items as | None \<Rightarrow> string_items as)"

definition mergeIDPList :: "goany option \<Rightarrow> string list \<Rightarrow> goany" where
  "mergeIDPList idpValue internal =
     (case idpValue of
        Some (VStrs v) \<Rightarrow> VStrs (v @ internal)
      | Some (VList v) \<Rightarrow> VStrs (string_items v @ internal)
      | Some (VStr v) \<Rightarrow> VStrs (v # internal)
      | _ \<Rightarrow> VStrs internal)"

definition granted_scopes :: "string \<Rightarrow> string list \<Rightarrow> string list" where
  "granted_scopes requestedScope defaultScopes =
     (let requested = Fields requestedScope;
          requested' = (if requested = [] \<and> defaultScopes \<noteq> [] then defaultScopes else requested)
      in filter (\<lambda>known. known \<in> set requested') SupportedScopes)"

definition applyScopeFilter :: "mapclaims \<Rightarrow> string \<Rightarrow> string list \<Rightarrow> string list \<times> mapclaims" where
  "applyScopeFilter ctx requestedScope defaultScopes =
     (let granted = granted_scopes requestedScope defaultScopes
      in (granted,
          if granted \<noteq> [] then AList.update ''scope'' (VStr (Join granted '' '')) ctx
          else AList.delete ''scope'' ctx))"

fun dedup_supported :: "string list \<Rightarrow> string list \<Rightarrow> string list" where
  "dedup_supported out [] = out"
| "dedup_supported out (s # ss) =
     (if s \<in> set SupportedScopes \<and> s \<notin> set out then dedup_supported (out @ [s]) ss
      else dedup_supported out ss)"

definition supportedScopes :: "string \<Rightarrow> string list" where
  "supportedScopes scope = sort (dedup_supported [] (Fields scope))"

text \<open>The context's mint-decided claims (\<open>auth/config.go\<close>): the signer's plus the issue time.\<close>

definition contextDecidedClaims :: "string list" where
  "contextDecidedClaims = mintDecidedClaims @ [ClaimIssuedAt]"

definition EnrichAuthContext :: "mapclaims \<Rightarrow> (mapclaims \<Rightarrow> goerror + mapclaims) option \<Rightarrow> mapclaims" where
  "EnrichAuthContext ac mapper =
     (case mapper of
        None \<Rightarrow> ac
      | Some execute \<Rightarrow>
          (case execute ac of
             Inl _ \<Rightarrow> ac
           | Inr extra \<Rightarrow>
               (let kept = copy_keys contextDecidedClaims ac []
                in reassert contextDecidedClaims kept (maps_Copy ac extra))))"

definition overlay_claim :: "string list \<Rightarrow> mapclaims \<Rightarrow> string \<Rightarrow> mapclaims \<Rightarrow> mapclaims" where
  "overlay_claim scopes projected claim ac =
     (let ac1 = AList.delete claim ac
      in if claim \<in> set scopes
         then (case map_of projected claim of Some v \<Rightarrow> AList.update claim v ac1 | None \<Rightarrow> ac1)
         else ac1)"

definition overlayScopedClaims :: "mapclaims \<Rightarrow> mapclaims \<Rightarrow> string list \<Rightarrow> mapclaims" where
  "overlayScopedClaims ac projected scopes =
     fold (overlay_claim scopes projected) [''roles'', ''entitlements''] ac"

text \<open>\<open>withoutPrompt\<close> of \<open>authorize_request.go\<close>, over \<open>url.Values\<close>.\<close>

type_synonym url_values = "string list gomap"

definition values_Get :: "url_values \<Rightarrow> string \<Rightarrow> string" where
  "values_Get q k = (case map_of q k of Some (v # vs) \<Rightarrow> v | _ \<Rightarrow> [])"

record authorizeRequest =
  ar_ClientID :: string
  ar_RedirectURI :: string
  ar_State :: string
  ar_LoginHint :: string
  ar_Prompt :: "string list"
  ar_Scopes :: "string list"

definition parseAuthorizeRequest :: "url_values \<Rightarrow> authorizeRequest" where
  "parseAuthorizeRequest q =
     \<lparr>ar_ClientID = values_Get q ''client_id'', ar_RedirectURI = values_Get q ''redirect_uri'',
      ar_State = values_Get q ''state'', ar_LoginHint = values_Get q ''login_hint'',
      ar_Prompt = Fields (values_Get q ''prompt''),
      ar_Scopes = supportedScopes (values_Get q ''scope'')\<rparr>"

definition withoutPrompt :: "url_values \<Rightarrow> string list \<Rightarrow> url_values" where
  "withoutPrompt q drops =
     (let kept = filter (\<lambda>p. p \<notin> set drops) (Fields (values_Get q ''prompt''))
      in if kept = [] then AList.delete ''prompt'' q
         else AList.update ''prompt'' [Join kept '' ''] q)"

section \<open>Lemmas\<close>

lemma map_of_reassert:
  "map_of (reassert ks ctx m) k = (if k \<in> set ks then map_of ctx k else map_of m k)"
proof (induction ks arbitrary: m)
  case (Cons c ks)
  then show ?case by (cases "map_of ctx c") auto
qed simp

lemma map_of_compact_claim:
  "k \<noteq> ''entitlements'' \<Longrightarrow> map_of (compact_claim L m) k = map_of m k"
  by (auto simp: compact_claim_def split: option.splits)

lemma mint_decided_not_entitlements: "k \<in> set mintDecidedClaims \<Longrightarrow> k \<noteq> ''entitlements''"
  by (auto simp: mintDecidedClaims_def ClaimSubjectKind_def)

lemma mint_decided_not_envelope:
  "k \<in> set mintDecidedClaims \<Longrightarrow> k \<noteq> ''sub'' \<and> k \<noteq> ''iss'' \<and> k \<noteq> ''aud''"
  by (auto simp: mintDecidedClaims_def ClaimSubjectKind_def)

lemma envelope_not_copied:
  "list_all (\<lambda>k. k \<notin> set profileClaims \<and> k \<notin> set projectedClaims \<and> k \<noteq> ''entitlements'')
     [''aud'', ''iss'', ''sub'']"
  by code_simp

lemma profile_not_other:
  "list_all (\<lambda>k. k \<notin> set profileClaims) [''email'', ''email_verified'', ''entitlements'', ''roles'', ''exp'', ''iat'', ''jti'']"
  by code_simp

lemma as_string_Some [simp]: "as_string v = Some s \<longleftrightarrow> v = VStr s"
  by (cases v) auto

lemma Project_mint_decided:
  assumes p: "Project L s ctx = Inr p" and k: "k \<in> set mintDecidedClaims"
  shows "map_of p k = map_of ctx k"
proof -
  have k': "k \<noteq> ''entitlements''" "k \<noteq> ''sub''" "k \<noteq> ''iss''" "k \<noteq> ''aud''" "k \<in> set projectedClaims"
    using k mint_decided_not_entitlements mint_decided_not_envelope by (auto simp: projectedClaims_def)
  show ?thesis
    using p k k'
    by (auto simp: Project_def Let_def map_of_compact_claim map_of_reassert
        split: sum.splits if_splits option.splits)
qed

text \<open>The envelope of a projection nothing maps: the subject it was asked for, the signer's issuer and
  the signer's audience, never the inbound ones.\<close>

lemma Project_envelope:
  assumes "Project L s ctx = Inr p" and "s_mapper s = None"
  shows "map_of p ''aud'' = Some (VStrs [s_audience s]) \<and> map_of p ''iss'' = Some (VStr (s_issuer s)) \<and>
    (\<exists>sub. lib_GetSubject L ctx = Inr sub \<and> sub \<noteq> [] \<and> map_of p ''sub'' = Some (VStr sub))"
  using assms envelope_not_copied
  by (auto simp: Project_def Let_def map_of_compact_claim split: sum.splits if_splits)

lemma EnrichAuthContext_decided:
  "k \<in> set contextDecidedClaims \<Longrightarrow> map_of (EnrichAuthContext ac mapper) k = map_of ac k"
  by (auto simp: EnrichAuthContext_def Let_def map_of_reassert split: option.splits sum.splits)

lemma confine_email:
  "''email'' \<notin> set g \<Longrightarrow>
     map_of (confineByScope p g) ''email'' = None \<and> map_of (confineByScope p g) ''email_verified'' = None"
  by (simp add: confineByScope_def Let_def)

lemma confine_profile:
  "''profile'' \<notin> set g \<Longrightarrow> k \<in> set profileClaims \<Longrightarrow> map_of (confineByScope p g) k = None"
  using profile_not_other by (auto simp: confineByScope_def Let_def)

lemma confine_entitlements:
  "''entitlements'' \<notin> set g \<Longrightarrow> map_of (confineByScope p g) ''entitlements'' = None"
  by (simp add: confineByScope_def Let_def)

lemma confine_roles: "''roles'' \<notin> set g \<Longrightarrow> map_of (confineByScope p g) ''roles'' = None"
  by (simp add: confineByScope_def Let_def)

text \<open>What confinement leaves alone: everything but the four families.\<close>

lemma confine_other:
  assumes "k \<notin> set profileClaims" and "k \<notin> {''email'', ''email_verified'', ''entitlements'', ''roles''}"
  shows "map_of (confineByScope p g) k = map_of p k"
  using assms by (simp add: confineByScope_def Let_def)

lemmas confine = confine_email confine_profile confine_entitlements confine_roles

lemma outboundClaims_ok:
  assumes "outboundClaims L s now jti p = Inr out"
  shows "(\<exists>sub. lib_GetSubject L p = Inr sub \<and> sub \<noteq> []) \<and> expires (map_of out ''exp'') \<and>
    (\<forall>k. k \<notin> {''exp'', ''iat'', ''jti''} \<longrightarrow> map_of out k = map_of p k)"
  using assms
  by (auto simp: outboundClaims_def Let_def map_add_def split: sum.splits if_splits option.splits)

lemma SignProjected_ok:
  assumes "SignProjected L s now jti p = Inr tok"
  obtains alg out where "outboundClaims L s now jti p = Inr out"
    and "lib_SignedString L alg (s_kid s) out = Inr tok"
  using assms by (auto simp: SignProjected_def split: sum.splits key_type.splits)

lemma get_subject_named:
  assumes "subject_law L" and "lib_GetSubject L c = Inr s" and "s \<noteq> []"
  shows "map_of c ''sub'' = Some (VStr s)"
proof (cases "map_of c ''sub''")
  case None
  with assms show ?thesis by (simp add: subject_law_def)
next
  case (Some v)
  show ?thesis
  proof (cases "as_string v")
    case None
    with assms(1) Some obtain e where "lib_GetSubject L c = Inl e"
      unfolding subject_law_def by blast
    with assms(2) show ?thesis by simp
  next
    case (Some t)
    with \<open>map_of c ''sub'' = Some v\<close> have c: "map_of c ''sub'' = Some (VStr t)" by simp
    with assms(1) have "lib_GetSubject L c = Inr t" unfolding subject_law_def by blast
    with assms(2) c show ?thesis by simp
  qed
qed

lemma map_of_mergeBackendClaims:
  "map_of (mergeBackendClaims ctx backend) k =
     (if map_of ctx k \<noteq> None \<or> k \<in> set reservedMintClaims then map_of ctx k else map_of backend k)"
proof (induction ctx backend rule: mergeBackendClaims.induct)
  case (2 ctx c v backend)
  then show ?case by (cases "c \<in> set reservedMintClaims"; cases "map_of ctx c") auto
qed simp

lemma map_of_idpClaimSnapshot:
  "map_of (idpClaimSnapshot ctx) k = (if k \<in> set reservedMintClaims then None else map_of ctx k)"
  by (induction ctx) (auto simp: idpClaimSnapshot_def)

lemma supported_scope_word:
  "w \<in> set SupportedScopes \<Longrightarrow> w \<noteq> [] \<and> list_all (\<lambda>c. \<not> is_space c) w"
  by (auto simp: SupportedScopes_def is_space_def)

lemma granted_scopes_supported: "set (granted_scopes r d) \<subseteq> set SupportedScopes"
  by (auto simp: granted_scopes_def Let_def)

lemma granted_scopes_remint: "granted_scopes (Join (granted_scopes r d) '' '') [] = granted_scopes r d"
proof -
  have "Fields (Join (granted_scopes r d) '' '') = granted_scopes r d"
    by (rule Fields_Join) (use granted_scopes_supported supported_scope_word in blast)
  then show ?thesis
    by (auto simp: granted_scopes_def Let_def intro!: filter_cong)
qed

lemma set_dedup_supported:
  "set (dedup_supported out ss) = set out \<union> (set ss \<inter> set SupportedScopes)"
  by (induction ss arbitrary: out) auto

lemma distinct_dedup_supported: "distinct out \<Longrightarrow> distinct (dedup_supported out ss)"
  by (induction ss arbitrary: out) auto

lemma set_supportedScopes: "set (supportedScopes scope) = set (granted_scopes scope [])"
  by (auto simp: supportedScopes_def set_dedup_supported granted_scopes_def Let_def)

lemma overlay_claim_other: "k \<noteq> c \<Longrightarrow> map_of (overlay_claim scopes p c ac) k = map_of ac k"
  by (auto simp: overlay_claim_def Let_def split: option.splits)

lemma overlay_claim_self:
  "map_of (overlay_claim scopes p c ac) c = (if c \<in> set scopes then map_of p c else None)"
  by (auto simp: overlay_claim_def Let_def split: option.splits)

lemma map_of_overlayScopedClaims:
  "map_of (overlayScopedClaims ac p scopes) k =
     (if k \<in> {''roles'', ''entitlements''} then (if k \<in> set scopes then map_of p k else None)
      else map_of ac k)"
  by (auto simp: overlayScopedClaims_def overlay_claim_self overlay_claim_other)

section \<open>Properties\<close>

definition demo_get_subject :: "mapclaims \<Rightarrow> goerror + string" where
  "demo_get_subject c =
     (case map_of c ''sub'' of
        None \<Rightarrow> Inr []
      | Some v \<Rightarrow> (case as_string v of Some s \<Rightarrow> Inr s | None \<Rightarrow> Inl (errorf ''sub is invalid'')))"

definition demo_lib :: signer_lib where
  "demo_lib = \<lparr>lib_GetSubject = demo_get_subject, lib_Compact = remdups,
     lib_SignedString = (\<lambda>alg kid c. Inr (alg @ ''.'' @ claim_string c ''sub''))\<rparr>"

lemma demo_lib_law: "subject_law demo_lib"
  by (auto simp: subject_law_def demo_lib_def demo_get_subject_def)

text \<open>A mapper that writes roles, an e-mail address, a kind and an \<open>auth_method\<close> into every token.\<close>

definition demo_signer :: Signer where
  "demo_signer = \<lparr>s_audience = ''fn'', s_duration = hour, s_issuer = ''host'', s_key = RSAKey,
     s_kid = ''k1'',
     s_mapper = Some (\<lambda>c. Inr [(''roles'', VStrs [''admin'']), (''email'', VStr ''a@b''),
                                (''knd'', VStr ''User''), (''auth_method'', VStr ''local'')])\<rparr>"

definition demo_context :: mapclaims where
  "demo_context = [(''sub'', VStr ''alice''), (''knd'', VStr ''Client''), (''name'', VStr ''Alice'')]"

text \<open>C1: a token minted with \<open>SignScoped\<close> carries no claim of a scope family that was not
  granted, whatever the claim mapper wrote: neither \<open>email\<close>/\<open>email_verified\<close>, nor any profile
  claim, nor \<open>entitlements\<close>, nor \<open>roles\<close>.\<close>

theorem scope_confinement:
  assumes "SignScoped L s now jti ctx granted = Inr tok"
  shows "\<exists>alg out. lib_SignedString L alg (s_kid s) out = Inr tok \<and>
    (''email'' \<notin> set granted \<longrightarrow> map_of out ''email'' = None \<and> map_of out ''email_verified'' = None) \<and>
    (''profile'' \<notin> set granted \<longrightarrow> (\<forall>k \<in> set profileClaims. map_of out k = None)) \<and>
    (''entitlements'' \<notin> set granted \<longrightarrow> map_of out ''entitlements'' = None) \<and>
    (''roles'' \<notin> set granted \<longrightarrow> map_of out ''roles'' = None)"
proof -
  from assms obtain p where p: "SignProjected L s now jti (confineByScope p granted) = Inr tok"
    by (auto simp: SignScoped_def split: sum.splits)
  from p obtain alg out where out: "outboundClaims L s now jti (confineByScope p granted) = Inr out"
    and tok: "lib_SignedString L alg (s_kid s) out = Inr tok"
    by (rule SignProjected_ok)
  have same: "map_of out k = map_of (confineByScope p granted) k" if "k \<notin> {''exp'', ''iat'', ''jti''}" for k
    using outboundClaims_ok [OF out] that by blast
  have prof: "k \<notin> {''exp'', ''iat'', ''jti''}" if "k \<in> set profileClaims" for k
    using that profile_not_other by auto
  have "map_of out k = None" if "''profile'' \<notin> set granted" and "k \<in> set profileClaims" for k
    using same [OF prof [OF that(2)]] confine_profile [OF that] by simp
  then show ?thesis
    by (intro exI [of _ alg] exI [of _ out]) (simp add: tok same confine)
qed

theorem scope_confinement_witness:
  "\<exists>alg out. lib_SignedString demo_lib alg ''k1'' out = Inr ''RS256.alice'' \<and>
     map_of out ''email'' = None \<and> map_of out ''roles'' = None \<and>
     (\<forall>k \<in> set profileClaims. map_of out k = None)"
proof -
  have "SignScoped demo_lib demo_signer 0 ''j'' demo_context [''openid''] = Inr ''RS256.alice''"
    by code_simp
  from scope_confinement [OF this] obtain alg out where
    "lib_SignedString demo_lib alg (s_kid demo_signer) out = Inr ''RS256.alice''"
    and "map_of out ''email'' = None" and "map_of out ''roles'' = None"
    and "\<forall>k \<in> set profileClaims. map_of out k = None"
    by auto
  moreover have "s_kid demo_signer = ''k1''" by code_simp
  ultimately show ?thesis by (intro exI conjI) simp_all
qed

text \<open>Every token the signer issues names a subject and expires. If \<open>SignProjected\<close> returns a
  token, the claims that were signed carry a non-empty string \<open>sub\<close> and an \<open>exp\<close> that a verifier reads
  as an expiry, and are otherwise the projection, whatever the projection carried.\<close>

theorem signed_names_subject_and_expires:
  assumes "subject_law L" and "SignProjected L s now jti p = Inr tok"
  shows "\<exists>alg out. lib_SignedString L alg (s_kid s) out = Inr tok \<and>
    (\<exists>sub. sub \<noteq> [] \<and> map_of out ''sub'' = Some (VStr sub)) \<and> expires (map_of out ''exp'') \<and>
    (\<forall>k. k \<notin> {''exp'', ''iat'', ''jti''} \<longrightarrow> map_of out k = map_of p k)"
proof -
  from assms(2) obtain alg out where out: "outboundClaims L s now jti p = Inr out"
    and tok: "lib_SignedString L alg (s_kid s) out = Inr tok"
    by (rule SignProjected_ok)
  note ok = outboundClaims_ok [OF out]
  then obtain sub where "lib_GetSubject L p = Inr sub" and "sub \<noteq> []" by blast
  with assms(1) have "map_of p ''sub'' = Some (VStr sub)" by (rule get_subject_named)
  moreover have "map_of out ''sub'' = map_of p ''sub''" using ok by simp
  ultimately have "map_of out ''sub'' = Some (VStr sub)" by simp
  with ok tok \<open>sub \<noteq> []\<close> show ?thesis
    by (intro exI [of _ alg] exI [of _ out] conjI exI [of _ sub]) simp_all
qed

theorem signed_names_subject_and_expires_witness:
  "\<exists>alg out. lib_SignedString demo_lib alg ''k1'' out = Inr ''RS256.alice'' \<and>
     (\<exists>sub. sub \<noteq> [] \<and> map_of out ''sub'' = Some (VStr sub)) \<and> expires (map_of out ''exp'')"
proof -
  have "SignProjected demo_lib demo_signer 0 ''j'' demo_context = Inr ''RS256.alice''"
    by code_simp
  from signed_names_subject_and_expires [OF demo_lib_law this] obtain alg out where
    "lib_SignedString demo_lib alg (s_kid demo_signer) out = Inr ''RS256.alice''"
    and "\<exists>sub. sub \<noteq> [] \<and> map_of out ''sub'' = Some (VStr sub)" and "expires (map_of out ''exp'')"
    by metis
  moreover have "s_kid demo_signer = ''k1''" by code_simp
  ultimately show ?thesis by auto
qed

text \<open>No claim mapping decides \<open>auth_method\<close> or the subject's kind. A projection carries each
  mint-decided claim exactly as the signing context has it, absent included, and enriching an auth
  context keeps those claims and the issue time, for every mapper.\<close>

theorem mint_decided_claims_kept:
  assumes "Project L s ctx = Inr p" and "k \<in> set mintDecidedClaims"
  shows "map_of p k = map_of ctx k \<and> map_of (EnrichAuthContext ac mapper) k = map_of ac k \<and>
    map_of (EnrichAuthContext ac mapper) ClaimIssuedAt = map_of ac ClaimIssuedAt"
  using Project_mint_decided [OF assms] assms(2)
  by (simp add: EnrichAuthContext_decided contextDecidedClaims_def)

theorem mint_decided_claims_kept_witness:
  "\<exists>p. Project demo_lib demo_signer demo_context = Inr p \<and> map_of p ''knd'' = Some (VStr ''Client'') \<and>
     map_of p ''roles'' = Some (VStrs [''admin''])"
proof -
  let ?p = "projr (Project demo_lib demo_signer demo_context)"
  have p: "Project demo_lib demo_signer demo_context = Inr ?p" by code_simp
  have "''knd'' \<in> set mintDecidedClaims" by code_simp
  from mint_decided_claims_kept [OF p this, of "[]" None]
  have "map_of ?p ''knd'' = map_of demo_context ''knd''" by blast
  moreover have "map_of ?p ''roles'' = Some (VStrs [''admin''])" by code_simp
  ultimately show ?thesis using p by (auto simp: demo_context_def)
qed

text \<open>A client selects from the published scope vocabulary. The granted scopes are supported and
  requested (or, with none requested, the default); the \<open>scope\<close> claim is overwritten with them or
  removed, other claims are untouched; minting again from the recorded scope string grants the same
  list; and the consent step shows exactly the scopes the filter grants.\<close>

theorem granted_scope_vocabulary:
  "applyScopeFilter ctx r d = (g, ctx') \<Longrightarrow>
     set g = set SupportedScopes \<inter> set (if Fields r = [] \<and> d \<noteq> [] then d else Fields r) \<and>
     map_of ctx' ''scope'' = (if g = [] then None else Some (VStr (Join g '' ''))) \<and>
     (\<forall>k. k \<noteq> ''scope'' \<longrightarrow> map_of ctx' k = map_of ctx k) \<and>
     fst (applyScopeFilter ctx'' (Join g '' '') []) = g \<and>
     set (supportedScopes r) = set (fst (applyScopeFilter ctx'' r [])) \<and> distinct (supportedScopes r)"
proof -
  assume a: "applyScopeFilter ctx r d = (g, ctx')"
  then have g: "g = granted_scopes r d" by (auto simp: applyScopeFilter_def Let_def)
  have "set g = set SupportedScopes \<inter> set (if Fields r = [] \<and> d \<noteq> [] then d else Fields r)"
    by (auto simp: g granted_scopes_def Let_def)
  moreover have "map_of ctx' ''scope'' = (if g = [] then None else Some (VStr (Join g '' '')))"
    using a by (auto simp: applyScopeFilter_def Let_def)
  moreover have "map_of ctx' k = map_of ctx k" if "k \<noteq> ''scope''" for k
    using a that by (auto simp: applyScopeFilter_def Let_def split: if_splits)
  moreover have "fst (applyScopeFilter ctx'' (Join g '' '') []) = g"
    by (simp add: applyScopeFilter_def Let_def g granted_scopes_remint)
  moreover have "set (supportedScopes r) = set (fst (applyScopeFilter ctx'' r []))"
    by (simp add: set_supportedScopes applyScopeFilter_def Let_def)
  moreover have "distinct (supportedScopes r)"
    by (simp add: supportedScopes_def distinct_dedup_supported)
  ultimately show ?thesis by blast
qed

theorem granted_scope_vocabulary_witness:
  "set [''openid'', ''roles''] =
     set SupportedScopes \<inter> set (Fields ''roles admin:*:write openid'') \<and>
   fst (applyScopeFilter [] ''openid roles'' []) = [''openid'', ''roles'']"
proof -
  have a: "applyScopeFilter [] ''roles admin:*:write openid'' [] =
      ([''openid'', ''roles''], [(''scope'', VStr ''openid roles'')])"
    by code_simp
  have f: "Fields ''roles admin:*:write openid'' \<noteq> []" "Join [''openid'', ''roles''] '' '' = ''openid roles''"
    by code_simp+
  from granted_scope_vocabulary [OF a, of "[]"] f show ?thesis by simp
qed

text \<open>A backend lookup only supplements the signing context. After merging its claims, a reserved
  claim and every claim already set have the value they had before (absent included), and every other
  claim is the backend's; the IdP snapshot kept on a refresh record holds no reserved claim.\<close>

theorem backend_claims_supplement_only:
  "map_of (mergeBackendClaims ctx backend) k =
     (if map_of ctx k \<noteq> None \<or> k \<in> set reservedMintClaims then map_of ctx k else map_of backend k) \<and>
   map_of (idpClaimSnapshot ctx) k = (if k \<in> set reservedMintClaims then None else map_of ctx k)"
  by (simp only: map_of_mergeBackendClaims map_of_idpClaimSnapshot simp_thms)

theorem backend_claims_supplement_only_witness:
  "map_of (mergeBackendClaims [(''sub'', VStr ''alice''), (''email'', VStr ''a@x'')]
     [(''scope'', VStr ''admin''), (''email'', VStr ''b@x''), (''dept'', VStr ''ops'')]) ''dept'' = Some (VStr ''ops'') \<and>
   map_of (mergeBackendClaims [(''sub'', VStr ''alice''), (''email'', VStr ''a@x'')]
     [(''scope'', VStr ''admin''), (''email'', VStr ''b@x''), (''dept'', VStr ''ops'')]) ''email'' = Some (VStr ''a@x'') \<and>
   map_of (mergeBackendClaims [(''sub'', VStr ''alice''), (''email'', VStr ''a@x'')]
     [(''scope'', VStr ''admin''), (''email'', VStr ''b@x''), (''dept'', VStr ''ops'')]) ''scope'' = None"
proof -
  have r: "''dept'' \<notin> set reservedMintClaims" "''email'' \<notin> set reservedMintClaims" "''scope'' \<in> set reservedMintClaims"
    by code_simp+
  note B = backend_claims_supplement_only [of "[(''sub'', VStr ''alice''), (''email'', VStr ''a@x'')]"
      "[(''scope'', VStr ''admin''), (''email'', VStr ''b@x''), (''dept'', VStr ''ops'')]"]
  show ?thesis using B [of "''dept''"] B [of "''email''"] B [of "''scope''"] r by simp
qed

end
