(* ===== verification/ClientRegistry.thy ===== *)
theory ClientRegistry
  imports Store "HOL-Library.Countable"
begin

text \<open>
  The client registry of \<open>src/internal/auth/client_registry.go\<close>: a record of every client id the
  host has ever had configured, kept under one key of a surviving cache class and merged with the
  configuration each time an exchanger is built.

  \<open>mergeClientRegistry\<close> is the pure merge, \<open>loadClientRegistry\<close> the read, the fast path and the atomic
  update over a \<open>cache_ops\<close>. The JSON encoding is a \<open>registry_codec\<close>, relied on only through
  \<open>registry_codec_law\<close>: what was marshalled decodes to the same map.
\<close>

section \<open>Records and the merge\<close>

record clientRecord =
  cr_Present :: bool
  cr_RemovedAt :: int

type_synonym registry = "clientRecord gomap"

definition ClientIDPrefix :: string where "ClientIDPrefix = ''dcr_''"
definition clientRegistryClass :: string where "clientRegistryClass = ''client-registry''"
definition clientRegistryKey :: string where "clientRegistryKey = ''ids''"

definition clientRegistryLocation :: string where
  "clientRegistryLocation =
     ''client registry (Valkey key {<host>:'' @ clientRegistryClass @ '':'' @ SurvivingGeneration @ ''}:''
       @ clientRegistryKey @ '')''"

record registryMerge =
  rm_registry :: registry
  rm_recorded :: "string list"
  rm_readded :: "string list"
  rm_removed :: "string list"
  rm_changed :: bool

text \<open>The loop over the configured ids.\<close>

fun merge_configured ::
  "int \<Rightarrow> string list \<Rightarrow> registry \<times> string list \<times> string list \<Rightarrow> registry \<times> string list \<times> string list" where
  "merge_configured now [] st = st"
| "merge_configured now (i # ids) (reg, recorded, readded) =
     merge_configured now ids
       (case map_of reg i of
          None \<Rightarrow> (AList.update i \<lparr>cr_Present = True, cr_RemovedAt = 0\<rparr> reg, recorded @ [i], readded)
        | Some rec \<Rightarrow>
            if \<not> cr_Present rec
            then (AList.update i \<lparr>cr_Present = True, cr_RemovedAt = max (cr_RemovedAt rec) now\<rparr> reg,
                  recorded, readded @ [i])
            else (reg, recorded, readded))"

text \<open>The loop over the registry that marks the ids no longer configured.\<close>

definition gone :: "string list \<Rightarrow> string \<times> clientRecord \<Rightarrow> bool" where
  "gone configured ir \<longleftrightarrow> cr_Present (snd ir) \<and> fst ir \<notin> set configured"

definition mark_removed :: "int \<Rightarrow> string list \<Rightarrow> registry \<Rightarrow> registry" where
  "mark_removed now configured reg =
     map (\<lambda>(i, rec). (i, if gone configured (i, rec)
                        then rec\<lparr>cr_Present := False, cr_RemovedAt := max (cr_RemovedAt rec) now\<rparr>
                        else rec)) reg"

definition mergeClientRegistry :: "registry \<Rightarrow> string list \<Rightarrow> int \<Rightarrow> registryMerge" where
  "mergeClientRegistry have configured now =
     (let (reg, recorded, readded) = merge_configured now configured (have, [], []);
          removed = sort (map fst (filter (gone configured) reg))
      in \<lparr>rm_registry = mark_removed now configured reg, rm_recorded = recorded, rm_readded = readded,
          rm_removed = removed, rm_changed = (recorded \<noteq> [] \<or> readded \<noteq> [] \<or> removed \<noteq> [])\<rparr>)"

section \<open>The stored form\<close>

text \<open>\<open>json.Marshal\<close> of a registry, and the strict decoding of a stored value into pointers to
  records, with whether the input ended after the object.\<close>

record registry_codec =
  rc_Marshal :: "registry \<Rightarrow> goerror + string"
  rc_Decode :: "string \<Rightarrow> goerror + (clientRecord option gomap) option \<times> bool"

fun decode_records :: "clientRecord option gomap \<Rightarrow> goerror + registry" where
  "decode_records [] = Inr []"
| "decode_records ((i, r) # rest) =
     (case r of
        None \<Rightarrow> Inl (errorf (''decode stored records: client id '' @ i @ '' has an invalid record''))
      | Some rec \<Rightarrow>
          if cr_RemovedAt rec < 0
          then Inl (errorf (''decode stored records: client id '' @ i @ '' has an invalid record''))
          else (case decode_records rest of Inl e \<Rightarrow> Inl e | Inr reg \<Rightarrow> Inr ((i, rec) # reg)))"

definition decodeClientRegistry :: "registry_codec \<Rightarrow> string \<Rightarrow> goerror + registry" where
  "decodeClientRegistry cd value =
     (case rc_Decode cd value of
        Inl e \<Rightarrow> Inl (wrapf (err_is e) (''decode stored records: '' @ err_msg e))
      | Inr (stored, atEOF) \<Rightarrow>
          if \<not> atEOF then Inl (errorf ''decode stored records: trailing data'')
          else (case stored of
                  None \<Rightarrow> Inl (errorf ''decode stored records: not an object'')
                | Some m \<Rightarrow> decode_records m))"

section \<open>Loading\<close>

definition configured_ids :: "'c gomap \<Rightarrow> string list" where
  "configured_ids configured =
     sort (filter (\<lambda>i. i \<noteq> [] \<and> \<not> HasPrefix i ClientIDPrefix) (map fst configured))"

text \<open>The closure given to \<open>Update\<close>: its failure, its merge and what it asks to write.\<close>

definition registry_update ::
  "registry_codec \<Rightarrow> string list \<Rightarrow> int \<Rightarrow> string \<Rightarrow> bool \<Rightarrow>
   goerror option \<times> registryMerge option \<times> (string \<times> bool)" where
  "registry_update cd ids now current found =
     (case (if found then decodeClientRegistry cd current else Inr []) of
        Inl e \<Rightarrow> (Some e, None, ([], False))
      | Inr have \<Rightarrow>
          (let m = mergeClientRegistry have ids now
           in if found \<and> \<not> rm_changed m then (None, Some m, ([], False))
              else (case rc_Marshal cd (rm_registry m) of
                      Inl e \<Rightarrow> (Some (wrapf (err_is e) (''encode: '' @ err_msg e)), Some m, ([], False))
                    | Inr b \<Rightarrow> (None, Some m, (b, True)))))"

definition located :: "string \<Rightarrow> goerror \<Rightarrow> goerror" where
  "located what e = wrapf (err_is e) (clientRegistryLocation @ '': '' @ what @ err_msg e)"

definition registry_slow_path ::
  "registry_codec \<Rightarrow> 's cache_ops \<Rightarrow> instant \<Rightarrow> int \<Rightarrow> string list \<Rightarrow> 's \<Rightarrow> (goerror + registry) \<times> 's" where
  "registry_slow_path cd ops t now ids s =
     (let (r, (current, found), s') =
            op_Update ops t clientRegistryKey
              (\<lambda>c f. snd (snd (registry_update cd ids now c f))) [WithoutExpiry] s
      in (case r of
            Inl e \<Rightarrow> (Inl (located ''update: '' e), s')
          | Inr _ \<Rightarrow>
              (case registry_update cd ids now current found of
                 (Some e, _, _) \<Rightarrow> (Inl (located '''' e), s')
               | (None, Some m, _) \<Rightarrow> (Inr (rm_registry m), s')
               | (None, None, _) \<Rightarrow> (Inr [], s'))))"

definition loadClientRegistry ::
  "registry_codec \<Rightarrow> 's cache_ops option \<Rightarrow> instant \<Rightarrow> 'c gomap \<Rightarrow> 's \<Rightarrow> (goerror + registry) \<times> 's" where
  "loadClientRegistry cd cm t configured s =
     (let ids = configured_ids configured; now = t div second in
      case cm of
        None \<Rightarrow> (Inr (map (\<lambda>i. (i, \<lparr>cr_Present = True, cr_RemovedAt = 0\<rparr>)) ids), s)
      | Some ops \<Rightarrow>
          (case op_Get ops t clientRegistryKey s of
             (Inl e, s1) \<Rightarrow> (Inl (located ''read: '' e), s1)
           | (Inr (value, found, _), s1) \<Rightarrow>
               if found
               then (case decodeClientRegistry cd value of
                       Inl e \<Rightarrow> (Inl (located '''' e), s1)
                     | Inr have \<Rightarrow>
                         (let m = mergeClientRegistry have ids now
                          in if \<not> rm_changed m then (Inr (rm_registry m), s1)
                             else registry_slow_path cd ops t now ids s1))
               else registry_slow_path cd ops t now ids s1))"

section \<open>Facts about the merge\<close>

text \<open>What one pass over the configured ids makes of the record of an id.\<close>

definition configured_record :: "int \<Rightarrow> clientRecord option \<Rightarrow> clientRecord" where
  "configured_record now r =
     (case r of
        None \<Rightarrow> \<lparr>cr_Present = True, cr_RemovedAt = 0\<rparr>
      | Some rec \<Rightarrow> if cr_Present rec then rec
                    else \<lparr>cr_Present = True, cr_RemovedAt = max (cr_RemovedAt rec) now\<rparr>)"

definition merged_record :: "int \<Rightarrow> string list \<Rightarrow> string \<Rightarrow> clientRecord option \<Rightarrow> clientRecord option" where
  "merged_record now configured i r =
     (if i \<in> set configured then Some (configured_record now r)
      else map_option (\<lambda>rec. if cr_Present rec
             then rec\<lparr>cr_Present := False, cr_RemovedAt := max (cr_RemovedAt rec) now\<rparr> else rec) r)"

lemma configured_record_twice [simp]:
  "configured_record now' (Some (configured_record now r)) = configured_record now r"
  by (auto simp: configured_record_def split: option.splits)

lemma map_of_merge_configured:
  "map_of (fst (merge_configured now ids (reg, a, b))) i =
     (if i \<in> set ids then Some (configured_record now (map_of reg i)) else map_of reg i)"
proof (induction ids arbitrary: reg a b i)
  case (Cons c ids)
  show ?case
    by (auto simp: Cons configured_record_def split: option.splits)
qed simp

lemma map_of_mark_removed:
  "map_of (mark_removed now conf reg) i =
     map_option (\<lambda>rec. if gone conf (i, rec)
        then rec\<lparr>cr_Present := False, cr_RemovedAt := max (cr_RemovedAt rec) now\<rparr> else rec) (map_of reg i)"
  by (induction reg) (auto simp: mark_removed_def)

lemma map_of_merge:
  "map_of (rm_registry (mergeClientRegistry have conf now)) i = merged_record now conf i (map_of have i)"
proof -
  obtain reg a b where m: "merge_configured now conf (have, [], []) = (reg, a, b)"
    by (cases "merge_configured now conf (have, [], [])")
  have "map_of reg i = (if i \<in> set conf then Some (configured_record now (map_of have i)) else map_of have i)"
    using map_of_merge_configured [of now conf "have" "[]" "[]" i] by (simp add: m)
  then show ?thesis
    by (auto simp: mergeClientRegistry_def Let_def m map_of_mark_removed merged_record_def gone_def
        split: option.split)
qed

lemma distinct_merge_configured:
  "distinct (map fst reg) \<Longrightarrow> distinct (map fst (fst (merge_configured now ids (reg, a, b))))"
  by (induction ids arbitrary: reg a b) (auto split: option.splits)

lemma distinct_merge:
  assumes "distinct (map fst have)"
  shows "distinct (map fst (rm_registry (mergeClientRegistry have conf now)))"
proof -
  obtain reg a b where m: "merge_configured now conf (have, [], []) = (reg, a, b)"
    by (cases "merge_configured now conf (have, [], [])")
  have "distinct (map fst reg)" using distinct_merge_configured [OF assms, of now conf "[]" "[]"] by (simp add: m)
  moreover have "map fst (mark_removed now conf reg) = map fst reg"
    by (simp add: mark_removed_def comp_def case_prod_beta)
  ultimately show ?thesis by (simp add: mergeClientRegistry_def Let_def m)
qed

text \<open>The merge reports no change exactly when the configured ids are present and nothing else is.\<close>

lemma merge_configured_unchanged:
  "(\<forall>i \<in> set ids. \<exists>rec. map_of reg i = Some rec \<and> cr_Present rec) \<Longrightarrow>
    merge_configured now ids (reg, a, b) = (reg, a, b)"
  by (induction ids) (auto simp: split: option.splits)

lemma merge_unchanged:
  assumes d: "distinct (map fst have)"
    and c: "\<forall>i \<in> set conf. \<exists>rec. map_of have i = Some rec \<and> cr_Present rec"
    and o: "\<forall>i rec. map_of have i = Some rec \<and> cr_Present rec \<longrightarrow> i \<in> set conf"
  shows "mergeClientRegistry have conf now =
    \<lparr>rm_registry = have, rm_recorded = [], rm_readded = [], rm_removed = [], rm_changed = False\<rparr>"
proof -
  have ng: "\<not> gone conf ir" if "ir \<in> set have" for ir
  proof -
    have "map_of have (fst ir) = Some (snd ir)" using that d by (simp add: map_of_eq_Some_iff)
    then show ?thesis using o by (auto simp: gone_def)
  qed
  then have "mark_removed now conf have = have" and "filter (gone conf) have = []"
    by (auto simp: mark_removed_def filter_empty_conv intro!: map_idI)
  then show ?thesis
    using merge_configured_unchanged [OF c, of now "[]" "[]"] by (simp add: mergeClientRegistry_def Let_def)
qed

lemma merge_again:
  assumes d: "distinct (map fst have)" and R_def: "R = rm_registry (mergeClientRegistry have conf now)"
  shows "mergeClientRegistry R conf now' =
    \<lparr>rm_registry = R, rm_recorded = [], rm_readded = [], rm_removed = [], rm_changed = False\<rparr>"
proof (rule merge_unchanged)
  show "distinct (map fst R)" using distinct_merge [OF d] by (simp add: R_def)
  show "\<forall>i\<in>set conf. \<exists>rec. map_of R i = Some rec \<and> cr_Present rec"
    by (auto simp: R_def map_of_merge merged_record_def configured_record_def split: option.split)
  show "\<forall>i rec. map_of R i = Some rec \<and> cr_Present rec \<longrightarrow> i \<in> set conf"
    by (auto simp: R_def map_of_merge merged_record_def split: if_splits)
qed

lemma merge_configured_grows:
  "merge_configured now ids (reg, a, b) = (reg', a', b') \<Longrightarrow>
     length a \<le> length a' \<and> length b \<le> length b' \<and> (length a' = length a \<and> length b' = length b \<longrightarrow> reg' = reg)"
proof (induction ids arbitrary: reg a b)
  case (Cons c ids)
  then show ?case by (fastforce split: option.splits if_splits)
qed simp

lemma sort_Nil_iff [simp]: "sort xs = [] \<longleftrightarrow> xs = []"
  by (metis length_0_conv length_sort)

lemma merge_no_change:
  assumes "\<not> rm_changed (mergeClientRegistry have conf now)"
  shows "rm_registry (mergeClientRegistry have conf now) = have"
proof -
  obtain reg a b where m: "merge_configured now conf (have, [], []) = (reg, a, b)"
    by (cases "merge_configured now conf (have, [], [])")
  from assms have e: "a = []" "b = []" "filter (gone conf) reg = []"
    by (auto simp: mergeClientRegistry_def Let_def m)
  with merge_configured_grows [OF m] have "reg = have" by simp
  with e show ?thesis
    by (auto simp: mergeClientRegistry_def Let_def m mark_removed_def filter_empty_conv intro!: map_idI)
qed

section \<open>Builds over a store\<close>

text \<open>A store whose entries written without expiry live until a fixed horizon.\<close>

locale durable_store = kv_store +
  fixes horizon :: instant
  assumes never_expires: "inv s \<Longrightarrow> deadline t [WithoutExpiry] s = horizon"

text \<open>What the code relies on of \<open>encoding/json\<close>: a registry marshals, and what was marshalled decodes
  to the same map with nothing after it.\<close>

definition registry_codec_law :: "registry_codec \<Rightarrow> bool" where
  "registry_codec_law cd \<longleftrightarrow>
     (\<forall>r. distinct (map fst r) \<longrightarrow> (\<exists>v m. rc_Marshal cd r = Inr v \<and> rc_Decode cd v = Inr (Some m, True) \<and>
        distinct (map fst m) \<and> (\<forall>i. map_of m i = map_option Some (map_of r i))))"

definition nonneg :: "registry \<Rightarrow> bool" where
  "nonneg R \<longleftrightarrow> (\<forall>i rec. map_of R i = Some rec \<longrightarrow> 0 \<le> cr_RemovedAt rec)"

lemma decode_records_ok:
  assumes "distinct (map fst m)" and "\<forall>i r. map_of m i = Some r \<longrightarrow> (\<exists>rec. r = Some rec \<and> 0 \<le> cr_RemovedAt rec)"
  shows "\<exists>R. decode_records m = Inr R \<and> distinct (map fst R) \<and> map fst R = map fst m \<and>
    (\<forall>i. map_option Some (map_of R i) = map_of m i)"
  using assms
proof (induction m)
  case (Cons ir m)
  obtain i r where ir: "ir = (i, r)" by (cases ir)
  from Cons.prems(2) [rule_format, of i r] obtain rec where r: "r = Some rec" and nn: "0 \<le> cr_RemovedAt rec"
    by (auto simp: ir)
  have i: "i \<notin> fst ` set m" and d: "distinct (map fst m)" using Cons.prems(1) by (auto simp: ir)
  have "\<forall>j r. map_of m j = Some r \<longrightarrow> (\<exists>rec. r = Some rec \<and> 0 \<le> cr_RemovedAt rec)"
  proof (intro allI impI)
    fix j r' assume j: "map_of m j = Some r'"
    then have "j \<noteq> i" using i by (auto dest: map_of_SomeD simp: rev_image_eqI)
    with j Cons.prems(2) [rule_format, of j r'] show "\<exists>rec. r' = Some rec \<and> 0 \<le> cr_RemovedAt rec"
      by (simp add: ir)
  qed
  from Cons.IH [OF d this] obtain R where "decode_records m = Inr R" and "distinct (map fst R)"
    and "map fst R = map fst m" and "\<forall>i. map_option Some (map_of R i) = map_of m i" by auto
  with nn i show ?case
    by (intro exI [of _ "(i, rec) # R"]) (auto simp: ir r simp flip: set_map)
qed simp

lemma decode_marshalled:
  assumes "registry_codec_law cd" and "distinct (map fst R)" and "nonneg R"
  shows "\<exists>v R'. rc_Marshal cd R = Inr v \<and> decodeClientRegistry cd v = Inr R' \<and>
    distinct (map fst R') \<and> map_of R' = map_of R"
proof -
  from assms(1,2) obtain v m where v: "rc_Marshal cd R = Inr v" "rc_Decode cd v = Inr (Some m, True)"
    and m: "distinct (map fst m)" "\<forall>i. map_of m i = map_option Some (map_of R i)"
    unfolding registry_codec_law_def by blast
  from decode_records_ok [OF m(1)] m(2) assms(3) obtain R' where
    R': "decode_records m = Inr R'" "distinct (map fst R')" "\<forall>i. map_option Some (map_of R' i) = map_of m i"
    by (fastforce simp: nonneg_def)
  have "map_option Some (map_of R' i) = map_option Some (map_of R i)" for i
    using R'(3) m(2) by simp
  then have "map_of R' = map_of R"
    by (intro ext) (metis option.inj_map_strong option.inject)
  with v R' show ?thesis by (auto simp: decodeClientRegistry_def)
qed

lemma nonneg_merge: "nonneg have \<Longrightarrow> 0 \<le> now \<Longrightarrow> nonneg (rm_registry (mergeClientRegistry have conf now))"
  by (auto simp: nonneg_def map_of_merge merged_record_def configured_record_def split: option.splits if_splits)

lemma merged_record_cong:
  "map_of R' = map_of R \<Longrightarrow>
   map_of (rm_registry (mergeClientRegistry R' conf now)) = map_of (rm_registry (mergeClientRegistry R conf now))"
  by (simp add: map_of_merge fun_eq_iff)

text \<open>The store holds the registry \<open>R\<close>: an encoding of it, or nothing when it is empty.\<close>

definition registry_stored ::
  "(instant \<Rightarrow> 's \<Rightarrow> string \<Rightarrow> string option) \<Rightarrow> instant \<Rightarrow> registry_codec \<Rightarrow> 's \<Rightarrow> registry \<Rightarrow> bool" where
  "registry_stored view horizon cd s R \<longleftrightarrow> distinct (map fst R) \<and> nonneg R \<and>
     ((R = [] \<and> (\<forall>t \<le> horizon. view t s clientRegistryKey = None)) \<or>
      (\<exists>v R'. (\<forall>t \<le> horizon. view t s clientRegistryKey = Some v) \<and>
         decodeClientRegistry cd v = Inr R' \<and> distinct (map fst R') \<and> map_of R' = map_of R))"

context durable_store
begin

lemma slow_path_ok:
  assumes law: "registry_codec_law cd" and i: "inv s" and t: "t \<le> horizon" and now: "0 \<le> now"
    and h: "registry_stored view horizon cd s R"
  shows "\<exists>R' s'. registry_slow_path cd ops t now ids s = (Inr R', s') \<and> inv s' \<and>
    map_of R' = map_of (rm_registry (mergeClientRegistry R ids now)) \<and> registry_stored view horizon cd s' R'"
proof -
  let ?fn = "\<lambda>c f. snd (snd (registry_update cd ids now c f))"
  obtain H where H: "(view t s clientRegistryKey = None \<and> H = []) \<or>
      (\<exists>v. (\<forall>t\<le>horizon. view t s clientRegistryKey = Some v) \<and> decodeClientRegistry cd v = Inr H)"
    and dH: "distinct (map fst H)" and mH: "map_of H = map_of R"
    using h t unfolding registry_stored_def by fastforce
  have nH: "nonneg H" using h by (simp add: registry_stored_def nonneg_def mH)
  define m where "m = mergeClientRegistry H ids now"
  have dm: "distinct (map fst (rm_registry m))" and nm: "nonneg (rm_registry m)"
    using distinct_merge [OF dH] nonneg_merge [OF nH now] by (simp_all add: m_def)
  have mm: "map_of (rm_registry m) = map_of (rm_registry (mergeClientRegistry R ids now))"
    unfolding m_def by (rule merged_record_cong [OF mH])
  obtain b R' where b: "rc_Marshal cd (rm_registry m) = Inr b" "decodeClientRegistry cd b = Inr R'"
      "distinct (map fst R')" "map_of R' = map_of (rm_registry m)"
    using decode_marshalled [OF law dm nm] by blast
  have upd: "op_Update ops t clientRegistryKey ?fn [WithoutExpiry] s =
      (let a = seen_args (view t s clientRegistryKey); r = ?fn (fst a) (snd a)
       in (Inr (snd r), a, if snd r then snd (op_Set ops t clientRegistryKey (fst r) [WithoutExpiry] s) else s))"
    by (rule update_is [OF i])
  let ?s' = "snd (op_Set ops t clientRegistryKey b [WithoutExpiry] s)"
  have written: "registry_stored view horizon cd ?s' (rm_registry m)" "inv ?s'"
    using b dm nm set_inv [OF i] by (auto simp: registry_stored_def set_self [OF i] never_expires [OF i])
  define a where "a = seen_args (view t s clientRegistryKey)"
  have ru: "registry_update cd ids now (fst a) (snd a) =
      (None, Some m, if snd a \<and> \<not> rm_changed m then ([], False) else (b, True))"
    using H t b(1) unfolding m_def by (auto simp: a_def registry_update_def Let_def)
  have sp: "registry_slow_path cd ops t now ids s =
      (Inr (rm_registry m), if snd a \<and> \<not> rm_changed m then s else ?s')"
    by (simp add: registry_slow_path_def upd a_def [symmetric] ru Let_def split_beta)
  show ?thesis
  proof (cases "(\<exists>v. view t s clientRegistryKey = Some v) \<and> \<not> rm_changed m")
    case True
    then obtain v where v: "\<forall>t\<le>horizon. view t s clientRegistryKey = Some v" "decodeClientRegistry cd v = Inr H"
      using H by auto
    have ch: "\<not> rm_changed m" using True by simp
    then have "rm_registry m = H" using merge_no_change [of H ids now] by (simp add: m_def)
    moreover have "registry_stored view horizon cd s H" using v dH nH by (auto simp: registry_stored_def)
    ultimately show ?thesis
      using v ch t i mm by (simp add: sp a_def)
  next
    case False
    then show ?thesis
      using mm written by (cases "view t s clientRegistryKey") (auto simp: sp a_def)
  qed
qed

lemma load_ok:
  assumes law: "registry_codec_law cd" and i: "inv s" and t: "0 \<le> t" "t \<le> horizon"
    and h: "registry_stored view horizon cd s R"
  shows "\<exists>R' s'. loadClientRegistry cd (Some ops) t conf s = (Inr R', s') \<and> inv s' \<and>
    map_of R' = map_of (rm_registry (mergeClientRegistry R (configured_ids conf) (t div second))) \<and>
    registry_stored view horizon cd s' R'"
proof -
  define s1 where "s1 = snd (op_Get ops t clientRegistryKey s)"
  have i1: "inv s1" and h1: "registry_stored view horizon cd s1 R"
    using h i by (simp_all add: s1_def get_inv registry_stored_def get_view)
  have now: "0 \<le> t div second" using t(1) by simp
  note slow = slow_path_ok [OF law i1 t(2) now h1, of "configured_ids conf"]
  have g: "op_Get ops t clientRegistryKey s = (Inr (found_result (view t s clientRegistryKey)), s1)"
    using get_result [OF i] by (simp add: prod_eq_iff s1_def)
  show ?thesis
  proof (cases "view t s clientRegistryKey")
    case None
    then show ?thesis using slow g by (simp add: loadClientRegistry_def Let_def)
  next
    case (Some v)
    then obtain H where v: "\<forall>t\<le>horizon. view t s clientRegistryKey = Some v"
      and H: "decodeClientRegistry cd v = Inr H" "distinct (map fst H)" "map_of H = map_of R"
      using h t(2) unfolding registry_stored_def by fastforce
    have nH: "nonneg H" using h H(3) by (simp add: registry_stored_def nonneg_def)
    let ?m = "mergeClientRegistry H (configured_ids conf) (t div second)"
    show ?thesis
    proof (cases "rm_changed ?m")
      case True
      then show ?thesis using slow g Some H by (simp add: loadClientRegistry_def Let_def)
    next
      case False
      then have "rm_registry ?m = H" by (rule merge_no_change)
      moreover have "registry_stored view horizon cd s1 H"
        using v H nH i by (auto simp: registry_stored_def get_view s1_def)
      ultimately show ?thesis
        using False g Some H i1 merged_record_cong [OF H(3), of "configured_ids conf" "t div second"]
        by (simp add: loadClientRegistry_def Let_def)
    qed
  qed
qed

end

lemma mem_never_expires: "mem_deadline t [WithoutExpiry] c = neverExpires"
  by (simp add: mem_deadline_def entry_expiry_def applySetOptions_def)

interpretation memd: durable_store mem_ops surviving cache_view mem_deadline neverExpires
  by unfold_locales (simp add: mem_never_expires)

section \<open>Sequences of builds\<close>

text \<open>The exchanger builds of a host in order, each at its time and with its configuration: the registry
  of the last one, unless a build fails.\<close>

fun run_builds ::
  "registry_codec \<Rightarrow> 's cache_ops \<Rightarrow> (instant \<times> 'c gomap) list \<Rightarrow> registry \<Rightarrow> 's \<Rightarrow> (goerror + registry) \<times> 's" where
  "run_builds cd ops [] R s = (Inr R, s)"
| "run_builds cd ops ((t, conf) # bs) R s =
     (case loadClientRegistry cd (Some ops) t conf s of
        (Inl e, s') \<Rightarrow> (Inl e, s')
      | (Inr R', s') \<Rightarrow> run_builds cd ops bs R' s')"

text \<open>The same sequence over the pure merge: what the record of one id becomes.\<close>

fun record_after :: "(instant \<times> 'c gomap) list \<Rightarrow> string \<Rightarrow> clientRecord option \<Rightarrow> clientRecord option" where
  "record_after [] i r = r"
| "record_after ((t, conf) # bs) i r =
     record_after bs i (merged_record (t div second) (configured_ids conf) i r)"

context durable_store
begin

lemma run_builds_ok:
  assumes "registry_codec_law cd" and "inv s" and "registry_stored view horizon cd s R"
    and "\<forall>(t, conf) \<in> set bs. 0 \<le> t \<and> t \<le> horizon"
  shows "\<exists>R' s'. run_builds cd ops bs R s = (Inr R', s') \<and> inv s' \<and> registry_stored view horizon cd s' R' \<and>
    (\<forall>i. map_of R' i = record_after bs i (map_of R i))"
  using assms(2-)
proof (induction bs arbitrary: R s)
  case (Cons b bs)
  obtain t conf where b: "b = (t, conf)" by (cases b)
  from load_ok [OF assms(1) Cons.prems(1) _ _ Cons.prems(2), of t conf] Cons.prems(3) obtain R1 s1 where
    l: "loadClientRegistry cd (Some ops) t conf s = (Inr R1, s1)" "inv s1" "registry_stored view horizon cd s1 R1"
      "map_of R1 = map_of (rm_registry (mergeClientRegistry R (configured_ids conf) (t div second)))"
    by (auto simp: b)
  have "\<forall>(t, conf) \<in> set bs. 0 \<le> t \<and> t \<le> horizon" using Cons.prems(3) by auto
  from Cons.IH [OF l(2,3) this] l(1,4) show ?case by (auto simp: b map_of_merge)
qed simp

end

lemma merged_record_mono:
  "r = Some rec \<Longrightarrow> \<exists>rec'. merged_record now conf i r = Some rec' \<and> cr_RemovedAt rec \<le> cr_RemovedAt rec'"
  by (auto simp: merged_record_def configured_record_def)

lemma record_after_mono:
  "\<exists>rec'. record_after bs i (Some rec) = Some rec' \<and> cr_RemovedAt rec \<le> cr_RemovedAt rec'"
proof (induction bs arbitrary: rec)
  case (Cons b bs)
  obtain t conf where b: "b = (t, conf)" by (cases b)
  obtain rec1 where r: "merged_record (t div second) (configured_ids conf) i (Some rec) = Some rec1"
    and le: "cr_RemovedAt rec \<le> cr_RemovedAt rec1"
    using merged_record_mono [OF refl] by blast
  with Cons.IH [of rec1] show ?case by (auto simp: b)
qed simp

lemma record_after_append: "record_after (xs @ ys) i r = record_after ys i (record_after xs i r)"
  by (induction xs i r rule: record_after.induct) auto

lemma record_after_known:
  assumes "(t, conf) \<in> set bs" and "i \<in> set (configured_ids conf)"
  shows "\<exists>rec. record_after bs i r = Some rec"
proof -
  from split_list [OF assms(1)] obtain xs ys where bs: "bs = xs @ (t, conf) # ys" by blast
  obtain rec where "merged_record (t div second) (configured_ids conf) i (record_after xs i r) = Some rec"
    using assms(2) by (auto simp: merged_record_def)
  with record_after_mono [of ys i rec] show ?thesis by (auto simp: bs record_after_append)
qed

lemma record_after_absent:
  assumes "r = Some rec" and "\<not> cr_Present rec" and "\<forall>(t, conf) \<in> set bs. i \<notin> set (configured_ids conf)"
  shows "record_after bs i r = r"
  using assms by (induction bs i r rule: record_after.induct) (auto simp: merged_record_def)

text \<open>A removal and a later re-add leave a cutoff at or after the re-add, whatever follows.\<close>

lemma record_after_readd:
  assumes "(t0, conf0) \<in> set xs" and "i \<in> set (configured_ids conf0)"
    and "i \<notin> set (configured_ids conf1)" and "\<forall>(t, conf) \<in> set ys. i \<notin> set (configured_ids conf)"
    and "i \<in> set (configured_ids conf2)"
  shows "\<exists>rec. record_after (xs @ (t1, conf1) # ys @ (t2, conf2) # zs) i r = Some rec \<and>
    t2 div second \<le> cr_RemovedAt rec"
proof -
  obtain rec0 where "record_after xs i r = Some rec0" using record_after_known [OF assms(1,2)] by blast
  moreover obtain rec1 where m1: "merged_record (t1 div second) (configured_ids conf1) i (Some rec0) = Some rec1"
    and "\<not> cr_Present rec1"
    using assms(3) by (auto simp: merged_record_def)
  moreover have "record_after ys i (Some rec1) = Some rec1"
    using record_after_absent [OF refl \<open>\<not> cr_Present rec1\<close> assms(4)] .
  moreover obtain rec2 where "merged_record (t2 div second) (configured_ids conf2) i (Some rec1) = Some rec2"
    and le: "t2 div second \<le> cr_RemovedAt rec2"
    using assms(5) \<open>\<not> cr_Present rec1\<close> by (auto simp: merged_record_def configured_record_def)
  ultimately show ?thesis
    using record_after_mono [of zs i rec2] by (auto simp: record_after_append)
qed

section \<open>Properties\<close>

text \<open>A codec for the witnesses: the records, numbered.\<close>

definition demo_codec :: registry_codec where
  "demo_codec =
     \<lparr>rc_Marshal = (\<lambda>r. Inr (replicate (to_nat (map (\<lambda>(i, c). (i, cr_Present c, cr_RemovedAt c)) r)) (CHR ''x''))),
      rc_Decode = (\<lambda>v. Inr (Some (map (\<lambda>(i, p, a). (i, Some \<lparr>cr_Present = p, cr_RemovedAt = a\<rparr>)) (from_nat (length v))), True))\<rparr>"

lemma map_of_map_Some: "map_of (map (\<lambda>(i, c). (i, Some c)) r) i = map_option Some (map_of r i)"
  by (induction r) auto

lemma demo_codec_law: "registry_codec_law demo_codec"
proof -
  have "rc_Decode demo_codec (projr (rc_Marshal demo_codec r)) = Inr (Some (map (\<lambda>(i, c). (i, Some c)) r), True)" for r
    by (auto simp: demo_codec_def)
  moreover have "rc_Marshal demo_codec r = Inr (projr (rc_Marshal demo_codec r))" for r
    by (simp add: demo_codec_def)
  moreover have "map fst (map (\<lambda>(i, c). (i, Some c)) r) = map fst r" for r :: registry
    by (simp add: comp_def case_prod_beta)
  ultimately show ?thesis
    unfolding registry_codec_law_def by (metis map_of_map_Some)
qed

definition demo_registry_cache :: InMemoryCache where
  "demo_registry_cache = new_cache clientRegistryClass
     \<lparr>o_MaxItems = Some 0, o_TTL = None, o_Uncycled = True\<rparr> (NewCacheManager ''host'' None)"

lemma demo_registry_ok:
  "surviving demo_registry_cache \<and> registry_stored cache_view neverExpires demo_codec demo_registry_cache []"
  by (auto simp: demo_registry_cache_def registry_stored_def nonneg_def surviving_def new_cache_def
      cache_view_def lookup_entry_def seg_of_def)

text \<open>The client registry forgets nothing. Every build over a registry the cache holds succeeds,
  its result is stored, it keeps a record of every id it had with a cutoff that only moves forward, and
  its present ids are exactly the configured ones (dynamic and empty ids apart).\<close>

theorem registry_never_forgets:
  assumes "registry_codec_law cd" and "surviving c" and "registry_stored cache_view neverExpires cd c R"
    and "0 \<le> t" and "t \<le> neverExpires"
  shows "\<exists>R' c'. loadClientRegistry cd (Some mem_ops) t conf c = (Inr R', c') \<and>
    registry_stored cache_view neverExpires cd c' R' \<and>
    (\<forall>i rec. map_of R i = Some rec \<longrightarrow>
       (\<exists>rec'. map_of R' i = Some rec' \<and> cr_RemovedAt rec \<le> cr_RemovedAt rec')) \<and>
    (\<forall>i. (\<exists>rec. map_of R' i = Some rec \<and> cr_Present rec) \<longleftrightarrow> i \<in> set (configured_ids conf))"
proof -
  from memd.load_ok [OF assms(1,2,4,5,3), of conf] obtain R' c' where
    l: "loadClientRegistry cd (Some mem_ops) t conf c = (Inr R', c')"
      "registry_stored cache_view neverExpires cd c' R'"
      "map_of R' = map_of (rm_registry (mergeClientRegistry R (configured_ids conf) (t div second)))"
    by blast
  have "\<exists>rec'. map_of R' i = Some rec' \<and> cr_RemovedAt rec \<le> cr_RemovedAt rec'" if "map_of R i = Some rec" for i rec
    using merged_record_mono [OF that, of "t div second" "configured_ids conf" i] by (simp add: l(3) map_of_merge)
  moreover have "(\<exists>rec. map_of R' i = Some rec \<and> cr_Present rec) \<longleftrightarrow> i \<in> set (configured_ids conf)" for i
    by (auto simp: l(3) map_of_merge merged_record_def configured_record_def split: option.splits)
  ultimately show ?thesis using l(1,2) by blast
qed

theorem registry_never_forgets_witness:
  "\<exists>R' c'. loadClientRegistry demo_codec (Some mem_ops) (5 * second) [(''portal'', ())] demo_registry_cache = (Inr R', c') \<and>
     (\<exists>rec. map_of R' ''portal'' = Some rec \<and> cr_Present rec)"
proof -
  have "''portal'' \<in> set (configured_ids [(''portal'', ())])" and "5 * second \<le> neverExpires" by code_simp+
  then show ?thesis
    using registry_never_forgets [OF demo_codec_law, of demo_registry_cache "[]" "5 * second" "[(''portal'', ())]"]
      demo_registry_ok by auto
qed

end
