(* ===== verification/SubjectKind.thy ===== *)
theory SubjectKind
  imports Claims ClientRegistry
begin

text \<open>
  Subject kinds and the veto: \<open>src/internal/auth/subject_kind.go\<close> and the role-binding key of
  \<open>binding_key.go\<close>. The kind of a credential's subject is recorded when it is issued; current
  configuration, with the client registry, can only veto it.

  The kinds themselves (\<open>kdexv1alpha1.SubjectKind\<close>) are declared outside the repository: they are
  the fields of \<open>kind_lib\<close>, with what the code relies on in \<open>kind_law\<close>. A method that accepts a nil
  \<open>*Exchanger\<close> takes an option.
\<close>

section \<open>Kinds, clients and the exchanger's view of them\<close>

record kind_lib =
  SubjectKindClient :: string
  SubjectKindUser :: string
  kind_Known :: "string \<Rightarrow> bool"

definition kind_law :: "kind_lib \<Rightarrow> bool" where
  "kind_law K \<longleftrightarrow> SubjectKindClient K \<noteq> SubjectKindUser K \<and> SubjectKindClient K \<noteq> [] \<and> SubjectKindUser K \<noteq> [] \<and>
     kind_Known K (SubjectKindClient K) \<and> kind_Known K (SubjectKindUser K) \<and> \<not> kind_Known K []"

record AuthClient =
  ac_AllowedGrantTypes :: "string list"
  ac_AllowedScopes :: "string list"
  ac_AllowedResources :: "string list"
  ac_ClientID :: string
  ac_ClientSecret :: string
  ac_Description :: string
  ac_Name :: string
  ac_Public :: bool
  ac_RedirectURIs :: "string list"
  ac_RequireConsent :: bool
  ac_RequirePKCE :: bool

text \<open>The part of the exchanger and its configuration that classification reads.\<close>

record Exchanger =
  e_clientRegistry :: registry
  e_Clients :: "AuthClient gomap"
  e_RoleBindingClaim :: string
  e_RequireEmailVerified :: bool

definition NamesClient :: "Exchanger option \<Rightarrow> string \<Rightarrow> bool" where
  "NamesClient e key =
     (case e of
        None \<Rightarrow> False
      | Some x \<Rightarrow> if key = [] then False
                  else if map_of (e_clientRegistry x) key \<noteq> None then True
                  else HasPrefix key ClientIDPrefix)"

definition IsConfiguredClient :: "Exchanger option \<Rightarrow> string \<Rightarrow> bool" where
  "IsConfiguredClient e i = (case e of None \<Rightarrow> False | Some x \<Rightarrow> map_of (e_Clients x) i \<noteq> None)"

text \<open>Indexing a missing key yields the zero record.\<close>

definition clientRemovedAt :: "Exchanger option \<Rightarrow> string \<Rightarrow> int" where
  "clientRemovedAt e i =
     (case e of
        None \<Rightarrow> 0
      | Some x \<Rightarrow> (case map_of (e_clientRegistry x) i of None \<Rightarrow> 0 | Some r \<Rightarrow> cr_RemovedAt r))"

definition SubjectKindOf :: "kind_lib \<Rightarrow> Exchanger option \<Rightarrow> string \<Rightarrow> string" where
  "SubjectKindOf K e sub = (if NamesClient e sub then SubjectKindClient K else SubjectKindUser K)"

definition kindOrLegacy :: "kind_lib \<Rightarrow> Exchanger option \<Rightarrow> string \<Rightarrow> string \<Rightarrow> string" where
  "kindOrLegacy K e recorded sub = (if recorded \<noteq> [] then recorded else SubjectKindOf K e sub)"

definition ContextSubjectKind :: "kind_lib \<Rightarrow> Exchanger option \<Rightarrow> mapclaims \<Rightarrow> string" where
  "ContextSubjectKind K e ac =
     (let kind = claim_string ac ClaimSubjectKind
      in if kind = [] \<and> snd (ClientCredentialsSubject ac) then SubjectKindClient K
         else kindOrLegacy K e kind (claim_string ac ''sub''))"

section \<open>The veto\<close>

definition refused :: "sentinel list \<Rightarrow> string \<Rightarrow> goerror" where
  "refused ss m = wrapf (ErrCredentialKindRefused # ss) (''credential kind refused by current config: '' @ m)"

definition vetoClient :: "Exchanger option \<Rightarrow> string \<Rightarrow> int \<Rightarrow> goerror option" where
  "vetoClient e sub iat =
     (if \<not> IsConfiguredClient e sub
      then Some (refused [] ''a Client credential whose client is not configured'')
      else let removedAt = clientRemovedAt e sub
           in if removedAt > 0 \<and> iat \<le> removedAt
              then Some (refused [] ''a Client credential issued before its client's last removal or re-add'')
              else None)"

definition vetoUser :: "Exchanger option \<Rightarrow> string \<Rightarrow> int \<Rightarrow> goerror option" where
  "vetoUser e sub iat =
     (if NamesClient e sub then Some (refused [] ''a User credential whose sub names a client'') else None)"

definition vetoRules :: "kind_lib \<Rightarrow> (Exchanger option \<Rightarrow> string \<Rightarrow> int \<Rightarrow> goerror option) gomap" where
  "vetoRules K = [(SubjectKindClient K, vetoClient), (SubjectKindUser K, vetoUser)]"

definition vetoSubjectKind :: "kind_lib \<Rightarrow> Exchanger option \<Rightarrow> string \<Rightarrow> string \<Rightarrow> int \<Rightarrow> goerror option" where
  "vetoSubjectKind K e sub kind iat =
     (case map_of (vetoRules K) kind of
        Some rule \<Rightarrow> rule e sub iat
      | None \<Rightarrow>
          if kind_Known K kind
          then Some (refused [ErrNoVetoRule] (''a known kind the veto has no rule for: '' @ kind))
          else None)"

text \<open>\<open>VetoCredential\<close> adds only a log line.\<close>

definition VetoCredential ::
  "kind_lib \<Rightarrow> Exchanger option \<Rightarrow> string \<Rightarrow> string \<Rightarrow> int \<Rightarrow> string \<Rightarrow> goerror option" where
  "VetoCredential K e sub kind iat site = vetoSubjectKind K e sub kind iat"

section \<open>The role-binding key\<close>

record siteSpec =
  site_name :: string
  site_resolvesRoles :: bool
  site_perRequest :: bool

definition SiteLocalLogin :: string where "SiteLocalLogin = ''local login''"
definition SiteOIDCLogin :: string where "SiteOIDCLogin = ''oidc login''"
definition SiteAuthCode :: string where "SiteAuthCode = ''auth-code redeem''"
definition SiteRefresh :: string where "SiteRefresh = ''refresh''"
definition SiteSessionGrantRefresh :: string where "SiteSessionGrantRefresh = ''session-grant refresh''"
definition SiteClientCredentials :: string where "SiteClientCredentials = ''client_credentials''"
definition SiteTokenExchange :: string where "SiteTokenExchange = ''token exchange''"

definition allSites :: "siteSpec list" where
  "allSites =
     map (\<lambda>(n, r, p). \<lparr>site_name = n, site_resolvesRoles = r, site_perRequest = p\<rparr>)
       [(SiteLocalLogin, True, False), (SiteOIDCLogin, True, False), (SiteAuthCode, True, False),
        (SiteRefresh, True, False), (SiteSessionGrantRefresh, True, True),
        (SiteClientCredentials, True, False), (SiteTokenExchange, True, False),
        (''host pat'', True, True), (''proxy pat'', True, True), (''whoami'', True, True),
        (''host jwt'', False, True), (''apitokens verify'', False, True),
        (''apitokens mint'', False, False), (''transfer redeem'', False, True)]"

definition siteLogLevels :: "nat gomap" where
  "siteLogLevels = fold (\<lambda>s. AList.update (site_name s) (if site_perRequest s then 3 else 2)) allSites []"

definition bindingLogLevel :: "string \<Rightarrow> nat" where
  "bindingLogLevel site = (case map_of siteLogLevels site of Some level \<Rightarrow> level | None \<Rightarrow> 2)"

record BindingSubject =
  bs_Key :: string
  bs_Kind :: string
  bs_Site :: string

definition emailVerifiedTruthy :: "mapclaims \<Rightarrow> bool" where
  "emailVerifiedTruthy claims =
     (case map_of claims ''email_verified'' of
        Some (VBool ev) \<Rightarrow> ev
      | Some (VStr ev) \<Rightarrow> EqualFold ev ''true''
      | _ \<Rightarrow> False)"

definition resolveBindingKey :: "mapclaims \<Rightarrow> string \<Rightarrow> string \<Rightarrow> bool \<Rightarrow> string" where
  "resolveBindingKey claims sub roleBindingClaim requireEmailVerified =
     (if roleBindingClaim = [] \<or> roleBindingClaim = ''sub'' then sub
      else case map_of claims roleBindingClaim of
             Some (VStr v) \<Rightarrow>
               if v = [] then sub
               else if roleBindingClaim = ''email'' \<and> requireEmailVerified \<and> \<not> emailVerifiedTruthy claims then sub
               else v
           | _ \<Rightarrow> sub)"

definition bindingKeyLogKV :: "mapclaims \<Rightarrow> string \<Rightarrow> string \<Rightarrow> string \<Rightarrow> bool \<Rightarrow> goany gomap" where
  "bindingKeyLogKV claims sub bindingKey roleBindingClaim requireEmailVerified =
     [(''role_binding_claim'', VStr roleBindingClaim),
      (''require_email_verified'', VBool requireEmailVerified),
      (''claim_present'', VBool (claim_string claims roleBindingClaim \<noteq> [])),
      (''email_verified_truthy'', VBool (emailVerifiedTruthy claims)),
      (''resolved_to_sub'', VBool (bindingKey = sub))]"

fun refuseClientNamedIdentity :: "Exchanger option \<Rightarrow> string list \<Rightarrow> goerror option" where
  "refuseClientNamedIdentity e [] = None"
| "refuseClientNamedIdentity e (key # keys) =
     (if NamesClient e key
      then Some (wrapf [ErrSubjectNamesClient] (''subject names a client: '' @ key @ ''; rename the user or the client''))
      else refuseClientNamedIdentity e keys)"

definition userBindingSubject ::
  "kind_lib \<Rightarrow> Exchanger \<Rightarrow> mapclaims \<Rightarrow> string \<Rightarrow> string \<Rightarrow> BindingSubject \<times> goerror option" where
  "userBindingSubject K e claims sub site =
     (let bindingKey = resolveBindingKey claims sub (e_RoleBindingClaim e) (e_RequireEmailVerified e)
      in (\<lparr>bs_Key = bindingKey, bs_Kind = SubjectKindUser K, bs_Site = site\<rparr>,
          refuseClientNamedIdentity (Some e) [sub, bindingKey]))"

definition clientBindingSubject :: "kind_lib \<Rightarrow> string \<Rightarrow> BindingSubject" where
  "clientBindingSubject K i = \<lparr>bs_Key = i, bs_Kind = SubjectKindClient K, bs_Site = SiteClientCredentials\<rparr>"

section \<open>Lemmas\<close>

lemma map_of_vetoRules:
  "kind_law K \<Longrightarrow> map_of (vetoRules K) (SubjectKindClient K) = Some vetoClient \<and>
     map_of (vetoRules K) (SubjectKindUser K) = Some vetoUser"
  by (auto simp: vetoRules_def kind_law_def)

lemma veto_client:
  "kind_law K \<Longrightarrow> VetoCredential K e sub (SubjectKindClient K) iat site = vetoClient e sub iat"
  by (simp add: VetoCredential_def vetoSubjectKind_def map_of_vetoRules)

lemma veto_user:
  "kind_law K \<Longrightarrow> VetoCredential K e sub (SubjectKindUser K) iat site = vetoUser e sub iat"
  by (simp add: VetoCredential_def vetoSubjectKind_def map_of_vetoRules)

lemma veto_is_kind_refusal:
  "VetoCredential K e sub kind iat site = Some err \<Longrightarrow> errors_Is err ErrCredentialKindRefused"
  by (auto simp: VetoCredential_def vetoSubjectKind_def vetoRules_def vetoClient_def vetoUser_def refused_def
      wrapf_def errors_Is_def Let_def split: option.splits if_splits)

lemma NamesClient_registry: "map_of (e_clientRegistry x) i \<noteq> None \<Longrightarrow> i \<noteq> [] \<Longrightarrow> NamesClient (Some x) i"
  by (simp add: NamesClient_def)

lemma refuse_None_iff:
  "refuseClientNamedIdentity e keys = None \<longleftrightarrow> (\<forall>k \<in> set keys. \<not> NamesClient e k)"
  by (induction keys) auto

lemma in_configured_ids:
  "i \<in> set (configured_ids conf) \<longleftrightarrow> i \<in> fst ` set conf \<and> i \<noteq> [] \<and> \<not> HasPrefix i ClientIDPrefix"
  by (auto simp: configured_ids_def)

lemma resolveBindingKey_cases:
  "resolveBindingKey claims sub rbc verif = sub \<or>
   (map_of claims rbc = Some (VStr (resolveBindingKey claims sub rbc verif)) \<and>
    (rbc = ''email'' \<and> verif \<longrightarrow> emailVerifiedTruthy claims))"
  by (auto simp: resolveBindingKey_def split: option.splits goany.splits if_splits)

section \<open>Properties\<close>

definition demo_kinds :: kind_lib where
  "demo_kinds = \<lparr>SubjectKindClient = ''Client'', SubjectKindUser = ''User'',
     kind_Known = (\<lambda>k. k \<in> {''Client'', ''User''})\<rparr>"

lemma demo_kinds_law: "kind_law demo_kinds"
  by (simp add: kind_law_def demo_kinds_def)

text \<open>C2: re-adding a client is a clean slate. Take any sequence of exchanger builds in which a client
  is configured, then a build without it, and later the first build with it again, at \<open>t2\<close>: in the
  exchanger of the last build, every Client credential of it issued at or before \<open>t2\<close> is refused, and a
  User credential with its name always is.\<close>

theorem client_readd_clean_slate:
  assumes "registry_codec_law cd" and "kind_law K" and "surviving c"
    and "registry_stored cache_view neverExpires cd c R"
    and "bs = xs @ (t1, conf1) # ys @ (t2, conf2) # zs"
    and "\<forall>(t, conf) \<in> set bs. 0 \<le> t \<and> t \<le> neverExpires"
    and "(t0, conf0) \<in> set xs" and "i \<in> set (configured_ids conf0)" and "i \<notin> set (configured_ids conf1)"
    and "\<forall>(t, conf) \<in> set ys. i \<notin> set (configured_ids conf)" and "i \<in> set (configured_ids conf2)"
    and "iat \<le> t2 div second" and "second \<le> t2"
  shows "\<exists>R' c'. run_builds cd mem_ops bs R c = (Inr R', c') \<and>
    (\<forall>x site. e_clientRegistry x = R' \<longrightarrow>
       (\<exists>err. VetoCredential K (Some x) i (SubjectKindClient K) iat site = Some err) \<and>
       (\<forall>iat'. \<exists>err. VetoCredential K (Some x) i (SubjectKindUser K) iat' site = Some err))"
proof -
  from memd.run_builds_ok [OF assms(1,3,4,6)] obtain R' c' where
    run: "run_builds cd mem_ops bs R c = (Inr R', c')"
    and R': "\<forall>i. map_of R' i = record_after bs i (map_of R i)" by blast
  from record_after_readd [OF assms(7-11), of t1 t2 zs "map_of R i"] obtain rec where
    rec: "map_of R' i = Some rec" "t2 div second \<le> cr_RemovedAt rec" by (auto simp: R' assms(5))
  have pos: "0 < cr_RemovedAt rec" using rec(2) assms(13) by linarith
  have ne: "i \<noteq> []" using assms(8) by (simp add: in_configured_ids)
  have "\<exists>err. VetoCredential K (Some x) i (SubjectKindClient K) iat site = Some err"
    if "e_clientRegistry x = R'" for x site
    using that rec assms(12) pos
    by (auto simp: veto_client [OF assms(2)] vetoClient_def clientRemovedAt_def Let_def)
  moreover have "\<exists>err. VetoCredential K (Some x) i (SubjectKindUser K) iat' site = Some err"
    if "e_clientRegistry x = R'" for x site iat'
    using that rec ne by (auto simp: veto_user [OF assms(2)] vetoUser_def NamesClient_registry)
  ultimately show ?thesis using run by blast
qed

theorem client_readd_clean_slate_witness:
  "\<exists>R' c'. run_builds demo_codec mem_ops
      [(10 * second, [(''portal'', ())]), (20 * second, []), (30 * second, [(''portal'', ())])] []
      demo_registry_cache = (Inr R', c') \<and>
    (\<forall>x. e_clientRegistry x = R' \<longrightarrow>
       (\<exists>err. VetoCredential demo_kinds (Some x) ''portal'' ''Client'' 30 ''host jwt'' = Some err))"
proof -
  let ?bs = "[(10 * second, [(''portal'', ())]), (20 * second, []), (30 * second, [(''portal'', ())])]"
  have ids: "''portal'' \<in> set (configured_ids [(''portal'', ())])" "''portal'' \<notin> set (configured_ids ([] :: (string \<times> unit) list))"
    by code_simp+
  have ts: "\<forall>(t, conf) \<in> set ?bs. 0 \<le> t \<and> t \<le> neverExpires"
    by (simp add: neverExpires_def)
  have "\<exists>R' c'. run_builds demo_codec mem_ops ?bs [] demo_registry_cache = (Inr R', c') \<and>
    (\<forall>x site. e_clientRegistry x = R' \<longrightarrow>
       (\<exists>err. VetoCredential demo_kinds (Some x) ''portal'' (SubjectKindClient demo_kinds) 30 site = Some err) \<and>
       (\<forall>iat'. \<exists>err. VetoCredential demo_kinds (Some x) ''portal'' (SubjectKindUser demo_kinds) iat' site = Some err))"
    by (rule client_readd_clean_slate [OF demo_codec_law demo_kinds_law, where xs = "[(10 * second, [(''portal'', ())])]"
          and ys = "[]" and zs = "[]" and ?t1.0 = "20 * second" and ?t2.0 = "30 * second" and ?conf1.0 = "[]"
          and ?conf2.0 = "[(''portal'', ())]" and ?t0.0 = "10 * second" and ?conf0.0 = "[(''portal'', ())]"])
      (use ids ts demo_registry_ok in simp_all)
  moreover have "SubjectKindClient demo_kinds = ''Client''" by code_simp
  ultimately show ?thesis by metis
qed

text \<open>No user identity is issued under a client's name, and no unverified address keys roles. When
  \<open>userBindingSubject\<close> accepts an identity, neither its sub nor its binding key names a client, its kind
  is User, and its key is the sub or the value of the configured claim, the latter only with a verified
  address when that is required; the same identity passes the veto as a User.\<close>

theorem user_identity_accepted:
  assumes "kind_law K" and "userBindingSubject K e claims sub site = (bs, None)"
  shows "\<not> NamesClient (Some e) sub \<and> \<not> NamesClient (Some e) (bs_Key bs) \<and> bs_Kind bs = SubjectKindUser K \<and>
    (bs_Key bs = sub \<or>
     (map_of claims (e_RoleBindingClaim e) = Some (VStr (bs_Key bs)) \<and>
      (e_RoleBindingClaim e = ''email'' \<and> e_RequireEmailVerified e \<longrightarrow> emailVerifiedTruthy claims))) \<and>
    VetoCredential K (Some e) sub (bs_Kind bs) iat site = None"
  using assms(2) resolveBindingKey_cases [of claims sub "e_RoleBindingClaim e" "e_RequireEmailVerified e"]
  by (auto simp: userBindingSubject_def Let_def veto_user [OF assms(1)] vetoUser_def split: if_splits)

definition demo_exchanger :: Exchanger where
  "demo_exchanger = \<lparr>e_clientRegistry = [(''portal'', \<lparr>cr_Present = True, cr_RemovedAt = 0\<rparr>)],
     e_Clients = [], e_RoleBindingClaim = ''email'', e_RequireEmailVerified = True\<rparr>"

theorem user_identity_accepted_witness:
  "\<not> NamesClient (Some demo_exchanger) ''u1'' \<and> \<not> NamesClient (Some demo_exchanger) ''a@b.c'' \<and>
   VetoCredential demo_kinds (Some demo_exchanger) ''u1'' ''User'' 7 SiteOIDCLogin = None"
proof -
  have "userBindingSubject demo_kinds demo_exchanger
      [(''email'', VStr ''a@b.c''), (''email_verified'', VStr ''TRUE'')] ''u1'' SiteOIDCLogin =
      (\<lparr>bs_Key = ''a@b.c'', bs_Kind = ''User'', bs_Site = SiteOIDCLogin\<rparr>, None)"
    by code_simp
  from user_identity_accepted [OF demo_kinds_law this, of 7] show ?thesis
    unfolding BindingSubject.select_convs by (elim conjE) (intro conjI; assumption)
qed

end
