(* ===== verification/Roles.thy ===== *)
theory Roles
  imports SubjectKind
begin

text \<open>
  Role resolution and the credential lookups of \<open>src/internal/auth/roles.go\<close> (and
  \<open>resolveBindings\<close> of \<open>binding_key.go\<close>): KDexRoles compile to entitlement strings, KDexRoleBindings
  compile to exact and pattern bindings, and a subject of some kind resolves to the roles of the
  bindings that match it and admit its kind. The lookups are tried in order; the first that answers
  is authoritative.

  The cluster objects are read from the API server, so their lists are arguments. Outside the
  repository are the regular-expression compiler, bcrypt, YAML and the LDAP connection: each is an
  argument.
\<close>

section \<open>Cluster objects\<close>

record PolicyRule =
  pr_Resources :: "string list"
  pr_ResourceNames :: "string list"
  pr_Verbs :: "string list"
  pr_Scopes :: "string list"

record KDexRole =
  role_Name :: string
  role_Rules :: "PolicyRule list"

record KDexRoleBinding =
  rb_Name :: string
  rb_Roles :: "string list"
  rb_Subject :: string
  rb_SubjectKinds :: "string list option"

section \<open>Compiling roles\<close>

definition malformedGrantPart :: "string \<Rightarrow> string \<Rightarrow> string \<Rightarrow> string" where
  "malformedGrantPart resource resourceName verb =
     (if Contains resource '':'' then ''resource contains ':'' @ [CHR 0x27]
      else if Contains verb '':'' then ''verb contains ':'' @ [CHR 0x27]
      else if ContainsAny resourceName '':{}'' then ''resourceName contains ':', '{' or '}'' @ [CHR 0x27]
      else [])"

definition part_refusals :: "(string \<Rightarrow> string) \<Rightarrow> string list \<Rightarrow> string list" where
  "part_refusals reason parts =
     concat (map (\<lambda>p. if reason p \<noteq> [] then [reason p @ '': '' @ p] else []) parts)"

definition ruleRefusals :: "PolicyRule \<Rightarrow> string list" where
  "ruleRefusals rule =
     part_refusals (\<lambda>r. malformedGrantPart r [] []) (pr_Resources rule) @
     part_refusals (\<lambda>n. malformedGrantPart [] n []) (pr_ResourceNames rule) @
     part_refusals (\<lambda>v. malformedGrantPart [] [] v) (pr_Verbs rule) @
     part_refusals (\<lambda>sc. if Contains sc '':'' then ''opaque scope contains ':'' @ [CHR 0x27] else []) (pr_Scopes rule)"

definition rule_names :: "PolicyRule \<Rightarrow> string list" where
  "rule_names rule = (if pr_ResourceNames rule = [] then [[]] else pr_ResourceNames rule)"

definition rule_grants :: "PolicyRule \<Rightarrow> string list" where
  "rule_grants rule =
     (if pr_Scopes rule \<noteq> [] then filter (\<lambda>sc. \<not> Contains sc '':'') (pr_Scopes rule)
      else concat (map (\<lambda>r. concat (map (\<lambda>n. concat (map (\<lambda>v.
             if malformedGrantPart r n v \<noteq> [] then [] else [r @ '':'' @ n @ '':'' @ v])
             (pr_Verbs rule))) (rule_names rule))) (pr_Resources rule)))"

definition buildMappingTable :: "KDexRole list \<Rightarrow> string list gomap" where
  "buildMappingTable roles =
     fold (\<lambda>role. AList.update (role_Name role) (concat (map rule_grants (role_Rules role)))) roles []"

record RoleInfo =
  ri_Name :: string
  ri_Rules :: "PolicyRule list"
  ri_Entitlements :: "string list"

definition roleInfos :: "KDexRole list \<Rightarrow> string list gomap \<Rightarrow> RoleInfo list" where
  "roleInfos roles table =
     sort_key ri_Name (map (\<lambda>role. \<lparr>ri_Name = role_Name role, ri_Rules = role_Rules role,
       ri_Entitlements = (case map_of table (role_Name role) of Some es \<Rightarrow> es | None \<Rightarrow> [])\<rparr>) roles)"

section \<open>Compiling bindings\<close>

record compiledBinding =
  cb_name :: string
  cb_roles :: "string list"
  cb_narrowed :: bool
  cb_kinds :: "string list"

definition admits :: "kind_lib \<Rightarrow> compiledBinding \<Rightarrow> string \<Rightarrow> bool" where
  "admits K cb kind \<longleftrightarrow> \<not> cb_narrowed cb \<or> (kind_Known K kind \<and> kind \<in> set (cb_kinds cb))"

text \<open>The lookup interface: \<open>FindInternal\<close> returns whether the subject is present here and its claims.\<close>

record Lookup =
  lk_FindInternal :: "string \<Rightarrow> string \<Rightarrow> goerror + bool \<times> mapclaims option"
  lk_ResolveClaims :: "string \<Rightarrow> goerror + mapclaims"
  lk_Type :: string

type_synonym pattern_binding = "(string \<Rightarrow> bool) \<times> compiledBinding"
type_synonym regexp_compile = "string \<Rightarrow> goerror + (string \<Rightarrow> bool)"

record scopeProvider =
  sp_lookups :: "Lookup list"
  sp_roles :: "RoleInfo list"
  sp_rolesMap :: "string list gomap"
  sp_exactBindings :: "compiledBinding list gomap"
  sp_patternBindings :: "pattern_binding list"

definition compile_binding :: "KDexRoleBinding \<Rightarrow> compiledBinding" where
  "compile_binding b =
     \<lparr>cb_name = rb_Name b, cb_roles = rb_Roles b, cb_narrowed = (rb_SubjectKinds b \<noteq> None),
      cb_kinds = (case rb_SubjectKinds b of None \<Rightarrow> [] | Some ks \<Rightarrow> ks)\<rparr>"

definition is_regex_subject :: "string \<Rightarrow> bool" where
  "is_regex_subject sub \<longleftrightarrow> HasPrefix sub ''/'' \<and> HasSuffix sub ''/'' \<and> length sub > 2"

text \<open>\<open>sub[1 : len(sub)-1]\<close>.\<close>

definition regex_source :: "string \<Rightarrow> string" where
  "regex_source sub = take (length sub - 2) (drop 1 sub)"

definition add_binding ::
  "regexp_compile \<Rightarrow> KDexRoleBinding \<Rightarrow> compiledBinding list gomap \<times> pattern_binding list \<Rightarrow>
   compiledBinding list gomap \<times> pattern_binding list" where
  "add_binding rx b st =
     (let (exact, patterns) = st; cb = compile_binding b; sub = rb_Subject b
      in if sub = ''*'' then (exact, patterns @ [(\<lambda>_. True, cb)])
         else if is_regex_subject sub
         then (case rx (regex_source sub) of
                 Inl _ \<Rightarrow> (exact, patterns)
               | Inr re \<Rightarrow> (exact, patterns @ [(re, cb)]))
         else (AList.update sub ((case map_of exact sub of Some cbs \<Rightarrow> cbs | None \<Rightarrow> []) @ [cb]) exact, patterns))"

definition NewRoleProvider ::
  "regexp_compile \<Rightarrow> goerror + KDexRole list \<Rightarrow> goerror + KDexRoleBinding list \<Rightarrow> Lookup list \<Rightarrow>
   goerror + scopeProvider" where
  "NewRoleProvider rx roleList bindingList lookups =
     (case roleList of
        Inl e \<Rightarrow> Inl e
      | Inr roles \<Rightarrow>
          (let table = buildMappingTable roles
           in case bindingList of
                Inl e \<Rightarrow> Inl e
              | Inr bindings \<Rightarrow>
                  (let (exact, patterns) = fold (add_binding rx) bindings ([], [])
                   in Inr \<lparr>sp_lookups = lookups, sp_roles = roleInfos roles table, sp_rolesMap = table,
                           sp_exactBindings = exact, sp_patternBindings = patterns\<rparr>)))"

section \<open>Resolving roles\<close>

record BindingNames =
  bn_Contributed :: "string list"
  bn_SkippedForKind :: "string list"

type_synonym resolve_state = "string list \<times> BindingNames option"

definition match_binding :: "kind_lib \<Rightarrow> string \<Rightarrow> compiledBinding \<Rightarrow> resolve_state \<Rightarrow> resolve_state" where
  "match_binding K kind cb st =
     (let (roles, names) = st
      in if \<not> admits K cb kind
         then (roles, map_option (\<lambda>n. n\<lparr>bn_SkippedForKind := bn_SkippedForKind n @ [cb_name cb]\<rparr>) names)
         else (roles @ cb_roles cb,
               map_option (\<lambda>n. n\<lparr>bn_Contributed := bn_Contributed n @ [cb_name cb]\<rparr>) names))"

definition match_pattern :: "kind_lib \<Rightarrow> BindingSubject \<Rightarrow> pattern_binding \<Rightarrow> resolve_state \<Rightarrow> resolve_state" where
  "match_pattern K bs pb st =
     (if snd st = None \<and> \<not> admits K (snd pb) (bs_Kind bs) then st
      else if fst pb (bs_Key bs) then match_binding K (bs_Kind bs) (snd pb) st
      else st)"

definition resolveRoles :: "kind_lib \<Rightarrow> scopeProvider \<Rightarrow> BindingSubject \<Rightarrow> BindingNames option \<Rightarrow> resolve_state" where
  "resolveRoles K rp bs names =
     (let exact = (case map_of (sp_exactBindings rp) (bs_Key bs) of Some cbs \<Rightarrow> cbs | None \<Rightarrow> [])
      in fold (match_pattern K bs) (sp_patternBindings rp)
           (fold (match_binding K (bs_Kind bs)) exact ([], names)))"

definition collectEntitlements :: "scopeProvider \<Rightarrow> string list \<Rightarrow> string list" where
  "collectEntitlements rp roles =
     concat (map (\<lambda>r. case map_of (sp_rolesMap rp) r of Some es \<Rightarrow> es | None \<Rightarrow> []) roles)"

definition FindInternalRolesAndEntitlements ::
  "kind_lib \<Rightarrow> scopeProvider \<Rightarrow> BindingSubject \<Rightarrow> BindingNames option \<Rightarrow>
   (goerror + string list \<times> string list) \<times> BindingNames option" where
  "FindInternalRolesAndEntitlements K rp bs names =
     (let (roles, names') = resolveRoles K rp bs names
      in (Inr (roles, collectEntitlements rp roles), names'))"

text \<open>\<open>resolveBindings\<close>: with the site's log level enabled the binding names are collected.\<close>

definition resolveBindings ::
  "kind_lib \<Rightarrow> (nat \<Rightarrow> bool) \<Rightarrow> scopeProvider \<Rightarrow> BindingSubject \<Rightarrow> goerror + string list \<times> string list" where
  "resolveBindings K enabled rp bs =
     (if \<not> enabled (bindingLogLevel (bs_Site bs))
      then fst (FindInternalRolesAndEntitlements K rp bs None)
      else fst (FindInternalRolesAndEntitlements K rp bs
                  (Some \<lparr>bn_Contributed = [], bn_SkippedForKind = []\<rparr>)))"

section \<open>The lookup chain\<close>

fun find_identity :: "Lookup list \<Rightarrow> string \<Rightarrow> string \<Rightarrow> goerror + (mapclaims option \<times> string)" where
  "find_identity [] subject password = Inr (None, [])"
| "find_identity (l # ls) subject password =
     (case lk_FindInternal l subject password of
        Inl e \<Rightarrow>
          if errors_Is e ErrLookupUnavailable
          then Inl (wrapf (ErrServerError # err_is e)
                 (''credential lookup '' @ lk_Type l @ '' unavailable: '' @ err_msg e))
          else Inl e
      | Inr (ok, identity) \<Rightarrow> if ok then Inr (identity, lk_Type l) else find_identity ls subject password)"

definition FindInternalWithSource ::
  "kind_lib \<Rightarrow> (nat \<Rightarrow> bool) \<Rightarrow> scopeProvider \<Rightarrow> string \<Rightarrow> string \<Rightarrow> goerror + mapclaims \<times> string" where
  "FindInternalWithSource K enabled rp subject password =
     (case find_identity (sp_lookups rp) subject password of
        Inl e \<Rightarrow> Inl e
      | Inr (None, _) \<Rightarrow> Inl (errorf (''invalid credentials '' @ subject))
      | Inr (Some identity, source) \<Rightarrow>
          (let sub = claim_string identity ''sub'';
               subjectForRoles = (if sub \<noteq> [] then sub else subject)
           in case resolveBindings K enabled rp
                     \<lparr>bs_Key = subjectForRoles, bs_Kind = SubjectKindUser K, bs_Site = SiteLocalLogin\<rparr> of
                Inl e \<Rightarrow> Inl (wrapf (ErrServerError # err_is e) (''failed to resolve scopes: '' @ err_msg e))
              | Inr (roles, entitlements) \<Rightarrow>
                  Inr (AList.update ''entitlements'' (VStrs entitlements)
                         (AList.update ''roles'' (VStrs roles) identity), source)))"

text \<open>First writer wins per key.\<close>

fun merge_missing :: "mapclaims \<Rightarrow> mapclaims \<Rightarrow> mapclaims" where
  "merge_missing merged [] = merged"
| "merge_missing merged ((k, v) # claims) =
     merge_missing (if map_of merged k = None then AList.update k v merged else merged) claims"

fun resolve_claims :: "mapclaims \<Rightarrow> Lookup list \<Rightarrow> string \<Rightarrow> mapclaims" where
  "resolve_claims merged [] subject = merged"
| "resolve_claims merged (l # ls) subject =
     (case lk_ResolveClaims l subject of
        Inl _ \<Rightarrow> resolve_claims merged ls subject
      | Inr claims \<Rightarrow> resolve_claims (merge_missing merged claims) ls subject)"

definition ResolveClaims :: "scopeProvider \<Rightarrow> string \<Rightarrow> mapclaims" where
  "ResolveClaims rp subject = (if subject = [] then [] else resolve_claims [] (sp_lookups rp) subject)"

fun resolve_claims_strict :: "mapclaims \<Rightarrow> Lookup list \<Rightarrow> string \<Rightarrow> goerror + mapclaims" where
  "resolve_claims_strict merged [] subject = Inr merged"
| "resolve_claims_strict merged (l # ls) subject =
     (case lk_ResolveClaims l subject of
        Inl e \<Rightarrow> Inl (wrapf (err_is e) (''resolve backend claims: '' @ err_msg e))
      | Inr claims \<Rightarrow> resolve_claims_strict (merge_missing merged claims) ls subject)"

definition ResolveClaimsWithError :: "scopeProvider \<Rightarrow> string \<Rightarrow> goerror + mapclaims" where
  "ResolveClaimsWithError rp subject =
     (if subject = [] then Inr [] else resolve_claims_strict [] (sp_lookups rp) subject)"

section \<open>The subject Secrets\<close>

type_synonym secret_data = "string gomap"

record secret_env =
  bcrypt_Compare :: "string \<Rightarrow> string \<Rightarrow> bool"
  yaml_Unmarshal :: "string \<Rightarrow> goany option"

definition looksLikeBcrypt :: "string \<Rightarrow> bool" where
  "looksLikeBcrypt b \<longleftrightarrow>
     (case b of c0 # c1 # c2 # c3 # _ \<Rightarrow>
        c0 = CHR ''$'' \<and> c1 = CHR ''2'' \<and> c3 = CHR ''$'' \<and> c2 \<in> set ''abxy''
      | _ \<Rightarrow> False)"

definition password_matches :: "secret_env \<Rightarrow> string \<Rightarrow> string \<Rightarrow> bool" where
  "password_matches E stored password =
     (if looksLikeBcrypt stored then bcrypt_Compare E stored password else stored = password)"

definition secret_claims :: "secret_env \<Rightarrow> secret_data \<Rightarrow> mapclaims" where
  "secret_claims E data =
     map (\<lambda>(k, bts). (k, case yaml_Unmarshal E bts of None \<Rightarrow> VStr bts | Some v \<Rightarrow> v))
       (filter (\<lambda>(k, bts). k \<noteq> ''password'') data)"

fun secret_FindInternal ::
  "secret_env \<Rightarrow> secret_data list \<Rightarrow> string \<Rightarrow> string \<Rightarrow> goerror + bool \<times> mapclaims option" where
  "secret_FindInternal E [] subject password = Inr (False, None)"
| "secret_FindInternal E (data # secrets) subject password =
     (if map_of data ''sub'' = Some subject \<or> map_of data ''email'' = Some subject
      then (case map_of data ''password'' of
              Some stored \<Rightarrow>
                if password_matches E stored password then Inr (True, Some (secret_claims E data))
                else Inl (errorf (''invalid password for subject/email '' @ subject))
            | None \<Rightarrow> Inl (errorf (''invalid password for subject/email '' @ subject)))
      else secret_FindInternal E secrets subject password)"

definition LookupTypeSecret :: string where "LookupTypeSecret = ''secret''"

definition NewSecretLookup :: "secret_env \<Rightarrow> (secret_data \<times> string gomap) list \<Rightarrow> Lookup" where
  "NewSecretLookup E secrets =
     (let subjects = map fst (filter (\<lambda>(data, ann). map_of ann ''kdex.dev/secret-type'' = Some ''subject'') secrets)
      in \<lparr>lk_FindInternal = secret_FindInternal E subjects, lk_ResolveClaims = (\<lambda>_. Inr []),
          lk_Type = LookupTypeSecret\<rparr>)"

section \<open>LDAP\<close>

record ldapLookup =
  ll_activeDirectory :: bool
  ll_addr :: string
  ll_attributeMappings :: "string gomap"
  ll_attributeNames :: "string list"
  ll_baseDN :: string
  ll_bindUser :: string
  ll_bindPass :: string
  ll_userFilter :: string

definition secret_get :: "secret_data \<Rightarrow> string \<Rightarrow> string" where
  "secret_get d k = (case map_of d k of Some v \<Rightarrow> v | None \<Rightarrow> [])"

definition openldap_attributes :: "string gomap" where
  "openldap_attributes =
     [(''dn'', ''sub''), (''uid'', ''preferred_username''), (''cn'', ''name''), (''givenName'', ''given_name''),
      (''sn'', ''surname''), (''mail'', ''email''), (''email_verified'', ''email_verified''), (''memberOf'', ''roles'')]"

definition ad_attributes :: "string gomap" where
  "ad_attributes =
     [(''objectGUID'', ''sub''), (''sAMAccountName'', ''preferred_username''), (''displayName'', ''name''),
      (''givenName'', ''given_name''), (''sn'', ''surname''), (''mail'', ''email''),
      (''emailVerified'', ''email_verified''), (''memberOf'', ''roles'')]"

definition extra_attribute :: "string \<Rightarrow> string gomap \<Rightarrow> string gomap" where
  "extra_attribute attr m =
     (let trimmed = TrimSpace attr
      in if map_of m trimmed \<noteq> None then m else AList.update trimmed trimmed m)"

definition NewLDAPLookup :: "secret_data \<Rightarrow> ldapLookup" where
  "NewLDAPLookup d =
     (let defaults = (if secret_get d ''active-directory'' = ''true'' then ad_attributes else openldap_attributes);
          attributes = (case map_of d ''attributes'' of
                          None \<Rightarrow> defaults
                        | Some extra \<Rightarrow> fold extra_attribute (Split extra CHR '','') defaults)
      in \<lparr>ll_activeDirectory = False, ll_addr = secret_get d ''addr'', ll_attributeMappings = attributes,
          ll_attributeNames = map fst attributes, ll_baseDN = secret_get d ''base-dn'',
          ll_bindUser = secret_get d ''bind-user'', ll_bindPass = secret_get d ''bind-pass'',
          ll_userFilter = secret_get d ''user-filter''\<rparr>)"

record ldap_entry =
  le_DN :: string
  le_Attributes :: "(string \<times> string list) list"

text \<open>The directory: dialling, binding, searching below a base with a filter, and the escaping of a
  filter value.\<close>

record ldap_server =
  ld_Dial :: "string \<Rightarrow> goerror option"
  ld_Bind :: "string \<Rightarrow> string \<Rightarrow> goerror option"
  ld_Search :: "string \<Rightarrow> string \<Rightarrow> string list \<Rightarrow> goerror + ldap_entry list"
  ld_EscapeFilter :: "string \<Rightarrow> string"

text \<open>\<open>fmt.Sprintf\<close> of a filter with its one \<open>%s\<close> verb.\<close>

fun Sprintf_s :: "string \<Rightarrow> string \<Rightarrow> string" where
  "Sprintf_s [] arg = []"
| "Sprintf_s (c # s) arg =
     (if HasPrefix (c # s) ''%s'' then arg @ drop 1 s else c # Sprintf_s s arg)"

definition hex_digit :: "nat \<Rightarrow> char" where
  "hex_digit d = (if d < 10 then char_of (48 + d) else char_of (87 + d))"

text \<open>\<open>%02x\<close> of a byte.\<close>

definition hex2 :: "char \<Rightarrow> string" where
  "hex2 c = [hex_digit ((of_char c :: nat) div 16), hex_digit ((of_char c :: nat) mod 16)]"

definition FormatADGUID :: "string \<Rightarrow> goerror + string" where
  "FormatADGUID b =
     (if length b \<noteq> 16 then Inl (errorf (''invalid GUID length: '' @ FormatInt (int (length b))))
      else Inr (concat (map hex2 [b ! 3, b ! 2, b ! 1, b ! 0]) @ ''-'' @ concat (map hex2 [b ! 5, b ! 4]) @ ''-'' @
                concat (map hex2 [b ! 7, b ! 6]) @ ''-'' @ concat (map hex2 [b ! 8, b ! 9]) @ ''-'' @
                concat (map hex2 (drop 10 b))))"

definition ldap_claim :: "ldapLookup \<Rightarrow> ldap_entry \<Rightarrow> string \<times> string list \<Rightarrow> mapclaims \<Rightarrow> mapclaims" where
  "ldap_claim ll entry attr current =
     (case map_of (ll_attributeMappings ll) (fst attr) of
        None \<Rightarrow> current
      | Some claimName \<Rightarrow>
          if ll_activeDirectory ll \<and> fst attr = ''objectGUID''
          then (case map_of (le_Attributes entry) ''objectGUID'' of
                  Some (raw # _) \<Rightarrow>
                    AList.update claimName (VStr (case FormatADGUID raw of Inr g \<Rightarrow> g | Inl _ \<Rightarrow> [])) current
                | _ \<Rightarrow> current)
          else (case snd attr of
                  [] \<Rightarrow> current
                | [v] \<Rightarrow> AList.update claimName (VStr v) current
                | vs \<Rightarrow> AList.update claimName (VStrs vs) current))"

definition ldap_FindInternal ::
  "ldap_server \<Rightarrow> ldapLookup \<Rightarrow> string \<Rightarrow> string \<Rightarrow> goerror + bool \<times> mapclaims option" where
  "ldap_FindInternal D ll subject password =
     (case ld_Dial D (ll_addr ll) of
        Some e \<Rightarrow> Inl (wrapf [ErrLookupUnavailable] (''ldapLookup: connection error: '' @ err_msg e))
      | None \<Rightarrow>
          (case ld_Bind D (ll_bindUser ll) (ll_bindPass ll) of
             Some e \<Rightarrow> Inl (wrapf [ErrLookupUnavailable] (''ldapLookup: service bind failed: '' @ err_msg e))
           | None \<Rightarrow>
               (case ld_Search D (ll_baseDN ll) (Sprintf_s (ll_userFilter ll) (ld_EscapeFilter D subject)) (ll_attributeNames ll) of
                  Inl e \<Rightarrow> Inl (wrapf [ErrLookupUnavailable]
                                 (''ldapLookup: search for subject '' @ subject @ '': '' @ err_msg e))
                | Inr [entry] \<Rightarrow>
                    (case ld_Bind D (le_DN entry) password of
                       Some _ \<Rightarrow> Inl (errorf (''invalid password for subject '' @ subject))
                     | None \<Rightarrow> Inr (True, Some (fold (ldap_claim ll entry) (le_Attributes entry) [])))
                | Inr _ \<Rightarrow> Inr (False, None))))"

definition ldap_Lookup :: "ldap_server \<Rightarrow> ldapLookup \<Rightarrow> Lookup" where
  "ldap_Lookup D ll =
     \<lparr>lk_FindInternal = ldap_FindInternal D ll, lk_ResolveClaims = (\<lambda>_. Inr []), lk_Type = ''ldap''\<rparr>"

section \<open>Lemmas\<close>

lemma malformed_Nil:
  "malformedGrantPart r n v = [] \<longleftrightarrow> CHR '':'' \<notin> set r \<and> CHR '':'' \<notin> set v \<and> \<not> ContainsAny n '':{}''"
  by (simp add: malformedGrantPart_def Contains_single)

lemma ContainsAny_colon: "\<not> ContainsAny n '':{}'' \<Longrightarrow> CHR '':'' \<notin> set n"
  by (auto simp: ContainsAny_def list_ex_iff)

lemma rule_grants_shape:
  assumes "g \<in> set (rule_grants rule)"
  shows "(g \<in> set (pr_Scopes rule) \<and> CHR '':'' \<notin> set g) \<or>
    (\<exists>r \<in> set (pr_Resources rule). \<exists>n \<in> set (rule_names rule). \<exists>v \<in> set (pr_Verbs rule).
       pr_Scopes rule = [] \<and> Split g CHR '':'' = [r, n, v])"
proof (cases "pr_Scopes rule = []")
  case False
  with assms show ?thesis by (auto simp: rule_grants_def Contains_single)
next
  case True
  with assms obtain r n v where "r \<in> set (pr_Resources rule)" "n \<in> set (rule_names rule)" "v \<in> set (pr_Verbs rule)"
    and m: "malformedGrantPart r n v = []" and g: "g = r @ '':'' @ n @ '':'' @ v"
    by (auto simp: rule_grants_def split: if_splits)
  moreover have "Split g CHR '':'' = [r, n, v]"
    using m ContainsAny_colon [of n] by (simp add: g malformed_Nil Split_append Split_none)
  ultimately show ?thesis using True by blast
qed

lemma map_of_buildMappingTable:
  assumes "map_of (buildMappingTable roles) name = Some gs"
  shows "\<exists>role \<in> set roles. role_Name role = name \<and> gs = concat (map rule_grants (role_Rules role))"
  using assms
proof (induction roles rule: rev_induct)
  case (snoc role roles)
  then show ?case by (auto simp: buildMappingTable_def split: if_splits)
qed (simp add: buildMappingTable_def)

definition subject_matches :: "regexp_compile \<Rightarrow> KDexRoleBinding \<Rightarrow> string \<Rightarrow> bool" where
  "subject_matches rx b key =
     (if rb_Subject b = ''*'' then True
      else if is_regex_subject (rb_Subject b)
      then (case rx (regex_source (rb_Subject b)) of Inl _ \<Rightarrow> False | Inr re \<Rightarrow> re key)
      else rb_Subject b = key)"

definition kind_admitted :: "kind_lib \<Rightarrow> KDexRoleBinding \<Rightarrow> string \<Rightarrow> bool" where
  "kind_admitted K b kind =
     (case rb_SubjectKinds b of None \<Rightarrow> True | Some ks \<Rightarrow> kind_Known K kind \<and> kind \<in> set ks)"

lemma admits_compile [simp]: "admits K (compile_binding b) kind = kind_admitted K b kind"
  by (auto simp: admits_def compile_binding_def kind_admitted_def split: option.splits)

lemma cb_roles_compile [simp]: "cb_roles (compile_binding b) = rb_Roles b"
  by (simp add: compile_binding_def)

lemma fst_match_binding:
  "fst (match_binding K kind cb st) = fst st @ (if admits K cb kind then cb_roles cb else [])"
  by (cases st) (simp add: match_binding_def)

lemma fst_match_pattern:
  "fst (match_pattern K bs pb st) =
     fst st @ (if fst pb (bs_Key bs) \<and> admits K (snd pb) (bs_Kind bs) then cb_roles (snd pb) else [])"
  by (simp add: match_pattern_def fst_match_binding)

lemma set_fold_append:
  assumes "\<And>x st. fst (f x st) = fst st @ g x"
  shows "set (fst (fold f xs st)) = set (fst st) \<union> (\<Union>x \<in> set xs. set (g x))"
  by (induction xs arbitrary: st) (auto simp: assms)

text \<open>What the compiled bindings hold: the exact lists by subject, and the patterns.\<close>

definition exact_at :: "compiledBinding list gomap \<Rightarrow> string \<Rightarrow> compiledBinding set" where
  "exact_at exact k = (case map_of exact k of Some cbs \<Rightarrow> set cbs | None \<Rightarrow> {})"

definition pattern_of :: "regexp_compile \<Rightarrow> KDexRoleBinding \<Rightarrow> (string \<Rightarrow> bool) option" where
  "pattern_of rx b =
     (if rb_Subject b = ''*'' then Some (\<lambda>_. True)
      else if is_regex_subject (rb_Subject b)
      then (case rx (regex_source (rb_Subject b)) of Inl _ \<Rightarrow> None | Inr re \<Rightarrow> Some re)
      else None)"

definition is_exact :: "KDexRoleBinding \<Rightarrow> bool" where
  "is_exact b \<longleftrightarrow> rb_Subject b \<noteq> ''*'' \<and> \<not> is_regex_subject (rb_Subject b)"

lemma add_binding_sets:
  "exact_at (fst (add_binding rx b st)) k =
     exact_at (fst st) k \<union> (if is_exact b \<and> rb_Subject b = k then {compile_binding b} else {})"
  "set (snd (add_binding rx b st)) =
     set (snd st) \<union> (case pattern_of rx b of Some re \<Rightarrow> {(re, compile_binding b)} | None \<Rightarrow> {})"
  by (cases st; auto simp: add_binding_def exact_at_def is_exact_def pattern_of_def Let_def
      split: option.splits sum.splits)+

lemma fold_add_binding:
  "exact_at (fst (fold (add_binding rx) bs st)) k =
     exact_at (fst st) k \<union> {compile_binding b | b. b \<in> set bs \<and> is_exact b \<and> rb_Subject b = k} \<and>
   set (snd (fold (add_binding rx) bs st)) =
     set (snd st) \<union> {(re, compile_binding b) | re b. b \<in> set bs \<and> pattern_of rx b = Some re}"
proof (induction bs arbitrary: st)
  case (Cons b bs)
  show ?case
    unfolding fold_simps comp_apply Cons [of "add_binding rx b st", THEN conjunct1]
      Cons [of "add_binding rx b st", THEN conjunct2]
    by (auto simp: add_binding_sets split: option.splits if_splits)
qed simp

lemma subject_matches_iff:
  "subject_matches rx b key \<longleftrightarrow>
     (is_exact b \<and> rb_Subject b = key) \<or> (\<exists>re. pattern_of rx b = Some re \<and> re key)"
  by (auto simp: subject_matches_def is_exact_def pattern_of_def split: sum.splits)

definition bound_roles ::
  "kind_lib \<Rightarrow> regexp_compile \<Rightarrow> KDexRoleBinding list \<Rightarrow> BindingSubject \<Rightarrow> string set" where
  "bound_roles K rx bindings bs =
     {r. \<exists>b \<in> set bindings. subject_matches rx b (bs_Key bs) \<and> kind_admitted K b (bs_Kind bs) \<and> r \<in> set (rb_Roles b)}"

lemma in_resolveRoles:
  "r \<in> set (fst (resolveRoles K rp bs names)) \<longleftrightarrow>
     (\<exists>cb \<in> exact_at (sp_exactBindings rp) (bs_Key bs). admits K cb (bs_Kind bs) \<and> r \<in> set (cb_roles cb)) \<or>
     (\<exists>pb \<in> set (sp_patternBindings rp).
        fst pb (bs_Key bs) \<and> admits K (snd pb) (bs_Kind bs) \<and> r \<in> set (cb_roles (snd pb)))"
  unfolding resolveRoles_def Let_def
    set_fold_append [where f = "match_pattern K bs", OF fst_match_pattern]
    set_fold_append [where f = "match_binding K (bs_Kind bs)", OF fst_match_binding]
  by (auto simp: exact_at_def split: option.split if_splits)

lemma NewRoleProvider_ok:
  "NewRoleProvider rx (Inr roles) (Inr bindings) lookups =
     Inr \<lparr>sp_lookups = lookups, sp_roles = roleInfos roles (buildMappingTable roles),
          sp_rolesMap = buildMappingTable roles,
          sp_exactBindings = fst (fold (add_binding rx) bindings ([], [])),
          sp_patternBindings = snd (fold (add_binding rx) bindings ([], []))\<rparr>"
  by (simp add: NewRoleProvider_def Let_def split_beta)

lemma resolveRoles_bound:
  assumes "NewRoleProvider rx (Inr roles) (Inr bindings) lookups = Inr rp"
  shows "set (fst (resolveRoles K rp bs names)) = bound_roles K rx bindings bs"
proof -
  from assms have rp: "sp_exactBindings rp = fst (fold (add_binding rx) bindings ([], []))"
    "sp_patternBindings rp = snd (fold (add_binding rx) bindings ([], []))"
    unfolding NewRoleProvider_ok sum.inject by (metis scopeProvider.select_convs(4), metis scopeProvider.select_convs(5))
  have e: "exact_at (sp_exactBindings rp) k = {compile_binding b | b. b \<in> set bindings \<and> is_exact b \<and> rb_Subject b = k}" for k
    unfolding rp fold_add_binding [THEN conjunct1] by (simp add: exact_at_def)
  have p: "set (sp_patternBindings rp) = {(re, compile_binding b) | re b. b \<in> set bindings \<and> pattern_of rx b = Some re}"
    unfolding rp fold_add_binding [THEN conjunct2] by simp
  have ex: "(\<exists>cb \<in> exact_at (sp_exactBindings rp) k. admits K cb kd \<and> r \<in> set (cb_roles cb)) \<longleftrightarrow>
      (\<exists>b \<in> set bindings. is_exact b \<and> rb_Subject b = k \<and> kind_admitted K b kd \<and> r \<in> set (rb_Roles b))" for k kd r
    unfolding e by force
  have pat: "(\<exists>pb \<in> set (sp_patternBindings rp). fst pb k \<and> admits K (snd pb) kd \<and> r \<in> set (cb_roles (snd pb))) \<longleftrightarrow>
      (\<exists>b \<in> set bindings. (\<exists>re. pattern_of rx b = Some re \<and> re k) \<and> kind_admitted K b kd \<and> r \<in> set (rb_Roles b))" (is "?L \<longleftrightarrow> ?R") for k kd r
  proof
    assume ?L
    then obtain pb where pb: "pb \<in> set (sp_patternBindings rp)" "fst pb k" "admits K (snd pb) kd" "r \<in> set (cb_roles (snd pb))"
      by blast
    from pb(1) obtain re b where "pb = (re, compile_binding b)" "b \<in> set bindings" "pattern_of rx b = Some re"
      unfolding p mem_Collect_eq by blast
    with pb show ?R by (intro bexI [of _ b]) auto
  next
    assume ?R
    then obtain b re where b: "b \<in> set bindings" "pattern_of rx b = Some re" "re k" "kind_admitted K b kd" "r \<in> set (rb_Roles b)"
      by blast
    then have "(re, compile_binding b) \<in> set (sp_patternBindings rp)" unfolding p mem_Collect_eq by blast
    then show ?L by (rule rev_bexI) (use b in simp)
  qed
  have "r \<in> set (fst (resolveRoles K rp bs names)) \<longleftrightarrow> r \<in> bound_roles K rx bindings bs" for r
    unfolding in_resolveRoles ex pat bound_roles_def subject_matches_iff mem_Collect_eq
    by (simp only: conj_disj_distribR bex_disj_distrib conj_assoc)
  then show ?thesis by blast
qed

text \<open>The names collector changes what is recorded, never the roles.\<close>

lemma fst_fold_cong:
  assumes "\<And>x st st'. fst st = fst st' \<Longrightarrow> fst (f x st) = fst (f x st')" and "fst st = fst st'"
  shows "fst (fold f xs st) = fst (fold f xs st')"
  using assms(2)
proof (induction xs arbitrary: st st')
  case (Cons x xs)
  show ?case using Cons.IH [OF assms(1) [OF Cons.prems]] by simp
qed simp

lemma resolveRoles_names: "fst (resolveRoles K rp bs names) = fst (resolveRoles K rp bs names')"
  unfolding resolveRoles_def Let_def
  by (intro fst_fold_cong) (simp_all add: fst_match_binding fst_match_pattern)

lemma resolveBindings_is:
  "resolveBindings K enabled rp bs =
     (let roles = fst (resolveRoles K rp bs None) in Inr (roles, collectEntitlements rp roles))"
  using resolveRoles_names [of K rp bs "Some \<lparr>bn_Contributed = [], bn_SkippedForKind = []\<rparr>" None]
  by (simp add: resolveBindings_def FindInternalRolesAndEntitlements_def Let_def split_beta)

section \<open>Properties\<close>

text \<open>C27: roles are exactly what the bindings grant. For a provider built from the host's roles and
  bindings, a subject resolves to the roles of precisely the bindings whose subject matches its key
  (exactly, by \<open>*\<close>, or by a regular expression that compiles) and which admit its kind: a narrowed
  binding admits only a known kind it lists. The entitlements are those the roles compile to, and
  neither depends on the verbosity of the log.\<close>

theorem role_resolution_exact:
  assumes "NewRoleProvider rx (Inr roles) (Inr bindings) lookups = Inr rp"
  shows "\<exists>rs es. (\<forall>enabled. resolveBindings K enabled rp bs = Inr (rs, es)) \<and>
    set rs = bound_roles K rx bindings bs \<and>
    set es = (\<Union>r \<in> set rs. case map_of (buildMappingTable roles) r of Some gs \<Rightarrow> set gs | None \<Rightarrow> {})"
proof -
  have "sp_rolesMap rp = buildMappingTable roles"
    using assms unfolding NewRoleProvider_ok sum.inject by (metis scopeProvider.select_convs(3))
  moreover have "set (case m of Some es \<Rightarrow> es | None \<Rightarrow> []) = (case m of Some gs \<Rightarrow> set gs | None \<Rightarrow> {})"
    for m :: "string list option" by (cases m) auto
  ultimately show ?thesis
    using resolveRoles_bound [OF assms, of K bs None]
    by (simp add: resolveBindings_is Let_def collectEntitlements_def)
qed

definition demo_roles :: "KDexRole list" where
  "demo_roles = [\<lparr>role_Name = ''editor'', role_Rules = [\<lparr>pr_Resources = [''pages''], pr_ResourceNames = [''home'', ''a:b''],
     pr_Verbs = [''read''], pr_Scopes = []\<rparr>]\<rparr>]"

definition demo_bindings :: "KDexRoleBinding list" where
  "demo_bindings = [\<lparr>rb_Name = ''all'', rb_Roles = [''editor''], rb_Subject = ''*'', rb_SubjectKinds = Some [''User'']\<rparr>]"

definition demo_provider :: "goerror + scopeProvider" where
  "demo_provider = NewRoleProvider (\<lambda>s. Inl (errorf ''bad pattern'')) (Inr demo_roles) (Inr demo_bindings) []"

theorem role_resolution_exact_witness:
  "\<exists>rp. demo_provider = Inr rp \<and>
     (\<exists>rs es. (\<forall>enabled. resolveBindings demo_kinds enabled rp \<lparr>bs_Key = ''alice'', bs_Kind = ''User'', bs_Site = SiteRefresh\<rparr>
        = Inr (rs, es)) \<and> ''editor'' \<in> set rs)"
proof -
  obtain rp where rp: "NewRoleProvider (\<lambda>s. Inl (errorf ''bad pattern'')) (Inr demo_roles) (Inr demo_bindings) [] = Inr rp"
    by (auto simp: NewRoleProvider_def Let_def split_beta)
  have "''editor'' \<in> bound_roles demo_kinds (\<lambda>s. Inl (errorf ''bad pattern'')) demo_bindings
      \<lparr>bs_Key = ''alice'', bs_Kind = ''User'', bs_Site = SiteRefresh\<rparr>"
    by (simp add: bound_roles_def demo_bindings_def subject_matches_def kind_admitted_def demo_kinds_def)
  with role_resolution_exact [OF rp, of demo_kinds "\<lparr>bs_Key = ''alice'', bs_Kind = ''User'', bs_Site = SiteRefresh\<rparr>"]
  show ?thesis unfolding demo_provider_def using rp by metis
qed

text \<open>Compiled grants mean what they say. Every entitlement in the compiled table comes from a rule
  of a role of that name: it is one of the rule's opaque scopes and has no colon, or the rule has no
  scopes and splitting the grant at its colons gives back exactly one of the rule's resources, one of
  its resource names (the empty one when it lists none) and one of its verbs.\<close>

theorem compiled_grants_faithful:
  assumes "map_of (buildMappingTable roles) name = Some gs" and "g \<in> set gs"
  shows "\<exists>role \<in> set roles. role_Name role = name \<and> (\<exists>rule \<in> set (role_Rules role).
    (g \<in> set (pr_Scopes rule) \<and> CHR '':'' \<notin> set g) \<or>
    (\<exists>r \<in> set (pr_Resources rule). \<exists>n \<in> set (rule_names rule). \<exists>v \<in> set (pr_Verbs rule).
       pr_Scopes rule = [] \<and> Split g CHR '':'' = [r, n, v]))"
proof -
  from map_of_buildMappingTable [OF assms(1)] obtain role where role: "role \<in> set roles" "role_Name role = name"
    "gs = concat (map rule_grants (role_Rules role))" by blast
  with assms(2) obtain rule where "rule \<in> set (role_Rules role)" "g \<in> set (rule_grants rule)" by auto
  with role rule_grants_shape [of g rule] show ?thesis by blast
qed

theorem compiled_grants_faithful_witness:
  "\<exists>role \<in> set demo_roles. role_Name role = ''editor'' \<and> Split ''pages:home:read'' CHR '':'' = [''pages'', ''home'', ''read'']"
proof -
  have t: "map_of (buildMappingTable demo_roles) ''editor'' = Some [''pages:home:read'']" by code_simp
  have "Split ''pages:home:read'' CHR '':'' = [''pages'', ''home'', ''read'']" by code_simp
  with compiled_grants_faithful [OF t, of "''pages:home:read''"] show ?thesis by auto
qed

text \<open>The first lookup that answers is authoritative. If every lookup before \<open>l\<close> reports the
  subject absent, then an error of \<open>l\<close> ends the login (as a server error exactly when the lookup was
  unavailable), whatever later lookups would say, and an identity of \<open>l\<close> is returned with \<open>l\<close>'s type as
  its source and its sub, when it has one, kept.\<close>

theorem lookup_chain_authoritative:
  assumes "sp_lookups rp = pre @ l # post"
    and "\<forall>p \<in> set pre. \<exists>i. lk_FindInternal p subject password = Inr (False, i)"
  shows "(\<forall>e. lk_FindInternal l subject password = Inl e \<longrightarrow>
      (\<exists>e'. FindInternalWithSource K enabled rp subject password = Inl e' \<and>
        (errors_Is e' ErrServerError \<longleftrightarrow> errors_Is e ErrLookupUnavailable \<or> errors_Is e ErrServerError))) \<and>
    (\<forall>c. lk_FindInternal l subject password = Inr (True, Some c) \<longrightarrow>
      (\<exists>c'. FindInternalWithSource K enabled rp subject password = Inr (c', lk_Type l) \<and>
        map_of c' ''sub'' = map_of c ''sub''))"
proof -
  have "find_identity (pre @ l # post) subject password = find_identity (l # post) subject password"
    using assms(2) by (induction pre) auto
  then show ?thesis
    by (auto simp: FindInternalWithSource_def assms(1) resolveBindings_is Let_def errors_Is_def wrapf_def)
qed

definition demo_down_provider :: scopeProvider where
  "demo_down_provider = \<lparr>sp_lookups = [\<lparr>lk_FindInternal = (\<lambda>s p. Inl (wrapf [ErrLookupUnavailable] ''dial'')),
       lk_ResolveClaims = (\<lambda>_. Inr []), lk_Type = ''ldap''\<rparr>],
     sp_roles = [], sp_rolesMap = [], sp_exactBindings = [], sp_patternBindings = []\<rparr>"

theorem lookup_chain_authoritative_witness:
  "\<exists>e'. FindInternalWithSource demo_kinds (\<lambda>_. False) demo_down_provider ''alice'' ''pw'' = Inl e' \<and> errors_Is e' ErrServerError"
  using lookup_chain_authoritative [where rp = demo_down_provider and pre = "[]" and l = "hd (sp_lookups demo_down_provider)"
      and post = "[]" and subject = "''alice''" and password = "''pw''" and K = demo_kinds and enabled = "\<lambda>_. False"]
  by (auto simp: demo_down_provider_def errors_Is_def wrapf_def)

text \<open>A stored hash is never itself the password. A subject Secret vouches for a login only through
  \<open>bcrypt\<close> when its stored password looks like a bcrypt hash and only by equality otherwise, and the
  claims it returns never include the password.\<close>

theorem secret_login_vouched:
  assumes "secret_FindInternal E secrets subject password = Inr (True, claims)"
  shows "\<exists>data \<in> set secrets. \<exists>stored. map_of data ''password'' = Some stored \<and>
    (map_of data ''sub'' = Some subject \<or> map_of data ''email'' = Some subject) \<and>
    (if looksLikeBcrypt stored then bcrypt_Compare E stored password else password = stored) \<and>
    (\<exists>c. claims = Some c \<and> map_of c ''password'' = None)"
  using assms
proof (induction secrets)
  case (Cons d secrets)
  have "map_of (secret_claims E d) ''password'' = None"
    by (auto simp: secret_claims_def map_of_eq_None_iff)
  with Cons show ?case
    by (fastforce simp: password_matches_def split: option.splits if_splits)
qed simp

definition demo_secret :: secret_data where
  "demo_secret = [(''sub'', ''admin''), (''password'', ''$2a$10$hash''), (''email'', ''a@b'')]"

definition demo_secret_env :: secret_env where
  "demo_secret_env = \<lparr>bcrypt_Compare = (\<lambda>h p. p = ''s3cret''), yaml_Unmarshal = (\<lambda>b. Some (VStr b))\<rparr>"

theorem secret_login_vouched_witness:
  "looksLikeBcrypt ''$2a$10$hash'' \<and> bcrypt_Compare demo_secret_env ''$2a$10$hash'' ''s3cret''"
proof -
  have "secret_FindInternal demo_secret_env [demo_secret] ''a@b'' ''s3cret'' =
      Inr (True, Some [(''sub'', VStr ''admin''), (''email'', VStr ''a@b'')])"
    by code_simp
  from secret_login_vouched [OF this]
  have "if looksLikeBcrypt ''$2a$10$hash'' then bcrypt_Compare demo_secret_env ''$2a$10$hash'' ''s3cret''
      else ''s3cret'' = ''$2a$10$hash''"
    by (auto simp: demo_secret_def)
  moreover have "looksLikeBcrypt ''$2a$10$hash''" by code_simp
  ultimately show ?thesis by simp
qed

text \<open>An Active Directory lookup never formats \<open>objectGUID\<close>. Built from a Secret that asks for Active
  Directory, the lookup has the flag unset that enables \<open>FormatADGUID\<close>, so the subject is the raw bytes of
  the attribute.\<close>

theorem ldap_guid_never_formatted:
  "\<not> ll_activeDirectory (NewLDAPLookup d) \<and>
   map_of (ldap_claim (NewLDAPLookup [(''active-directory'', ''true'')]) entry (''objectGUID'', [raw]) []) ''sub'' =
     Some (VStr raw)"
proof -
  have "ll_attributeMappings (NewLDAPLookup [(''active-directory'', ''true'')]) = ad_attributes"
    by code_simp
  then show ?thesis by (simp add: NewLDAPLookup_def Let_def ldap_claim_def ad_attributes_def)
qed

end
