(* ===== verification/EventHooks.thy ===== *)
theory EventHooks
  imports Roles
begin

text \<open>
  Outbound HTTP of the auth package: the login/logout event hooks of
  \<open>src/internal/auth/event_hook.go\<close> and \<open>event_dispatcher.go\<close>, and the credential lookup of
  \<open>lookup_http.go\<close>. Each POSTs a JSON body signed with an HMAC over its timestamp and the body.

  \<open>http_env\<close> is the world outside: the JSON codecs, HMAC-SHA256 in hex, and the exchange of a request
  for a status and body. A dispatch returns what it decided together with the calls it made, in order;
  calls that run in their own goroutine are listed separately.
\<close>

section \<open>Requests\<close>

record http_request =
  rq_url :: string
  rq_headers :: "string gomap"
  rq_body :: string

record http_env =
  he_HMAC :: "string \<Rightarrow> string \<Rightarrow> string"
  he_NewRequest :: "string \<Rightarrow> goerror option"
  he_Do :: "http_request \<Rightarrow> goerror + int \<times> string"

text \<open>\<open>hex(hmac-sha256(secret, timestamp + "." + body))\<close>.\<close>

definition computeSignature :: "http_env \<Rightarrow> string \<Rightarrow> string \<Rightarrow> string \<Rightarrow> string" where
  "computeSignature E secret timestamp body = he_HMAC E secret (timestamp @ ''.'' @ body)"

definition minSharedSecretBytes :: nat where "minSharedSecretBytes = 32"

definition defaultTimeout :: duration where "defaultTimeout = 2 * second"

text \<open>\<open>time.Duration(ms) * time.Millisecond\<close> of a parsed \<open>timeout-ms\<close>.\<close>

definition parse_timeout :: "string \<Rightarrow> string \<Rightarrow> goerror + duration" where
  "parse_timeout what raw =
     (if raw = [] then Inr defaultTimeout
      else case ParseInt raw of
             None \<Rightarrow> Inl (errorf (what @ '' Secret 'timeout-ms' is not a valid integer''))
           | Some ms \<Rightarrow> Inr (wrap64 (ms * millisecond)))"

section \<open>Hooks\<close>

definition EventLogin :: string where "EventLogin = ''login''"
definition EventLogout :: string where "EventLogout = ''logout''"
definition EventLoginFailed :: string where "EventLoginFailed = ''login-failed''"
definition EventSessionRefresh :: string where "EventSessionRefresh = ''session-refresh''"

definition enforceableEvents :: "string list" where
  "enforceableEvents = [EventLogin, EventLogout]"

definition knownEvent :: "string \<Rightarrow> bool" where
  "knownEvent e \<longleftrightarrow> e \<in> set [EventLogin, EventLogout, EventLoginFailed, EventSessionRefresh]"

definition ModeAdvisory :: string where "ModeAdvisory = ''advisory''"
definition ModeEnforcing :: string where "ModeEnforcing = ''enforcing''"
definition FailOpen :: string where "FailOpen = ''fail-open''"
definition FailClosed :: string where "FailClosed = ''fail-closed''"

record EventPayload =
  ep_Event :: string
  ep_Timestamp :: int
  ep_Host :: string
  ep_Subject :: string
  ep_LoginName :: string
  ep_AuthMethod :: string
  ep_ClientID :: string
  ep_Scope :: string
  ep_Claims :: mapclaims
  ep_Roles :: "string list"
  ep_Entitlements :: "string list"
  ep_SessionID :: string
  ep_Reason :: string

definition empty_payload :: "string \<Rightarrow> EventPayload" where
  "empty_payload e =
     \<lparr>ep_Event = e, ep_Timestamp = 0, ep_Host = [], ep_Subject = [], ep_LoginName = [], ep_AuthMethod = [],
      ep_ClientID = [], ep_Scope = [], ep_Claims = [], ep_Roles = [], ep_Entitlements = [], ep_SessionID = [],
      ep_Reason = []\<rparr>"

record httpEventHook =
  h_name :: string
  h_url :: string
  h_sharedSecret :: string
  h_events :: "string list"
  h_mode :: string
  h_failureMode :: string
  h_timeout :: duration

fun parse_events :: "string list \<Rightarrow> string list \<Rightarrow> goerror + string list" where
  "parse_events events [] = Inr events"
| "parse_events events (tok # toks) =
     (let t = TrimSpace tok
      in if t = [] then parse_events events toks
         else if \<not> knownEvent t
         then Inl (errorf (''http-event-hook Secret 'events' has unknown event '' @ t))
         else parse_events (List.insert t events) toks)"

definition parse_mode :: "string \<Rightarrow> goerror + string" where
  "parse_mode raw =
     (if raw = [] then Inr ModeAdvisory
      else if raw = ModeAdvisory \<or> raw = ModeEnforcing then Inr raw
      else Inl (errorf (''http-event-hook Secret 'mode' must be advisory or enforcing (got '' @ raw @ '')'')))"

definition parse_failure_mode :: "string \<Rightarrow> goerror + string" where
  "parse_failure_mode raw =
     (if raw = [] then Inr []
      else if raw = FailOpen \<or> raw = FailClosed then Inr raw
      else Inl (errorf (''http-event-hook Secret 'failure-mode' must be fail-open or fail-closed (got '' @ raw @ '')'')))"

definition NewHTTPEventHook :: "string \<Rightarrow> secret_data \<Rightarrow> goerror + httpEventHook" where
  "NewHTTPEventHook name d =
     (let url = secret_get d ''url''; sharedSecret = secret_get d ''shared-secret'' in
      if url = [] then Inl (errorf ''http-event-hook Secret missing required 'url' data field'')
      else if length sharedSecret < minSharedSecretBytes
      then Inl (errorf (''http-event-hook Secret 'shared-secret' must be at least '' @
             FormatInt (int minSharedSecretBytes) @ '' bytes (got '' @ FormatInt (int (length sharedSecret)) @ '')''))
      else case parse_events [] (Split (secret_get d ''events'') CHR '','') of
             Inl e \<Rightarrow> Inl e
           | Inr events \<Rightarrow>
               if events = [] then Inl (errorf ''http-event-hook Secret 'events' must list at least one event'')
               else case parse_mode (secret_get d ''mode'') of
                      Inl e \<Rightarrow> Inl e
                    | Inr mode \<Rightarrow>
                        (case parse_failure_mode (secret_get d ''failure-mode'') of
                           Inl e \<Rightarrow> Inl e
                         | Inr failureMode \<Rightarrow>
                             (case parse_timeout ''http-event-hook'' (secret_get d ''timeout-ms'') of
                                Inl e \<Rightarrow> Inl e
                              | Inr timeout \<Rightarrow>
                                  Inr \<lparr>h_name = name, h_url = url, h_sharedSecret = sharedSecret, h_events = events,
                                       h_mode = mode, h_failureMode = failureMode, h_timeout = timeout\<rparr>)))"

definition enforcingFor :: "httpEventHook \<Rightarrow> string \<Rightarrow> bool" where
  "enforcingFor h e \<longleftrightarrow> h_mode h = ModeEnforcing \<and> e \<in> set enforceableEvents"

text \<open>The hook's codec: the payload's JSON body, and the decoded response.\<close>

record hook_codec =
  hc_Marshal :: "EventPayload \<Rightarrow> goerror + string"
  hc_Decode :: "string \<Rightarrow> goerror + bool \<times> string"

definition hook_request :: "http_env \<Rightarrow> httpEventHook \<Rightarrow> int \<Rightarrow> string \<Rightarrow> http_request" where
  "hook_request E h timestamp body =
     (let ts = FormatInt timestamp
      in \<lparr>rq_url = h_url h,
          rq_headers = [(''Content-Type'', ''application/json''), (''X-K-CNAS-Event-Timestamp'', ts),
                        (''X-K-CNAS-Event-Signature'', computeSignature E (h_sharedSecret h) ts body)],
          rq_body = body\<rparr>)"

definition stamp :: "int \<Rightarrow> EventPayload \<Rightarrow> EventPayload" where
  "stamp nowMilli p = (if ep_Timestamp p = 0 then p\<lparr>ep_Timestamp := nowMilli\<rparr> else p)"

definition hook_call :: "http_env \<Rightarrow> hook_codec \<Rightarrow> int \<Rightarrow> httpEventHook \<Rightarrow> EventPayload \<Rightarrow> goerror + bool \<times> string" where
  "hook_call E C nowMilli h payload =
     (let p = stamp nowMilli payload in
      case hc_Marshal C p of
        Inl e \<Rightarrow> Inl (errorf (''httpEventHook: marshal: '' @ err_msg e))
      | Inr body \<Rightarrow>
          (case he_NewRequest E (h_url h) of
             Some e \<Rightarrow> Inl (errorf (''httpEventHook: build request: '' @ err_msg e))
           | None \<Rightarrow>
               (case he_Do E (hook_request E h (ep_Timestamp p) body) of
                  Inl e \<Rightarrow> Inl (errorf (''httpEventHook: request: '' @ err_msg e))
                | Inr (status, respBody) \<Rightarrow>
                    if status \<noteq> 200
                    then Inl (errorf (''httpEventHook: server returned status '' @ FormatInt status))
                    else (case hc_Decode C respBody of
                            Inl e \<Rightarrow> Inl (errorf (''httpEventHook: decode response: '' @ err_msg e))
                          | Inr r \<Rightarrow> Inr r))))"

section \<open>The dispatcher\<close>

record EventDispatcher =
  d_host :: string
  d_hooks :: "httpEventHook list"

definition sortHooksByName :: "httpEventHook list \<Rightarrow> httpEventHook list" where
  "sortHooksByName hooks = sort_key h_name hooks"

definition NewEventDispatcher :: "string \<Rightarrow> httpEventHook list \<Rightarrow> EventDispatcher" where
  "NewEventDispatcher host hooks = \<lparr>d_host = host, d_hooks = sortHooksByName hooks\<rparr>"

definition HTTPEventHookSecretType :: string where "HTTPEventHookSecretType = ''http-event-hook''"

fun hooks_from_secrets :: "(string \<times> string gomap \<times> secret_data) list \<Rightarrow> goerror + httpEventHook list" where
  "hooks_from_secrets [] = Inr []"
| "hooks_from_secrets ((name, ann, d) # ss) =
     (if secret_get ann ''kdex.dev/secret-type'' \<noteq> HTTPEventHookSecretType \<or>
         secret_get ann ''kdex.dev/active-key'' \<noteq> ''true''
      then hooks_from_secrets ss
      else case NewHTTPEventHook name d of
             Inl e \<Rightarrow> Inl e
           | Inr h \<Rightarrow> (case hooks_from_secrets ss of Inl e \<Rightarrow> Inl e | Inr hs \<Rightarrow> Inr (h # hs)))"

definition NewEventDispatcherFromSecrets ::
  "string \<Rightarrow> (string \<times> string gomap \<times> secret_data) list \<Rightarrow> goerror + EventDispatcher" where
  "NewEventDispatcherFromSecrets host secrets =
     (case hooks_from_secrets secrets of Inl e \<Rightarrow> Inl e | Inr hooks \<Rightarrow> Inr (NewEventDispatcher host hooks))"

definition selecting :: "EventDispatcher \<Rightarrow> string \<Rightarrow> bool \<Rightarrow> httpEventHook list" where
  "selecting d e enforcing = filter (\<lambda>h. e \<in> set (h_events h) \<and> enforcing = enforcingFor h e) (d_hooks d)"

definition HasEnforcingLogin :: "EventDispatcher option \<Rightarrow> bool" where
  "HasEnforcingLogin d = (case d of None \<Rightarrow> False | Some x \<Rightarrow> selecting x EventLogin True \<noteq> [])"

definition addressed :: "EventDispatcher \<Rightarrow> int \<Rightarrow> EventPayload \<Rightarrow> EventPayload" where
  "addressed d nowMilli p = p\<lparr>ep_Host := d_host d, ep_Timestamp := nowMilli\<rparr>"

type_synonym hook_outcome = "httpEventHook \<Rightarrow> EventPayload \<Rightarrow> goerror + bool \<times> string"

text \<open>The gate loop, over the outcome of each call; the second component lists the calls made.\<close>

fun gate_hooks ::
  "hook_outcome \<Rightarrow> EventPayload \<Rightarrow> httpEventHook list \<Rightarrow> goerror option \<times> (httpEventHook \<times> EventPayload) list" where
  "gate_hooks call p [] = (None, [])"
| "gate_hooks call p (h # hs) =
     (case call h p of
        Inl e \<Rightarrow>
          if h_failureMode h = FailOpen
          then (let (r, cs) = gate_hooks call p hs in (r, (h, p) # cs))
          else (Some (wrapf [ErrLoginHookDenied] ''login denied by event hook: hook unavailable''), [(h, p)])
      | Inr (ok, reason) \<Rightarrow>
          if \<not> ok
          then (Some (wrapf [ErrLoginHookDenied]
                   (''login denied by event hook: '' @ (if reason = [] then ''denied'' else reason))), [(h, p)])
          else (let (r, cs) = gate_hooks call p hs in (r, (h, p) # cs)))"

definition GateLogin ::
  "hook_outcome \<Rightarrow> int \<Rightarrow> EventDispatcher option \<Rightarrow> EventPayload \<Rightarrow>
   goerror option \<times> (httpEventHook \<times> EventPayload) list" where
  "GateLogin call nowMilli d p =
     (case d of
        None \<Rightarrow> (None, [])
      | Some x \<Rightarrow> gate_hooks call (addressed x nowMilli p) (selecting x EventLogin True))"

text \<open>\<open>fireAsync\<close>: one goroutine per hook.\<close>

definition fireAsync :: "EventPayload \<Rightarrow> httpEventHook list \<Rightarrow> (httpEventHook \<times> EventPayload) list" where
  "fireAsync p hooks = map (\<lambda>h. (h, p)) hooks"

definition NotifyLoginSuccess ::
  "int \<Rightarrow> EventDispatcher option \<Rightarrow> EventPayload \<Rightarrow> (httpEventHook \<times> EventPayload) list" where
  "NotifyLoginSuccess nowMilli d p =
     (case d of None \<Rightarrow> [] | Some x \<Rightarrow> fireAsync (addressed x nowMilli p) (selecting x EventLogin False))"

definition NotifyLoginFailed ::
  "int \<Rightarrow> EventDispatcher option \<Rightarrow> EventPayload \<Rightarrow> (httpEventHook \<times> EventPayload) list" where
  "NotifyLoginFailed nowMilli d p =
     (case d of None \<Rightarrow> []
      | Some x \<Rightarrow> fireAsync (addressed x nowMilli p) (filter (\<lambda>h. EventLoginFailed \<in> set (h_events h)) (d_hooks x)))"

definition NotifySessionRefresh ::
  "int \<Rightarrow> EventDispatcher option \<Rightarrow> EventPayload \<Rightarrow> (httpEventHook \<times> EventPayload) list" where
  "NotifySessionRefresh nowMilli d p =
     (case d of None \<Rightarrow> []
      | Some x \<Rightarrow> fireAsync (addressed x nowMilli p) (filter (\<lambda>h. EventSessionRefresh \<in> set (h_events h)) (d_hooks x)))"

text \<open>\<open>Logout\<close>: the barriers called in order, then the asynchronous calls. It has no result.\<close>

definition Logout ::
  "int \<Rightarrow> EventDispatcher option \<Rightarrow> EventPayload \<Rightarrow>
   (httpEventHook \<times> EventPayload) list \<times> (httpEventHook \<times> EventPayload) list" where
  "Logout nowMilli d p =
     (case d of
        None \<Rightarrow> ([], [])
      | Some x \<Rightarrow> (let p' = addressed x nowMilli p
                  in (map (\<lambda>h. (h, p')) (selecting x EventLogout True),
                      fireAsync p' (selecting x EventLogout False))))"

section \<open>The HTTP credential lookup\<close>

record httpLookup =
  hl_url :: string
  hl_resolveURL :: string
  hl_sharedSecret :: string
  hl_timeout :: duration

definition NewHTTPLookup :: "secret_data \<Rightarrow> goerror + httpLookup" where
  "NewHTTPLookup d =
     (let url = secret_get d ''url''; sharedSecret = secret_get d ''shared-secret'' in
      if url = [] then Inl (errorf ''http-lookup-auth Secret missing required 'url' data field'')
      else if length sharedSecret < minSharedSecretBytes
      then Inl (errorf (''http-lookup-auth Secret 'shared-secret' must be at least '' @
             FormatInt (int minSharedSecretBytes) @ '' bytes (got '' @ FormatInt (int (length sharedSecret)) @ '')''))
      else case parse_timeout ''http-lookup-auth'' (secret_get d ''timeout-ms'') of
             Inl e \<Rightarrow> Inl e
           | Inr timeout \<Rightarrow>
               Inr \<lparr>hl_url = url, hl_resolveURL = secret_get d ''resolve-url'', hl_sharedSecret = sharedSecret,
                    hl_timeout = timeout\<rparr>)"

record lookup_codec =
  lc_MarshalCheck :: "string \<Rightarrow> string \<Rightarrow> goerror + string"
  lc_DecodeCheck :: "string \<Rightarrow> goerror + bool \<times> mapclaims option \<times> string \<times> string option"
  lc_MarshalResolve :: "string \<Rightarrow> goerror + string"
  lc_DecodeResolve :: "string \<Rightarrow> goerror + mapclaims"

definition lookup_request :: "http_env \<Rightarrow> httpLookup \<Rightarrow> string \<Rightarrow> int \<Rightarrow> string \<Rightarrow> http_request" where
  "lookup_request E hl url nowMilli body =
     (let ts = FormatInt nowMilli
      in \<lparr>rq_url = url,
          rq_headers = [(''Content-Type'', ''application/json''), (''X-K-CNAS-Lookup-Timestamp'', ts),
                        (''X-K-CNAS-Lookup-Signature'', computeSignature E (hl_sharedSecret hl) ts body)],
          rq_body = body\<rparr>)"

definition unavailable :: "string \<Rightarrow> goerror" where
  "unavailable m = wrapf [ErrLookupUnavailable] (''lookup unavailable: '' @ m)"

definition http_FindInternal ::
  "http_env \<Rightarrow> lookup_codec \<Rightarrow> int \<Rightarrow> httpLookup \<Rightarrow> string \<Rightarrow> string \<Rightarrow> goerror + bool \<times> mapclaims option" where
  "http_FindInternal E C nowMilli hl subject password =
     (case lc_MarshalCheck C subject password of
        Inl e \<Rightarrow> Inl (unavailable (''httpLookup: marshal request: '' @ err_msg e))
      | Inr body \<Rightarrow>
          (case he_NewRequest E (hl_url hl) of
             Some e \<Rightarrow> Inl (unavailable (''httpLookup: build request: '' @ err_msg e))
           | None \<Rightarrow>
               (case he_Do E (lookup_request E hl (hl_url hl) nowMilli body) of
                  Inl e \<Rightarrow> Inl (unavailable (''httpLookup: request: '' @ err_msg e))
                | Inr (status, respBody) \<Rightarrow>
                    if status \<noteq> 200
                    then Inl (unavailable (''httpLookup: server returned status '' @ FormatInt status))
                    else (case lc_DecodeCheck C respBody of
                            Inl e \<Rightarrow> Inl (unavailable (''httpLookup: decode response: '' @ err_msg e))
                          | Inr (ok, parsed, reason, nextStep) \<Rightarrow>
                              if \<not> ok
                              then Inl (errorf (''httpLookup: credential check failed: '' @
                                          (if reason = [] then ''invalid_credentials'' else reason)))
                              else let claims = (case parsed of Some c \<Rightarrow> c | None \<Rightarrow> [])
                                   in Inr (True, Some (case nextStep of
                                             Some s \<Rightarrow> if s \<noteq> [] then AList.update ''next_step'' (VStr s) claims else claims
                                           | None \<Rightarrow> claims))))))"

definition http_ResolveClaims ::
  "http_env \<Rightarrow> lookup_codec \<Rightarrow> int \<Rightarrow> httpLookup \<Rightarrow> string \<Rightarrow> goerror + mapclaims" where
  "http_ResolveClaims E C nowMilli hl subject =
     (if hl_resolveURL hl = [] \<or> subject = [] then Inr []
      else case lc_MarshalResolve C subject of
             Inl e \<Rightarrow> Inl (errorf (''httpLookup: marshal resolve request: '' @ err_msg e))
           | Inr body \<Rightarrow>
               (case he_NewRequest E (hl_resolveURL hl) of
                  Some e \<Rightarrow> Inl (errorf (''httpLookup: build resolve request: '' @ err_msg e))
                | None \<Rightarrow>
                    (case he_Do E (lookup_request E hl (hl_resolveURL hl) nowMilli body) of
                       Inl e \<Rightarrow> Inl (errorf (''httpLookup: resolve request: '' @ err_msg e))
                     | Inr (status, respBody) \<Rightarrow>
                         if status \<noteq> 200
                         then Inl (errorf (''httpLookup: resolve returned status '' @ FormatInt status))
                         else (case lc_DecodeResolve C respBody of
                                 Inl e \<Rightarrow> Inl (errorf (''httpLookup: decode resolve response: '' @ err_msg e))
                               | Inr claims \<Rightarrow> Inr claims))))"

definition http_Lookup :: "http_env \<Rightarrow> lookup_codec \<Rightarrow> int \<Rightarrow> httpLookup \<Rightarrow> Lookup" where
  "http_Lookup E C nowMilli hl =
     \<lparr>lk_FindInternal = http_FindInternal E C nowMilli hl, lk_ResolveClaims = http_ResolveClaims E C nowMilli hl,
      lk_Type = ''http''\<rparr>"

section \<open>Properties\<close>

definition hook_allows :: "goerror + bool \<times> string \<Rightarrow> httpEventHook \<Rightarrow> bool" where
  "hook_allows r h = (case r of Inl _ \<Rightarrow> h_failureMode h = FailOpen | Inr (ok, _) \<Rightarrow> ok)"

lemma gate_hooks_allows:
  "fst (gate_hooks call p hs) = None \<longleftrightarrow> (\<forall>h \<in> set hs. hook_allows (call h p) h)"
  by (induction hs) (auto simp: hook_allows_def split_beta Let_def split: sum.splits)

lemma gate_hooks_denied:
  "fst (gate_hooks call p hs) = Some e \<Longrightarrow> errors_Is e ErrLoginHookDenied"
  by (induction hs) (auto simp: errors_Is_def wrapf_def split_beta Let_def split: sum.splits if_splits)

lemma gate_hooks_calls:
  "snd (gate_hooks call p hs) =
     (let n = length (takeWhile (\<lambda>h. hook_allows (call h p) h) hs) in map (\<lambda>h. (h, p)) (take (Suc n) hs))"
  by (induction hs) (auto simp: hook_allows_def split_beta Let_def split: sum.splits)

lemma set_selecting:
  "set (selecting d e b) = {h \<in> set (d_hooks d). e \<in> set (h_events h) \<and> b = enforcingFor h e}"
  by (auto simp: selecting_def)

text \<open>The login gate. A login passes exactly when every enforcing hook subscribed to login either
  answered ok or failed with failure mode fail-open; a refusal always carries \<open>ErrLoginHookDenied\<close>; the
  hooks are called in name order, each with the host and timestamp set, and none after the one that
  refused.\<close>

theorem login_gate:
  "(fst (GateLogin call now (Some d) p) = None \<longleftrightarrow>
      (\<forall>h \<in> set (d_hooks d). EventLogin \<in> set (h_events h) \<and> h_mode h = ModeEnforcing \<longrightarrow>
         hook_allows (call h (addressed d now p)) h)) \<and>
   (\<forall>e. fst (GateLogin call now (Some d) p) = Some e \<longrightarrow> errors_Is e ErrLoginHookDenied) \<and>
   (let hs = selecting d EventLogin True;
        n = length (takeWhile (\<lambda>h. hook_allows (call h (addressed d now p)) h) hs)
    in snd (GateLogin call now (Some d) p) = map (\<lambda>h. (h, addressed d now p)) (take (Suc n) hs))"
proof -
  have "enforcingFor h EventLogin \<longleftrightarrow> h_mode h = ModeEnforcing" for h
    by (simp add: enforcingFor_def enforceableEvents_def)
  then have "fst (GateLogin call now (Some d) p) = None \<longleftrightarrow>
      (\<forall>h \<in> set (d_hooks d). EventLogin \<in> set (h_events h) \<and> h_mode h = ModeEnforcing \<longrightarrow>
         hook_allows (call h (addressed d now p)) h)"
    by (auto simp: GateLogin_def gate_hooks_allows set_selecting)
  then show ?thesis
    by (simp add: GateLogin_def gate_hooks_calls gate_hooks_denied Let_def)
qed

definition demo_hook :: httpEventHook where
  "demo_hook = \<lparr>h_name = ''a'', h_url = ''http://u'', h_sharedSecret = ''s'', h_events = [EventLogin, EventLogout],
     h_mode = ModeEnforcing, h_failureMode = [], h_timeout = 2 * second\<rparr>"

definition demo_dispatcher :: EventDispatcher where
  "demo_dispatcher = NewEventDispatcher ''host'' [demo_hook]"

theorem login_gate_witness:
  "\<exists>e. fst (GateLogin (\<lambda>h p. Inl (errorf ''timeout'')) 1 (Some demo_dispatcher) (empty_payload EventLogin)) = Some e \<and>
     errors_Is e ErrLoginHookDenied"
proof -
  let ?g = "GateLogin (\<lambda>h p. Inl (errorf ''timeout'')) 1 (Some demo_dispatcher) (empty_payload EventLogin)"
  have "fst ?g \<noteq> None" by code_simp
  then show ?thesis
    using login_gate [of "\<lambda>h p. Inl (errorf ''timeout'')" 1 demo_dispatcher "empty_payload EventLogin"] by blast
qed

text \<open>A logout is never refused and reaches every hook once. The barriers are the enforcing hooks
  and the asynchronous calls the others; together they are exactly the hooks subscribed to logout, no
  hook is in both, and the hooks notified of a successful login are exactly the subscribed ones that
  did not gate it.\<close>

theorem hooks_partitioned:
  "set (map fst (fst (Logout now (Some d) p))) \<union> set (map fst (snd (Logout now (Some d) p))) =
     {h \<in> set (d_hooks d). EventLogout \<in> set (h_events h)} \<and>
   set (map fst (fst (Logout now (Some d) p))) \<inter> set (map fst (snd (Logout now (Some d) p))) = {} \<and>
   set (map fst (NotifyLoginSuccess now (Some d) p)) \<union> set (selecting d EventLogin True) =
     {h \<in> set (d_hooks d). EventLogin \<in> set (h_events h)} \<and>
   set (map fst (NotifyLoginSuccess now (Some d) p)) \<inter> set (selecting d EventLogin True) = {}"
  by (auto simp: Logout_def NotifyLoginSuccess_def fireAsync_def Let_def set_selecting comp_def)

text \<open>An outbound hook request is signed over what it sends. A hook's answer comes from the exchange of
  one request whose signature header is the HMAC, under the hook's secret, of the timestamp header, a dot and
  the body, and that timestamp is the one in the payload the body encodes.\<close>

theorem hook_request_signed:
  assumes "hook_call E C now h p = Inr r"
  shows "\<exists>body rq. hc_Marshal C (stamp now p) = Inr body \<and>
    rq_body rq = body \<and> rq_url rq = h_url h \<and>
    map_of (rq_headers rq) ''X-K-CNAS-Event-Timestamp'' = Some (FormatInt (ep_Timestamp (stamp now p))) \<and>
    map_of (rq_headers rq) ''X-K-CNAS-Event-Signature'' =
      Some (he_HMAC E (h_sharedSecret h) (FormatInt (ep_Timestamp (stamp now p)) @ ''.'' @ body)) \<and>
    (\<exists>respBody. he_Do E rq = Inr (200, respBody) \<and> hc_Decode C respBody = Inr r)"
proof -
  from assms obtain body where b: "hc_Marshal C (stamp now p) = Inr body"
    by (auto simp: hook_call_def Let_def split: sum.splits)
  have "\<exists>respBody. he_Do E (hook_request E h (ep_Timestamp (stamp now p)) body) = Inr (200, respBody) \<and>
      hc_Decode C respBody = Inr r"
    using assms b by (auto simp: hook_call_def Let_def split: sum.splits option.splits if_splits)
  with b show ?thesis
    by (intro exI [of _ body] exI [of _ "hook_request E h (ep_Timestamp (stamp now p)) body"])
      (simp add: hook_request_def computeSignature_def Let_def)
qed

definition demo_http :: http_env where
  "demo_http = \<lparr>he_HMAC = (\<lambda>k m. k @ m), he_NewRequest = (\<lambda>u. None), he_Do = (\<lambda>rq. Inr (200, ''ok''))\<rparr>"

definition demo_hook_codec :: hook_codec where
  "demo_hook_codec = \<lparr>hc_Marshal = (\<lambda>p. Inr (ep_Event p)), hc_Decode = (\<lambda>b. Inr (b = ''ok'', []))\<rparr>"

theorem hook_request_signed_witness:
  "\<exists>rq. map_of (rq_headers rq) ''X-K-CNAS-Event-Signature'' = Some (he_HMAC demo_http ''s'' (''7.login'')) \<and>
     (\<exists>b. he_Do demo_http rq = Inr (200, b))"
proof -
  have c: "hook_call demo_http demo_hook_codec 7 demo_hook (empty_payload EventLogin) = Inr (True, [])" by code_simp
  have "FormatInt (ep_Timestamp (stamp 7 (empty_payload EventLogin))) = ''7''"
    "hc_Marshal demo_hook_codec (stamp 7 (empty_payload EventLogin)) = Inr ''login''" "h_sharedSecret demo_hook = ''s''"
    by code_simp+
  with hook_request_signed [OF c] show ?thesis by auto
qed

text \<open>An unreachable credential backend is never a wrong password. An error of the HTTP lookup that is
  not marked unavailable means that its signed request of the backend got a readable 200 answer of ok
  false, and a login is vouched for only by a readable 200 answer of ok true.\<close>

theorem http_lookup_outcomes:
  "http_FindInternal E C now hl subject password = r \<Longrightarrow>
    (\<forall>e. r = Inl e \<and> \<not> errors_Is e ErrLookupUnavailable \<longrightarrow>
       (\<exists>body b c rs ns. lc_MarshalCheck C subject password = Inr body \<and>
          he_Do E (lookup_request E hl (hl_url hl) now body) = Inr (200, b) \<and> lc_DecodeCheck C b = Inr (False, c, rs, ns))) \<and>
    (\<forall>ok c. r = Inr (ok, c) \<longrightarrow> ok \<and>
       (\<exists>body b c' rs ns. lc_MarshalCheck C subject password = Inr body \<and>
          he_Do E (lookup_request E hl (hl_url hl) now body) = Inr (200, b) \<and> lc_DecodeCheck C b = Inr (True, c', rs, ns)))"
proof -
  assume r: "http_FindInternal E C now hl subject password = r"
  note defs = http_FindInternal_def unavailable_def errors_Is_def wrapf_def errorf_def
  show ?thesis
  proof (cases "lc_MarshalCheck C subject password")
    case (Inl e)
    then show ?thesis using r by (auto simp: defs)
  next
    case body: (Inr body)
    show ?thesis
    proof (cases "he_NewRequest E (hl_url hl)")
      case (Some e)
      then show ?thesis using r body by (auto simp: defs)
    next
      case new: None
      show ?thesis
      proof (cases "he_Do E (lookup_request E hl (hl_url hl) now body)")
        case (Inl e)
        then show ?thesis using r body new by (auto simp: defs)
      next
        case (Inr sb)
        obtain st b where "sb = (st, b)" by (cases sb)
        then show ?thesis
          using r body new Inr by (cases "lc_DecodeCheck C b") (auto simp: defs Let_def split: if_splits)
      qed
    qed
  qed
qed

definition demo_lookup_codec :: lookup_codec where
  "demo_lookup_codec = \<lparr>lc_MarshalCheck = (\<lambda>s p. Inr s), lc_DecodeCheck = (\<lambda>b. Inr (True, None, [], None)),
     lc_MarshalResolve = (\<lambda>s. Inr s), lc_DecodeResolve = (\<lambda>b. Inr [])\<rparr>"

definition demo_http_lookup :: httpLookup where
  "demo_http_lookup = \<lparr>hl_url = ''http://u'', hl_resolveURL = [], hl_sharedSecret = ''s'', hl_timeout = 2 * second\<rparr>"

theorem http_lookup_outcomes_witness:
  "\<exists>rq b c' rs ns. he_Do demo_http rq = Inr (200, b) \<and> lc_DecodeCheck demo_lookup_codec b = Inr (True, c', rs, ns)"
proof -
  have "http_FindInternal demo_http demo_lookup_codec 7 demo_http_lookup ''u'' ''p'' = Inr (True, Some [])" by code_simp
  from http_lookup_outcomes [OF this, THEN conjunct2, rule_format, of True "Some []"] show ?thesis
    by fastforce
qed

end
