(* ===== verification/Dcr.thy ===== *)
theory Dcr
  imports Roles
begin

text \<open>
  Dynamic client registration, \<open>src/internal/auth/dcr\<close>: the grant and redirect policies, the client
  store, the consent store with its bounds, and the exchanger's \<open>LookupClient\<close> that reads a stored
  client back under the current policy.

  The two stores are clients of the cache contract. The JSON codecs, SHA-256 and \<open>net/url\<close> parsing are
  arguments.
\<close>

section \<open>Grant types\<close>

definition SupportedGrantTypes :: "string list" where
  "SupportedGrantTypes = [''authorization_code'', ''refresh_token'']"

fun keep_unique :: "(string \<Rightarrow> bool) \<Rightarrow> string list \<Rightarrow> string list \<Rightarrow> string list" where
  "keep_unique P kept [] = kept"
| "keep_unique P kept (x # xs) =
     (if P x \<and> x \<notin> set kept then keep_unique P (kept @ [x]) xs else keep_unique P kept xs)"

definition FilterGrantTypes :: "string list \<Rightarrow> string list" where
  "FilterGrantTypes grants =
     (if grants = [] then SupportedGrantTypes else keep_unique (\<lambda>g. g \<in> set SupportedGrantTypes) [] grants)"

lemma set_keep_unique: "set (keep_unique P kept xs) = set kept \<union> {x \<in> set xs. P x}"
  by (induction xs arbitrary: kept) auto

lemma distinct_keep_unique: "distinct kept \<Longrightarrow> distinct (keep_unique P kept xs)"
  by (induction xs arbitrary: kept) auto

section \<open>Redirects\<close>

text \<open>What \<open>redirectAllowed\<close> reads of a parsed URL.\<close>

record parsed_url =
  u_Scheme :: string
  u_User :: bool
  u_Hostname :: string

type_synonym url_parse = "string \<Rightarrow> parsed_url option"

definition SchemeLoopback :: string where "SchemeLoopback = ''http-loopback''"
definition SchemePrivateUse :: string where "SchemePrivateUse = ''private-use''"
definition maxRedirectURILen :: nat where "maxRedirectURILen = 2048"

definition DefaultRedirectSchemes :: "string list" where
  "DefaultRedirectSchemes = [''https'', SchemeLoopback]"

definition dangerousSchemes :: "string list" where
  "dangerousSchemes = [''javascript'', ''data'', ''file'', ''vbscript'', ''blob'']"

definition isASCII :: "string \<Rightarrow> bool" where
  "isASCII s \<longleftrightarrow> list_all (\<lambda>c. (of_char c :: nat) < 128) s"

definition is_loopback :: "string \<Rightarrow> bool" where
  "is_loopback host \<longleftrightarrow> host = ''127.0.0.1'' \<or> host = ''::1'' \<or> EqualFold host ''localhost''"

definition scheme_admits :: "parsed_url \<Rightarrow> string \<Rightarrow> bool" where
  "scheme_admits u s \<longleftrightarrow>
     (if s = SchemeLoopback then u_Scheme u = ''http'' \<and> is_loopback (u_Hostname u)
      else if s = SchemePrivateUse
      then u_Scheme u \<noteq> [] \<and> u_Scheme u \<noteq> ''http'' \<and> u_Scheme u \<noteq> ''https'' \<and> Contains (u_Scheme u) ''.''
      else if s = [] \<or> s = ''http'' \<or> s \<in> set dangerousSchemes then False
      else u_Scheme u = s)"

definition redirectAllowed :: "url_parse \<Rightarrow> string \<Rightarrow> string list \<Rightarrow> bool" where
  "redirectAllowed up raw schemes =
     (if raw = [] \<or> length raw > maxRedirectURILen \<or> Contains raw ''#'' then False
      else case up raw of
             None \<Rightarrow> False
           | Some u \<Rightarrow>
               if u_User u then False
               else if u_Hostname u \<noteq> [] \<and> \<not> isASCII (u_Hostname u) then False
               else if (u_Scheme u = ''http'' \<or> u_Scheme u = ''https'') \<and> u_Hostname u = [] then False
               else list_ex (scheme_admits u) schemes)"

definition FilterRedirectURIs :: "url_parse \<Rightarrow> string list \<Rightarrow> string list \<Rightarrow> string list" where
  "FilterRedirectURIs up uris schemes = keep_unique (\<lambda>u. redirectAllowed up u schemes) [] uris"

section \<open>The client store\<close>

record Client =
  cl_ClientID :: string
  cl_RedirectURIs :: "string list"
  cl_GrantTypes :: "string list"
  cl_ResponseTypes :: "string list"
  cl_Scope :: string
  cl_ClientName :: string
  cl_TokenEndpointAuthMethod :: string
  cl_CreatedAt :: int

record client_codec =
  clc_Marshal :: "Client \<Rightarrow> goerror + string"
  clc_Unmarshal :: "string \<Rightarrow> goerror + Client"

text \<open>The random bytes of a new id are an argument: the bytes, or a failed read.\<close>

definition newClientID :: "goerror + string \<Rightarrow> goerror + string" where
  "newClientID rnd = (case rnd of Inl e \<Rightarrow> Inl e | Inr b \<Rightarrow> Inr (ClientIDPrefix @ concat (map hex2 b)))"

definition store_Register ::
  "client_codec \<Rightarrow> 's cache_ops \<Rightarrow> duration \<Rightarrow> instant \<Rightarrow> goerror + string \<Rightarrow> Client \<Rightarrow> 's \<Rightarrow> (goerror + Client) \<times> 's" where
  "store_Register cd ops ttl now rnd c s =
     (case newClientID rnd of
        Inl e \<Rightarrow> (Inl e, s)
      | Inr i \<Rightarrow>
          (let c' = c\<lparr>cl_ClientID := i,
                      cl_TokenEndpointAuthMethod := (if cl_TokenEndpointAuthMethod c = [] then ''none'' else cl_TokenEndpointAuthMethod c),
                      cl_CreatedAt := Unix now\<rparr>
           in case clc_Marshal cd c' of
                Inl e \<Rightarrow> (Inl e, s)
              | Inr blob \<Rightarrow>
                  (case op_Set ops now i blob [WithTTL ttl] s of
                     (Some e, s') \<Rightarrow> (Inl e, s')
                   | (None, s') \<Rightarrow> (Inr c', s'))))"

definition store_Get ::
  "client_codec \<Rightarrow> 's cache_ops \<Rightarrow> duration \<Rightarrow> instant \<Rightarrow> string \<Rightarrow> 's \<Rightarrow> (goerror + Client option) \<times> 's" where
  "store_Get cd ops ttl now clientID s =
     (case op_Get ops now clientID s of
        (Inl e, s1) \<Rightarrow> (Inl e, s1)
      | (Inr (val, found, _), s1) \<Rightarrow>
          if \<not> found then (Inr None, s1)
          else (case clc_Unmarshal cd val of
                  Inl e \<Rightarrow> (Inl e, s1)
                | Inr c \<Rightarrow> (Inr (Some c), snd (op_Set ops now clientID val [WithTTL ttl] s1))))"

definition store_Delete :: "'s cache_ops \<Rightarrow> string \<Rightarrow> 's \<Rightarrow> goerror option \<times> 's" where
  "store_Delete ops clientID s = op_Delete ops clientID s"

section \<open>Looking a client up\<close>

text \<open>\<open>Exchanger.LookupClient\<close>: the DCR store is \<open>None\<close> when registration is off.\<close>

definition LookupClient ::
  "url_parse \<Rightarrow> client_codec \<Rightarrow> ('s cache_ops \<times> duration) option \<Rightarrow> string list \<Rightarrow> instant \<Rightarrow>
   Exchanger option \<Rightarrow> string \<Rightarrow> 's \<Rightarrow> (goerror + AuthClient option) \<times> 's" where
  "LookupClient up cd store allowedSchemes now e clientID s =
     (case e of
        None \<Rightarrow> (Inr None, s)
      | Some x \<Rightarrow>
          (case map_of (e_Clients x) clientID of
             Some c \<Rightarrow> (Inr (Some c), s)
           | None \<Rightarrow>
               (case store of
                  None \<Rightarrow> (Inr None, s)
                | Some (ops, ttl) \<Rightarrow>
                    (case store_Get cd ops ttl now clientID s of
                       (Inl err, s1) \<Rightarrow> (Inl err, s1)
                     | (Inr None, s1) \<Rightarrow> (Inr None, s1)
                     | (Inr (Some dc), s1) \<Rightarrow>
                         (let grants = FilterGrantTypes (cl_GrantTypes dc);
                              schemes = (if allowedSchemes = [] then DefaultRedirectSchemes else allowedSchemes);
                              redirects = FilterRedirectURIs up (cl_RedirectURIs dc) schemes
                          in if redirects = [] then (Inr None, snd (store_Delete ops clientID s1))
                             else if grants = [] then (Inr None, s1)
                             else (Inr (Some \<lparr>ac_AllowedGrantTypes = grants, ac_AllowedScopes = Fields (cl_Scope dc),
                                      ac_AllowedResources = [], ac_ClientID = cl_ClientID dc, ac_ClientSecret = [],
                                      ac_Description = [], ac_Name = cl_ClientName dc, ac_Public = True,
                                      ac_RedirectURIs = redirects, ac_RequireConsent = True,
                                      ac_RequirePKCE = True\<rparr>), s1))))))"

section \<open>Consent\<close>

definition MaxConsentClients :: nat where "MaxConsentClients = 64"
definition MaxConsentRedirects :: nat where "MaxConsentRedirects = 4"
definition MaxConsentScopes :: nat where "MaxConsentScopes = 32"
definition MaxConsentScopeLen :: nat where "MaxConsentScopeLen = 128"
definition consentTouchEvery :: duration where "consentTouchEvery = 24 * hour"

record consentGrant =
  cg_Scopes :: "string list"
  cg_Touched :: int

type_synonym consentRecord = "consentGrant gomap gomap"

record consent_env =
  cn_Marshal :: "consentRecord \<Rightarrow> goerror + string"
  cn_Unmarshal :: "string \<Rightarrow> goerror + consentRecord"
  cn_Hash :: "string \<Rightarrow> string"

definition consentKey :: "consent_env \<Rightarrow> string \<Rightarrow> string" where
  "consentKey V subject = cn_Hash V subject"

definition redirectKey :: "consent_env \<Rightarrow> string \<Rightarrow> string" where
  "redirectKey V redirectURI = cn_Hash V redirectURI"

definition touchEvery :: "duration \<Rightarrow> duration" where
  "touchEvery ttl = (if ttl \<le> 0 then consentTouchEvery else min consentTouchEvery (ttl div 4))"

definition consent_load ::
  "consent_env \<Rightarrow> 's cache_ops \<Rightarrow> instant \<Rightarrow> string \<Rightarrow> 's \<Rightarrow> (goerror + consentRecord) \<times> 's" where
  "consent_load V ops now subject s =
     (case op_Get ops now (consentKey V subject) s of
        (Inl e, s1) \<Rightarrow> (Inl e, s1)
      | (Inr (val, ok, _), s1) \<Rightarrow>
          if \<not> ok then (Inr [], s1)
          else (case cn_Unmarshal V val of Inl _ \<Rightarrow> (Inr [], s1) | Inr rec \<Rightarrow> (Inr rec, s1)))"

definition consent_save ::
  "consent_env \<Rightarrow> 's cache_ops \<Rightarrow> duration \<Rightarrow> instant \<Rightarrow> string \<Rightarrow> consentRecord \<Rightarrow> 's \<Rightarrow> goerror option \<times> 's" where
  "consent_save V ops ttl now subject rec s =
     (if rec = [] then op_Delete ops (consentKey V subject) s
      else case cn_Marshal V rec of
             Inl e \<Rightarrow> (Some e, s)
           | Inr b \<Rightarrow> op_Set ops now (consentKey V subject) b [WithTTL ttl] s)"

text \<open>\<open>rec.Clients[clientID][key]\<close>: indexing a missing inner map yields nothing.\<close>

definition grant_at :: "consentRecord \<Rightarrow> string \<Rightarrow> string \<Rightarrow> consentGrant option" where
  "grant_at rec clientID key =
     (case map_of rec clientID of None \<Rightarrow> None | Some redirects \<Rightarrow> map_of redirects key)"

definition fresh :: "duration \<Rightarrow> instant \<Rightarrow> int \<Rightarrow> bool" where
  "fresh ttl now touched \<longleftrightarrow> now - touched * second < touchEvery ttl"

definition touch ::
  "consent_env \<Rightarrow> 's cache_ops \<Rightarrow> duration \<Rightarrow> instant \<Rightarrow> string \<Rightarrow> string \<Rightarrow> string \<Rightarrow> 's \<Rightarrow> 's" where
  "touch V ops ttl now subject clientID redirectURI s =
     (case consent_load V ops now subject s of
        (Inl _, s1) \<Rightarrow> s1
      | (Inr rec, s1) \<Rightarrow>
          (let key = redirectKey V redirectURI in
           case map_of rec clientID of
             None \<Rightarrow> s1
           | Some redirects \<Rightarrow>
               (case map_of redirects key of
                  None \<Rightarrow> s1
                | Some g \<Rightarrow>
                    if fresh ttl now (cg_Touched g) then s1
                    else snd (consent_save V ops ttl now subject
                           (AList.update clientID (AList.update key (g\<lparr>cg_Touched := Unix now\<rparr>) redirects) rec) s1))))"

definition touchIfStale ::
  "consent_env \<Rightarrow> 's cache_ops \<Rightarrow> duration \<Rightarrow> instant \<Rightarrow> string \<Rightarrow> string \<Rightarrow> string \<Rightarrow> consentGrant \<Rightarrow> 's \<Rightarrow> 's" where
  "touchIfStale V ops ttl now subject clientID redirectURI read s =
     (if fresh ttl now (cg_Touched read) then s else touch V ops ttl now subject clientID redirectURI s)"

definition Covers ::
  "consent_env \<Rightarrow> 's cache_ops \<Rightarrow> duration \<Rightarrow> instant \<Rightarrow> string \<Rightarrow> string \<Rightarrow> string \<Rightarrow> string list \<Rightarrow> 's \<Rightarrow> (goerror + bool) \<times> 's" where
  "Covers V ops ttl now subject clientID redirectURI scopes s =
     (case consent_load V ops now subject s of
        (Inl e, s1) \<Rightarrow> (Inl e, s1)
      | (Inr rec, s1) \<Rightarrow>
          (case grant_at rec clientID (redirectKey V redirectURI) of
             None \<Rightarrow> (Inr False, s1)
           | Some g \<Rightarrow>
               if list_ex (\<lambda>sc. sc \<notin> set (cg_Scopes g)) scopes then (Inr False, s1)
               else (Inr True, touchIfStale V ops ttl now subject clientID redirectURI g s1)))"

fun newest_redirect ::
  "consent_env \<Rightarrow> consentRecord \<Rightarrow> string \<Rightarrow> string list \<Rightarrow> (string \<times> consentGrant) option \<Rightarrow> (string \<times> consentGrant) option" where
  "newest_redirect V rec clientID [] best = best"
| "newest_redirect V rec clientID (r # rs) best =
     newest_redirect V rec clientID rs
       (case grant_at rec clientID (redirectKey V r) of
          None \<Rightarrow> best
        | Some g \<Rightarrow> (case best of
                       None \<Rightarrow> Some (r, g)
                     | Some (_, b) \<Rightarrow> if cg_Touched g > cg_Touched b then Some (r, g) else best))"

definition HasClient ::
  "consent_env \<Rightarrow> 's cache_ops \<Rightarrow> duration \<Rightarrow> instant \<Rightarrow> string \<Rightarrow> string \<Rightarrow> string list \<Rightarrow> 's \<Rightarrow> (goerror + bool) \<times> 's" where
  "HasClient V ops ttl now subject clientID redirects s =
     (case consent_load V ops now subject s of
        (Inl e, s1) \<Rightarrow> (Inl e, s1)
      | (Inr rec, s1) \<Rightarrow>
          (case newest_redirect V rec clientID redirects None of
             None \<Rightarrow> (Inr False, s1)
           | Some (newest, g) \<Rightarrow> (Inr True, touchIfStale V ops ttl now subject clientID newest g s1)))"

text \<open>One scan of \<open>evictOldest\<close>: the least recently touched key but \<open>keep\<close>, ties broken by key. It
  starts at the largest \<open>int64\<close> and the empty key, as the code does.\<close>

fun oldest_key :: "('v \<Rightarrow> int) \<Rightarrow> string \<Rightarrow> 'v gomap \<Rightarrow> int \<times> string \<Rightarrow> int \<times> string" where
  "oldest_key touched keep [] acc = acc"
| "oldest_key touched keep ((k, v) # m) acc =
     oldest_key touched keep m
       (if k = keep then acc
        else if touched v < fst acc \<or> (touched v = fst acc \<and> k < snd acc) then (touched v, k) else acc)"

text \<open>The loop, which ends only when the scans make progress.\<close>

partial_function (option) evictOldest :: "('v \<Rightarrow> int) \<Rightarrow> nat \<Rightarrow> string \<Rightarrow> 'v gomap \<Rightarrow> 'v gomap option" where
  "evictOldest touched limit keep m =
     (if length m \<le> limit then Some m
      else evictOldest touched limit keep
             (AList.delete (snd (oldest_key touched keep m (int64_max, []))) m))"

declare evictOldest.simps [code]

definition newest_touch :: "consentGrant gomap \<Rightarrow> int" where
  "newest_touch r = fold (\<lambda>(_, g) n. max n (cg_Touched g)) r 0"

fun merge_scopes :: "string list \<Rightarrow> string list \<Rightarrow> string list" where
  "merge_scopes merged [] = merged"
| "merge_scopes merged (sc # scopes) =
     (if length sc \<le> MaxConsentScopeLen \<and> sc \<notin> set merged then merge_scopes (merged @ [sc]) scopes
      else merge_scopes merged scopes)"

definition granted_record :: "consent_env \<Rightarrow> int \<Rightarrow> string \<Rightarrow> string \<Rightarrow> string list \<Rightarrow> consentRecord \<Rightarrow> consentRecord option" where
  "granted_record V nowUnix clientID redirectURI scopes rec =
     (let redirects = (case map_of rec clientID of Some r \<Rightarrow> r | None \<Rightarrow> []);
          key = redirectKey V redirectURI;
          prev = (case map_of redirects key of Some g \<Rightarrow> cg_Scopes g | None \<Rightarrow> []);
          merged = merge_scopes prev scopes;
          kept = (if length merged > MaxConsentScopes then drop (length merged - MaxConsentScopes) merged else merged);
          redirects1 = AList.update key \<lparr>cg_Scopes = sort kept, cg_Touched = nowUnix\<rparr> redirects
      in case evictOldest cg_Touched MaxConsentRedirects key redirects1 of
           None \<Rightarrow> None
         | Some redirects2 \<Rightarrow>
             evictOldest newest_touch MaxConsentClients clientID (AList.update clientID redirects2 rec))"

text \<open>\<open>Grant\<close>: \<open>None\<close> when an eviction loop does not end.\<close>

definition Grant ::
  "consent_env \<Rightarrow> 's cache_ops \<Rightarrow> duration \<Rightarrow> instant \<Rightarrow> string \<Rightarrow> string \<Rightarrow> string \<Rightarrow> string list \<Rightarrow> 's \<Rightarrow>
   (goerror option \<times> 's) option" where
  "Grant V ops ttl now subject clientID redirectURI scopes s =
     (case consent_load V ops now subject s of
        (Inl e, s1) \<Rightarrow> Some (Some e, s1)
      | (Inr rec, s1) \<Rightarrow>
          map_option (\<lambda>rec'. consent_save V ops ttl now subject rec' s1)
            (granted_record V (Unix now) clientID redirectURI scopes rec))"

definition Revoke ::
  "consent_env \<Rightarrow> 's cache_ops \<Rightarrow> duration \<Rightarrow> instant \<Rightarrow> string \<Rightarrow> string \<Rightarrow> string \<Rightarrow> 's \<Rightarrow> goerror option \<times> 's" where
  "Revoke V ops ttl now subject clientID redirectURI s =
     (case consent_load V ops now subject s of
        (Inl e, s1) \<Rightarrow> (Some e, s1)
      | (Inr rec, s1) \<Rightarrow>
          (case map_of rec clientID of
             None \<Rightarrow> consent_save V ops ttl now subject (AList.delete clientID rec) s1
           | Some redirects \<Rightarrow>
               (let redirects' = AList.delete (redirectKey V redirectURI) redirects
                in consent_save V ops ttl now subject
                     (if redirects' = [] then AList.delete clientID rec else AList.update clientID redirects' rec) s1)))"

section \<open>Policies\<close>

lemma dangerous_no_dot: "s \<in> set dangerousSchemes \<Longrightarrow> \<not> Contains s ''.''"
  by (auto simp: dangerousSchemes_def HasPrefix_def)

lemma scheme_admits_safe:
  assumes "scheme_admits u s"
  shows "u_Scheme u \<notin> set dangerousSchemes \<and> u_Scheme u \<noteq> [] \<and>
    (u_Scheme u = ''http'' \<longrightarrow> s = SchemeLoopback \<and> is_loopback (u_Hostname u))"
proof -
  have "''http'' \<notin> set dangerousSchemes" by code_simp
  with assms show ?thesis
    by (auto simp: scheme_admits_def split: if_splits dest: dangerous_no_dot)
qed

text \<open>What the policy guarantees of a redirect it admits.\<close>

definition redirect_safe :: "url_parse \<Rightarrow> string list \<Rightarrow> string \<Rightarrow> bool" where
  "redirect_safe up schemes raw \<longleftrightarrow> length raw \<le> maxRedirectURILen \<and> CHR ''#'' \<notin> set raw \<and>
     (\<exists>u. up raw = Some u \<and> \<not> u_User u \<and> isASCII (u_Hostname u) \<and> u_Scheme u \<notin> set dangerousSchemes \<and>
        (u_Scheme u = ''https'' \<longrightarrow> u_Hostname u \<noteq> []) \<and>
        (u_Scheme u = ''http'' \<longrightarrow> SchemeLoopback \<in> set schemes \<and> is_loopback (u_Hostname u)))"

lemma redirectAllowed_safe:
  assumes "redirectAllowed up raw schemes"
  shows "redirect_safe up schemes raw"
proof -
  from assms obtain u s where u: "up raw = Some u" "\<not> u_User u" "s \<in> set schemes" "scheme_admits u s"
    and h: "u_Hostname u \<noteq> [] \<longrightarrow> isASCII (u_Hostname u)" "u_Scheme u = ''https'' \<longrightarrow> u_Hostname u \<noteq> []"
    and r: "length raw \<le> maxRedirectURILen" "CHR ''#'' \<notin> set raw"
    by (auto simp: redirectAllowed_def list_ex_iff Contains_single split: if_splits option.splits)
  have "isASCII (u_Hostname u)" using h(1) by (cases "u_Hostname u") (auto simp: isASCII_def)
  with u h r scheme_admits_safe [OF u(4)] show ?thesis unfolding redirect_safe_def by auto
qed

lemma set_FilterGrantTypes: "set (FilterGrantTypes gs) \<subseteq> set SupportedGrantTypes"
  by (auto simp: FilterGrantTypes_def set_keep_unique)

section \<open>Eviction\<close>

lemma oldest_key_cases:
  "oldest_key touched keep m acc = acc \<or>
   (\<exists>k v. (k, v) \<in> set m \<and> k \<noteq> keep \<and> oldest_key touched keep m acc = (touched v, k))"
proof (induction m arbitrary: acc)
  case (Cons kv m)
  obtain k v where kv: "kv = (k, v)" by (cases kv)
  show ?case
  proof (cases "k \<noteq> keep \<and> (touched v < fst acc \<or> touched v = fst acc \<and> k < snd acc)")
    case True
    then have "oldest_key touched keep (kv # m) acc = oldest_key touched keep m (touched v, k)"
      by (auto simp: kv)
    with Cons.IH [of "(touched v, k)"] True show ?thesis by (auto simp: kv)
  next
    case False
    then have "oldest_key touched keep (kv # m) acc = oldest_key touched keep m acc"
      by (auto simp: kv)
    with Cons.IH [of acc] show ?thesis by auto
  qed
qed simp

lemma oldest_key_le:
  "fst (oldest_key touched keep m acc) \<le> fst acc \<and>
   (\<forall>(k, v) \<in> set m. k \<noteq> keep \<longrightarrow> fst (oldest_key touched keep m acc) \<le> touched v)"
proof (induction m arbitrary: acc)
  case (Cons kv m)
  obtain k v where kv: "kv = (k, v)" by (cases kv)
  define A where "A = (if k = keep then acc
    else if touched v < fst acc \<or> touched v = fst acc \<and> k < snd acc then (touched v, k) else acc)"
  have a: "fst A \<le> fst acc" "k \<noteq> keep \<longrightarrow> fst A \<le> touched v" by (auto simp: A_def)
  have c: "oldest_key touched keep (kv # m) acc = oldest_key touched keep m A" by (simp add: kv A_def)
  show ?case
    unfolding c using Cons.IH [of A] a by (auto simp: kv)
qed simp

definition touch_ok :: "('v \<Rightarrow> int) \<Rightarrow> 'v gomap \<Rightarrow> bool" where
  "touch_ok touched m \<longleftrightarrow> distinct (map fst m) \<and> (\<forall>(k, v) \<in> set m. touched v < int64_max)"

lemma oldest_key_progress:
  assumes ok: "touch_ok touched m" and len: "limit < length m" "0 < limit"
  shows "\<exists>k v. oldest_key touched keep m (int64_max, []) = (touched v, k) \<and> (k, v) \<in> set m \<and> k \<noteq> keep \<and>
    (\<forall>(k', v') \<in> set m. k' \<noteq> keep \<longrightarrow> touched v \<le> touched v')"
proof -
  have "\<exists>kv \<in> set m. fst kv \<noteq> keep"
  proof (rule ccontr)
    assume "\<not> (\<exists>kv \<in> set m. fst kv \<noteq> keep)"
    then have "set (map fst m) \<subseteq> {keep}" by auto
    then have "length (map fst m) \<le> 1"
      using ok card_mono [of "{keep}" "set (map fst m)"] by (simp add: touch_ok_def distinct_card flip: set_map)
    with len show False by simp
  qed
  then obtain k0 v0 where k0: "(k0, v0) \<in> set m" "k0 \<noteq> keep" by force
  let ?o = "oldest_key touched keep m (int64_max, [])"
  have le: "\<forall>(k, v) \<in> set m. k \<noteq> keep \<longrightarrow> fst ?o \<le> touched v" using oldest_key_le [of touched keep m] by blast
  then have "fst ?o < int64_max" using k0 ok by (fastforce simp: touch_ok_def)
  then have "?o \<noteq> (int64_max, [])" by auto
  with oldest_key_cases [of touched keep m "(int64_max, [])"] obtain k v where
    "(k, v) \<in> set m" "k \<noteq> keep" "?o = (touched v, k)" by blast
  with le show ?thesis by (intro exI [of _ k] exI [of _ v]) simp
qed

lemma touch_ok_delete: "touch_ok touched m \<Longrightarrow> touch_ok touched (AList.delete k m)"
  unfolding touch_ok_def by (intro conjI distinct_keys_delete) (auto simp: AList.delete_eq)

lemma length_delete_present:
  "distinct (map fst m) \<Longrightarrow> k \<in> fst ` set m \<Longrightarrow> Suc (length (AList.delete k m)) = length m"
proof (induction m)
  case (Cons kv m)
  show ?case
  proof (cases "fst kv = k")
    case True
    then have "k \<notin> fst ` set m" using Cons.prems by auto
    then have "AList.delete k m = m" by (simp add: delete_idem)
    with True show ?thesis by simp
  next
    case False
    with Cons show ?thesis by auto
  qed
qed simp

text \<open>The eviction ends, at the limit, keeps \<open>keep\<close>, and drops only entries no more recent than those it
  keeps.\<close>

lemma evictOldest_ok:
  assumes "touch_ok touched m" and "0 < limit"
  shows "\<exists>m'. evictOldest touched limit keep m = Some m' \<and> length m' = min limit (length m) \<and> touch_ok touched m' \<and>
    set m' \<subseteq> set m \<and> (\<forall>v. (keep, v) \<in> set m \<longrightarrow> (keep, v) \<in> set m') \<and>
    (\<forall>(k, v) \<in> set m - set m'. \<forall>(k', v') \<in> set m'. k' \<noteq> keep \<longrightarrow> touched v \<le> touched v')"
  using assms(1)
proof (induction "length m" arbitrary: m rule: less_induct)
  case less
  show ?case
  proof (cases "length m \<le> limit")
    case True
    then show ?thesis using less.prems by (subst evictOldest.simps) simp
  next
    case False
    then obtain k v where o: "oldest_key touched keep m (int64_max, []) = (touched v, k)" "(k, v) \<in> set m" "k \<noteq> keep"
      "\<forall>(k', v') \<in> set m. k' \<noteq> keep \<longrightarrow> touched v \<le> touched v'"
      using oldest_key_progress [OF less.prems _ assms(2), of keep] by (auto simp: not_le)
    let ?m = "AList.delete k m"
    have len: "Suc (length ?m) = length m"
      using length_delete_present [of m k] less.prems o(2) by (force simp: touch_ok_def)
    have sub: "set ?m = {kv \<in> set m. fst kv \<noteq> k}" by (auto simp: AList.delete_eq)
    have only: "(k, w) \<in> set m \<Longrightarrow> w = v" for w
      using less.prems o(2) by (auto simp: touch_ok_def dest: eq_key_imp_eq_value)
    have "length ?m < length m" using len by simp
    from less.hyps [OF this touch_ok_delete [OF less.prems]] obtain m' where
      m': "evictOldest touched limit keep ?m = Some m'" "length m' = min limit (length ?m)" "touch_ok touched m'"
        "set m' \<subseteq> set ?m" "\<forall>v. (keep, v) \<in> set ?m \<longrightarrow> (keep, v) \<in> set m'"
        "\<forall>(k, v) \<in> set ?m - set m'. \<forall>(k', v') \<in> set m'. k' \<noteq> keep \<longrightarrow> touched v \<le> touched v'" by blast
    have "evictOldest touched limit keep m = Some m'"
      using False m'(1) o(1) by (subst evictOldest.simps) simp
    moreover have "length m' = min limit (length m)" using m'(2) len False by simp
    moreover have "\<forall>(j, w) \<in> set m - set m'. \<forall>(k', v') \<in> set m'. k' \<noteq> keep \<longrightarrow> touched w \<le> touched v'"
    proof (intro ballI, clarify)
      fix j w k' v' assume a: "(j, w) \<in> set m" "(j, w) \<notin> set m'" "(k', v') \<in> set m'" "k' \<noteq> keep"
      show "touched w \<le> touched v'"
      proof (cases "j = k")
        case True
        then show ?thesis using a o(4) only m'(4) sub by fastforce
      next
        case False
        then have "(j, w) \<in> set ?m - set m'" using a sub by auto
        then show ?thesis using a m'(6) by fastforce
      qed
    qed
    ultimately show ?thesis using m'(3-5) sub o(3) by (intro exI [of _ m']) auto
  qed
qed

section \<open>Consent records\<close>

definition record_ok :: "consentRecord \<Rightarrow> bool" where
  "record_ok rec \<longleftrightarrow> distinct (map fst rec) \<and> (\<forall>(c, r) \<in> set rec. touch_ok cg_Touched r)"

lemma newest_touch_bound:
  "touch_ok cg_Touched r \<Longrightarrow> newest_touch r < int64_max"
proof -
  have "fold (\<lambda>(_, g) n. max n (cg_Touched g)) r n < int64_max"
    if "\<forall>(k, g) \<in> set r. cg_Touched g < int64_max" and "n < int64_max" for n
    using that by (induction r arbitrary: n) auto
  moreover assume "touch_ok cg_Touched r"
  ultimately show ?thesis by (auto simp: touch_ok_def newest_touch_def)
qed

lemma touch_ok_update:
  assumes "touch_ok touched m" and "touched v < int64_max"
  shows "touch_ok touched (AList.update k v m)"
proof -
  have "set (AList.update k v m) \<subseteq> insert (k, v) (set m)"
    by (induction m) auto
  then show ?thesis using assms unfolding touch_ok_def by (intro conjI distinct_keys_update) auto
qed

lemma record_ok_at: "record_ok rec \<Longrightarrow> map_of rec c = Some r \<Longrightarrow> touch_ok cg_Touched r"
  by (auto simp: record_ok_def dest: map_of_SomeD)

lemma record_ok_touch:
  "record_ok rec \<longleftrightarrow> distinct (map fst rec) \<and> (\<forall>(c, r) \<in> set rec. touch_ok cg_Touched r) \<and> touch_ok newest_touch rec"
  by (auto simp: record_ok_def touch_ok_def [of newest_touch] intro: newest_touch_bound)

lemma record_ok_update:
  assumes "record_ok rec" and "touch_ok cg_Touched r"
  shows "record_ok (AList.update c r rec)"
proof -
  have "set (AList.update c r rec) \<subseteq> insert (c, r) (set rec)"
    by (induction rec) auto
  then show ?thesis using assms unfolding record_ok_def by (intro conjI distinct_keys_update) auto
qed

lemma record_ok_delete: "record_ok rec \<Longrightarrow> record_ok (AList.delete c rec)"
  unfolding record_ok_def by (intro conjI distinct_keys_delete) (auto simp: AList.delete_eq)

lemma set_merge_scopes:
  "set (merge_scopes merged scopes) = set merged \<union> {sc \<in> set scopes. length sc \<le> MaxConsentScopeLen}"
  by (induction scopes arbitrary: merged) auto

text \<open>The scopes recorded before a grant.\<close>

definition prior_scopes :: "consent_env \<Rightarrow> consentRecord \<Rightarrow> string \<Rightarrow> string \<Rightarrow> string list" where
  "prior_scopes V rec c uri = (case grant_at rec c (redirectKey V uri) of Some g \<Rightarrow> cg_Scopes g | None \<Rightarrow> [])"

lemma granted_record_ok:
  assumes ok: "record_ok rec" and now: "now < int64_max"
  shows "\<exists>rec' r g. granted_record V now c uri scopes rec = Some rec' \<and> record_ok rec' \<and>
    length rec' \<le> MaxConsentClients \<and> map_of rec' c = Some r \<and> length r \<le> MaxConsentRedirects \<and>
    map_of r (redirectKey V uri) = Some g \<and> length (cg_Scopes g) \<le> MaxConsentScopes \<and>
    (length (merge_scopes (prior_scopes V rec c uri) scopes) \<le> MaxConsentScopes \<longrightarrow>
       set (cg_Scopes g) = set (merge_scopes (prior_scopes V rec c uri) scopes))"
proof -
  define key where "key = redirectKey V uri"
  define redirects where "redirects = (case map_of rec c of Some r \<Rightarrow> r | None \<Rightarrow> [])"
  define merged where "merged = merge_scopes (prior_scopes V rec c uri) scopes"
  define kept where "kept = (if length merged > MaxConsentScopes then drop (length merged - MaxConsentScopes) merged else merged)"
  define g where "g = \<lparr>cg_Scopes = sort kept, cg_Touched = now\<rparr>"
  have prev: "(case map_of redirects key of Some g \<Rightarrow> cg_Scopes g | None \<Rightarrow> []) = prior_scopes V rec c uri"
    by (auto simp: redirects_def prior_scopes_def grant_at_def key_def split: option.split)
  have t0: "touch_ok cg_Touched redirects"
    using record_ok_at [OF ok] by (cases "map_of rec c") (simp_all add: redirects_def touch_ok_def [of _ "[]"])
  then have t1: "touch_ok cg_Touched (AList.update key g redirects)"
    using now by (intro touch_ok_update) (simp_all add: g_def)
  from evictOldest_ok [OF t1, of MaxConsentRedirects key] obtain r where
    r: "evictOldest cg_Touched MaxConsentRedirects key (AList.update key g redirects) = Some r"
      "length r \<le> MaxConsentRedirects" "touch_ok cg_Touched r"
      "\<forall>v. (key, v) \<in> set (AList.update key g redirects) \<longrightarrow> (key, v) \<in> set r"
    by (auto simp: MaxConsentRedirects_def)
  have "(key, g) \<in> set (AList.update key g redirects)" by (induction redirects) auto
  then have kr: "map_of r key = Some g" using r(3,4) by (simp add: touch_ok_def)
  have ok2: "record_ok (AList.update c r rec)" using ok r(3) by (rule record_ok_update)
  then have "touch_ok newest_touch (AList.update c r rec)" by (simp add: record_ok_touch)
  from evictOldest_ok [OF this, of MaxConsentClients c] obtain rec' where
    rec': "evictOldest newest_touch MaxConsentClients c (AList.update c r rec) = Some rec'"
      "length rec' \<le> MaxConsentClients" "touch_ok newest_touch rec'" "set rec' \<subseteq> set (AList.update c r rec)"
      "\<forall>v. (c, v) \<in> set (AList.update c r rec) \<longrightarrow> (c, v) \<in> set rec'"
    by (auto simp: MaxConsentClients_def)
  have "(c, r) \<in> set (AList.update c r rec)" by (induction rec) auto
  then have cr: "map_of rec' c = Some r" using rec'(3,5) by (simp add: touch_ok_def)
  have ok3: "record_ok rec'" using ok2 rec'(3,4) by (auto simp: record_ok_def touch_ok_def [of newest_touch])
  have "granted_record V now c uri scopes rec = Some rec'"
    unfolding granted_record_def Let_def redirects_def [symmetric] key_def [symmetric] prev merged_def [symmetric]
      kept_def [symmetric] g_def [symmetric]
    using r(1) rec'(1) by simp
  moreover have "length (cg_Scopes g) \<le> MaxConsentScopes" by (simp add: g_def kept_def)
  moreover have "length merged \<le> MaxConsentScopes \<longrightarrow> set (cg_Scopes g) = set merged"
    by (simp add: g_def kept_def)
  ultimately show ?thesis
    using rec'(2) ok3 cr r(2) kr unfolding merged_def key_def by blast
qed

text \<open>What the code relies on of the JSON codec.\<close>

definition consent_codec_law :: "consent_env \<Rightarrow> bool" where
  "consent_codec_law V \<longleftrightarrow>
     (\<forall>rec. record_ok rec \<and> rec \<noteq> [] \<longrightarrow>
        (\<exists>b rec'. cn_Marshal V rec = Inr b \<and> cn_Unmarshal V b = Inr rec' \<and> record_ok rec' \<and>
           (\<forall>c k. grant_at rec' c k = grant_at rec c k)))"

definition loaded_record :: "consent_env \<Rightarrow> string option \<Rightarrow> consentRecord" where
  "loaded_record V val =
     (case val of None \<Rightarrow> [] | Some v \<Rightarrow> (case cn_Unmarshal V v of Inl _ \<Rightarrow> [] | Inr rec \<Rightarrow> rec))"

lemma loaded_record_None [simp]: "loaded_record V None = []"
  by (simp add: loaded_record_def)

lemma grant_at_Nil [simp]: "grant_at [] c k = None"
  by (simp add: grant_at_def)

lemma newest_redirect_None:
  "newest_redirect V rec c rs best = None \<longleftrightarrow> best = None \<and> (\<forall>r \<in> set rs. grant_at rec c (redirectKey V r) = None)"
  by (induction rs arbitrary: best) (auto split: option.splits)

context kv_store
begin

lemma consent_load_is:
  assumes "inv s"
  shows "consent_load V ops t subject s =
     (Inr (loaded_record V (view t s (consentKey V subject))), snd (op_Get ops t (consentKey V subject) s))"
proof -
  obtain r s1 where g: "op_Get ops t (consentKey V subject) s = (r, s1)"
    by (cases "op_Get ops t (consentKey V subject) s")
  have "r = Inr (found_result (view t s (consentKey V subject)))"
    using get_result [OF assms, of t "consentKey V subject"] by (simp add: g)
  then show ?thesis
    by (auto simp: consent_load_def loaded_record_def g split: option.split sum.split)
qed

lemma covers_result:
  assumes "inv s"
  shows "fst (Covers V ops ttl t subject c uri scopes s) =
     Inr (case grant_at (loaded_record V (view t s (consentKey V subject))) c (redirectKey V uri) of
            None \<Rightarrow> False | Some g \<Rightarrow> set scopes \<subseteq> set (cg_Scopes g))"
  by (auto simp: Covers_def consent_load_is [OF assms] list_ex_iff split: option.split)

lemma has_client_result:
  assumes "inv s"
  shows "fst (HasClient V ops ttl t subject c uris s) =
     Inr (\<exists>uri \<in> set uris. grant_at (loaded_record V (view t s (consentKey V subject))) c (redirectKey V uri) \<noteq> None)"
  using newest_redirect_None [of V "loaded_record V (view t s (consentKey V subject))" c uris None]
  by (auto simp: HasClient_def consent_load_is [OF assms] split: option.split)

lemma save_then_load:
  assumes i: "inv s" and law: "consent_codec_law V" and ok: "record_ok rec"
  shows "\<exists>s'. consent_save V ops ttl t subject rec s = (None, s') \<and> inv s' \<and>
    (\<forall>t' c k. grant_at (loaded_record V (view t' s' (consentKey V subject))) c k \<in> {None, grant_at rec c k}) \<and>
    (\<forall>t' c k. t' \<le> deadline t [WithTTL ttl] s \<longrightarrow>
       grant_at (loaded_record V (view t' s' (consentKey V subject))) c k = grant_at rec c k)"
proof (cases "rec = []")
  case True
  then show ?thesis
    using i by (auto simp: consent_save_def prod_eq_iff del_result del_inv del_self intro!: exI)
next
  case False
  with law ok obtain b rec' where b: "cn_Marshal V rec = Inr b" "cn_Unmarshal V b = Inr rec'"
    "\<forall>c k. grant_at rec' c k = grant_at rec c k" unfolding consent_codec_law_def by blast
  then show ?thesis
    using False i
    by (intro exI [of _ "snd (op_Set ops t (consentKey V subject) b [WithTTL ttl] s)"])
      (auto simp: consent_save_def prod_eq_iff set_result set_inv set_self loaded_record_def)
qed

lemma get_state:
  assumes "inv s"
  shows "inv (snd (op_Get ops t k s)) \<and> (\<forall>t' k'. view t' (snd (op_Get ops t k s)) k' = view t' s k')"
  using assms by (simp add: get_inv get_view)

lemma grant_covers:
  assumes i: "inv s" and law: "consent_codec_law V" and now: "Unix t < int64_max"
    and ok: "record_ok (loaded_record V (view t s (consentKey V subject)))"
    and few: "length (merge_scopes (prior_scopes V (loaded_record V (view t s (consentKey V subject))) c uri) scopes) \<le> MaxConsentScopes"
    and short: "\<forall>sc \<in> set scopes. length sc \<le> MaxConsentScopeLen"
    and t': "t' \<le> deadline t [WithTTL ttl] (snd (op_Get ops t (consentKey V subject) s))"
  shows "\<exists>s'. Grant V ops ttl t subject c uri scopes s = Some (None, s') \<and> inv s' \<and>
    fst (Covers V ops ttl t' subject c uri scopes s') = Inr True \<and>
    fst (HasClient V ops ttl t' subject c [uri] s') = Inr True"
proof -
  let ?s1 = "snd (op_Get ops t (consentKey V subject) s)"
  have i1: "inv ?s1" using get_state [OF i] by blast
  from granted_record_ok [OF ok now, of V c uri scopes] obtain rec' r g where
    g: "granted_record V (Unix t) c uri scopes (loaded_record V (view t s (consentKey V subject))) = Some rec'" "record_ok rec'"
      "map_of rec' c = Some r" "map_of r (redirectKey V uri) = Some g"
    and sc: "set (cg_Scopes g) = set (merge_scopes (prior_scopes V (loaded_record V (view t s (consentKey V subject))) c uri) scopes)"
    using few by auto
  from save_then_load [OF i1 law g(2), of ttl t subject] obtain s' where
    s': "consent_save V ops ttl t subject rec' ?s1 = (None, s')" "inv s'"
      "\<forall>t' c k. t' \<le> deadline t [WithTTL ttl] ?s1 \<longrightarrow>
         grant_at (loaded_record V (view t' s' (consentKey V subject))) c k = grant_at rec' c k" by blast
  have "grant_at (loaded_record V (view t' s' (consentKey V subject))) c (redirectKey V uri) = Some g"
    using s'(3) t' g(3,4) by (simp add: grant_at_def)
  moreover have "set scopes \<subseteq> set (cg_Scopes g)" using short by (auto simp: sc set_merge_scopes)
  moreover have "Grant V ops ttl t subject c uri scopes s = Some (None, s')"
    by (simp add: Grant_def consent_load_is [OF i] g(1) s'(1))
  ultimately show ?thesis using s'(2) by (simp add: covers_result has_client_result)
qed

lemma revoke_uncovers:
  assumes i: "inv s" and law: "consent_codec_law V"
    and ok: "record_ok (loaded_record V (view t s (consentKey V subject)))"
  shows "\<exists>s'. Revoke V ops ttl t subject c uri s = (None, s') \<and> inv s' \<and>
    fst (Covers V ops ttl t' subject c uri scopes s') = Inr False"
proof -
  let ?s1 = "snd (op_Get ops t (consentKey V subject) s)"
  let ?rec = "loaded_record V (view t s (consentKey V subject))"
  have i1: "inv ?s1" using get_state [OF i] by blast
  define rec' where "rec' = (case map_of ?rec c of
      None \<Rightarrow> AList.delete c ?rec
    | Some redirects \<Rightarrow> (let redirects' = AList.delete (redirectKey V uri) redirects
        in if redirects' = [] then AList.delete c ?rec else AList.update c redirects' ?rec))"
  have ok': "record_ok rec'"
    using ok record_ok_at [OF ok]
    by (auto simp: rec'_def Let_def intro: record_ok_delete record_ok_update touch_ok_delete split: option.split)
  have none: "grant_at rec' c (redirectKey V uri) = None"
    by (auto simp: rec'_def grant_at_def Let_def split: option.split)
  from save_then_load [OF i1 law ok', of ttl t subject] obtain s' where
    s': "consent_save V ops ttl t subject rec' ?s1 = (None, s')" "inv s'"
      "\<forall>t' c k. grant_at (loaded_record V (view t' s' (consentKey V subject))) c k \<in> {None, grant_at rec' c k}" by blast
  have "grant_at (loaded_record V (view t' s' (consentKey V subject))) c (redirectKey V uri) = None"
    using s'(3) none by (metis insertE singletonD)
  moreover have "Revoke V ops ttl t subject c uri s = (None, s')"
    using s'(1) by (auto simp: Revoke_def consent_load_is [OF i] rec'_def Let_def split: option.split_asm option.split)
  ultimately show ?thesis using s'(2) by (simp add: covers_result)
qed

end

section \<open>Properties\<close>

text \<open>A dynamically registered client is confined by the current policy when it is read back, whatever
  its stored record says: it is public, needs PKCE and consent, holds a non-empty list of redirect-based
  grants only, and a non-empty list of redirects each of which is safe under the schemes now allowed. A
  record none of whose redirects is allowed is no client, and is deleted.\<close>

theorem dcr_client_confined:
  assumes "map_of (e_Clients x) clientID = None"
    and "LookupClient up cd (Some (ops, ttl)) allowed now (Some x) clientID s = (r, s')"
  shows "(\<forall>c. r = Inr (Some c) \<longrightarrow>
      ac_Public c \<and> ac_RequirePKCE c \<and> ac_RequireConsent c \<and>
      ac_AllowedGrantTypes c \<noteq> [] \<and> set (ac_AllowedGrantTypes c) \<subseteq> {''authorization_code'', ''refresh_token''} \<and>
      ac_RedirectURIs c \<noteq> [] \<and> distinct (ac_RedirectURIs c) \<and>
      (\<forall>u \<in> set (ac_RedirectURIs c).
         redirect_safe up (if allowed = [] then DefaultRedirectSchemes else allowed) u)) \<and>
    (\<forall>dc s1. store_Get cd ops ttl now clientID s = (Inr (Some dc), s1) \<and>
       FilterRedirectURIs up (cl_RedirectURIs dc) (if allowed = [] then DefaultRedirectSchemes else allowed) = [] \<longrightarrow>
       r = Inr None \<and> s' = snd (op_Delete ops clientID s1))"
proof -
  have grants: "g = ''authorization_code'' \<or> g = ''refresh_token''" if "g \<in> set (FilterGrantTypes gs)" for g gs
    using set_FilterGrantTypes [of gs] that by (auto simp: SupportedGrantTypes_def)
  have "redirect_safe up schemes u" if "u \<in> set (FilterRedirectURIs up us schemes)" for us schemes u
    using that by (auto simp: FilterRedirectURIs_def set_keep_unique intro: redirectAllowed_safe)
  moreover have "distinct (FilterRedirectURIs up us schemes)" for us schemes
    by (simp add: FilterRedirectURIs_def distinct_keep_unique)
  ultimately show ?thesis
    using assms
    by (auto simp: LookupClient_def store_Delete_def Let_def dest: grants
        split: prod.splits sum.splits option.splits if_splits)
qed

definition demo_url :: url_parse where
  "demo_url raw = (if HasPrefix raw ''https://'' then Some \<lparr>u_Scheme = ''https'', u_User = False, u_Hostname = ''app.example''\<rparr>
     else None)"

definition demo_client :: Client where
  "demo_client = \<lparr>cl_ClientID = ''dcr_1'', cl_RedirectURIs = [''https://app.example/cb'', ''javascript:x''],
     cl_GrantTypes = [''password'', ''authorization_code''], cl_ResponseTypes = [], cl_Scope = ''openid'',
     cl_ClientName = ''App'', cl_TokenEndpointAuthMethod = ''none'', cl_CreatedAt = 0\<rparr>"

definition demo_client_codec :: client_codec where
  "demo_client_codec = \<lparr>clc_Marshal = (\<lambda>c. Inr ''c''), clc_Unmarshal = (\<lambda>b. Inr demo_client)\<rparr>"

definition demo_dcr_cache :: InMemoryCache where
  "demo_dcr_cache = cache_Set 0 ''dcr_1'' ''c'' [WithTTL hour] (new_cache ''dcr''
     \<lparr>o_MaxItems = None, o_TTL = None, o_Uncycled = True\<rparr> (NewCacheManager ''host'' None))"

definition demo_lookup :: "(goerror + AuthClient option) \<times> InMemoryCache" where
  "demo_lookup = LookupClient demo_url demo_client_codec (Some (mem_ops, hour)) [] 5 (Some demo_exchanger) ''dcr_1'' demo_dcr_cache"

theorem dcr_client_confined_witness:
  "\<exists>c. fst demo_lookup = Inr (Some c) \<and> ac_RequireConsent c \<and> ac_RedirectURIs c = [''https://app.example/cb''] \<and>
     ac_AllowedGrantTypes c = [''authorization_code'']"
proof -
  obtain r s' where rs: "LookupClient demo_url demo_client_codec (Some (mem_ops, hour)) [] 5 (Some demo_exchanger) ''dcr_1''
      demo_dcr_cache = (r, s')" by (cases demo_lookup) (simp add: demo_lookup_def)
  have "map_of (e_Clients demo_exchanger) ''dcr_1'' = None" by code_simp
  from dcr_client_confined [OF this rs] have "\<forall>c. r = Inr (Some c) \<longrightarrow> ac_RequireConsent c" by blast
  moreover have "(case fst demo_lookup of Inr (Some c) \<Rightarrow>
      (ac_RedirectURIs c, ac_AllowedGrantTypes c) = ([''https://app.example/cb''], [''authorization_code'']) | _ \<Rightarrow> False)"
    by code_simp
  moreover have l: "demo_lookup = (r, s')" using rs by (simp only: demo_lookup_def)
  ultimately show ?thesis unfolding l by (auto split: sum.splits option.splits)
qed

text \<open>The eviction of a consent record ends. With distinct keys and touch times below the largest
  \<open>int64\<close>, and a limit of at least one, \<open>evictOldest\<close> returns a map of at most the limit's size that
  drops nothing when it fits, keeps the entry just granted, and drops only entries no more recently
  touched than every other entry it keeps.\<close>

theorem evict_oldest_bounds:
  assumes "touch_ok touched m" and "0 < limit"
  shows "\<exists>m'. evictOldest touched limit keep m = Some m' \<and> length m' = min limit (length m) \<and>
    set m' \<subseteq> set m \<and> (\<forall>v. (keep, v) \<in> set m \<longrightarrow> (keep, v) \<in> set m') \<and>
    (\<forall>(k, v) \<in> set m - set m'. \<forall>(k', v') \<in> set m'. k' \<noteq> keep \<longrightarrow> touched v \<le> touched v')"
  using evictOldest_ok [OF assms, of keep] by blast

theorem evict_oldest_bounds_witness:
  "\<exists>m'. evictOldest (\<lambda>t. t) 2 ''b'' [(''a'', 5), (''b'', 1), (''c'', 7)] = Some m' \<and> length m' = 2 \<and> (''b'', 1) \<in> set m'"
  using evict_oldest_bounds [of "\<lambda>t. t" "[(''a'', 5), (''b'', 1), (''c'', 7)]" 2 "''b''"]
  by (auto simp: touch_ok_def)

text \<open>Consent means what the user decided. A \<open>Grant\<close> on a readable record within the bounds ends,
  succeeds, and from then until the record's deadline covers exactly that client, redirect and scopes and
  counts as held for the refresh grant; after a \<open>Revoke\<close> the redirect is not covered at any time.\<close>

theorem consent_round_trip:
  assumes "surviving s" and "consent_codec_law V" and "Unix t < int64_max"
    and "record_ok (loaded_record V (cache_view t s (consentKey V subject)))"
    and "length (merge_scopes (prior_scopes V (loaded_record V (cache_view t s (consentKey V subject))) c uri) scopes) \<le> MaxConsentScopes"
    and "\<forall>sc \<in> set scopes. length sc \<le> MaxConsentScopeLen"
    and "t' \<le> mem_deadline t [WithTTL ttl] s"
  shows "(\<exists>s'. Grant V mem_ops ttl t subject c uri scopes s = Some (None, s') \<and>
      fst (Covers V mem_ops ttl t' subject c uri scopes s') = Inr True \<and>
      fst (HasClient V mem_ops ttl t' subject c [uri] s') = Inr True) \<and>
    (\<exists>s'. Revoke V mem_ops ttl t subject c uri s = (None, s') \<and>
      fst (Covers V mem_ops ttl t'' subject c uri scopes s') = Inr False)"
proof -
  have "mem_deadline t [WithTTL ttl] (snd (op_Get mem_ops t k s)) = mem_deadline t [WithTTL ttl] s" for k
    by (simp add: mem_deadline_def entry_expiry_def applySetOptions_def)
  then have "t' \<le> mem_deadline t [WithTTL ttl] (snd (op_Get mem_ops t (consentKey V subject) s))"
    using assms(7) by simp
  from mem.grant_covers [OF assms(1-6) this] mem.revoke_uncovers [OF assms(1,2,4), of ttl c uri t'' scopes]
  show ?thesis by blast
qed

definition tuple_of :: "consentRecord \<Rightarrow> (string \<times> (string \<times> string list \<times> int) list) list" where
  "tuple_of rec = map (\<lambda>(c, r). (c, map (\<lambda>(k, g). (k, cg_Scopes g, cg_Touched g)) r)) rec"

definition of_tuple :: "(string \<times> (string \<times> string list \<times> int) list) list \<Rightarrow> consentRecord" where
  "of_tuple rec = map (\<lambda>(c, r). (c, map (\<lambda>(k, s, t). (k, \<lparr>cg_Scopes = s, cg_Touched = t\<rparr>)) r)) rec"

lemma of_tuple_of [simp]: "of_tuple (tuple_of rec) = rec"
  by (induction rec) (auto simp: tuple_of_def of_tuple_def comp_def intro!: map_idI)

definition demo_consent :: consent_env where
  "demo_consent = \<lparr>cn_Marshal = (\<lambda>rec. Inr (replicate (to_nat (tuple_of rec)) (CHR ''x''))),
     cn_Unmarshal = (\<lambda>b. Inr (of_tuple (from_nat (length b)))), cn_Hash = (\<lambda>s. s)\<rparr>"

lemma demo_consent_law: "consent_codec_law demo_consent"
  by (auto simp: consent_codec_law_def demo_consent_def)

theorem consent_round_trip_witness:
  "\<exists>s'. Grant demo_consent mem_ops hour 5 ''alice'' ''dcr_1'' ''https://a'' [''openid''] demo_dcr_cache = Some (None, s') \<and>
     fst (Covers demo_consent mem_ops hour 6 ''alice'' ''dcr_1'' ''https://a'' [''openid''] s') = Inr True"
proof -
  have v: "cache_view 5 demo_dcr_cache ''alice'' = None" by code_simp
  have "surviving demo_dcr_cache"
    unfolding demo_dcr_cache_def by (intro mem_set_surviving) (simp add: surviving_def new_cache_def)
  moreover have "Unix 5 < int64_max" "6 \<le> mem_deadline 5 [WithTTL hour] demo_dcr_cache" by code_simp+
  moreover have "consentKey demo_consent ''alice'' = ''alice''" by (simp add: consentKey_def demo_consent_def)
  moreover have "record_ok []" by (simp add: record_ok_def)
  moreover have "length (merge_scopes (prior_scopes demo_consent [] ''dcr_1'' ''https://a'') [''openid'']) \<le> MaxConsentScopes"
    "\<forall>sc \<in> set [''openid'']. length sc \<le> MaxConsentScopeLen"
    by (simp_all add: prior_scopes_def MaxConsentScopes_def MaxConsentScopeLen_def)
  ultimately show ?thesis
    using consent_round_trip [of demo_dcr_cache demo_consent 5 "''alice''" "''dcr_1''" "''https://a''" "[''openid'']" 6 hour 6]
      demo_consent_law v by auto
qed

end
