(* ===== verification/ApiToken.thy ===== *)
theory ApiToken
  imports SubjectKind "HOL-Library.Countable"
begin

text \<open>
  The PASETO API tokens of \<open>src/internal/auth/apitoken/apitoken.go\<close>: the key pairs and their loader,
  minting and validating a token, the white-label prefix, and the revocation store with its legacy
  class.

  Outside the repository are go-paseto, SHA-256 in hex and the RFC 3339 layouts of \<open>time\<close>: they are the
  fields of \<open>paseto_lib\<close>. A parsed token is the results of its getters, so that every getter's failure is
  a branch. The store and the legacy class are two caches, with states of their own.
\<close>

section \<open>The library\<close>

text \<open>What a mint sets on a token.\<close>

record minted =
  mt_aud :: string
  mt_exp :: instant
  mt_iat :: string
  mt_iss :: string
  mt_jti :: string
  mt_nbf :: instant
  mt_sub :: string
  mt_act :: string
  mt_scp :: string
  mt_knd :: string
  mt_footer :: string

text \<open>What the getters of a parsed token return; the kind is the raw claim.\<close>

record parsed_token =
  pt_jti :: "goerror + string"
  pt_sub :: "goerror + string"
  pt_act :: "goerror + string"
  pt_scp :: "goerror + string"
  pt_aud :: "goerror + string"
  pt_iss :: "goerror + string"
  pt_exp :: "goerror + instant"
  pt_iat :: "goerror + instant"
  pt_nbf :: "goerror + instant"
  pt_knd :: "goany option"

text \<open>The rules a validation adds to the parser.\<close>

record parse_rules =
  ru_IssuedBy :: string
  ru_ValidAt :: instant
  ru_ForAudience :: "string option"

record paseto_lib =
  pl_Sign :: "string \<Rightarrow> minted \<Rightarrow> string"
  pl_Footer :: "string \<Rightarrow> goerror + string"
  pl_FooterKID :: "string \<Rightarrow> goerror + string"
  pl_Parse :: "string \<Rightarrow> parse_rules option \<Rightarrow> string \<Rightarrow> goerror + parsed_token"
  pl_SecretFromBytes :: "string \<Rightarrow> goerror + string"
  pl_Public :: "string \<Rightarrow> string"
  pl_Sha256Hex :: "string \<Rightarrow> string"
  pl_FormatNano :: "instant \<Rightarrow> string"
  pl_ParseNano :: "string \<Rightarrow> instant option"

definition pasetoV4PublicHeader :: string where "pasetoV4PublicHeader = ''v4.public.''"
definition RevocationHorizon :: duration where "RevocationHorizon = 10 * 365 * 24 * hour"
definition RevocationClass :: string where "RevocationClass = ''apitoken-revocation-v2''"
definition LegacyRevocationClass :: string where "LegacyRevocationClass = ''apitoken-revocation''"
definition subjectRevocationPrefix :: string where "subjectRevocationPrefix = ''sub:''"

record TokenData =
  td_Action :: string
  td_Audience :: string
  td_Expiration :: int
  td_IssuedAt :: int
  td_Issuer :: string
  td_JTI :: string
  td_KID :: string
  td_NotBefore :: int
  td_Scope :: string
  td_Subject :: string
  td_SubjectKind :: string

section \<open>Key pairs\<close>

record KeyPair =
  kp_ActiveKey :: bool
  kp_KeyId :: string
  kp_PublicKey :: string
  kp_SecretKey :: string

definition ActiveKey :: "KeyPair list \<Rightarrow> KeyPair option" where
  "ActiveKey ps = (case ps of [p] \<Rightarrow> Some p | _ \<Rightarrow> List.find kp_ActiveKey ps)"

definition GetKey :: "KeyPair list \<Rightarrow> string \<Rightarrow> KeyPair option" where
  "GetKey ps kid = List.find (\<lambda>p. kp_KeyId p = kid) ps"

definition GenerateKID :: "paseto_lib \<Rightarrow> string \<Rightarrow> string" where
  "GenerateKID P pubBytes = take 16 (pl_Sha256Hex P pubBytes)"

definition LoadKeysFromSecret :: "paseto_lib \<Rightarrow> string gomap \<Rightarrow> bool \<Rightarrow> goerror + KeyPair" where
  "LoadKeysFromSecret P data isActive =
     (case map_of data ''private-key'' of
        None \<Rightarrow> Inl (errorf ''private-key is required'')
      | Some bts \<Rightarrow>
          if bts = [] then Inl (errorf ''private-key is required'')
          else (case pl_SecretFromBytes P bts of
                  Inl e \<Rightarrow> Inl e
                | Inr secretKey \<Rightarrow>
                    (let exported = pl_Public P secretKey in
                     if map_of data ''public-key'' \<noteq> None \<and> map_of data ''public-key'' \<noteq> Some exported
                     then Inl (errorf ''public key does not match argument'')
                     else Inr \<lparr>kp_ActiveKey = isActive, kp_KeyId = GenerateKID P exported,
                               kp_PublicKey = exported, kp_SecretKey = secretKey\<rparr>)))"

record api_secret =
  as_created :: instant
  as_annotations :: "string gomap"
  as_data :: "string gomap"

text \<open>The loader's loop: a newly loaded active key deactivates the pair before it.\<close>

fun load_pairs :: "paseto_lib \<Rightarrow> KeyPair list \<Rightarrow> api_secret list \<Rightarrow> goerror + KeyPair list" where
  "load_pairs P pairs [] = Inr pairs"
| "load_pairs P pairs (s # ss) =
     (case LoadKeysFromSecret P (as_data s) (map_of (as_annotations s) ''kdex.dev/active-key'' = Some ''true'') of
        Inl e \<Rightarrow> Inl e
      | Inr kp \<Rightarrow>
          (let prev = (if kp_ActiveKey kp \<and> pairs \<noteq> []
                       then butlast pairs @ [(last pairs)\<lparr>kp_ActiveKey := False\<rparr>] else pairs)
           in load_pairs P (prev @ [kp]) ss))"

record TokenManager =
  tm_activeKey :: KeyPair
  tm_issuer :: string
  tm_keyPairs :: "KeyPair list"
  tm_maxTTL :: duration
  tm_tokenPrefix :: string

text \<open>\<open>None\<close> where \<open>NewTokenManager\<close> would dereference a nil active key.\<close>

definition NewTokenManager :: "string \<Rightarrow> KeyPair list \<Rightarrow> TokenManager option" where
  "NewTokenManager issuer keyPairs =
     map_option (\<lambda>k. \<lparr>tm_activeKey = k, tm_issuer = issuer, tm_keyPairs = keyPairs, tm_maxTTL = 0,
       tm_tokenPrefix = []\<rparr>) (ActiveKey keyPairs)"

definition activate_last :: "KeyPair list \<Rightarrow> KeyPair list" where
  "activate_last ps = (if ActiveKey ps = None \<and> ps \<noteq> [] then butlast ps @ [(last ps)\<lparr>kp_ActiveKey := True\<rparr>] else ps)"

definition APITokenManagerLoader ::
  "paseto_lib \<Rightarrow> string \<Rightarrow> api_secret list \<Rightarrow> bool \<Rightarrow> KeyPair list \<Rightarrow> goerror + TokenManager option" where
  "APITokenManagerLoader P issuer secrets devMode devPairs =
     (let filtered = sort_key as_created
            (filter (\<lambda>s. map_of (as_annotations s) ''kdex.dev/secret-type'' = Some ''api-key'') secrets)
      in if filtered = [] then (if devMode then Inr (NewTokenManager issuer devPairs) else Inr None)
         else case load_pairs P [] filtered of
                Inl e \<Rightarrow> Inl e
              | Inr pairs \<Rightarrow> Inr (NewTokenManager issuer (activate_last pairs)))"

definition WithTokenPrefix :: "string \<Rightarrow> TokenManager \<Rightarrow> TokenManager" where
  "WithTokenPrefix prefix tm = tm\<lparr>tm_tokenPrefix := prefix\<rparr>"

definition WithMaxTTL :: "duration \<Rightarrow> TokenManager \<Rightarrow> TokenManager" where
  "WithMaxTTL maxTTL tm = tm\<lparr>tm_maxTTL := maxTTL\<rparr>"

definition RevocationTTL :: "TokenManager \<Rightarrow> duration" where
  "RevocationTTL tm = max RevocationHorizon (tm_maxTTL tm)"

definition CapTTL :: "TokenManager \<Rightarrow> duration \<Rightarrow> duration" where
  "CapTTL tm ttl = (if tm_maxTTL tm > 0 \<and> ttl > tm_maxTTL tm then tm_maxTTL tm else ttl)"

section \<open>The wire form\<close>

definition wrap :: "TokenManager \<Rightarrow> string \<Rightarrow> string" where
  "wrap tm signed =
     (if tm_tokenPrefix tm = [] then signed else tm_tokenPrefix tm @ TrimPrefix signed pasetoV4PublicHeader)"

definition unwrap :: "TokenManager \<Rightarrow> string \<Rightarrow> string" where
  "unwrap tm signed =
     (if tm_tokenPrefix tm = [] \<or> HasPrefix signed pasetoV4PublicHeader then signed
      else let (rest, ok) = CutPrefix signed (tm_tokenPrefix tm)
           in if ok then pasetoV4PublicHeader @ rest else signed)"

section \<open>Revocation\<close>

definition GenerateJTI :: "paseto_lib \<Rightarrow> string \<Rightarrow> string \<Rightarrow> string \<Rightarrow> string" where
  "GenerateJTI P aud sub act = pl_Sha256Hex P (aud @ '':'' @ sub @ '':'' @ act)"

definition subjectRevocationKey :: "paseto_lib \<Rightarrow> string \<Rightarrow> string" where
  "subjectRevocationKey P sub = subjectRevocationPrefix @ pl_Sha256Hex P sub"

definition revocation_write :: "paseto_lib \<Rightarrow> instant \<Rightarrow> string \<Rightarrow> bool \<Rightarrow> string \<times> bool" where
  "revocation_write P now stored found =
     (case pl_ParseNano P stored of
        Some at \<Rightarrow> if found \<and> at > now then (stored, True) else (pl_FormatNano P now, True)
      | None \<Rightarrow> (pl_FormatNano P now, True))"

definition recordRevocation ::
  "paseto_lib \<Rightarrow> TokenManager \<Rightarrow> 's cache_ops \<Rightarrow> instant \<Rightarrow> string \<Rightarrow> duration \<Rightarrow> 's \<Rightarrow> goerror option \<times> 's" where
  "recordRevocation P tm ops now key ttl s =
     (case op_Update ops now key (revocation_write P now) [WithTTL (max ttl (RevocationTTL tm))] s of
        (Inl e, _, s') \<Rightarrow> (Some e, s')
      | (Inr _, _, s') \<Rightarrow> (None, s'))"

definition latestRevocation :: "paseto_lib \<Rightarrow> string \<Rightarrow> string \<Rightarrow> string" where
  "latestRevocation P a b =
     (case (pl_ParseNano P a, pl_ParseNano P b) of
        (None, None) \<Rightarrow> a
      | (None, Some _) \<Rightarrow> b
      | (Some _, None) \<Rightarrow> a
      | (Some at, Some bt) \<Rightarrow> if bt > at then b else a)"

definition revoke ::
  "paseto_lib \<Rightarrow> TokenManager \<Rightarrow> 's cache_ops \<Rightarrow> 'l cache_ops option \<Rightarrow> instant \<Rightarrow> string \<Rightarrow> duration \<Rightarrow> 's \<times> 'l \<Rightarrow>
   goerror option \<times> 's \<times> 'l" where
  "revoke P tm store legacy now jti ttl sl =
     (case recordRevocation P tm store now jti ttl (fst sl) of
        (Some e, s') \<Rightarrow> (Some e, s', snd sl)
      | (None, s') \<Rightarrow>
          (case legacy of
             None \<Rightarrow> (None, s', snd sl)
           | Some lops \<Rightarrow>
               (case recordRevocation P tm lops now jti ttl (snd sl) of (e, l') \<Rightarrow> (e, s', l'))))"

definition not_configured :: goerror where
  "not_configured = errorf ''revocation cache not configured''"

definition RevokeByMetadata ::
  "paseto_lib \<Rightarrow> TokenManager \<Rightarrow> 's cache_ops option \<Rightarrow> 'l cache_ops option \<Rightarrow> instant \<Rightarrow> string \<Rightarrow> string \<Rightarrow> string \<Rightarrow>
   duration \<Rightarrow> 's \<times> 'l \<Rightarrow> goerror option \<times> 's \<times> 'l" where
  "RevokeByMetadata P tm store legacy now aud sub act ttl sl =
     (case store of
        None \<Rightarrow> (Some not_configured, sl)
      | Some ops \<Rightarrow> revoke P tm ops legacy now (GenerateJTI P aud sub act) ttl sl)"

definition RevokeSubject ::
  "paseto_lib \<Rightarrow> TokenManager \<Rightarrow> 's cache_ops option \<Rightarrow> instant \<Rightarrow> string \<Rightarrow> duration \<Rightarrow> 's \<Rightarrow> goerror option \<times> 's" where
  "RevokeSubject P tm store now sub ttl s =
     (case store of
        None \<Rightarrow> (Some not_configured, s)
      | Some ops \<Rightarrow> recordRevocation P tm ops now (subjectRevocationKey P sub) ttl s)"

definition revokedNoEarlierThan :: "paseto_lib \<Rightarrow> string \<Rightarrow> instant \<Rightarrow> bool" where
  "revokedNoEarlierThan P revokedAt issuedAt =
     (case pl_ParseNano P revokedAt of None \<Rightarrow> True | Some at \<Rightarrow> \<not> issuedAt > at)"

definition issuedNoLaterThan :: "paseto_lib \<Rightarrow> parsed_token \<Rightarrow> string \<Rightarrow> bool" where
  "issuedNoLaterThan P token revokedAt =
     (case pt_iat token of Inl _ \<Rightarrow> True | Inr iat \<Rightarrow> revokedNoEarlierThan P revokedAt iat)"

definition SubjectRevokedSince ::
  "paseto_lib \<Rightarrow> 's cache_ops option \<Rightarrow> instant \<Rightarrow> string \<Rightarrow> instant \<Rightarrow> 's \<Rightarrow> (goerror + bool) \<times> 's" where
  "SubjectRevokedSince P store now sub issuedAt s =
     (case store of
        None \<Rightarrow> (Inr False, s)
      | Some ops \<Rightarrow>
          (case op_Get ops now (subjectRevocationKey P sub) s of
             (Inl e, s') \<Rightarrow> (Inl (wrapf (err_is e) (''failed to check revocation status: '' @ err_msg e)), s')
           | (Inr (revokedAt, found, _), s') \<Rightarrow> (Inr (found \<and> revokedNoEarlierThan P revokedAt issuedAt), s')))"

text \<open>The lookups of \<open>revoked\<close> only read, so their concurrency does not matter: each yields an error or
  whether it revokes, and any error fails the check.\<close>

definition lookup_revoked ::
  "paseto_lib \<Rightarrow> 's cache_ops \<Rightarrow> instant \<Rightarrow> parsed_token \<Rightarrow> string \<Rightarrow> 's \<Rightarrow> (goerror + bool) \<times> 's" where
  "lookup_revoked P ops now token key s =
     (case op_Get ops now key s of
        (Inl e, s') \<Rightarrow> (Inl e, s')
      | (Inr (revokedAt, found, _), s') \<Rightarrow> (Inr (found \<and> issuedNoLaterThan P token revokedAt), s'))"

definition join_revoked :: "goerror + bool \<Rightarrow> goerror + bool \<Rightarrow> goerror + bool" where
  "join_revoked a b =
     (case (a, b) of
        (Inl e, Inl e') \<Rightarrow> Inl (wrapf (err_is e @ err_is e') (err_msg e @ err_msg e'))
      | (Inl e, Inr _) \<Rightarrow> Inl e
      | (Inr _, Inl e) \<Rightarrow> Inl e
      | (Inr x, Inr y) \<Rightarrow> Inr (x \<or> y))"

definition revoked ::
  "paseto_lib \<Rightarrow> 's cache_ops \<Rightarrow> 'l cache_ops option \<Rightarrow> instant \<Rightarrow> parsed_token \<Rightarrow> 's \<times> 'l \<Rightarrow> (goerror + bool) \<times> 's \<times> 'l" where
  "revoked P store legacy now token sl =
     (case pt_jti token of
        Inl e \<Rightarrow> (Inl e, sl)
      | Inr jti \<Rightarrow>
          (case pt_sub token of
             Inl e \<Rightarrow> (Inl e, sl)
           | Inr sub \<Rightarrow>
               (let (r1, s1) = lookup_revoked P store now token jti (fst sl);
                    (r2, s2) = lookup_revoked P store now token (subjectRevocationKey P sub) s1;
                    (r3, l1) = (case legacy of
                                  None \<Rightarrow> (Inr False, snd sl)
                                | Some lops \<Rightarrow> lookup_revoked P lops now token jti (snd sl))
                in (case join_revoked r1 (join_revoked r2 r3) of
                      Inl e \<Rightarrow> Inl (wrapf (err_is e) (''failed to check revocation status: '' @ err_msg e))
                    | Inr b \<Rightarrow> Inr b, s2, l1))))"

definition RevokeToken ::
  "paseto_lib \<Rightarrow> TokenManager \<Rightarrow> 's cache_ops option \<Rightarrow> 'l cache_ops option \<Rightarrow> instant \<Rightarrow> string \<Rightarrow> 's \<times> 'l \<Rightarrow>
   goerror option \<times> 's \<times> 'l" where
  "RevokeToken P tm store legacy now signed0 sl =
     (case store of
        None \<Rightarrow> (Some not_configured, sl)
      | Some ops \<Rightarrow>
          (let signed = unwrap tm signed0 in
           case pl_Footer P signed of
             Inl e \<Rightarrow> (Some e, sl)
           | Inr footer \<Rightarrow>
               (case pl_FooterKID P footer of
                  Inl e \<Rightarrow> (Some e, sl)
                | Inr kid \<Rightarrow>
                    (case GetKey (tm_keyPairs tm) kid of
                       None \<Rightarrow> (Some (errorf (''key not found: '' @ kid)), sl)
                     | Some kp \<Rightarrow>
                         (case pl_Parse P (kp_PublicKey kp) None signed of
                            Inl e \<Rightarrow> (Some e, sl)
                          | Inr token \<Rightarrow>
                              (case pt_jti token of
                                 Inl e \<Rightarrow> (Some e, sl)
                               | Inr jti \<Rightarrow>
                                   (case pt_exp token of
                                      Inl e \<Rightarrow> (Some e, sl)
                                    | Inr exp \<Rightarrow>
                                        if exp - now \<le> 0 then (None, sl)
                                        else revoke P tm ops legacy now jti (exp - now) sl)))))))"

section \<open>Adopting stranded revocations\<close>

definition collect_stranded :: "paseto_lib \<Rightarrow> Entry \<Rightarrow> Entry gomap \<Rightarrow> goerror option \<times> Entry gomap" where
  "collect_stranded P e stranded =
     (None, AList.update (Key e)
        (case map_of stranded (Key e) of
           None \<Rightarrow> e
         | Some prev \<Rightarrow> e\<lparr>Value := latestRevocation P (Value prev) (Value e), TTL := max (TTL prev) (TTL e)\<rparr>) stranded)"

definition adopt_write :: "paseto_lib \<Rightarrow> string \<Rightarrow> string \<Rightarrow> bool \<Rightarrow> string \<times> bool" where
  "adopt_write P v current found =
     (if \<not> found then (v, True)
      else let merged = latestRevocation P current v in (merged, merged \<noteq> current))"

fun adopt_each ::
  "paseto_lib \<Rightarrow> TokenManager \<Rightarrow> 's cache_ops \<Rightarrow> instant \<Rightarrow> Entry gomap \<Rightarrow> nat \<Rightarrow> 's \<Rightarrow> (nat \<times> goerror option) \<times> 's" where
  "adopt_each P tm ops now [] adopted s = ((adopted, None), s)"
| "adopt_each P tm ops now ((jti, e) # rest) adopted s =
     (let (r, s1) = op_Get ops now jti s;
          settled = (case r of Inl _ \<Rightarrow> False
                     | Inr (current, found, _) \<Rightarrow> found \<and> latestRevocation P current (Value e) = current)
      in if settled then adopt_each P tm ops now rest adopted s1
         else let ttl = (if TTL e \<le> 0 then RevocationTTL tm else TTL e)
              in case op_Update ops now jti (adopt_write P (Value e)) [WithTTL ttl] s1 of
                   (Inl err, _, s2) \<Rightarrow> ((adopted, Some err), s2)
                 | (Inr wrote, _, s2) \<Rightarrow> adopt_each P tm ops now rest (if wrote then Suc adopted else adopted) s2)"

definition AdoptStrandedRevocations ::
  "paseto_lib \<Rightarrow> TokenManager \<Rightarrow> 's cache_ops option \<Rightarrow> instant \<Rightarrow> InMemoryCacheManager \<Rightarrow> 's \<Rightarrow> (nat \<times> goerror option) \<times> 's" where
  "AdoptStrandedRevocations P tm store now cm s =
     (case store of
        None \<Rightarrow> ((0, Some not_configured), s)
      | Some ops \<Rightarrow>
          (case ScanGenerations now LegacyRevocationClass (collect_stranded P) cm [] of
             (Some e, _) \<Rightarrow> ((0, Some e), s)
           | (None, stranded) \<Rightarrow> adopt_each P tm ops now stranded 0 s))"

section \<open>Minting and validating\<close>

definition minted_claims ::
  "paseto_lib \<Rightarrow> TokenManager \<Rightarrow> instant \<Rightarrow> string \<Rightarrow> string \<Rightarrow> string \<Rightarrow> string \<Rightarrow> string \<Rightarrow> duration \<Rightarrow> minted" where
  "minted_claims P tm now aud sub kind action scope ttl =
     \<lparr>mt_aud = aud, mt_exp = now + ttl, mt_iat = pl_FormatNano P now, mt_iss = tm_issuer tm,
      mt_jti = GenerateJTI P aud sub action, mt_nbf = now, mt_sub = sub, mt_act = action, mt_scp = scope,
      mt_knd = kind, mt_footer = ''{\"kid\":\"'' @ kp_KeyId (tm_activeKey tm) @ ''\"}''\<rparr>"

definition MintStatelessKey ::
  "paseto_lib \<Rightarrow> kind_lib \<Rightarrow> TokenManager \<Rightarrow> instant \<Rightarrow> string \<Rightarrow> string \<Rightarrow> string \<Rightarrow> string \<Rightarrow> string \<Rightarrow> duration \<Rightarrow>
   goerror + string" where
  "MintStatelessKey P K tm now aud sub kind action scope ttl =
     (if sub = [] then Inl ErrSubjectless
      else if \<not> kind_Known K kind
      then Inl (wrapf [ErrUnknownSubjectKind] (''api token subject kind is not a known kind: '' @ kind))
      else if tm_maxTTL tm > 0 \<and> ttl > tm_maxTTL tm
      then Inl (wrapf [ErrTTLExceedsMax] ''ttl exceeds the maximum API token lifetime of this host'')
      else Inr (wrap tm (pl_Sign P (kp_SecretKey (tm_activeKey tm))
                  (minted_claims P tm now aud sub kind action scope ttl))))"

definition parsed_kind :: "parsed_token \<Rightarrow> goerror + string" where
  "parsed_kind token =
     (case pt_knd token of
        None \<Rightarrow> Inr []
      | Some VNil \<Rightarrow> Inl (errorf (''api token claim '' @ ClaimSubjectKind @ '' is null''))
      | Some (VStr k) \<Rightarrow> Inr k
      | Some _ \<Rightarrow> Inl (errorf (''api token claim '' @ ClaimSubjectKind @ '' is not a string'')))"

text \<open>The claims read after the revocation check, in the code's order.\<close>

definition token_data :: "parsed_token \<Rightarrow> string \<Rightarrow> goerror + TokenData" where
  "token_data token kid =
     bindE (pt_sub token) (\<lambda>subject.
       if subject = [] then Inl ErrSubjectless
       else
         bindE (pt_act token) (\<lambda>action.
         bindE (pt_scp token) (\<lambda>scope.
         bindE (pt_aud token) (\<lambda>audience.
         bindE (pt_exp token) (\<lambda>exp.
         bindE (pt_iat token) (\<lambda>iat.
         bindE (pt_iss token) (\<lambda>issuer.
         bindE (pt_jti token) (\<lambda>jti.
         bindE (pt_nbf token) (\<lambda>nbf.
         bindE (parsed_kind token) (\<lambda>kind.
           Inr \<lparr>td_Action = action, td_Audience = audience, td_Expiration = Unix exp, td_IssuedAt = Unix iat,
                td_Issuer = issuer, td_JTI = jti, td_KID = kid, td_NotBefore = Unix nbf, td_Scope = scope,
                td_Subject = subject, td_SubjectKind = kind\<rparr>))))))))))"

definition validate_rules :: "TokenManager \<Rightarrow> instant \<Rightarrow> string \<Rightarrow> parse_rules" where
  "validate_rules tm now expectedAudience =
     \<lparr>ru_IssuedBy = tm_issuer tm, ru_ValidAt = now,
      ru_ForAudience = (if expectedAudience \<noteq> [] then Some expectedAudience else None)\<rparr>"

definition ValidateToken ::
  "paseto_lib \<Rightarrow> TokenManager \<Rightarrow> 's cache_ops option \<Rightarrow> 'l cache_ops option \<Rightarrow> instant \<Rightarrow> string \<Rightarrow> string \<Rightarrow> 's \<times> 'l \<Rightarrow>
   (goerror + TokenData) \<times> 's \<times> 'l" where
  "ValidateToken P tm store legacy now signed0 expectedAudience sl =
     (let signed = unwrap tm signed0 in
      case pl_Footer P signed of
        Inl e \<Rightarrow> (Inl e, sl)
      | Inr footer \<Rightarrow>
          (case pl_FooterKID P footer of
             Inl e \<Rightarrow> (Inl e, sl)
           | Inr kid \<Rightarrow>
               (case GetKey (tm_keyPairs tm) kid of
                  None \<Rightarrow> (Inl (errorf (''key not found: '' @ kid)), sl)
                | Some kp \<Rightarrow>
                    (case pl_Parse P (kp_PublicKey kp) (Some (validate_rules tm now expectedAudience)) signed of
                       Inl e \<Rightarrow> (Inl e, sl)
                     | Inr token \<Rightarrow>
                         (case store of
                            None \<Rightarrow> (token_data token kid, sl)
                          | Some ops \<Rightarrow>
                              (case revoked P ops legacy now token sl of
                                 (Inl e, sl') \<Rightarrow> (Inl e, sl')
                               | (Inr True, sl') \<Rightarrow> (Inl (errorf ''token revoked''), sl')
                               | (Inr False, sl') \<Rightarrow> (token_data token kid, sl')))))))"

section \<open>Revocations over a store\<close>

text \<open>What the code relies on of the RFC 3339 layout, between the epoch and the year 9999.\<close>

definition time_law :: "paseto_lib \<Rightarrow> bool" where
  "time_law P \<longleftrightarrow> (\<forall>t. 0 \<le> t \<and> t \<le> neverExpires \<longrightarrow> pl_ParseNano P (pl_FormatNano P t) = Some t)"

text \<open>A store in which nothing is evicted and an entry written with a TTL lives that long.\<close>

locale ttl_store = kv_store_unbounded +
  assumes ttl_deadline: "inv s \<Longrightarrow> deadline t [WithTTL d] s = t + d"
begin

text \<open>Until \<open>D\<close> the key holds one value, whose time is no earlier than \<open>a\<close>.\<close>

definition cut_off :: "paseto_lib \<Rightarrow> 'a \<Rightarrow> string \<Rightarrow> instant \<Rightarrow> instant \<Rightarrow> bool" where
  "cut_off P s key D a \<longleftrightarrow>
     (\<exists>v at. (\<forall>t \<le> D. view t s key = Some v) \<and> pl_ParseNano P v = Some at \<and> a \<le> at)"

lemma revocation_write_snd [simp]: "snd (revocation_write P now stored found) = True"
  by (simp add: revocation_write_def split: option.split)

lemma record_is:
  assumes "inv s"
  shows "recordRevocation P tm ops now key ttl s =
    (None, snd (op_Set ops now key
       (fst (revocation_write P now (fst (seen_args (view now s key))) (snd (seen_args (view now s key)))))
       [WithTTL (max ttl (RevocationTTL tm))] s))"
  using assms by (simp add: recordRevocation_def update_is Let_def)

lemma record_inv: "inv s \<Longrightarrow> inv (snd (recordRevocation P tm ops now key ttl s))"
  by (simp add: record_is set_inv)

lemma record_cuts:
  assumes "inv s" and "time_law P" and "0 \<le> now" and "now \<le> neverExpires" and "D \<le> now + RevocationTTL tm"
  shows "cut_off P (snd (recordRevocation P tm ops now key ttl s)) key D now"
proof -
  let ?v = "fst (revocation_write P now (fst (seen_args (view now s key))) (snd (seen_args (view now s key))))"
  have "view t (snd (recordRevocation P tm ops now key ttl s)) key = Some ?v" if "t \<le> D" for t
    using that assms(1,5) by (simp add: record_is set_self ttl_deadline)
  moreover have "\<exists>at. pl_ParseNano P ?v = Some at \<and> now \<le> at"
    using assms(2-4) by (auto simp: revocation_write_def time_law_def split: option.split)
  ultimately show ?thesis unfolding cut_off_def by blast
qed

text \<open>A later revocation of any key, on any clock, does not lift a cutoff.\<close>

lemma record_keeps:
  assumes "inv s" and "time_law P" and "cut_off P s key D a"
    and "0 \<le> n" and "n \<le> neverExpires" and "n \<le> D" and "D \<le> n + RevocationTTL tm"
  shows "cut_off P (snd (recordRevocation P tm ops n key' ttl s)) key D a"
proof (cases "key' = key")
  case False
  then show ?thesis
    using assms(1,3) unfolding cut_off_def by (auto simp: record_is set_other)
next
  case True
  from assms(3) obtain v at where v: "\<forall>t \<le> D. view t s key = Some v" "pl_ParseNano P v = Some at" "a \<le> at"
    unfolding cut_off_def by blast
  have w: "view t (snd (recordRevocation P tm ops n key ttl s)) key = Some (fst (revocation_write P n v True))"
    if "t \<le> D" for t
    using that assms(1,6,7) v(1) by (simp add: record_is set_self ttl_deadline)
  have "\<exists>at'. pl_ParseNano P (fst (revocation_write P n v True)) = Some at' \<and> at \<le> at'"
    using v(2) assms(2,4,5) by (auto simp: revocation_write_def time_law_def)
  with w v(3) show ?thesis unfolding True cut_off_def by (meson order_trans)
qed

fun run_revocations :: "paseto_lib \<Rightarrow> TokenManager \<Rightarrow> (instant \<times> string \<times> duration) list \<Rightarrow> 'a \<Rightarrow> 'a" where
  "run_revocations P tm [] s = s"
| "run_revocations P tm ((n, k, d) # rs) s = run_revocations P tm rs (snd (recordRevocation P tm ops n k d s))"

lemma run_keeps:
  assumes "time_law P" and "inv s" and "cut_off P s key D a"
    and "\<forall>(n, k, d) \<in> set rs. 0 \<le> n \<and> n \<le> neverExpires \<and> n \<le> D \<and> D \<le> n + RevocationTTL tm"
  shows "inv (run_revocations P tm rs s) \<and> cut_off P (run_revocations P tm rs s) key D a"
  using assms(2-)
proof (induction rs arbitrary: s)
  case (Cons r rs)
  obtain n k d where r: "r = (n, k, d)" by (cases r)
  have b: "0 \<le> n" "n \<le> neverExpires" "n \<le> D" "D \<le> n + RevocationTTL tm" using Cons.prems(3) by (auto simp: r)
  have rest: "\<forall>(n, k, d) \<in> set rs. 0 \<le> n \<and> n \<le> neverExpires \<and> n \<le> D \<and> D \<le> n + RevocationTTL tm"
    using Cons.prems(3) by auto
  show ?case
    using Cons.IH [OF record_inv [OF Cons.prems(1)] record_keeps [OF Cons.prems(1) assms(1) Cons.prems(2) b] rest]
    by (simp add: r)
qed simp

lemma cut_off_revokes:
  assumes "inv s" and "cut_off P s key D a" and "t \<le> D" and "pt_iat token = Inr iat" and "iat \<le> a"
  shows "fst (lookup_revoked P ops t token key s) = Inr True"
proof -
  obtain r s' where g: "op_Get ops t key s = (r, s')" by (cases "op_Get ops t key s")
  have "r = Inr (found_result (view t s key))" using get_result [OF assms(1), of t key] by (simp add: g)
  with g assms(2-5) show ?thesis
    by (auto simp: cut_off_def lookup_revoked_def issuedNoLaterThan_def revokedNoEarlierThan_def)
qed

lemma cut_off_subject:
  assumes "inv s" and "cut_off P s (subjectRevocationKey P sub) D a" and "t \<le> D" and "iat \<le> a"
  shows "fst (SubjectRevokedSince P (Some ops) t sub iat s) = Inr True"
proof -
  let ?k = "subjectRevocationKey P sub"
  obtain r s' where g: "op_Get ops t ?k s = (r, s')" by (cases "op_Get ops t ?k s")
  have "r = Inr (found_result (view t s ?k))" using get_result [OF assms(1), of t ?k] by (simp add: g)
  with g assms(2-4) show ?thesis
    by (auto simp: cut_off_def SubjectRevokedSince_def revokedNoEarlierThan_def)
qed

end

lemma mem_ttl_deadline: "mem_deadline t [WithTTL d] c = t + d"
  by (simp add: mem_deadline_def entry_expiry_def applySetOptions_def)

interpretation memt: ttl_store mem_ops unbounded cache_view mem_deadline
  by unfold_locales (simp add: mem_ttl_deadline)

text \<open>A sequence of revocations on the in-memory store, each at its own clock.\<close>

definition mem_revocations ::
  "paseto_lib \<Rightarrow> TokenManager \<Rightarrow> (instant \<times> string \<times> duration) list \<Rightarrow> InMemoryCache \<Rightarrow> InMemoryCache" where
  "mem_revocations P tm rs c = fold (\<lambda>(n, k, d) c. snd (recordRevocation P tm mem_ops n k d c)) rs c"

lemma mem_revocations_run: "mem_revocations P tm rs c = memt.run_revocations P tm rs c"
  by (induction rs arbitrary: c) (auto simp: mem_revocations_def)

section \<open>Round trips\<close>

lemma unwrap_wrap:
  assumes "HasPrefix signed pasetoV4PublicHeader"
    and "tm_tokenPrefix tm = [] \<or> \<not> HasPrefix (wrap tm signed) pasetoV4PublicHeader"
  shows "unwrap tm (wrap tm signed) = signed"
proof (cases "tm_tokenPrefix tm = []")
  case True
  then show ?thesis by (simp add: wrap_def unwrap_def)
next
  case False
  from assms(1) obtain r where r: "signed = pasetoV4PublicHeader @ r" by (auto simp: HasPrefix_iff)
  from False assms(2) r show ?thesis by (simp add: wrap_def unwrap_def)
qed

text \<open>The getters' view of a token just signed: times at whole seconds but for \<open>iat\<close>.\<close>

definition signed_view :: "minted \<Rightarrow> instant \<Rightarrow> parsed_token" where
  "signed_view m iat =
     \<lparr>pt_jti = Inr (mt_jti m), pt_sub = Inr (mt_sub m), pt_act = Inr (mt_act m), pt_scp = Inr (mt_scp m),
      pt_aud = Inr (mt_aud m), pt_iss = Inr (mt_iss m), pt_exp = Inr (Unix (mt_exp m) * second),
      pt_iat = Inr iat, pt_nbf = Inr (Unix (mt_nbf m) * second), pt_knd = Some (VStr (mt_knd m))\<rparr>"

definition rules_hold :: "minted \<Rightarrow> instant \<Rightarrow> parse_rules \<Rightarrow> bool" where
  "rules_hold m iat r \<longleftrightarrow> mt_iss m = ru_IssuedBy r \<and> iat \<le> ru_ValidAt r \<and> Unix (mt_nbf m) * second \<le> ru_ValidAt r \<and>
     ru_ValidAt r < Unix (mt_exp m) * second \<and> (ru_ForAudience r = None \<or> ru_ForAudience r = Some (mt_aud m))"

text \<open>A rule is broken by another issuer or audience, or outside the validity window; the expiry instant
  itself is left open.\<close>

definition rules_broken :: "minted \<Rightarrow> instant \<Rightarrow> parse_rules \<Rightarrow> bool" where
  "rules_broken m iat r \<longleftrightarrow> mt_iss m \<noteq> ru_IssuedBy r \<or> ru_ValidAt r < iat \<or> ru_ValidAt r < Unix (mt_nbf m) * second \<or>
     Unix (mt_exp m) * second < ru_ValidAt r \<or> (ru_ForAudience r \<noteq> None \<and> ru_ForAudience r \<noteq> Some (mt_aud m))"

text \<open>go-paseto's documented behaviour: the header and the footer of a signed token, that parsing it with
  the matching key succeeds when the rules hold, and fails when one is broken.\<close>

definition paseto_law :: "paseto_lib \<Rightarrow> bool" where
  "paseto_law P \<longleftrightarrow>
     (\<forall>sk m. HasPrefix (pl_Sign P sk m) pasetoV4PublicHeader \<and> pl_Footer P (pl_Sign P sk m) = Inr (mt_footer m)) \<and>
     (\<forall>kid. list_all (\<lambda>c. c \<notin> {CHR 0x22, CHR 0x5C}) kid \<longrightarrow>
        pl_FooterKID P (''{\"kid\":\"'' @ kid @ ''\"}'') = Inr kid) \<and>
     (\<forall>sk m r iat. pl_ParseNano P (mt_iat m) = Some iat \<longrightarrow>
        (rules_hold m iat r \<longrightarrow> pl_Parse P (pl_Public P sk) (Some r) (pl_Sign P sk m) = Inr (signed_view m iat)) \<and>
        (rules_broken m iat r \<longrightarrow> (\<exists>e. pl_Parse P (pl_Public P sk) (Some r) (pl_Sign P sk m) = Inl e)))"

text \<open>The manager's active key can be found by its id, and its id needs no escaping.\<close>

definition manager_ok :: "paseto_lib \<Rightarrow> TokenManager \<Rightarrow> bool" where
  "manager_ok P tm \<longleftrightarrow> list_all (\<lambda>c. c \<notin> {CHR 0x22, CHR 0x5C}) (kp_KeyId (tm_activeKey tm)) \<and>
     (\<exists>kp. GetKey (tm_keyPairs tm) (kp_KeyId (tm_activeKey tm)) = Some kp \<and>
        kp_PublicKey kp = pl_Public P (kp_SecretKey (tm_activeKey tm)))"

text \<open>A token just signed by the active key reaches the parser under that key's public half.\<close>

lemma validate_reaches_parse:
  assumes law: "paseto_law P" and mgr: "manager_ok P tm"
    and m: "m = minted_claims P tm now aud sub kind action scope ttl"
    and tok: "tok = wrap tm (pl_Sign P (kp_SecretKey (tm_activeKey tm)) m)"
    and pre: "tm_tokenPrefix tm = [] \<or> \<not> HasPrefix tok pasetoV4PublicHeader"
  shows "ValidateToken P tm store legacy t tok aud' sl =
    (case pl_Parse P (pl_Public P (kp_SecretKey (tm_activeKey tm))) (Some (validate_rules tm t aud'))
            (pl_Sign P (kp_SecretKey (tm_activeKey tm)) m) of
       Inl e \<Rightarrow> (Inl e, sl)
     | Inr token \<Rightarrow>
         (case store of
            None \<Rightarrow> (token_data token (kp_KeyId (tm_activeKey tm)), sl)
          | Some ops \<Rightarrow>
              (case revoked P ops legacy t token sl of
                 (Inl e, sl') \<Rightarrow> (Inl e, sl')
               | (Inr True, sl') \<Rightarrow> (Inl (errorf ''token revoked''), sl')
               | (Inr False, sl') \<Rightarrow> (token_data token (kp_KeyId (tm_activeKey tm)), sl'))))"
proof -
  let ?sk = "kp_SecretKey (tm_activeKey tm)"
  let ?sg = "pl_Sign P ?sk m"
  have u: "unwrap tm tok = ?sg"
    using law pre unfolding tok by (intro unwrap_wrap) (simp_all add: paseto_law_def)
  have f: "pl_Footer P ?sg = Inr (mt_footer m)" using law by (simp add: paseto_law_def)
  have k: "pl_FooterKID P (mt_footer m) = Inr (kp_KeyId (tm_activeKey tm))"
    using law mgr by (simp add: paseto_law_def manager_ok_def m minted_claims_def)
  obtain kp where kp: "GetKey (tm_keyPairs tm) (kp_KeyId (tm_activeKey tm)) = Some kp" "kp_PublicKey kp = pl_Public P ?sk"
    using mgr by (auto simp: manager_ok_def)
  show ?thesis by (simp add: ValidateToken_def u f k kp)
qed

lemma parse_signed:
  assumes "paseto_law P" and "time_law P" and "0 \<le> now" and "now \<le> neverExpires"
    and "m = minted_claims P tm now aud sub kind action scope ttl"
  shows "rules_hold m now r \<Longrightarrow> pl_Parse P (pl_Public P sk) (Some r) (pl_Sign P sk m) = Inr (signed_view m now)"
    and "rules_broken m now r \<Longrightarrow> \<exists>e. pl_Parse P (pl_Public P sk) (Some r) (pl_Sign P sk m) = Inl e"
proof -
  have "pl_ParseNano P (mt_iat m) = Some now" using assms(2-5) by (simp add: minted_claims_def time_law_def)
  then show "rules_hold m now r \<Longrightarrow> pl_Parse P (pl_Public P sk) (Some r) (pl_Sign P sk m) = Inr (signed_view m now)"
    and "rules_broken m now r \<Longrightarrow> \<exists>e. pl_Parse P (pl_Public P sk) (Some r) (pl_Sign P sk m) = Inl e"
    using assms(1) unfolding paseto_law_def by blast+
qed

definition minted_data :: "TokenManager \<Rightarrow> minted \<Rightarrow> instant \<Rightarrow> TokenData" where
  "minted_data tm m now =
     \<lparr>td_Action = mt_act m, td_Audience = mt_aud m, td_Expiration = Unix (mt_exp m), td_IssuedAt = Unix now,
      td_Issuer = mt_iss m, td_JTI = mt_jti m, td_KID = kp_KeyId (tm_activeKey tm), td_NotBefore = Unix (mt_nbf m),
      td_Scope = mt_scp m, td_Subject = mt_sub m, td_SubjectKind = mt_knd m\<rparr>"

lemma token_data_signed:
  "mt_sub m \<noteq> [] \<Longrightarrow> token_data (signed_view m now) (kp_KeyId (tm_activeKey tm)) = Inr (minted_data tm m now)"
  by (simp add: token_data_def signed_view_def minted_data_def parsed_kind_def Unix_def)

text \<open>A library whose secret keys are their own public keys and whose tokens carry their claims numbered.\<close>

definition minted_tuple ::
  "minted \<Rightarrow> string \<times> int \<times> string \<times> string \<times> string \<times> int \<times> string \<times> string \<times> string \<times> string \<times> string" where
  "minted_tuple m = (mt_aud m, mt_exp m, mt_iat m, mt_iss m, mt_jti m, mt_nbf m, mt_sub m, mt_act m, mt_scp m, mt_knd m, mt_footer m)"

definition tuple_minted ::
  "string \<times> int \<times> string \<times> string \<times> string \<times> int \<times> string \<times> string \<times> string \<times> string \<times> string \<Rightarrow> minted" where
  "tuple_minted = (\<lambda>(a, b, c, d, e, f, g, h, i, j, k). \<lparr>mt_aud = a, mt_exp = b, mt_iat = c, mt_iss = d, mt_jti = e, mt_nbf = f,
     mt_sub = g, mt_act = h, mt_scp = i, mt_knd = j, mt_footer = k\<rparr>)"

lemma tuple_minted_tuple [simp]: "tuple_minted (minted_tuple m) = m"
  by (simp add: tuple_minted_def minted_tuple_def)

definition demo_decode :: "string \<Rightarrow> minted" where
  "demo_decode s = tuple_minted (from_nat (length s - length pasetoV4PublicHeader))"

definition demo_paseto :: paseto_lib where
  "demo_paseto = \<lparr>pl_Sign = (\<lambda>sk m. pasetoV4PublicHeader @ replicate (to_nat (minted_tuple m)) (CHR ''x'')),
     pl_Footer = (\<lambda>s. Inr (mt_footer (demo_decode s))),
     pl_FooterKID = (\<lambda>f. Inr (takeWhile (\<lambda>c. c \<noteq> CHR 0x22) (drop 8 f))),
     pl_Parse = (\<lambda>pk r s. case r of
         None \<Rightarrow> Inl (errorf ''no rules'')
       | Some rules \<Rightarrow> (let m = demo_decode s; iat = int (length (mt_iat m))
            in if rules_hold m iat rules
              then Inr \<lparr>pt_jti = Inr (mt_jti m), pt_sub = Inr (mt_sub m), pt_act = Inr (mt_act m), pt_scp = Inr (mt_scp m),
                pt_aud = Inr (mt_aud m), pt_iss = Inr (mt_iss m), pt_exp = Inr (Unix (mt_exp m) * second), pt_iat = Inr iat,
                pt_nbf = Inr (Unix (mt_nbf m) * second), pt_knd = Some (VStr (mt_knd m))\<rparr>
              else Inl (errorf ''rule''))),
     pl_SecretFromBytes = Inr, pl_Public = (\<lambda>s. s), pl_Sha256Hex = (\<lambda>s. s),
     pl_FormatNano = (\<lambda>t. replicate (nat t) (CHR ''t'')), pl_ParseNano = (\<lambda>s. Some (int (length s)))\<rparr>"


lemma demo_time_law: "time_law demo_paseto"
  by (simp add: time_law_def demo_paseto_def)

lemma demo_decode_sign: "demo_decode (pl_Sign demo_paseto sk m) = m"
  by (simp add: demo_decode_def demo_paseto_def)

lemma demo_footer_kid:
  assumes "list_all (\<lambda>c. c \<notin> {CHR 0x22, CHR 0x5C}) kid"
  shows "pl_FooterKID demo_paseto (''{\"kid\":\"'' @ kid @ ''\"}'') = Inr kid"
  using assms by (auto simp: demo_paseto_def list_all_iff takeWhile_append)

lemma demo_paseto_law: "paseto_law demo_paseto"
proof -
  have "HasPrefix (pl_Sign demo_paseto sk m) pasetoV4PublicHeader \<and>
      pl_Footer demo_paseto (pl_Sign demo_paseto sk m) = Inr (mt_footer m)" for sk m
    using demo_decode_sign [of sk m] by (simp add: demo_paseto_def HasPrefix_iff)
  moreover have "(rules_hold m iat r \<longrightarrow>
        pl_Parse demo_paseto (pl_Public demo_paseto sk) (Some r) (pl_Sign demo_paseto sk m) = Inr (signed_view m iat)) \<and>
      (rules_broken m iat r \<longrightarrow>
        (\<exists>e. pl_Parse demo_paseto (pl_Public demo_paseto sk) (Some r) (pl_Sign demo_paseto sk m) = Inl e))"
    if "pl_ParseNano demo_paseto (mt_iat m) = Some iat" for sk m r iat
  proof -
    have "rules_broken m iat r \<Longrightarrow> \<not> rules_hold m iat r" by (auto simp: rules_broken_def rules_hold_def)
    then show ?thesis
      using that demo_decode_sign [of sk m] by (auto simp: demo_paseto_def Let_def signed_view_def)
  qed
  ultimately show ?thesis unfolding paseto_law_def using demo_footer_kid by blast
qed

section \<open>Properties\<close>

text \<open>C28: a revocation never lapses while it must hold. On an unbounded in-memory store, revoke a key at
  \<open>now\<close>, then run any further revocations of any keys on any replica's clock: until \<open>D\<close>, at most the
  revocation lifetime after each of those clocks, every token with that id issued at or before \<open>now\<close> is
  found revoked, and so is every credential of the subject when the key is the subject's.\<close>

theorem revocation_holds:
  assumes "unbounded c" and "time_law P" and "0 \<le> now" and "now \<le> neverExpires" and "t \<le> D"
    and "D \<le> now + RevocationTTL tm"
    and "\<forall>(n, k, d) \<in> set rs. 0 \<le> n \<and> n \<le> neverExpires \<and> n \<le> D \<and> D \<le> n + RevocationTTL tm"
    and "pt_iat token = Inr iat" and "iat \<le> now"
    and "c' = mem_revocations P tm rs (snd (recordRevocation P tm mem_ops now key ttl c))"
  shows "fst (lookup_revoked P mem_ops t token key c') = Inr True \<and>
    (key = subjectRevocationKey P sub \<longrightarrow> fst (SubjectRevokedSince P (Some mem_ops) t sub iat c') = Inr True)"
proof -
  let ?c1 = "snd (recordRevocation P tm mem_ops now key ttl c)"
  have "unbounded ?c1" "memt.cut_off P ?c1 key D now"
    using memt.record_inv [OF assms(1)] memt.record_cuts [OF assms(1-4,6)] by blast+
  from memt.run_keeps [OF assms(2) this assms(7)] have "unbounded c'" "memt.cut_off P c' key D now"
    by (simp_all add: assms(10) mem_revocations_run)
  then show ?thesis
    using memt.cut_off_revokes [of c' P key D now t token iat] memt.cut_off_subject [of c' P sub D now t iat] assms(5,8,9)
    by auto
qed

text \<open>C30: what is minted is accepted exactly where it should be. A minted token names a subject of a known
  kind within the host's maximum lifetime; presented to the same manager from its minting until the whole
  second of its expiry, for its own audience or for any, it validates to the claims it was minted with
  unless the revocation check fails or finds it revoked; for another audience, before its minting or after
  its expiry it is refused.\<close>

theorem mint_validate:
  assumes "paseto_law P" and "time_law P" and "manager_ok P tm" and "0 \<le> now" and "now \<le> neverExpires"
    and "MintStatelessKey P K tm now aud sub kind action scope ttl = Inr tok"
    and "tm_tokenPrefix tm = [] \<or> \<not> HasPrefix tok pasetoV4PublicHeader"
    and "m = minted_claims P tm now aud sub kind action scope ttl"
  shows "sub \<noteq> [] \<and> kind_Known K kind \<and> (tm_maxTTL tm > 0 \<longrightarrow> ttl \<le> tm_maxTTL tm) \<and>
    (now \<le> t \<and> t < Unix (now + ttl) * second \<and> aud' \<in> {[], aud} \<longrightarrow>
       ValidateToken P tm store legacy t tok aud' sl =
         (case store of
            None \<Rightarrow> (Inr (minted_data tm m now), sl)
          | Some ops \<Rightarrow>
              (case revoked P ops legacy t (signed_view m now) sl of
                 (Inl e, sl') \<Rightarrow> (Inl e, sl')
               | (Inr True, sl') \<Rightarrow> (Inl (errorf ''token revoked''), sl')
               | (Inr False, sl') \<Rightarrow> (Inr (minted_data tm m now), sl')))) \<and>
    (t < now \<or> Unix (now + ttl) * second < t \<or> aud' \<notin> {[], aud} \<longrightarrow>
       (\<exists>e. ValidateToken P tm store legacy t tok aud' sl = (Inl e, sl)))"
proof -
  have mint: "sub \<noteq> []" "kind_Known K kind" "tm_maxTTL tm > 0 \<longrightarrow> ttl \<le> tm_maxTTL tm"
    and tok: "tok = wrap tm (pl_Sign P (kp_SecretKey (tm_activeKey tm)) m)"
    using assms(6) by (auto simp: MintStatelessKey_def assms(8) split: if_splits)
  note reach = validate_reaches_parse [OF assms(1,3,8) tok assms(7), of store legacy t aud' sl]
  note parse = parse_signed [OF assms(1,2,4,5,8), of "validate_rules tm t aud'" "kp_SecretKey (tm_activeKey tm)"]
  have "Unix now * second \<le> now" by (simp add: Unix_def)
  then have hold: "now \<le> t \<and> t < Unix (now + ttl) * second \<and> aud' \<in> {[], aud} \<Longrightarrow> rules_hold m now (validate_rules tm t aud')"
    by (auto simp: rules_hold_def validate_rules_def assms(8) minted_claims_def)
  have broken: "t < now \<or> Unix (now + ttl) * second < t \<or> aud' \<notin> {[], aud} \<Longrightarrow> rules_broken m now (validate_rules tm t aud')"
    by (auto simp: rules_broken_def validate_rules_def assms(8) minted_claims_def)
  have sub: "mt_sub m \<noteq> []" using mint(1) by (simp add: assms(8) minted_claims_def)
  show ?thesis
    using mint reach parse(1) [OF hold] parse(2) [OF broken]
    unfolding token_data_signed [OF sub] by (auto simp: token_data_signed [OF sub] cong: option.case_cong sum.case_cong prod.case_cong bool.case_cong)
qed

text \<open>The loader does not keep a single active key. Of three key secrets in creation order, active,
  not active, active, it leaves the first and the last active, since a newly loaded active key
  deactivates only its immediate predecessor, and it goes on signing with the oldest of them.\<close>

theorem rotation_keeps_old_key:
  "\<exists>secrets tm.
     secrets = map (\<lambda>(t, a, k). \<lparr>as_created = t,
       as_annotations = [(''kdex.dev/secret-type'', ''api-key''), (''kdex.dev/active-key'', a)],
       as_data = [(''private-key'', k)]\<rparr>) [(1, ''true'', ''k1''), (2, ''false'', ''k2''), (3, ''true'', ''k3'')] \<and>
     APITokenManagerLoader demo_paseto ''host'' secrets False [] = Inr (Some tm) \<and>
     map (\<lambda>kp. (kp_SecretKey kp, kp_ActiveKey kp)) (tm_keyPairs tm) = [(''k1'', True), (''k2'', False), (''k3'', True)] \<and>
     kp_SecretKey (tm_activeKey tm) = ''k1''"
  by (simp add: APITokenManagerLoader_def LoadKeysFromSecret_def demo_paseto_def GenerateKID_def Let_def
      NewTokenManager_def ActiveKey_def activate_last_def)

definition demo_view :: parsed_token where
  "demo_view = \<lparr>pt_jti = Inr ''j'', pt_sub = Inr ''alice'', pt_act = Inr ''a'', pt_scp = Inr [], pt_aud = Inr ''fn'',
     pt_iss = Inr ''host'', pt_exp = Inr hour, pt_iat = Inr 3, pt_nbf = Inr 0, pt_knd = None\<rparr>"

definition demo_token_manager :: TokenManager where
  "demo_token_manager = (let kp = \<lparr>kp_ActiveKey = True, kp_KeyId = ''k'', kp_PublicKey = ''k1'', kp_SecretKey = ''k1''\<rparr> in
     \<lparr>tm_activeKey = kp, tm_issuer = ''host'', tm_keyPairs = [kp], tm_maxTTL = hour, tm_tokenPrefix = ''kdx_''\<rparr>)"

lemma demo_token_manager_ok: "manager_ok demo_paseto demo_token_manager"
  by (simp add: manager_ok_def demo_token_manager_def demo_paseto_def GetKey_def Let_def)

definition demo_revocations :: InMemoryCache where
  "demo_revocations = new_cache RevocationClass
     \<lparr>o_MaxItems = Some 0, o_TTL = None, o_Uncycled = True\<rparr> (NewCacheManager ''host'' None)"

lemma demo_revocations_unbounded: "unbounded demo_revocations"
  by (auto simp: demo_revocations_def unbounded_def surviving_def new_cache_def nonneg_def seg_of_def)

theorem revocation_holds_witness:
  "fst (lookup_revoked demo_paseto mem_ops minute demo_view ''j''
     (mem_revocations demo_paseto demo_token_manager [(7, ''j'', 1), (2, ''other'', 5)]
       (snd (recordRevocation demo_paseto demo_token_manager mem_ops 5 ''j'' hour demo_revocations)))) = Inr True"
proof -
  have "RevocationTTL demo_token_manager = 87600 * hour" "neverExpires \<ge> 7" "pt_iat demo_view = Inr 3"
    by (simp_all add: RevocationTTL_def RevocationHorizon_def demo_token_manager_def Let_def neverExpires_def demo_view_def)
  then show ?thesis
    using revocation_holds [OF demo_revocations_unbounded demo_time_law, of 5 minute minute demo_token_manager
        "[(7, ''j'', 1), (2, ''other'', 5)]" demo_view 3 _ "''j''" hour] by simp
qed

theorem mint_validate_witness:
  "\<exists>tok. MintStatelessKey demo_paseto demo_kinds demo_token_manager 5 ''fn'' ''alice'' ''User'' ''call'' ''read'' hour = Inr tok \<and>
     (\<exists>td. ValidateToken demo_paseto demo_token_manager (None :: InMemoryCache cache_ops option) (None :: InMemoryCache cache_ops option)
        minute tok ''fn'' (demo_revocations, demo_revocations) = (Inr td, demo_revocations, demo_revocations) \<and> td_Subject td = ''alice'' \<and> td_Scope td = ''read'') \<and>
     (\<exists>e. ValidateToken demo_paseto demo_token_manager (None :: InMemoryCache cache_ops option) (None :: InMemoryCache cache_ops option)
        minute tok ''other'' (demo_revocations, demo_revocations) = (Inl e, demo_revocations, demo_revocations))"
proof -
  let ?m = "minted_claims demo_paseto demo_token_manager 5 ''fn'' ''alice'' ''User'' ''call'' ''read'' hour"
  define tok where "tok = wrap demo_token_manager (pl_Sign demo_paseto ''k1'' ?m)"
  have mint: "MintStatelessKey demo_paseto demo_kinds demo_token_manager 5 ''fn'' ''alice'' ''User'' ''call'' ''read'' hour = Inr tok"
    by (simp add: MintStatelessKey_def demo_kinds_def tok_def demo_token_manager_def Let_def)
  have pre: "\<not> HasPrefix tok pasetoV4PublicHeader"
    by (simp add: tok_def wrap_def demo_token_manager_def Let_def HasPrefix_iff pasetoV4PublicHeader_def)
  have n: "(5::int) \<le> neverExpires" by (simp add: neverExpires_def)
  note V = mint_validate [OF demo_paseto_law demo_time_law demo_token_manager_ok _ n mint _ refl, of minute _ None None "(demo_revocations, demo_revocations)"]
  show ?thesis
    using mint V [of "''fn''"] V [of "''other''"] pre
    by (auto simp: Unix_def minted_data_def minted_claims_def)
qed

end
