(* ===== verification/Mint.thy ===== *)
theory Mint
  imports ApiToken Dcr EventHooks
begin

text \<open>
  The mints of \<open>src/internal/auth/exchange.go\<close> behind an authorization code and a refresh token: the
  subject's signing context, the signed pair, the stored refresh record and the event payload.

  An exchanger here is the whole of the code's \<open>Exchanger\<close> that these paths read; every cache class has
  a state of its own, all of the one implementation the cache manager hands out. JSON codecs are
  parameters. An operation reads the clock once. A failed mint returns the subject beside the error, so
  results are pairs as in the code.
\<close>

section \<open>The exchanger\<close>

definition AuthMethodLocal :: string where "AuthMethodLocal = ''local''"
definition AuthMethodOIDC :: string where "AuthMethodOIDC = ''oidc''"
definition AuthMethodOAuth2 :: string where "AuthMethodOAuth2 = ''oauth2''"

record RefreshTokenClaims =
  r_AuthMethod :: string
  r_ClientID :: string
  r_ExpiresAt :: int
  r_IssuedAt :: int
  r_OriginalIssuedAt :: int
  r_PredecessorID :: string
  r_Scope :: string
  r_Subject :: string
  r_IDPClaims :: mapclaims
  r_UpstreamRefreshToken :: string

record AuthorizationCodeClaims =
  a_AuthMethod :: string
  a_ClientID :: string
  a_CodeChallenge :: string
  a_CodeChallengeMethod :: string
  a_Exp :: int
  a_IDPClaims :: mapclaims
  a_JTI :: string
  a_RedirectURI :: string
  a_Resource :: string
  a_Scope :: string
  a_Subject :: string
  a_AuthenticatedAt :: int

record TokenSet =
  ts_AccessToken :: string
  ts_IDToken :: string
  ts_RefreshToken :: string
  ts_Scope :: string
  ts_Subject :: string

record graceRecord =
  g_ClientID :: string
  g_Pending :: bool
  g_TokenSet :: TokenSet

record session_codec =
  sc_MarshalRefresh :: "RefreshTokenClaims \<Rightarrow> goerror + string"
  sc_UnmarshalRefresh :: "string \<Rightarrow> goerror + RefreshTokenClaims"
  sc_MarshalGrace :: "graceRecord \<Rightarrow> goerror + string"
  sc_UnmarshalGrace :: "string \<Rightarrow> goerror + graceRecord"
  sc_MarshalCode :: "AuthorizationCodeClaims \<Rightarrow> goerror + string"
  sc_UnmarshalCode :: "string \<Rightarrow> goerror + AuthorizationCodeClaims"
  sc_MarshalClaims :: "mapclaims \<Rightarrow> goerror + string"
  sc_UnmarshalClaims :: "string \<Rightarrow> goerror + mapclaims"

text \<open>The cache classes an exchanger uses.\<close>

record 's stores =
  st_refresh :: 's
  st_grace :: 's
  st_codes :: 's
  st_resolve :: 's
  st_revoked :: 's
  st_dcr :: 's
  st_consent :: 's

text \<open>\<open>x_cached\<close>: a cache manager is configured. \<open>x_sp\<close>: the identity provider. \<open>x_tokens\<close>: the API-token
  manager and whether it has a revocation store. \<open>x_dcr\<close> and \<open>x_consent\<close>: the stores' lifetimes.\<close>

record 's exchange =
  x_ex :: Exchanger
  x_kinds :: kind_lib
  x_enabled :: "nat \<Rightarrow> bool"
  x_sp :: "scopeProvider option"
  x_lib :: signer_lib
  x_signer :: Signer
  x_codec :: session_codec
  x_ops :: "'s cache_ops"
  x_cached :: bool
  x_grace :: bool
  x_refreshTokenTTL :: duration
  x_refreshGraceWindow :: duration
  x_maxSessionAge :: duration
  x_paseto :: paseto_lib
  x_tokens :: "(TokenManager \<times> bool) option"
  x_url :: url_parse
  x_clients :: client_codec
  x_schemes :: "string list"
  x_dcr :: "duration option"
  x_consents :: consent_env
  x_consent :: "duration option"
  x_dispatcher :: "EventDispatcher option"

text \<open>The zero token set with the subject a failure is attributed to.\<close>

definition only_subject :: "string \<Rightarrow> TokenSet" where
  "only_subject sub = \<lparr>ts_AccessToken = [], ts_IDToken = [], ts_RefreshToken = [], ts_Scope = [], ts_Subject = sub\<rparr>"

text \<open>\<open>fmt.Errorf("%w: m: %v", ErrServerError, err)\<close> and \<open>grantFailuref\<close>.\<close>

definition server_error :: "string \<Rightarrow> goerror" where
  "server_error m = wrapf [ErrServerError] (''server error: '' @ m)"

definition grantFailuref :: "string \<Rightarrow> goerror" where
  "grantFailuref m = wrapf [ErrGrantFailure] m"

section \<open>The subject's signing context\<close>

definition ResolveInternalRolesAndEntitlements ::
  "'s exchange \<Rightarrow> BindingSubject \<Rightarrow> goerror + string list \<times> string list" where
  "ResolveInternalRolesAndEntitlements x bs =
     (case x_sp x of None \<Rightarrow> Inr ([], []) | Some rp \<Rightarrow> resolveBindings (x_kinds x) (x_enabled x) rp bs)"

definition ResolveSubjectClaimsLive :: "'s exchange \<Rightarrow> string \<Rightarrow> goerror + mapclaims" where
  "ResolveSubjectClaimsLive x subject =
     (case x_sp x of
        None \<Rightarrow> Inr []
      | Some rp \<Rightarrow> if subject = [] then Inr [] else ResolveClaimsWithError rp subject)"

text \<open>What the memo of a resolve holds: a hit is a non-empty record that parses.\<close>

definition memo_claims :: "'s exchange \<Rightarrow> instant \<Rightarrow> string \<Rightarrow> 's \<Rightarrow> mapclaims option \<times> 's" where
  "memo_claims x now subject s =
     (case op_Get (x_ops x) now subject s of
        (Inr (raw, True, _), s1) \<Rightarrow>
          if raw = [] then (None, s1)
          else (case sc_UnmarshalClaims (x_codec x) raw of Inl _ \<Rightarrow> (None, s1) | Inr c \<Rightarrow> (Some c, s1))
      | (_, s1) \<Rightarrow> (None, s1))"

definition ResolveSubjectClaims :: "'s exchange \<Rightarrow> instant \<Rightarrow> string \<Rightarrow> 's \<Rightarrow> mapclaims \<times> 's" where
  "ResolveSubjectClaims x now subject s =
     (if subject = [] then ([], s)
      else let (hit, s1) = (if x_cached x then memo_claims x now subject s else (None, s))
           in case hit of
                Some c \<Rightarrow> (c, s1)
              | None \<Rightarrow>
                  (let claims = (case ResolveSubjectClaimsLive x subject of Inl _ \<Rightarrow> [] | Inr c \<Rightarrow> c)
                   in if x_cached x \<and> claims \<noteq> []
                      then (case sc_MarshalClaims (x_codec x) claims of
                              Inl _ \<Rightarrow> (claims, s1)
                            | Inr payload \<Rightarrow> (claims, snd (op_Set (x_ops x) now subject payload [] s1)))
                      else (claims, s1)))"

definition subjectSigningContext ::
  "'s exchange \<Rightarrow> instant \<Rightarrow> string \<Rightarrow> BindingSubject \<Rightarrow> 's \<Rightarrow>
   (goerror + string list \<times> string list \<times> mapclaims) \<times> 's" where
  "subjectSigningContext x now subject bs s =
     (case ResolveInternalRolesAndEntitlements x bs of
        Inl e \<Rightarrow> (Inl e, s)
      | Inr (roles, entitlements) \<Rightarrow>
          (case ResolveSubjectClaims x now subject s of (backend, s1) \<Rightarrow> (Inr (roles, entitlements, backend), s1)))"

section \<open>The signed pair\<close>

text \<open>The access token and, with \<open>openid\<close>, the ID token for the client, as both mints sign them. The
  JWT ids are arguments.\<close>

definition id_context :: "mapclaims \<Rightarrow> string \<Rightarrow> mapclaims" where
  "id_context ctx clientID = AList.delete ''scope'' (AList.update ''aud'' (VStr clientID) ctx)"

definition sign_pair ::
  "'s exchange \<Rightarrow> instant \<Rightarrow> string \<Rightarrow> string \<Rightarrow> string \<Rightarrow> mapclaims \<Rightarrow> string list \<Rightarrow> goerror + string \<times> string" where
  "sign_pair x now jti jti' clientID ctx granted =
     (case SignScoped (x_lib x) (x_signer x) now jti ctx granted of
        Inl e \<Rightarrow> Inl (server_error (''failed to sign access token: '' @ err_msg e))
      | Inr access \<Rightarrow>
          if ''openid'' \<in> set granted
          then (case SignScoped (x_lib x) (x_signer x) now jti' (id_context ctx clientID) granted of
                  Inl e \<Rightarrow> Inl (server_error (''failed to sign id token: '' @ err_msg e))
                | Inr idToken \<Rightarrow> Inr (access, idToken))
          else Inr (access, []))"

definition token_set :: "string \<times> string \<Rightarrow> string list \<Rightarrow> string \<Rightarrow> TokenSet" where
  "token_set pair granted sub =
     \<lparr>ts_AccessToken = fst pair, ts_IDToken = snd pair, ts_RefreshToken = [], ts_Scope = Join granted '' '', ts_Subject = sub\<rparr>"

section \<open>Refresh records\<close>

definition decodeRefreshTokenClaims :: "'s exchange \<Rightarrow> string \<Rightarrow> RefreshTokenClaims option" where
  "decodeRefreshTokenClaims x raw =
     (case sc_UnmarshalRefresh (x_codec x) raw of Inl _ \<Rightarrow> None | Inr c \<Rightarrow> Some c)"

definition stamped :: "'s exchange \<Rightarrow> instant \<Rightarrow> RefreshTokenClaims \<Rightarrow> RefreshTokenClaims" where
  "stamped x now claims =
     claims\<lparr>r_IssuedAt := Unix now,
       r_OriginalIssuedAt := (if r_OriginalIssuedAt claims = 0 then Unix now else r_OriginalIssuedAt claims),
       r_ExpiresAt := Unix (now + x_refreshTokenTTL x)\<rparr>"

text \<open>The random id of the new record is an argument.\<close>

definition createRefreshToken ::
  "'s exchange \<Rightarrow> instant \<Rightarrow> string \<Rightarrow> RefreshTokenClaims \<Rightarrow> 's \<Rightarrow> (goerror + string) \<times> 's" where
  "createRefreshToken x now tokenID claims s =
     (case sc_MarshalRefresh (x_codec x) (stamped x now claims) of
        Inl e \<Rightarrow> (Inl (errorf (''failed to marshal refresh token claims: '' @ err_msg e)), s)
      | Inr payload \<Rightarrow>
          (case op_Set (x_ops x) now tokenID payload [] s of
             (Some e, s1) \<Rightarrow> (Inl (errorf (''failed to store refresh token: '' @ err_msg e)), s1)
           | (None, s1) \<Rightarrow> (Inr tokenID, s1)))"

definition lookupRefreshClaims :: "'s exchange \<Rightarrow> instant \<Rightarrow> string \<Rightarrow> 's \<Rightarrow> RefreshTokenClaims option \<times> 's" where
  "lookupRefreshClaims x now tokenID s =
     (if \<not> x_cached x then (None, s)
      else case op_Get (x_ops x) now tokenID s of
             (Inr (raw, True, _), s1) \<Rightarrow> (decodeRefreshTokenClaims x raw, s1)
           | (_, s1) \<Rightarrow> (None, s1))"

section \<open>Minting from a code and from a subject\<close>

definition code_context :: "string \<Rightarrow> AuthorizationCodeClaims \<Rightarrow> string list \<Rightarrow> string list \<Rightarrow> mapclaims \<Rightarrow> mapclaims" where
  "code_context kind claims roles entitlements backend =
     mergeBackendClaims
       [(''sub'', VStr (a_Subject claims)), (''auth_method'', VStr (a_AuthMethod claims)), (''roles'', VStrs roles),
        (''entitlements'', VStrs entitlements), (ClaimSubjectKind, VStr kind)] backend"

definition code_refresh_claims :: "AuthorizationCodeClaims \<Rightarrow> string \<Rightarrow> RefreshTokenClaims" where
  "code_refresh_claims claims scope =
     \<lparr>r_AuthMethod = a_AuthMethod claims, r_ClientID = a_ClientID claims, r_ExpiresAt = 0, r_IssuedAt = 0,
      r_OriginalIssuedAt = 0, r_PredecessorID = [], r_Scope = scope, r_Subject = a_Subject claims, r_IDPClaims = [],
      r_UpstreamRefreshToken = []\<rparr>"

definition mintTokensFromCode ::
  "'s exchange \<Rightarrow> instant \<Rightarrow> string \<Rightarrow> string \<Rightarrow> string \<Rightarrow> AuthorizationCodeClaims \<Rightarrow> 's stores \<Rightarrow>
   (TokenSet \<times> goerror option) \<times> 's stores" where
  "mintTokensFromCode x now jti jti' newID claims st =
     (case userBindingSubject (x_kinds x) (x_ex x) (a_IDPClaims claims) (a_Subject claims) SiteAuthCode of
        (bs, Some e) \<Rightarrow> ((only_subject (a_Subject claims), Some e), st)
      | (bs, None) \<Rightarrow>
          (case subjectSigningContext x now (a_Subject claims) bs (st_resolve st) of
             (Inl e, s1) \<Rightarrow>
               ((only_subject (a_Subject claims), Some (server_error (''failed to resolve roles: '' @ err_msg e))),
                st\<lparr>st_resolve := s1\<rparr>)
           | (Inr (roles, entitlements, backend), s1) \<Rightarrow>
               (let st1 = st\<lparr>st_resolve := s1\<rparr>;
                    (granted, ctx) = applyScopeFilter (code_context (bs_Kind bs) claims roles entitlements backend) (a_Scope claims) []
                in case sign_pair x now jti jti' (a_ClientID claims) ctx granted of
                     Inl e \<Rightarrow> ((only_subject (a_Subject claims), Some e), st1)
                   | Inr pair \<Rightarrow>
                       (let ts = token_set pair granted (a_Subject claims)
                        in if \<not> x_cached x then ((ts, None), st1)
                           else (case createRefreshToken x now newID (code_refresh_claims claims (Join granted '' '')) (st_refresh st1) of
                                   (Inl e, s2) \<Rightarrow>
                                     ((only_subject [], Some (server_error (''failed to create refresh token: '' @ err_msg e))),
                                      st1\<lparr>st_refresh := s2\<rparr>)
                                 | (Inr tokenID, s2) \<Rightarrow> ((ts\<lparr>ts_RefreshToken := tokenID\<rparr>, None), st1\<lparr>st_refresh := s2\<rparr>))))))"

definition refresh_context ::
  "string \<Rightarrow> string \<Rightarrow> string \<Rightarrow> mapclaims \<Rightarrow> string list \<Rightarrow> string list \<Rightarrow> mapclaims \<Rightarrow> mapclaims" where
  "refresh_context kind subject authMethod idpClaims roles entitlements backend =
     (let c0 = [(''auth_method'', VStr authMethod), (''sub'', VStr subject), (ClaimSubjectKind, VStr kind)];
          c1 = maps_Copy c0 (filter (\<lambda>(k, v). k \<notin> set reservedMintClaims) idpClaims);
          c2 = (if authMethod = AuthMethodOIDC then AList.update ''idp'' (VStr ''oidc'') c1 else c1);
          c3 = AList.update ''roles'' (mergeIDPList (map_of c2 ''roles'') roles) c2;
          c4 = AList.update ''entitlements'' (mergeIDPList (map_of c3 ''entitlements'') entitlements) c3
      in mergeBackendClaims c4 backend)"

definition mintTokensFromSubject ::
  "'s exchange \<Rightarrow> instant \<Rightarrow> string \<Rightarrow> string \<Rightarrow> string \<Rightarrow> string \<Rightarrow> string \<Rightarrow> string \<Rightarrow> mapclaims \<Rightarrow> 's \<Rightarrow>
   (TokenSet \<times> mapclaims \<times> goerror option) \<times> 's" where
  "mintTokensFromSubject x now jti jti' subject clientID scope authMethod idpClaims s =
     (case userBindingSubject (x_kinds x) (x_ex x) idpClaims subject SiteRefresh of
        (bs, Some e) \<Rightarrow> ((only_subject subject, [], Some e), s)
      | (bs, None) \<Rightarrow>
          (case subjectSigningContext x now subject bs s of
             (Inl e, s1) \<Rightarrow> ((only_subject subject, [], Some (server_error (''failed to resolve roles: '' @ err_msg e))), s1)
           | (Inr (roles, entitlements, backend), s1) \<Rightarrow>
               (let (granted, ctx) = applyScopeFilter
                      (refresh_context (bs_Kind bs) subject authMethod idpClaims roles entitlements backend) scope []
                in case sign_pair x now jti jti' clientID ctx granted of
                     Inl e \<Rightarrow> ((only_subject subject, [], Some e), s1)
                   | Inr pair \<Rightarrow> ((token_set pair granted subject, ctx, None), s1))))"

section \<open>Event payloads\<close>

definition strings_or_none :: "goerror + string list \<Rightarrow> string list" where
  "strings_or_none r = (case r of Inl _ \<Rightarrow> [] | Inr xs \<Rightarrow> xs)"

definition loginPayload :: "string \<Rightarrow> mapclaims \<Rightarrow> string \<Rightarrow> string \<Rightarrow> string \<Rightarrow> string \<Rightarrow> EventPayload" where
  "loginPayload event ctx subject clientID scope authMethod =
     (empty_payload event)\<lparr>ep_Subject := subject, ep_ClientID := clientID, ep_Scope := scope, ep_AuthMethod := authMethod,
       ep_Roles := strings_or_none (GetRoles ctx), ep_Entitlements := strings_or_none (GetEntitlements ctx),
       ep_Claims := filter (\<lambda>(k, v). k \<noteq> ''roles'' \<and> k \<noteq> ''entitlements'') ctx\<rparr>"

definition EmitLogout ::
  "'s exchange \<Rightarrow> instant \<Rightarrow> int \<Rightarrow> string \<Rightarrow> 's \<Rightarrow>
   ((httpEventHook \<times> EventPayload) list \<times> (httpEventHook \<times> EventPayload) list) \<times> 's" where
  "EmitLogout x now nowMilli refreshTokenID s =
     (let (found, s1) = (if refreshTokenID \<noteq> [] then lookupRefreshClaims x now refreshTokenID s else (None, s));
          p = (case found of
                 None \<Rightarrow> empty_payload EventLogout
               | Some c \<Rightarrow> (empty_payload EventLogout)\<lparr>ep_Subject := r_Subject c, ep_ClientID := r_ClientID c, ep_Scope := r_Scope c,
                             ep_AuthMethod := r_AuthMethod c, ep_SessionID := refreshTokenID\<rparr>)
      in (Logout nowMilli (x_dispatcher x) p, s1))"

end
