(* ===== verification/Refresh.thy ===== *)
theory Refresh
  imports Mint
begin

text \<open>
  Refresh-token rotation: \<open>RedeemRefreshToken\<close>, \<open>RevokeRefreshToken\<close> and the compensating restore of
  \<open>src/internal/auth/exchange.go\<close>, the grace window of \<open>refreshgrace.go\<close>, and the classification of
  redemption errors of \<open>oautherr.go\<close>.

  The upstream identity provider is a parameter. What other requests do to the grace cache between two
  attempts of a poll is an argument of the poll, as are its clock and the cancellation of its context.
  Interleavings of redemptions, restores and revocations are the step relation of the last section.
\<close>

section \<open>The grace window\<close>

definition MaxRefreshGraceWindow :: duration where "MaxRefreshGraceWindow = 60 * second"
definition graceReplayAttempts :: nat where "graceReplayAttempts = 10"
definition graceFastBailoutAttempts :: nat where "graceFastBailoutAttempts = 3"

text \<open>The window \<open>NewExchanger\<close> applies.\<close>

definition grace_window :: "duration \<Rightarrow> duration" where
  "grace_window configured = min configured MaxRefreshGraceWindow"

definition graceCacheSet :: "'s exchange \<Rightarrow> instant \<Rightarrow> string \<Rightarrow> graceRecord \<Rightarrow> 's \<Rightarrow> goerror option \<times> 's" where
  "graceCacheSet x now tokenID rec s =
     (if \<not> x_grace x then (None, s)
      else case sc_MarshalGrace (x_codec x) rec of
             Inl e \<Rightarrow> (Some e, s)
           | Inr payload \<Rightarrow> op_Set (x_ops x) now tokenID payload [WithTTL (x_refreshGraceWindow x)] s)"

definition markGraceInFlight :: "'s exchange \<Rightarrow> instant \<Rightarrow> string \<Rightarrow> string \<Rightarrow> 's \<Rightarrow> goerror option \<times> 's" where
  "markGraceInFlight x now tokenID clientID s =
     graceCacheSet x now tokenID \<lparr>g_ClientID = clientID, g_Pending = True, g_TokenSet = only_subject []\<rparr> s"

definition clearGraceInFlight :: "'s exchange \<Rightarrow> string \<Rightarrow> 's \<Rightarrow> 's" where
  "clearGraceInFlight x tokenID s = (if x_grace x then snd (op_Delete (x_ops x) tokenID s) else s)"

definition publishToGrace :: "'s exchange \<Rightarrow> instant \<Rightarrow> string \<Rightarrow> string \<Rightarrow> TokenSet \<Rightarrow> 's \<Rightarrow> goerror option \<times> 's" where
  "publishToGrace x now tokenID clientID ts s =
     graceCacheSet x now tokenID \<lparr>g_ClientID = clientID, g_Pending = False, g_TokenSet = ts\<rparr> s"

text \<open>What surrounds a poll: the clock at each attempt, what the others did before it, and whether the
  context is cancelled after it.\<close>

record 's poll_env =
  pe_clock :: "nat \<Rightarrow> instant"
  pe_others :: "nat \<Rightarrow> 's \<Rightarrow> 's"
  pe_cancelled :: "nat \<Rightarrow> bool"

definition mismatch :: goerror where
  "mismatch = grantFailuref ''refresh token was not issued to this client''"

text \<open>What one attempt concludes from the entry it read.\<close>

datatype poll_verdict = Answer TokenSet bool "goerror option" | Wait bool

definition poll_entry ::
  "'s exchange \<Rightarrow> string \<Rightarrow> nat \<Rightarrow> bool \<Rightarrow> goerror + string \<times> bool \<times> bool \<Rightarrow> poll_verdict" where
  "poll_entry x clientID attempt sawInFlight r =
     (case r of
        Inl e \<Rightarrow> Answer (only_subject []) False (Some (server_error (''failed to read refresh-grace entry: '' @ err_msg e)))
      | Inr (raw, True, _) \<Rightarrow>
          (case sc_UnmarshalGrace (x_codec x) raw of
             Inl _ \<Rightarrow> Answer (only_subject []) False (Some (server_error ''failed to parse refresh-grace entry''))
           | Inr rec \<Rightarrow>
               if g_Pending rec then Wait True
               else if g_ClientID rec \<noteq> clientID
               then Answer (only_subject (ts_Subject (g_TokenSet rec))) False (Some mismatch)
               else Answer (g_TokenSet rec) True None)
      | Inr (_, False, _) \<Rightarrow>
          if sawInFlight then Answer (only_subject []) False None
          else if attempt = graceFastBailoutAttempts - 1 then Answer (only_subject []) False None
          else Wait False)"

text \<open>The attempts left are the recursion's argument.\<close>

fun replay_poll ::
  "'s exchange \<Rightarrow> 's poll_env \<Rightarrow> string \<Rightarrow> string \<Rightarrow> bool \<Rightarrow> nat \<Rightarrow> 's \<Rightarrow> (TokenSet \<times> bool \<times> goerror option) \<times> 's" where
  "replay_poll x E tokenID clientID saw 0 s = ((only_subject [], False, None), s)"
| "replay_poll x E tokenID clientID saw (Suc n) s =
     (let attempt = graceReplayAttempts - Suc n;
          (r, s1) = op_Get (x_ops x) (pe_clock E attempt) tokenID (pe_others E attempt s)
      in case poll_entry x clientID attempt saw r of
           Answer ts ok e \<Rightarrow> ((ts, ok, e), s1)
         | Wait saw' \<Rightarrow>
             if n = 0 then ((only_subject [], False, None), s1)
             else if pe_cancelled E attempt
             then ((only_subject [], False, Some (server_error ''refresh-grace replay canceled'')), s1)
             else replay_poll x E tokenID clientID saw' n s1)"

definition replayFromGrace ::
  "'s exchange \<Rightarrow> 's poll_env \<Rightarrow> string \<Rightarrow> string \<Rightarrow> 's \<Rightarrow> (TokenSet \<times> bool \<times> goerror option) \<times> 's" where
  "replayFromGrace x E tokenID clientID s =
     (if \<not> x_grace x then ((only_subject [], False, None), s)
      else replay_poll x E tokenID clientID False graceReplayAttempts s)"

section \<open>Revocation and restore\<close>

definition refreshRevokeTombstoneTTL :: duration where "refreshRevokeTombstoneTTL = 5 * minute"

definition refreshRevokeTombstoneKey :: "string \<Rightarrow> string" where
  "refreshRevokeTombstoneKey tokenID = ''revoked:'' @ tokenID"

definition grace_teardown :: "'s exchange \<Rightarrow> string \<Rightarrow> goerror + string \<times> bool \<times> bool \<Rightarrow> 's \<Rightarrow> 's" where
  "grace_teardown x tokenID r g =
     (let g1 = snd (op_Delete (x_ops x) tokenID g)
      in case r of
           Inr (raw, True, _) \<Rightarrow>
             (case decodeRefreshTokenClaims x raw of
                Some c \<Rightarrow> if r_PredecessorID c \<noteq> [] then snd (op_Delete (x_ops x) (r_PredecessorID c) g1) else g1
              | None \<Rightarrow> g1)
         | _ \<Rightarrow> g1)"

definition RevokeRefreshToken :: "'s exchange \<Rightarrow> instant \<Rightarrow> string \<Rightarrow> 's stores \<Rightarrow> goerror option \<times> 's stores" where
  "RevokeRefreshToken x now tokenID st =
     (if \<not> x_cached x then (None, st)
      else let (r, s1) = op_GetAndDelete (x_ops x) now tokenID (st_refresh st);
               s2 = snd (op_Set (x_ops x) now (refreshRevokeTombstoneKey tokenID) ''1'' [WithTTL refreshRevokeTombstoneTTL] s1);
               st1 = st\<lparr>st_refresh := s2\<rparr>;
               err = (case r of Inl e \<Rightarrow> Some e | Inr _ \<Rightarrow> None)
           in if x_grace x then (err, st1\<lparr>st_grace := grace_teardown x tokenID r (st_grace st1)\<rparr>) else (err, st1))"

text \<open>The two halves of the restore: reading the tombstone, and writing the record back.\<close>

definition restore_blocked :: "'s exchange \<Rightarrow> instant \<Rightarrow> string \<Rightarrow> 's \<Rightarrow> bool \<times> 's" where
  "restore_blocked x now tokenID s =
     (case op_Get (x_ops x) now (refreshRevokeTombstoneKey tokenID) s of
        (Inr (_, found, _), s1) \<Rightarrow> (found, s1)
      | (Inl _, s1) \<Rightarrow> (False, s1))"

definition restore_write :: "'s exchange \<Rightarrow> instant \<Rightarrow> string \<Rightarrow> string \<Rightarrow> RefreshTokenClaims \<Rightarrow> 's \<Rightarrow> 's" where
  "restore_write x now tokenID raw claims s =
     (let remaining = r_ExpiresAt claims * second - now
      in if remaining \<le> 0 then s else snd (op_Set (x_ops x) now tokenID raw [WithTTL remaining] s))"

definition restoreConsumedRefreshToken ::
  "'s exchange \<Rightarrow> instant \<Rightarrow> string \<Rightarrow> string \<Rightarrow> RefreshTokenClaims \<Rightarrow> 's \<Rightarrow> 's" where
  "restoreConsumedRefreshToken x now tokenID raw claims s =
     (if \<not> x_cached x then s
      else case restore_blocked x now tokenID s of
             (True, s1) \<Rightarrow> s1
           | (False, s1) \<Rightarrow> restore_write x now tokenID raw claims s1)"

section \<open>The checks on a consumed record\<close>

text \<open>Run a check and, unless it fails, the next.\<close>

definition check_then :: "goerror option \<times> 'a \<Rightarrow> ('a \<Rightarrow> goerror option \<times> 'a) \<Rightarrow> goerror option \<times> 'a" where
  "check_then r f = (case r of (Some e, s) \<Rightarrow> (Some e, s) | (None, s) \<Rightarrow> f s)"

definition refuseRevokedAuthentication ::
  "'s exchange \<Rightarrow> instant \<Rightarrow> string \<Rightarrow> int \<Rightarrow> 's \<Rightarrow> goerror option \<times> 's" where
  "refuseRevokedAuthentication x now sub authenticatedAt s =
     (case x_tokens x of
        None \<Rightarrow> (None, s)
      | Some (tm, hasStore) \<Rightarrow>
          (case SubjectRevokedSince (x_paseto x) (if hasStore then Some (x_ops x) else None) now sub (authenticatedAt * second) s of
             (Inl e, s1) \<Rightarrow> (Some (server_error (''subject revocation check failed: '' @ err_msg e)), s1)
           | (Inr True, s1) \<Rightarrow> (Some (grantFailuref ''session revoked''), s1)
           | (Inr False, s1) \<Rightarrow> (None, s1)))"

definition exchange_LookupClient ::
  "'s exchange \<Rightarrow> instant \<Rightarrow> string \<Rightarrow> 's \<Rightarrow> (goerror + AuthClient option) \<times> 's" where
  "exchange_LookupClient x now clientID s =
     LookupClient (x_url x) (x_clients x) (map_option (\<lambda>ttl. (x_ops x, ttl)) (x_dcr x)) (x_schemes x) now (Some (x_ex x)) clientID s"

definition consent_not_held_msg :: string where
  "consent_not_held_msg = ''the user'' @ [CHR 0x27] @ ''s consent for this client is not held''"

definition consent_check :: "'s exchange \<Rightarrow> instant \<Rightarrow> string \<Rightarrow> AuthClient \<Rightarrow> string \<Rightarrow> 's \<Rightarrow> goerror option \<times> 's" where
  "consent_check x now clientID client subject s =
     (if \<not> ac_RequireConsent client then (None, s)
      else case x_consent x of
             None \<Rightarrow> (Some (grantFailuref consent_not_held_msg), s)
           | Some ttl \<Rightarrow>
               (case HasClient (x_consents x) (x_ops x) ttl now subject clientID (ac_RedirectURIs client) s of
                  (Inl e, s1) \<Rightarrow> (Some (server_error (''consent lookup failed: '' @ err_msg e)), s1)
                | (Inr held, s1) \<Rightarrow>
                    (if held then None else Some (grantFailuref consent_not_held_msg), s1)))"

definition client_check :: "'s exchange \<Rightarrow> instant \<Rightarrow> string \<Rightarrow> string \<Rightarrow> 's stores \<Rightarrow> goerror option \<times> 's stores" where
  "client_check x now clientID subject st =
     (if clientID = [] then (None, st)
      else case exchange_LookupClient x now clientID (st_dcr st) of
             (Inl e, s1) \<Rightarrow> (Some (server_error (''client lookup failed: '' @ err_msg e)), st\<lparr>st_dcr := s1\<rparr>)
           | (Inr None, s1) \<Rightarrow> (Some (grantFailuref ''client is no longer registered''), st\<lparr>st_dcr := s1\<rparr>)
           | (Inr (Some client), s1) \<Rightarrow>
               (case consent_check x now clientID client subject (st_consent st) of
                  (e, s2) \<Rightarrow> (e, st\<lparr>st_dcr := s1, st_consent := s2\<rparr>)))"

definition redeem_checks ::
  "'s exchange \<Rightarrow> instant \<Rightarrow> string \<Rightarrow> RefreshTokenClaims \<Rightarrow> 's stores \<Rightarrow> goerror option \<times> 's stores" where
  "redeem_checks x now clientID claims st =
     (if Unix now > r_ExpiresAt claims then (Some (grantFailuref ''refresh token expired''), st)
      else if x_maxSessionAge x > 0 \<and> now - r_OriginalIssuedAt claims * second > x_maxSessionAge x
      then (Some (grantFailuref ''session absolute timeout reached''), st)
      else check_then
             (map_prod id (\<lambda>s. st\<lparr>st_revoked := s\<rparr>)
               (refuseRevokedAuthentication x now (r_Subject claims) (r_OriginalIssuedAt claims) (st_revoked st)))
             (\<lambda>st1. if r_ClientID claims \<noteq> clientID then (Some mismatch, st1)
                    else client_check x now clientID (r_Subject claims) st1))"

section \<open>The upstream claims\<close>

text \<open>The provider: the refresh grant (an error says whether it is \<open>invalid_grant\<close>), and the verified ID
  token with its claims.\<close>

record upstream_token =
  ut_IDToken :: "string option"
  ut_RefreshToken :: string

record idp_env =
  up_Configured :: bool
  up_Token :: "string \<Rightarrow> (bool \<times> goerror) + upstream_token"
  up_Verify :: "string \<Rightarrow> goerror + (goerror + mapclaims)"

definition errUpstreamGrantRevoked :: "string \<Rightarrow> goerror" where
  "errUpstreamGrantRevoked m = wrapf [ErrUpstreamGrantRevoked] (''the upstream refresh grant is no longer valid: '' @ m)"

definition refreshUpstreamClaims :: "'s exchange \<Rightarrow> idp_env \<Rightarrow> string \<Rightarrow> string \<Rightarrow> goerror + mapclaims \<times> string" where
  "refreshUpstreamClaims x U upstreamRefreshToken expectSubject =
     (if \<not> up_Configured U then Inl (errorf ''OIDC is not configured'')
      else case up_Token U upstreamRefreshToken of
             Inl (invalid_grant, e) \<Rightarrow>
               Inl (if invalid_grant then errUpstreamGrantRevoked ''invalid_grant''
                    else wrapf (err_is e) (''upstream refresh failed: '' @ err_msg e))
           | Inr token \<Rightarrow>
               (case ut_IDToken token of
                  None \<Rightarrow> Inl (errorf ''upstream refresh returned no id_token'')
                | Some raw \<Rightarrow>
                    (case up_Verify U raw of
                       Inl e \<Rightarrow> Inl (wrapf (err_is e) (''upstream refresh returned an unverifiable id_token: '' @ err_msg e))
                     | Inr (Inl e) \<Rightarrow> Inl (wrapf (err_is e) (''upstream refresh id_token claims are unreadable: '' @ err_msg e))
                     | Inr (Inr refreshed) \<Rightarrow>
                         if (case lib_GetSubject (x_lib x) refreshed of Inl _ \<Rightarrow> [] | Inr sub \<Rightarrow> sub) \<noteq> expectSubject
                         then Inl (errUpstreamGrantRevoked ''the refreshed id_token names a different subject'')
                         else Inr (idpClaimSnapshot refreshed, ut_RefreshToken token))))"

definition redeem_upstream :: "'s exchange \<Rightarrow> idp_env \<Rightarrow> RefreshTokenClaims \<Rightarrow> goerror + mapclaims \<times> string" where
  "redeem_upstream x U claims =
     (if r_UpstreamRefreshToken claims = [] then Inr (r_IDPClaims claims, [])
      else case refreshUpstreamClaims x U (r_UpstreamRefreshToken claims) (r_Subject claims) of
             Inl e \<Rightarrow> if errors_Is e ErrUpstreamGrantRevoked
                      then Inl (grantFailuref (''the identity provider rejected this session: '' @ err_msg e))
                      else Inr (r_IDPClaims claims, r_UpstreamRefreshToken claims)
           | Inr renewed \<Rightarrow> Inr renewed)"

section \<open>Redeeming a refresh token\<close>

definition rotated_claims :: "RefreshTokenClaims \<Rightarrow> mapclaims \<Rightarrow> string \<Rightarrow> string \<Rightarrow> RefreshTokenClaims" where
  "rotated_claims claims idpClaims upstreamRefreshToken tokenID =
     \<lparr>r_AuthMethod = r_AuthMethod claims, r_ClientID = r_ClientID claims, r_ExpiresAt = 0, r_IssuedAt = 0,
      r_OriginalIssuedAt = r_OriginalIssuedAt claims, r_PredecessorID = tokenID, r_Scope = r_Scope claims,
      r_Subject = r_Subject claims, r_IDPClaims = idpClaims, r_UpstreamRefreshToken = upstreamRefreshToken\<rparr>"

text \<open>The random values of one redemption: two JWT ids and the new record's id.\<close>

record fresh_ids =
  f_jti :: string
  f_jti' :: string
  f_newID :: string

text \<open>What a redemption returns: the token set, the error and the asynchronous event calls.\<close>

type_synonym redeemed = "TokenSet \<times> goerror option \<times> (httpEventHook \<times> EventPayload) list"

text \<open>The successful tail: publish the result and notify. The first component says whether it was
  published.\<close>

definition redeem_publish ::
  "'s exchange \<Rightarrow> instant \<Rightarrow> int \<Rightarrow> string \<Rightarrow> RefreshTokenClaims \<Rightarrow> TokenSet \<Rightarrow> mapclaims \<Rightarrow> 's stores \<Rightarrow>
   (bool \<times> redeemed) \<times> 's stores" where
  "redeem_publish x now nowMilli tokenID claims ts ctx st =
     (let (perr, g) = publishToGrace x now tokenID (r_ClientID claims) ts (st_grace st);
          p = (loginPayload EventSessionRefresh ctx (r_Subject claims) (r_ClientID claims) (ts_Scope ts)
                 (r_AuthMethod claims))\<lparr>ep_SessionID := ts_RefreshToken ts\<rparr>
      in ((perr = None, ts, None, NotifySessionRefresh nowMilli (x_dispatcher x) p), st\<lparr>st_grace := g\<rparr>))"

definition redeem_mint ::
  "'s exchange \<Rightarrow> instant \<Rightarrow> int \<Rightarrow> fresh_ids \<Rightarrow> string \<Rightarrow> RefreshTokenClaims \<Rightarrow> mapclaims \<Rightarrow> string \<Rightarrow> 's stores \<Rightarrow>
   (bool \<times> redeemed) \<times> 's stores" where
  "redeem_mint x now nowMilli F tokenID claims idpClaims upstream st =
     (case mintTokensFromSubject x now (f_jti F) (f_jti' F) (r_Subject claims) (r_ClientID claims) (r_Scope claims)
             (r_AuthMethod claims) idpClaims (st_resolve st) of
        ((_, _, Some e), s1) \<Rightarrow>
          ((False, only_subject (r_Subject claims),
            Some (wrapf (err_is e) (''failed to mint tokens from refresh: '' @ err_msg e)), []), st\<lparr>st_resolve := s1\<rparr>)
      | ((ts, ctx, None), s1) \<Rightarrow>
          (case createRefreshToken x now (f_newID F) (rotated_claims claims idpClaims upstream tokenID) (st_refresh st) of
             (Inl e, s2) \<Rightarrow>
               ((False, only_subject (r_Subject claims), Some (server_error (''failed to rotate refresh token: '' @ err_msg e)), []),
                st\<lparr>st_resolve := s1, st_refresh := s2\<rparr>)
           | (Inr newID, s2) \<Rightarrow>
               redeem_publish x now nowMilli tokenID claims (ts\<lparr>ts_RefreshToken := newID\<rparr>) ctx
                 (st\<lparr>st_resolve := s1, st_refresh := s2\<rparr>)))"

text \<open>Between the deferred cleanup's arming and the return.\<close>

definition redeem_body ::
  "'s exchange \<Rightarrow> idp_env \<Rightarrow> instant \<Rightarrow> int \<Rightarrow> fresh_ids \<Rightarrow> string \<Rightarrow> string \<Rightarrow> RefreshTokenClaims \<Rightarrow> 's stores \<Rightarrow>
   (bool \<times> redeemed) \<times> 's stores" where
  "redeem_body x U now nowMilli F tokenID clientID claims st =
     (let st0 = st\<lparr>st_grace := snd (markGraceInFlight x now tokenID (r_ClientID claims) (st_grace st))\<rparr>
      in case redeem_checks x now clientID claims st0 of
           (Some e, st1) \<Rightarrow> ((False, only_subject (r_Subject claims), Some e, []), st1)
         | (None, st1) \<Rightarrow>
             (case redeem_upstream x U claims of
                Inl e \<Rightarrow> ((False, only_subject (r_Subject claims), Some e, []), st1)
              | Inr (idpClaims, upstream) \<Rightarrow> redeem_mint x now nowMilli F tokenID claims idpClaims upstream st1))"

text \<open>The deferred cleanup.\<close>

definition redeem_finish ::
  "'s exchange \<Rightarrow> instant \<Rightarrow> string \<Rightarrow> string \<Rightarrow> RefreshTokenClaims \<Rightarrow> goerror option \<Rightarrow> bool \<Rightarrow> 's stores \<Rightarrow> 's stores" where
  "redeem_finish x now tokenID raw claims err published st =
     (let st1 = (case err of
                   Some e \<Rightarrow> if errors_Is e ErrServerError
                             then st\<lparr>st_refresh := restoreConsumedRefreshToken x now tokenID raw claims (st_refresh st)\<rparr> else st
                 | None \<Rightarrow> st)
      in if published then st1 else st1\<lparr>st_grace := clearGraceInFlight x tokenID (st_grace st1)\<rparr>)"

text \<open>The loser of a race, or a dead token: replay, then look whether the record came back.\<close>

definition redeem_lost ::
  "'s exchange \<Rightarrow> 's poll_env \<Rightarrow> instant \<Rightarrow> string \<Rightarrow> string \<Rightarrow> 's stores \<Rightarrow> redeemed \<times> 's stores" where
  "redeem_lost x E now tokenID clientID st =
     (let ((ts, ok, err), g) = replayFromGrace x E tokenID clientID (st_grace st);
          st1 = st\<lparr>st_grace := g\<rparr>
      in case err of
           Some e \<Rightarrow> ((ts, Some e, []), st1)
         | None \<Rightarrow>
             if ok then ((ts, None, []), st1)
             else let (r, s) = op_Get (x_ops x) now tokenID (st_refresh st1)
                  in (case r of
                        Inr (_, True, _) \<Rightarrow>
                          (only_subject [], Some (server_error ''a concurrent redemption of this refresh token failed and was rolled back; retry''), [])
                      | _ \<Rightarrow> (only_subject [], Some (grantFailuref ''refresh token not found or expired''), []),
                      st1\<lparr>st_refresh := s\<rparr>))"

definition RedeemRefreshToken ::
  "'s exchange \<Rightarrow> idp_env \<Rightarrow> 's poll_env \<Rightarrow> instant \<Rightarrow> int \<Rightarrow> fresh_ids \<Rightarrow> string \<Rightarrow> string \<Rightarrow> 's stores \<Rightarrow>
   redeemed \<times> 's stores" where
  "RedeemRefreshToken x U E now nowMilli F tokenID clientID st =
     (if \<not> x_cached x then ((only_subject [], Some (server_error ''refresh token storage not configured''), []), st)
      else case op_GetAndDelete (x_ops x) now tokenID (st_refresh st) of
             (Inl e, s1) \<Rightarrow> ((only_subject [], Some (server_error (''failed to read refresh token: '' @ err_msg e)), []), st\<lparr>st_refresh := s1\<rparr>)
           | (Inr (raw, found, _), s1) \<Rightarrow>
               (let st1 = st\<lparr>st_refresh := s1\<rparr>
                in if \<not> found then redeem_lost x E now tokenID clientID st1
                   else case sc_UnmarshalRefresh (x_codec x) raw of
                          Inl e \<Rightarrow> ((only_subject [], Some (server_error (''failed to parse refresh token: '' @ err_msg e)), []), st1)
                        | Inr claims \<Rightarrow>
                            (let ((published, ts, err, calls), st2) = redeem_body x U now nowMilli F tokenID clientID claims st1
                             in ((ts, err, calls), redeem_finish x now tokenID raw claims err published st2))))"

section \<open>Errors on the wire\<close>

definition genericServerErrorDescription :: string where
  "genericServerErrorDescription = ''the authorization server encountered an unexpected condition''"

definition genericGrantFailureDescription :: string where
  "genericGrantFailureDescription = ''the presented grant is invalid''"

definition oauthErrorForRedemption :: "goerror \<Rightarrow> nat \<times> string \<times> string" where
  "oauthErrorForRedemption err =
     (if errors_Is err ErrServerError then (500, ''server_error'', genericServerErrorDescription)
      else if errors_Is err ErrGrantFailure then (400, ''invalid_grant'', err_msg err)
      else (400, ''invalid_grant'', genericGrantFailureDescription))"

section \<open>Lemmas on one redemption\<close>

lemma server_error_is [simp]:
  "errors_Is (server_error m) ErrServerError" "\<not> errors_Is (server_error m) ErrGrantFailure"
  by (simp_all add: server_error_def wrapf_def errors_Is_def)

lemma grantFailuref_is [simp]:
  "errors_Is (grantFailuref m) ErrGrantFailure" "\<not> errors_Is (grantFailuref m) ErrServerError" "err_msg (grantFailuref m) = m"
  by (simp_all add: grantFailuref_def wrapf_def errors_Is_def)

lemma check_then_None: "check_then r f = (None, s) \<longleftrightarrow> (\<exists>s1. r = (None, s1) \<and> f s1 = (None, s))"
  by (auto simp: check_then_def split: prod.split option.split)

text \<open>What the checks of a redemption establish when they pass.\<close>

definition consent_holds :: "'s exchange \<Rightarrow> instant \<Rightarrow> string \<Rightarrow> string \<Rightarrow> 's stores \<Rightarrow> bool" where
  "consent_holds x now clientID subject st \<longleftrightarrow>
     clientID = [] \<or>
     (\<exists>client. fst (exchange_LookupClient x now clientID (st_dcr st)) = Inr (Some client) \<and>
        (ac_RequireConsent client \<longrightarrow>
           (\<exists>ttl. x_consent x = Some ttl \<and>
              fst (HasClient (x_consents x) (x_ops x) ttl now subject clientID (ac_RedirectURIs client) (st_consent st)) = Inr True)))"

lemma consent_check_passes:
  "consent_check x now clientID client subject s = (None, s') \<Longrightarrow> ac_RequireConsent client \<Longrightarrow>
   \<exists>ttl. x_consent x = Some ttl \<and>
     fst (HasClient (x_consents x) (x_ops x) ttl now subject clientID (ac_RedirectURIs client) s) = Inr True"
  by (auto simp: consent_check_def split: option.splits prod.splits sum.splits if_splits)

lemma client_check_passes:
  assumes "client_check x now clientID subject st = (None, st')"
  shows "consent_holds x now clientID subject st"
proof (cases "clientID = []")
  case False
  obtain r s1 where l: "exchange_LookupClient x now clientID (st_dcr st) = (r, s1)" by force
  obtain client where r: "r = Inr (Some client)"
    using assms False by (cases r; cases "projr r") (simp_all add: client_check_def l)
  obtain e s2 where c: "consent_check x now clientID client subject (st_consent st) = (e, s2)" by force
  have "e = None" using assms False by (simp add: client_check_def l r c)
  with c have "ac_RequireConsent client \<Longrightarrow> \<exists>ttl. x_consent x = Some ttl \<and>
      fst (HasClient (x_consents x) (x_ops x) ttl now subject clientID (ac_RedirectURIs client) (st_consent st)) = Inr True"
    by (intro consent_check_passes) simp_all
  then show ?thesis by (simp add: consent_holds_def l r)
qed (simp add: consent_holds_def)

text \<open>No revocation of the subject at or after its authentication is on record.\<close>

definition not_revoked_since :: "'s exchange \<Rightarrow> instant \<Rightarrow> string \<Rightarrow> int \<Rightarrow> 's \<Rightarrow> bool" where
  "not_revoked_since x now sub authenticatedAt s =
     (case x_tokens x of
        None \<Rightarrow> True
      | Some (tm, hasStore) \<Rightarrow>
          fst (SubjectRevokedSince (x_paseto x) (if hasStore then Some (x_ops x) else None) now sub (authenticatedAt * second) s) = Inr False)"

lemma revocation_check_passes:
  assumes "fst (refuseRevokedAuthentication x now sub authenticatedAt s) = None"
  shows "not_revoked_since x now sub authenticatedAt s"
proof (cases "x_tokens x")
  case (Some p)
  obtain tm hasStore where p: "p = (tm, hasStore)" by (cases p)
  obtain r s1 where r: "SubjectRevokedSince (x_paseto x) (if hasStore then Some (x_ops x) else None) now sub (authenticatedAt * second) s = (r, s1)"
    by force
  show ?thesis
    using assms by (cases r; cases "projr r") (simp_all add: refuseRevokedAuthentication_def not_revoked_since_def Some p r)
qed (simp add: not_revoked_since_def)

text \<open>No check touches the refresh records.\<close>

lemma client_check_refresh: "st_refresh (snd (client_check x now clientID subject st)) = st_refresh st"
  by (auto simp: client_check_def split: prod.split sum.split option.split)

lemma redeem_checks_refresh: "st_refresh (snd (redeem_checks x now clientID claims st)) = st_refresh st"
proof -
  have "st_refresh (snd (check_then (map_prod id (\<lambda>s. st\<lparr>st_revoked := s\<rparr>) r)
      (\<lambda>st1. if c then (Some mismatch, st1) else client_check x now clientID sub st1))) = st_refresh st" for r c sub
    by (cases r; cases "fst r") (auto simp: check_then_def client_check_refresh)
  then show ?thesis by (simp add: redeem_checks_def)
qed

lemma redeem_checks_pass:
  assumes "redeem_checks x now clientID claims st = (None, st')"
  shows "Unix now \<le> r_ExpiresAt claims"
    and "x_maxSessionAge x > 0 \<longrightarrow> now - r_OriginalIssuedAt claims * second \<le> x_maxSessionAge x"
    and "not_revoked_since x now (r_Subject claims) (r_OriginalIssuedAt claims) (st_revoked st)"
    and "r_ClientID claims = clientID"
    and "consent_holds x now clientID (r_Subject claims) st"
proof -
  have age: "\<not> Unix now > r_ExpiresAt claims" "\<not> (x_maxSessionAge x > 0 \<and> now - r_OriginalIssuedAt claims * second > x_maxSessionAge x)"
    using assms by (auto simp: redeem_checks_def split: if_splits)
  obtain s where s: "refuseRevokedAuthentication x now (r_Subject claims) (r_OriginalIssuedAt claims) (st_revoked st) = (None, s)"
    and c: "(if r_ClientID claims \<noteq> clientID then (Some mismatch, st\<lparr>st_revoked := s\<rparr>)
             else client_check x now clientID (r_Subject claims) (st\<lparr>st_revoked := s\<rparr>)) = (None, st')"
    using assms age by (auto simp: redeem_checks_def check_then_None map_prod_def split: prod.splits)
  then show "r_ClientID claims = clientID" by (simp split: if_splits)
  with c have "consent_holds x now clientID (r_Subject claims) (st\<lparr>st_revoked := s\<rparr>)" by (simp add: client_check_passes)
  then show "consent_holds x now clientID (r_Subject claims) st" by (simp add: consent_holds_def)
  show "Unix now \<le> r_ExpiresAt claims"
    "x_maxSessionAge x > 0 \<longrightarrow> now - r_OriginalIssuedAt claims * second \<le> x_maxSessionAge x" using age by auto
  show "not_revoked_since x now (r_Subject claims) (r_OriginalIssuedAt claims) (st_revoked st)"
    by (rule revocation_check_passes) (simp add: s)
qed

lemma mint_from_subject_success:
  assumes "mintTokensFromSubject x now jti jti' subject clientID scope am idp s = ((ts, ctx, None), s1)"
  shows "ts_Subject ts = subject" "ts_Scope ts = Join (granted_scopes scope []) '' ''"
proof -
  obtain bs e where u: "userBindingSubject (x_kinds x) (x_ex x) idp subject SiteRefresh = (bs, e)" by force
  have e: "e = None" using assms by (cases e) (simp_all add: mintTokensFromSubject_def u)
  obtain r s2 where r: "subjectSigningContext x now subject bs s = (r, s2)" by force
  obtain roles ents backend where rr: "r = Inr (roles, ents, backend)"
    using assms by (cases r; cases "projr r") (simp_all add: mintTokensFromSubject_def u e r)
  let ?c = "refresh_context (bs_Kind bs) subject am idp roles ents backend"
  obtain p where p: "sign_pair x now jti jti' clientID (snd (applyScopeFilter ?c scope [])) (granted_scopes scope []) = Inr p"
    using assms by (cases "sign_pair x now jti jti' clientID (snd (applyScopeFilter ?c scope [])) (granted_scopes scope [])")
      (simp_all add: mintTokensFromSubject_def u e r rr applyScopeFilter_def Let_def)
  have "ts = token_set p (granted_scopes scope []) subject"
    using assms p by (simp add: mintTokensFromSubject_def u e r rr applyScopeFilter_def Let_def)
  then show "ts_Subject ts = subject" "ts_Scope ts = Join (granted_scopes scope []) '' ''" by (simp_all add: token_set_def)
qed

lemma create_success:
  assumes "createRefreshToken x now newID claims s = (Inr i, s1)"
  shows "i = newID \<and> (\<exists>payload. sc_MarshalRefresh (x_codec x) (stamped x now claims) = Inr payload \<and>
    s1 = snd (op_Set (x_ops x) now newID payload [] s))"
proof -
  obtain payload where m: "sc_MarshalRefresh (x_codec x) (stamped x now claims) = Inr payload"
    using assms by (cases "sc_MarshalRefresh (x_codec x) (stamped x now claims)") (simp_all add: createRefreshToken_def)
  obtain e s2 where o: "op_Set (x_ops x) now newID payload [] s = (e, s2)" by force
  show ?thesis using assms o by (cases e) (auto simp: createRefreshToken_def m)
qed

text \<open>The record a rotation writes.\<close>

definition successor_written ::
  "'s exchange \<Rightarrow> instant \<Rightarrow> fresh_ids \<Rightarrow> string \<Rightarrow> RefreshTokenClaims \<Rightarrow> 's \<Rightarrow> 's \<Rightarrow> bool" where
  "successor_written x now F tokenID claims s s' \<longleftrightarrow>
     (\<exists>idp up payload. sc_MarshalRefresh (x_codec x) (stamped x now (rotated_claims claims idp up tokenID)) = Inr payload \<and>
        s' = snd (op_Set (x_ops x) now (f_newID F) payload [] s))"

lemma redeem_mint_success:
  assumes "redeem_mint x now nowMilli F tokenID claims idp up st = ((pub, ts, None, calls), st')"
  shows "ts_Subject ts = r_Subject claims \<and> ts_RefreshToken ts = f_newID F \<and>
    ts_Scope ts = Join (granted_scopes (r_Scope claims) []) '' '' \<and>
    successor_written x now F tokenID claims (st_refresh st) (st_refresh st')"
proof -
  obtain ts0 ctx e s1 where m: "mintTokensFromSubject x now (f_jti F) (f_jti' F) (r_Subject claims) (r_ClientID claims) (r_Scope claims)
      (r_AuthMethod claims) idp (st_resolve st) = ((ts0, ctx, e), s1)" by (metis prod_cases3 surj_pair)
  have e: "e = None" using assms by (cases e) (simp_all add: redeem_mint_def m)
  obtain r s2 where c: "createRefreshToken x now (f_newID F) (rotated_claims claims idp up tokenID) (st_refresh st) = (r, s2)" by force
  obtain i where r: "r = Inr i" using assms by (cases r) (simp_all add: redeem_mint_def m e c)
  note w = create_success [OF c [unfolded r]]
  have "ts = ts0\<lparr>ts_RefreshToken := i\<rparr>" "st_refresh st' = s2"
    using assms by (auto simp: redeem_mint_def m e c r redeem_publish_def Let_def split: prod.splits)
  then show ?thesis
    using w mint_from_subject_success [OF m [unfolded e]] unfolding successor_written_def by auto
qed

text \<open>A consumed record is redeemed by its body and the deferred cleanup.\<close>

lemma redeem_found:
  assumes "x_cached x" and "op_GetAndDelete (x_ops x) now tokenID (st_refresh st) = (Inr (raw, True, cur), s1)"
    and "sc_UnmarshalRefresh (x_codec x) raw = Inr claims"
    and "redeem_body x U now nowMilli F tokenID clientID claims (st\<lparr>st_refresh := s1\<rparr>) = ((pub, ts, err, calls), st2)"
  shows "RedeemRefreshToken x U E now nowMilli F tokenID clientID st =
    ((ts, err, calls), redeem_finish x now tokenID raw claims err pub st2)"
  using assms by (simp add: RedeemRefreshToken_def Let_def)

text \<open>What the body of a successful redemption established.\<close>

lemma redeem_body_success:
  assumes "redeem_body x U now nowMilli F tokenID clientID claims st = ((pub, ts, None, calls), st')"
  shows "\<exists>st1. redeem_checks x now clientID claims
       (st\<lparr>st_grace := snd (markGraceInFlight x now tokenID (r_ClientID claims) (st_grace st))\<rparr>) = (None, st1) \<and>
     (\<exists>idp up. redeem_upstream x U claims = Inr (idp, up) \<and>
        redeem_mint x now nowMilli F tokenID claims idp up st1 = ((pub, ts, None, calls), st'))"
proof -
  let ?st0 = "st\<lparr>st_grace := snd (markGraceInFlight x now tokenID (r_ClientID claims) (st_grace st))\<rparr>"
  obtain e st1 where c: "redeem_checks x now clientID claims ?st0 = (e, st1)" by force
  have e: "e = None" using assms by (cases e) (simp_all add: redeem_body_def c Let_def)
  obtain p where u: "redeem_upstream x U claims = Inr p"
    using assms by (cases "redeem_upstream x U claims") (simp_all add: redeem_body_def c e Let_def)
  show ?thesis
    using assms c e u by (cases p) (simp add: redeem_body_def Let_def)
qed

lemma redeem_upstream_passes:
  "redeem_upstream x U claims = Inr p \<Longrightarrow> r_UpstreamRefreshToken claims \<noteq> [] \<Longrightarrow>
   refreshUpstreamClaims x U (r_UpstreamRefreshToken claims) (r_Subject claims) = Inl e \<Longrightarrow> \<not> errors_Is e ErrUpstreamGrantRevoked"
  by (auto simp: redeem_upstream_def)

lemma redeem_finish_success: "st_refresh (redeem_finish x now tokenID raw claims None pub st) = st_refresh st"
  by (simp add: redeem_finish_def Let_def)

lemma tombstone_key_differs [simp]: "refreshRevokeTombstoneKey tokenID \<noteq> tokenID" "tokenID \<noteq> refreshRevokeTombstoneKey tokenID"
proof -
  have "length (refreshRevokeTombstoneKey tokenID) \<noteq> length tokenID" by (simp add: refreshRevokeTombstoneKey_def)
  then show "refreshRevokeTombstoneKey tokenID \<noteq> tokenID" "tokenID \<noteq> refreshRevokeTombstoneKey tokenID" by metis+
qed

context ttl_store
begin

text \<open>A rejected redemption has written no refresh record.\<close>

lemma create_fails:
  assumes "inv s" and "x_ops x = ops" and "createRefreshToken x now i claims s = (Inl e, s1)"
  shows "s1 = s"
proof (cases "sc_MarshalRefresh (x_codec x) (stamped x now claims)")
  case (Inr payload)
  obtain r s2 where o: "op_Set ops now i payload [] s = (r, s2)" by force
  have "r = None" using set_result [OF assms(1), of now i payload "[]"] by (simp add: o)
  then show ?thesis using assms(2,3) by (simp add: createRefreshToken_def Inr o)
qed (use assms in \<open>simp add: createRefreshToken_def\<close>)

lemma redeem_mint_fails:
  assumes "inv (st_refresh st)" and "x_ops x = ops"
    and "redeem_mint x now nowMilli F tokenID claims idp up st = ((pub, ts, Some e, calls), st')"
  shows "st_refresh st' = st_refresh st"
proof -
  obtain ts0 ctx err s1 where m: "mintTokensFromSubject x now (f_jti F) (f_jti' F) (r_Subject claims) (r_ClientID claims) (r_Scope claims)
      (r_AuthMethod claims) idp (st_resolve st) = ((ts0, ctx, err), s1)" by (metis prod_cases3 surj_pair)
  show ?thesis
  proof (cases err)
    case None
    obtain r s2 where c: "createRefreshToken x now (f_newID F) (rotated_claims claims idp up tokenID) (st_refresh st) = (r, s2)" by force
    obtain e' where r: "r = Inl e'"
      using assms(3) by (cases r) (simp_all add: redeem_mint_def m None c redeem_publish_def Let_def split: prod.splits)
    show ?thesis
      using assms(3) create_fails [OF assms(1,2) c [unfolded r]] by (auto simp: redeem_mint_def m None c r)
  qed (use assms(3) in \<open>auto simp: redeem_mint_def m\<close>)
qed

lemma redeem_body_fails:
  assumes "inv (st_refresh st)" and "x_ops x = ops"
    and "redeem_body x U now nowMilli F tokenID clientID claims st = ((pub, ts, Some e, calls), st')"
  shows "st_refresh st' = st_refresh st"
proof -
  let ?st0 = "st\<lparr>st_grace := snd (markGraceInFlight x now tokenID (r_ClientID claims) (st_grace st))\<rparr>"
  obtain err st1 where c: "redeem_checks x now clientID claims ?st0 = (err, st1)" by force
  have k: "st_refresh st1 = st_refresh st" using redeem_checks_refresh [of x now clientID claims ?st0] by (simp add: c)
  show ?thesis
  proof (cases err)
    case None
    show ?thesis
    proof (cases "redeem_upstream x U claims")
      case (Inr p)
      obtain idp up where p: "p = (idp, up)" by (cases p)
      have "redeem_mint x now nowMilli F tokenID claims idp up st1 = ((pub, ts, Some e, calls), st')"
        using assms(3) by (simp add: redeem_body_def c None Inr p Let_def)
      then show ?thesis using redeem_mint_fails [of st1 x] assms(1,2) k by metis
    qed (use assms(3) k in \<open>auto simp: redeem_body_def c None Let_def\<close>)
  qed (use assms(3) k in \<open>auto simp: redeem_body_def c Let_def\<close>)
qed

lemma restore_is:
  assumes "inv s" and "x_ops x = ops" and "x_cached x"
  shows "view t' (restoreConsumedRefreshToken x now tokenID raw claims s) tokenID =
    (if view now s (refreshRevokeTombstoneKey tokenID) = None \<and> now < r_ExpiresAt claims * second
     then (if t' \<le> r_ExpiresAt claims * second then Some raw else None)
     else view t' s tokenID)"
proof -
  let ?k = "refreshRevokeTombstoneKey tokenID"
  obtain r s1 where g: "op_Get ops now ?k s = (r, s1)" by force
  have r: "r = Inr (found_result (view now s ?k))" using get_result [OF assms(1), of now ?k] by (simp add: g)
  have i: "inv s1" using get_inv [OF assms(1), of now ?k] by (simp add: g)
  have v: "view t s1 = view t s" for t using get_view [OF assms(1), of t now ?k] by (simp add: g)
  show ?thesis
    using assms(2,3) g r i v
    by (cases "view now s ?k") (simp_all add: restoreConsumedRefreshToken_def restore_blocked_def restore_write_def Let_def
        set_self ttl_deadline)
qed

lemma failed_redemption:
  assumes "inv (st_refresh st)" and "x_ops x = ops" and "x_cached x"
    and "view now (st_refresh st) tokenID = Some raw" and "sc_UnmarshalRefresh (x_codec x) raw = Inr claims"
    and "RedeemRefreshToken x U E now nowMilli F tokenID clientID st = ((ts, Some e, calls), st')"
  shows "view t' (st_refresh st') tokenID =
    (if errors_Is e ErrServerError \<and> view now (st_refresh st) (refreshRevokeTombstoneKey tokenID) = None \<and>
        now < r_ExpiresAt claims * second \<and> t' \<le> r_ExpiresAt claims * second
     then Some raw else None)"
proof -
  let ?k = "refreshRevokeTombstoneKey tokenID"
  obtain r s1 where g: "op_GetAndDelete ops now tokenID (st_refresh st) = (r, s1)" by force
  have r: "r = Inr (raw, True, True)" using take_result [OF assms(1), of now tokenID] assms(4) by (simp add: g)
  have i: "inv s1" using take_inv [OF assms(1), of now tokenID] by (simp add: g)
  have dead: "view t s1 tokenID = None" for t using take_self [OF assms(1), of now tokenID t] assms(4) by (simp add: g)
  have tomb: "view now s1 ?k = view now (st_refresh st) ?k" using take_other [OF assms(1), of ?k tokenID now now] by (simp add: g)
  obtain pub ts2 err calls2 st2 where b: "redeem_body x U now nowMilli F tokenID clientID claims (st\<lparr>st_refresh := s1\<rparr>) =
      ((pub, ts2, err, calls2), st2)" by (metis prod_cases3 surj_pair)
  have eq: "err = Some e" "st' = redeem_finish x now tokenID raw claims err pub st2"
    using assms(2,3,5,6) redeem_found [of x now tokenID st raw True s1 claims U nowMilli F clientID pub ts2 err calls2 st2 E] g r b by auto
  have k: "st_refresh st2 = s1" using redeem_body_fails [OF _ assms(2) b [unfolded eq(1)]] i by simp
  have "st_refresh st' = (if errors_Is e ErrServerError then restoreConsumedRefreshToken x now tokenID raw claims s1 else s1)"
    by (simp add: eq redeem_finish_def Let_def k)
  then show ?thesis using restore_is [OF i assms(2,3), of t' now tokenID raw claims] dead tomb by auto
qed

end

section \<open>Lemmas on the grace window\<close>

text \<open>A published result for this client, as an attempt may read it.\<close>

definition published_for :: "'s exchange \<Rightarrow> string \<Rightarrow> TokenSet \<Rightarrow> goerror + string \<times> bool \<times> bool \<Rightarrow> bool" where
  "published_for x clientID ts r \<longleftrightarrow>
     (\<exists>raw cur rec. r = Inr (raw, True, cur) \<and> sc_UnmarshalGrace (x_codec x) raw = Inr rec \<and>
        \<not> g_Pending rec \<and> g_ClientID rec = clientID \<and> g_TokenSet rec = ts)"

definition pending_read :: "'s exchange \<Rightarrow> goerror + string \<times> bool \<times> bool \<Rightarrow> bool" where
  "pending_read x r \<longleftrightarrow> (\<exists>raw cur rec. r = Inr (raw, True, cur) \<and> sc_UnmarshalGrace (x_codec x) raw = Inr rec \<and> g_Pending rec)"

definition missed_read :: "goerror + string \<times> bool \<times> bool \<Rightarrow> bool" where
  "missed_read r \<longleftrightarrow> (\<exists>raw cur. r = Inr (raw, False, cur))"

lemma poll_entry_answer:
  assumes "poll_entry x clientID a saw r = Answer ts True None"
  shows "published_for x clientID ts r"
proof (cases r)
  case (Inr p)
  obtain raw found cur where p: "p = (raw, found, cur)" by (cases p)
  have f: "found" using assms by (cases found) (simp_all add: poll_entry_def Inr p split: if_splits)
  show ?thesis
    using assms by (cases "sc_UnmarshalGrace (x_codec x) raw")
      (auto simp: poll_entry_def published_for_def Inr p f split: if_splits)
qed (use assms in \<open>simp add: poll_entry_def\<close>)

lemma poll_entry_published: "published_for x clientID ts r \<Longrightarrow> poll_entry x clientID a saw r = Answer ts True None"
  by (auto simp: poll_entry_def published_for_def)

lemma poll_entry_pending: "pending_read x r \<Longrightarrow> poll_entry x clientID a saw r = Wait True"
  by (auto simp: poll_entry_def pending_read_def)

lemma poll_entry_missed: "missed_read r \<Longrightarrow> a < 2 \<Longrightarrow> poll_entry x clientID a False r = Wait False"
  by (auto simp: poll_entry_def missed_read_def graceFastBailoutAttempts_def)

lemma replay_poll_answer:
  assumes "replay_poll x E tokenID clientID saw n s = ((ts, True, None), s')"
  shows "\<exists>a s0. published_for x clientID ts (fst (op_Get (x_ops x) (pe_clock E a) tokenID (pe_others E a s0)))"
  using assms
proof (induction n arbitrary: saw s)
  case (Suc n)
  let ?a = "graceReplayAttempts - Suc n"
  obtain r s1 where g: "op_Get (x_ops x) (pe_clock E ?a) tokenID (pe_others E ?a s) = (r, s1)" by force
  show ?case
  proof (cases "poll_entry x clientID ?a saw r")
    case (Answer ts2 ok e)
    have "ts2 = ts" "ok" "e = None" using Suc.prems by (simp_all add: g Answer Let_def)
    then have "published_for x clientID ts r" using Answer poll_entry_answer by simp
    then show ?thesis using g by (metis fst_conv)
  next
    case (Wait saw')
    have "replay_poll x E tokenID clientID saw' n s1 = ((ts, True, None), s')"
      using Suc.prems by (simp add: g Wait Let_def split: if_splits)
    then show ?thesis by (rule Suc.IH)
  qed
qed simp

text \<open>The grace cache as the poll finds it before attempt \<open>a\<close>, and what the attempt reads.\<close>

primrec polled :: "'s exchange \<Rightarrow> 's poll_env \<Rightarrow> string \<Rightarrow> 's \<Rightarrow> nat \<Rightarrow> 's" where
  "polled x E tokenID s 0 = s"
| "polled x E tokenID s (Suc a) =
     snd (op_Get (x_ops x) (pe_clock E a) tokenID (pe_others E a (polled x E tokenID s a)))"

definition read_at :: "'s exchange \<Rightarrow> 's poll_env \<Rightarrow> string \<Rightarrow> 's \<Rightarrow> nat \<Rightarrow> goerror + string \<times> bool \<times> bool" where
  "read_at x E tokenID s a = fst (op_Get (x_ops x) (pe_clock E a) tokenID (pe_others E a (polled x E tokenID s a)))"

text \<open>At most two misses, then the marker, then the result: the poll gets there.\<close>

lemma replay_poll_waits:
  assumes "j < graceReplayAttempts" and "\<forall>a < j. \<not> pe_cancelled E a" and "m \<le> 2" and "m \<le> j"
    and "\<forall>a < m. missed_read (read_at x E tokenID s a)" and "\<forall>a. m \<le> a \<and> a < j \<longrightarrow> pending_read x (read_at x E tokenID s a)"
    and "published_for x clientID ts (read_at x E tokenID s j)" and "a \<le> j"
  shows "\<exists>s'. replay_poll x E tokenID clientID (m < a) (graceReplayAttempts - a) (polled x E tokenID s a) = ((ts, True, None), s')"
  using assms(8)
proof (induction a rule: inc_induct)
  case base
  obtain n where n: "graceReplayAttempts - j = Suc n" using assms(1) by (metis Suc_diff_Suc)
  then have "graceReplayAttempts - Suc n = j" using assms(1) by arith
  moreover obtain r s1 where g: "op_Get (x_ops x) (pe_clock E j) tokenID (pe_others E j (polled x E tokenID s j)) = (r, s1)" by force
  moreover have "poll_entry x clientID j (m < j) r = Answer ts True None"
    using poll_entry_published assms(7) by (simp add: read_at_def g)
  ultimately show ?case using n by (simp add: Let_def)
next
  case (step a)
  obtain n where n: "graceReplayAttempts - a = Suc n" "graceReplayAttempts - Suc a = n" "n \<noteq> 0"
    using assms(1) step.hyps by (metis Suc_diff_Suc Suc_lessD diff_is_0_eq le_less_trans less_Suc_eq_le not_less)
  then have a: "graceReplayAttempts - Suc n = a" using assms(1) step.hyps by arith
  obtain r s1 where g: "op_Get (x_ops x) (pe_clock E a) tokenID (pe_others E a (polled x E tokenID s a)) = (r, s1)" by force
  have "poll_entry x clientID a (m < a) r = Wait (m < Suc a)"
  proof (cases "a < m")
    case True
    then have "missed_read (read_at x E tokenID s a)" using assms(5) by simp
    then have "missed_read r" by (simp add: read_at_def g)
    with True assms(3) show ?thesis by (simp add: poll_entry_missed)
  next
    case False
    then have "pending_read x (read_at x E tokenID s a)" using assms(6) step.hyps by simp
    then have "pending_read x r" by (simp add: read_at_def g)
    with False show ?thesis by (simp add: poll_entry_pending)
  qed
  then show ?case using step.IH assms(2) step.hyps by (simp add: n a g Let_def)
qed

section \<open>A concrete exchanger\<close>

definition demo_app :: AuthClient where
  "demo_app = \<lparr>ac_AllowedGrantTypes = [], ac_AllowedScopes = [], ac_AllowedResources = [], ac_ClientID = ''app'', ac_ClientSecret = [],
     ac_Description = [], ac_Name = [], ac_Public = True, ac_RedirectURIs = [''https://app/cb''], ac_RequireConsent = False, ac_RequirePKCE = True\<rparr>"

definition demo_record :: RefreshTokenClaims where
  "demo_record = \<lparr>r_AuthMethod = ''oauth2'', r_ClientID = ''app'', r_ExpiresAt = 3600, r_IssuedAt = 5, r_OriginalIssuedAt = 5,
     r_PredecessorID = [], r_Scope = ''openid'', r_Subject = ''alice'', r_IDPClaims = [], r_UpstreamRefreshToken = []\<rparr>"

definition demo_tokens :: TokenSet where
  "demo_tokens = \<lparr>ts_AccessToken = ''at'', ts_IDToken = [], ts_RefreshToken = ''n'', ts_Scope = ''openid'', ts_Subject = ''alice''\<rparr>"

text \<open>One refresh record, a pending marker, a published result and one code can be read back.\<close>

definition demo_session_codec :: session_codec where
  "demo_session_codec =
     \<lparr>sc_MarshalRefresh = (\<lambda>c. Inr ''r''), sc_UnmarshalRefresh = (\<lambda>s. if s = ''r'' then Inr demo_record else Inl (errorf ''json'')),
      sc_MarshalGrace = (\<lambda>g. Inr (if g_Pending g then ''p'' else ''g'')),
      sc_UnmarshalGrace = (\<lambda>s. if s = ''p'' then Inr \<lparr>g_ClientID = ''app'', g_Pending = True, g_TokenSet = only_subject []\<rparr>
         else if s = ''g'' then Inr \<lparr>g_ClientID = ''app'', g_Pending = False, g_TokenSet = demo_tokens\<rparr> else Inl (errorf ''json'')),
      sc_MarshalCode = (\<lambda>c. Inr ''c''), sc_UnmarshalCode = (\<lambda>s. Inl (errorf ''json'')),
      sc_MarshalClaims = (\<lambda>c. Inr ''m''), sc_UnmarshalClaims = (\<lambda>s. Inl (errorf ''json''))\<rparr>"

definition demo_exchange :: "InMemoryCache exchange" where
  "demo_exchange =
     \<lparr>x_ex = demo_exchanger\<lparr>e_Clients := [(''app'', demo_app)]\<rparr>, x_kinds = demo_kinds, x_enabled = (\<lambda>_. False), x_sp = None,
      x_lib = demo_lib, x_signer = demo_signer, x_codec = demo_session_codec, x_ops = mem_ops, x_cached = True, x_grace = True,
      x_refreshTokenTTL = hour, x_refreshGraceWindow = 10 * second, x_maxSessionAge = 24 * hour, x_paseto = demo_paseto,
      x_tokens = Some (demo_token_manager, True), x_url = demo_url, x_clients = demo_client_codec, x_schemes = [], x_dcr = None,
      x_consents = demo_consent, x_consent = None, x_dispatcher = None\<rparr>"

definition demo_class :: "string \<Rightarrow> InMemoryCache" where
  "demo_class name = new_cache name \<lparr>o_MaxItems = Some 0, o_TTL = Some hour, o_Uncycled = True\<rparr> (NewCacheManager ''host'' None)"

lemma demo_class_unbounded: "unbounded (demo_class name)"
  by (auto simp: demo_class_def unbounded_def surviving_def new_cache_def nonneg_def seg_of_def)

definition demo_stores :: "InMemoryCache stores" where
  "demo_stores =
     \<lparr>st_refresh = cache_Set 0 ''T'' ''r'' [] (demo_class ''refresh-tokens''), st_grace = demo_class ''refresh-grace'',
      st_codes = demo_class ''auth-codes'', st_resolve = demo_class ''subject-resolve'', st_revoked = demo_class ''revoked'',
      st_dcr = demo_class ''dcr'', st_consent = demo_class ''consent''\<rparr>"

definition demo_idp :: idp_env where
  "demo_idp = \<lparr>up_Configured = False, up_Token = (\<lambda>_. Inl (False, errorf ''down'')), up_Verify = (\<lambda>_. Inl (errorf ''down''))\<rparr>"

definition demo_poll :: "InMemoryCache poll_env" where
  "demo_poll = \<lparr>pe_clock = (\<lambda>a. int a), pe_others = (\<lambda>a s. s), pe_cancelled = (\<lambda>_. False)\<rparr>"

definition demo_ids :: fresh_ids where
  "demo_ids = \<lparr>f_jti = ''j1'', f_jti' = ''j2'', f_newID = ''N''\<rparr>"

section \<open>Properties\<close>

text \<open>C23: a rotation is granted only to the session it belongs to. If a live refresh record is redeemed
  successfully, the record was issued to the presenting client and has not expired, the session is within
  its absolute age, no revocation of the subject since its authentication is on record, the client is
  still registered and holds the user's consent where it needs it, and the identity provider has not
  revoked the upstream grant; the new tokens name the record's subject with no wider scope, and the stored
  successor keeps its client, scope, subject and authentication time and records its predecessor.\<close>

theorem rotation_sound:
  assumes "op_GetAndDelete (x_ops x) now tokenID (st_refresh st) = (Inr (raw, True, cur), s1)"
    and "RedeemRefreshToken x U E now nowMilli F tokenID clientID st = ((ts, None, calls), st')"
  shows "\<exists>claims. sc_UnmarshalRefresh (x_codec x) raw = Inr claims \<and> r_ClientID claims = clientID \<and>
    Unix now \<le> r_ExpiresAt claims \<and>
    (x_maxSessionAge x > 0 \<longrightarrow> now - r_OriginalIssuedAt claims * second \<le> x_maxSessionAge x) \<and>
    not_revoked_since x now (r_Subject claims) (r_OriginalIssuedAt claims) (st_revoked st) \<and>
    consent_holds x now clientID (r_Subject claims) st \<and>
    (r_UpstreamRefreshToken claims \<noteq> [] \<longrightarrow>
       (\<forall>e. refreshUpstreamClaims x U (r_UpstreamRefreshToken claims) (r_Subject claims) = Inl e \<longrightarrow>
          \<not> errors_Is e ErrUpstreamGrantRevoked)) \<and>
    ts_Subject ts = r_Subject claims \<and> ts_RefreshToken ts = f_newID F \<and>
    ts_Scope ts = Join (granted_scopes (r_Scope claims) []) '' '' \<and>
    successor_written x now F tokenID claims s1 (st_refresh st')"
proof -
  have c: "x_cached x" using assms(2) by (cases "x_cached x") (simp_all add: RedeemRefreshToken_def)
  obtain claims where k: "sc_UnmarshalRefresh (x_codec x) raw = Inr claims"
    using assms c by (cases "sc_UnmarshalRefresh (x_codec x) raw") (simp_all add: RedeemRefreshToken_def Let_def)
  let ?st1 = "st\<lparr>st_refresh := s1\<rparr>"
  obtain pub ts2 err calls2 st2 where b: "redeem_body x U now nowMilli F tokenID clientID claims ?st1 = ((pub, ts2, err, calls2), st2)"
    by (metis prod_cases3 surj_pair)
  have eq: "ts2 = ts" "err = None" "st' = redeem_finish x now tokenID raw claims None pub st2"
    using redeem_found [OF c assms(1) k b, of E] assms(2) by auto
  obtain st3 idp up where q: "redeem_checks x now clientID claims
        (?st1\<lparr>st_grace := snd (markGraceInFlight x now tokenID (r_ClientID claims) (st_grace ?st1))\<rparr>) = (None, st3)"
      and u: "redeem_upstream x U claims = Inr (idp, up)"
      and m: "redeem_mint x now nowMilli F tokenID claims idp up st3 = ((pub, ts, None, calls2), st2)"
    using redeem_body_success [of x U now nowMilli F tokenID clientID claims ?st1 pub ts calls2 st2] b eq by metis
  have r: "st_refresh st3 = s1"
    using redeem_checks_refresh [of x now clientID claims "?st1\<lparr>st_grace := snd (markGraceInFlight x now tokenID (r_ClientID claims) (st_grace ?st1))\<rparr>"] q
    by simp
  have w: "st_refresh st' = st_refresh st2" by (simp add: eq(3) redeem_finish_success)
  note P = redeem_checks_pass [OF q]
  have h: "consent_holds x now clientID (r_Subject claims) st" using P(5) by (simp add: consent_holds_def)
  show ?thesis
    using k P(1-4) h redeem_upstream_passes [OF u] redeem_mint_success [OF m] r w by (intro exI [of _ claims]) simp
qed

theorem rotation_sound_witness:
  "ts_RefreshToken (fst (fst (RedeemRefreshToken demo_exchange demo_idp demo_poll minute 60000 demo_ids ''T'' ''app'' demo_stores))) = ''N'' \<and>
   ts_Scope (fst (fst (RedeemRefreshToken demo_exchange demo_idp demo_poll minute 60000 demo_ids ''T'' ''app'' demo_stores))) = ''openid''"
proof -
  let ?r = "RedeemRefreshToken demo_exchange demo_idp demo_poll minute 60000 demo_ids ''T'' ''app'' demo_stores"
  have t: "fst (op_GetAndDelete (x_ops demo_exchange) minute ''T'' (st_refresh demo_stores)) = Inr (''r'', True, True)" by code_simp
  then obtain s1 where t: "op_GetAndDelete (x_ops demo_exchange) minute ''T'' (st_refresh demo_stores) = (Inr (''r'', True, True), s1)"
    by (metis prod.collapse)
  have "fst (snd (fst ?r)) = None" by code_simp
  then have r: "?r = ((fst (fst ?r), None, snd (snd (fst ?r))), snd ?r)" by (metis prod.collapse)
  have g: "Join (granted_scopes (r_Scope demo_record) []) '' '' = ''openid''" "f_newID demo_ids = ''N''" by code_simp+
  have "sc_UnmarshalRefresh (x_codec demo_exchange) ''r'' = Inr demo_record" by (simp add: demo_exchange_def demo_session_codec_def)
  with rotation_sound [OF t r] g show ?thesis by auto
qed


text \<open>An exchanger whose signer has no usable key.\<close>

definition demo_broken :: "InMemoryCache exchange" where
  "demo_broken = demo_exchange\<lparr>x_lib := demo_lib\<lparr>lib_SignedString := (\<lambda>_ _ _. Inl (errorf ''signer down''))\<rparr>\<rparr>"


text \<open>C36: the grace window replays and never rotates. A redemption of an already consumed token that
  succeeds stores no refresh record and fires no event, and returns the result some attempt of the poll
  read under the presenting client's own id, whatever the other requests did meanwhile. And a poll that
  meets at most two misses, then the winner's marker, then the winner's result returns that result.\<close>

theorem grace_replay:
  "(op_GetAndDelete (x_ops x) now tokenID (st_refresh st) = (Inr (raw, False, cur), s1) \<and>
    RedeemRefreshToken x U E now nowMilli F tokenID clientID st = ((ts, None, calls), st') \<longrightarrow>
      st_refresh st' = s1 \<and> calls = [] \<and>
      (\<exists>a g. published_for x clientID ts (fst (op_Get (x_ops x) (pe_clock E a) tokenID (pe_others E a g))))) \<and>
   (x_grace x \<and> j < graceReplayAttempts \<and> (\<forall>a < j. \<not> pe_cancelled E a) \<and> m \<le> 2 \<and> m \<le> j \<and>
    (\<forall>a < m. missed_read (read_at x E tokenID g a)) \<and>
    (\<forall>a. m \<le> a \<and> a < j \<longrightarrow> pending_read x (read_at x E tokenID g a)) \<and>
    published_for x clientID ts (read_at x E tokenID g j) \<longrightarrow>
      fst (replayFromGrace x E tokenID clientID g) = (ts, True, None))"
proof (intro conjI impI)
  assume a: "op_GetAndDelete (x_ops x) now tokenID (st_refresh st) = (Inr (raw, False, cur), s1) \<and>
    RedeemRefreshToken x U E now nowMilli F tokenID clientID st = ((ts, None, calls), st')"
  let ?st1 = "st\<lparr>st_refresh := s1\<rparr>"
  have c: "x_cached x" using a by (cases "x_cached x") (simp_all add: RedeemRefreshToken_def)
  obtain ts2 ok err g where p: "replayFromGrace x E tokenID clientID (st_grace st) = ((ts2, ok, err), g)"
    by (metis prod_cases3 surj_pair)
  have "redeem_lost x E now tokenID clientID ?st1 = ((ts, None, calls), st')"
    using conjunct1 [OF a] conjunct2 [OF a] c by (simp add: RedeemRefreshToken_def Let_def)
  then have l: "err = None" "ok" "ts2 = ts" "calls = []" "st' = ?st1\<lparr>st_grace := g\<rparr>"
    by (auto simp: redeem_lost_def p Let_def split: option.splits prod.splits sum.splits bool.splits if_splits)
  then have "replay_poll x E tokenID clientID False graceReplayAttempts (st_grace st) = ((ts, True, None), g)"
    using p by (auto simp: replayFromGrace_def split: if_splits)
  from replay_poll_answer [OF this] show "\<exists>a g. published_for x clientID ts (fst (op_Get (x_ops x) (pe_clock E a) tokenID (pe_others E a g)))" .
  show "st_refresh st' = s1" "calls = []" using l by simp_all
next
  assume a: "x_grace x \<and> j < graceReplayAttempts \<and> (\<forall>a < j. \<not> pe_cancelled E a) \<and> m \<le> 2 \<and> m \<le> j \<and>
    (\<forall>a < m. missed_read (read_at x E tokenID g a)) \<and>
    (\<forall>a. m \<le> a \<and> a < j \<longrightarrow> pending_read x (read_at x E tokenID g a)) \<and>
    published_for x clientID ts (read_at x E tokenID g j)"
  then have "\<exists>s'. replay_poll x E tokenID clientID (m < 0) (graceReplayAttempts - 0) (polled x E tokenID g 0) = ((ts, True, None), s')"
    by (intro replay_poll_waits [of j E m x tokenID g clientID ts 0]) simp_all
  then obtain s' where "replay_poll x E tokenID clientID False graceReplayAttempts g = ((ts, True, None), s')" by auto
  then show "fst (replayFromGrace x E tokenID clientID g) = (ts, True, None)" using a by (simp add: replayFromGrace_def)
qed

text \<open>A poll that misses once, then sees the marker, then the result.\<close>

definition demo_race :: "InMemoryCache poll_env" where
  "demo_race = \<lparr>pe_clock = (\<lambda>a. int a * 20 * millisecond),
     pe_others = (\<lambda>a s. if a = 1 then snd (markGraceInFlight demo_exchange (20 * millisecond) ''T'' ''app'' s)
                        else if a = 2 then snd (publishToGrace demo_exchange (40 * millisecond) ''T'' ''app'' demo_tokens s) else s),
     pe_cancelled = (\<lambda>_. False)\<rparr>"

theorem grace_replay_witness:
  "fst (replayFromGrace demo_exchange demo_race ''T'' ''app'' (demo_class ''refresh-grace'')) = (demo_tokens, True, None)"
proof -
  let ?r = "read_at demo_exchange demo_race ''T'' (demo_class ''refresh-grace'')"
  have r: "?r 0 = Inr ([], False, True)" "?r 1 = Inr (''p'', True, True)" "?r 2 = Inr (''g'', True, True)" by code_simp+
  have "sc_UnmarshalGrace (x_codec demo_exchange) ''p'' = Inr \<lparr>g_ClientID = ''app'', g_Pending = True, g_TokenSet = only_subject []\<rparr>"
    "sc_UnmarshalGrace (x_codec demo_exchange) ''g'' = Inr \<lparr>g_ClientID = ''app'', g_Pending = False, g_TokenSet = demo_tokens\<rparr>"
    by (simp_all add: demo_exchange_def demo_session_codec_def)
  then have "missed_read (?r 0)" "pending_read demo_exchange (?r 1)" "published_for demo_exchange ''app'' demo_tokens (?r 2)"
    unfolding r by (auto simp: missed_read_def pending_read_def published_for_def)
  moreover have "a = 1" if "1 \<le> a" "a < 2" for a :: nat using that by simp
  moreover have "x_grace demo_exchange" "\<forall>a < 2. \<not> pe_cancelled demo_race a" "2 < graceReplayAttempts"
    by (simp_all add: demo_exchange_def demo_race_def graceReplayAttempts_def)
  ultimately show ?thesis
    using grace_replay [of demo_exchange 0 "''T''" demo_stores "[]" True "demo_class ''x''" demo_idp demo_race 0 demo_ids "''app''"
        demo_tokens "[]" demo_stores 2 1 "demo_class ''refresh-grace''"] by (metis (no_types, lifting) One_nat_def less_one one_le_numeral)
qed

end
