(* ===== verification/RefreshSteps.thy ===== *)
theory RefreshSteps
  imports Refresh
begin

text \<open>
  Redemptions, restores, revocations and logins on one refresh-token class, interleaved at the grain of
  the cache's atomic operations. A redemption that has consumed its record is in flight until it stores
  the successor, rejects the grant, or restores the record; the restore's two cache operations are two
  steps. A step of the relation is an operation of \<open>Refresh\<close> on the shared store, at its own clock.

  The lineage of a token id is the login it descends from: a ghost component no operation reads.
\<close>

section \<open>The system\<close>

text \<open>A redemption holding a consumed record; once the tombstone has been read and found absent, it goes
  on to write the record back.\<close>

datatype flight = Consumed (fl_id: string) (fl_raw: string) RefreshTokenClaims | Cleared (fl_id: string) (fl_raw: string) RefreshTokenClaims

record 's session_sys =
  y_store :: 's
  y_flights :: "flight list"
  y_lineage :: "string \<Rightarrow> string option"

definition is_tombstone :: "string \<Rightarrow> bool" where
  "is_tombstone k \<longleftrightarrow> HasPrefix k ''revoked:''"

text \<open>A random id: never issued before and, as the code notes, not of the form of a tombstone.\<close>

definition unused :: "'s session_sys \<Rightarrow> string \<Rightarrow> bool" where
  "unused y i \<longleftrightarrow> y_lineage y i = None \<and> \<not> is_tombstone i"

inductive session_step :: "'s exchange \<Rightarrow> 's session_sys \<Rightarrow> 's session_sys \<Rightarrow> bool" for x where
  login: "unused y i \<Longrightarrow> createRefreshToken x now i claims (y_store y) = (Inr i, s') \<Longrightarrow>
    session_step x y (y\<lparr>y_store := s', y_lineage := (y_lineage y)(i \<mapsto> i)\<rparr>)"
| consume: "op_GetAndDelete (x_ops x) now i (y_store y) = (Inr (raw, True, cur), s') \<Longrightarrow>
    sc_UnmarshalRefresh (x_codec x) raw = Inr claims \<Longrightarrow>
    session_step x y (y\<lparr>y_store := s', y_flights := Consumed i raw claims # y_flights y\<rparr>)"
| lose: "op_GetAndDelete (x_ops x) now i (y_store y) = (r, s') \<Longrightarrow> session_step x y (y\<lparr>y_store := s'\<rparr>)"
| rotate: "y_flights y = as @ Consumed i raw claims # bs \<Longrightarrow> unused y i' \<Longrightarrow>
    createRefreshToken x now i' (rotated_claims claims idp up i) (y_store y) = (Inr i', s') \<Longrightarrow>
    session_step x y (y\<lparr>y_store := s', y_flights := as @ bs, y_lineage := (y_lineage y)(i' := y_lineage y i)\<rparr>)"
| reject: "y_flights y = as @ Consumed i raw claims # bs \<Longrightarrow> session_step x y (y\<lparr>y_flights := as @ bs\<rparr>)"
| blocked: "y_flights y = as @ Consumed i raw claims # bs \<Longrightarrow> restore_blocked x now i (y_store y) = (True, s') \<Longrightarrow>
    session_step x y (y\<lparr>y_store := s', y_flights := as @ bs\<rparr>)"
| cleared: "y_flights y = as @ Consumed i raw claims # bs \<Longrightarrow> restore_blocked x now i (y_store y) = (False, s') \<Longrightarrow>
    session_step x y (y\<lparr>y_store := s', y_flights := as @ Cleared i raw claims # bs\<rparr>)"
| restore: "y_flights y = as @ Cleared i raw claims # bs \<Longrightarrow>
    session_step x y (y\<lparr>y_store := restore_write x now i raw claims (y_store y), y_flights := as @ bs\<rparr>)"
| mark: "session_step x y
    (y\<lparr>y_store := snd (op_Set (x_ops x) now (refreshRevokeTombstoneKey i) ''1'' [WithTTL refreshRevokeTombstoneTTL] (y_store y))\<rparr>)"
| read: "session_step x y (y\<lparr>y_store := snd (op_Get (x_ops x) now k (y_store y))\<rparr>)"

inductive session_reach :: "'s exchange \<Rightarrow> 's session_sys \<Rightarrow> 's session_sys \<Rightarrow> bool" for x y0 where
  start: "session_reach x y0 y0"
| step: "session_reach x y0 y \<Longrightarrow> session_step x y y' \<Longrightarrow> session_reach x y0 y'"

inductive_cases session_stepE: "session_step x y y'"

definition sessions_at :: "'s \<Rightarrow> 's session_sys" where
  "sessions_at s = \<lparr>y_store = s, y_flights = [], y_lineage = (\<lambda>_. None)\<rparr>"

section \<open>One lineage, one credential\<close>

lemma is_tombstone_key [simp]: "is_tombstone (refreshRevokeTombstoneKey i)"
  by (simp add: is_tombstone_def refreshRevokeTombstoneKey_def HasPrefix_iff)

text \<open>The live keys \<open>A\<close>, the lineages \<open>l\<close> and the ids in flight \<open>F\<close>: every live record and every flight
  has a lineage, named after an issued id, and a lineage has one live record or one flight at most.\<close>

definition slots_ok :: "string set \<Rightarrow> (string \<Rightarrow> string option) \<Rightarrow> string list \<Rightarrow> bool" where
  "slots_ok A l F \<longleftrightarrow>
     (\<forall>i \<in> A. l i = None \<longrightarrow> is_tombstone i) \<and> (\<forall>i. l i \<noteq> None \<longrightarrow> \<not> is_tombstone i) \<and>
     (\<forall>i L. l i = Some L \<longrightarrow> l L \<noteq> None) \<and> (\<forall>i \<in> set F. l i \<noteq> None) \<and>
     (\<forall>i \<in> A. \<forall>j \<in> set F. l i \<noteq> l j) \<and> (\<forall>i \<in> A. \<forall>j \<in> A. l i \<noteq> None \<longrightarrow> l i = l j \<longrightarrow> i = j) \<and>
     distinct (map l F)"

lemma slots_okI:
  assumes "\<And>i. i \<in> A \<Longrightarrow> l i = None \<Longrightarrow> is_tombstone i" and "\<And>i. l i \<noteq> None \<Longrightarrow> \<not> is_tombstone i"
    and "\<And>i L. l i = Some L \<Longrightarrow> l L \<noteq> None" and "\<And>i. i \<in> set F \<Longrightarrow> l i \<noteq> None"
    and "\<And>i j. i \<in> A \<Longrightarrow> j \<in> set F \<Longrightarrow> l i \<noteq> l j"
    and "\<And>i j. i \<in> A \<Longrightarrow> j \<in> A \<Longrightarrow> l i \<noteq> None \<Longrightarrow> l i = l j \<Longrightarrow> i = j" and "distinct (map l F)"
  shows "slots_ok A l F"
  unfolding slots_ok_def using assms by (intro conjI ballI allI impI) (assumption | simp)+

lemma slots_okD:
  assumes "slots_ok A l F"
  shows "i \<in> A \<Longrightarrow> l i = None \<Longrightarrow> is_tombstone i" and "l i \<noteq> None \<Longrightarrow> \<not> is_tombstone i"
    and "l i = Some L \<Longrightarrow> l L \<noteq> None" and "i \<in> set F \<Longrightarrow> l i \<noteq> None"
    and "i \<in> A \<Longrightarrow> j \<in> set F \<Longrightarrow> l i \<noteq> l j" and "i \<in> A \<Longrightarrow> j \<in> A \<Longrightarrow> l i \<noteq> None \<Longrightarrow> l i = l j \<Longrightarrow> i = j"
    and "distinct (map l F)"
proof -
  from assms have D: "\<forall>i \<in> A. l i = None \<longrightarrow> is_tombstone i" "\<forall>i. l i \<noteq> None \<longrightarrow> \<not> is_tombstone i"
    "\<forall>i L. l i = Some L \<longrightarrow> l L \<noteq> None" "\<forall>i \<in> set F. l i \<noteq> None" "\<forall>i \<in> A. \<forall>j \<in> set F. l i \<noteq> l j"
    "\<forall>i \<in> A. \<forall>j \<in> A. l i \<noteq> None \<longrightarrow> l i = l j \<longrightarrow> i = j" "distinct (map l F)"
    unfolding slots_ok_def by - (elim conjE, assumption)+
  show "i \<in> A \<Longrightarrow> l i = None \<Longrightarrow> is_tombstone i" using D(1) by blast
  show "l i \<noteq> None \<Longrightarrow> \<not> is_tombstone i" using D(2) by blast
  show "l i = Some L \<Longrightarrow> l L \<noteq> None" using D(3) by blast
  show "i \<in> set F \<Longrightarrow> l i \<noteq> None" using D(4) by blast
  show "i \<in> A \<Longrightarrow> j \<in> set F \<Longrightarrow> l i \<noteq> l j" using D(5) by blast
  show "i \<in> A \<Longrightarrow> j \<in> A \<Longrightarrow> l i \<noteq> None \<Longrightarrow> l i = l j \<Longrightarrow> i = j" using D(6) by blast
  show "distinct (map l F)" by (rule D(7))
qed

lemma slots_shrink:
  assumes "slots_ok A l F" and "A' \<subseteq> A"
  shows "slots_ok A' l F"
  by (rule slots_okI) (rule slots_okD [OF assms(1)]; (assumption | rule subsetD [OF assms(2)], assumption))+

lemma slots_end:
  assumes "slots_ok A l (as @ i # bs)"
  shows "slots_ok A l (as @ bs)"
proof (rule slots_okI)
  note S = slots_okD [OF assms]
  have "set (as @ bs) \<subseteq> set (as @ i # bs)" by auto
  then show "j \<in> set (as @ bs) \<Longrightarrow> l j \<noteq> None" "k \<in> A \<Longrightarrow> j \<in> set (as @ bs) \<Longrightarrow> l k \<noteq> l j" for k j
    using S(4,5) by (meson subsetD)+
  show "distinct (map l (as @ bs))" using S(7) by simp
qed (rule slots_okD [OF assms]; assumption)+

lemma slots_take:
  assumes "slots_ok A l F" and "i \<in> A" and "\<not> is_tombstone i"
  shows "slots_ok (A - {i}) l (i # F)"
proof (rule slots_okI)
  have i: "l i \<noteq> None" using slots_okD(1) [OF assms(1,2)] assms(3) by blast
  show "l j \<noteq> None" if "j \<in> set (i # F)" for j using that i slots_okD(4) [OF assms(1)] by auto
  show "l k \<noteq> l j" if "k \<in> A - {i}" "j \<in> set (i # F)" for k j
    using that i slots_okD(5,6) [OF assms(1)] assms(2) by (metis Diff_iff insertCI set_ConsD)
  show "distinct (map l (i # F))" using slots_okD(5,7) [OF assms(1)] assms(2) by auto
qed (rule slots_okD [OF assms(1)]; simp)+

lemma slots_mark:
  assumes "slots_ok A l F" and "is_tombstone k"
  shows "slots_ok (insert k A) l F"
proof (rule slots_okI)
  have k: "l k = None" using slots_okD(2) [OF assms(1)] assms(2) by blast
  show "l i \<noteq> l j" if "i \<in> insert k A" "j \<in> set F" for i j using that k slots_okD(4,5) [OF assms(1)] by (metis insertE)
  show "i = j" if "i \<in> insert k A" "j \<in> insert k A" "l i \<noteq> None" "l i = l j" for i j
    using that k slots_okD(6) [OF assms(1)] by (metis insertE)
  show "is_tombstone i" if "i \<in> insert k A" "l i = None" for i using that assms(2) slots_okD(1) [OF assms(1)] by blast
qed (rule slots_okD [OF assms(1)]; assumption)+

lemma slots_restore:
  assumes "slots_ok A l (as @ i # bs)"
  shows "slots_ok (insert i A) l (as @ bs)"
proof (rule slots_okI)
  note S = slots_okD [OF assms]
  have i: "l i \<noteq> None" using S(4) by simp
  have n: "l i \<noteq> l j" if "j \<in> set (as @ bs)" for j using S(7) that by auto
  show "is_tombstone j" if "j \<in> insert i A" "l j = None" for j using that i S(1) by blast
  show "l k \<noteq> l j" if "k \<in> insert i A" "j \<in> set (as @ bs)" for k j using that n S(5) by auto
  show "k = j" if "k \<in> insert i A" "j \<in> insert i A" "l k \<noteq> None" "l k = l j" for k j
    using that S(5,6) by (metis insertE in_set_conv_decomp)
qed (rule slots_okD [OF slots_end [OF assms]]; assumption)+

text \<open>An id never issued is neither live nor in flight, and names no lineage.\<close>

lemma slots_unused:
  assumes "slots_ok A l F" and "l i = None" and "\<not> is_tombstone i"
  shows "i \<notin> A" "i \<notin> set F" "l j \<noteq> Some i"
proof -
  note S = slots_okD [OF assms(1)]
  show "i \<notin> A" using S(1) assms(2,3) by blast
  show "i \<notin> set F" using S(4) assms(2) by blast
  show "l j \<noteq> Some i" using S(3) assms(2) by blast
qed

lemma slots_issue:
  assumes "slots_ok A l F" and "l i = None" and "\<not> is_tombstone i" and "L = i \<or> l L \<noteq> None"
    and "\<forall>j \<in> A \<union> set F. l j \<noteq> Some L"
  shows "slots_ok (insert i A) (l(i \<mapsto> L)) F"
proof (rule slots_okI)
  note S = slots_okD [OF assms(1)]
  note fresh = slots_unused [OF assms(1-3)]
  let ?l = "l(i \<mapsto> L)"
  have A: "j \<in> A \<Longrightarrow> ?l j = l j" for j using fresh(1) by auto
  have F: "j \<in> set F \<Longrightarrow> ?l j = l j" for j using fresh(2) by auto
  show "is_tombstone j" if "j \<in> insert i A" "?l j = None" for j using that S(1) by (auto split: if_splits)
  show "\<not> is_tombstone j" if "?l j \<noteq> None" for j using that S(2) assms(3) by (cases "j = i") auto
  show "?l K \<noteq> None" if "?l j = Some K" for j K using that S(3) assms(4) by (cases "j = i"; cases "K = i") auto
  show "?l j \<noteq> None" if "j \<in> set F" for j using that S(4) F by metis
  show "?l k \<noteq> ?l j" if "k \<in> insert i A" "j \<in> set F" for k j using that S(5) A F assms(5) by (metis UnI2 fun_upd_same insertE)
  show "k = j" if "k \<in> insert i A" "j \<in> insert i A" "?l k \<noteq> None" "?l k = ?l j" for k j
    using that S(6) A assms(5) by (metis UnI1 fun_upd_same insertE)
  show "distinct (map ?l F)" using S(7) F by (metis (no_types, lifting) map_cong)
qed

context kv_store
begin

definition live :: "'s \<Rightarrow> string set" where
  "live s = {i. \<exists>t. view t s i \<noteq> None}"

text \<open>Tombstones hold only their marker.\<close>

definition marks_ok :: "'s \<Rightarrow> bool" where
  "marks_ok s \<longleftrightarrow> (\<forall>i t v. is_tombstone i \<longrightarrow> view t s i = Some v \<longrightarrow> v = ''1'')"

definition lineages_ok :: "'s session_sys \<Rightarrow> bool" where
  "lineages_ok y \<longleftrightarrow> inv (y_store y) \<and> marks_ok (y_store y) \<and>
     slots_ok (live (y_store y)) (y_lineage y) (map fl_id (y_flights y))"

text \<open>A store with no entry another lacks.\<close>

definition below :: "'s \<Rightarrow> 's \<Rightarrow> bool" where
  "below s' s \<longleftrightarrow> inv s' \<and> (\<forall>u k v. view u s' k = Some v \<longrightarrow> view u s k = Some v)"

lemma belowD: "below s' s \<Longrightarrow> marks_ok s \<Longrightarrow> inv s' \<and> marks_ok s' \<and> live s' \<subseteq> live s"
  unfolding below_def marks_ok_def live_def by blast

lemma below_get: "inv s \<Longrightarrow> below (snd (op_Get ops u k s)) s"
  by (simp add: below_def get_inv get_view)

lemma below_take: "inv s \<Longrightarrow> below (snd (op_GetAndDelete ops u k s)) s"
  unfolding below_def by (metis take_inv take_self take_miss take_other option.distinct(1))

lemma take_dead: "inv s \<Longrightarrow> view u s k \<noteq> None \<Longrightarrow> k \<notin> live (snd (op_GetAndDelete ops u k s))"
  by (simp add: live_def take_self)

text \<open>A write adds at most its key.\<close>

lemma set_live:
  assumes "inv s"
  shows "live (snd (op_Set ops u k v opts s)) \<subseteq> insert k (live s)"
  using assms set_other_le [of s _ k _ u v opts] unfolding live_def by (smt (verit) insertCI mem_Collect_eq subsetI)

lemma set_marks:
  assumes "inv s" and "marks_ok s" and "is_tombstone k \<longrightarrow> v = ''1''"
  shows "marks_ok (snd (op_Set ops u k v opts s))"
  unfolding marks_ok_def
proof (intro allI impI)
  fix i u' w
  assume i: "is_tombstone i" and w: "view u' (snd (op_Set ops u k v opts s)) i = Some w"
  show "w = ''1''"
  proof (cases "i = k")
    case True
    then show ?thesis using w i assms(3) set_self [OF assms(1), of u' u k v opts] by (simp split: if_splits)
  next
    case False
    then have "view u' s i = Some w" using w set_other_le [OF assms(1) False, of u' u v opts] by auto
    then show ?thesis using i assms(2) by (auto simp: marks_ok_def)
  qed
qed

lemma lineages_below:
  assumes "lineages_ok y" and "below s' (y_store y)"
  shows "lineages_ok (y\<lparr>y_store := s'\<rparr>)"
  using assms belowD [OF assms(2)] slots_shrink unfolding lineages_ok_def by auto

lemma lineages_end:
  assumes "lineages_ok y" and "y_flights y = as @ f # bs"
  shows "lineages_ok (y\<lparr>y_flights := as @ bs\<rparr>)"
  using assms slots_end unfolding lineages_ok_def by fastforce

lemma create_store:
  assumes "x_ops x = ops" and "createRefreshToken x now i claims s = (Inr i', s')" and "inv s" and "marks_ok s" and "\<not> is_tombstone i"
  shows "inv s' \<and> marks_ok s' \<and> live s' \<subseteq> insert i (live s)"
proof -
  obtain payload where s': "s' = snd (op_Set ops now i payload [] s)" using create_success [OF assms(2)] assms(1) by blast
  show ?thesis unfolding s' using set_inv [OF assms(3)] set_marks [OF assms(3,4)] set_live [OF assms(3)] assms(5) by simp
qed

lemma restore_store:
  assumes "x_ops x = ops" and "inv s" and "marks_ok s" and "\<not> is_tombstone i"
  shows "inv (restore_write x now i raw claims s) \<and> marks_ok (restore_write x now i raw claims s) \<and>
    live (restore_write x now i raw claims s) \<subseteq> insert i (live s)"
  using set_inv [OF assms(2)] set_marks [OF assms(2,3)] set_live [OF assms(2)] assms
  by (simp add: restore_write_def Let_def subset_insertI)

lemma blocked_below: "x_ops x = ops \<Longrightarrow> inv s \<Longrightarrow> restore_blocked x now i s = (b, s') \<Longrightarrow> below s' s"
  using below_get [of s now "refreshRevokeTombstoneKey i"]
  by (auto simp: restore_blocked_def split: prod.splits sum.splits)

text \<open>A record that parses is not a tombstone.\<close>

lemma consumed_is_record:
  assumes "x_ops x = ops" and "inv s" and "marks_ok s" and "\<And>c. sc_UnmarshalRefresh (x_codec x) ''1'' \<noteq> Inr c"
    and "op_GetAndDelete ops now i s = (Inr (raw, True, cur), s')" and "sc_UnmarshalRefresh (x_codec x) raw = Inr claims"
  shows "view now s i = Some raw \<and> \<not> is_tombstone i"
proof -
  have v: "view now s i = Some raw"
    using take_result [OF assms(2), of now i] assms(5) by (cases "view now s i") simp_all
  moreover have "raw \<noteq> ''1''" using assms(4,6) by auto
  ultimately show ?thesis using assms(3) unfolding marks_ok_def by blast
qed

lemma step_keeps:
  assumes ops: "x_ops x = ops" and codec: "\<And>c. sc_UnmarshalRefresh (x_codec x) ''1'' \<noteq> Inr c"
    and ok: "lineages_ok y" and step: "session_step x y y'"
  shows "lineages_ok y'"
  using step
proof cases
  have I: "inv (y_store y)" and M: "marks_ok (y_store y)"
    and S: "slots_ok (live (y_store y)) (y_lineage y) (map fl_id (y_flights y))"
    using ok by (simp_all add: lineages_ok_def)
  {
    case (login i now claims s')
    then have u: "y_lineage y i = None" "\<not> is_tombstone i" by (simp_all add: unused_def)
    from create_store [OF ops login(3) I M u(2)]
    show ?thesis
      using login(1) slots_shrink [OF slots_issue [OF S u, of i]] slots_unused(3) [OF S u] by (simp add: lineages_ok_def)
  next
    case (consume now i raw cur s' claims)
    from consumed_is_record [OF ops I M codec] consume(2,3) ops
    have v: "view now (y_store y) i = Some raw" "\<not> is_tombstone i" by auto
    have b: "below s' (y_store y)" and d: "i \<notin> live s'"
      using below_take [OF I, of now i] take_dead [OF I, of now i] consume(2) ops v(1) by simp_all
    have "live s' \<subseteq> live (y_store y) - {i}" using belowD [OF b M] d by blast
    moreover have "i \<in> live (y_store y)" using v(1) by (auto simp: live_def)
    ultimately show ?thesis
      using consume(1) belowD [OF b M] slots_shrink [OF slots_take [OF S _ v(2)]] by (simp add: lineages_ok_def)
  next
    case (lose now i r s')
    then show ?thesis using lineages_below [OF ok] below_take [OF I, of now i] ops by simp
  next
    case (rotate as i raw claims bs i' now idp up s')
    then have u: "y_lineage y i' = None" "\<not> is_tombstone i'" by (simp_all add: unused_def)
    have F: "slots_ok (live (y_store y)) (y_lineage y) (map fl_id as @ i # map fl_id bs)" using S rotate(2) by simp
    then obtain L where L: "y_lineage y i = Some L" using slots_okD(4) [OF F, of i] by auto
    have "\<forall>j \<in> live (y_store y) \<union> set (map fl_id as @ map fl_id bs). y_lineage y j \<noteq> Some L"
    proof
      fix j
      assume "j \<in> live (y_store y) \<union> set (map fl_id as @ map fl_id bs)"
      then show "y_lineage y j \<noteq> Some L"
        using slots_okD(5) [OF F, of j i] slots_okD(7) [OF F] L by (auto simp: image_iff)
    qed
    moreover have "y_lineage y L \<noteq> None" by (rule slots_okD(3) [OF F L])
    ultimately have "slots_ok (insert i' (live (y_store y))) ((y_lineage y)(i' \<mapsto> L)) (map fl_id as @ map fl_id bs)"
      by (intro slots_issue [OF slots_end [OF F] u]) auto
    with create_store [OF ops rotate(4) I M u(2)] show ?thesis
      using rotate(1) L slots_shrink by (simp add: lineages_ok_def)
  next
    case (reject as i raw claims bs)
    then show ?thesis using lineages_end [OF ok] by simp
  next
    case (blocked as i raw claims bs now s')
    have "lineages_ok (y\<lparr>y_flights := as @ bs\<rparr>)" by (rule lineages_end [OF ok blocked(2)])
    from lineages_below [OF this, of s'] show ?thesis
      using blocked(1) blocked_below [OF ops I blocked(3)] by (simp add: lineages_ok_def)
  next
    case (cleared as i raw claims bs now s')
    have "lineages_ok (y\<lparr>y_store := s'\<rparr>)" by (rule lineages_below [OF ok blocked_below [OF ops I cleared(3)]])
    then show ?thesis using cleared(1,2) by (simp add: lineages_ok_def)
  next
    case (restore as i raw claims bs now)
    have F: "slots_ok (live (y_store y)) (y_lineage y) (map fl_id as @ i # map fl_id bs)" using S restore(2) by simp
    then have "\<not> is_tombstone i" using slots_okD(2,4) [OF F] by auto
    from restore_store [OF ops I M this, of now raw claims] show ?thesis
      using restore(1) slots_shrink [OF slots_restore [OF F]] by (simp add: lineages_ok_def)
  next
    case (mark now i)
    let ?s = "snd (op_Set (x_ops x) now (refreshRevokeTombstoneKey i) ''1'' [WithTTL refreshRevokeTombstoneTTL] (y_store y))"
    have "inv ?s" "marks_ok ?s" "live ?s \<subseteq> insert (refreshRevokeTombstoneKey i) (live (y_store y))"
      using set_inv [OF I] set_marks [OF I M] set_live [OF I] ops by simp_all
    then show ?thesis using mark slots_shrink [OF slots_mark [OF S is_tombstone_key]] by (simp add: lineages_ok_def)
  next
    case (read now k)
    then show ?thesis using lineages_below [OF ok] below_get [OF I] ops by simp
  }
qed

lemma reach_keeps:
  assumes "session_reach x y0 y" and "x_ops x = ops" and "\<And>c. sc_UnmarshalRefresh (x_codec x) ''1'' \<noteq> Inr c" and "lineages_ok y0"
  shows "lineages_ok y"
  using assms(1) by induction (use assms step_keeps in \<open>blast+\<close>)

end

section \<open>Properties\<close>

lemma distinct_filter_le: "distinct (map g xs) \<Longrightarrow> length (filter (\<lambda>z. g z = v) xs) \<le> 1"
proof (induction xs)
  case (Cons z xs)
  have "g z = v \<Longrightarrow> filter (\<lambda>z. g z = v) xs = []" using Cons.prems by (auto simp: filter_empty_conv image_iff)
  then show ?case using Cons by auto
qed simp


text \<open>A login, its redemption, and a rotation.\<close>

definition demo_login :: "InMemoryCache session_sys" where
  "demo_login = \<lparr>y_store = snd (createRefreshToken demo_exchange 0 ''T'' demo_record (demo_class ''refresh-tokens'')),
     y_flights = [], y_lineage = [''T'' \<mapsto> ''T'']\<rparr>"

definition demo_consumed :: "InMemoryCache session_sys" where
  "demo_consumed = demo_login\<lparr>y_store := snd (op_GetAndDelete mem_ops minute ''T'' (y_store demo_login)),
     y_flights := [Consumed ''T'' ''r'' demo_record]\<rparr>"

lemma demo_consumed_reach: "session_reach demo_exchange (sessions_at (demo_class ''refresh-tokens'')) demo_consumed"
proof -
  let ?y = "sessions_at (demo_class ''refresh-tokens'')"
  have "fst (createRefreshToken demo_exchange 0 ''T'' demo_record (y_store ?y)) = Inr ''T''" by code_simp
  then have "createRefreshToken demo_exchange 0 ''T'' demo_record (y_store ?y) = (Inr ''T'', y_store demo_login)"
    by (metis demo_login_def prod.collapse sessions_at_def session_sys.select_convs(1))
  moreover have "unused ?y ''T''" by code_simp
  ultimately have "session_step demo_exchange ?y (?y\<lparr>y_store := y_store demo_login, y_lineage := (y_lineage ?y)(''T'' \<mapsto> ''T'')\<rparr>)"
    by (intro session_step.login)
  then have a: "session_reach demo_exchange ?y demo_login"
    using session_reach.step [OF session_reach.start] by (simp add: sessions_at_def demo_login_def)
  have k: "x_ops demo_exchange = mem_ops" "sc_UnmarshalRefresh (x_codec demo_exchange) ''r'' = Inr demo_record"
    by (simp_all add: demo_exchange_def demo_session_codec_def)
  have "fst (op_GetAndDelete mem_ops minute ''T'' (y_store demo_login)) = Inr (''r'', True, True)" by code_simp
  then have "op_GetAndDelete (x_ops demo_exchange) minute ''T'' (y_store demo_login) =
      (Inr (''r'', True, True), snd (op_GetAndDelete mem_ops minute ''T'' (y_store demo_login)))" by (metis k(1) prod.collapse)
  from session_step.consume [OF this k(2)] show ?thesis
    using session_reach.step [OF a] by (simp add: demo_consumed_def demo_login_def)
qed


text \<open>A logout can be undone. A redemption has consumed the record of \<open>T\<close> and is about to restore it
  after an outage; the user logs out, which leaves the tombstone of \<open>T\<close>. (1) Without interference the
  restore is blocked. (2) If anyone presents the tombstone's own key as a refresh token, the redemption
  consumes the tombstone, and the restore brings \<open>T\<close> back to life. (3) If the logout lands between the
  restore's reading of the tombstone and its write, \<open>T\<close> comes back as well.\<close>

theorem logout_undone:
  "\<exists>s1 st2 st3 s4.
     op_GetAndDelete mem_ops minute ''T'' (st_refresh demo_stores) = (Inr (''r'', True, True), s1) \<and>
     RevokeRefreshToken demo_exchange minute ''T'' (demo_stores\<lparr>st_refresh := s1\<rparr>) = (None, st2) \<and>
     cache_view minute (restoreConsumedRefreshToken demo_exchange minute ''T'' ''r'' demo_record (st_refresh st2)) ''T'' = None \<and>
     snd (RedeemRefreshToken demo_exchange demo_idp demo_poll minute 0 demo_ids ''revoked:T'' [] st2) = st3 \<and>
     cache_view (30 * minute) (restoreConsumedRefreshToken demo_exchange minute ''T'' ''r'' demo_record (st_refresh st3)) ''T'' = Some ''r'' \<and>
     restore_blocked demo_exchange minute ''T'' s1 = (False, s4) \<and>
     cache_view (30 * minute) (restore_write demo_exchange minute ''T'' ''r'' demo_record
       (st_refresh (snd (RevokeRefreshToken demo_exchange minute ''T'' (demo_stores\<lparr>st_refresh := s4\<rparr>))))) ''T'' = Some ''r''"
proof -
  let ?t = "op_GetAndDelete mem_ops minute ''T'' (st_refresh demo_stores)"
  let ?r = "RevokeRefreshToken demo_exchange minute ''T'' (demo_stores\<lparr>st_refresh := snd ?t\<rparr>)"
  let ?b = "restore_blocked demo_exchange minute ''T'' (snd ?t)"
  have "fst ?t = Inr (''r'', True, True)" "fst ?r = None" "fst ?b = False" by code_simp+
  moreover have "cache_view minute (restoreConsumedRefreshToken demo_exchange minute ''T'' ''r'' demo_record (st_refresh (snd ?r))) ''T'' = None"
    by code_simp
  moreover have "cache_view (30 * minute) (restoreConsumedRefreshToken demo_exchange minute ''T'' ''r'' demo_record
      (st_refresh (snd (RedeemRefreshToken demo_exchange demo_idp demo_poll minute 0 demo_ids ''revoked:T'' [] (snd ?r))))) ''T'' = Some ''r''"
    by code_simp
  moreover have "cache_view (30 * minute) (restore_write demo_exchange minute ''T'' ''r'' demo_record
      (st_refresh (snd (RevokeRefreshToken demo_exchange minute ''T'' (demo_stores\<lparr>st_refresh := snd ?b\<rparr>))))) ''T'' = Some ''r''"
    by code_simp
  ultimately show ?thesis
    by (intro exI [of _ "snd ?t"] exI [of _ "snd ?r"]
        exI [of _ "snd (RedeemRefreshToken demo_exchange demo_idp demo_poll minute 0 demo_ids ''revoked:T'' [] (snd ?r))"]
        exI [of _ "snd ?b"] conjI) (simp_all add: prod_eq_iff)
qed

end
