(* ===== verification/AuthCode.thy ===== *)
theory AuthCode
  imports Refresh
begin

text \<open>
  Authorization codes: the sealed values of \<open>src/internal/auth/seal.go\<close>, and creating and redeeming a code
  (\<open>exchange.go\<close>). The JWE library, SHA-256 and base64 are the fields of \<open>jose_lib\<close>, the seal's block key
  is an argument, and the single-use registry of code ids is the class \<open>st_codes\<close>.
\<close>

section \<open>Sealed values\<close>

record jose_lib =
  jo_Encrypt :: "string \<Rightarrow> string \<Rightarrow> goerror + string"
  jo_ParseError :: "string \<Rightarrow> goerror option"
  jo_Decrypt :: "string \<Rightarrow> string \<Rightarrow> goerror + string"
  jo_Sha256 :: "string \<Rightarrow> string"
  jo_Base64 :: "string \<Rightarrow> string"

text \<open>go-jose's documented behaviour: what a key encrypts parses, and decrypts with that key.\<close>

definition jose_law :: "jose_lib \<Rightarrow> bool" where
  "jose_law J \<longleftrightarrow> (\<forall>k p c. jo_Encrypt J k p = Inr c \<longrightarrow> jo_ParseError J c = None \<and> jo_Decrypt J k c = Inr p)"

definition sealPurposeAuthCode :: string where "sealPurposeAuthCode = []"
definition sealPurposeLoginState :: string where "sealPurposeLoginState = ''oidc-login-state''"
definition sealPurposeConsent :: string where "sealPurposeConsent = ''dcr-consent''"

definition sealKey :: "jose_lib \<Rightarrow> string \<Rightarrow> string \<Rightarrow> string" where
  "sealKey J blockKey purpose =
     jo_Sha256 J (if purpose = sealPurposeAuthCode then blockKey else purpose @ [CHR 0x00] @ blockKey)"

definition seal :: "jose_lib \<Rightarrow> string \<Rightarrow> string \<Rightarrow> string \<Rightarrow> goerror + string" where
  "seal J blockKey purpose payload = jo_Encrypt J (sealKey J blockKey purpose) payload"

definition open_sealed :: "jose_lib \<Rightarrow> string \<Rightarrow> string \<Rightarrow> string \<Rightarrow> goerror + string" where
  "open_sealed J blockKey purpose sealed =
     (case jo_ParseError J sealed of
        Some e \<Rightarrow> Inl (wrapf [ErrSealParse] (''sealed value is malformed: '' @ err_msg e))
      | None \<Rightarrow>
          (case jo_Decrypt J (sealKey J blockKey purpose) sealed of
             Inl e \<Rightarrow> Inl (errorf (''sealed value does not open with this key: '' @ err_msg e))
           | Inr payload \<Rightarrow> Inr payload))"

section \<open>Creating a code\<close>

definition authCodeTTL :: duration where "authCodeTTL = 15 * minute"

text \<open>The random id is an argument: the encoded bytes, or a failed read.\<close>

definition code_defaults :: "instant \<Rightarrow> string \<Rightarrow> AuthorizationCodeClaims \<Rightarrow> AuthorizationCodeClaims" where
  "code_defaults now jti claims =
     claims\<lparr>a_Exp := (if a_Exp claims = 0 then Unix (now + 10 * minute) else a_Exp claims),
       a_JTI := (if a_JTI claims = [] then jti else a_JTI claims)\<rparr>"

definition CreateAuthorizationCode ::
  "'s exchange \<Rightarrow> jose_lib \<Rightarrow> string \<Rightarrow> instant \<Rightarrow> goerror + string \<Rightarrow> AuthorizationCodeClaims \<Rightarrow> 's \<Rightarrow> (goerror + string) \<times> 's" where
  "CreateAuthorizationCode x J blockKey now rand claims0 s =
     (case (if a_JTI claims0 = [] then rand else Inr []) of
        Inl e \<Rightarrow> (Inl (errorf (''failed to generate auth code jti: '' @ err_msg e)), s)
      | Inr jti \<Rightarrow>
          (let claims = code_defaults now jti claims0
           in case sc_MarshalCode (x_codec x) claims of
                Inl e \<Rightarrow> (Inl (errorf (''failed to marshal auth code claims: '' @ err_msg e)), s)
              | Inr payload \<Rightarrow>
                  (case (if x_cached x then op_Set (x_ops x) now (a_JTI claims) ''1'' [] s else (None, s)) of
                     (Some e, s1) \<Rightarrow> (Inl (errorf (''failed to register auth code jti: '' @ err_msg e)), s1)
                   | (None, s1) \<Rightarrow> (seal J blockKey sealPurposeAuthCode payload, s1))))"

section \<open>Redeeming a code\<close>

definition PKCE_METHOD_S256 :: string where "PKCE_METHOD_S256 = ''S256''"

definition pkce_check :: "jose_lib \<Rightarrow> AuthClient \<Rightarrow> AuthorizationCodeClaims \<Rightarrow> string \<Rightarrow> goerror option" where
  "pkce_check J client claims codeVerifier =
     (if ac_RequirePKCE client \<and> a_CodeChallenge claims = [] then Some (grantFailuref ''PKCE is required for this client'')
      else if a_CodeChallenge claims = [] then None
      else if codeVerifier = [] then Some (grantFailuref ''code_verifier is required for PKCE'')
      else if a_CodeChallengeMethod claims \<noteq> PKCE_METHOD_S256
      then Some (grantFailuref ''unsupported code_challenge_method: only S256 is accepted'')
      else if jo_Base64 J (jo_Sha256 J codeVerifier) \<noteq> a_CodeChallenge claims then Some (grantFailuref ''invalid code_verifier'')
      else None)"

definition code_client ::
  "'s exchange \<Rightarrow> jose_lib \<Rightarrow> instant \<Rightarrow> string \<Rightarrow> string \<Rightarrow> AuthorizationCodeClaims \<Rightarrow> 's stores \<Rightarrow> goerror option \<times> 's stores" where
  "code_client x J now clientID codeVerifier claims st =
     (case exchange_LookupClient x now clientID (st_dcr st) of
        (Inl e, s1) \<Rightarrow> (Some (server_error (''client lookup failed: '' @ err_msg e)), st\<lparr>st_dcr := s1\<rparr>)
      | (Inr None, s1) \<Rightarrow> (Some (errorf ''invalid client_id''), st\<lparr>st_dcr := s1\<rparr>)
      | (Inr (Some client), s1) \<Rightarrow> (pkce_check J client claims codeVerifier, st\<lparr>st_dcr := s1\<rparr>))"

definition consumed_msg :: string where
  "consumed_msg = ''authorization code already consumed or expired''"

definition code_consume :: "'s exchange \<Rightarrow> instant \<Rightarrow> AuthorizationCodeClaims \<Rightarrow> 's stores \<Rightarrow> goerror option \<times> 's stores" where
  "code_consume x now claims st =
     (if \<not> x_cached x then (None, st)
      else if a_JTI claims = [] then (Some (grantFailuref consumed_msg), st)
      else case op_GetAndDelete (x_ops x) now (a_JTI claims) (st_codes st) of
             (Inl e, s1) \<Rightarrow> (Some (server_error (''failed to check auth code consumption: '' @ err_msg e)), st\<lparr>st_codes := s1\<rparr>)
           | (Inr (_, found, _), s1) \<Rightarrow> (if found then None else Some (grantFailuref consumed_msg), st\<lparr>st_codes := s1\<rparr>))"

text \<open>From the opened claims to the mint, in the code's order.\<close>

definition code_checks ::
  "'s exchange \<Rightarrow> jose_lib \<Rightarrow> instant \<Rightarrow> string \<Rightarrow> string \<Rightarrow> string \<Rightarrow> AuthorizationCodeClaims \<Rightarrow> 's stores \<Rightarrow>
   goerror option \<times> 's stores" where
  "code_checks x J now clientID redirectURI codeVerifier claims st =
     (if Unix now > a_Exp claims then (Some (grantFailuref ''authorization code expired''), st)
      else if a_ClientID claims \<noteq> clientID then (Some (grantFailuref ''client_id mismatch''), st)
      else if a_RedirectURI claims \<noteq> redirectURI then (Some (grantFailuref ''redirect_uri mismatch''), st)
      else check_then
             (map_prod id (\<lambda>s. st\<lparr>st_revoked := s\<rparr>)
               (refuseRevokedAuthentication x now (a_Subject claims) (a_AuthenticatedAt claims) (st_revoked st)))
             (\<lambda>st1. check_then (code_client x J now clientID codeVerifier claims st1) (code_consume x now claims)))"

definition RedeemAuthorizationCode ::
  "'s exchange \<Rightarrow> jose_lib \<Rightarrow> string \<Rightarrow> instant \<Rightarrow> fresh_ids \<Rightarrow> string \<Rightarrow> string \<Rightarrow> string \<Rightarrow> string \<Rightarrow> 's stores \<Rightarrow>
   (TokenSet \<times> goerror option) \<times> 's stores" where
  "RedeemAuthorizationCode x J blockKey now F code clientID redirectURI codeVerifier st =
     (case open_sealed J blockKey sealPurposeAuthCode code of
        Inl e \<Rightarrow> ((only_subject [], Some (grantFailuref (if errors_Is e ErrSealParse then ''failed to parse auth code''
                                                       else ''failed to decrypt auth code''))), st)
      | Inr payload \<Rightarrow>
          (case sc_UnmarshalCode (x_codec x) payload of
             Inl e \<Rightarrow> ((only_subject [], Some (server_error (''failed to unmarshal auth code claims: '' @ err_msg e))), st)
           | Inr claims \<Rightarrow>
               (case code_checks x J now clientID redirectURI codeVerifier claims st of
                  (Some e, st1) \<Rightarrow> ((only_subject (a_Subject claims), Some e), st1)
                | (None, st1) \<Rightarrow> mintTokensFromCode x now (f_jti F) (f_jti' F) (f_newID F) claims st1)))"

section \<open>Lemmas\<close>

text \<open>What a redeemable code satisfies.\<close>

definition pkce_ok :: "jose_lib \<Rightarrow> AuthClient \<Rightarrow> AuthorizationCodeClaims \<Rightarrow> string \<Rightarrow> bool" where
  "pkce_ok J client claims codeVerifier \<longleftrightarrow>
     (ac_RequirePKCE client \<longrightarrow> a_CodeChallenge claims \<noteq> []) \<and>
     (a_CodeChallenge claims \<noteq> [] \<longrightarrow> codeVerifier \<noteq> [] \<and> a_CodeChallengeMethod claims = PKCE_METHOD_S256 \<and>
        jo_Base64 J (jo_Sha256 J codeVerifier) = a_CodeChallenge claims)"

lemma pkce_check_iff: "pkce_check J client claims v = None \<longleftrightarrow> pkce_ok J client claims v"
  by (auto simp: pkce_check_def pkce_ok_def)

definition code_redeemable ::
  "'s exchange \<Rightarrow> jose_lib \<Rightarrow> instant \<Rightarrow> string \<Rightarrow> string \<Rightarrow> string \<Rightarrow> AuthorizationCodeClaims \<Rightarrow> 's stores \<Rightarrow> bool" where
  "code_redeemable x J now clientID redirectURI v claims st \<longleftrightarrow>
     Unix now \<le> a_Exp claims \<and> a_ClientID claims = clientID \<and> a_RedirectURI claims = redirectURI \<and>
     not_revoked_since x now (a_Subject claims) (a_AuthenticatedAt claims) (st_revoked st) \<and>
     (\<exists>client. fst (exchange_LookupClient x now clientID (st_dcr st)) = Inr (Some client) \<and> pkce_ok J client claims v)"

text \<open>The single-use registry admits the code.\<close>

definition code_unused :: "'s exchange \<Rightarrow> instant \<Rightarrow> AuthorizationCodeClaims \<Rightarrow> 's \<Rightarrow> bool" where
  "code_unused x now claims s \<longleftrightarrow> x_cached x \<longrightarrow>
     a_JTI claims \<noteq> [] \<and> (\<exists>v cur. fst (op_GetAndDelete (x_ops x) now (a_JTI claims) s) = Inr (v, True, cur))"

lemma revocation_check_iff:
  "fst (refuseRevokedAuthentication x now sub authenticatedAt s) = None \<longleftrightarrow> not_revoked_since x now sub authenticatedAt s"
proof (cases "x_tokens x")
  case (Some p)
  obtain tm hasStore where p: "p = (tm, hasStore)" by (cases p)
  obtain r s1 where r: "SubjectRevokedSince (x_paseto x) (if hasStore then Some (x_ops x) else None) now sub (authenticatedAt * second) s = (r, s1)"
    by force
  show ?thesis
    by (cases r; cases "projr r") (simp_all add: refuseRevokedAuthentication_def not_revoked_since_def Some p r)
qed (simp add: not_revoked_since_def refuseRevokedAuthentication_def)

lemma code_client_iff:
  "fst (code_client x J now clientID v claims st) = None \<longleftrightarrow>
   (\<exists>client. fst (exchange_LookupClient x now clientID (st_dcr st)) = Inr (Some client) \<and> pkce_ok J client claims v)"
proof -
  obtain r s1 where l: "exchange_LookupClient x now clientID (st_dcr st) = (r, s1)" by force
  show ?thesis by (cases r; cases "projr r") (simp_all add: code_client_def l pkce_check_iff)
qed

lemma code_client_codes: "st_codes (snd (code_client x J now clientID v claims st)) = st_codes st"
  by (auto simp: code_client_def split: prod.split sum.split option.split)

lemma code_consume_iff: "fst (code_consume x now claims st) = None \<longleftrightarrow> code_unused x now claims (st_codes st)"
proof -
  obtain r s1 where g: "op_GetAndDelete (x_ops x) now (a_JTI claims) (st_codes st) = (r, s1)" by force
  show ?thesis by (cases r) (auto simp: code_consume_def code_unused_def g split: if_splits)
qed

lemma code_consume_codes:
  "x_cached x \<Longrightarrow> a_JTI claims \<noteq> [] \<Longrightarrow>
   st_codes (snd (code_consume x now claims st)) = snd (op_GetAndDelete (x_ops x) now (a_JTI claims) (st_codes st))"
  by (auto simp: code_consume_def split: prod.split sum.split)

lemma check_then_fst: "fst (check_then r f) = None \<longleftrightarrow> fst r = None \<and> fst (f (snd r)) = None"
  by (cases r; cases "fst r") (simp_all add: check_then_def)

lemma check_then_snd: "fst r = None \<Longrightarrow> check_then r f = f (snd r)"
  by (cases r) (simp add: check_then_def)

text \<open>The checks pass exactly on a redeemable, unused code.\<close>

lemma code_checks_iff:
  "fst (code_checks x J now clientID redirectURI v claims st) = None \<longleftrightarrow>
   code_redeemable x J now clientID redirectURI v claims st \<and> code_unused x now claims (st_codes st)"
  by (simp add: code_checks_def check_then_fst revocation_check_iff code_client_iff code_consume_iff code_client_codes
      code_redeemable_def)

lemma code_checks_codes:
  assumes "fst (code_checks x J now clientID redirectURI v claims st) = None" and "x_cached x"
  shows "st_codes (snd (code_checks x J now clientID redirectURI v claims st)) =
    snd (op_GetAndDelete (x_ops x) now (a_JTI claims) (st_codes st))"
proof -
  have r: "code_redeemable x J now clientID redirectURI v claims st" "a_JTI claims \<noteq> []"
    using assms by (simp_all add: code_checks_iff code_unused_def)
  let ?st1 = "st\<lparr>st_revoked := snd (refuseRevokedAuthentication x now (a_Subject claims) (a_AuthenticatedAt claims) (st_revoked st))\<rparr>"
  have p: "fst (refuseRevokedAuthentication x now (a_Subject claims) (a_AuthenticatedAt claims) (st_revoked st)) = None"
    "fst (code_client x J now clientID v claims ?st1) = None"
    using r(1) by (simp_all add: revocation_check_iff code_client_iff code_redeemable_def)
  then have "code_checks x J now clientID redirectURI v claims st =
      code_consume x now claims (snd (code_client x J now clientID v claims ?st1))"
    using r(1) by (simp add: code_checks_def check_then_snd code_redeemable_def)
  then show ?thesis using code_consume_codes [OF assms(2) r(2)] by (simp add: code_client_codes)
qed

lemma mint_from_code_codes: "st_codes (snd (mintTokensFromCode x now jti jti' i claims st)) = st_codes st"
  by (auto simp: mintTokensFromCode_def Let_def split: prod.split option.split sum.split)

lemma redeem_code_opened:
  assumes "open_sealed J blockKey sealPurposeAuthCode code = Inr payload" and "sc_UnmarshalCode (x_codec x) payload = Inr claims"
  shows "RedeemAuthorizationCode x J blockKey now F code clientID redirectURI v st =
    (case code_checks x J now clientID redirectURI v claims st of
       (Some e, st1) \<Rightarrow> ((only_subject (a_Subject claims), Some e), st1)
     | (None, st1) \<Rightarrow> mintTokensFromCode x now (f_jti F) (f_jti' F) (f_newID F) claims st1)"
  using assms by (simp add: RedeemAuthorizationCode_def)

lemma redeem_code_success:
  assumes "RedeemAuthorizationCode x J blockKey now F code clientID redirectURI v st = ((ts, None), st')"
  shows "\<exists>payload claims st1. open_sealed J blockKey sealPurposeAuthCode code = Inr payload \<and>
    sc_UnmarshalCode (x_codec x) payload = Inr claims \<and> code_checks x J now clientID redirectURI v claims st = (None, st1) \<and>
    mintTokensFromCode x now (f_jti F) (f_jti' F) (f_newID F) claims st1 = ((ts, None), st')"
proof -
  obtain payload where o: "open_sealed J blockKey sealPurposeAuthCode code = Inr payload"
    using assms by (cases "open_sealed J blockKey sealPurposeAuthCode code") (simp_all add: RedeemAuthorizationCode_def)
  obtain claims where c: "sc_UnmarshalCode (x_codec x) payload = Inr claims"
    using assms by (cases "sc_UnmarshalCode (x_codec x) payload") (simp_all add: RedeemAuthorizationCode_def o)
  obtain e st1 where k: "code_checks x J now clientID redirectURI v claims st = (e, st1)" by force
  have "e = None" using assms by (cases e) (simp_all add: redeem_code_opened [OF o c] k)
  then show ?thesis using assms o c k by (simp add: redeem_code_opened [OF o c])
qed

lemma mint_from_code_success:
  assumes "mintTokensFromCode x now jti jti' i claims st = ((ts, None), st')"
  shows "ts_Subject ts = a_Subject claims" "ts_Scope ts = Join (granted_scopes (a_Scope claims) []) '' ''"
proof -
  obtain bs e where u: "userBindingSubject (x_kinds x) (x_ex x) (a_IDPClaims claims) (a_Subject claims) SiteAuthCode = (bs, e)" by force
  have e: "e = None" using assms by (cases e) (simp_all add: mintTokensFromCode_def u)
  obtain r s1 where r: "subjectSigningContext x now (a_Subject claims) bs (st_resolve st) = (r, s1)" by force
  obtain roles ents backend where rr: "r = Inr (roles, ents, backend)"
    using assms by (cases r; cases "projr r") (simp_all add: mintTokensFromCode_def u e r)
  let ?c = "snd (applyScopeFilter (code_context (bs_Kind bs) claims roles ents backend) (a_Scope claims) [])"
  let ?g = "granted_scopes (a_Scope claims) []"
  obtain p where p: "sign_pair x now jti jti' (a_ClientID claims) ?c ?g = Inr p"
    using assms by (cases "sign_pair x now jti jti' (a_ClientID claims) ?c ?g")
      (simp_all add: mintTokensFromCode_def u e r rr applyScopeFilter_def Let_def)
  have "\<exists>i. ts = (token_set p ?g (a_Subject claims))\<lparr>ts_RefreshToken := i\<rparr>"
  proof (cases "x_cached x")
    case False
    then have "ts = (token_set p ?g (a_Subject claims))\<lparr>ts_RefreshToken := []\<rparr>"
      using assms p by (auto simp: mintTokensFromCode_def u e r rr applyScopeFilter_def Let_def token_set_def)
    then show ?thesis by blast
  next
    case True
    obtain q s2 where q: "createRefreshToken x now i (code_refresh_claims claims (Join ?g '' '')) (st_refresh st) = (q, s2)" by force
    obtain i' where "q = Inr i'"
      using assms p True q by (cases q) (simp_all add: mintTokensFromCode_def u e r rr applyScopeFilter_def Let_def)
    then show ?thesis
      using assms p True q by (auto simp: mintTokensFromCode_def u e r rr applyScopeFilter_def Let_def)
  qed
  then show "ts_Subject ts = a_Subject claims" "ts_Scope ts = Join ?g '' ''" by (auto simp: token_set_def)
qed

section \<open>Properties\<close>


text \<open>A code works for the request it was made for. A code that \<open>CreateAuthorizationCode\<close> returns is
  registered, and presented with its client, redirect URI and verifier before both expiries by a subject
  not revoked since, it reaches the mint with the claims it was created with.\<close>

theorem code_round_trip:
  assumes "jose_law J" and "\<forall>c p. sc_MarshalCode (x_codec x) c = Inr p \<longrightarrow> sc_UnmarshalCode (x_codec x) p = Inr c"
    and "x_ops x = mem_ops" and "surviving (st_codes st)" and "a_JTI claims \<noteq> [] \<or> jti \<noteq> []"
    and "CreateAuthorizationCode x J blockKey now (Inr jti) claims (st_codes st) = (Inr code, s1)"
    and "c = code_defaults now jti claims" and "st1 = st\<lparr>st_codes := s1\<rparr>"
    and "code_redeemable x J now' clientID redirectURI v c st1" and "now' \<le> mem_deadline now [] (st_codes st)"
  shows "\<exists>st2. RedeemAuthorizationCode x J blockKey now' F code clientID redirectURI v st1 =
    mintTokensFromCode x now' (f_jti F) (f_jti' F) (f_newID F) c st2"
proof -
  have d: "code_defaults now (if a_JTI claims = [] then jti else []) claims = c" by (simp add: assms(7) code_defaults_def)
  have create: "CreateAuthorizationCode x J blockKey now (Inr jti) claims (st_codes st) =
      (case sc_MarshalCode (x_codec x) c of
         Inl e \<Rightarrow> (Inl (errorf (''failed to marshal auth code claims: '' @ err_msg e)), st_codes st)
       | Inr payload \<Rightarrow>
           (case (if x_cached x then op_Set (x_ops x) now (a_JTI c) ''1'' [] (st_codes st) else (None, st_codes st)) of
              (Some e, s1) \<Rightarrow> (Inl (errorf (''failed to register auth code jti: '' @ err_msg e)), s1)
            | (None, s1) \<Rightarrow> (seal J blockKey sealPurposeAuthCode payload, s1)))"
    unfolding d [symmetric] by (simp add: CreateAuthorizationCode_def Let_def)
  obtain payload where p: "sc_MarshalCode (x_codec x) c = Inr payload"
    using assms(6) unfolding create by (cases "sc_MarshalCode (x_codec x) c") simp_all
  have sl: "seal J blockKey sealPurposeAuthCode payload = Inr code"
    and reg: "x_cached x \<Longrightarrow> s1 = snd (op_Set mem_ops now (a_JTI c) ''1'' [] (st_codes st))"
    using assms(3,6) mem.set_result [OF assms(4), of now "a_JTI c" "''1''" "[]"] unfolding create p
    by (auto split: if_splits prod.splits option.splits)
  have o: "open_sealed J blockKey sealPurposeAuthCode code = Inr payload"
    using assms(1) sl by (simp add: jose_law_def seal_def open_sealed_def)
  have u: "sc_UnmarshalCode (x_codec x) payload = Inr c" using assms(2) p by blast
  have "code_unused x now' c s1"
  proof (cases "x_cached x")
    case True
    have v: "cache_view now' s1 (a_JTI c) = Some ''1''"
      using mem.set_self [OF assms(4), of now' now "a_JTI c" "''1''" "[]"] assms(10) by (simp add: reg [OF True])
    have s: "surviving s1" using mem.set_inv [OF assms(4)] by (simp add: reg [OF True])
    have "a_JTI c \<noteq> []" using assms(5) by (auto simp: assms(7) code_defaults_def)
    then show ?thesis using mem.take_result [OF s, of now' "a_JTI c"] v assms(3) by (auto simp: code_unused_def)
  qed (simp add: code_unused_def)
  then have "fst (code_checks x J now' clientID redirectURI v c st1) = None"
    using assms(9) by (simp add: code_checks_iff assms(8))
  then show ?thesis by (cases "code_checks x J now' clientID redirectURI v c st1") (auto simp: redeem_code_opened [OF o u])
qed

text \<open>A library that keeps the key in the clear, and one code.\<close>

definition demo_jose :: jose_lib where
  "demo_jose = \<lparr>jo_Encrypt = (\<lambda>k p. Inr (k @ [CHR 0x00] @ p)), jo_ParseError = (\<lambda>_. None),
     jo_Decrypt = (\<lambda>k c. if HasPrefix c (k @ [CHR 0x00]) then Inr (drop (Suc (length k)) c) else Inl (errorf ''key'')),
     jo_Sha256 = (\<lambda>s. s), jo_Base64 = (\<lambda>s. s)\<rparr>"

lemma demo_jose_law: "jose_law demo_jose"
  by (auto simp: jose_law_def demo_jose_def HasPrefix_iff)

definition demo_code_claims :: AuthorizationCodeClaims where
  "demo_code_claims = \<lparr>a_AuthMethod = ''local'', a_ClientID = ''app'', a_CodeChallenge = ''v'', a_CodeChallengeMethod = ''S256'', a_Exp = 600,
     a_IDPClaims = [], a_JTI = ''jti'', a_RedirectURI = ''https://app/cb'', a_Resource = [], a_Scope = ''openid'', a_Subject = ''alice'',
     a_AuthenticatedAt = 5\<rparr>"

definition demo_code_exchange :: "InMemoryCache exchange" where
  "demo_code_exchange = demo_exchange\<lparr>x_codec := demo_session_codec\<lparr>
     sc_MarshalCode := (\<lambda>c. if c = demo_code_claims then Inr ''c'' else Inl (errorf ''json'')),
     sc_UnmarshalCode := (\<lambda>p. if p = ''c'' then Inr demo_code_claims else Inl (errorf ''json''))\<rparr>\<rparr>"

definition demo_code_stores :: "InMemoryCache stores" where
  "demo_code_stores = demo_stores\<lparr>st_codes := snd (CreateAuthorizationCode demo_code_exchange demo_jose ''bk'' 0 (Inr []) demo_code_claims
     (demo_class ''auth-codes''))\<rparr>"

lemma demo_code_surviving: "surviving (demo_class name)"
  using demo_class_unbounded by (simp add: unbounded_def)


theorem code_round_trip_witness:
  "\<exists>st2. RedeemAuthorizationCode demo_code_exchange demo_jose ''bk'' minute demo_ids (''bk'' @ [CHR 0x00] @ ''c'') ''app'' ''https://app/cb'' ''v''
      (demo_stores\<lparr>st_codes := snd (CreateAuthorizationCode demo_code_exchange demo_jose ''bk'' 0 (Inr []) demo_code_claims (st_codes demo_stores))\<rparr>) =
    mintTokensFromCode demo_code_exchange minute ''j1'' ''j2'' ''N'' demo_code_claims st2"
proof -
  let ?c = "CreateAuthorizationCode demo_code_exchange demo_jose ''bk'' 0 (Inr []) demo_code_claims (st_codes demo_stores)"
  let ?st1 = "demo_stores\<lparr>st_codes := snd ?c\<rparr>"
  have "fst ?c = Inr (''bk'' @ [CHR 0x00] @ ''c'')" by code_simp
  then have c: "?c = (Inr (''bk'' @ [CHR 0x00] @ ''c''), snd ?c)" by (metis prod.collapse)
  have d: "code_defaults 0 [] demo_code_claims = demo_code_claims" by code_simp
  have k: "x_ops demo_code_exchange = mem_ops"
    "\<forall>c p. sc_MarshalCode (x_codec demo_code_exchange) c = Inr p \<longrightarrow> sc_UnmarshalCode (x_codec demo_code_exchange) p = Inr c"
    by (auto simp: demo_code_exchange_def demo_exchange_def split: if_splits)
  have s: "surviving (st_codes demo_stores)" by (simp add: demo_stores_def demo_code_surviving)
  have "fst (code_checks demo_code_exchange demo_jose minute ''app'' ''https://app/cb'' ''v'' demo_code_claims ?st1) = None" by code_simp
  then have r: "code_redeemable demo_code_exchange demo_jose minute ''app'' ''https://app/cb'' ''v'' (code_defaults 0 [] demo_code_claims) ?st1"
    by (simp add: code_checks_iff d)
  have "(60000000000 :: int) \<le> mem_deadline 0 [] (st_codes demo_stores)" by code_simp
  moreover have "a_JTI demo_code_claims \<noteq> [] \<or> [] \<noteq> []" by (simp add: demo_code_claims_def)
  moreover have "f_jti demo_ids = ''j1''" "f_jti' demo_ids = ''j2''" "f_newID demo_ids = ''N''" by (simp_all add: demo_ids_def)
  ultimately show ?thesis
    using code_round_trip [OF demo_jose_law k(2,1) s _ c refl refl r, of demo_ids] by (simp add: d)
qed

end
