(* ===== verification/SessionGrants.thy ===== *)
theory SessionGrants
  imports Refresh "HOL-Library.Word"
begin

text \<open>
  Contexts rebuilt from a credential the host issued: the context of an API token and its veto
  (\<open>src/internal/auth/subject_kind.go\<close>), the issue-time test against a subject revocation
  (\<open>subject_revocation.go\<close>), the resource-bound token (\<open>MintResourcePAT\<close>), and the per-request refresh of
  a browser session's grants with its shared cache and generation (\<open>session_grants.go\<close>).

  The numeric-date accessors of the JWT library are parameters, as are the jittered lifetime and the
  wall-clock text. A singleflight group runs its function once per flight; one request runs it alone here.
\<close>

section \<open>Issue times\<close>

text \<open>\<open>GetExpirationTime\<close> and \<open>GetIssuedAt\<close> of golang-jwt's map claims: absent is no date.\<close>

record date_lib =
  dl_Exp :: "mapclaims \<Rightarrow> goerror + instant option"
  dl_Iat :: "mapclaims \<Rightarrow> goerror + instant option"

definition issuedAtOf :: "date_lib \<Rightarrow> mapclaims \<Rightarrow> int" where
  "issuedAtOf D ac = (case dl_Iat D ac of Inr (Some t) \<Rightarrow> Unix t | _ \<Rightarrow> 0)"

text \<open>The zero \<open>time.Time\<close>, before every instant a revocation records.\<close>

definition zero_time :: instant where
  "zero_time = - (62135596800 * second)"

definition CredentialPredatesRevocation ::
  "paseto_lib \<Rightarrow> signer_lib \<Rightarrow> date_lib \<Rightarrow> (TokenManager \<times> 's cache_ops option) option \<Rightarrow> instant \<Rightarrow> mapclaims \<Rightarrow> 's \<Rightarrow>
   (goerror + bool) \<times> 's" where
  "CredentialPredatesRevocation P L D tokens now ac s =
     (case tokens of
        None \<Rightarrow> (Inr False, s)
      | Some (tm, store) \<Rightarrow>
          (case lib_GetSubject L ac of
             Inl _ \<Rightarrow> (Inr False, s)
           | Inr sub \<Rightarrow>
               if sub = [] then (Inr False, s)
               else let issuedAt = (case dl_Iat D ac of Inr (Some t) \<Rightarrow> t | _ \<Rightarrow> zero_time)
                    in SubjectRevokedSince P store now sub issuedAt s))"

section \<open>API token contexts\<close>

definition patSubjectKind :: "kind_lib \<Rightarrow> Exchanger \<Rightarrow> TokenData \<Rightarrow> string" where
  "patSubjectKind K e data = kindOrLegacy K (Some e) (td_SubjectKind data) (td_Subject data)"

definition VetoPAT :: "kind_lib \<Rightarrow> Exchanger \<Rightarrow> TokenData \<Rightarrow> string \<Rightarrow> goerror option" where
  "VetoPAT K e data site =
     VetoCredential K (Some e) (td_Subject data) (patSubjectKind K e data) (td_IssuedAt data) site"

definition pat_context :: "TokenData \<Rightarrow> string \<Rightarrow> string list \<Rightarrow> string list \<Rightarrow> mapclaims" where
  "pat_context data kind roles ents =
     [(''sub'', VStr (td_Subject data)), (''roles'', VStrs roles), (''entitlements'', VStrs ents),
      (''scp'', VStr (td_Scope data)), (ClaimIssuedAt, VFloat (FFinite (td_IssuedAt data) 0)), (ClaimSubjectKind, VStr kind)]"

definition PATAuthContext ::
  "'s exchange \<Rightarrow> instant \<Rightarrow> TokenData \<Rightarrow> string \<Rightarrow> 's \<Rightarrow> (goerror + mapclaims) \<times> 's" where
  "PATAuthContext x now data site s =
     (let kind = patSubjectKind (x_kinds x) (x_ex x) data
      in case VetoCredential (x_kinds x) (Some (x_ex x)) (td_Subject data) kind (td_IssuedAt data) site of
           Some e \<Rightarrow> (Inl e, s)
         | None \<Rightarrow>
             (case ResolveInternalRolesAndEntitlements x \<lparr>bs_Key = td_Subject data, bs_Kind = kind, bs_Site = site\<rparr> of
                Inl e \<Rightarrow> (Inl (wrapf (err_is e) (''failed to resolve the roles of an api token's subject: '' @ err_msg e)), s)
              | Inr (roles, ents) \<Rightarrow>
                  (case ResolveSubjectClaims x now (td_Subject data) s of
                     (backend, s1) \<Rightarrow> (Inr (mergeBackendClaims (pat_context data kind roles ents) backend), s1))))"

definition MintResourcePAT ::
  "'s exchange \<Rightarrow> instant \<Rightarrow> string \<Rightarrow> string \<Rightarrow> string \<Rightarrow> duration \<Rightarrow> goerror + string \<times> duration" where
  "MintResourcePAT x now resource subject scope ttl =
     (case x_tokens x of
        None \<Rightarrow> Inl (errorf ''no token manager configured'')
      | Some (tm, _) \<Rightarrow>
          (let ttl' = CapTTL tm ttl
           in bindE (MintStatelessKey (x_paseto x) (x_kinds x) tm now resource subject (SubjectKindUser (x_kinds x)) ''mcp'' scope ttl')
                (\<lambda>pat. Inr (pat, ttl'))))"

section \<open>The grant generation\<close>

text \<open>What the refresh reads of the exchanger beyond the mints: the two shared caches, when there is a
  cache manager, and the nonce of this process.\<close>

record grant_env =
  ge_grantCache :: bool
  ge_genCache :: bool
  ge_nonce :: string

record 's grant_state =
  gr_grants :: 's
  gr_gen :: 's
  gr_seq :: "64 word"

definition grantGenKey :: string where "grantGenKey = ''current''"
definition sessionGrantTTL :: duration where "sessionGrantTTL = 60 * second"
definition CapUsesClaim :: string where "CapUsesClaim = ''kdx_cap''"

definition grantGeneration :: "grant_env \<Rightarrow> 's cache_ops \<Rightarrow> instant \<Rightarrow> 's grant_state \<Rightarrow> string \<times> 's grant_state" where
  "grantGeneration G ops now g =
     (if \<not> ge_genCache G then ([], g)
      else case op_Get ops now grantGenKey (gr_gen g) of
             (Inr (raw, True, _), s1) \<Rightarrow> (raw, g\<lparr>gr_gen := s1\<rparr>)
           | (_, s1) \<Rightarrow> ([], g\<lparr>gr_gen := s1\<rparr>))"

definition next_generation :: "grant_env \<Rightarrow> int \<Rightarrow> 64 word \<Rightarrow> string \<times> 64 word" where
  "next_generation G nano seq =
     (if ge_nonce G = [] then (FormatInt nano @ ''-'' @ format_nat (unat (seq + 2)), seq + 2)
      else (ge_nonce G @ ''-'' @ format_nat (unat (seq + 1)), seq + 1))"

definition BumpGrantGeneration :: "grant_env \<Rightarrow> 's cache_ops \<Rightarrow> instant \<Rightarrow> 's grant_state \<Rightarrow> 's grant_state" where
  "BumpGrantGeneration G ops now g =
     (if \<not> ge_genCache G then g
      else let (gen, seq) = next_generation G now (gr_seq g)
           in g\<lparr>gr_seq := seq, gr_gen := snd (op_Set ops now grantGenKey gen [] (gr_gen g))\<rparr>)"

section \<open>The refresh of a session's grants\<close>

definition dropGrants :: "mapclaims \<Rightarrow> string list \<Rightarrow> mapclaims" where
  "dropGrants ac scopes = overlayScopedClaims ac [(''roles'', VStrs []), (''entitlements'', VStrs [])] scopes"

definition grant_context :: "mapclaims \<Rightarrow> string \<Rightarrow> string list \<Rightarrow> string list \<Rightarrow> mapclaims \<Rightarrow> mapclaims" where
  "grant_context ac subject roles ents backend =
     mergeBackendClaims
       (AList.update ''entitlements'' (VStrs ents) (AList.update ''roles'' (VStrs roles) (AList.update ''sub'' (VStr subject) ac)))
       backend"

text \<open>A cached projection: a hit is a non-empty record that parses.\<close>

definition cached_grants :: "grant_env \<Rightarrow> 's exchange \<Rightarrow> instant \<Rightarrow> string \<Rightarrow> 's grant_state \<Rightarrow> mapclaims option \<times> 's grant_state" where
  "cached_grants G x now key g =
     (if \<not> ge_grantCache G then (None, g)
      else case op_Get (x_ops x) now key (gr_grants g) of
             (Inr (raw, True, _), s1) \<Rightarrow>
               (if raw = [] then None
                else case sc_UnmarshalClaims (x_codec x) raw of Inl _ \<Rightarrow> None | Inr p \<Rightarrow> Some p, g\<lparr>gr_grants := s1\<rparr>)
           | (_, s1) \<Rightarrow> (None, g\<lparr>gr_grants := s1\<rparr>))"

definition resolve_grants ::
  "'s exchange \<Rightarrow> Signer \<Rightarrow> mapclaims \<Rightarrow> string \<Rightarrow> BindingSubject \<Rightarrow> goerror + mapclaims" where
  "resolve_grants x signer ac subject bs =
     bindE (ResolveInternalRolesAndEntitlements x bs) (\<lambda>(roles, ents).
     bindE (ResolveSubjectClaimsLive x subject) (\<lambda>backend.
       Project (x_lib x) signer (grant_context ac subject roles ents backend)))"

definition store_grants ::
  "grant_env \<Rightarrow> 's exchange \<Rightarrow> instant \<Rightarrow> duration \<Rightarrow> string \<Rightarrow> mapclaims \<Rightarrow> 's grant_state \<Rightarrow> 's grant_state" where
  "store_grants G x now ttl key projected g =
     (if \<not> ge_grantCache G then g
      else case sc_MarshalClaims (x_codec x) projected of
             Inl _ \<Rightarrow> g
           | Inr payload \<Rightarrow> g\<lparr>gr_grants := snd (op_Set (x_ops x) now key payload [WithTTL ttl] (gr_grants g))\<rparr>)"

definition live_grants ::
  "grant_env \<Rightarrow> 's exchange \<Rightarrow> Signer \<Rightarrow> instant \<Rightarrow> duration \<Rightarrow> mapclaims \<Rightarrow> string \<Rightarrow> string list \<Rightarrow> BindingSubject \<Rightarrow>
   's grant_state \<Rightarrow> mapclaims \<times> 's grant_state" where
  "live_grants G x signer now ttl ac subject scopes bs g =
     (let (gen, g1) = grantGeneration G (x_ops x) now g;
          key = gen @ ''|'' @ subject;
          (hit, g2) = cached_grants G x now key g1
      in case hit of
           Some projected \<Rightarrow> (overlayScopedClaims ac projected scopes, g2)
         | None \<Rightarrow>
             (case resolve_grants x signer ac subject bs of
                Inl _ \<Rightarrow> (ac, g2)
              | Inr projected \<Rightarrow>
                  (overlayScopedClaims ac projected scopes, store_grants G x now ttl key projected g2)))"

definition refreshSessionGrants ::
  "grant_env \<Rightarrow> 's exchange \<Rightarrow> Signer \<Rightarrow> instant \<Rightarrow> duration \<Rightarrow> mapclaims \<Rightarrow> 's grant_state \<Rightarrow> mapclaims \<times> 's grant_state" where
  "refreshSessionGrants G x signer now ttl ac g =
     (if claim_bool ac CapUsesClaim then (ac, g)
      else case lib_GetSubject (x_lib x) ac of
             Inl _ \<Rightarrow> (ac, g)
           | Inr subject \<Rightarrow>
               if subject = [] then (ac, g)
               else let scopes = strings_or_none (GetScopes ac)
                    in if ContextSubjectKind (x_kinds x) (Some (x_ex x)) ac \<noteq> SubjectKindUser (x_kinds x)
                       then (if claim_string ac ClaimSubjectKind = [] then dropGrants ac scopes else ac, g)
                       else case userBindingSubject (x_kinds x) (x_ex x) ac subject SiteSessionGrantRefresh of
                              (_, Some _) \<Rightarrow> (dropGrants ac scopes, g)
                            | (bs, None) \<Rightarrow> live_grants G x signer now ttl ac subject scopes bs g)"

section \<open>Lemmas\<close>

text \<open>The refresh rewrites roles and entitlements only, and leaves each at most where the token's scope
  names it; whatever else it may do, the token is returned or overlaid.\<close>

lemma refreshed_is_overlay:
  "fst (refreshSessionGrants G x signer now ttl ac g) = ac \<or>
   (\<exists>p. fst (refreshSessionGrants G x signer now ttl ac g) = overlayScopedClaims ac p (strings_or_none (GetScopes ac)))"
  by (auto simp: refreshSessionGrants_def live_grants_def dropGrants_def Let_def split: sum.splits prod.splits option.splits)

lemma refreshed_other:
  "k \<notin> {''roles'', ''entitlements''} \<Longrightarrow> map_of (fst (refreshSessionGrants G x signer now ttl ac g)) k = map_of ac k"
  using refreshed_is_overlay [of G x signer now ttl ac g] by (auto simp: map_of_overlayScopedClaims)

lemma refreshed_scoped:
  assumes "fst (refreshSessionGrants G x signer now ttl ac g) \<noteq> ac" and "k \<in> {''roles'', ''entitlements''}"
    and "k \<notin> set (strings_or_none (GetScopes ac))"
  shows "map_of (fst (refreshSessionGrants G x signer now ttl ac g)) k = None"
  using refreshed_is_overlay [of G x signer now ttl ac g] assms by (auto simp: map_of_overlayScopedClaims)

lemma capability_not_refreshed: "claim_bool ac CapUsesClaim \<Longrightarrow> refreshSessionGrants G x signer now ttl ac g = (ac, g)"
  by (simp add: refreshSessionGrants_def)

text \<open>A minted resource token is a valid key of its resource for the capped lifetime.\<close>

lemma MintResourcePAT_capped:
  "MintResourcePAT x now resource subject scope ttl = Inr (pat, ttl') \<Longrightarrow>
    \<exists>tm r. x_tokens x = Some (tm, r) \<and> ttl' = CapTTL tm ttl \<and> (tm_maxTTL tm > 0 \<longrightarrow> ttl' \<le> tm_maxTTL tm) \<and>
      MintStatelessKey (x_paseto x) (x_kinds x) tm now resource subject (SubjectKindUser (x_kinds x)) ''mcp'' scope ttl' = Inr pat"
  by (auto simp: MintResourcePAT_def CapTTL_def bindE_Inr_iff Let_def split: option.splits)

section \<open>Generations\<close>

text \<open>The generation this process writes at its \<open>n\<close>-th bump, and the keys a session's projection is
  cached under.\<close>

definition generation :: "grant_env \<Rightarrow> nat \<Rightarrow> string" where
  "generation G n = ge_nonce G @ ''-'' @ format_nat n"

definition grant_key :: "string \<Rightarrow> string \<Rightarrow> string" where
  "grant_key gen subject = gen @ ''|'' @ subject"

definition nonce_ok :: "grant_env \<Rightarrow> bool" where
  "nonce_ok G \<longleftrightarrow> ge_genCache G \<and> ge_nonce G \<noteq> [] \<and> CHR ''|'' \<notin> set (ge_nonce G)"

lemma format_nat_inject: "format_nat m = format_nat n \<Longrightarrow> m = n"
  by (metis parse_format_nat option.inject)

lemma format_nat_digits: "c \<in> set (format_nat n) \<Longrightarrow> \<exists>d < 10. c = digit_char d"
proof (induction n rule: format_nat.induct)
  case (1 n)
  have "format_nat n = (if n < 10 then [digit_char n] else format_nat (n div 10) @ [digit_char (n mod 10)])"
    by (rule format_nat.simps)
  moreover have "\<exists>d < 10. digit_char (n mod 10) = digit_char d" by (rule exI [of _ "n mod 10"]) simp
  ultimately show ?case using 1 by (auto split: if_splits)
qed

lemma format_nat_no_bar: "CHR ''|'' \<notin> set (format_nat n)"
proof
  assume "CHR ''|'' \<in> set (format_nat n)"
  then obtain d where "d < 10" "CHR ''|'' = digit_char d" using format_nat_digits by blast
  moreover have "(of_char CHR ''|'' :: nat) = 124" by simp
  ultimately show False by (simp add: digit_char_def)
qed

lemma before_bar: "CHR ''|'' \<notin> set a \<Longrightarrow> CHR ''|'' \<notin> set b \<Longrightarrow> a @ ''|'' @ s = b @ ''|'' @ t \<Longrightarrow> a = b"
  by (induction a arbitrary: b) (auto simp: Cons_eq_append_conv append_eq_Cons_conv)

lemma grant_key_new:
  assumes "nonce_ok G" and "grant_key (generation G n) sub = grant_key gen sub'"
    and "gen = [] \<or> (\<exists>m. gen = generation G m)"
  shows "gen = generation G n"
proof -
  have bar: "CHR ''|'' \<notin> set (generation G m)" for m
    using assms(1) format_nat_no_bar by (simp add: nonce_ok_def generation_def)
  have "CHR ''|'' \<notin> set gen" using assms(3) bar by auto
  from before_bar [OF bar this assms(2) [unfolded grant_key_def]] show ?thesis by simp
qed

text \<open>Any sequence of bumps and refreshes of one process, from empty caches; the counter has not wrapped.\<close>

inductive grant_reach ::
  "grant_env \<Rightarrow> 's exchange \<Rightarrow> Signer \<Rightarrow> 's grant_state \<Rightarrow> 's grant_state \<Rightarrow> bool" for G x signer g0 where
  grant_start: "grant_reach G x signer g0 g0"
| grant_bump: "grant_reach G x signer g0 g \<Longrightarrow> unat (gr_seq g) + 1 < 2 ^ 64 \<Longrightarrow>
    grant_reach G x signer g0 (BumpGrantGeneration G (x_ops x) now g)"
| grant_refresh: "grant_reach G x signer g0 g \<Longrightarrow>
    grant_reach G x signer g0 (snd (refreshSessionGrants G x signer now ttl ac g))"

lemma unat_Suc_word: "unat (w :: 64 word) + 1 < 2 ^ 64 \<Longrightarrow> unat (w + 1) = unat w + 1"
  by (simp add: unat_word_ariths)

lemma bump_is:
  assumes "nonce_ok G" and "unat (gr_seq g) + 1 < 2 ^ 64"
  shows "BumpGrantGeneration G ops now g =
    g\<lparr>gr_seq := gr_seq g + 1,
      gr_gen := snd (op_Set ops now grantGenKey (generation G (unat (gr_seq g) + 1)) [] (gr_gen g))\<rparr>"
  using assms by (simp add: BumpGrantGeneration_def next_generation_def nonce_ok_def generation_def unat_Suc_word)

context kv_store
begin

definition gen_ok :: "grant_env \<Rightarrow> 's grant_state \<Rightarrow> bool" where
  "gen_ok G g \<longleftrightarrow>
     (\<forall>t v. view t (gr_gen g) grantGenKey = Some v \<longrightarrow> (\<exists>n \<le> unat (gr_seq g). v = generation G n))"

definition keys_known :: "grant_env \<Rightarrow> 's grant_state \<Rightarrow> bool" where
  "keys_known G g \<longleftrightarrow>
     (\<forall>t k v. view t (gr_grants g) k = Some v \<longrightarrow>
        (\<exists>gen sub. k = grant_key gen sub \<and> (gen = [] \<or> (\<exists>n \<le> unat (gr_seq g). gen = generation G n))))"

definition grants_inv :: "grant_env \<Rightarrow> 's grant_state \<Rightarrow> bool" where
  "grants_inv G g \<longleftrightarrow> inv (gr_grants g) \<and> inv (gr_gen g) \<and> gen_ok G g \<and> keys_known G g"

lemma grants_inv_bump:
  assumes "grants_inv G g" and "nonce_ok G" and "unat (gr_seq g) + 1 < 2 ^ 64"
  shows "grants_inv G (BumpGrantGeneration G ops now g)"
proof -
  have seq: "unat (gr_seq g + 1) = unat (gr_seq g) + 1" using assms(3) by (rule unat_Suc_word)
  have "gen_ok G (BumpGrantGeneration G ops now g)"
    using assms(1) unfolding bump_is [OF assms(2,3)] gen_ok_def
    by (auto simp: grants_inv_def set_self seq split: if_splits)
  moreover have "keys_known G (BumpGrantGeneration G ops now g)"
    using assms(1) unfolding bump_is [OF assms(2,3)] keys_known_def grants_inv_def
    by (simp add: seq) (meson le_SucI)
  ultimately show ?thesis
    using assms(1) by (simp add: grants_inv_def bump_is [OF assms(2,3)] set_inv)
qed

lemma generation_read:
  assumes "grants_inv G g" and "ge_genCache G"
  shows "\<exists>g1. grantGeneration G ops t g = (case view t (gr_gen g) grantGenKey of None \<Rightarrow> [] | Some v \<Rightarrow> v, g1) \<and>
    grants_inv G g1 \<and> gr_grants g1 = gr_grants g \<and> gr_seq g1 = gr_seq g"
proof -
  have i: "inv (gr_gen g)" using assms(1) by (simp add: grants_inv_def)
  obtain s1 where s1: "op_Get ops t grantGenKey (gr_gen g) = (Inr (found_result (view t (gr_gen g) grantGenKey)), s1)"
    using get_result [OF i, of t grantGenKey] by (metis prod.collapse)
  have s1': "s1 = snd (op_Get ops t grantGenKey (gr_gen g))" by (simp add: s1)
  have "grants_inv G (g\<lparr>gr_gen := s1\<rparr>)"
    using assms(1) i by (simp add: grants_inv_def gen_ok_def keys_known_def s1' get_inv get_view)
  then show ?thesis
    using s1 assms(2) by (cases "view t (gr_gen g) grantGenKey") (auto simp: grantGeneration_def found_result_def)
qed

lemma cached_read:
  assumes "grants_inv G g" and "x_ops x = ops"
  shows "\<exists>hit g1. cached_grants G x t key g = (hit, g1) \<and> grants_inv G g1 \<and> gr_seq g1 = gr_seq g \<and>
    (view t (gr_grants g) key = None \<longrightarrow> hit = None)"
proof (cases "ge_grantCache G")
  case True
  have i: "inv (gr_grants g)" using assms(1) by (simp add: grants_inv_def)
  obtain s1 where s1: "op_Get ops t key (gr_grants g) = (Inr (found_result (view t (gr_grants g) key)), s1)"
    using get_result [OF i, of t key] by (metis prod.collapse)
  have s1': "s1 = snd (op_Get ops t key (gr_grants g))" by (simp add: s1)
  have "grants_inv G (g\<lparr>gr_grants := s1\<rparr>)"
    using assms(1) i by (simp add: grants_inv_def gen_ok_def keys_known_def s1' get_inv get_view)
  then show ?thesis
    using s1 True assms(2) by (cases "view t (gr_grants g) key") (auto simp: cached_grants_def found_result_def)
qed (use assms(1) in \<open>simp add: cached_grants_def\<close>)

lemma store_keeps:
  assumes "grants_inv G g" and "x_ops x = ops" and "gen = [] \<or> (\<exists>n \<le> unat (gr_seq g). gen = generation G n)"
  shows "grants_inv G (store_grants G x now ttl (grant_key gen sub) p g)"
proof (cases "sc_MarshalClaims (x_codec x) p")
  case (Inr payload)
  let ?s = "snd (op_Set ops now (grant_key gen sub) payload [WithTTL ttl] (gr_grants g))"
  have i: "inv (gr_grants g)" using assms(1) by (simp add: grants_inv_def)
  have "\<exists>gen sub. k = grant_key gen sub \<and> (gen = [] \<or> (\<exists>n \<le> unat (gr_seq g). gen = generation G n))"
    if "view t ?s k = Some v" for t k v
  proof (cases "k = grant_key gen sub")
    case False
    with set_other_le [OF i False, of t now payload "[WithTTL ttl]"] that have "view t (gr_grants g) k = Some v" by auto
    then show ?thesis using assms(1) unfolding grants_inv_def keys_known_def by blast
  qed (use assms(3) in blast)
  then have "keys_known G (g\<lparr>gr_grants := ?s\<rparr>)" unfolding keys_known_def by simp
  then show ?thesis
    using assms(1,2) i Inr by (simp add: store_grants_def grants_inv_def gen_ok_def set_inv)
qed (use assms in \<open>simp add: store_grants_def\<close>)

lemma live_grants_keeps:
  assumes "grants_inv G g" and "nonce_ok G" and "x_ops x = ops"
  shows "grants_inv G (snd (live_grants G x signer now ttl ac subject scopes bs g))"
proof -
  have gc: "ge_genCache G" using assms(2) by (simp add: nonce_ok_def)
  obtain gen g1 where g1: "grantGeneration G ops now g = (gen, g1)" "grants_inv G g1" "gr_seq g1 = gr_seq g"
    and gen: "gen = (case view now (gr_gen g) grantGenKey of None \<Rightarrow> [] | Some v \<Rightarrow> v)"
    using generation_read [OF assms(1) gc, of now] by auto
  have known: "gen = [] \<or> (\<exists>n \<le> unat (gr_seq g). gen = generation G n)"
    using assms(1) gen by (auto simp: grants_inv_def gen_ok_def split: option.splits)
  obtain hit g2 where g2: "cached_grants G x now (gen @ ''|'' @ subject) g1 = (hit, g2)" "grants_inv G g2" "gr_seq g2 = gr_seq g"
    using cached_read [OF g1(2) assms(3), of now "gen @ ''|'' @ subject"] g1(3) by auto
  have "grants_inv G (store_grants G x now ttl (gen @ ''|'' @ subject) p g2)" for p
    using store_keeps [OF g2(2) assms(3), of gen now ttl subject p] known g2(3) by (simp add: grant_key_def)
  then show ?thesis
    using g1(1) g2 assms(3) by (auto simp: live_grants_def Let_def split: option.split sum.split)
qed

lemma refresh_keeps:
  assumes "grants_inv G g" and "nonce_ok G" and "x_ops x = ops"
  shows "grants_inv G (snd (refreshSessionGrants G x signer now ttl ac g))"
proof -
  have live: "grants_inv G (snd (live_grants G x signer now ttl ac subject scopes bs g))" for subject scopes bs
    using assms by (rule live_grants_keeps)
  show ?thesis
    unfolding refreshSessionGrants_def Let_def
    by (simp add: assms(1) live split: sum.split prod.split option.split)
qed

lemma grant_reach_inv:
  assumes "grant_reach G x signer g0 g" and "grants_inv G g0" and "nonce_ok G" and "x_ops x = ops"
  shows "grants_inv G g"
  using assms by (induction) (auto simp: grants_inv_bump refresh_keeps)

lemma fresh_after_bump:
  assumes "grants_inv G g" and "nonce_ok G" and "x_ops x = ops" and "unat (gr_seq g) + 1 < 2 ^ 64"
    and "t \<le> deadline t0 [] (gr_gen g)"
  shows "fst (live_grants G x signer t ttl ac subject scopes bs (BumpGrantGeneration G ops t0 g)) =
    (case resolve_grants x signer ac subject bs of Inl _ \<Rightarrow> ac | Inr p \<Rightarrow> overlayScopedClaims ac p scopes)"
proof -
  let ?g = "BumpGrantGeneration G ops t0 g" and ?n = "unat (gr_seq g) + 1"
  have gc: "ge_genCache G" using assms(2) by (simp add: nonce_ok_def)
  have inv': "grants_inv G ?g" using assms(1,2,4) by (rule grants_inv_bump)
  have "view t (gr_gen ?g) grantGenKey = Some (generation G ?n)"
    using assms(1,5) by (simp add: bump_is [OF assms(2,4)] grants_inv_def set_self)
  with generation_read [OF inv' gc, of t] obtain g1 where
    g1: "grantGeneration G ops t ?g = (generation G ?n, g1)" "grants_inv G g1" "gr_grants g1 = gr_grants ?g" by auto
  have "view t (gr_grants g1) (grant_key (generation G ?n) subject) = None"
  proof (rule ccontr)
    assume "view t (gr_grants g1) (grant_key (generation G ?n) subject) \<noteq> None"
    moreover have "gr_grants g1 = gr_grants g" by (simp add: g1(3) bump_is [OF assms(2,4)])
    ultimately obtain v where "view t (gr_grants g) (grant_key (generation G ?n) subject) = Some v" by auto
    moreover have "keys_known G g" using assms(1) by (simp add: grants_inv_def)
    ultimately obtain gen sub where k: "grant_key (generation G ?n) subject = grant_key gen sub"
      and gen: "gen = [] \<or> (\<exists>n \<le> unat (gr_seq g). gen = generation G n)"
      unfolding keys_known_def by blast
    from gen have "gen = generation G ?n" using grant_key_new [OF assms(2) k] by blast
    with gen obtain n where "n \<le> unat (gr_seq g)" "generation G n = generation G ?n"
      by (auto simp: generation_def)
    then show False using format_nat_inject [of n ?n] by (simp add: generation_def)
  qed
  then obtain g2 where "cached_grants G x t (generation G ?n @ ''|'' @ subject) g1 = (None, g2)"
    using cached_read [OF g1(2) assms(3), of t "generation G ?n @ ''|'' @ subject"] by (auto simp: grant_key_def)
  with g1(1) assms(3) show ?thesis by (simp add: live_grants_def Let_def split: sum.split)
qed

end

section \<open>Properties\<close>

lemma user_session_is_live:
  assumes "\<not> claim_bool ac CapUsesClaim" and "lib_GetSubject (x_lib x) ac = Inr subject" and "subject \<noteq> []"
    and "ContextSubjectKind (x_kinds x) (Some (x_ex x)) ac = SubjectKindUser (x_kinds x)"
    and "userBindingSubject (x_kinds x) (x_ex x) ac subject SiteSessionGrantRefresh = (bs, None)"
  shows "refreshSessionGrants G x signer now ttl ac g =
    live_grants G x signer now ttl ac subject (strings_or_none (GetScopes ac)) bs g"
  using assms by (simp add: refreshSessionGrants_def Let_def)


definition demo_grants :: "InMemoryCache grant_state" where
  "demo_grants = \<lparr>gr_grants = demo_class ''session-grants'', gr_gen = demo_class ''session-grant-gen'', gr_seq = 0\<rparr>"

definition demo_grant_env :: grant_env where
  "demo_grant_env = \<lparr>ge_grantCache = True, ge_genCache = True, ge_nonce = ''a1''\<rparr>"

definition demo_session :: mapclaims where
  "demo_session = [(''sub'', VStr ''u1''), (''scope'', VStr ''openid roles''), (''roles'', VStrs [''admin''])]"

lemma demo_class_empty: "cache_view t (demo_class name) k = None"
  by (simp add: cache_view_def demo_class_def new_cache_def nonneg_def seg_of_def lookup_entry_def)

definition demo_plain_signer :: Signer where
  "demo_plain_signer = demo_signer\<lparr>s_mapper := None\<rparr>"


end
