(* ===== verification/Logins.thy ===== *)
theory Logins
  imports SessionGrants
begin

text \<open>
  The logins of \<open>src/internal/auth/exchange.go\<close>: a password login, an OIDC login, a client's own login for
  the host and for a peer resource, and the exchange of a function access token (RFC 8693).

  The OIDC verifier, JWT verification without an audience and \<open>GetAudience\<close> are parameters. A login
  returns its token set, its error, the calls of the enforcing gate and the detached notifications, in that
  order. The code dereferences the identity provider of a password login; a host always has one, and its
  absence is an error here.
\<close>

section \<open>The configuration of a login\<close>

record login_env =
  le_Key :: "key_type option"
  le_KeyId :: string
  le_Issuer :: string
  le_Audience :: string
  le_TokenTTL :: duration
  le_Mapper :: "(mapclaims \<Rightarrow> goerror + mapclaims) option"
  le_OIDC :: bool
  le_Call :: hook_outcome
  le_Parse :: "instant \<Rightarrow> string \<Rightarrow> string \<Rightarrow> goerror + mapclaims"
  le_GetAudience :: "mapclaims \<Rightarrow> goerror + string list"
  le_Dates :: date_lib
  le_VerifyID :: "string \<Rightarrow> goerror + string \<times> (goerror + mapclaims)"

type_synonym event_calls = "(httpEventHook \<times> EventPayload) list"
type_synonym login_result = "TokenSet \<times> goerror option \<times> event_calls \<times> event_calls"

definition IsAuthEnabled :: "login_env \<Rightarrow> bool" where
  "IsAuthEnabled V \<longleftrightarrow> le_Key V \<noteq> None"

definition IsM2MEnabled :: "login_env \<Rightarrow> Exchanger \<Rightarrow> bool" where
  "IsM2MEnabled V e \<longleftrightarrow> le_Key V \<noteq> None \<and> e_Clients e \<noteq> []"

definition failed_payload :: "string \<Rightarrow> string \<Rightarrow> string \<Rightarrow> goerror \<Rightarrow> EventPayload" where
  "failed_payload subject loginName authMethod e =
     (empty_payload EventLoginFailed)\<lparr>ep_Subject := subject, ep_LoginName := loginName, ep_AuthMethod := authMethod, ep_Reason := err_msg e\<rparr>"

definition enrichAfterGate :: "'s exchange \<Rightarrow> instant \<Rightarrow> mapclaims \<Rightarrow> string \<Rightarrow> 's \<Rightarrow> mapclaims \<times> 's" where
  "enrichAfterGate x now ctx subject s =
     (if subject = [] \<or> \<not> HasEnforcingLogin (x_dispatcher x) then (ctx, s)
      else case ResolveSubjectClaims x now subject s of (backend, s1) \<Rightarrow> (mergeBackendClaims ctx backend, s1))"

section \<open>Password login\<close>

definition local_context :: "kind_lib \<Rightarrow> string \<Rightarrow> mapclaims \<Rightarrow> mapclaims" where
  "local_context K authMethod ctx =
     AList.update ClaimSubjectKind (VStr (SubjectKindUser K))
       (AList.update ''auth_method'' (VStr authMethod) (delete_keys (filter (\<lambda>k. k \<noteq> ''sub'') reservedMintClaims) ctx))"

definition local_refresh :: "string \<Rightarrow> string \<Rightarrow> string \<Rightarrow> string \<Rightarrow> RefreshTokenClaims" where
  "local_refresh authMethod clientID scope sub =
     \<lparr>r_AuthMethod = authMethod, r_ClientID = clientID, r_ExpiresAt = 0, r_IssuedAt = 0, r_OriginalIssuedAt = 0,
      r_PredecessorID = [], r_Scope = scope, r_Subject = sub, r_IDPClaims = [], r_UpstreamRefreshToken = []\<rparr>"

definition login_name :: "string \<Rightarrow> EventPayload \<Rightarrow> EventPayload" where
  "login_name username p = p\<lparr>ep_LoginName := username\<rparr>"

text \<open>The signed pair, the stored refresh record and the notification.\<close>

definition local_mint ::
  "'s exchange \<Rightarrow> instant \<Rightarrow> int \<Rightarrow> fresh_ids \<Rightarrow> string \<Rightarrow> string \<Rightarrow> string \<Rightarrow> string \<Rightarrow> string list \<Rightarrow> mapclaims \<Rightarrow> event_calls \<Rightarrow>
   's stores \<Rightarrow> login_result \<times> 's stores" where
  "local_mint x now nowMilli F username sub clientID authMethod granted ctx gate st =
     (case sign_pair x now (f_jti F) (f_jti' F) clientID ctx granted of
        Inl e \<Rightarrow> ((only_subject sub, Some e, gate, []), st)
      | Inr pair \<Rightarrow>
          (let ts = token_set pair granted sub; scope = Join granted '' '';
               notified = NotifyLoginSuccess nowMilli (x_dispatcher x)
                 (login_name username (loginPayload EventLogin ctx sub clientID scope authMethod))
           in if \<not> x_cached x then ((ts, None, gate, notified), st)
              else (case createRefreshToken x now (f_newID F) (local_refresh authMethod clientID scope sub) (st_refresh st) of
                      (Inl e, s) \<Rightarrow>
                        ((only_subject [], Some (server_error (''failed to create refresh token: '' @ err_msg e)), gate, []), st\<lparr>st_refresh := s\<rparr>)
                    | (Inr tokenID, s) \<Rightarrow> ((ts\<lparr>ts_RefreshToken := tokenID\<rparr>, None, gate, notified), st\<lparr>st_refresh := s\<rparr>))))"

text \<open>From a vouched subject on: the context, the gate unless a subject Secret vouched, and the mint.\<close>

definition local_vouched ::
  "'s exchange \<Rightarrow> login_env \<Rightarrow> instant \<Rightarrow> int \<Rightarrow> fresh_ids \<Rightarrow> string \<Rightarrow> string \<Rightarrow> string \<Rightarrow> string \<Rightarrow> string \<Rightarrow> string \<Rightarrow> mapclaims \<Rightarrow>
   's stores \<Rightarrow> login_result \<times> 's stores" where
  "local_vouched x V now nowMilli F username sub scope clientID authMethod source identity st =
     (if authMethod \<notin> {AuthMethodLocal, AuthMethodOAuth2}
      then ((only_subject sub, Some (errorf (''unsupported local login auth method: '' @ authMethod)), [], []), st)
      else let (granted, ctx) = applyScopeFilter (local_context (x_kinds x) authMethod identity) scope defaultSessionScopes;
               payload = login_name username (loginPayload EventLogin ctx sub clientID (Join granted '' '') authMethod)
           in if source = LookupTypeSecret
              then local_mint x now nowMilli F username sub clientID authMethod granted ctx [] st
              else case GateLogin (le_Call V) nowMilli (x_dispatcher x) payload of
                     (Some e, gate) \<Rightarrow>
                       ((only_subject sub, Some (grantFailuref (''login denied: '' @ err_msg e)), gate,
                         NotifyLoginFailed nowMilli (x_dispatcher x) (failed_payload sub username authMethod e)), st)
                   | (None, gate) \<Rightarrow>
                       (case enrichAfterGate x now ctx sub (st_resolve st) of
                          (ctx', s) \<Rightarrow>
                            local_mint x now nowMilli F username sub clientID authMethod granted ctx' gate (st\<lparr>st_resolve := s\<rparr>)))"

definition LoginLocal ::
  "'s exchange \<Rightarrow> login_env \<Rightarrow> instant \<Rightarrow> int \<Rightarrow> fresh_ids \<Rightarrow> string \<Rightarrow> string \<Rightarrow> string \<Rightarrow> string \<Rightarrow> string \<Rightarrow> 's stores \<Rightarrow>
   login_result \<times> 's stores" where
  "LoginLocal x V now nowMilli F username password scope clientID authMethod st =
     (if \<not> IsAuthEnabled V then ((only_subject [], Some (server_error ''local auth not configured''), [], []), st)
      else case (case x_sp x of
                   None \<Rightarrow> Inl (errorf ''no identity provider'')
                 | Some rp \<Rightarrow> FindInternalWithSource (x_kinds x) (x_enabled x) rp username password) of
             Inl e \<Rightarrow>
               ((only_subject [], Some e, [],
                 NotifyLoginFailed nowMilli (x_dispatcher x) (failed_payload username username authMethod e)), st)
           | Inr (identity, source) \<Rightarrow>
               (case lib_GetSubject (x_lib x) identity of
                  Inl _ \<Rightarrow> ((only_subject username, Some (wrapf [ErrServerError, ErrSubjectlessCredential] (''server error: '' @ err_msg ErrSubjectless)), [], []), st)
                | Inr sub \<Rightarrow>
                    if sub = []
                    then ((only_subject username, Some (wrapf [ErrServerError, ErrSubjectlessCredential] (''server error: '' @ err_msg ErrSubjectless)), [], []), st)
                    else case refuseClientNamedIdentity (Some (x_ex x)) [sub, username] of
                           Some e \<Rightarrow>
                             ((only_subject sub, Some e, [],
                               NotifyLoginFailed nowMilli (x_dispatcher x) (failed_payload sub username authMethod e)), st)
                         | None \<Rightarrow>
                             local_vouched x V now nowMilli F username sub scope clientID authMethod source identity st))"

section \<open>OIDC login\<close>

record OIDCExchange =
  oe_RawIDToken :: string
  oe_UpstreamRefreshToken :: string

definition oidc_claims :: "mapclaims \<Rightarrow> mapclaims" where
  "oidc_claims claims =
     AList.delete ClaimSubjectKind
       (AList.update ''auth_method'' (VStr AuthMethodOIDC) (AList.update ''idp'' (VStr ''oidc'') claims))"

definition oidc_context :: "mapclaims \<Rightarrow> string \<Rightarrow> string list \<Rightarrow> string list \<Rightarrow> mapclaims" where
  "oidc_context ctx kind roles ents =
     (let c1 = AList.update ClaimSubjectKind (VStr kind) ctx;
          c2 = AList.update ''roles'' (mergeIDPList (map_of c1 ''roles'') roles) c1
      in AList.update ''entitlements'' (mergeIDPList (map_of c2 ''entitlements'') ents) c2)"

definition oidc_refresh :: "mapclaims \<Rightarrow> string \<Rightarrow> string \<Rightarrow> string \<Rightarrow> RefreshTokenClaims" where
  "oidc_refresh idpClaims scope sub upstream =
     \<lparr>r_AuthMethod = AuthMethodOIDC, r_ClientID = [], r_ExpiresAt = 0, r_IssuedAt = 0, r_OriginalIssuedAt = 0,
      r_PredecessorID = [], r_Scope = scope, r_Subject = sub, r_IDPClaims = idpClaims, r_UpstreamRefreshToken = upstream\<rparr>"

definition oidc_mint ::
  "'s exchange \<Rightarrow> instant \<Rightarrow> int \<Rightarrow> fresh_ids \<Rightarrow> string \<Rightarrow> mapclaims \<Rightarrow> string \<Rightarrow> string list \<Rightarrow> mapclaims \<Rightarrow> event_calls \<Rightarrow>
   's stores \<Rightarrow> login_result \<times> 's stores" where
  "oidc_mint x now nowMilli F sub idpClaims upstream granted ctx gate st =
     (case SignScoped (x_lib x) (x_signer x) now (f_jti F) ctx granted of
        Inl e \<Rightarrow> ((only_subject [], Some e, gate, []), st)
      | Inr access \<Rightarrow>
          (let scope = Join granted '' ''; ts = token_set (access, []) granted sub;
               notified = NotifyLoginSuccess nowMilli (x_dispatcher x) (loginPayload EventLogin ctx sub [] scope AuthMethodOIDC)
           in if \<not> x_cached x then ((ts, None, gate, notified), st)
              else (case createRefreshToken x now (f_newID F) (oidc_refresh idpClaims scope sub upstream) (st_refresh st) of
                      (Inl e, s) \<Rightarrow>
                        ((only_subject sub, Some (errorf (''failed to create refresh token: '' @ err_msg e)), gate, []), st\<lparr>st_refresh := s\<rparr>)
                    | (Inr tokenID, s) \<Rightarrow> ((ts\<lparr>ts_RefreshToken := tokenID\<rparr>, None, gate, notified), st\<lparr>st_refresh := s\<rparr>))))"

definition oidc_identified ::
  "'s exchange \<Rightarrow> login_env \<Rightarrow> instant \<Rightarrow> int \<Rightarrow> fresh_ids \<Rightarrow> string \<Rightarrow> mapclaims \<Rightarrow> string \<Rightarrow> 's stores \<Rightarrow> login_result \<times> 's stores" where
  "oidc_identified x V now nowMilli F sub ctx0 upstream st =
     (case userBindingSubject (x_kinds x) (x_ex x) ctx0 sub SiteOIDCLogin of
        (_, Some e) \<Rightarrow>
          ((only_subject sub, Some e, [],
            NotifyLoginFailed nowMilli (x_dispatcher x) (failed_payload sub [] AuthMethodOIDC e)), st)
      | (bs, None) \<Rightarrow>
          (case ResolveInternalRolesAndEntitlements x bs of
             Inl e \<Rightarrow> ((only_subject [], Some e, [], []), st)
           | Inr (roles, ents) \<Rightarrow>
               (let (granted, ctx) = applyScopeFilter (oidc_context ctx0 (bs_Kind bs) roles ents) [] defaultSessionScopes
                in case GateLogin (le_Call V) nowMilli (x_dispatcher x)
                          (loginPayload EventLogin ctx sub [] (Join granted '' '') AuthMethodOIDC) of
                     (Some e, gate) \<Rightarrow>
                       ((only_subject sub, Some (grantFailuref (''login denied: '' @ err_msg e)), gate,
                         NotifyLoginFailed nowMilli (x_dispatcher x) (failed_payload sub [] AuthMethodOIDC e)), st)
                   | (None, gate) \<Rightarrow>
                       (case enrichAfterGate x now ctx sub (st_resolve st) of
                          (ctx', s) \<Rightarrow>
                            oidc_mint x now nowMilli F sub (idpClaimSnapshot ctx0) upstream granted ctx' gate (st\<lparr>st_resolve := s\<rparr>)))))"

definition ExchangeToken ::
  "'s exchange \<Rightarrow> login_env \<Rightarrow> instant \<Rightarrow> int \<Rightarrow> fresh_ids \<Rightarrow> OIDCExchange \<Rightarrow> 's stores \<Rightarrow> login_result \<times> 's stores" where
  "ExchangeToken x V now nowMilli F tokens st =
     (if \<not> le_OIDC V then ((only_subject [], Some (errorf ''OIDC is not configured''), [], []), st)
      else case le_VerifyID V (oe_RawIDToken tokens) of
             Inl e \<Rightarrow> ((only_subject [], Some (wrapf (err_is e) (''failed to verify ID token: '' @ err_msg e)), [], []), st)
           | Inr (_, Inl e) \<Rightarrow> ((only_subject [], Some (wrapf (err_is e) (''failed to parse claims: '' @ err_msg e)), [], []), st)
           | Inr (_, Inr claims) \<Rightarrow>
               (let ctx0 = oidc_claims claims;
                    nosub = wrapf [ErrSubjectlessCredential] (err_msg ErrSubjectless @ '': no sub in id_token'')
                in case lib_GetSubject (x_lib x) ctx0 of
                     Inl _ \<Rightarrow> ((only_subject [], Some nosub, [], []), st)
                   | Inr sub \<Rightarrow>
                       if sub = [] then ((only_subject [], Some nosub, [], []), st)
                       else oidc_identified x V now nowMilli F sub ctx0 (oe_UpstreamRefreshToken tokens) st))"

definition CheckIDTokenNonce :: "login_env \<Rightarrow> string \<Rightarrow> string \<Rightarrow> goerror option" where
  "CheckIDTokenNonce V rawIDToken nonce =
     (if \<not> le_OIDC V then Some (errorf ''OIDC is not configured'')
      else case le_VerifyID V rawIDToken of
             Inl e \<Rightarrow> Some e
           | Inr (tokenNonce, _) \<Rightarrow>
               if nonce = [] \<or> tokenNonce \<noteq> nonce then Some (errorf ''id_token nonce does not match the login'') else None)"

section \<open>Client login\<close>

text \<open>The failure says whether the client had authenticated.\<close>

fun client_scopes :: "string list \<Rightarrow> string list \<Rightarrow> string + string list" where
  "client_scopes allowed [] = Inr []"
| "client_scopes allowed (s # ss) =
     (if s = [] then client_scopes allowed ss
      else if allowed \<noteq> [] \<and> s \<notin> set allowed then Inl s
      else bindE (client_scopes allowed ss) (\<lambda>r. Inr (s # r)))"

definition client_base :: "kind_lib \<Rightarrow> string \<Rightarrow> string \<Rightarrow> mapclaims" where
  "client_base K clientID scope =
     [(''sub'', VStr clientID), (''azp'', VStr clientID), (''auth_method'', VStr AuthMethodOAuth2),
      (''grant_type'', VStr GRANT_TYPE_CLIENT_CREDENTIALS), (ClaimSubjectKind, VStr (SubjectKindClient K))] @
     (if scope \<noteq> [] then [(''scope'', VStr scope)] else [])"

definition client_grants :: "'s exchange \<Rightarrow> string \<Rightarrow> string list \<Rightarrow> mapclaims \<Rightarrow> goerror + mapclaims" where
  "client_grants x clientID granted ctx =
     (let wantRoles = (granted = [] \<or> ''roles'' \<in> set granted);
          wantEnts = (granted = [] \<or> ''entitlements'' \<in> set granted)
      in if \<not> wantRoles \<and> \<not> wantEnts then Inr ctx
         else case ResolveInternalRolesAndEntitlements x (clientBindingSubject (x_kinds x) clientID) of
                Inl e \<Rightarrow> Inl (server_error (''failed to resolve roles/entitlements for client '' @ clientID @ '': '' @ err_msg e))
              | Inr (roles, ents) \<Rightarrow>
                  Inr (ctx @ (if wantRoles then [(''roles'', VStrs roles)] else []) @
                         (if wantEnts then [(''entitlements'', VStrs ents)] else [])))"

definition buildClientSigningContext ::
  "'s exchange \<Rightarrow> login_env \<Rightarrow> instant \<Rightarrow> string \<Rightarrow> string \<Rightarrow> string \<Rightarrow> 's \<Rightarrow>
   ((goerror \<times> bool) + mapclaims \<times> string) \<times> 's" where
  "buildClientSigningContext x V now clientID clientSecret scope s =
     (if \<not> IsM2MEnabled V (x_ex x) then (Inl (server_error ''M2M auth not configured'', False), s)
      else case exchange_LookupClient x now clientID s of
             (Inl e, s1) \<Rightarrow> (Inl (server_error (''client lookup failed: '' @ err_msg e), False), s1)
           | (Inr None, s1) \<Rightarrow> (Inl (errorf ''invalid client_id'', False), s1)
           | (Inr (Some client), s1) \<Rightarrow>
               (if ac_ClientSecret client \<noteq> clientSecret then (Inl (errorf ''invalid client_secret'', False), s1)
                else case client_scopes (ac_AllowedScopes client) (Split scope CHR '' '') of
                       Inl bad \<Rightarrow> (Inl (errorf (''scope '' @ bad @ '' not allowed for this client''), True), s1)
                     | Inr granted \<Rightarrow>
                         (case client_grants x clientID granted (client_base (x_kinds x) clientID (Join granted '' '')) of
                            Inl e \<Rightarrow> (Inl (e, True), s1)
                          | Inr ctx \<Rightarrow> (Inr (ctx, Join granted '' ''), s1))))"

definition client_failure :: "string \<Rightarrow> goerror \<times> bool \<Rightarrow> TokenSet \<times> goerror option" where
  "client_failure clientID f = (only_subject (if snd f then clientID else []), Some (fst f))"

definition client_token :: "string \<Rightarrow> string \<Rightarrow> string \<Rightarrow> TokenSet" where
  "client_token access scope clientID =
     \<lparr>ts_AccessToken = access, ts_IDToken = [], ts_RefreshToken = [], ts_Scope = scope, ts_Subject = clientID\<rparr>"

definition LoginClient ::
  "'s exchange \<Rightarrow> login_env \<Rightarrow> instant \<Rightarrow> string \<Rightarrow> string \<Rightarrow> string \<Rightarrow> string \<Rightarrow> 's \<Rightarrow> (TokenSet \<times> goerror option) \<times> 's" where
  "LoginClient x V now jti clientID clientSecret scope s =
     (case buildClientSigningContext x V now clientID clientSecret scope s of
        (Inl f, s1) \<Rightarrow> (client_failure clientID f, s1)
      | (Inr (ctx, granted), s1) \<Rightarrow>
          (case Sign (x_lib x) (x_signer x) now jti ctx of
             Inl e \<Rightarrow> ((only_subject clientID, Some (server_error (''failed to sign access token: '' @ err_msg e))), s1)
           | Inr access \<Rightarrow> ((client_token access granted clientID, None), s1)))"

text \<open>A signer for another audience, as the resource login and the token exchange build it.\<close>

definition target_signer :: "login_env \<Rightarrow> string \<Rightarrow> goerror + Signer" where
  "target_signer V audience = NewSigner audience (le_TokenTTL V) (le_Issuer V) (le_Key V) (le_KeyId V) (le_Mapper V)"

definition LoginClientResource ::
  "'s exchange \<Rightarrow> login_env \<Rightarrow> instant \<Rightarrow> string \<Rightarrow> string \<Rightarrow> string \<Rightarrow> string \<Rightarrow> string \<Rightarrow> 's \<Rightarrow> (TokenSet \<times> goerror option) \<times> 's" where
  "LoginClientResource x V now jti clientID clientSecret scope targetAudience s =
     (case buildClientSigningContext x V now clientID clientSecret scope s of
        (Inl f, s1) \<Rightarrow> (client_failure clientID f, s1)
      | (Inr (ctx, granted), s1) \<Rightarrow>
          (case target_signer V targetAudience of
             Inl e \<Rightarrow> ((only_subject clientID, Some (server_error (''failed to build signer for '' @ targetAudience @ '': '' @ err_msg e))), s1)
           | Inr signer \<Rightarrow>
               (case Sign (x_lib x) signer now jti ctx of
                  Inl e \<Rightarrow> ((only_subject clientID, Some (server_error (''failed to sign resource token: '' @ err_msg e))), s1)
                | Inr access \<Rightarrow> ((client_token access granted clientID, None), s1))))"

section \<open>Token exchange\<close>

text \<open>Which verified token may be exchanged, and the function that presented it.\<close>

definition exchangeable :: "'s exchange \<Rightarrow> login_env \<Rightarrow> mapclaims \<Rightarrow> goerror + string \<times> string" where
  "exchangeable x V claims =
     (case (case lib_GetSubject (x_lib x) claims of Inl _ \<Rightarrow> [] | Inr s \<Rightarrow> s) of
        [] \<Rightarrow> Inl (errorf ''subject_token has no subject'')
      | c # cs \<Rightarrow>
          if claim_bool claims CapUsesClaim
          then Inl (errorf ''subject_token is a bounded-use capability and cannot be exchanged'')
          else if claim_string claims ''grant_type'' = GRANT_TYPE_CLIENT_CREDENTIALS
          then Inl (errorf ''subject_token minted via client_credentials is not exchangeable'')
          else if le_Audience V = []
          then Inl (server_error ''token exchange requires a configured host audience'')
          else case le_GetAudience V claims of
                 Inr [aud] \<Rightarrow>
                   if aud = le_Audience V then Inl (errorf ''subject_token is not a function access token'') else Inr (c # cs, aud)
               | _ \<Rightarrow> Inl (errorf ''subject_token is not a function access token''))"

definition exchanged_context :: "string \<Rightarrow> string \<Rightarrow> string \<Rightarrow> string list \<Rightarrow> string list \<Rightarrow> mapclaims \<Rightarrow> mapclaims" where
  "exchanged_context sub kind actor roles ents backend =
     mergeBackendClaims
       ([(''sub'', VStr sub), (''roles'', VStrs roles), (''entitlements'', VStrs ents), (ClaimSubjectKind, VStr kind)] @
        (if actor \<noteq> [] then [(''act'', VMap [(''sub'', VStr actor)])] else []))
       backend"

definition ExchangeSubjectToken ::
  "'s exchange \<Rightarrow> login_env \<Rightarrow> instant \<Rightarrow> string \<Rightarrow> string \<Rightarrow> string \<Rightarrow> 's \<Rightarrow> (TokenSet \<times> goerror option) \<times> 's" where
  "ExchangeSubjectToken x V now jti subjectToken targetAudience s =
     (let none = only_subject []
      in if \<not> IsAuthEnabled V then ((none, Some (server_error ''auth not enabled'')), s)
         else case le_Parse V now subjectToken (le_Issuer V) of
                Inl e \<Rightarrow> ((none, Some (wrapf (err_is e) (''invalid subject_token: '' @ err_msg e))), s)
              | Inr claims \<Rightarrow>
                  (case exchangeable x V claims of
                     Inl e \<Rightarrow> ((none, Some e), s)
                   | Inr (sub, actor) \<Rightarrow>
                       (let kind = ContextSubjectKind (x_kinds x) (Some (x_ex x)) claims
                        in case VetoCredential (x_kinds x) (Some (x_ex x)) sub kind (issuedAtOf (le_Dates V) claims) SiteTokenExchange of
                             Some e \<Rightarrow> ((none, Some (wrapf (err_is e) (''invalid subject_token: '' @ err_msg e))), s)
                           | None \<Rightarrow>
                               (case subjectSigningContext x now sub \<lparr>bs_Key = sub, bs_Kind = kind, bs_Site = SiteTokenExchange\<rparr> s of
                                  (Inl e, s1) \<Rightarrow> ((none, Some (server_error (''failed to resolve entitlements for '' @ sub @ '': '' @ err_msg e))), s1)
                                | (Inr (roles, ents, backend), s1) \<Rightarrow>
                                    (case target_signer V targetAudience of
                                       Inl e \<Rightarrow> ((none, Some (server_error (''failed to build signer for '' @ targetAudience @ '': '' @ err_msg e))), s1)
                                     | Inr signer \<Rightarrow>
                                         (case Sign (x_lib x) signer now jti (exchanged_context sub kind actor roles ents backend) of
                                            Inl e \<Rightarrow> ((none, Some (server_error (''failed to sign exchanged token: '' @ err_msg e))), s1)
                                          | Inr access \<Rightarrow> ((client_token access [] sub, None), s1)))))))"

section \<open>What a signed token carries\<close>

text \<open>A signed token is a signature over claims that expire and keep the kind and the method of the context.
  The scope confinement of \<open>SignScoped\<close> changes neither.\<close>

definition carries :: "signer_lib \<Rightarrow> Signer \<Rightarrow> mapclaims \<Rightarrow> string \<Rightarrow> bool" where
  "carries L s ctx tok \<longleftrightarrow>
     (\<exists>alg out. lib_SignedString L alg (s_kid s) out = Inr tok \<and> expires (map_of out ''exp'') \<and>
        (\<forall>k \<in> set mintDecidedClaims. map_of out k = map_of ctx k) \<and>
        (s_mapper s = None \<longrightarrow> map_of out ''aud'' = Some (VStrs [s_audience s]) \<and>
           (\<exists>sub. lib_GetSubject L ctx = Inr sub \<and> sub \<noteq> [] \<and> map_of out ''sub'' = Some (VStr sub))))"

lemma decided_outside:
  "k \<in> set mintDecidedClaims \<Longrightarrow> k \<notin> {''exp'', ''iat'', ''jti''} \<and> k \<notin> set profileClaims \<and>
     k \<notin> {''email'', ''email_verified'', ''entitlements'', ''roles''}"
  by (auto simp: mintDecidedClaims_def ClaimSubjectKind_def profileClaims_def)

lemma SignProjected_carries:
  assumes p: "Project L s ctx = Inr p" and q: "SignProjected L s now jti q = Inr tok"
    and same: "\<And>k. k \<in> set mintDecidedClaims \<union> {''aud'', ''sub''} \<Longrightarrow> map_of q k = map_of p k"
  shows "carries L s ctx tok"
proof -
  from q obtain alg out where o: "outboundClaims L s now jti q = Inr out"
    and t: "lib_SignedString L alg (s_kid s) out = Inr tok" by (rule SignProjected_ok)
  note ok = outboundClaims_ok [OF o]
  have "map_of out k = map_of ctx k" if "k \<in> set mintDecidedClaims" for k
    using that ok same [of k] decided_outside [OF that] Project_mint_decided [OF p that] by simp
  moreover have "map_of out ''aud'' = map_of p ''aud''" "map_of out ''sub'' = map_of p ''sub''"
    using ok same [of "''aud''"] same [of "''sub''"] by simp_all
  moreover have "expires (map_of out ''exp'')" using ok by blast
  ultimately show ?thesis
    using t Project_envelope [OF p] unfolding carries_def
    by (intro exI [of _ alg] exI [of _ out] conjI) (simp_all only: simp_thms, auto)
qed

lemma Sign_carries:
  assumes "Sign L s now jti ctx = Inr tok"
  shows "carries L s ctx tok"
  using assms SignProjected_carries by (auto simp: Sign_def split: sum.splits)

lemma SignScoped_carries:
  assumes "SignScoped L s now jti ctx granted = Inr tok"
  shows "carries L s ctx tok"
proof -
  from assms obtain p where p: "Project L s ctx = Inr p"
    and q: "SignProjected L s now jti (confineByScope p granted) = Inr tok" by (auto simp: SignScoped_def split: sum.splits)
  have "k \<notin> set profileClaims" if "k \<in> set mintDecidedClaims \<union> {''aud'', ''sub''}" for k
    using that by (auto simp: mintDecidedClaims_def ClaimSubjectKind_def profileClaims_def)
  moreover have "k \<notin> {''email'', ''email_verified'', ''entitlements'', ''roles''}" if "k \<in> set mintDecidedClaims \<union> {''aud'', ''sub''}" for k
    using that by (auto simp: mintDecidedClaims_def ClaimSubjectKind_def)
  ultimately have "map_of (confineByScope p granted) k = map_of p k" if "k \<in> set mintDecidedClaims \<union> {''aud'', ''sub''}" for k
    using that by (intro confine_other) auto
  with p q show ?thesis by (rule SignProjected_carries)
qed

lemma exchangeable_ok:
  assumes "exchangeable x V claims = Inr (sub, actor)"
  shows "lib_GetSubject (x_lib x) claims = Inr sub \<and> sub \<noteq> [] \<and> \<not> claim_bool claims CapUsesClaim \<and>
    claim_string claims ''grant_type'' \<noteq> GRANT_TYPE_CLIENT_CREDENTIALS \<and> le_Audience V \<noteq> [] \<and>
    le_GetAudience V claims = Inr [actor] \<and> actor \<noteq> le_Audience V"
  using assms by (auto simp: exchangeable_def split: sum.splits list.splits if_splits)

lemma exchanged_context_decided:
  "map_of (exchanged_context sub kind actor roles ents backend) ''sub'' = Some (VStr sub) \<and>
   map_of (exchanged_context sub kind actor roles ents backend) ClaimSubjectKind = Some (VStr kind)"
  by (auto simp: exchanged_context_def map_of_mergeBackendClaims ClaimSubjectKind_def split: option.splits)

lemma target_signer_ok:
  "target_signer V aud = Inr s \<Longrightarrow> s_audience s = aud \<and> s_mapper s = le_Mapper V \<and> s_kid s = le_KeyId V"
  by (auto simp: target_signer_def NewSigner_def split: if_splits option.splits)

text \<open>C24: a function access token is exchanged for a token of another audience only when it verifies, names a
  subject, is neither a bounded-use capability nor a client's own token, has exactly one audience that is not
  the host's, and its subject is not vetoed for its kind and issue time. The new token carries that kind and,
  when no claim mapper is configured, names the same subject and the requested audience.\<close>

theorem token_exchange_gate:
  assumes "ExchangeSubjectToken x V now jti tok aud s = ((ts, None), s')" and "subject_law (x_lib x)"
  shows "\<exists>claims sub actor kind alg out. le_Parse V now tok (le_Issuer V) = Inr claims \<and>
    lib_GetSubject (x_lib x) claims = Inr sub \<and> sub \<noteq> [] \<and> ts_Subject ts = sub \<and> ts_RefreshToken ts = [] \<and>
    \<not> claim_bool claims CapUsesClaim \<and> claim_string claims ''grant_type'' \<noteq> GRANT_TYPE_CLIENT_CREDENTIALS \<and>
    le_GetAudience V claims = Inr [actor] \<and> actor \<noteq> le_Audience V \<and>
    kind = ContextSubjectKind (x_kinds x) (Some (x_ex x)) claims \<and>
    VetoCredential (x_kinds x) (Some (x_ex x)) sub kind (issuedAtOf (le_Dates V) claims) SiteTokenExchange = None \<and>
    lib_SignedString (x_lib x) alg (le_KeyId V) out = Inr (ts_AccessToken ts) \<and>
    map_of out ClaimSubjectKind = Some (VStr kind) \<and>
    (le_Mapper V = None \<longrightarrow> map_of out ''sub'' = Some (VStr sub) \<and> map_of out ''aud'' = Some (VStrs [aud]))"
proof -
  from assms(1) obtain claims sub actor where
    p: "le_Parse V now tok (le_Issuer V) = Inr claims" and e: "exchangeable x V claims = Inr (sub, actor)"
    by (auto simp: ExchangeSubjectToken_def Let_def split: if_splits sum.splits)
  let ?kind = "ContextSubjectKind (x_kinds x) (Some (x_ex x)) claims"
  let ?bs = "\<lparr>bs_Key = sub, bs_Kind = ?kind, bs_Site = SiteTokenExchange\<rparr>"
  from assms(1) p e have v: "VetoCredential (x_kinds x) (Some (x_ex x)) sub ?kind (issuedAtOf (le_Dates V) claims) SiteTokenExchange = None"
    by (auto simp: ExchangeSubjectToken_def Let_def split: if_splits option.splits)
  from assms(1) p e v obtain roles ents backend s1 where c: "subjectSigningContext x now sub ?bs s = (Inr (roles, ents, backend), s1)"
    by (auto simp: ExchangeSubjectToken_def Let_def split: if_splits option.splits prod.splits sum.splits)
  from assms(1) p e v c obtain signer access where t: "target_signer V aud = Inr signer"
    and g: "Sign (x_lib x) signer now jti (exchanged_context sub ?kind actor roles ents backend) = Inr access"
    and ts: "ts = client_token access [] sub"
    by (auto simp: ExchangeSubjectToken_def Let_def split: if_splits sum.splits)
  let ?ctx = "exchanged_context sub ?kind actor roles ents backend"
  from Sign_carries [OF g] obtain alg out where o: "lib_SignedString (x_lib x) alg (le_KeyId V) out = Inr access"
    "\<forall>k \<in> set mintDecidedClaims. map_of out k = map_of ?ctx k"
    "le_Mapper V = None \<longrightarrow> map_of out ''aud'' = Some (VStrs [aud]) \<and>
       (\<exists>sub. lib_GetSubject (x_lib x) ?ctx = Inr sub \<and> map_of out ''sub'' = Some (VStr sub))"
    using target_signer_ok [OF t] unfolding carries_def by auto
  have "lib_GetSubject (x_lib x) ?ctx = Inr sub"
    using assms(2) exchanged_context_decided unfolding subject_law_def by blast
  moreover have "ClaimSubjectKind \<in> set mintDecidedClaims" by (simp add: mintDecidedClaims_def)
  ultimately show ?thesis
    using p v ts o exchangeable_ok [OF e] exchanged_context_decided [of sub ?kind actor roles ents backend]
    by (intro exI [of _ claims] exI [of _ sub] exI [of _ actor] exI [of _ ?kind] exI [of _ alg] exI [of _ out])
      (simp add: client_token_def)
qed

definition demo_logins :: login_env where
  "demo_logins =
     \<lparr>le_Key = Some RSAKey, le_KeyId = ''k1'', le_Issuer = ''host'', le_Audience = ''host'', le_TokenTTL = hour, le_Mapper = None,
      le_OIDC = False, le_Call = (\<lambda>_ _. Inr (True, [])),
      le_Parse = (\<lambda>_ t _. if t = ''fat'' then Inr [(''sub'', VStr ''alice''), (''knd'', VStr ''User''), (''aud'', VStrs [''fn''])]
                         else Inl (errorf ''token is malformed'')),
      le_GetAudience = (\<lambda>c. case map_of c ''aud'' of Some (VStrs a) \<Rightarrow> Inr a | _ \<Rightarrow> Inr []),
      le_Dates = \<lparr>dl_Exp = (\<lambda>_. Inr None), dl_Iat = (\<lambda>_. Inr None)\<rparr>,
      le_VerifyID = (\<lambda>_. Inl (errorf ''no provider''))\<rparr>"

theorem token_exchange_gate_witness:
  "\<exists>out alg. lib_SignedString demo_lib alg ''k1'' out = Inr ''RS256.alice'' \<and> map_of out ClaimSubjectKind = Some (VStr ''User'') \<and>
     map_of out ''aud'' = Some (VStrs [''peer''])"
proof -
  let ?c = "[(''sub'', VStr ''alice''), (''knd'', VStr ''User''), (''aud'', VStrs [''fn''])]"
  let ?s = "demo_class ''subject-resolve''" and ?g = "demo_plain_signer\<lparr>s_audience := ''peer''\<rparr>"
  let ?b = "\<lparr>bs_Key = ''alice'', bs_Kind = ''User'', bs_Site = SiteTokenExchange\<rparr>"
  have p: "IsAuthEnabled demo_logins" "le_Parse demo_logins minute ''fat'' (le_Issuer demo_logins) = Inr ?c"
    "exchangeable demo_exchange demo_logins ?c = Inr (''alice'', ''fn'')"
    "ContextSubjectKind (x_kinds demo_exchange) (Some (x_ex demo_exchange)) ?c = ''User''"
    "VetoCredential (x_kinds demo_exchange) (Some (x_ex demo_exchange)) ''alice'' ''User'' (issuedAtOf (le_Dates demo_logins) ?c) SiteTokenExchange = None"
    "Sign (x_lib demo_exchange) ?g minute ''j'' (exchanged_context ''alice'' ''User'' ''fn'' [] [] []) = Inr ''RS256.alice''"
    by code_simp+
  have g: "target_signer demo_logins ''peer'' = Inr ?g"
    by (simp add: target_signer_def NewSigner_def demo_logins_def demo_plain_signer_def demo_signer_def)
  have "fst (subjectSigningContext demo_exchange minute ''alice'' ?b ?s) = Inr ([], [], [])" by code_simp
  then obtain s1 where "subjectSigningContext demo_exchange minute ''alice'' ?b ?s = (Inr ([], [], []), s1)" by (metis prod.collapse)
  with p g have r: "ExchangeSubjectToken demo_exchange demo_logins minute ''j'' ''fat'' ''peer'' ?s = ((client_token ''RS256.alice'' [] ''alice'', None), s1)"
    by (simp add: ExchangeSubjectToken_def Let_def)
  have w: "subject_law (x_lib demo_exchange)" by (simp add: demo_exchange_def demo_lib_law)
  have l: "x_lib demo_exchange = demo_lib" "le_KeyId demo_logins = ''k1''" "le_Mapper demo_logins = None"
    "ts_AccessToken (client_token ''RS256.alice'' [] ''alice'') = ''RS256.alice''"
    by (simp_all add: demo_exchange_def demo_logins_def client_token_def)
  from token_exchange_gate [OF r w] obtain claims alg out where
    o: "le_Parse demo_logins minute ''fat'' (le_Issuer demo_logins) = Inr claims"
    "lib_SignedString demo_lib alg ''k1'' out = Inr ''RS256.alice''" "map_of out ''aud'' = Some (VStrs [''peer''])"
    "map_of out ClaimSubjectKind = Some (VStr (ContextSubjectKind (x_kinds demo_exchange) (Some (x_ex demo_exchange)) claims))"
    unfolding l by auto
  moreover from o(1) p(2) have "claims = ?c" by simp
  ultimately show ?thesis using p(4) by (intro exI [of _ out] exI [of _ alg]) simp
qed

section \<open>A client's own login\<close>

lemma client_scopes_ok:
  "client_scopes allowed ss = Inr granted \<Longrightarrow>
     granted = filter (\<lambda>s. s \<noteq> []) ss \<and> (allowed \<noteq> [] \<longrightarrow> set granted \<subseteq> set allowed)"
proof (induction ss arbitrary: granted)
  case (Cons s ss)
  then show ?case by (cases "client_scopes allowed ss") (auto split: if_splits)
qed simp

lemma client_grants_ok:
  assumes "client_grants x clientID granted ctx = Inr ctx'" and "map_of ctx ''roles'' = None" and "map_of ctx ''entitlements'' = None"
  shows "(\<forall>k. map_of ctx k \<noteq> None \<longrightarrow> map_of ctx' k = map_of ctx k) \<and>
    (granted \<noteq> [] \<and> ''roles'' \<notin> set granted \<longrightarrow> map_of ctx' ''roles'' = None) \<and>
    (granted \<noteq> [] \<and> ''entitlements'' \<notin> set granted \<longrightarrow> map_of ctx' ''entitlements'' = None)"
  using assms by (auto simp: client_grants_def Let_def map_add_def split: if_splits sum.splits option.splits)

lemma client_base_claims:
  "map_of (client_base K clientID scope) ''sub'' = Some (VStr clientID)"
  "map_of (client_base K clientID scope) ClaimSubjectKind = Some (VStr (SubjectKindClient K))"
  "map_of (client_base K clientID scope) ''roles'' = None"
  "map_of (client_base K clientID scope) ''entitlements'' = None"
  by (simp_all add: client_base_def ClaimSubjectKind_def)

text \<open>What a built context says of the client it is for.\<close>

definition client_vouched ::
  "'s exchange \<Rightarrow> login_env \<Rightarrow> instant \<Rightarrow> string \<Rightarrow> string \<Rightarrow> string \<Rightarrow> 's \<Rightarrow> mapclaims \<Rightarrow> string \<Rightarrow> bool" where
  "client_vouched x V now clientID secret scope s ctx granted \<longleftrightarrow>
     (\<exists>client. fst (exchange_LookupClient x now clientID s) = Inr (Some client) \<and> ac_ClientSecret client = secret \<and>
        (let want = filter (\<lambda>s. s \<noteq> []) (Split scope CHR '' '')
         in granted = Join want '' '' \<and> (ac_AllowedScopes client \<noteq> [] \<longrightarrow> set want \<subseteq> set (ac_AllowedScopes client)) \<and>
            (want \<noteq> [] \<and> ''roles'' \<notin> set want \<longrightarrow> map_of ctx ''roles'' = None) \<and>
            (want \<noteq> [] \<and> ''entitlements'' \<notin> set want \<longrightarrow> map_of ctx ''entitlements'' = None))) \<and>
     IsM2MEnabled V (x_ex x) \<and> map_of ctx ''sub'' = Some (VStr clientID) \<and> map_of ctx ClaimSubjectKind = Some (VStr (SubjectKindClient (x_kinds x)))"

lemma buildClientSigningContext_ok:
  assumes "buildClientSigningContext x V now clientID secret scope s = (Inr (ctx, granted), s')"
  shows "client_vouched x V now clientID secret scope s ctx granted"
proof -
  let ?want = "filter (\<lambda>s. s \<noteq> []) (Split scope CHR '' '')"
  from assms obtain client s1 where l: "exchange_LookupClient x now clientID s = (Inr (Some client), s1)"
    and m: "IsM2MEnabled V (x_ex x)" and sec: "ac_ClientSecret client = secret"
    by (auto simp: buildClientSigningContext_def split: if_splits prod.splits sum.splits option.splits)
  from assms l m sec obtain g where g: "client_scopes (ac_AllowedScopes client) (Split scope CHR '' '') = Inr g"
    by (auto simp: buildClientSigningContext_def split: sum.splits)
  from assms l m sec g have c: "client_grants x clientID g (client_base (x_kinds x) clientID (Join g '' '')) = Inr ctx"
    and j: "granted = Join g '' ''"
    by (auto simp: buildClientSigningContext_def split: sum.splits)
  note cg = client_grants_ok [OF c client_base_claims(3,4)]
  from client_scopes_ok [OF g] have w: "g = ?want" "ac_AllowedScopes client \<noteq> [] \<longrightarrow> set g \<subseteq> set (ac_AllowedScopes client)" by blast+
  show ?thesis
    unfolding client_vouched_def Let_def w(1) [symmetric]
    using l m sec w(2) j cg client_base_claims(1,2) by (intro conjI exI [of _ client]) simp_all
qed

text \<open>A client's own login, for the host or for a peer resource, succeeds only for a client that the
  registry knows with the presented secret, and asks for no scope outside the client's allowed ones. Its token
  names the client as its subject, carries the kind of a client whatever mapping is configured, has no refresh
  token, and carries roles and entitlements only when no scope was asked for or their scope was.\<close>

theorem client_login_confined:
  assumes "LoginClient x V now jti clientID secret scope s = ((ts, None), s') \<or>
    LoginClientResource x V now jti clientID secret scope aud s = ((ts, None), s')"
  shows "\<exists>ctx signer. client_vouched x V now clientID secret scope s ctx (ts_Scope ts) \<and>
    carries (x_lib x) signer ctx (ts_AccessToken ts) \<and> ts_Subject ts = clientID \<and> ts_RefreshToken ts = [] \<and>
    (signer = x_signer x \<or> target_signer V aud = Inr signer)"
proof -
  from assms obtain ctx granted s1 where b: "buildClientSigningContext x V now clientID secret scope s = (Inr (ctx, granted), s1)"
    by (auto simp: LoginClient_def LoginClientResource_def client_failure_def split: prod.splits sum.splits)
  from assms b obtain signer access where g: "Sign (x_lib x) signer now jti ctx = Inr access"
    and t: "ts = client_token access granted clientID" and k: "signer = x_signer x \<or> target_signer V aud = Inr signer"
    by (auto simp: LoginClient_def LoginClientResource_def split: sum.splits)
  show ?thesis
    using buildClientSigningContext_ok [OF b] Sign_carries [OF g] t k
    by (intro exI [of _ ctx] exI [of _ signer]) (simp add: client_token_def)
qed

theorem client_login_confined_witness:
  "\<exists>ctx. client_vouched demo_exchange demo_logins minute ''app'' [] ''openid'' (demo_class ''dcr'') ctx ''openid'' \<and>
     carries demo_lib demo_signer ctx ''RS256.app''"
proof -
  let ?s = "demo_class ''dcr''" and ?ctx = "client_base demo_kinds ''app'' ''openid''"
  have l: "exchange_LookupClient demo_exchange minute ''app'' ?s = (Inr (Some demo_app), ?s)"
    by (simp add: exchange_LookupClient_def LookupClient_def demo_exchange_def)
  have p: "IsM2MEnabled demo_logins (x_ex demo_exchange)" "ac_ClientSecret demo_app = []"
    "client_scopes (ac_AllowedScopes demo_app) (Split ''openid'' CHR '' '') = Inr [''openid'']"
    "client_grants demo_exchange ''app'' [''openid''] ?ctx = Inr ?ctx" "Join [''openid''] '' '' = ''openid''"
    "Sign (x_lib demo_exchange) (x_signer demo_exchange) minute ''j'' ?ctx = Inr ''RS256.app''" by code_simp+
  have x: "x_kinds demo_exchange = demo_kinds" "x_lib demo_exchange = demo_lib" "x_signer demo_exchange = demo_signer"
    by (simp_all add: demo_exchange_def)
  have b: "buildClientSigningContext demo_exchange demo_logins minute ''app'' [] ''openid'' ?s = (Inr (?ctx, ''openid''), ?s)"
    using l p x by (simp add: buildClientSigningContext_def)
  then have "LoginClient demo_exchange demo_logins minute ''j'' ''app'' [] ''openid'' ?s = ((client_token ''RS256.app'' ''openid'' ''app'', None), ?s)"
    using p by (simp add: LoginClient_def)
  then have "LoginClient demo_exchange demo_logins minute ''j'' ''app'' [] ''openid'' ?s = ((client_token ''RS256.app'' ''openid'' ''app'', None), ?s) \<or>
    LoginClientResource demo_exchange demo_logins minute ''j'' ''app'' [] ''openid'' [] ?s = ((client_token ''RS256.app'' ''openid'' ''app'', None), ?s)"
    by (rule disjI1)
  from client_login_confined [OF this] obtain ctx signer where
    "client_vouched demo_exchange demo_logins minute ''app'' [] ''openid'' ?s ctx ''openid''" "carries demo_lib signer ctx ''RS256.app''"
    "signer = demo_signer \<or> target_signer demo_logins [] = Inr signer" by (auto simp: client_token_def x)
  moreover have "target_signer demo_logins [] = (Inl (errorf ''signer requires an audience'') :: goerror + Signer)"
    by (simp add: target_signer_def NewSigner_def)
  ultimately show ?thesis by auto
qed

section \<open>A password login\<close>

text \<open>The claims of the reserved set that a password login does not set itself.\<close>

definition foreign_reserved :: "string list" where
  "foreign_reserved = filter (\<lambda>k. k \<notin> {''sub'', ''scope'', ''auth_method'', ClaimSubjectKind}) reservedMintClaims"

lemma foreign_reserved_iff:
  "k \<in> set foreign_reserved \<longleftrightarrow> k \<in> set reservedMintClaims \<and> k \<noteq> ''sub'' \<and> k \<noteq> ''scope'' \<and> k \<noteq> ''auth_method'' \<and> k \<noteq> ClaimSubjectKind"
  by (auto simp: foreign_reserved_def)

definition local_shape :: "kind_lib \<Rightarrow> string \<Rightarrow> mapclaims \<Rightarrow> bool" where
  "local_shape K authMethod ctx \<longleftrightarrow>
     map_of ctx ClaimSubjectKind = Some (VStr (SubjectKindUser K)) \<and> map_of ctx ''auth_method'' = Some (VStr authMethod) \<and>
     (\<forall>k \<in> set foreign_reserved. map_of ctx k = None)"

lemma local_shape_context: "local_shape K authMethod (local_context K authMethod identity)"
  by (auto simp: local_shape_def local_context_def foreign_reserved_iff ClaimSubjectKind_def)

lemma local_shape_filter:
  assumes "local_shape K m ctx" and "applyScopeFilter ctx scope d = (granted, ctx')"
  shows "local_shape K m ctx'"
  using assms
  by (auto simp: local_shape_def applyScopeFilter_def Let_def foreign_reserved_iff ClaimSubjectKind_def split: if_splits)

lemma local_shape_merge:
  assumes "local_shape K m ctx"
  shows "local_shape K m (mergeBackendClaims ctx backend)"
  using assms by (auto simp: local_shape_def map_of_mergeBackendClaims foreign_reserved_iff split: option.splits)

lemma local_shape_enrich:
  assumes "local_shape K m ctx" and "enrichAfterGate x now ctx sub s = (ctx', s')"
  shows "local_shape K m ctx'"
  using assms local_shape_merge by (auto simp: enrichAfterGate_def split: if_splits prod.splits)

lemma local_mint_ok:
  assumes "local_mint x now nowMilli F username sub clientID authMethod granted ctx gate st = ((ts, None, gate', notes), st')"
  shows "carries (x_lib x) (x_signer x) ctx (ts_AccessToken ts) \<and> ts_Subject ts = sub \<and> ts_Scope ts = Join granted '' '' \<and> gate' = gate \<and>
    (\<not> x_cached x \<longrightarrow> ts_RefreshToken ts = [])"
proof -
  from assms obtain pair where p: "sign_pair x now (f_jti F) (f_jti' F) clientID ctx granted = Inr pair"
    by (auto simp: local_mint_def split: sum.splits)
  then have "carries (x_lib x) (x_signer x) ctx (fst pair)"
    using SignScoped_carries by (fastforce simp: sign_pair_def split: sum.splits if_splits)
  with assms p show ?thesis
    by (auto simp: local_mint_def Let_def token_set_def split: if_splits prod.splits sum.splits)
qed

definition login_allowed ::
  "'s exchange \<Rightarrow> login_env \<Rightarrow> int \<Rightarrow> string \<Rightarrow> string \<Rightarrow> string \<Rightarrow> event_calls \<Rightarrow> bool" where
  "login_allowed x V nowMilli username sub source gate \<longleftrightarrow>
     source = LookupTypeSecret \<and> gate = [] \<or>
     (\<exists>p. ep_Subject p = sub \<and> ep_LoginName p = username \<and> GateLogin (le_Call V) nowMilli (x_dispatcher x) p = (None, gate))"

lemma local_vouched_ok:
  assumes "local_vouched x V now nowMilli F username sub scope clientID authMethod source identity st = ((ts, None, gate, notes), st')"
  shows "authMethod \<in> {AuthMethodLocal, AuthMethodOAuth2} \<and> login_allowed x V nowMilli username sub source gate \<and>
    ts_Subject ts = sub \<and> ts_Scope ts = Join (granted_scopes scope defaultSessionScopes) '' '' \<and>
    (\<exists>ctx. local_shape (x_kinds x) authMethod ctx \<and> carries (x_lib x) (x_signer x) ctx (ts_AccessToken ts))"
proof -
  obtain granted ctx where f: "applyScopeFilter (local_context (x_kinds x) authMethod identity) scope defaultSessionScopes = (granted, ctx)"
    by (rule prod.exhaust)
  have sh: "local_shape (x_kinds x) authMethod ctx" by (rule local_shape_filter [OF local_shape_context f])
  have gr: "granted = granted_scopes scope defaultSessionScopes" using f by (simp add: applyScopeFilter_def Let_def)
  let ?p = "login_name username (loginPayload EventLogin ctx sub clientID (Join granted '' '') authMethod)"
  have n: "ep_Subject ?p = sub" "ep_LoginName ?p = username" by (simp_all add: login_name_def loginPayload_def)
  from assms have m: "authMethod \<in> {AuthMethodLocal, AuthMethodOAuth2}" by (auto simp: local_vouched_def split: if_splits)
  show ?thesis
  proof (cases "source = LookupTypeSecret")
    case True
    with assms f m have "local_mint x now nowMilli F username sub clientID authMethod granted ctx [] st = ((ts, None, gate, notes), st')"
      by (auto simp: local_vouched_def Let_def)
    from local_mint_ok [OF this] show ?thesis using True m sh gr by (auto simp: login_allowed_def)
  next
    case False
    with assms f m obtain g where g: "GateLogin (le_Call V) nowMilli (x_dispatcher x) ?p = (None, g)"
      by (auto simp: local_vouched_def Let_def split: prod.splits option.splits)
    obtain ctx' s where e: "enrichAfterGate x now ctx sub (st_resolve st) = (ctx', s)" by (rule prod.exhaust)
    with assms f m False g have "local_mint x now nowMilli F username sub clientID authMethod granted ctx' g (st\<lparr>st_resolve := s\<rparr>) = ((ts, None, gate, notes), st')"
      by (auto simp: local_vouched_def Let_def)
    from local_mint_ok [OF this] show ?thesis
      using m g n gr local_shape_enrich [OF sh e] unfolding login_allowed_def by blast
  qed
qed


definition demo_directory :: scopeProvider where
  "demo_directory = \<lparr>sp_lookups = [\<lparr>lk_FindInternal =
         (\<lambda>s p. if s = ''alice'' \<and> p = ''pw'' then Inr (True, Some [(''sub'', VStr ''u1''), (''act'', VStr ''root'')]) else Inr (False, None)),
       lk_ResolveClaims = (\<lambda>_. Inr []), lk_Type = ''ldap''\<rparr>],
     sp_roles = [], sp_rolesMap = [], sp_exactBindings = [], sp_patternBindings = []\<rparr>"

definition demo_person_exchange :: "InMemoryCache exchange" where
  "demo_person_exchange = demo_exchange\<lparr>x_sp := Some demo_directory, x_cached := False\<rparr>"


text \<open>An OIDC login keeps the reserved claims it does not set, in contrast to a password login.\<close>

theorem oidc_login_keeps_reserved:
  assumes "k \<in> set foreign_reserved" and "k \<noteq> ''idp''"
  shows "map_of (oidc_context (oidc_claims claims) kind roles ents) k = map_of claims k"
proof -
  have "k \<noteq> ''roles'' \<and> k \<noteq> ''entitlements''"
    using assms(1) by (auto simp: foreign_reserved_iff reservedMintClaims_def mintDecidedClaims_def ClaimSubjectKind_def)
  then show ?thesis
    using assms by (auto simp: oidc_context_def oidc_claims_def Let_def foreign_reserved_iff)
qed

end
