(* ===== verification/Web.thy ===== *)
theory Web
  imports Prelude
begin

text \<open>
  HTTP responses: the header map and response writer of \<open>net/http\<close> that handlers write to, the
  error-capturing writer of \<open>src/internal/host/ew.go\<close> with \<open>PreserveHeader\<close>
  (\<open>src/internal/auth/preserve.go\<close>), and how a captured error is re-rendered (\<open>unwrap\<close> of
  \<open>feedback.go\<close>, \<open>serveError\<close> of \<open>host.go\<close>, the Vary helpers and the page security headers).

  A header map is an association list from canonical names to values. The writer under the capture keeps
  the header it would still send, the final status with the header sent at that moment, the informational
  statuses and the body. Rendering an error page is a parameter.
\<close>

section \<open>Header names\<close>

definition token_char :: "char \<Rightarrow> bool" where
  "token_char c \<longleftrightarrow>
     (let n = (of_char c :: nat)
      in (48 \<le> n \<and> n \<le> 57) \<or> (65 \<le> n \<and> n \<le> 90) \<or> (97 \<le> n \<and> n \<le> 122) \<or> c \<in> set ''!#$%&*+-.^_`|~'' \<or> n = 39)"

definition ascii_upper :: "char \<Rightarrow> char" where
  "ascii_upper c =
     (if 97 \<le> (of_char c :: nat) \<and> (of_char c :: nat) \<le> 122 then char_of ((of_char c :: nat) - 32) else c)"

fun canonical :: "bool \<Rightarrow> string \<Rightarrow> string" where
  "canonical upper [] = []"
| "canonical upper (c # s) = (if upper then ascii_upper c else ascii_lower c) # canonical (c = CHR ''-'') s"

definition CanonicalMIMEHeaderKey :: "string \<Rightarrow> string" where
  "CanonicalMIMEHeaderKey s = (if list_all token_char s then canonical True s else s)"

type_synonym header = "string list gomap"

definition h_Values :: "header \<Rightarrow> string \<Rightarrow> string list" where
  "h_Values h k = (case map_of h (CanonicalMIMEHeaderKey k) of None \<Rightarrow> [] | Some vs \<Rightarrow> vs)"

definition h_Get :: "header \<Rightarrow> string \<Rightarrow> string" where
  "h_Get h k = (case h_Values h k of [] \<Rightarrow> [] | v # _ \<Rightarrow> v)"

definition h_Set :: "string \<Rightarrow> string \<Rightarrow> header \<Rightarrow> header" where
  "h_Set k v h = AList.update (CanonicalMIMEHeaderKey k) [v] h"

definition h_Add :: "string \<Rightarrow> string \<Rightarrow> header \<Rightarrow> header" where
  "h_Add k v h = AList.update (CanonicalMIMEHeaderKey k) (h_Values h k @ [v]) h"

definition h_Del :: "string \<Rightarrow> header \<Rightarrow> header" where
  "h_Del k h = AList.delete (CanonicalMIMEHeaderKey k) h"

section \<open>The response writer\<close>

record response =
  rs_header :: header
  rs_sent :: "(nat \<times> header) option"
  rs_info :: "nat list"
  rs_body :: string
  rs_flushed :: bool

definition new_response :: response where
  "new_response = \<lparr>rs_header = [], rs_sent = None, rs_info = [], rs_body = [], rs_flushed = False\<rparr>"

text \<open>\<open>net/http\<close>: an informational status is sent at once, the first final one is kept.\<close>

definition rs_WriteHeader :: "nat \<Rightarrow> response \<Rightarrow> response" where
  "rs_WriteHeader code r =
     (if rs_sent r \<noteq> None then r
      else if code < 200 then r\<lparr>rs_info := rs_info r @ [code]\<rparr>
      else r\<lparr>rs_sent := Some (code, rs_header r)\<rparr>)"

definition rs_Write :: "string \<Rightarrow> response \<Rightarrow> response" where
  "rs_Write b r = (let r1 = rs_WriteHeader 200 r in r1\<lparr>rs_body := rs_body r1 @ b\<rparr>)"

definition rs_Flush :: "response \<Rightarrow> response" where
  "rs_Flush r = (rs_WriteHeader 200 r)\<lparr>rs_flushed := True\<rparr>"

record errorResponseWriter =
  ew_inner :: response
  ew_statusCode :: nat
  ew_statusMsg :: string
  ew_wroteHeader :: bool
  ew_preserved :: "string gomap"

definition new_ew :: "response \<Rightarrow> errorResponseWriter" where
  "new_ew w = \<lparr>ew_inner = w, ew_statusCode = 0, ew_statusMsg = [], ew_wroteHeader = False, ew_preserved = []\<rparr>"

definition on_inner :: "(response \<Rightarrow> response) \<Rightarrow> errorResponseWriter \<Rightarrow> errorResponseWriter" where
  "on_inner f ew = ew\<lparr>ew_inner := f (ew_inner ew)\<rparr>"

definition map_header :: "(header \<Rightarrow> header) \<Rightarrow> response \<Rightarrow> response" where
  "map_header f r = r\<lparr>rs_header := f (rs_header r)\<rparr>"

definition ew_PreserveHeader :: "string \<Rightarrow> string \<Rightarrow> errorResponseWriter \<Rightarrow> errorResponseWriter" where
  "ew_PreserveHeader name value ew =
     (on_inner (map_header (h_Set name value)) ew)
       \<lparr>ew_preserved := AList.update (CanonicalMIMEHeaderKey name) value (ew_preserved ew)\<rparr>"

definition ew_WriteHeader :: "nat \<Rightarrow> errorResponseWriter \<Rightarrow> errorResponseWriter" where
  "ew_WriteHeader code ew =
     (if ew_wroteHeader ew then ew
      else if code < 200 then on_inner (rs_WriteHeader code) ew
      else if code \<ge> 400 then ew\<lparr>ew_statusCode := code\<rparr>
      else on_inner (rs_WriteHeader code) (ew\<lparr>ew_statusCode := code, ew_wroteHeader := True\<rparr>))"

definition ew_Write :: "string \<Rightarrow> errorResponseWriter \<Rightarrow> errorResponseWriter" where
  "ew_Write b ew =
     (if ew_statusCode ew \<ge> 400 then ew\<lparr>ew_statusMsg := ew_statusMsg ew @ b\<rparr>
      else on_inner (rs_Write b) (if ew_wroteHeader ew then ew else ew_WriteHeader 200 ew))"

definition ew_Flush :: "errorResponseWriter \<Rightarrow> errorResponseWriter" where
  "ew_Flush ew = (if ew_statusCode ew \<ge> 400 then ew else on_inner rs_Flush ew)"

section \<open>Any writer\<close>

text \<open>A \<open>http.ResponseWriter\<close> value: the plain writer or the capturing one, which is the
  \<open>HeaderPreserver\<close>.\<close>

datatype rw = Plain response | Capture errorResponseWriter

fun under :: "rw \<Rightarrow> response" where
  "under (Plain r) = r"
| "under (Capture ew) = ew_inner ew"

fun rw_header :: "(header \<Rightarrow> header) \<Rightarrow> rw \<Rightarrow> rw" where
  "rw_header f (Plain r) = Plain (map_header f r)"
| "rw_header f (Capture ew) = Capture (on_inner (map_header f) ew)"

fun rw_WriteHeader :: "nat \<Rightarrow> rw \<Rightarrow> rw" where
  "rw_WriteHeader code (Plain r) = Plain (rs_WriteHeader code r)"
| "rw_WriteHeader code (Capture ew) = Capture (ew_WriteHeader code ew)"

fun rw_Write :: "string \<Rightarrow> rw \<Rightarrow> rw" where
  "rw_Write b (Plain r) = Plain (rs_Write b r)"
| "rw_Write b (Capture ew) = Capture (ew_Write b ew)"

fun rw_Flush :: "rw \<Rightarrow> rw" where
  "rw_Flush (Plain r) = Plain (rs_Flush r)"
| "rw_Flush (Capture ew) = Capture (ew_Flush ew)"

fun PreserveHeader :: "string \<Rightarrow> string \<Rightarrow> rw \<Rightarrow> rw" where
  "PreserveHeader name value (Capture ew) = Capture (ew_PreserveHeader name value ew)"
| "PreserveHeader name value w = rw_header (h_Set name value) w"

text \<open>\<open>http.Error\<close>.\<close>

definition http_Error :: "string \<Rightarrow> nat \<Rightarrow> rw \<Rightarrow> rw" where
  "http_Error msg code w =
     rw_Write (msg @ [CHR 0x0A])
       (rw_WriteHeader code
         (rw_header (h_Set ''X-Content-Type-Options'' ''nosniff'' \<circ> h_Set ''Content-Type'' ''text/plain; charset=utf-8''
            \<circ> h_Del ''Content-Length'') w))"

section \<open>Re-rendering an error\<close>

definition acceptsHTML :: "header \<Rightarrow> bool" where
  "acceptsHTML request = Contains (h_Get request ''Accept'') ''text/html''"

definition vary_fields :: "header \<Rightarrow> string list" where
  "vary_fields h = concat (map (\<lambda>v. map TrimSpace (Split v CHR '','')) (h_Values h ''Vary''))"

definition varyHas :: "header \<Rightarrow> string \<Rightarrow> bool" where
  "varyHas h field = list_ex (\<lambda>f. EqualFold f field) (vary_fields h)"

fun add_vary_fields :: "string list \<Rightarrow> string list \<Rightarrow> header \<Rightarrow> header" where
  "add_vary_fields present [] h = h"
| "add_vary_fields present (f # fs) h =
     (let t = TrimSpace f
      in if t \<noteq> [] \<and> map ascii_lower t \<notin> set present
         then add_vary_fields (map ascii_lower t # present) fs (h_Add ''Vary'' t h)
         else add_vary_fields present fs h)"

definition addVary :: "string \<Rightarrow> header \<Rightarrow> header" where
  "addVary vary h = add_vary_fields (map (map ascii_lower) (vary_fields h)) (Split vary CHR '','') h"

record HSTS =
  hs_MaxAge :: "int option"
  hs_IncludeSubDomains :: bool
  hs_Preload :: bool

definition hstsHeaderValue :: "string \<Rightarrow> HSTS option \<Rightarrow> string" where
  "hstsHeaderValue scheme h =
     (if \<not> EqualFold scheme ''https'' then []
      else let maxAge = (case h of Some hs \<Rightarrow> (case hs_MaxAge hs of Some m \<Rightarrow> m | None \<Rightarrow> 31536000) | None \<Rightarrow> 31536000);
               v = ''max-age='' @ FormatInt maxAge
           in case h of
                None \<Rightarrow> v
              | Some hs \<Rightarrow>
                  v @ (if hs_IncludeSubDomains hs then ''; includeSubDomains'' else []) @
                    (if hs_Preload hs then ''; preload'' else []))"

definition setTransportSecurityHeadersLocked :: "string \<Rightarrow> header \<Rightarrow> header" where
  "setTransportSecurityHeadersLocked hstsValue h =
     (let h1 = h_Set ''X-Content-Type-Options'' ''nosniff'' h
      in if hstsValue \<noteq> [] then h_Set ''Strict-Transport-Security'' hstsValue h1 else h1)"

definition setPageSecurityHeadersLocked :: "string \<Rightarrow> header \<Rightarrow> header" where
  "setPageSecurityHeadersLocked hstsValue h =
     setTransportSecurityHeadersLocked hstsValue
       (h_Set ''Referrer-Policy'' ''strict-origin-when-cross-origin''
         (h_Set ''Content-Security-Policy'' (''frame-ancestors '' @ [CHR 0x27] @ ''self'' @ [CHR 0x27])
           (h_Set ''X-Frame-Options'' ''SAMEORIGIN'' h)))"

text \<open>The part of the host \<open>serveError\<close> reads: the HSTS value, the negotiated language and the renderer of
  the error page, which yields the empty string when there is none.\<close>

record error_env =
  ee_hsts :: string
  ee_lang :: string
  ee_render :: "nat \<Rightarrow> string \<Rightarrow> string"

definition serveError :: "error_env \<Rightarrow> nat \<Rightarrow> string \<Rightarrow> rw \<Rightarrow> rw" where
  "serveError E code msg w =
     (let w1 = rw_header (addVary ''Accept-Language'' \<circ> setPageSecurityHeadersLocked (ee_hsts E)) w;
          rendered = ee_render E code msg
      in if rendered = [] then http_Error msg code w1
         else rw_Write rendered
                (rw_WriteHeader code
                  (rw_header (h_Set ''Content-Language'' (ee_lang E) \<circ> h_Set ''Content-Type'' ''text/html'') w1)))"

text \<open>The header map after the wipe: what the capture recorded, and the negotiated coding.\<close>

definition wiped :: "errorResponseWriter \<Rightarrow> header \<Rightarrow> header" where
  "wiped ew h =
     (let restored = fold (\<lambda>(k, v). h_Set k v) (ew_preserved ew) []
      in if varyHas h ''Accept-Encoding'' then addVary ''Accept-Encoding'' restored else restored)"

definition unwrap_ew :: "error_env \<Rightarrow> header \<Rightarrow> errorResponseWriter \<Rightarrow> rw" where
  "unwrap_ew E request ew =
     (let w = ew_inner ew
      in if ew_statusCode ew < 400 then Plain w
         else if acceptsHTML request
         then serveError E (ew_statusCode ew) (ew_statusMsg ew) (Plain (map_header (wiped ew) w))
         else let w1 = (if h_Get (rs_header w) ''Content-Type'' = []
                        then map_header (h_Set ''Content-Type'' ''text/plain; charset=utf-8'') w else w)
              in Plain (rs_Write (ew_statusMsg ew) (rs_WriteHeader (ew_statusCode ew) w1)))"

section \<open>A handler's run\<close>

text \<open>What a handler, or a proxied backend through it, does with its writer.\<close>

datatype rw_op =
    OpSet string string
  | OpAdd string string
  | OpDel string
  | OpPreserve string string
  | OpWriteHeader nat
  | OpWrite string
  | OpFlush

fun rw_apply :: "rw_op \<Rightarrow> rw \<Rightarrow> rw" where
  "rw_apply (OpSet k v) w = rw_header (h_Set k v) w"
| "rw_apply (OpAdd k v) w = rw_header (h_Add k v) w"
| "rw_apply (OpDel k) w = rw_header (h_Del k) w"
| "rw_apply (OpPreserve k v) w = PreserveHeader k v w"
| "rw_apply (OpWriteHeader code) w = rw_WriteHeader code w"
| "rw_apply (OpWrite b) w = rw_Write b w"
| "rw_apply OpFlush w = rw_Flush w"

definition rw_run :: "rw_op list \<Rightarrow> rw \<Rightarrow> rw" where
  "rw_run ops w = fold rw_apply ops w"

section \<open>Canonical names\<close>

lemma of_char_less: "(of_char c :: nat) < 256"
  by (metis of_char_mod_256 mod_less_divisor zero_less_numeral)

lemma of_char_ascii_upper:
  "(of_char (ascii_upper c) :: nat) = (if 97 \<le> (of_char c :: nat) \<and> (of_char c :: nat) \<le> 122 then of_char c - 32 else of_char c)"
  using of_char_less [of c] by (auto simp: ascii_upper_def intro!: mod_less)

lemma of_char_ascii_lower:
  "(of_char (ascii_lower c) :: nat) = (if 65 \<le> (of_char c :: nat) \<and> (of_char c :: nat) \<le> 90 then of_char c + 32 else of_char c)"
  using of_char_less [of c] by (auto simp: ascii_lower_def intro!: mod_less)

lemma char_eqI: "(of_char c :: nat) = of_char d \<Longrightarrow> c = d"
  by (metis char_of_char)

lemma ascii_idem: "ascii_upper (ascii_upper c) = ascii_upper c" "ascii_lower (ascii_lower c) = ascii_lower c"
  by (auto intro!: char_eqI simp: of_char_ascii_upper of_char_ascii_lower)

lemma of_char_iff: "c = d \<longleftrightarrow> (of_char c :: nat) = of_char d"
  using char_eqI by auto

lemma ascii_hyphen: "ascii_upper c = CHR ''-'' \<longleftrightarrow> c = CHR ''-''" "ascii_lower c = CHR ''-'' \<longleftrightarrow> c = CHR ''-''"
  unfolding of_char_iff of_char_ascii_upper of_char_ascii_lower by auto

lemma token_char_letter:
  "(65 \<le> (of_char c :: nat) \<and> (of_char c :: nat) \<le> 90) \<or> (97 \<le> (of_char c :: nat) \<and> (of_char c :: nat) \<le> 122) \<Longrightarrow> token_char c"
  by (auto simp: token_char_def Let_def)

lemma token_ascii_upper: "token_char c \<Longrightarrow> token_char (ascii_upper c)"
proof (cases "97 \<le> (of_char c :: nat) \<and> (of_char c :: nat) \<le> 122")
  case True
  then have "65 \<le> (of_char (ascii_upper c) :: nat) \<and> (of_char (ascii_upper c) :: nat) \<le> 90"
    unfolding of_char_ascii_upper by auto
  then show ?thesis by (simp add: token_char_letter)
qed (auto simp: ascii_upper_def)

lemma token_ascii_lower: "token_char c \<Longrightarrow> token_char (ascii_lower c)"
proof (cases "65 \<le> (of_char c :: nat) \<and> (of_char c :: nat) \<le> 90")
  case True
  then have "97 \<le> (of_char (ascii_lower c) :: nat) \<and> (of_char (ascii_lower c) :: nat) \<le> 122"
    unfolding of_char_ascii_lower by auto
  then show ?thesis by (simp add: token_char_letter)
qed (auto simp: ascii_lower_def)

lemma canonical_idem: "canonical u (canonical u s) = canonical u s"
  by (induction s arbitrary: u) (auto simp: ascii_idem ascii_hyphen)

lemma canonical_length: "length (canonical u s) = length s"
  by (induction s arbitrary: u) auto

lemma canonical_token: "list_all token_char s \<Longrightarrow> list_all token_char (canonical u s)"
  by (induction s arbitrary: u) (auto simp: token_ascii_upper token_ascii_lower)

lemma Canonical_idem [simp]: "CanonicalMIMEHeaderKey (CanonicalMIMEHeaderKey s) = CanonicalMIMEHeaderKey s"
  by (simp add: CanonicalMIMEHeaderKey_def canonical_token canonical_idem)

lemma Join_Split [go_string]: "Join (Split s c) [c] = s"
proof (induction s)
  case (Cons a s)
  obtain p ps where "Split s c = p # ps" by (cases "Split s c") auto
  with Cons show ?case by (cases ps) auto
qed simp

section \<open>Header maps\<close>

lemma Values_Set [simp]:
  "h_Values (h_Set k v h) k' = (if CanonicalMIMEHeaderKey k = CanonicalMIMEHeaderKey k' then [v] else h_Values h k')"
  by (simp add: h_Values_def h_Set_def update_conv')

lemma Values_Add:
  "h_Values (h_Add k v h) k' =
    (if CanonicalMIMEHeaderKey k = CanonicalMIMEHeaderKey k' then h_Values h k' @ [v] else h_Values h k')"
  by (simp add: h_Values_def h_Add_def update_conv')

lemma Values_Del:
  "h_Values (h_Del k h) k' = (if CanonicalMIMEHeaderKey k = CanonicalMIMEHeaderKey k' then [] else h_Values h k')"
  by (simp add: h_Values_def h_Del_def delete_conv')

lemma Values_Nil [simp]: "h_Values [] k = []"
  by (simp add: h_Values_def)

lemma Values_add_vary:
  "CanonicalMIMEHeaderKey k \<noteq> CanonicalMIMEHeaderKey ''Vary'' \<Longrightarrow>
    h_Values (add_vary_fields present fs h) k = h_Values h k"
  by (induction present fs h rule: add_vary_fields.induct) (auto simp: Let_def Values_Add)

lemma Values_addVary:
  "CanonicalMIMEHeaderKey k \<noteq> CanonicalMIMEHeaderKey ''Vary'' \<Longrightarrow> h_Values (addVary vary h) k = h_Values h k"
  by (simp add: addVary_def Values_add_vary)

lemma Values_restore:
  "distinct (map fst ps) \<Longrightarrow> \<forall>k \<in> fst ` set ps. CanonicalMIMEHeaderKey k = k \<Longrightarrow>
    h_Values (fold (\<lambda>(k, v). h_Set k v) ps h) k =
    (case map_of ps (CanonicalMIMEHeaderKey k) of None \<Rightarrow> h_Values h k | Some v \<Rightarrow> [v])"
proof (induction ps arbitrary: h)
  case (Cons p ps)
  obtain a b where p: "p = (a, b)" by (cases p)
  have a: "CanonicalMIMEHeaderKey a = a" "map_of ps a = None"
    using Cons.prems p by (auto simp: map_of_eq_None_iff)
  show ?case using Cons p a by (auto split: option.splits)
qed simp

section \<open>The capture\<close>

text \<open>A capture over an unsent writer: what it has let through is what a plain writer would have sent.\<close>

definition was_sent :: "response \<Rightarrow> bool" where
  "was_sent r \<longleftrightarrow> rs_sent r \<noteq> None"

definition keys_ok :: "string gomap \<Rightarrow> bool" where
  "keys_ok ps \<longleftrightarrow> distinct (map fst ps) \<and> (\<forall>k \<in> fst ` set ps. CanonicalMIMEHeaderKey k = k)"

definition ew_ok :: "errorResponseWriter \<Rightarrow> bool" where
  "ew_ok ew \<longleftrightarrow>
     (ew_wroteHeader ew \<longrightarrow> was_sent (ew_inner ew) \<and> ew_statusCode ew < 400) \<and>
     keys_ok (ew_preserved ew)"

fun quiet :: "rw_op \<Rightarrow> bool" where
  "quiet (OpWriteHeader code) \<longleftrightarrow> code < 400"
| "quiet _ \<longleftrightarrow> True"

lemma rs_WriteHeader_sent: "was_sent r \<Longrightarrow> rs_WriteHeader code r = r"
  by (simp add: rs_WriteHeader_def was_sent_def)

lemma was_sent_simps [simp]:
  "was_sent (map_header f r) = was_sent r" "was_sent (rs_Write b r)" "was_sent (rs_Flush r)"
  "was_sent (rs_WriteHeader code r) \<longleftrightarrow> was_sent r \<or> 200 \<le> code"
  by (auto simp: was_sent_def map_header_def rs_Write_def rs_Flush_def rs_WriteHeader_def Let_def)

lemma rs_Write_WriteHeader: "rs_Write b (rs_WriteHeader 200 r) = rs_Write b r"
  by (simp add: rs_Write_def Let_def rs_WriteHeader_sent)

lemma ew_ok_new: "ew_ok (new_ew w)"
  by (simp add: ew_ok_def new_ew_def keys_ok_def)

lemma keys_ok_update: "keys_ok ps \<Longrightarrow> keys_ok (AList.update (CanonicalMIMEHeaderKey n) v ps)"
  unfolding keys_ok_def by (auto simp: distinct_update dom_update)

lemma ew_ok_step:
  "ew_ok ew \<Longrightarrow> \<exists>ew'. rw_apply op (Capture ew) = Capture ew' \<and> ew_ok ew'"
proof (cases op)
  case (OpPreserve k v)
  assume "ew_ok ew"
  then show ?thesis using OpPreserve
    by (simp add: ew_ok_def on_inner_def ew_PreserveHeader_def keys_ok_update)
next
  case (OpWriteHeader code)
  assume "ew_ok ew"
  then show ?thesis using OpWriteHeader by (simp add: ew_ok_def on_inner_def ew_WriteHeader_def)
next
  case (OpWrite b)
  assume "ew_ok ew"
  then show ?thesis using OpWrite by (simp add: ew_ok_def on_inner_def ew_Write_def ew_WriteHeader_def)
next
  case OpFlush
  assume "ew_ok ew"
  then show ?thesis using OpFlush by (simp add: ew_ok_def on_inner_def ew_Flush_def)
qed (simp_all add: ew_ok_def on_inner_def)

lemma ew_ok_run: "ew_ok ew \<Longrightarrow> \<exists>ew'. rw_run ops (Capture ew) = Capture ew' \<and> ew_ok ew'"
proof (induction ops arbitrary: ew)
  case (Cons op ops)
  then show ?case using ew_ok_step [of ew op] by (auto simp: rw_run_def)
qed (simp add: rw_run_def)

text \<open>One step of the capture is one step of the plain writer, as long as no error is captured.\<close>

lemma transparent_step:
  assumes "ew_ok ew" and "ew_statusCode ew < 400" and "quiet op"
  shows "\<exists>ew'. rw_apply op (Capture ew) = Capture ew' \<and> rw_apply op (Plain (ew_inner ew)) = Plain (ew_inner ew') \<and>
    ew_statusCode ew' < 400"
proof (cases op)
  case (OpPreserve k v)
  then show ?thesis using assms(2) by (simp add: on_inner_def ew_PreserveHeader_def)
next
  case (OpWriteHeader code)
  then show ?thesis using assms by (simp add: ew_ok_def on_inner_def ew_WriteHeader_def rs_WriteHeader_sent)
next
  case (OpWrite b)
  then show ?thesis using assms(2) by (simp add: on_inner_def ew_Write_def ew_WriteHeader_def rs_Write_WriteHeader)
next
  case OpFlush
  then show ?thesis using assms(2) by (simp add: on_inner_def ew_Flush_def)
qed (use assms(2) in \<open>simp_all add: on_inner_def\<close>)

lemma transparent_run:
  "ew_ok ew \<Longrightarrow> ew_statusCode ew < 400 \<Longrightarrow> list_all quiet ops \<Longrightarrow>
    \<exists>ew'. rw_run ops (Capture ew) = Capture ew' \<and> rw_run ops (Plain (ew_inner ew)) = Plain (ew_inner ew') \<and>
      ew_statusCode ew' < 400"
proof (induction ops arbitrary: ew)
  case (Cons op ops)
  from Cons.prems transparent_step [of ew op] obtain ew' where
    st: "rw_apply op (Capture ew) = Capture ew'" "rw_apply op (Plain (ew_inner ew)) = Plain (ew_inner ew')"
      "ew_statusCode ew' < 400" by auto
  moreover have "ew_ok ew'" using ew_ok_step [OF Cons.prems(1), of op] st(1) by auto
  ultimately show ?case using Cons by (auto simp: rw_run_def)
qed (simp add: rw_run_def)

section \<open>Provenance\<close>

text \<open>The value this process last recorded for a header name in a run.\<close>

definition record_op :: "string \<Rightarrow> rw_op \<Rightarrow> string option \<Rightarrow> string option" where
  "record_op k op r =
     (case op of OpPreserve n v \<Rightarrow> if CanonicalMIMEHeaderKey n = CanonicalMIMEHeaderKey k then Some v else r | _ \<Rightarrow> r)"

definition recorded :: "rw_op list \<Rightarrow> string \<Rightarrow> string option" where
  "recorded ops k = fold (record_op k) ops None"

lemma preserved_step:
  "rw_apply op (Capture ew) = Capture ew' \<Longrightarrow>
    map_of (ew_preserved ew') (CanonicalMIMEHeaderKey k) = record_op k op (map_of (ew_preserved ew) (CanonicalMIMEHeaderKey k))"
  by (cases op)
    (auto simp: record_op_def on_inner_def ew_PreserveHeader_def ew_WriteHeader_def ew_Write_def ew_Flush_def update_conv'
      split: if_splits)

lemma preserved_run:
  "ew_ok ew \<Longrightarrow> rw_run ops (Capture ew) = Capture ew' \<Longrightarrow>
    map_of (ew_preserved ew') (CanonicalMIMEHeaderKey k) =
    fold (record_op k) ops (map_of (ew_preserved ew) (CanonicalMIMEHeaderKey k))"
proof (induction ops arbitrary: ew)
  case (Cons op ops)
  from ew_ok_step [OF Cons.prems(1), of op] obtain e1 where
    e1: "rw_apply op (Capture ew) = Capture e1" "ew_ok e1" by blast
  with Cons.prems(2) have "rw_run ops (Capture e1) = Capture ew'" by (simp add: rw_run_def)
  from Cons.IH [OF e1(2) this] preserved_step [OF e1(1), of k] show ?case by simp
qed (simp add: rw_run_def)

text \<open>Without a flush, a captured error means nothing was sent.\<close>

definition unsent :: "errorResponseWriter \<Rightarrow> bool" where
  "unsent ew \<longleftrightarrow> (was_sent (ew_inner ew) \<longrightarrow> ew_wroteHeader ew)"

lemma unsent_step:
  "unsent ew \<Longrightarrow> op \<noteq> OpFlush \<Longrightarrow> rw_apply op (Capture ew) = Capture ew' \<Longrightarrow> unsent ew'"
  by (cases op)
    (auto simp: unsent_def on_inner_def ew_PreserveHeader_def ew_WriteHeader_def ew_Write_def split: if_splits)

lemma unsent_run:
  "ew_ok ew \<Longrightarrow> unsent ew \<Longrightarrow> OpFlush \<notin> set ops \<Longrightarrow> rw_run ops (Capture ew) = Capture ew' \<Longrightarrow> unsent ew'"
proof (induction ops arbitrary: ew)
  case (Cons op ops)
  from ew_ok_step [OF Cons.prems(1), of op] obtain e1 where
    e1: "rw_apply op (Capture ew) = Capture e1" "ew_ok e1" by blast
  have "op \<noteq> OpFlush" using Cons.prems(3) by auto
  from Cons.IH [OF e1(2) unsent_step [OF Cons.prems(2) this e1(1)]] Cons.prems(3,4) e1(1) show ?case
    by (simp add: rw_run_def)
qed (simp add: rw_run_def)

text \<open>The names an error page sets itself.\<close>

definition error_page_headers :: "string list" where
  "error_page_headers = map CanonicalMIMEHeaderKey
     [''Vary'', ''X-Frame-Options'', ''Content-Security-Policy'', ''Referrer-Policy'', ''X-Content-Type-Options'',
      ''Strict-Transport-Security'', ''Content-Type'', ''Content-Language'', ''Content-Length'']"

lemma page_security_other:
  "CanonicalMIMEHeaderKey k \<notin> set error_page_headers \<Longrightarrow>
    h_Values (setPageSecurityHeadersLocked hsts h) k = h_Values h k"
  by (auto simp: setPageSecurityHeadersLocked_def setTransportSecurityHeadersLocked_def error_page_headers_def Let_def)

lemma serveError_sent:
  assumes "\<not> was_sent r" and "200 \<le> code" and "CanonicalMIMEHeaderKey k \<notin> set error_page_headers"
  shows "\<exists>h r'. serveError E code msg (Plain r) = Plain r' \<and> rs_sent r' = Some (code, h) \<and>
    h_Values h k = h_Values (rs_header r) k"
proof -
  have ne: "CanonicalMIMEHeaderKey k \<noteq> CanonicalMIMEHeaderKey n"
    if "n \<in> {''Vary'', ''Content-Type'', ''Content-Language'', ''Content-Length'', ''X-Content-Type-Options''}" for n
    using assms(3) that by (auto simp: error_page_headers_def)
  have base: "h_Values (addVary ''Accept-Language'' (setPageSecurityHeadersLocked (ee_hsts E) (rs_header r))) k =
      h_Values (rs_header r) k"
    using ne [of "''Vary''"] by (simp add: Values_addVary page_security_other [OF assms(3)])
  show ?thesis
    using assms(1,2) base ne [of "''Content-Type''"] ne [of "''Content-Language''"] ne [of "''Content-Length''"]
      ne [of "''X-Content-Type-Options''"]
    by (auto simp: serveError_def http_Error_def Let_def map_header_def rs_Write_def rs_WriteHeader_def was_sent_def
        Values_Del)
qed

section \<open>Properties\<close>

text \<open>C38: the error capture is invisible to a response that is no error. For every sequence of header
  writes, statuses below 400, body writes and flushes of a handler, the client receives through the
  capture exactly what the plain writer would have sent, and \<open>unwrap\<close> adds nothing.\<close>

theorem capture_transparent:
  assumes "list_all quiet ops"
  shows "\<exists>ew. rw_run ops (Capture (new_ew w)) = Capture ew \<and> unwrap_ew E request ew = rw_run ops (Plain w)"
proof -
  have "ew_statusCode (new_ew w) < 400" "ew_inner (new_ew w) = w" by (simp_all add: new_ew_def)
  with transparent_run [OF ew_ok_new _ assms, of w] obtain ew where
    "rw_run ops (Capture (new_ew w)) = Capture ew" "rw_run ops (Plain w) = Plain (ew_inner ew)" "ew_statusCode ew < 400"
    by auto
  then show ?thesis by (simp add: unwrap_ew_def Let_def)
qed

definition demo_error_env :: error_env where
  "demo_error_env = \<lparr>ee_hsts = [], ee_lang = ''en'', ee_render = (\<lambda>code msg. [])\<rparr>"

theorem capture_transparent_witness:
  "\<exists>ew. rw_run [OpSet ''etag'' ''1'', OpWriteHeader 304, OpWriteHeader 200, OpWrite ''x''] (Capture (new_ew new_response)) = Capture ew \<and>
     unwrap_ew demo_error_env [] ew =
     Plain \<lparr>rs_header = [(''Etag'', [''1''])], rs_sent = Some (304, [(''Etag'', [''1''])]), rs_info = [], rs_body = ''x'', rs_flushed = False\<rparr>"
proof -
  let ?ops = "[OpSet ''etag'' ''1'', OpWriteHeader 304, OpWriteHeader 200, OpWrite ''x'']"
  have "rw_run ?ops (Plain new_response) =
      Plain \<lparr>rs_header = [(''Etag'', [''1''])], rs_sent = Some (304, [(''Etag'', [''1''])]), rs_info = [], rs_body = ''x'', rs_flushed = False\<rparr>"
    by code_simp
  moreover have "list_all quiet ?ops" by simp
  ultimately show ?thesis using capture_transparent [of ?ops new_response demo_error_env "[]"] by metis
qed

text \<open>A re-rendered error carries this process's headers and no backend's. Take any handler run
  without a flush that ends in a captured error, answered to a caller that accepts HTML: the error is sent
  with the captured status, and every header other than those of the error page itself has exactly the
  value this process last recorded with \<open>PreserveHeader\<close>, and is absent when it recorded none, whatever
  the run (a proxied backend included) set, added or deleted under that name.\<close>

theorem error_headers_by_provenance:
  assumes "rw_run ops (Capture (new_ew w)) = Capture ew" and "\<not> was_sent w" and "OpFlush \<notin> set ops"
    and "400 \<le> ew_statusCode ew" and "acceptsHTML request"
    and "CanonicalMIMEHeaderKey k \<notin> set error_page_headers"
  shows "\<exists>r h. unwrap_ew E request ew = Plain r \<and> rs_sent r = Some (ew_statusCode ew, h) \<and>
    h_Values h k = (case recorded ops k of None \<Rightarrow> [] | Some v \<Rightarrow> [v])"
proof -
  have ok: "ew_ok ew" using ew_ok_run [OF ew_ok_new, of ops w] assms(1) by auto
  have "unsent ew" using unsent_run [OF ew_ok_new _ assms(3,1)] assms(2) by (simp add: unsent_def new_ew_def)
  then have ns: "\<not> was_sent (ew_inner ew)" using ok assms(4) by (auto simp: unsent_def ew_ok_def)
  have keys: "distinct (map fst (ew_preserved ew))" "\<forall>k \<in> fst ` set (ew_preserved ew). CanonicalMIMEHeaderKey k = k"
    using ok by (auto simp: ew_ok_def keys_ok_def)
  have "map_of (ew_preserved ew) (CanonicalMIMEHeaderKey k) = recorded ops k"
    using preserved_run [OF ew_ok_new assms(1), of k] by (simp add: recorded_def new_ew_def)
  then have restored: "h_Values (fold (\<lambda>(k, v). h_Set k v) (ew_preserved ew) []) k =
      (case recorded ops k of None \<Rightarrow> [] | Some v \<Rightarrow> [v])"
    by (simp add: Values_restore [OF keys] split: option.split)
  have "CanonicalMIMEHeaderKey k \<noteq> CanonicalMIMEHeaderKey ''Vary''" using assms(6) by (simp add: error_page_headers_def)
  then have "h_Values (wiped ew (rs_header (ew_inner ew))) k = (case recorded ops k of None \<Rightarrow> [] | Some v \<Rightarrow> [v])"
    by (simp add: wiped_def Let_def Values_addVary restored)
  moreover have "\<not> was_sent (map_header (wiped ew) (ew_inner ew))" using ns by simp
  from serveError_sent [OF this _ assms(6), of "ew_statusCode ew" E "ew_statusMsg ew"] assms(4)
  obtain h r' where "serveError E (ew_statusCode ew) (ew_statusMsg ew) (Plain (map_header (wiped ew) (ew_inner ew))) = Plain r'"
    "rs_sent r' = Some (ew_statusCode ew, h)" "h_Values h k = h_Values (wiped ew (rs_header (ew_inner ew))) k"
    by (auto simp: map_header_def)
  ultimately show ?thesis using assms(4,5) by (simp add: unwrap_ew_def Let_def)
qed

theorem error_headers_by_provenance_witness:
  "\<exists>ew r h. rw_run [OpPreserve ''WWW-Authenticate'' ''Bearer'', OpSet ''Www-authenticate'' ''Basic'', OpWriteHeader 401]
      (Capture (new_ew new_response)) = Capture ew \<and>
    unwrap_ew demo_error_env [(''Accept'', [''text/html''])] ew = Plain r \<and> rs_sent r = Some (401, h) \<and>
    h_Values h ''WWW-Authenticate'' = [''Bearer'']"
proof -
  let ?ops = "[OpPreserve ''WWW-Authenticate'' ''Bearer'', OpSet ''Www-authenticate'' ''Basic'', OpWriteHeader 401]"
  let ?ew = "\<lparr>ew_inner = new_response\<lparr>rs_header := [(''Www-Authenticate'', [''Basic''])]\<rparr>, ew_statusCode = 401,
     ew_statusMsg = [], ew_wroteHeader = False, ew_preserved = [(''Www-Authenticate'', ''Bearer'')]\<rparr>"
  have run: "rw_run ?ops (Capture (new_ew new_response)) = Capture ?ew" by code_simp
  have acc: "acceptsHTML [(''Accept'', [''text/html''])]" by code_simp
  have rec: "recorded ?ops ''WWW-Authenticate'' = Some ''Bearer''" by code_simp
  have k: "CanonicalMIMEHeaderKey ''WWW-Authenticate'' \<notin> set error_page_headers" by code_simp
  have ns: "\<not> was_sent new_response" by code_simp
  from error_headers_by_provenance [OF run ns _ _ acc k, of demo_error_env] run rec show ?thesis by auto
qed

end
