(* ===== verification/Authorization.thy ===== *)
theory Authorization
  imports Mint Web
begin

text \<open>
  The authorization checker (\<open>src/internal/auth/authorization.go\<close>), the denial contract
  (\<open>src/internal/auth/denial/denial.go\<close>) and the bearer challenges
  (\<open>resource_metadata.go\<close>, \<open>middleware.go\<close>).

  The entitlements library is the parameter \<open>ent_lib\<close>. A request's context is its auth context, if any.
  The grammar a client reads a challenge with is \<open>parse_challenge\<close>.
\<close>

section \<open>The checker\<close>

type_synonym requirement = "string list gomap"

record ('e, 'r) ent_lib =
  el_ParseEntitlements :: "string list gomap \<Rightarrow> 'e"
  el_ParseRequirements :: "requirement list \<Rightarrow> 'r"
  el_Verify :: "'e \<Rightarrow> 'r \<Rightarrow> bool"
  el_VerifyResource :: "string \<Rightarrow> string \<Rightarrow> 'e \<Rightarrow> 'r \<Rightarrow> string list \<Rightarrow> goerror + bool"
  el_Calculate :: "string \<Rightarrow> string \<Rightarrow> requirement list \<Rightarrow> string list \<Rightarrow> goerror + requirement list"
  el_Bind :: "'r \<Rightarrow> string gomap \<Rightarrow> goerror + 'r"

record ('e, 'r) AuthorizationChecker =
  ck_ec :: "('e, 'r) ent_lib"
  ck_scopeBuckets :: bool

definition NewAuthorizationChecker ::
  "(string list \<Rightarrow> ('e, 'r) ent_lib) \<Rightarrow> string list \<Rightarrow> ('e, 'r) AuthorizationChecker" where
  "NewAuthorizationChecker newChecker anonymous = \<lparr>ck_ec = newChecker anonymous, ck_scopeBuckets = False\<rparr>"

definition ParseEntitlements :: "('e, 'r) AuthorizationChecker \<Rightarrow> string list gomap \<Rightarrow> 'e" where
  "ParseEntitlements ck e = el_ParseEntitlements (ck_ec ck) e"

text \<open>The code's recover only answers a corrupted slice header, which no value here is.\<close>

definition ParseRequirements :: "('e, 'r) AuthorizationChecker \<Rightarrow> requirement list \<Rightarrow> 'r" where
  "ParseRequirements ck reqs =
     (if reqs = [] then el_ParseRequirements (ck_ec ck) [] else el_ParseRequirements (ck_ec ck) reqs)"

definition BindRequirements :: "('e, 'r) AuthorizationChecker \<Rightarrow> 'r \<Rightarrow> string gomap \<Rightarrow> goerror + 'r" where
  "BindRequirements ck reqs binding = el_Bind (ck_ec ck) reqs binding"

definition bearer_buckets :: "mapclaims \<Rightarrow> string list gomap" where
  "bearer_buckets ac =
     (let held = strings_or_none (GetEntitlements ac)
      in if held = [] then []
         else if IsPATBridge ac then [(''bearer'', held), (''oauth2'', held)]
         else [(''bearer'', held)])"

definition scope_buckets :: "bool \<Rightarrow> mapclaims \<Rightarrow> string list gomap \<Rightarrow> string list gomap" where
  "scope_buckets on ac m =
     (let scopes = strings_or_none (GetScopes ac)
      in if \<not> on \<or> scopes = [] then m
         else case GetAuthMethod ac of
                Inl _ \<Rightarrow> m
              | Inr method \<Rightarrow>
                  if method = AuthMethodOIDC then AList.update ''oidc'' scopes m
                  else if method = AuthMethodOAuth2
                  then AList.update ''oauth2'' ((case map_of m ''oauth2'' of Some v \<Rightarrow> v | None \<Rightarrow> []) @ scopes) m
                  else m)"

definition GetParsedEntitlements :: "('e, 'r) AuthorizationChecker \<Rightarrow> mapclaims option \<Rightarrow> 'e" where
  "GetParsedEntitlements ck ctx =
     (let ac = (case ctx of None \<Rightarrow> [] | Some a \<Rightarrow> a)
      in ParseEntitlements ck (scope_buckets (ck_scopeBuckets ck) ac (bearer_buckets ac)))"

definition identityHasColon :: "string \<Rightarrow> string \<Rightarrow> string list \<Rightarrow> bool" where
  "identityHasColon resource resourceName verbs =
     (if Contains resource '':'' \<or> Contains resourceName '':'' then True
      else case verbs of [] \<Rightarrow> False | v # _ \<Rightarrow> Contains v '':'')"

definition VerifyResourceParsedEntitlements ::
  "('e, 'r) AuthorizationChecker \<Rightarrow> string \<Rightarrow> string \<Rightarrow> 'e \<Rightarrow> 'r \<Rightarrow> string list \<Rightarrow> goerror + bool" where
  "VerifyResourceParsedEntitlements ck resource resourceName held reqs verbs =
     (if identityHasColon resource resourceName verbs then Inr False
      else el_VerifyResource (ck_ec ck) resource resourceName held reqs verbs)"

definition empty_identity :: goerror where
  "empty_identity = errorf ''resource and resourceName must not be empty''"

definition CheckAccess ::
  "('e, 'r) AuthorizationChecker \<Rightarrow> mapclaims option \<Rightarrow> string \<Rightarrow> string \<Rightarrow> requirement list \<Rightarrow> string list \<Rightarrow> goerror + bool" where
  "CheckAccess ck ctx resource resourceName reqs verbs =
     (if resource = [] \<or> resourceName = [] then Inl empty_identity
      else VerifyResourceParsedEntitlements ck resource resourceName (GetParsedEntitlements ck ctx)
             (ParseRequirements ck reqs) verbs)"

definition HoldsScope :: "('e, 'r) AuthorizationChecker \<Rightarrow> mapclaims option \<Rightarrow> string \<Rightarrow> bool" where
  "HoldsScope ck ctx scope =
     el_Verify (ck_ec ck) (GetParsedEntitlements ck ctx) (ParseRequirements ck [[(''bearer'', [scope])]])"

definition CalculateRequirements ::
  "('e, 'r) AuthorizationChecker \<Rightarrow> string \<Rightarrow> string \<Rightarrow> requirement list \<Rightarrow> string list \<Rightarrow> goerror + requirement list" where
  "CalculateRequirements ck resource resourceName reqs verbs =
     (if resource = [] \<or> resourceName = [] then Inl empty_identity
      else el_Calculate (ck_ec ck) resource resourceName reqs verbs)"

section \<open>The resource-metadata pointer\<close>

definition quotable_char :: "char \<Rightarrow> bool" where
  "quotable_char c \<longleftrightarrow> c \<noteq> CHR 0x22 \<and> c \<noteq> CHR 0x5C \<and> \<not> (of_char c :: nat) < 0x20 \<and> (of_char c :: nat) \<noteq> 0x7F"

definition safeResourceMetadata :: "url_parse \<Rightarrow> string \<Rightarrow> bool" where
  "safeResourceMetadata up raw =
     (if raw = [] then False
      else if \<not> list_all quotable_char raw then False
      else case up raw of None \<Rightarrow> False | Some u \<Rightarrow> u_Scheme u \<noteq> [])"

definition CheckedResourceMetadata :: "url_parse \<Rightarrow> string \<Rightarrow> string" where
  "CheckedResourceMetadata up raw = (if raw = [] \<or> safeResourceMetadata up raw then raw else [])"

definition owns_path :: "string \<Rightarrow> string \<Rightarrow> bool" where
  "owns_path basePath path \<longleftrightarrow> path = basePath \<or> HasPrefix path (basePath @ ''/'')"

definition metadata_step :: "string \<Rightarrow> string \<times> string \<Rightarrow> string \<times> nat \<Rightarrow> string \<times> nat" where
  "metadata_step path entry best =
     (case entry of (basePath, metadataURL) \<Rightarrow>
        if \<not> owns_path basePath path then best
        else if length basePath > snd best then (metadataURL, length basePath) else best)"

definition resourceMetadataURL :: "string gomap \<Rightarrow> string \<Rightarrow> string" where
  "resourceMetadataURL metadata path = fst (fold (metadata_step path) metadata ([], 0))"

definition quoted :: "string \<Rightarrow> string" where
  "quoted v = [CHR 0x22] @ v @ [CHR 0x22]"

definition bearerChallenge :: "url_parse \<Rightarrow> string gomap \<Rightarrow> string \<Rightarrow> goerror \<Rightarrow> string" where
  "bearerChallenge up metadata path err =
     (let desc = (if errors_Is err ErrTokenExpired then ''the access token expired'' else ''the access token is invalid'');
          challenge = ''Bearer error='' @ quoted ''invalid_token'' @ '', error_description='' @ quoted desc;
          md = CheckedResourceMetadata up (resourceMetadataURL metadata path)
      in if md \<noteq> [] then challenge @ '', resource_metadata='' @ quoted md else challenge)"

section \<open>Denials\<close>

datatype Outcome = Unauthenticated | NoIdentity | InsufficientScope

record deny_opts =
  o_Outcome :: Outcome
  o_Issuer :: string
  o_ResourceMetadata :: string
  o_Scopes :: "string list"

fun Outcome_String :: "Outcome \<Rightarrow> string" where
  "Outcome_String Unauthenticated = ''unauthenticated''"
| "Outcome_String NoIdentity = ''no-identity''"
| "Outcome_String InsufficientScope = ''insufficient-scope''"

definition Classify ::
  "signer_lib \<Rightarrow> mapclaims option \<Rightarrow> ('e, 'r) AuthorizationChecker option \<Rightarrow> 'e \<Rightarrow> string \<Rightarrow> string \<Rightarrow> string list \<Rightarrow> Outcome" where
  "Classify L ctx c held resource name verbs =
     (case ctx of
        None \<Rightarrow> Unauthenticated
      | Some ac \<Rightarrow>
          if (case lib_GetSubject L ac of Inr sub \<Rightarrow> sub = [] | Inl _ \<Rightarrow> True) then Unauthenticated
          else case c of
                 None \<Rightarrow> NoIdentity
               | Some ck \<Rightarrow>
                   (case VerifyResourceParsedEntitlements ck resource name held (ParseRequirements ck []) verbs of
                      Inr True \<Rightarrow> InsufficientScope
                    | _ \<Rightarrow> NoIdentity))"

definition isScopeToken :: "string \<Rightarrow> bool" where
  "isScopeToken s \<longleftrightarrow> s \<noteq> [] \<and>
     list_all (\<lambda>c. let n = (of_char c :: nat) in n = 0x21 \<or> (0x23 \<le> n \<and> n \<le> 0x5B) \<or> (0x5D \<le> n \<and> n \<le> 0x7E)) s"

definition safeScope :: "string list \<Rightarrow> string" where
  "safeScope scopes = Join (filter isScopeToken scopes) '' ''"

definition unauthenticated_challenge :: "string \<Rightarrow> string \<Rightarrow> string" where
  "unauthenticated_challenge meta issuer =
     (if meta \<noteq> [] then ''Bearer resource_metadata='' @ quoted meta
      else if issuer \<noteq> [] then ''Bearer realm='' @ quoted issuer
      else ''Bearer'')"

definition step_up_challenge :: "string \<Rightarrow> string list \<Rightarrow> string" where
  "step_up_challenge meta scopes =
     (let c0 = ''Bearer error='' @ quoted ''insufficient_scope'';
          scope = safeScope scopes;
          c1 = (if scope \<noteq> [] then c0 @ '', scope='' @ quoted scope else c0)
      in if meta \<noteq> [] then c1 @ '', resource_metadata='' @ quoted meta else c1)"

definition denial_Write :: "url_parse \<Rightarrow> deny_opts \<Rightarrow> rw \<Rightarrow> rw" where
  "denial_Write up opts w =
     (let w1 = PreserveHeader ''Cache-Control'' ''no-store'' w;
          meta = CheckedResourceMetadata up (o_ResourceMetadata opts)
      in case o_Outcome opts of
           Unauthenticated \<Rightarrow>
             http_Error ''Unauthorized'' 401
               (PreserveHeader ''WWW-Authenticate'' (unauthenticated_challenge meta (o_Issuer opts)) w1)
         | _ \<Rightarrow>
             http_Error ''Forbidden'' 403
               (if o_ResourceMetadata opts \<noteq> []
                then PreserveHeader ''WWW-Authenticate'' (step_up_challenge meta (o_Scopes opts)) w1 else w1))"

section \<open>Reading a challenge\<close>

text \<open>The auth-params of a Bearer challenge (RFC 7235): names, quoted strings with quoted pairs, commas.\<close>

datatype scan_mode = BeforeName | InName | AfterEq | InQuote | Escaped | AfterValue

fun scan :: "scan_mode \<Rightarrow> string \<Rightarrow> string \<Rightarrow> string gomap \<Rightarrow> string \<Rightarrow> string gomap option" where
  "scan AfterValue n v acc [] = Some acc"
| "scan m n v acc [] = None"
| "scan BeforeName n v acc (c # s) =
     (if c = CHR '' '' then scan BeforeName n v acc s else scan InName [c] [] acc s)"
| "scan InName n v acc (c # s) =
     (if c = CHR ''='' then scan AfterEq n v acc s else scan InName (n @ [c]) v acc s)"
| "scan AfterEq n v acc (c # s) = (if c = CHR 0x22 then scan InQuote n [] acc s else None)"
| "scan InQuote n v acc (c # s) =
     (if c = CHR 0x22 then scan AfterValue [] [] (acc @ [(n, v)]) s
      else if c = CHR 0x5C then scan Escaped n v acc s
      else scan InQuote n (v @ [c]) acc s)"
| "scan Escaped n v acc (c # s) = scan InQuote n (v @ [c]) acc s"
| "scan AfterValue n v acc (c # s) = (if c = CHR '','' then scan BeforeName [] [] acc s else None)"

definition parse_challenge :: "string \<Rightarrow> string gomap option" where
  "parse_challenge s =
     (if s = ''Bearer'' then Some []
      else if HasPrefix s ''Bearer '' then scan BeforeName [] [] [] (TrimPrefix s ''Bearer '') else None)"

section \<open>Lemmas on challenges\<close>

lemma scan_value:
  "list_all (\<lambda>c. c \<noteq> CHR 0x22 \<and> c \<noteq> CHR 0x5C) v \<Longrightarrow>
    scan InQuote n u acc (v @ CHR 0x22 # s) = scan AfterValue [] [] (acc @ [(n, u @ v)]) s"
  by (induction v arbitrary: u) auto

lemma scan_name:
  "CHR ''='' \<notin> set m \<Longrightarrow> scan InName n v acc (m @ CHR ''='' # s) = scan AfterEq (n @ m) v acc s"
  by (induction m arbitrary: n) auto

text \<open>One parameter, after any separator.\<close>

lemma scan_param:
  assumes "m = c # m'" and "c \<noteq> CHR '' ''" and "CHR ''='' \<notin> set m'"
    and "list_all (\<lambda>c. c \<noteq> CHR 0x22 \<and> c \<noteq> CHR 0x5C) v"
  shows "scan BeforeName n u acc (m @ CHR ''='' # quoted v @ s) = scan AfterValue [] [] (acc @ [(m, v)]) s"
    and "scan BeforeName n u acc (CHR '' '' # m @ CHR ''='' # quoted v @ s) = scan AfterValue [] [] (acc @ [(m, v)]) s"
  using assms(2-4) by (simp_all add: assms(1) quoted_def scan_name scan_value)

definition clean :: "string \<Rightarrow> bool" where
  "clean v \<longleftrightarrow> list_all (\<lambda>c. c \<noteq> CHR 0x22 \<and> c \<noteq> CHR 0x5C) v"

lemma clean_append [simp]: "clean (a @ b) \<longleftrightarrow> clean a \<and> clean b"
  by (simp add: clean_def)

lemma clean_metadata: "clean (CheckedResourceMetadata up raw)"
  by (auto simp: clean_def CheckedResourceMetadata_def safeResourceMetadata_def quotable_char_def list_all_iff
      split: if_splits)

lemma isScopeToken_clean: "isScopeToken s \<Longrightarrow> clean s \<and> s \<noteq> [] \<and> list_all (\<lambda>c. \<not> is_space c) s"
  by (fastforce simp: isScopeToken_def clean_def list_all_iff is_space_def Let_def)

lemma clean_Join: "list_all clean ss \<Longrightarrow> clean (Join ss '' '')"
  by (induction ss rule: induct_list012) (auto simp: clean_def)

lemma clean_safeScope: "clean (safeScope scopes)"
  unfolding safeScope_def by (rule clean_Join) (simp add: list_all_iff isScopeToken_clean)

lemma safeScope_tokens: "Fields (safeScope scopes) = filter isScopeToken scopes"
  unfolding safeScope_def by (rule Fields_Join) (use isScopeToken_clean in auto)

text \<open>A challenge written out from its parameters, and read back.\<close>

fun render :: "string gomap \<Rightarrow> string" where
  "render [] = []"
| "render [(m, v)] = m @ ''='' @ quoted v"
| "render ((m, v) # p # ps) = m @ ''='' @ quoted v @ '', '' @ render (p # ps)"

definition param_ok :: "string \<times> string \<Rightarrow> bool" where
  "param_ok p \<longleftrightarrow> (case fst p of [] \<Rightarrow> False | c # m \<Rightarrow> c \<noteq> CHR '' '' \<and> CHR ''='' \<notin> set m) \<and> clean (snd p)"

lemma scan_render:
  "ps \<noteq> [] \<Longrightarrow> list_all param_ok ps \<Longrightarrow>
    scan BeforeName n u acc (render ps) = Some (acc @ ps) \<and> scan BeforeName n u acc (CHR '' '' # render ps) = Some (acc @ ps)"
proof (induction ps arbitrary: n u acc rule: render.induct)
  case (2 m v)
  then obtain c m' where m: "m = c # m'" "c \<noteq> CHR '' ''" "CHR ''='' \<notin> set m'" and v: "clean v"
    by (auto simp: param_ok_def split: list.splits)
  from scan_param [OF m v [unfolded clean_def], of n u acc "[]"] show ?case by simp
next
  case (3 m v p ps)
  then obtain c m' where m: "m = c # m'" "c \<noteq> CHR '' ''" "CHR ''='' \<notin> set m'" and v: "clean v"
    by (auto simp: param_ok_def split: list.splits)
  have "scan BeforeName [] [] (acc @ [(m, v)]) (CHR '' '' # render (p # ps)) = Some (acc @ (m, v) # p # ps)"
    using 3 by simp
  with scan_param [OF m v [unfolded clean_def], of n u acc "'', '' @ render (p # ps)"] show ?case by simp
qed simp

lemma parse_render:
  assumes "ps \<noteq> []" and "list_all param_ok ps"
  shows "parse_challenge (''Bearer '' @ render ps) = Some ps"
proof -
  have "HasPrefix (''Bearer '' @ render ps) ''Bearer ''" "TrimPrefix (''Bearer '' @ render ps) ''Bearer '' = render ps"
    by (simp_all only: HasPrefix_append TrimPrefix_append)
  moreover have "''Bearer '' @ render ps \<noteq> ''Bearer''" by simp
  ultimately show ?thesis
    using scan_render [OF assms, of "[]" "[]" "[]"] unfolding parse_challenge_def by (simp only: if_False if_True append_Nil)
qed

lemma parse_rendered:
  "s = ''Bearer '' @ render ps \<Longrightarrow> list_all param_ok ps \<Longrightarrow> ps \<noteq> [] \<Longrightarrow> parse_challenge s = Some ps"
  using parse_render by blast

definition bearer_params :: "string \<Rightarrow> goerror \<Rightarrow> string gomap" where
  "bearer_params md err =
     [(''error'', ''invalid_token''),
      (''error_description'', if errors_Is err ErrTokenExpired then ''the access token expired'' else ''the access token is invalid'')] @
     (if md \<noteq> [] then [(''resource_metadata'', md)] else [])"

definition unauthenticated_params :: "string \<Rightarrow> string \<Rightarrow> string gomap" where
  "unauthenticated_params md issuer =
     (if md \<noteq> [] then [(''resource_metadata'', md)] else if issuer \<noteq> [] then [(''realm'', issuer)] else [])"

definition step_up_params :: "string \<Rightarrow> string list \<Rightarrow> string gomap" where
  "step_up_params md scopes =
     [(''error'', ''insufficient_scope'')] @ (if safeScope scopes \<noteq> [] then [(''scope'', safeScope scopes)] else []) @
     (if md \<noteq> [] then [(''resource_metadata'', md)] else [])"

lemma param_names:
  "clean v \<Longrightarrow> list_all (\<lambda>m. param_ok (m, v)) [''error'', ''error_description'', ''resource_metadata'', ''realm'', ''scope'']"
  by (simp add: param_ok_def)

lemma parse_bearerChallenge:
  "parse_challenge (bearerChallenge up metadata path err) =
    Some (bearer_params (CheckedResourceMetadata up (resourceMetadataURL metadata path)) err)"
proof -
  let ?md = "CheckedResourceMetadata up (resourceMetadataURL metadata path)"
  have "bearerChallenge up metadata path err = ''Bearer '' @ render (bearer_params ?md err)"
    by (simp add: bearerChallenge_def bearer_params_def Let_def)
  moreover have "list_all param_ok (bearer_params ?md err)"
    using param_names [OF clean_metadata, of up "resourceMetadataURL metadata path"]
    by (simp add: bearer_params_def param_ok_def clean_def)
  moreover have "bearer_params ?md err \<noteq> []" by (simp add: bearer_params_def)
  ultimately show ?thesis by (rule parse_rendered)
qed

lemma parse_unauthenticated:
  assumes "clean issuer"
  shows "parse_challenge (unauthenticated_challenge (CheckedResourceMetadata up raw) issuer) =
    Some (unauthenticated_params (CheckedResourceMetadata up raw) issuer)"
proof (cases "CheckedResourceMetadata up raw = [] \<and> issuer = []")
  case False
  let ?ps = "unauthenticated_params (CheckedResourceMetadata up raw) issuer"
  have "unauthenticated_challenge (CheckedResourceMetadata up raw) issuer = ''Bearer '' @ render ?ps"
    using False by (auto simp: unauthenticated_challenge_def unauthenticated_params_def)
  moreover have "list_all param_ok ?ps"
    using param_names [OF clean_metadata, of up raw] param_names [OF assms] by (simp add: unauthenticated_params_def)
  moreover have "?ps \<noteq> []" using False by (auto simp: unauthenticated_params_def)
  ultimately show ?thesis by (rule parse_rendered)
qed (simp add: unauthenticated_challenge_def unauthenticated_params_def parse_challenge_def)

lemma parse_step_up:
  "parse_challenge (step_up_challenge (CheckedResourceMetadata up raw) scopes) =
    Some (step_up_params (CheckedResourceMetadata up raw) scopes)"
proof -
  let ?ps = "step_up_params (CheckedResourceMetadata up raw) scopes"
  have "step_up_challenge (CheckedResourceMetadata up raw) scopes = ''Bearer '' @ render ?ps"
    by (simp add: step_up_challenge_def step_up_params_def Let_def)
  moreover have "list_all param_ok ?ps"
    using param_names [OF clean_metadata, of up raw] param_names [OF clean_safeScope, of scopes]
    by (simp add: step_up_params_def param_ok_def clean_def)
  moreover have "?ps \<noteq> []" by (simp add: step_up_params_def)
  ultimately show ?thesis by (rule parse_rendered)
qed

section \<open>Properties\<close>

text \<open>What a denial puts on a capture: the status, and the challenge the capture records.\<close>

definition denial_challenge :: "url_parse \<Rightarrow> deny_opts \<Rightarrow> string option" where
  "denial_challenge up opts =
     (let md = CheckedResourceMetadata up (o_ResourceMetadata opts)
      in if o_Outcome opts = Unauthenticated then Some (unauthenticated_challenge md (o_Issuer opts))
         else if o_ResourceMetadata opts \<noteq> [] then Some (step_up_challenge md (o_Scopes opts)) else None)"

lemma canonical_WWW [simp]:
  "CanonicalMIMEHeaderKey ''WWW-Authenticate'' = ''Www-Authenticate''" "CanonicalMIMEHeaderKey ''Cache-Control'' = ''Cache-Control''"
  by code_simp+

lemma denial_Write_capture:
  assumes "\<not> ew_wroteHeader ew" and "map_of (ew_preserved ew) ''Www-Authenticate'' = None"
  shows "\<exists>ew'. denial_Write up opts (Capture ew) = Capture ew' \<and>
    ew_statusCode ew' = (if o_Outcome opts = Unauthenticated then 401 else 403) \<and>
    map_of (ew_preserved ew') ''Cache-Control'' = Some ''no-store'' \<and>
    map_of (ew_preserved ew') ''Www-Authenticate'' = denial_challenge up opts"
  using assms
  by (cases "o_Outcome opts")
    (auto simp: denial_Write_def denial_challenge_def Let_def http_Error_def ew_PreserveHeader_def on_inner_def
      ew_WriteHeader_def ew_Write_def update_conv')

text \<open>No operator- or caller-supplied value forges a challenge parameter. On a capture that holds no
  challenge yet, a denial answers 401 or 403 with \<open>Cache-Control: no-store\<close> recorded, a 401 always
  carries a challenge and a 403 exactly when the resource is oauth2-protected; a client that reads any of
  these challenges by the auth-param grammar gets exactly the intended parameters: the fixed error, the
  well-formed scope tokens of the requirement and the resource-metadata URL when it is safe to quote. The
  invalid-token challenge of the gate reads back likewise.\<close>

theorem challenge_read_back:
  assumes "\<not> ew_wroteHeader ew" and "map_of (ew_preserved ew) ''Www-Authenticate'' = None" and "clean (o_Issuer opts)"
    and "md = CheckedResourceMetadata up (o_ResourceMetadata opts)"
  shows "(\<exists>ew'. denial_Write up opts (Capture ew) = Capture ew' \<and>
      map_of (ew_preserved ew') ''Cache-Control'' = Some ''no-store'' \<and>
      (if o_Outcome opts = Unauthenticated
       then ew_statusCode ew' = 401 \<and>
         map_option parse_challenge (map_of (ew_preserved ew') ''Www-Authenticate'') =
           Some (Some (unauthenticated_params md (o_Issuer opts)))
       else ew_statusCode ew' = 403 \<and>
         map_option parse_challenge (map_of (ew_preserved ew') ''Www-Authenticate'') =
           (if o_ResourceMetadata opts = [] then None else Some (Some (step_up_params md (o_Scopes opts)))))) \<and>
    md \<in> {[], o_ResourceMetadata opts} \<and> Fields (safeScope (o_Scopes opts)) = filter isScopeToken (o_Scopes opts) \<and>
    parse_challenge (bearerChallenge up metadata path err) =
      Some (bearer_params (CheckedResourceMetadata up (resourceMetadataURL metadata path)) err)"
proof -
  from denial_Write_capture [OF assms(1,2), of up opts] obtain ew' where
    e: "denial_Write up opts (Capture ew) = Capture ew'"
      "ew_statusCode ew' = (if o_Outcome opts = Unauthenticated then 401 else 403)"
      "map_of (ew_preserved ew') ''Cache-Control'' = Some ''no-store''"
      "map_of (ew_preserved ew') ''Www-Authenticate'' = denial_challenge up opts" by blast
  have "map_option parse_challenge (denial_challenge up opts) =
      (if o_Outcome opts = Unauthenticated then Some (Some (unauthenticated_params md (o_Issuer opts)))
       else if o_ResourceMetadata opts = [] then None else Some (Some (step_up_params md (o_Scopes opts))))"
    by (simp add: denial_challenge_def Let_def assms(4) parse_unauthenticated [OF assms(3)] parse_step_up)
  moreover have "md \<in> {[], o_ResourceMetadata opts}" by (simp add: assms(4) CheckedResourceMetadata_def)
  ultimately show ?thesis using e by (simp add: safeScope_tokens parse_bearerChallenge)
qed

definition demo_md_url :: url_parse where
  "demo_md_url raw = (if HasPrefix raw ''https://'' then Some \<lparr>u_Scheme = ''https'', u_User = False, u_Hostname = []\<rparr> else None)"

theorem challenge_read_back_witness:
  "\<exists>ew'. denial_Write demo_md_url
      \<lparr>o_Outcome = NoIdentity, o_Issuer = [], o_ResourceMetadata = ''https://h/a'' @ [CHR 0x22] @ '',x'', o_Scopes = [''a:b'', ''c d'']\<rparr>
      (Capture (new_ew new_response)) = Capture ew' \<and> ew_statusCode ew' = 403 \<and>
    map_option parse_challenge (map_of (ew_preserved ew') ''Www-Authenticate'') =
      Some (Some [(''error'', ''insufficient_scope''), (''scope'', ''a:b'')])"
proof -
  let ?o = "\<lparr>o_Outcome = NoIdentity, o_Issuer = [], o_ResourceMetadata = ''https://h/a'' @ [CHR 0x22] @ '',x'', o_Scopes = [''a:b'', ''c d'']\<rparr>"
  have h: "\<not> ew_wroteHeader (new_ew new_response)" "map_of (ew_preserved (new_ew new_response)) ''Www-Authenticate'' = None"
    "clean (o_Issuer ?o)" "[] = CheckedResourceMetadata demo_md_url (o_ResourceMetadata ?o)"
    by (code_simp, code_simp, code_simp, code_simp)
  have "step_up_params [] (o_Scopes ?o) = [(''error'', ''insufficient_scope''), (''scope'', ''a:b'')]" by code_simp
  with challenge_read_back [OF h, of "[]" "[]" "errorf []"] show ?thesis by auto
qed

end
