(* ===== verification/Feedback.thy ===== *)
theory Feedback
  imports Authorization
begin

text \<open>
  The dispatch below the match (\<open>serveMatched\<close>, \<open>src/internal/host/feedback.go\<close>): when the request
  sniffer runs, who may run it, what its suppression tells the caller, and the short-lived store of its
  results; and the entitlement check endpoint (\<open>check.go\<close>).

  The mux, the sniffer's analysis and the identifiers it draws are parameters. The matched handler's
  behaviour is the list of writer operations it performs.
\<close>

section \<open>User agents\<close>

definition agentPatterns :: "string list" where
  "agentPatterns =
     [''gptbot'', ''chatgpt-user'', ''claude-web'', ''anthropic-ai'', ''google-extended'', ''googlebot'', ''bard'',
      ''gemini'', ''perplexitybot'', ''perplexity'', ''cohere-ai'', ''ai2bot'', ''ccbot'', ''bytespider'', ''applebot'',
      ''facebookbot'', ''twitterbot'', ''linkedinbot'', ''slackbot'', ''discordbot'', ''bot/'', ''crawler'', ''spider'',
      ''scraper'']"

definition isAgent :: "string \<Rightarrow> bool" where
  "isAgent userAgent = list_ex (Contains (map ascii_lower userAgent)) agentPatterns"

definition isCLI :: "string \<Rightarrow> bool" where
  "isCLI userAgent =
     (let ua = map ascii_lower userAgent in Contains ua ''curl'' \<or> Contains ua ''wget'' \<or> Contains ua ''httpie'')"

section \<open>The analysis store\<close>

type_synonym 'a analyses = "('a \<times> instant) gomap"

definition analysis_Store :: "string \<Rightarrow> instant \<Rightarrow> 'a \<Rightarrow> 'a analyses \<Rightarrow> 'a analyses" where
  "analysis_Store uuid now result c = AList.update uuid (result, now) c"

definition analysis_Get :: "string \<Rightarrow> 'a analyses \<Rightarrow> 'a option" where
  "analysis_Get uuid c = map_option fst (map_of c uuid)"

definition analysis_reap :: "instant \<Rightarrow> 'a analyses \<Rightarrow> 'a analyses" where
  "analysis_reap now c = filter (\<lambda>(k, r, at). \<not> now - at > 10 * minute) c"

section \<open>Who may sniff\<close>

text \<open>The origin of a matched function: whether it has an executable, and a source.\<close>

definition isMutable :: "bool \<times> bool \<Rightarrow> bool" where
  "isMutable origin \<longleftrightarrow> \<not> fst origin \<or> \<not> snd origin"

definition hasEvaluatedSubject :: "signer_lib \<Rightarrow> mapclaims option \<Rightarrow> bool" where
  "hasEvaluatedSubject L ctx =
     (case ctx of
        None \<Rightarrow> False
      | Some ac \<Rightarrow> (case lib_GetSubject L ac of Inl _ \<Rightarrow> False | Inr sub \<Rightarrow> sub \<noteq> []))"

definition canGenerateSniffer :: "signer_lib \<Rightarrow> mapclaims option \<Rightarrow> ('e, 'r) AuthorizationChecker option \<Rightarrow> bool" where
  "canGenerateSniffer L ctx checker =
     (case checker of
        None \<Rightarrow> True
      | Some ck \<Rightarrow>
          if \<not> hasEvaluatedSubject L ctx then False
          else CheckAccess ck ctx ''functions'' ''*'' [[(''bearer'', [''functions:create''])]] [''create''] = Inr True)"

section \<open>The dispatch\<close>

text \<open>A matched request: the pattern the mux matched (empty for none), the function behind it if it is
  one, and the sniffer's answer, which names the id its result is stored under.\<close>

record ('e, 'r) matched =
  m_path :: string
  m_pattern :: string
  m_function :: "(bool \<times> bool) option"
  m_header :: header
  m_ctx :: "mapclaims option"
  m_checker :: "('e, 'r) AuthorizationChecker option"
  m_sniffer :: bool
  m_analysis :: "goerror + string option"
  m_host :: string

definition hasKDexHeader :: "header \<Rightarrow> bool" where
  "hasKDexHeader h = list_ex (\<lambda>k. HasPrefix k ''X-KDex-'') (mapkeys h)"

definition invokes_sniffer :: "('e, 'r) matched \<Rightarrow> bool" where
  "invokes_sniffer m =
     (if m_pattern m = [] then True
      else case m_function m of None \<Rightarrow> False | Some origin \<Rightarrow> isMutable origin \<and> hasKDexHeader (m_header m))"

definition sniff_format :: "header \<Rightarrow> string" where
  "sniff_format h =
     (if isAgent (h_Get h ''User-Agent'') then ''json''
      else if isCLI (h_Get h ''User-Agent'') \<or> Contains (h_Get h ''Accept'') ''text/plain'' then ''text''
      else ''html'')"

definition draft_body :: "string \<Rightarrow> string" where
  "draft_body url =
     (let esc = [CHR 0x1B]; link = esc @ '']8;;'' @ url @ esc @ [CHR 0x5C] @ url @ esc @ '']8;;'' @ esc @ [CHR 0x5C]
      in [CHR 0xE2, CHR 0x9E, CHR 0x94] @ '' API Draft Created. View at: '' @ link @ [CHR 0x0A] @
         ''(Note: Use '' @ [CHR 0x27] @ ''curl -L'' @ [CHR 0x27] @ '' to follow automatically).'' @ [CHR 0x0A])"

text \<open>A status of 0 reaches \<open>WriteHeader\<close> when a matched route's analysis names no function: net/http
  panics on it, so the outcome is \<open>None\<close>.\<close>

definition run_sniffer :: "error_env \<Rightarrow> ('e, 'r) matched \<Rightarrow> response \<Rightarrow> rw option" where
  "run_sniffer E m w =
     (case m_analysis m of
        Inl e \<Rightarrow>
          Some (if m_pattern m = [] then serveError E 404 ''not found'' (Plain w)
                else serveError E 400 (err_msg e) (Plain w))
      | Inr None \<Rightarrow> if m_pattern m = [] then Some (serveError E 404 ''not found'' (Plain w)) else None
      | Inr (Some uuid) \<Rightarrow>
          (let inspectURL = ''/-/sniffer/inspect/'' @ uuid @ ''?format='' @ sniff_format (m_header m)
           in Some (rw_Write (draft_body (m_host m @ inspectURL))
                (rw_WriteHeader 303
                  (rw_header (h_Set ''X-KDex-Sniffer-Docs'' ''/-/sniffer/docs'' \<circ> h_Set ''Location'' inspectURL) (Plain w))))))"

definition serve_next :: "error_env \<Rightarrow> header \<Rightarrow> rw_op list \<Rightarrow> errorResponseWriter \<Rightarrow> rw" where
  "serve_next E request next ew =
     (case rw_run next (Capture ew) of Capture ew' \<Rightarrow> unwrap_ew E request ew' | w \<Rightarrow> w)"

definition serveMatched ::
  "error_env \<Rightarrow> signer_lib \<Rightarrow> ('e, 'r) matched \<Rightarrow> rw_op list \<Rightarrow> response \<Rightarrow> rw option" where
  "serveMatched E L m next w =
     (if \<not> m_sniffer m \<or> (HasPrefix (m_path m) ''/-/'' \<and> m_pattern m \<noteq> [])
      then Some (serve_next E (m_header m) next (new_ew w))
      else if \<not> invokes_sniffer m then Some (serve_next E (m_header m) next (new_ew w))
      else if canGenerateSniffer L (m_ctx m) (m_checker m) then run_sniffer E m w
      else Some (serve_next E (m_header m) next
             (if m_pattern m = [] \<and> hasEvaluatedSubject L (m_ctx m)
              then ew_PreserveHeader ''Cache-Control'' ''no-store''
                     (ew_PreserveHeader ''X-KDex-Sniffer-Suppressed'' ''functions:create'' (new_ew w))
              else new_ew w)))"

section \<open>The check endpoint\<close>

definition check_passes :: "('e, 'r) AuthorizationChecker \<Rightarrow> mapclaims option \<Rightarrow> string \<Rightarrow> bool" where
  "check_passes ck ctx check =
     (case Split check CHR '':'' of
        [resource, resourceName, verb] \<Rightarrow>
          VerifyResourceParsedEntitlements ck resource resourceName (GetParsedEntitlements ck ctx)
            (ParseRequirements ck []) [verb] = Inr True
      | _ \<Rightarrow> False)"

text \<open>The status and the passed checks; a body that does not decode is \<open>None\<close>.\<close>

definition CheckHandler ::
  "string \<Rightarrow> string list option \<Rightarrow> mapclaims option \<Rightarrow> ('e, 'r) AuthorizationChecker option \<Rightarrow> nat \<times> string list" where
  "CheckHandler meth body ctx checker =
     (if meth \<noteq> ''POST'' then (405, [])
      else case body of
             None \<Rightarrow> (400, [])
           | Some checks \<Rightarrow>
               (case checker of None \<Rightarrow> (200, []) | Some ck \<Rightarrow> (200, filter (check_passes ck ctx) checks)))"

section \<open>Lemmas\<close>

lemma canonical_no_KDex:
  "\<not> HasPrefix (canonical True s) ''X-KDex-''"
proof
  assume "HasPrefix (canonical True s) ''X-KDex-''"
  then obtain t where p: "canonical True s = ''X-KDex-'' @ t" by (auto simp: HasPrefix_iff)
  have "length s \<ge> 4" using arg_cong [OF p, of length] canonical_length [of True s] by simp
  then obtain a b c d r where s: "s = a # b # c # d # r"
    by (cases s; cases "tl s"; cases "tl (tl s)"; cases "tl (tl (tl s))") auto
  have c: "(if b = CHR ''-'' then ascii_upper c else ascii_lower c) = CHR ''K''"
    and d: "(if c = CHR ''-'' then ascii_upper d else ascii_lower d) = CHR ''D''"
    using p unfolding s by auto
  have "c \<noteq> CHR ''-''" using c by (cases "b = CHR ''-''") (auto simp: ascii_upper_def ascii_lower_def)
  then have "ascii_lower d = CHR ''D''" using d by simp
  then show False
    using of_char_ascii_lower [of d] by (auto simp: ascii_lower_def split: if_splits)
qed

text \<open>The header map of a request off the wire: \<open>net/http\<close> canonicalises every name and refuses a name
  that is no token.\<close>

definition wire_header :: "header \<Rightarrow> bool" where
  "wire_header h \<longleftrightarrow> (\<forall>k \<in> set (mapkeys h). list_all token_char k \<and> CanonicalMIMEHeaderKey k = k)"

lemma wire_no_KDex: "wire_header h \<Longrightarrow> \<not> hasKDexHeader h"
proof
  assume "wire_header h" "hasKDexHeader h"
  then obtain k where "HasPrefix k ''X-KDex-''" "list_all token_char k" "CanonicalMIMEHeaderKey k = k"
    by (auto simp: hasKDexHeader_def wire_header_def list_ex_iff)
  with canonical_no_KDex [of k] show False by (simp add: CanonicalMIMEHeaderKey_def)
qed

text \<open>So the documented \<open>X-KDex-*\<close> headers never re-open a matched function to the sniffer: on every
  request off the wire a matched route is served by its handler.\<close>

theorem matched_route_never_sniffed:
  assumes "wire_header (m_header m)" and "m_pattern m \<noteq> []"
  shows "serveMatched E L m next w = Some (serve_next E (m_header m) next (new_ew w))"
  using assms wire_no_KDex [OF assms(1)] by (auto simp: serveMatched_def invokes_sniffer_def split: option.splits)

text \<open>\<open>/-/check\<close> reports a check exactly when the gate would admit the caller under no further
  requirement, and never one that does not name a resource, a name and a verb.\<close>

lemma CheckHandler_sound:
  assumes "CheckHandler meth body ctx (Some ck) = (200, passed)" and "check \<in> set passed"
  shows "\<exists>r n v. check = r @ '':'' @ n @ '':'' @ v \<and>
    VerifyResourceParsedEntitlements ck r n (GetParsedEntitlements ck ctx) (ParseRequirements ck []) [v] = Inr True"
proof -
  have "check_passes ck ctx check" using assms by (auto simp: CheckHandler_def split: if_splits option.splits)
  then obtain r n v where sp: "Split check CHR '':'' = [r, n, v]"
    and ok: "VerifyResourceParsedEntitlements ck r n (GetParsedEntitlements ck ctx) (ParseRequirements ck []) [v] = Inr True"
    by (auto simp: check_passes_def split: list.splits)
  have "Join (Split check CHR '':'') '':'' = check" by (rule Join_Split)
  with sp ok show ?thesis by auto
qed

end
