(* ===== verification/Gate.thy ===== *)
theory Gate
  imports SessionGrants Authorization CacheSafety
begin

text \<open>
  The authentication gate every request passes (\<open>src/internal/auth/middleware.go\<close>): where the credential
  is read from, the verification of a host JWT, the transparent refresh of a browser session, the veto, the
  refusals, the refresh of a session's grants and the budget of a capability token; and the opt-in gate that
  turns a host API token into an identity.

  JWT verification is a parameter, called with the raw token, the issuer and the audiences the options
  name. The gate answers with what it hands to the wrapped handler or with the response it writes itself;
  the cookies it sets and the event calls of a redemption come beside the answer.
\<close>

section \<open>Credentials\<close>

definition COOKIE :: string where "COOKIE = ''cookie''"
definition HEADER :: string where "HEADER = ''header''"

definition looksLikePAT :: "string \<Rightarrow> string \<Rightarrow> bool" where
  "looksLikePAT token tokenPrefix =
     (if tokenPrefix \<noteq> [] \<and> HasPrefix token tokenPrefix then True else HasPrefix token ''v4.public.'')"

record gate_config =
  gc_Audience :: string
  gc_Issuer :: string
  gc_CookieName :: string
  gc_AutoExtendSession :: bool
  gc_Tokens :: "TokenManager option"
  gc_Metadata :: "string gomap"
  gc_Signer :: Signer
  gc_Mapper :: "(mapclaims \<Rightarrow> goerror + mapclaims) option"

definition TokenPrefix :: "gate_config \<Rightarrow> string" where
  "TokenPrefix c = (case gc_Tokens c of None \<Rightarrow> [] | Some tm \<Rightarrow> tm_tokenPrefix tm)"

text \<open>The exchanger as the gate uses it: the issuer of its own configuration, and what a redemption and a
  grant refresh read of the world. \<open>ga_ids\<close> are the identifiers of the first and the second redemption.\<close>

record 's gate_exchanger =
  ga_x :: "'s exchange"
  ga_Issuer :: string
  ga_grants :: grant_env
  ga_idp :: idp_env
  ga_poll :: "'s poll_env"
  ga_ids :: "nat \<Rightarrow> fresh_ids"
  ga_grantTTL :: duration

text \<open>The libraries: JWT verification, dates, URLs and the capability cache, when there is one.\<close>

record 's gate_lib =
  gl_Parse :: "instant \<Rightarrow> string \<Rightarrow> string \<Rightarrow> string list \<Rightarrow> goerror + mapclaims"
  gl_Dates :: date_lib
  gl_Url :: url_parse
  gl_Kinds :: kind_lib
  gl_GetSubject :: "mapclaims \<Rightarrow> goerror + string"
  gl_Cap :: "(instant \<Rightarrow> string \<Rightarrow> 's \<Rightarrow> (goerror + int \<times> bool) \<times> 's) option"

record gate_request =
  rq_Authorization :: string
  rq_Cookies :: "string gomap"
  rq_Path :: string

record 's gate_state =
  gs_stores :: "'s stores"
  gs_grants :: "'s grant_state"
  gs_cap :: 's

text \<open>A cookie the gate sets; path, HttpOnly, Secure and SameSite are the same for all.\<close>

record set_cookie =
  sk_Name :: string
  sk_Value :: string
  sk_MaxAge :: int

datatype gate_answer =
    Serve "(mapclaims \<times> string) option"   \<comment> \<open>the wrapped handler, with the context and its source\<close>
  | Refuse nat "string option" string       \<comment> \<open>status, challenge and body\<close>

type_synonym event_calls = "(httpEventHook \<times> EventPayload) list"

section \<open>Reading and verifying\<close>

datatype credential =
    Anonymous
  | BadHeader
  | Token string string   \<comment> \<open>the source and the token\<close>

definition read_credential :: "gate_config \<Rightarrow> gate_request \<Rightarrow> credential" where
  "read_credential c rq =
     (if rq_Authorization rq \<noteq> []
      then (case Split (rq_Authorization rq) CHR '' '' of
              [scheme, tok] \<Rightarrow> if map ascii_lower scheme = ''bearer'' \<and> tok \<noteq> [] then Token HEADER tok else Anonymous
            | _ \<Rightarrow> BadHeader)
      else case map_of (rq_Cookies rq) (gc_CookieName c) of
             None \<Rightarrow> Anonymous
           | Some v \<Rightarrow> if v = [] then Anonymous else Token COOKIE v)"

definition parseGate :: "'s gate_lib \<Rightarrow> gate_config \<Rightarrow> instant \<Rightarrow> string \<Rightarrow> string \<Rightarrow> goerror + mapclaims" where
  "parseGate Lb c now raw issuer = gl_Parse Lb now raw issuer [gc_Audience c]"

definition ga_ex :: "'s gate_exchanger option \<Rightarrow> Exchanger option" where
  "ga_ex ga = map_option (\<lambda>g. x_ex (ga_x g)) ga"

definition vetoGateCredential :: "'s gate_lib \<Rightarrow> 's gate_exchanger option \<Rightarrow> mapclaims \<Rightarrow> goerror option" where
  "vetoGateCredential Lb ga ac =
     (let sub = (case gl_GetSubject Lb ac of Inl _ \<Rightarrow> [] | Inr s \<Rightarrow> s)
      in VetoCredential (gl_Kinds Lb) (ga_ex ga) sub (ContextSubjectKind (gl_Kinds Lb) (ga_ex ga) ac)
           (issuedAtOf (gl_Dates Lb) ac) ''host jwt'')"

definition session_cookies :: "gate_config \<Rightarrow> TokenSet \<Rightarrow> set_cookie list" where
  "session_cookies c ts =
     \<lparr>sk_Name = gc_CookieName c, sk_Value = ts_AccessToken ts, sk_MaxAge = 0\<rparr> #
     (if ts_RefreshToken ts \<noteq> []
      then [\<lparr>sk_Name = gc_CookieName c @ ''_refresh'', sk_Value = ts_RefreshToken ts, sk_MaxAge = 0\<rparr>] else [])"

definition cleared_cookies :: "gate_config \<Rightarrow> set_cookie list" where
  "cleared_cookies c =
     [\<lparr>sk_Name = gc_CookieName c, sk_Value = [], sk_MaxAge = -1\<rparr>,
      \<lparr>sk_Name = gc_CookieName c @ ''_refresh'', sk_Value = [], sk_MaxAge = -1\<rparr>]"

text \<open>The exchanger when a cookie session may be extended.\<close>

definition extends :: "gate_config \<Rightarrow> 's gate_exchanger option \<Rightarrow> string \<Rightarrow> 's gate_exchanger option" where
  "extends c ga source =
     (if source = COOKIE \<and> gc_AutoExtendSession c
      then (case ga of Some g \<Rightarrow> if x_cached (ga_x g) then Some g else None | None \<Rightarrow> None)
      else None)"

text \<open>One attempt to redeem the refresh cookie, with the client of a browser session.\<close>

definition redeem_cookie ::
  "gate_config \<Rightarrow> 's gate_exchanger \<Rightarrow> nat \<Rightarrow> instant \<Rightarrow> gate_request \<Rightarrow> 's stores \<Rightarrow>
   (TokenSet option \<times> event_calls) \<times> 's stores" where
  "redeem_cookie c g i now rq st =
     (case map_of (rq_Cookies rq) (gc_CookieName c @ ''_refresh'') of
        None \<Rightarrow> ((None, []), st)
      | Some v \<Rightarrow>
          if v = [] then ((None, []), st)
          else case RedeemRefreshToken (ga_x g) (ga_idp g) (ga_poll g) now (now div millisecond) (ga_ids g i) v [] st of
                 ((ts, err, calls), st') \<Rightarrow> ((if err = None then Some ts else None, calls), st'))"

text \<open>The credential, refreshed once when it does not verify.\<close>

definition identify ::
  "'s gate_lib \<Rightarrow> gate_config \<Rightarrow> 's gate_exchanger option \<Rightarrow> instant \<Rightarrow> gate_request \<Rightarrow> string \<Rightarrow> string \<Rightarrow> 's stores \<Rightarrow>
   ((goerror + mapclaims) \<times> set_cookie list \<times> event_calls) \<times> 's stores" where
  "identify Lb c ga now rq source tok st =
     (case parseGate Lb c now tok (gc_Issuer c) of
        Inr ac \<Rightarrow> ((Inr ac, [], []), st)
      | Inl err \<Rightarrow>
          (case extends c ga source of
             None \<Rightarrow> ((Inl err, [], []), st)
           | Some g \<Rightarrow>
               (case redeem_cookie c g 0 now rq st of
                  ((None, calls), st') \<Rightarrow> ((Inl err, [], calls), st')
                | ((Some ts, calls), st') \<Rightarrow>
                    ((parseGate Lb c now (ts_AccessToken ts) (ga_Issuer g), session_cookies c ts, calls), st'))))"

text \<open>A credential that names nobody, or whose kind the configuration contradicts, is an invalid one.\<close>

definition vouch :: "'s gate_lib \<Rightarrow> 's gate_exchanger option \<Rightarrow> mapclaims \<Rightarrow> goerror + mapclaims" where
  "vouch Lb ga ac =
     (case gl_GetSubject Lb ac of
        Inl _ \<Rightarrow> Inl ErrSubjectless
      | Inr sub \<Rightarrow>
          if sub = [] then Inl ErrSubjectless
          else case vetoGateCredential Lb ga ac of Some e \<Rightarrow> Inl e | None \<Rightarrow> Inr ac)"

text \<open>A valid session within ten minutes of its expiry is refreshed; a fresh token that does not verify
  or is vetoed leaves the current one in place.\<close>

definition near_expiry :: "'s gate_lib \<Rightarrow> instant \<Rightarrow> mapclaims \<Rightarrow> bool" where
  "near_expiry Lb now ac =
     (case dl_Exp (gl_Dates Lb) ac of Inr (Some t) \<Rightarrow> t - now < 10 * minute | _ \<Rightarrow> False)"

definition extend_session ::
  "'s gate_lib \<Rightarrow> gate_config \<Rightarrow> 's gate_exchanger option \<Rightarrow> instant \<Rightarrow> gate_request \<Rightarrow> string \<Rightarrow> mapclaims \<Rightarrow> 's stores \<Rightarrow>
   (mapclaims \<times> set_cookie list \<times> event_calls) \<times> 's stores" where
  "extend_session Lb c ga now rq source ac st =
     (case extends c ga source of
        None \<Rightarrow> ((ac, [], []), st)
      | Some g \<Rightarrow>
          if \<not> near_expiry Lb now ac then ((ac, [], []), st)
          else case redeem_cookie c g 1 now rq st of
                 ((None, calls), st') \<Rightarrow> ((ac, [], calls), st')
               | ((Some ts, calls), st') \<Rightarrow>
                   ((case parseGate Lb c now (ts_AccessToken ts) (ga_Issuer g) of
                       Inl _ \<Rightarrow> ac
                     | Inr fresh_ac \<Rightarrow> if vetoGateCredential Lb ga fresh_ac = None then fresh_ac else ac,
                     session_cookies c ts, calls), st'))"

text \<open>The budget of a capability token: \<open>None\<close> admits, otherwise the body of the 401.\<close>

definition spend_capability :: "'s gate_lib \<Rightarrow> instant \<Rightarrow> mapclaims \<Rightarrow> 's \<Rightarrow> string option \<times> 's" where
  "spend_capability Lb now ac s =
     (case gl_Cap Lb of
        None \<Rightarrow> (None, s)
      | Some decrement \<Rightarrow>
          if \<not> claim_bool ac CapUsesClaim then (None, s)
          else let jti = claim_string ac ''jti''
               in if jti = [] then (Some ''invalid capability token'', s)
                  else case decrement now (''uses:'' @ jti) s of
                         (Inr (_, True), s') \<Rightarrow> (None, s')
                       | (_, s') \<Rightarrow> (Some ''capability exhausted'', s'))"

definition reject ::
  "'s gate_lib \<Rightarrow> gate_config \<Rightarrow> gate_request \<Rightarrow> string \<Rightarrow> goerror \<Rightarrow> gate_answer \<times> set_cookie list" where
  "reject Lb c rq source err =
     (if source = COOKIE then (Serve None, cleared_cookies c)
      else (Refuse 401 (Some (bearerChallenge (gl_Url Lb) (gc_Metadata c) (rq_Path rq) err)) ''Invalid token'', []))"

definition refreshed_context ::
  "gate_config \<Rightarrow> 's gate_exchanger option \<Rightarrow> instant \<Rightarrow> string \<Rightarrow> mapclaims \<Rightarrow> 's grant_state \<Rightarrow> mapclaims \<times> 's grant_state" where
  "refreshed_context c ga now source ac grants =
     (case ga of
        Some g \<Rightarrow> if source = COOKIE
                  then refreshSessionGrants (ga_grants g) (ga_x g) (gc_Signer c) now (ga_grantTTL g) ac grants
                  else (ac, grants)
      | None \<Rightarrow> (ac, grants))"

definition admit ::
  "'s gate_lib \<Rightarrow> gate_config \<Rightarrow> 's gate_exchanger option \<Rightarrow> instant \<Rightarrow> string \<Rightarrow> mapclaims \<Rightarrow> 's gate_state \<Rightarrow>
   gate_answer \<times> 's gate_state" where
  "admit Lb c ga now source ac gs =
     (let (ac', grants') = refreshed_context c ga now source ac (gs_grants gs);
          (spent, cap') = spend_capability Lb now ac' (gs_cap gs);
          gs' = gs\<lparr>gs_grants := grants', gs_cap := cap'\<rparr>
      in case spent of
           Some msg \<Rightarrow> (Refuse 401 None msg, gs')
         | None \<Rightarrow> (Serve (Some (ac', source)), gs'))"

definition WithAuthentication ::
  "'s gate_lib \<Rightarrow> gate_config \<Rightarrow> 's gate_exchanger option \<Rightarrow> instant \<Rightarrow> gate_request \<Rightarrow> 's gate_state \<Rightarrow>
   (gate_answer \<times> set_cookie list \<times> event_calls) \<times> 's gate_state" where
  "WithAuthentication Lb c ga now rq gs =
     (case read_credential c rq of
        BadHeader \<Rightarrow> ((Refuse 400 None ''Invalid Authorization header format'', [], []), gs)
      | Anonymous \<Rightarrow> ((Serve None, [], []), gs)
      | Token source tok \<Rightarrow>
          if source = HEADER \<and> looksLikePAT tok (TokenPrefix c) then ((Serve None, [], []), gs)
          else case identify Lb c ga now rq source tok (gs_stores gs) of
                 ((res, cookies, calls), st1) \<Rightarrow>
                   (case bindE res (vouch Lb ga) of
                      Inl err \<Rightarrow>
                        (case reject Lb c rq source err of
                           (answer, cleared) \<Rightarrow> ((answer, cookies @ cleared, calls), gs\<lparr>gs_stores := st1\<rparr>))
                    | Inr ac \<Rightarrow>
                        (case extend_session Lb c ga now rq source ac st1 of
                           ((ac1, cookies1, calls1), st2) \<Rightarrow>
                             (case admit Lb c ga now source ac1 (gs\<lparr>gs_stores := st2\<rparr>) of
                                (answer, gs') \<Rightarrow> ((answer, cookies @ cookies1, calls @ calls1), gs')))))"

section \<open>The API-token gate\<close>

definition hostPATIdentity ::
  "gate_config \<Rightarrow> 's gate_exchanger option \<Rightarrow> 's cache_ops option \<Rightarrow> 's cache_ops option \<Rightarrow> instant \<Rightarrow> string \<Rightarrow>
   ('s \<times> 's) \<times> 's \<Rightarrow> mapclaims option \<times> ('s \<times> 's) \<times> 's" where
  "hostPATIdentity c ga store legacy now token sl =
     (case (gc_Tokens c, ga) of
        (Some tm, Some g) \<Rightarrow>
          if gc_Audience c = [] then (None, sl)
          else (case ValidateToken (x_paseto (ga_x g)) tm store legacy now token (gc_Audience c) (fst sl) of
                  (Inl _, rl) \<Rightarrow> (None, rl, snd sl)
                | (Inr data, rl) \<Rightarrow>
                    (case PATAuthContext (ga_x g) now data ''host pat'' (snd sl) of
                       (Inl _, s') \<Rightarrow> (None, rl, s')
                     | (Inr ac, s') \<Rightarrow> (Some (EnrichAuthContext ac (gc_Mapper c)), rl, s')))
      | _ \<Rightarrow> (None, sl))"

text \<open>\<open>WithAPITokenIdentity\<close>: the context the wrapped route gets.\<close>

definition WithAPITokenIdentity ::
  "gate_config \<Rightarrow> 's gate_exchanger option \<Rightarrow> 's cache_ops option \<Rightarrow> 's cache_ops option \<Rightarrow> instant \<Rightarrow> gate_request \<Rightarrow>
   mapclaims option \<Rightarrow> ('s \<times> 's) \<times> 's \<Rightarrow> mapclaims option \<times> ('s \<times> 's) \<times> 's" where
  "WithAPITokenIdentity c ga store legacy now rq ctx sl =
     (if ctx \<noteq> None then (ctx, sl)
      else case Split (rq_Authorization rq) CHR '' '' of
             [scheme, tok] \<Rightarrow>
               if map ascii_lower scheme = ''bearer'' \<and> looksLikePAT tok (TokenPrefix c)
               then hostPATIdentity c ga store legacy now tok sl else (None, sl)
           | _ \<Rightarrow> (None, sl))"

section \<open>Lemmas\<close>

text \<open>A redemption of the refresh cookie that succeeded.\<close>

definition cookie_redeemed :: "gate_config \<Rightarrow> 's gate_exchanger \<Rightarrow> instant \<Rightarrow> gate_request \<Rightarrow> TokenSet \<Rightarrow> bool" where
  "cookie_redeemed c g now rq ts \<longleftrightarrow>
     (\<exists>v i st calls st'. map_of (rq_Cookies rq) (gc_CookieName c @ ''_refresh'') = Some v \<and> v \<noteq> [] \<and>
        RedeemRefreshToken (ga_x g) (ga_idp g) (ga_poll g) now (now div millisecond) (ga_ids g i) v [] st = ((ts, None, calls), st'))"

lemma redeem_cookie_Some:
  "redeem_cookie c g i now rq st = ((Some ts, calls), st') \<Longrightarrow> cookie_redeemed c g now rq ts"
  by (auto simp: redeem_cookie_def cookie_redeemed_def split: option.splits if_splits prod.splits)

text \<open>Where a verified context can come from: the presented token, or the token a redemption of this
  request's refresh cookie minted.\<close>

definition verified ::
  "'s gate_lib \<Rightarrow> gate_config \<Rightarrow> 's gate_exchanger option \<Rightarrow> instant \<Rightarrow> gate_request \<Rightarrow> string \<Rightarrow> string \<Rightarrow> mapclaims \<Rightarrow> bool" where
  "verified Lb c ga now rq source tok ac \<longleftrightarrow>
     gl_Parse Lb now tok (gc_Issuer c) [gc_Audience c] = Inr ac \<or>
     (source = COOKIE \<and> (\<exists>g ts. ga = Some g \<and> cookie_redeemed c g now rq ts \<and>
        gl_Parse Lb now (ts_AccessToken ts) (ga_Issuer g) [gc_Audience c] = Inr ac))"

lemma extends_Some: "extends c ga source = Some g \<Longrightarrow> source = COOKIE \<and> ga = Some g"
  by (auto simp: extends_def split: if_splits option.splits)

lemma identify_verified:
  "identify Lb c ga now rq source tok st = ((Inr ac, cookies, calls), st') \<Longrightarrow> verified Lb c ga now rq source tok ac"
  by (auto simp: identify_def verified_def parseGate_def dest!: extends_Some redeem_cookie_Some
      split: sum.splits option.splits prod.splits)

lemma vouch_Inr: "vouch Lb ga ac = Inr ac' \<Longrightarrow> ac' = ac \<and> vetoGateCredential Lb ga ac = None \<and> (\<exists>sub. gl_GetSubject Lb ac = Inr sub \<and> sub \<noteq> [])"
  by (auto simp: vouch_def split: sum.splits if_splits option.splits)

lemma extend_session_verified:
  assumes "extend_session Lb c ga now rq source ac st = ((ac', cookies, calls), st')"
  shows "ac' = ac \<or> (verified Lb c ga now rq source tok ac' \<and> vetoGateCredential Lb ga ac' = None)"
  using assms
  by (auto simp: extend_session_def verified_def parseGate_def dest!: extends_Some redeem_cookie_Some
      split: sum.splits option.splits prod.splits if_splits)

lemma spend_None:
  assumes "spend_capability Lb now ac s = (None, s')" and "claim_bool ac CapUsesClaim" and "gl_Cap Lb = Some decrement"
  shows "claim_string ac ''jti'' \<noteq> [] \<and> (\<exists>n. decrement now (''uses:'' @ claim_string ac ''jti'') s = (Inr (n, True), s'))"
  using assms by (auto simp: spend_capability_def Let_def split: if_splits sum.splits prod.splits bool.splits)

text \<open>What an admitted context is: the verified one, with the grants of a browser session refreshed
  inside its scope, and one use of a capability spent.\<close>

definition session_overlay :: "string \<Rightarrow> mapclaims \<Rightarrow> mapclaims \<Rightarrow> bool" where
  "session_overlay source ac ac' \<longleftrightarrow> ac' = ac \<or>
     (source = COOKIE \<and> \<not> claim_bool ac CapUsesClaim \<and>
      (\<exists>p. ac' = overlayScopedClaims ac p (strings_or_none (GetScopes ac))))"

lemma refreshed_overlay:
  "session_overlay COOKIE ac (fst (refreshSessionGrants G x signer now ttl ac g))"
  using refreshed_is_overlay [of G x signer now ttl ac g] capability_not_refreshed [of ac G x signer now ttl g]
  by (cases "claim_bool ac CapUsesClaim") (auto simp: session_overlay_def)

lemma refreshed_context_overlay: "session_overlay source ac (fst (refreshed_context c ga now source ac grants))"
proof (cases "\<exists>g. ga = Some g \<and> source = COOKIE")
  case True
  then obtain g where "ga = Some g" and c: "source = COOKIE" by blast
  then show ?thesis by (simp add: refreshed_context_def refreshed_overlay)
next
  case False
  then have "fst (refreshed_context c ga now source ac grants) = ac"
    by (cases ga) (auto simp: refreshed_context_def)
  then show ?thesis by (simp add: session_overlay_def)
qed

lemma admit_Serve:
  assumes "admit Lb c ga now source ac gs = (Serve (Some (ac', source')), gs')"
  shows "source' = source \<and> session_overlay source ac ac' \<and> spend_capability Lb now ac' (gs_cap gs) = (None, gs_cap gs')"
proof -
  obtain ac1 g1 where r: "refreshed_context c ga now source ac (gs_grants gs) = (ac1, g1)" by (rule prod.exhaust)
  obtain spent cap1 where s: "spend_capability Lb now ac1 (gs_cap gs) = (spent, cap1)" by (rule prod.exhaust)
  have "session_overlay source ac ac1" using refreshed_context_overlay [of source ac c ga now "gs_grants gs"] r by simp
  then show ?thesis using assms r s by (auto simp: admit_def Let_def split: option.splits)
qed

section \<open>Properties\<close>

text \<open>C4: the gate admits no identity it has not verified. Whenever a request reaches the wrapped handler
  with an auth context, the request carried a credential that is not an API token in the Authorization
  header; the context is a JWT verified for the host's audience, either the presented one or, for a cookie,
  one minted by redeeming this request's refresh cookie; a verified credential naming a subject was vouched
  for, the veto admits the context's kind, nothing but a browser session's roles and entitlements differs
  from the verified claims and these only within its scope, and a capability token had one use of its
  budget taken.\<close>

theorem gate_identity_vouched:
  assumes "WithAuthentication Lb c ga now rq gs = ((Serve (Some (ac, source)), cookies, calls), gs')"
  shows "\<exists>tok ac0 ac1 sub. read_credential c rq = Token source tok \<and> \<not> (source = HEADER \<and> looksLikePAT tok (TokenPrefix c)) \<and>
    verified Lb c ga now rq source tok ac0 \<and> gl_GetSubject Lb ac0 = Inr sub \<and> sub \<noteq> [] \<and>
    verified Lb c ga now rq source tok ac1 \<and> (ac1 = ac0 \<or> source = COOKIE) \<and> vetoGateCredential Lb ga ac1 = None \<and>
    session_overlay source ac1 ac \<and>
    (\<forall>decrement. gl_Cap Lb = Some decrement \<and> claim_bool ac CapUsesClaim \<longrightarrow>
       claim_string ac ''jti'' \<noteq> [] \<and>
       (\<exists>n. decrement now (''uses:'' @ claim_string ac ''jti'') (gs_cap gs) = (Inr (n, True), gs_cap gs')))"
proof -
  from assms obtain source' tok where cred: "read_credential c rq = Token source' tok"
    and pat: "\<not> (source' = HEADER \<and> looksLikePAT tok (TokenPrefix c))"
    by (auto simp: WithAuthentication_def split: credential.splits if_splits)
  obtain res ck0 calls0 st1 where i: "identify Lb c ga now rq source' tok (gs_stores gs) = ((res, ck0, calls0), st1)"
    by (metis surj_pair)
  have "\<exists>ac0. bindE res (vouch Lb ga) = Inr ac0"
    using assms cred pat i by (auto simp: WithAuthentication_def reject_def split: sum.splits if_splits)
  then obtain ac0 where b: "bindE res (vouch Lb ga) = Inr ac0" by blast
  then have res: "res = Inr ac0" and v: "vetoGateCredential Lb ga ac0 = None" and sub: "\<exists>sub. gl_GetSubject Lb ac0 = Inr sub \<and> sub \<noteq> []"
    by (auto simp: bindE_Inr_iff dest: vouch_Inr)
  obtain ac1 ck1 calls1 st2 where x: "extend_session Lb c ga now rq source' ac0 st1 = ((ac1, ck1, calls1), st2)"
    by (metis surj_pair)
  have a: "admit Lb c ga now source' ac1 (gs\<lparr>gs_stores := st2\<rparr>) = (Serve (Some (ac, source)), gs')"
    using assms cred pat i b x by (auto simp: WithAuthentication_def split: prod.splits)
  from admit_Serve [OF a] have ad: "source = source'" "session_overlay source ac1 ac"
    "spend_capability Lb now ac (gs_cap gs) = (None, gs_cap gs')" by auto
  have ver0: "verified Lb c ga now rq source tok ac0" using identify_verified [OF i [unfolded res]] ad(1) by simp
  have ver1: "verified Lb c ga now rq source tok ac1 \<and> vetoGateCredential Lb ga ac1 = None \<and> (ac1 = ac0 \<or> source = COOKIE)"
    using extend_session_verified [OF x, of tok] ver0 v ad(1) x
    by (auto simp: extend_session_def dest!: extends_Some split: option.splits)
  show ?thesis using cred pat ad ver0 ver1 sub spend_None [OF ad(3)] by blast
qed

definition demo_jwt :: "instant \<Rightarrow> string \<Rightarrow> string \<Rightarrow> string list \<Rightarrow> goerror + mapclaims" where
  "demo_jwt now raw iss auds =
     (if raw = ''cap'' \<and> iss = ''host'' \<and> auds = [''host'']
      then Inr [(''sub'', VStr ''u1''), (ClaimSubjectKind, VStr ''User''), (CapUsesClaim, VBool True), (''jti'', VStr ''j1'')]
      else if raw = ''jwt'' \<and> iss = ''host'' then Inr [(''sub'', VStr ''u1''), (''scope'', VStr ''roles''), (''roles'', VStrs [''admin''])]
      else Inl (wrapf [ErrTokenExpired] ''token is expired''))"

definition demo_gate_lib :: "InMemoryCache gate_lib" where
  "demo_gate_lib = \<lparr>gl_Parse = demo_jwt, gl_Dates = \<lparr>dl_Exp = (\<lambda>_. Inr None), dl_Iat = (\<lambda>_. Inr None)\<rparr>,
     gl_Url = demo_md_url, gl_Kinds = demo_kinds, gl_GetSubject = demo_get_subject,
     gl_Cap = Some (\<lambda>now k s. map_prod Inr id (DecrementIfPositive now k s))\<rparr>"

definition demo_gate_config :: gate_config where
  "demo_gate_config = \<lparr>gc_Audience = ''host'', gc_Issuer = ''host'', gc_CookieName = ''sid'', gc_AutoExtendSession = False,
     gc_Tokens = None, gc_Metadata = [], gc_Signer = demo_plain_signer, gc_Mapper = None\<rparr>"

definition demo_gate_state :: "InMemoryCache gate_state" where
  "demo_gate_state = \<lparr>gs_stores = demo_stores, gs_grants = demo_grants,
     gs_cap = cache_Set 0 ''uses:j1'' ''2'' [WithTTL 100] demo_cache\<rparr>"

definition demo_bearer :: "string \<Rightarrow> gate_request" where
  "demo_bearer tok = \<lparr>rq_Authorization = ''Bearer '' @ tok, rq_Cookies = [], rq_Path = ''/p''\<rparr>"

theorem gate_identity_vouched_witness:
  "\<exists>ac n s'. gl_Parse demo_gate_lib 10 ''cap'' ''host'' [''host''] = Inr ac \<and>
     DecrementIfPositive 10 ''uses:j1'' (gs_cap demo_gate_state) = ((n, True), s')"
proof -
  let ?r = "WithAuthentication demo_gate_lib demo_gate_config None 10 (demo_bearer ''cap'') demo_gate_state"
  let ?ac = "[(''sub'', VStr ''u1''), (ClaimSubjectKind, VStr ''User''), (CapUsesClaim, VBool True), (''jti'', VStr ''j1'')]"
  have "fst ?r = (Serve (Some (?ac, HEADER)), [], [])" by code_simp
  then have r: "?r = ((Serve (Some (?ac, HEADER)), [], []), snd ?r)" by (metis prod.collapse)
  have cap: "gl_Cap demo_gate_lib = Some (\<lambda>now k s. map_prod Inr id (DecrementIfPositive now k s))"
    by (simp add: demo_gate_lib_def)
  have j: "claim_bool ?ac CapUsesClaim" "claim_string ?ac ''jti'' = ''j1''" "''uses:'' @ ''j1'' = ''uses:j1''"
    "read_credential demo_gate_config (demo_bearer ''cap'') = Token HEADER ''cap''" "HEADER \<noteq> COOKIE"
    "gc_Issuer demo_gate_config = ''host''" "gc_Audience demo_gate_config = ''host''"
    by (code_simp, code_simp, simp, code_simp, code_simp, code_simp, code_simp)
  from gate_identity_vouched [OF r] j cap have
    "\<exists>ac0. verified demo_gate_lib demo_gate_config None 10 (demo_bearer ''cap'') HEADER ''cap'' ac0"
    "\<exists>n. map_prod Inr id (DecrementIfPositive 10 ''uses:j1'' (gs_cap demo_gate_state)) = (Inr (n, True) :: goerror + _, gs_cap (snd ?r))"
    by auto
  then show ?thesis using j(5-7) by (cases "DecrementIfPositive 10 ''uses:j1'' (gs_cap demo_gate_state)") (auto simp: verified_def)
qed

section \<open>The budget of a capability\<close>

definition admitted :: "gate_answer \<Rightarrow> bool" where
  "admitted a \<longleftrightarrow> (case a of Serve (Some _) \<Rightarrow> True | _ \<Rightarrow> False)"

text \<open>The requests of a sequence the gate hands on with an identity.\<close>

fun gate_admits ::
  "'s gate_lib \<Rightarrow> gate_config \<Rightarrow> 's gate_exchanger option \<Rightarrow> (instant \<times> gate_request) list \<Rightarrow> 's gate_state \<Rightarrow> nat" where
  "gate_admits Lb c ga [] gs = 0"
| "gate_admits Lb c ga ((now, rq) # rqs) gs =
     (let (r, gs') = WithAuthentication Lb c ga now rq gs
      in (if admitted (fst r) then 1 else 0) + gate_admits Lb c ga rqs gs')"

text \<open>A bearer request that can only verify as a capability with this identifier.\<close>

definition presents_capability :: "'s gate_lib \<Rightarrow> gate_config \<Rightarrow> string \<Rightarrow> instant \<times> gate_request \<Rightarrow> bool" where
  "presents_capability Lb c jti req \<longleftrightarrow>
     (\<exists>tok. read_credential c (snd req) = Token HEADER tok \<and>
        (\<forall>ac. gl_Parse Lb (fst req) tok (gc_Issuer c) [gc_Audience c] = Inr ac \<longrightarrow>
           claim_bool ac CapUsesClaim \<and> claim_string ac ''jti'' = jti))"

lemma header_extends: "extends c ga HEADER = None"
  by (simp add: extends_def HEADER_def COOKIE_def)

lemma header_context: "refreshed_context c ga now HEADER ac grants = (ac, grants)"
  by (simp add: refreshed_context_def HEADER_def COOKIE_def split: option.split)

lemma capability_step:
  assumes "presents_capability Lb c jti (now, rq)"
    and "gl_Cap Lb = Some (\<lambda>now k s. map_prod Inr id (DecrementIfPositive now k s))"
    and "WithAuthentication Lb c ga now rq gs = (r, gs')"
  shows "(\<not> admitted (fst r) \<and> gs_cap gs' = gs_cap gs) \<or>
    (\<exists>n. DecrementIfPositive now (''uses:'' @ jti) (gs_cap gs) = ((n, admitted (fst r)), gs_cap gs'))"
proof -
  from assms(1) obtain tok where cred: "read_credential c rq = Token HEADER tok"
    and cap: "\<forall>ac. gl_Parse Lb now tok (gc_Issuer c) [gc_Audience c] = Inr ac \<longrightarrow> claim_bool ac CapUsesClaim \<and> claim_string ac ''jti'' = jti"
    by (auto simp: presents_capability_def)
  consider (pat) "looksLikePAT tok (TokenPrefix c)"
    | (bad) err where "\<not> looksLikePAT tok (TokenPrefix c)" "bindE (parseGate Lb c now tok (gc_Issuer c)) (vouch Lb ga) = Inl err"
    | (good) ac where "\<not> looksLikePAT tok (TokenPrefix c)" "parseGate Lb c now tok (gc_Issuer c) = Inr ac" "vouch Lb ga ac = Inr ac"
    by (cases "parseGate Lb c now tok (gc_Issuer c)") (auto dest: vouch_Inr, metis sum.exhaust vouch_Inr)
  then show ?thesis
  proof cases
    case pat
    then show ?thesis using assms(3) cred by (auto simp: WithAuthentication_def admitted_def)
  next
    case bad
    then have "identify Lb c ga now rq HEADER tok (gs_stores gs) =
        ((parseGate Lb c now tok (gc_Issuer c), [], []), gs_stores gs)"
      by (auto simp: identify_def header_extends split: sum.split)
    then show ?thesis
      using assms(3) cred bad by (auto simp: WithAuthentication_def admitted_def reject_def HEADER_def COOKIE_def)
  next
    case good
    have "identify Lb c ga now rq HEADER tok (gs_stores gs) = ((Inr ac, [], []), gs_stores gs)"
      using good(2) by (simp add: identify_def)
    moreover have "extend_session Lb c ga now rq HEADER ac (gs_stores gs) = ((ac, [], []), gs_stores gs)"
      by (simp add: extend_session_def header_extends)
    ultimately have w: "WithAuthentication Lb c ga now rq gs =
        (let (a, g) = admit Lb c ga now HEADER ac gs in ((a, [], []), g))"
      using cred good by (simp add: WithAuthentication_def split: prod.split)
    have j: "claim_bool ac CapUsesClaim" "claim_string ac ''jti'' = jti" using cap good(2) by (auto simp: parseGate_def)
    obtain n ok s' where d: "DecrementIfPositive now (''uses:'' @ jti) (gs_cap gs) = ((n, ok), s')"
      by (metis prod.exhaust)
    show ?thesis
      using assms(3) w j d
      by (cases "jti = []"; cases ok)
        (auto simp: admit_def header_context spend_capability_def assms(2) admitted_def Let_def)
  qed
qed

lemma capability_run:
  assumes "\<forall>req \<in> set rqs. presents_capability Lb c jti req"
    and "gl_Cap Lb = Some (\<lambda>now k s. map_prod Inr id (DecrementIfPositive now k s))"
  shows "\<exists>ts. set ts \<subseteq> fst ` set rqs \<and>
    gate_admits Lb c ga rqs gs = fst (decrement_times ts (''uses:'' @ jti) (gs_cap gs))"
  using assms(1)
proof (induction rqs arbitrary: gs)
  case (Cons req rqs)
  obtain now rq where req: "req = (now, rq)" by (cases req)
  obtain r gs' where w: "WithAuthentication Lb c ga now rq gs = (r, gs')" by (rule prod.exhaust)
  have "\<forall>req \<in> set rqs. presents_capability Lb c jti req" using Cons.prems by simp
  from Cons.IH [OF this, of gs'] obtain ts where ts: "set ts \<subseteq> fst ` set rqs"
    "gate_admits Lb c ga rqs gs' = fst (decrement_times ts (''uses:'' @ jti) (gs_cap gs'))" by blast
  have "presents_capability Lb c jti (now, rq)" using Cons.prems req by simp
  from capability_step [OF this assms(2) w] show ?case
  proof
    assume "\<not> admitted (fst r) \<and> gs_cap gs' = gs_cap gs"
    then show ?thesis using ts w req by (auto intro!: exI [of _ ts])
  next
    assume "\<exists>n. DecrementIfPositive now (''uses:'' @ jti) (gs_cap gs) = ((n, admitted (fst r)), gs_cap gs')"
    then show ?thesis using ts w req by (auto intro!: exI [of _ "now # ts"] split: prod.split)
  qed
qed (auto intro!: exI [of _ "[]"])

text \<open>A capability is good for its budget and no more. Whatever sequence of bearer requests presents
  one capability, with the in-memory counter holding \<open>n\<close> uses that live as long, the gate hands at most
  \<open>n\<close> of them on with an identity.\<close>

theorem capability_budget:
  assumes "\<forall>req \<in> set rqs. presents_capability Lb c jti req \<and> fst req \<le> e_expiry e"
    and "gl_Cap Lb = Some (\<lambda>now k s. map_prod Inr id (DecrementIfPositive now k s))"
    and "map_of (seg_of (gs_cap gs) (c_currentChecksum (gs_cap gs))) (''uses:'' @ jti) = Some e"
    and "e_value e = FormatInt n" and "0 \<le> n" and "n \<le> int64_max"
  shows "gate_admits Lb c ga rqs gs \<le> nat n"
proof -
  from capability_run [of rqs Lb c jti ga gs] assms(1,2) obtain ts where
    ts: "set ts \<subseteq> fst ` set rqs" "gate_admits Lb c ga rqs gs = fst (decrement_times ts (''uses:'' @ jti) (gs_cap gs))" by blast
  have "\<forall>t \<in> set ts. t \<le> e_expiry e" using ts(1) assms(1) by auto
  from decrement_times_live [OF assms(3) this assms(4-6)] ts(2) show ?thesis by simp
qed

theorem capability_budget_witness:
  "gate_admits demo_gate_lib demo_gate_config None [(10, demo_bearer ''cap''), (20, demo_bearer ''cap''), (30, demo_bearer ''cap'')]
     demo_gate_state \<le> 2 \<and>
   gate_admits demo_gate_lib demo_gate_config None [(10, demo_bearer ''cap''), (20, demo_bearer ''cap'')] demo_gate_state = 2"
proof -
  let ?rqs = "[(10, demo_bearer ''cap''), (20, demo_bearer ''cap''), (30, demo_bearer ''cap'')]"
  let ?e = "\<lparr>e_element = Some 0, e_expiry = 100, e_key = ''uses:j1'', e_value = ''2''\<rparr>"
  have cred: "read_credential demo_gate_config (demo_bearer ''cap'') = Token HEADER ''cap''" by code_simp
  have j: "claim_bool ac CapUsesClaim \<and> claim_string ac ''jti'' = ''j1''" if "demo_jwt t ''cap'' iss auds = Inr ac" for t iss auds ac
    using that by (auto simp: demo_jwt_def claim_bool_def claim_string_def CapUsesClaim_def ClaimSubjectKind_def split: if_splits)
  have p: "\<forall>req \<in> set ?rqs. presents_capability demo_gate_lib demo_gate_config ''j1'' req \<and> fst req \<le> e_expiry ?e"
    using cred j by (auto simp: presents_capability_def demo_gate_lib_def)
  have cap: "gl_Cap demo_gate_lib = Some (\<lambda>now k s. map_prod Inr id (DecrementIfPositive now k s))"
    by (simp add: demo_gate_lib_def)
  have e: "map_of (seg_of (gs_cap demo_gate_state) (c_currentChecksum (gs_cap demo_gate_state))) (''uses:'' @ ''j1'') = Some ?e"
    and v: "e_value ?e = FormatInt 2" by code_simp+
  have "gate_admits demo_gate_lib demo_gate_config None [(10, demo_bearer ''cap''), (20, demo_bearer ''cap'')] demo_gate_state = 2"
    by code_simp
  with capability_budget [OF p cap e v, of None] show ?thesis by simp
qed

end
