(* ===== verification/IdToken.thy ===== *)
theory IdToken
  imports Gate
begin

text \<open>
  The stores of the upstream ID token: \<open>cookie_store.go\<close> and \<open>cache_store.go\<close> under
  \<open>src/internal/auth/idtoken\<close>. The interface \<open>IDTokenStore\<close> is the locale \<open>id_token_store\<close>,
  interpreted on both.

  AES-GCM and Base64 are parameters; the random nonce and session id are arguments. The browser is the map
  of its cookies: \<open>receive\<close> applies the cookies of a response in order.
\<close>

section \<open>Cookies\<close>

definition hintName :: string where "hintName = ''oidc_hint''"

definition receive_one :: "set_cookie \<Rightarrow> string gomap \<Rightarrow> string gomap" where
  "receive_one c jar = (if sk_MaxAge c < 0 then AList.delete (sk_Name c) jar else AList.update (sk_Name c) (sk_Value c) jar)"

definition receive :: "set_cookie list \<Rightarrow> string gomap \<Rightarrow> string gomap" where
  "receive cs jar = fold receive_one cs jar"

definition chunk_name :: "string \<Rightarrow> nat \<Rightarrow> string" where
  "chunk_name name i = name @ ''_'' @ format_nat i"

lemma format_nat_inj: "format_nat i = format_nat j \<Longrightarrow> i = j"
  using parse_format_nat by (metis option.inject)

lemma chunk_name_eq [simp]: "chunk_name name i = chunk_name name j \<longleftrightarrow> i = j"
  using format_nat_inj by (auto simp: chunk_name_def)

text \<open>The chunks a request still has from an index on; a request has finitely many.\<close>

definition later_chunks :: "string gomap \<Rightarrow> string \<Rightarrow> nat \<Rightarrow> nat set" where
  "later_chunks jar name i = {j. i \<le> j \<and> map_of jar (chunk_name name j) \<noteq> None}"

lemma finite_later_chunks: "finite (later_chunks jar name i)"
proof (rule inj_on_finite [of "chunk_name name" _ "fst ` set jar"])
  show "inj_on (chunk_name name) (later_chunks jar name i)" by (simp add: inj_on_def)
  show "chunk_name name ` later_chunks jar name i \<subseteq> fst ` set jar"
    by (auto simp: later_chunks_def map_of_eq_None_iff)
qed simp

lemma later_chunks_step:
  assumes "map_of jar (chunk_name name i) = Some v"
  shows "card (later_chunks jar name (Suc i)) < card (later_chunks jar name i)"
proof (intro psubset_card_mono finite_later_chunks)
  have "i \<in> later_chunks jar name i" "i \<notin> later_chunks jar name (Suc i)" using assms by (auto simp: later_chunks_def)
  moreover have "later_chunks jar name (Suc i) \<subseteq> later_chunks jar name i" by (auto simp: later_chunks_def)
  ultimately show "later_chunks jar name (Suc i) \<subset> later_chunks jar name i" by blast
qed

text \<open>The two loops that run until a chunk is missing.\<close>

function chunks_from :: "string gomap \<Rightarrow> string \<Rightarrow> nat \<Rightarrow> string" where
  "chunks_from jar name i =
     (case map_of jar (chunk_name name i) of None \<Rightarrow> [] | Some v \<Rightarrow> v @ chunks_from jar name (Suc i))"
  by pat_completeness auto
termination
  by (relation "measure (\<lambda>(jar, name, i). card (later_chunks jar name i))") (auto simp: later_chunks_step)

declare chunks_from.simps [simp del]

definition getIDTokenFromSplitCookies :: "string gomap \<Rightarrow> string \<Rightarrow> string" where
  "getIDTokenFromSplitCookies jar name = chunks_from jar name 0"

function cleanup_from :: "string gomap \<Rightarrow> string \<Rightarrow> nat \<Rightarrow> set_cookie list" where
  "cleanup_from jar name i =
     (case map_of jar (chunk_name name i) of
        None \<Rightarrow> []
      | Some _ \<Rightarrow> \<lparr>sk_Name = chunk_name name i, sk_Value = [], sk_MaxAge = -1\<rparr> # cleanup_from jar name (Suc i))"
  by pat_completeness auto
termination
  by (relation "measure (\<lambda>(jar, name, i). card (later_chunks jar name i))") (auto simp: later_chunks_step)

declare cleanup_from.simps [simp del]

definition chunkSize :: nat where "chunkSize = 3000"

text \<open>Chunk \<open>i\<close> and the ones after it.\<close>

function split_from :: "string \<Rightarrow> int \<Rightarrow> string \<Rightarrow> nat \<Rightarrow> set_cookie list" where
  "split_from name maxAge data i =
     (if i * chunkSize < length data
      then \<lparr>sk_Name = chunk_name name i, sk_Value = take chunkSize (drop (i * chunkSize) data), sk_MaxAge = maxAge\<rparr> #
           split_from name maxAge data (Suc i)
      else [])"
  by pat_completeness auto
termination
  by (relation "measure (\<lambda>(name, maxAge, data, i). length data - i * chunkSize)") (auto simp: chunkSize_def)

declare split_from.simps [simp del]

definition setSplitCookies :: "string gomap \<Rightarrow> string \<Rightarrow> string \<Rightarrow> int \<Rightarrow> set_cookie list" where
  "setSplitCookies jar name val maxAge = cleanup_from jar name 0 @ split_from name maxAge val 0"

section \<open>The cookie store\<close>

record gcm_lib =
  gcm_New :: "string \<Rightarrow> goerror option"
  gcm_Seal :: "string \<Rightarrow> string \<Rightarrow> string \<Rightarrow> string"
  gcm_Open :: "string \<Rightarrow> string \<Rightarrow> string \<Rightarrow> goerror + string"
  gcm_NonceSize :: nat
  b64_Encode :: "string \<Rightarrow> string"
  b64_Decode :: "string \<Rightarrow> goerror + string"

definition gcm_law :: "gcm_lib \<Rightarrow> bool" where
  "gcm_law G \<longleftrightarrow>
     (\<forall>key n p. length n = gcm_NonceSize G \<longrightarrow> gcm_Open G key n (gcm_Seal G key n p) = Inr p) \<and>
     (\<forall>b. b64_Decode G (b64_Encode G b) = Inr b) \<and> (\<forall>b. b64_Encode G b = [] \<longrightarrow> b = []) \<and> gcm_NonceSize G > 0"

record CookieIDTokenStore =
  ck_BlockKey :: string
  ck_TTL :: duration

definition encryptAndSplit :: "gcm_lib \<Rightarrow> CookieIDTokenStore \<Rightarrow> goerror + string \<Rightarrow> string gomap \<Rightarrow> string \<Rightarrow> string \<Rightarrow> int \<Rightarrow> goerror + set_cookie list" where
  "encryptAndSplit G c rand jar name tok maxAge =
     (case gcm_New G (ck_BlockKey c) of
        Some e \<Rightarrow> Inl (wrapf (err_is e) (''failed to create cipher: '' @ err_msg e))
      | None \<Rightarrow> bindE rand (\<lambda>nonce. Inr (setSplitCookies jar name (b64_Encode G (nonce @ gcm_Seal G (ck_BlockKey c) nonce tok)) maxAge)))"

definition getAndDecryptToken :: "gcm_lib \<Rightarrow> CookieIDTokenStore \<Rightarrow> string gomap \<Rightarrow> string \<Rightarrow> goerror + string" where
  "getAndDecryptToken G c jar name =
     (let encoded = getIDTokenFromSplitCookies jar name
      in if encoded = [] then Inl (errorf ''no token found'')
         else case b64_Decode G encoded of
                Inl e \<Rightarrow> Inl (wrapf (err_is e) (''failed to decode base64: '' @ err_msg e))
              | Inr ciphertext \<Rightarrow>
                  (case gcm_New G (ck_BlockKey c) of
                     Some e \<Rightarrow> Inl (wrapf (err_is e) (''failed to create cipher: '' @ err_msg e))
                   | None \<Rightarrow>
                       if length ciphertext < gcm_NonceSize G then Inl (errorf ''ciphertext too short'')
                       else gcm_Open G (ck_BlockKey c) (take (gcm_NonceSize G) ciphertext) (drop (gcm_NonceSize G) ciphertext)))"

text \<open>\<open>int(ttl.Seconds())\<close>: whole seconds, towards zero.\<close>

definition whole_seconds :: "duration \<Rightarrow> int" where
  "whole_seconds d = (if d < 0 then - (- d div second) else d div second)"

definition cookie_Set :: "gcm_lib \<Rightarrow> CookieIDTokenStore \<Rightarrow> goerror + string \<Rightarrow> string gomap \<Rightarrow> string \<Rightarrow> goerror + set_cookie list" where
  "cookie_Set G c rand jar rawIDToken = encryptAndSplit G c rand jar hintName rawIDToken (whole_seconds (ck_TTL c))"

definition cookie_Get :: "gcm_lib \<Rightarrow> CookieIDTokenStore \<Rightarrow> string gomap \<Rightarrow> goerror + string" where
  "cookie_Get G c jar = getAndDecryptToken G c jar hintName"

section \<open>The cache store\<close>

text \<open>The time to live is the cache's own, an argument here.\<close>

definition cache_hint_Set :: "'s cache_ops \<Rightarrow> duration \<Rightarrow> instant \<Rightarrow> string \<Rightarrow> string \<Rightarrow> 's \<Rightarrow> (goerror option \<times> set_cookie list) \<times> 's" where
  "cache_hint_Set ops ttl now sessionId rawIDToken s =
     (case op_Set ops now sessionId rawIDToken [] s of
        (e, s1) \<Rightarrow> ((e, [\<lparr>sk_Name = hintName, sk_Value = sessionId, sk_MaxAge = whole_seconds ttl\<rparr>]), s1))"

definition cache_hint_Get :: "'s cache_ops \<Rightarrow> instant \<Rightarrow> string gomap \<Rightarrow> 's \<Rightarrow> (goerror + string) \<times> 's" where
  "cache_hint_Get ops now jar s =
     (case map_of jar hintName of
        None \<Rightarrow> (Inl (errorf ''http: named cookie not present''), s)
      | Some sessionId \<Rightarrow>
          (case op_Get ops now sessionId s of
             (Inl e, s1) \<Rightarrow> (Inl e, s1)
           | (Inr (v, ok, _), s1) \<Rightarrow> (if ok then Inr v else Inl (errorf ''no token found''), s1)))"

section \<open>Lemmas\<close>

lemma receive_simps [simp]: "receive [] jar = jar" "receive (c # cs) jar = receive cs (receive_one c jar)"
  "receive (cs @ cs') jar = receive cs' (receive cs jar)"
  by (simp_all add: receive_def)

lemma map_of_receive_one:
  "map_of (receive_one c jar) k = (if k = sk_Name c then (if sk_MaxAge c < 0 then None else Some (sk_Value c)) else map_of jar k)"
  by (auto simp: receive_one_def update_conv')

text \<open>What the clean-up leaves: nothing of the run of chunks it started on.\<close>

definition has_chunk :: "string gomap \<Rightarrow> string \<Rightarrow> nat \<Rightarrow> bool" where
  "has_chunk jar name i \<longleftrightarrow> map_of jar (chunk_name name i) \<noteq> None"

definition chunk_run :: "string gomap \<Rightarrow> string \<Rightarrow> nat \<Rightarrow> nat \<Rightarrow> bool" where
  "chunk_run jar name i j \<longleftrightarrow> i \<le> j \<and> (\<forall>l. i \<le> l \<and> l \<le> j \<longrightarrow> has_chunk jar name l)"

lemma chunk_run_step: "has_chunk jar name i \<Longrightarrow> chunk_run jar name i j \<longleftrightarrow> j = i \<or> chunk_run jar name (Suc i) j"
  unfolding chunk_run_def by (metis Suc_leD Suc_leI le_antisym le_neq_implies_less order_refl)

lemma chunk_run_none: "\<not> has_chunk jar name i \<Longrightarrow> \<not> chunk_run jar name i j"
  unfolding chunk_run_def by blast

lemma receive_cleanup:
  "map_of (receive (cleanup_from jar name i) jar0) (chunk_name name j) =
     (if chunk_run jar name i j then None else map_of jar0 (chunk_name name j))"
proof (induction jar name i arbitrary: jar0 rule: cleanup_from.induct)
  case (1 jar name i)
  show ?case
  proof (cases "map_of jar (chunk_name name i)")
    case None
    then show ?thesis by (simp add: cleanup_from.simps [of jar name i] chunk_run_none has_chunk_def)
  next
    case (Some v)
    then have "has_chunk jar name i" by (simp add: has_chunk_def)
    with 1 [OF Some] Some show ?thesis
      by (simp add: cleanup_from.simps [of jar name i] map_of_receive_one chunk_run_step)
  qed
qed

text \<open>The chunks present in a request have no gap.\<close>

definition contiguous :: "string gomap \<Rightarrow> string \<Rightarrow> bool" where
  "contiguous jar name \<longleftrightarrow> (\<forall>i j. i \<le> j \<longrightarrow> has_chunk jar name j \<longrightarrow> has_chunk jar name i)"

lemma cleanup_all:
  assumes "contiguous jar name"
  shows "map_of (receive (cleanup_from jar name 0) jar) (chunk_name name i) = None"
proof (cases "has_chunk jar name i")
  case True
  with assms have "chunk_run jar name 0 i" unfolding contiguous_def chunk_run_def by blast
  then show ?thesis by (simp add: receive_cleanup)
qed (simp add: receive_cleanup has_chunk_def)

lemma receive_split:
  assumes "0 \<le> age"
  shows "map_of (receive (split_from name age data i) jar0) (chunk_name name j) =
    (if i \<le> j \<and> j * chunkSize < length data then Some (take chunkSize (drop (j * chunkSize) data)) else map_of jar0 (chunk_name name j))"
  using assms
proof (induction name age data i arbitrary: jar0 rule: split_from.induct)
  case (1 name age data i)
  show ?case
  proof (cases "i * chunkSize < length data")
    case True
    have "i \<le> j \<longleftrightarrow> j = i \<or> Suc i \<le> j" by auto
    with True 1 show ?thesis by (auto simp: split_from.simps [of name age data i] map_of_receive_one)
  next
    case False
    have "j * chunkSize < length data \<Longrightarrow> i \<le> j \<Longrightarrow> False"
      using False mult_le_mono1 [of i j chunkSize] by linarith
    with False show ?thesis by (auto simp: split_from.simps [of name age data i])
  qed
qed

lemma chunks_from_data:
  assumes "\<And>j. map_of jar (chunk_name name j) = (if j * chunkSize < length data then Some (take chunkSize (drop (j * chunkSize) data)) else None)"
  shows "chunks_from jar name i = drop (i * chunkSize) data"
proof (induction "length data - i * chunkSize" arbitrary: i rule: less_induct)
  case less
  show ?case
  proof (cases "i * chunkSize < length data")
    case True
    then have "length data - Suc i * chunkSize < length data - i * chunkSize" by (simp add: chunkSize_def)
    with less have "chunks_from jar name (Suc i) = drop (Suc i * chunkSize) data" by blast
    moreover have "take chunkSize (drop (i * chunkSize) data) @ drop (Suc i * chunkSize) data = drop (i * chunkSize) data"
      by (metis add.commute append_take_drop_id drop_drop mult_Suc)
    ultimately show ?thesis using True assms [of i] by (simp add: chunks_from.simps [of jar name i])
  next
    case False
    then show ?thesis using assms [of i] by (simp add: chunks_from.simps [of jar name i])
  qed
qed

lemma received_chunks:
  assumes "contiguous jar name" and "0 \<le> age"
  shows "map_of (receive (setSplitCookies jar name data age) jar) (chunk_name name j) =
    (if j * chunkSize < length data then Some (take chunkSize (drop (j * chunkSize) data)) else None)"
  using assms by (simp add: setSplitCookies_def receive_split cleanup_all)

lemma split_round_trip:
  assumes "contiguous jar name" and "0 \<le> age"
  shows "getIDTokenFromSplitCookies (receive (setSplitCookies jar name data age) jar) name = data"
  unfolding getIDTokenFromSplitCookies_def
  using chunks_from_data [OF received_chunks [OF assms], where i = 0] by simp

lemma split_contiguous:
  assumes "contiguous jar name" and "0 \<le> age"
  shows "contiguous (receive (setSplitCookies jar name data age) jar) name"
proof -
  have "i * chunkSize < length data" if "i \<le> j" "j * chunkSize < length data" for i j
    using that mult_le_mono1 [of i j chunkSize] by linarith
  then show ?thesis unfolding contiguous_def has_chunk_def by (auto simp: received_chunks [OF assms] split: if_splits)
qed

lemma split_cookie_size:
  "c \<in> set (split_from name age data i) \<Longrightarrow> length (sk_Value c) \<le> chunkSize"
proof (induction name age data i rule: split_from.induct)
  case (1 name age data i)
  then show ?case by (auto simp: split_from.simps [of name age data i] split: if_splits)
qed

lemma cleanup_cookie_size: "c \<in> set (cleanup_from jar name i) \<Longrightarrow> sk_Value c = []"
proof (induction jar name i rule: cleanup_from.induct)
  case (1 jar name i)
  then show ?case by (cases "map_of jar (chunk_name name i)") (auto simp: cleanup_from.simps [of jar name i])
qed

section \<open>The interface\<close>

text \<open>What the OIDC login and the logout rely on: a browser that received the cookies of a \<open>Set\<close> reads back
  the token it was for. \<open>n\<close> is what the store draws at random, \<open>live\<close> how long it promises to keep it.\<close>

locale id_token_store =
  fixes put :: "'n \<Rightarrow> instant \<Rightarrow> string gomap \<Rightarrow> string \<Rightarrow> 's \<Rightarrow> (set_cookie list \<times> 's) option"
    and read :: "instant \<Rightarrow> string gomap \<Rightarrow> 's \<Rightarrow> goerror + string"
    and ok :: "string gomap \<Rightarrow> 's \<Rightarrow> bool"
    and fresh :: "'n \<Rightarrow> bool"
    and live :: "instant \<Rightarrow> instant \<Rightarrow> 's \<Rightarrow> bool"
  assumes put_read: "ok jar s \<Longrightarrow> fresh n \<Longrightarrow> put n t jar tok s = Some (cs, s') \<Longrightarrow> live t t' s \<Longrightarrow> read t' (receive cs jar) s' = Inr tok"
    and put_ok: "ok jar s \<Longrightarrow> fresh n \<Longrightarrow> put n t jar tok s = Some (cs, s') \<Longrightarrow> ok (receive cs jar) s'"
begin

text \<open>A run of logins of one browser; the last token is the one that is read.\<close>

fun puts :: "('n \<times> instant \<times> string) list \<Rightarrow> string gomap \<Rightarrow> 's \<Rightarrow> (string gomap \<times> 's) option" where
  "puts [] jar s = Some (jar, s)"
| "puts ((n, t, tok) # ls) jar s = (case put n t jar tok s of None \<Rightarrow> None | Some (cs, s') \<Rightarrow> puts ls (receive cs jar) s')"

lemma puts_ok: "puts ls jar s = Some (jar', s') \<Longrightarrow> ok jar s \<Longrightarrow> \<forall>(n, t, tok) \<in> set ls. fresh n \<Longrightarrow> ok jar' s'"
proof (induction ls arbitrary: jar s)
  case (Cons l ls)
  obtain n t tok where l: "l = (n, t, tok)" by (cases l)
  with Cons.prems(1) obtain cs s1 where p: "put n t jar tok s = Some (cs, s1)" "puts ls (receive cs jar) s1 = Some (jar', s')"
    by (auto split: option.splits)
  with Cons.prems l have "ok (receive cs jar) s1" by (auto intro: put_ok)
  with Cons.IH [OF p(2)] Cons.prems(3) show ?case by simp
qed simp

lemma puts_append: "puts (ls @ [l]) jar s = (case puts ls jar s of None \<Rightarrow> None | Some (jar', s') \<Rightarrow> puts [l] jar' s')"
  by (induction ls jar s rule: puts.induct) (auto split: option.splits)

lemma last_login_read:
  assumes "puts (ls @ [(n, t, tok)]) jar s = Some (jar', s')" and "ok jar s" and "\<forall>(n, t, tok) \<in> set (ls @ [(n, t, tok)]). fresh n"
    and "\<And>s1. live t t' s1"
  shows "read t' jar' s' = Inr tok \<and> ok jar' s'"
proof -
  from assms(1) obtain jar1 s1 cs where p: "puts ls jar s = Some (jar1, s1)" "put n t jar1 tok s1 = Some (cs, s')" "jar' = receive cs jar1"
    by (auto simp: puts_append split: option.splits)
  have "ok jar1 s1" using puts_ok [OF p(1) assms(2)] assms(3) by auto
  moreover have "fresh n" using assms(3) by simp
  ultimately show ?thesis using put_read put_ok p(2,3) assms(4) by blast
qed

end

definition cookie_put :: "gcm_lib \<Rightarrow> CookieIDTokenStore \<Rightarrow> string \<Rightarrow> instant \<Rightarrow> string gomap \<Rightarrow> string \<Rightarrow> unit \<Rightarrow> (set_cookie list \<times> unit) option" where
  "cookie_put G c nonce t jar tok s = (case cookie_Set G c (Inr nonce) jar tok of Inl _ \<Rightarrow> None | Inr cs \<Rightarrow> Some (cs, s))"

definition cookie_ok :: "gcm_lib \<Rightarrow> CookieIDTokenStore \<Rightarrow> string gomap \<Rightarrow> unit \<Rightarrow> bool" where
  "cookie_ok G c jar s \<longleftrightarrow> gcm_law G \<and> 0 \<le> ck_TTL c \<and> contiguous jar hintName"

definition cache_put :: "duration \<Rightarrow> string \<Rightarrow> instant \<Rightarrow> string gomap \<Rightarrow> string \<Rightarrow> InMemoryCache \<Rightarrow> (set_cookie list \<times> InMemoryCache) option" where
  "cache_put ttl sid t jar tok s =
     (case cache_hint_Set mem_ops ttl t sid tok s of ((None, cs), s1) \<Rightarrow> Some (cs, s1) | ((Some _, _), _) \<Rightarrow> None)"

lemma cookie_Set_is:
  "cookie_Set G c (Inr nonce) jar tok = Inr cs \<Longrightarrow>
     gcm_New G (ck_BlockKey c) = None \<and>
     cs = setSplitCookies jar hintName (b64_Encode G (nonce @ gcm_Seal G (ck_BlockKey c) nonce tok)) (whole_seconds (ck_TTL c))"
  by (auto simp: cookie_Set_def encryptAndSplit_def split: option.splits)

lemma whole_seconds_nonneg: "0 \<le> d \<Longrightarrow> 0 \<le> whole_seconds d"
  by (simp add: whole_seconds_def pos_imp_zdiv_nonneg_iff)

lemma cookie_round_trip:
  assumes "cookie_ok G c jar s" and n: "length nonce = gcm_NonceSize G" and "cookie_Set G c (Inr nonce) jar tok = Inr cs"
  shows "cookie_Get G c (receive cs jar) = Inr tok \<and> cookie_ok G c (receive cs jar) s"
proof -
  let ?cipher = "nonce @ gcm_Seal G (ck_BlockKey c) nonce tok"
  note cs = cookie_Set_is [OF assms(3)]
  from assms(1) have law: "gcm_law G" and age: "0 \<le> whole_seconds (ck_TTL c)" and jar: "contiguous jar hintName"
    by (auto simp: cookie_ok_def whole_seconds_nonneg)
  have r: "getIDTokenFromSplitCookies (receive cs jar) hintName = b64_Encode G ?cipher"
    using cs split_round_trip [OF jar age] by simp
  have "b64_Encode G ?cipher \<noteq> []" "b64_Decode G (b64_Encode G ?cipher) = Inr ?cipher"
    "gcm_Open G (ck_BlockKey c) nonce (gcm_Seal G (ck_BlockKey c) nonce tok) = Inr tok"
    using law n unfolding gcm_law_def by auto
  with cs n have "cookie_Get G c (receive cs jar) = Inr tok"
    unfolding cookie_Get_def getAndDecryptToken_def r by simp
  moreover have "cookie_ok G c (receive cs jar) s"
    using assms(1) cs split_contiguous [OF jar age] by (simp add: cookie_ok_def)
  ultimately show ?thesis by blast
qed

interpretation ckhint: id_token_store "cookie_put G c" "\<lambda>t jar s. cookie_Get G c jar" "cookie_ok G c" "\<lambda>nonce. length nonce = gcm_NonceSize G" "\<lambda>t t' s. True"
  for G c
  by unfold_locales (auto simp: cookie_put_def cookie_round_trip split: sum.splits)

lemma fst_eqE: "fst p = a \<Longrightarrow> (\<And>b. p = (a, b) \<Longrightarrow> thesis) \<Longrightarrow> thesis"
  by (cases p) simp

interpretation cahint: id_token_store "cache_put ttl" "\<lambda>t jar s. fst (cache_hint_Get mem_ops t jar s)" "\<lambda>jar s. surviving s \<and> 0 \<le> ttl"
  "\<lambda>sid. True" "\<lambda>t t' s. t' \<le> mem_deadline t [] s"
  for ttl
proof
  fix jar s n t tok cs s' t'
  assume h: "surviving s \<and> 0 \<le> ttl" "cache_put ttl n t jar tok s = Some (cs, s')"
  then have s': "s' = snd (op_Set mem_ops t n tok [] s)" and cs: "cs = [\<lparr>sk_Name = hintName, sk_Value = n, sk_MaxAge = whole_seconds ttl\<rparr>]"
    by (auto simp: cache_put_def cache_hint_Set_def split: prod.splits option.splits)
  have inv: "surviving s'" using h(1) s' mem.set_inv by simp
  then show "surviving s' \<and> 0 \<le> ttl" using h by simp
  assume d: "t' \<le> mem_deadline t [] s"
  have v: "cache_view t' s' n = Some tok" using h(1) s' d mem.set_self by simp
  have "map_of (receive cs jar) hintName = Some n" using h whole_seconds_nonneg [of ttl] by (simp add: cs map_of_receive_one)
  moreover have "fst (op_Get mem_ops t' n s') = Inr (tok, True, True)"
    using mem.get_result [OF inv, of t' n] v by (simp only: found_result_def option.case)
  then obtain s2 where "op_Get mem_ops t' n s' = (Inr (tok, True, True), s2)" by (rule fst_eqE)
  ultimately show "fst (cache_hint_Get mem_ops t' (receive cs jar) s') = Inr tok" by (simp add: cache_hint_Get_def)
qed

text \<open>The upstream ID token survives the browser. Whatever chunks an earlier login left, if they have no
  gap, the cookies of a \<open>Set\<close> of the cookie store replace them: reading gives back exactly the new token,
  the chunks again have no gap, and no cookie's value is longer than the chunk size. The loops over the
  chunks end. A token put in the cache store is read back until its deadline.\<close>

theorem id_token_round_trip:
  assumes "gcm_law G" and "0 \<le> ck_TTL c" and "contiguous jar hintName" and "length nonce = gcm_NonceSize G"
    and "cookie_Set G c (Inr nonce) jar tok = Inr cs"
  shows "cookie_Get G c (receive cs jar) = Inr tok \<and> contiguous (receive cs jar) hintName \<and>
    (\<forall>k \<in> set cs. length (sk_Value k) \<le> chunkSize) \<and>
    (surviving s \<and> 0 \<le> ttl \<and> cache_put ttl sid t jar tok s = Some (cs', s') \<and> t' \<le> mem_deadline t [] s \<longrightarrow>
       fst (cache_hint_Get mem_ops t' (receive cs' jar) s') = Inr tok)"
proof -
  have ok: "cookie_ok G c jar ()" using assms(1-3) by (simp add: cookie_ok_def)
  have put: "cookie_put G c nonce t jar tok () = Some (cs, ())" using assms(5) by (simp add: cookie_put_def)
  have "cookie_Get G c (receive cs jar) = Inr tok" by (rule ckhint.put_read [OF ok assms(4) put TrueI])
  moreover have "contiguous (receive cs jar) hintName"
    using ckhint.put_ok [OF ok assms(4) put] by (simp add: cookie_ok_def)
  moreover have "length (sk_Value k) \<le> chunkSize" if "k \<in> set cs" for k
    using that cookie_Set_is [OF assms(5)] split_cookie_size cleanup_cookie_size by (fastforce simp: setSplitCookies_def)
  ultimately show ?thesis using cahint.put_read by blast
qed

definition demo_gcm :: gcm_lib where
  "demo_gcm = \<lparr>gcm_New = (\<lambda>_. None), gcm_Seal = (\<lambda>k n p. k @ p), gcm_Open = (\<lambda>k n c. Inr (drop (length k) c)), gcm_NonceSize = 1,
     b64_Encode = (\<lambda>s. s), b64_Decode = Inr\<rparr>"

theorem id_token_round_trip_witness:
  "\<exists>cs. cookie_Set demo_gcm \<lparr>ck_BlockKey = ''key'', ck_TTL = hour\<rparr> (Inr ''n'') [(''oidc_hint_0'', ''old'')] ''tok'' = Inr cs \<and>
     cookie_Get demo_gcm \<lparr>ck_BlockKey = ''key'', ck_TTL = hour\<rparr> (receive cs [(''oidc_hint_0'', ''old'')]) = Inr ''tok''"
proof -
  let ?jar = "[(''oidc_hint_0'', ''old'')]" and ?c = "\<lparr>ck_BlockKey = ''key'', ck_TTL = hour\<rparr>"
  have g: "gcm_law demo_gcm" by (simp add: gcm_law_def demo_gcm_def)
  have "chunk_name hintName 0 = ''oidc_hint_0''" by code_simp
  then have "has_chunk ?jar hintName i \<longleftrightarrow> i = 0" for i
    using chunk_name_eq [of hintName i 0] by (auto simp: has_chunk_def)
  then have k: "contiguous ?jar hintName" by (simp add: contiguous_def)
  obtain cs where cs: "cookie_Set demo_gcm ?c (Inr ''n'') ?jar ''tok'' = Inr cs"
    by (simp add: cookie_Set_def encryptAndSplit_def demo_gcm_def)
  have "0 \<le> ck_TTL ?c" "length ''n'' = gcm_NonceSize demo_gcm" by (simp_all add: demo_gcm_def)
  from id_token_round_trip [OF g this(1) k this(2) cs, of undefined 0 "[]" 0 "[]" undefined 0] cs show ?thesis by blast
qed

end
