(* ===== verification/OAuth2.thy ===== *)
theory OAuth2
  imports Logins AuthCode IdToken
begin

text \<open>
  The OAuth2 endpoints of \<open>src/internal/auth/oauth2.go\<close> and \<open>oauth2_consent.go\<close>: the authorize handler,
  the consent decision and the token endpoint with its grants.

  An answer keeps the parts of its location: the callback with the parameters set on it, the login page with
  the query it returns to. The URL parser, the query parser and the JSON codec of the sealed consent request
  are parameters. A context arrives with the source it was read from, as the gate provides it.
\<close>

section \<open>The endpoint\<close>

record consentRequest =
  cr_Sub :: string
  cr_Iss :: string
  cr_Query :: string
  cr_Exp :: int

record ConsentView =
  cv_RedirectURI :: string
  cv_ClientName :: string
  cv_Account :: string
  cv_Scopes :: "string list"
  cv_Request :: string

record oauth_lib =
  ol_ParseQuery :: "string \<Rightarrow> url_values"
  ol_Clean :: "string \<Rightarrow> string"
  ol_CleanName :: "string \<Rightarrow> string"
  ol_MarshalConsent :: "consentRequest \<Rightarrow> goerror + string"
  ol_UnmarshalConsent :: "string \<Rightarrow> goerror + consentRequest"

record 's OAuth2 =
  o_Exchanger :: "'s exchange"
  o_Env :: login_env
  o_Lib :: oauth_lib
  o_Jose :: jose_lib
  o_BlockKey :: string
  o_ResourceAudiences :: "string list"
  o_ExchangeTargets :: "string gomap"
  o_AccessTokenTTL :: duration

datatype answer =
    TextError nat "string option" string                   \<comment> \<open>status, \<open>Retry-After\<close> and body\<close>
  | Callback string "(string \<times> string) list"              \<comment> \<open>302 to the redirect URI with these parameters set\<close>
  | ToLogin url_values "(string \<times> string) list"            \<comment> \<open>303 to the login page, returning to this query\<close>
  | ToAuthorize url_values                                \<comment> \<open>303 back to authorize\<close>
  | ConsentPage ConsentView

definition consentRequestTTL :: duration where "consentRequestTTL = 10 * minute"

definition GRANT_TYPE_AUTHORIZATION_CODE :: string where "GRANT_TYPE_AUTHORIZATION_CODE = ''authorization_code''"
definition GRANT_TYPE_REFRESH_TOKEN :: string where "GRANT_TYPE_REFRESH_TOKEN = ''refresh_token''"
definition GRANT_TYPE_TOKEN_EXCHANGE :: string where
  "GRANT_TYPE_TOKEN_EXCHANGE = ''urn:ietf:params:oauth:grant-type:token-exchange''"

definition sealJSON :: "'s OAuth2 \<Rightarrow> string \<Rightarrow> ('v \<Rightarrow> goerror + string) \<Rightarrow> 'v \<Rightarrow> goerror + string" where
  "sealJSON ep purpose marshal v = bindE (marshal v) (seal (o_Jose ep) (o_BlockKey ep) purpose)"

definition openJSON :: "'s OAuth2 \<Rightarrow> string \<Rightarrow> (string \<Rightarrow> goerror + 'v) \<Rightarrow> string \<Rightarrow> goerror + 'v" where
  "openJSON ep purpose unmarshal sealed = bindE (open_sealed (o_Jose ep) (o_BlockKey ep) purpose sealed) unmarshal"

section \<open>Authorize\<close>

definition isBrowserSession :: "mapclaims \<Rightarrow> string \<Rightarrow> bool" where
  "isBrowserSession ac source \<longleftrightarrow>
     source = COOKIE \<and> \<not> claim_bool ac CapUsesClaim \<and> claim_string ac ''auth_method'' \<in> {AuthMethodLocal, AuthMethodOIDC}"

definition consentCovers :: "'s OAuth2 \<Rightarrow> instant \<Rightarrow> string \<Rightarrow> authorizeRequest \<Rightarrow> 's stores \<Rightarrow> bool \<times> 's stores" where
  "consentCovers ep now subject req st =
     (case x_consent (o_Exchanger ep) of
        None \<Rightarrow> (False, st)
      | Some ttl \<Rightarrow>
          (case Covers (x_consents (o_Exchanger ep)) (x_ops (o_Exchanger ep)) ttl now subject (ar_ClientID req) (ar_RedirectURI req)
                  (ar_Scopes req) (st_consent st) of
             (Inl _, s) \<Rightarrow> (False, st\<lparr>st_consent := s\<rparr>)
           | (Inr ok, s) \<Rightarrow> (ok, st\<lparr>st_consent := s\<rparr>)))"

definition redirectAuthorizeError :: "string \<Rightarrow> string \<Rightarrow> string \<Rightarrow> answer" where
  "redirectAuthorizeError callback state code =
     Callback callback ((''error'', code) # (if state \<noteq> [] then [(''state'', state)] else []))"

definition authorizeLoginURL :: "url_values \<Rightarrow> string list \<Rightarrow> string \<Rightarrow> answer" where
  "authorizeLoginURL q prompt loginHint =
     (let ret = AList.delete ''login_hint'' (withoutPrompt q [''login'', ''select_account'', ''none'']);
          upstream = filter (\<lambda>p. p = ''login'' \<or> p = ''select_account'') prompt
      in ToLogin ret
           ((if upstream \<noteq> [] then [(''prompt'', Join upstream '' '')] else []) @
            (if loginHint \<noteq> [] then [(''login_hint'', loginHint)] else [])))"

definition sessionMatchesHint :: "mapclaims \<Rightarrow> string \<Rightarrow> bool" where
  "sessionMatchesHint ac loginHint \<longleftrightarrow>
     (let email = claim_string ac ''email''; sub = claim_string ac ''sub''
      in email \<noteq> [] \<and> EqualFold email loginHint \<or> sub \<noteq> [] \<and> sub = loginHint)"

definition newConsentView :: "oauth_lib \<Rightarrow> string \<Rightarrow> string \<Rightarrow> string \<Rightarrow> string \<Rightarrow> string list \<Rightarrow> ConsentView" where
  "newConsentView L clientName redirectURI account sealed scopes =
     \<lparr>cv_RedirectURI = ol_Clean L redirectURI, cv_ClientName = ol_CleanName L clientName, cv_Account = ol_Clean L account,
      cv_Scopes = scopes, cv_Request = sealed\<rparr>"

definition renderConsent :: "'s OAuth2 \<Rightarrow> instant \<Rightarrow> string \<Rightarrow> AuthClient \<Rightarrow> string \<Rightarrow> string \<Rightarrow> authorizeRequest \<Rightarrow> answer" where
  "renderConsent ep now rawQuery client subject account req =
     (case sealJSON ep sealPurposeConsent (ol_MarshalConsent (o_Lib ep))
             \<lparr>cr_Sub = subject, cr_Iss = le_Issuer (o_Env ep), cr_Query = rawQuery, cr_Exp = Unix (now + consentRequestTTL)\<rparr> of
        Inl _ \<Rightarrow> TextError 500 None ''Internal Server Error''
      | Inr sealed \<Rightarrow> ConsentPage (newConsentView (o_Lib ep) (ac_Name client) (ar_RedirectURI req) account sealed (ar_Scopes req)))"

text \<open>The checks on the request and the client, before any session is looked at.\<close>

definition authorize_client :: "url_parse \<Rightarrow> url_values \<Rightarrow> AuthClient \<Rightarrow> answer option" where
  "authorize_client up q client =
     (let scope = values_Get q ''scope''; challenge = values_Get q ''code_challenge''; redirectURI = values_Get q ''redirect_uri''
      in if ac_AllowedGrantTypes client \<noteq> [] \<and> GRANT_TYPE_AUTHORIZATION_CODE \<notin> set (ac_AllowedGrantTypes client)
         then Some (TextError 401 None ''Unauthorized grant type'')
         else if ac_AllowedScopes client \<noteq> [] \<and> scope \<noteq> [] \<and>
              list_ex (\<lambda>s. s \<noteq> [] \<and> s \<notin> set (ac_AllowedScopes client)) (Split scope CHR '' '')
         then Some (TextError 401 None ''Unauthorized scope'')
         else if ac_RequirePKCE client \<and> challenge = [] then Some (TextError 400 None ''PKCE required: missing code_challenge'')
         else if challenge \<noteq> [] \<and> values_Get q ''code_challenge_method'' \<noteq> PKCE_METHOD_S256
         then Some (TextError 400 None ''Unsupported code_challenge_method: only S256 is accepted'')
         else if redirectURI \<notin> set (ac_RedirectURIs client) \<or> up redirectURI = None
         then Some (TextError 400 None ''Invalid redirect_uri'')
         else if ''none'' \<in> set (Fields (values_Get q ''prompt'')) \<and> length (Fields (values_Get q ''prompt'')) > 1
         then Some (redirectAuthorizeError redirectURI (values_Get q ''state'') ''invalid_request'')
         else None)"

definition code_claims :: "date_lib \<Rightarrow> url_values \<Rightarrow> mapclaims \<Rightarrow> string \<Rightarrow> AuthorizationCodeClaims" where
  "code_claims D q ac subject =
     \<lparr>a_AuthMethod = AuthMethodOAuth2, a_ClientID = values_Get q ''client_id'', a_CodeChallenge = values_Get q ''code_challenge'',
      a_CodeChallengeMethod = values_Get q ''code_challenge_method'', a_Exp = 0, a_IDPClaims = idpClaimSnapshot ac, a_JTI = [],
      a_RedirectURI = values_Get q ''redirect_uri'', a_Resource = values_Get q ''resource'', a_Scope = values_Get q ''scope'',
      a_Subject = subject, a_AuthenticatedAt = (case dl_Iat D ac of Inr (Some t) \<Rightarrow> Unix t | _ \<Rightarrow> 0)\<rparr>"

definition issue_code :: "'s OAuth2 \<Rightarrow> instant \<Rightarrow> goerror + string \<Rightarrow> url_values \<Rightarrow> mapclaims \<Rightarrow> string \<Rightarrow> 's stores \<Rightarrow> answer \<times> 's stores" where
  "issue_code ep now rand q ac subject st =
     (case CreateAuthorizationCode (o_Exchanger ep) (o_Jose ep) (o_BlockKey ep) now rand (code_claims (le_Dates (o_Env ep)) q ac subject) (st_codes st) of
        (Inl _, s) \<Rightarrow> (TextError 500 None ''Internal Server Error'', st\<lparr>st_codes := s\<rparr>)
      | (Inr code, s) \<Rightarrow>
          (Callback (values_Get q ''redirect_uri'')
             ((''code'', code) # (if values_Get q ''state'' \<noteq> [] then [(''state'', values_Get q ''state'')] else [])),
           st\<lparr>st_codes := s\<rparr>))"

text \<open>A revoked subject's session counts as signed out.\<close>

definition session_revoked :: "'s OAuth2 \<Rightarrow> instant \<Rightarrow> mapclaims \<Rightarrow> 's stores \<Rightarrow> (goerror + bool) \<times> 's stores" where
  "session_revoked ep now ac st =
     (let x = o_Exchanger ep
      in case CredentialPredatesRevocation (x_paseto x) (x_lib x) (le_Dates (o_Env ep))
                (map_option (\<lambda>(tm, hasStore). (tm, if hasStore then Some (x_ops x) else None)) (x_tokens x)) now ac (st_revoked st) of
           (r, s) \<Rightarrow> (r, st\<lparr>st_revoked := s\<rparr>))"

text \<open>From an admitted client and a session on: consent, the account asked for, the revocation, the page, the
  code. Their order is the handler's.\<close>

definition authorize_session ::
  "'s OAuth2 \<Rightarrow> instant \<Rightarrow> goerror + string \<Rightarrow> string \<Rightarrow> AuthClient \<Rightarrow> mapclaims \<Rightarrow> string \<Rightarrow> 's stores \<Rightarrow> answer \<times> 's stores" where
  "authorize_session ep now rand rawQuery client ac subject st =
     (let q = ol_ParseQuery (o_Lib ep) rawQuery; req = parseAuthorizeRequest q; state = values_Get q ''state'';
          callback = values_Get q ''redirect_uri''; prompt = ar_Prompt req; hint = ar_LoginHint req;
          (covered, st1) = (if ac_RequireConsent client then consentCovers ep now subject req st else (True, st))
      in if \<not> covered \<and> ''none'' \<in> set prompt then (redirectAuthorizeError callback state ''consent_required'', st1)
         else if ''login'' \<in> set prompt \<or> ''select_account'' \<in> set prompt \<or> (hint \<noteq> [] \<and> \<not> sessionMatchesHint ac hint)
         then (if ''none'' \<in> set prompt then redirectAuthorizeError callback state ''login_required'' else authorizeLoginURL q prompt hint, st1)
         else case session_revoked ep now ac st1 of
                (Inl _, st2) \<Rightarrow> (TextError 503 None ''Service Unavailable'', st2)
              | (Inr True, st2) \<Rightarrow>
                  (if ''none'' \<in> set prompt then redirectAuthorizeError callback state ''login_required''
                   else authorizeLoginURL q (prompt @ [''login'']) hint, st2)
              | (Inr False, st2) \<Rightarrow>
                  if ac_RequireConsent client \<and> (\<not> covered \<or> ''consent'' \<in> set prompt)
                  then (renderConsent ep now rawQuery client subject
                          (let email = claim_string ac ''email'' in if email = [] then subject else email) req, st2)
                  else issue_code ep now rand q ac subject st2)"

definition usable_session :: "AuthClient \<Rightarrow> (mapclaims \<times> string) option \<Rightarrow> (mapclaims \<times> string) option" where
  "usable_session client session =
     (case session of
        Some (ac, source) \<Rightarrow> if ac_RequireConsent client \<and> \<not> isBrowserSession ac source then None else Some (ac, source)
      | None \<Rightarrow> None)"

definition AuthorizeHandler ::
  "'s OAuth2 \<Rightarrow> instant \<Rightarrow> goerror + string \<Rightarrow> string \<Rightarrow> (mapclaims \<times> string) option \<Rightarrow> 's stores \<Rightarrow> answer \<times> 's stores" where
  "AuthorizeHandler ep now rand rawQuery session st =
     (let q = ol_ParseQuery (o_Lib ep) rawQuery; x = o_Exchanger ep; prompt = Fields (values_Get q ''prompt'')
      in if values_Get q ''client_id'' = [] then (TextError 400 None ''Missing client_id'', st)
         else if values_Get q ''response_type'' \<noteq> ''code'' then (TextError 400 None ''Unsupported response_type'', st)
         else case exchange_LookupClient x now (values_Get q ''client_id'') (st_dcr st) of
                (Inl _, s) \<Rightarrow> (TextError 503 (Some ''5'') ''Service Unavailable'', st\<lparr>st_dcr := s\<rparr>)
              | (Inr None, s) \<Rightarrow> (TextError 400 None ''Invalid client_id'', st\<lparr>st_dcr := s\<rparr>)
              | (Inr (Some client), s) \<Rightarrow>
                  (case authorize_client (x_url x) q client of
                     Some a \<Rightarrow> (a, st\<lparr>st_dcr := s\<rparr>)
                   | None \<Rightarrow>
                       (case usable_session client session of
                          None \<Rightarrow>
                            (if ''none'' \<in> set prompt
                             then redirectAuthorizeError (values_Get q ''redirect_uri'') (values_Get q ''state'') ''login_required''
                             else authorizeLoginURL q prompt (values_Get q ''login_hint''), st\<lparr>st_dcr := s\<rparr>)
                        | Some (ac, source) \<Rightarrow>
                            (case lib_GetSubject (x_lib x) ac of
                               Inl _ \<Rightarrow> (TextError 500 None ''Invalid session'', st\<lparr>st_dcr := s\<rparr>)
                             | Inr subject \<Rightarrow>
                                 if subject = [] then (TextError 500 None ''Invalid session'', st\<lparr>st_dcr := s\<rparr>)
                                 else authorize_session ep now rand rawQuery client ac subject (st\<lparr>st_dcr := s\<rparr>)))))"

section \<open>The consent decision\<close>

record consent_post =
  cp_OriginAllowed :: "bool option"
  cp_Session :: "(mapclaims \<times> string) option"
  cp_Form :: "url_values option"

definition consent_forbidden :: answer where "consent_forbidden = TextError 403 None ''Forbidden''"
definition consent_unavailable :: answer where "consent_unavailable = TextError 503 (Some ''5'') ''Service Unavailable''"

text \<open>The decision on an opened request, against the current registration.\<close>

definition consent_decide :: "'s OAuth2 \<Rightarrow> instant \<Rightarrow> string \<Rightarrow> string \<Rightarrow> consentRequest \<Rightarrow> 's stores \<Rightarrow> (answer \<times> 's stores) option" where
  "consent_decide ep now subject decision sealed st =
     (let x = o_Exchanger ep; q = ol_ParseQuery (o_Lib ep) (cr_Query sealed); req = parseAuthorizeRequest q
      in case exchange_LookupClient x now (ar_ClientID req) (st_dcr st) of
           (Inl _, s) \<Rightarrow> Some (consent_unavailable, st\<lparr>st_dcr := s\<rparr>)
         | (Inr None, s) \<Rightarrow> Some (consent_forbidden, st\<lparr>st_dcr := s\<rparr>)
         | (Inr (Some client), s) \<Rightarrow>
             if \<not> ac_RequireConsent client \<or> ar_RedirectURI req \<notin> set (ac_RedirectURIs client)
             then Some (consent_forbidden, st\<lparr>st_dcr := s\<rparr>)
             else case x_consent x of
                    None \<Rightarrow> Some (consent_unavailable, st\<lparr>st_dcr := s\<rparr>)
                  | Some ttl \<Rightarrow>
                      if decision = ''deny''
                      then (case Revoke (x_consents x) (x_ops x) ttl now subject (ar_ClientID req) (ar_RedirectURI req) (st_consent st) of
                              (Some _, c) \<Rightarrow> Some (consent_unavailable, st\<lparr>st_dcr := s, st_consent := c\<rparr>)
                            | (None, c) \<Rightarrow>
                                Some (if x_url x (ar_RedirectURI req) = None then consent_forbidden
                                      else redirectAuthorizeError (ar_RedirectURI req) (ar_State req) ''access_denied'',
                                      st\<lparr>st_dcr := s, st_consent := c\<rparr>))
                      else map_option
                             (\<lambda>(e, c). (if e = None then ToAuthorize (withoutPrompt q [''consent'']) else consent_unavailable,
                                        st\<lparr>st_dcr := s, st_consent := c\<rparr>))
                             (Grant (x_consents x) (x_ops x) ttl now subject (ar_ClientID req) (ar_RedirectURI req) (ar_Scopes req) (st_consent st)))"

definition values_of :: "url_values \<Rightarrow> string \<Rightarrow> string list" where
  "values_of q k = (case map_of q k of Some vs \<Rightarrow> vs | None \<Rightarrow> [])"

text \<open>\<open>None\<close> is a grant whose eviction does not end (see \<open>evict_oldest_bounds\<close>).\<close>

definition ConsentPost :: "'s OAuth2 \<Rightarrow> instant \<Rightarrow> consent_post \<Rightarrow> 's stores \<Rightarrow> (answer \<times> 's stores) option" where
  "ConsentPost ep now r st =
     (if cp_OriginAllowed r \<noteq> Some True then Some (consent_forbidden, st)
      else case cp_Session r of
             None \<Rightarrow> Some (consent_forbidden, st)
           | Some (ac, source) \<Rightarrow>
               if \<not> isBrowserSession ac source then Some (consent_forbidden, st)
               else case lib_GetSubject (x_lib (o_Exchanger ep)) ac of
                      Inl _ \<Rightarrow> Some (consent_forbidden, st)
                    | Inr subject \<Rightarrow>
                        if subject = [] then Some (consent_forbidden, st)
                        else case cp_Form r of
                               None \<Rightarrow> Some (consent_forbidden, st)
                             | Some form \<Rightarrow>
                                 if length (values_of form ''decision'') \<noteq> 1 \<or> length (values_of form ''request'') \<noteq> 1
                                    \<or> values_Get form ''decision'' \<notin> {''allow'', ''deny''}
                                 then Some (consent_forbidden, st)
                                 else case openJSON ep sealPurposeConsent (ol_UnmarshalConsent (o_Lib ep)) (values_Get form ''request'') of
                                        Inl _ \<Rightarrow> Some (consent_forbidden, st)
                                      | Inr sealed \<Rightarrow>
                                          if cr_Sub sealed \<noteq> subject \<or> cr_Iss sealed \<noteq> le_Issuer (o_Env ep) \<or> Unix now > cr_Exp sealed
                                          then Some (consent_forbidden, st)
                                          else consent_decide ep now subject (values_Get form ''decision'') sealed st)"

section \<open>The token endpoint\<close>

record TokenResponse =
  tr_AccessToken :: string
  tr_ExpiresIn :: int
  tr_IDToken :: string
  tr_IssuedTokenType :: string
  tr_RefreshToken :: string
  tr_Scope :: string

datatype token_answer =
    OAuthError nat string string "string option"    \<comment> \<open>status, code, description and challenge\<close>
  | Issued TokenResponse

definition oauth_error :: "nat \<Rightarrow> string \<Rightarrow> string \<Rightarrow> token_answer" where
  "oauth_error status code description = OAuthError status code description None"

definition oauth_server_error :: token_answer where
  "oauth_server_error = oauth_error 500 ''server_error'' genericServerErrorDescription"

text \<open>The request: the method, the form (absent when it does not parse), and basic authentication.\<close>

record token_request =
  tq_Method :: string
  tq_Form :: "url_values option"
  tq_Basic :: "(string \<times> string) option"

definition jwt_response :: "'s OAuth2 \<Rightarrow> TokenSet \<Rightarrow> TokenResponse" where
  "jwt_response ep ts =
     \<lparr>tr_AccessToken = ts_AccessToken ts, tr_ExpiresIn = whole_seconds (le_TokenTTL (o_Env ep)), tr_IDToken = ts_IDToken ts,
      tr_IssuedTokenType = [], tr_RefreshToken = ts_RefreshToken ts, tr_Scope = ts_Scope ts\<rparr>"

definition accessTokenType :: string where
  "accessTokenType = ''urn:ietf:params:oauth:token-type:access_token''"

definition handleTokenExchange :: "'s OAuth2 \<Rightarrow> instant \<Rightarrow> string \<Rightarrow> url_values \<Rightarrow> 's stores \<Rightarrow> token_answer \<times> 's stores" where
  "handleTokenExchange ep now jti form st =
     (let subjectToken = values_Get form ''subject_token''; typ = values_Get form ''subject_token_type''; resource = values_Get form ''resource''
      in if subjectToken = [] \<or> resource = []
         then (oauth_error 400 ''invalid_request'' ''subject_token and resource are required'', st)
         else if typ \<noteq> [] \<and> typ \<noteq> accessTokenType then (oauth_error 400 ''invalid_request'' ''unsupported subject_token_type'', st)
         else case map_of (o_ExchangeTargets ep) resource of
                None \<Rightarrow> (oauth_error 400 ''invalid_target'' ''unknown resource'', st)
              | Some aud \<Rightarrow>
                  (case ExchangeSubjectToken (o_Exchanger ep) (o_Env ep) now jti subjectToken aud (st_resolve st) of
                     ((_, Some e), s) \<Rightarrow>
                       (if errors_Is e ErrServerError then oauth_server_error
                        else oauth_error 400 ''invalid_request'' ''invalid subject_token'', st\<lparr>st_resolve := s\<rparr>)
                   | ((ts, None), s) \<Rightarrow>
                       (Issued \<lparr>tr_AccessToken = ts_AccessToken ts, tr_ExpiresIn = whole_seconds (le_TokenTTL (o_Env ep)), tr_IDToken = [],
                          tr_IssuedTokenType = accessTokenType, tr_RefreshToken = [], tr_Scope = []\<rparr>, st\<lparr>st_resolve := s\<rparr>)))"

text \<open>A grant's outcome: an answer of its own, or a token set and its error.\<close>

type_synonym granted = "token_answer + TokenSet \<times> goerror option"

definition clientCredentialsGrant ::
  "'s OAuth2 \<Rightarrow> instant \<Rightarrow> string \<Rightarrow> AuthClient \<Rightarrow> string \<Rightarrow> string \<Rightarrow> string \<Rightarrow> string \<Rightarrow> 's stores \<Rightarrow> granted \<times> 's stores" where
  "clientCredentialsGrant ep now jti client clientID clientSecret scope resource st =
     (if ac_Public client then (Inl (oauth_error 400 ''unauthorized_client'' ''client_credentials is not supported for public clients''), st)
      else if resource \<noteq> []
      then (case map_of (o_ExchangeTargets ep) resource of
              Some aud \<Rightarrow>
                if resource \<notin> set (ac_AllowedResources client)
                then (Inl (oauth_error 400 ''invalid_target'' ''requested resource is not permitted for this client''), st)
                else (case LoginClientResource (o_Exchanger ep) (o_Env ep) now jti clientID clientSecret scope aud (st_dcr st) of
                        (r, s) \<Rightarrow> (Inr r, st\<lparr>st_dcr := s\<rparr>))
            | None \<Rightarrow> (Inl (oauth_error 400 ''invalid_target'' ''requested resource is not permitted for this client''), st))
      else (case LoginClient (o_Exchanger ep) (o_Env ep) now jti clientID clientSecret scope (st_dcr st) of
              (r, s) \<Rightarrow> (Inr r, st\<lparr>st_dcr := s\<rparr>)))"

definition writeResourcePATResponse :: "'s OAuth2 \<Rightarrow> instant \<Rightarrow> string \<Rightarrow> string \<Rightarrow> TokenSet \<Rightarrow> token_answer option" where
  "writeResourcePATResponse ep now grantType resource ts =
     (if grantType \<noteq> GRANT_TYPE_AUTHORIZATION_CODE \<and> grantType \<noteq> GRANT_TYPE_REFRESH_TOKEN then None
      else if resource = [] \<or> resource \<notin> set (o_ResourceAudiences ep) then None
      else case MintResourcePAT (o_Exchanger ep) now resource (ts_Subject ts) (ts_Scope ts) (o_AccessTokenTTL ep) of
             Inl _ \<Rightarrow> Some oauth_server_error
           | Inr (pat, ttl) \<Rightarrow>
               Some (Issued \<lparr>tr_AccessToken = pat, tr_ExpiresIn = whole_seconds ttl, tr_IDToken = [], tr_IssuedTokenType = [],
                 tr_RefreshToken = ts_RefreshToken ts, tr_Scope = ts_Scope ts\<rparr>))"

text \<open>What the grants draw on besides the stores.\<close>

record 's token_env =
  te_Now :: instant
  te_NowMilli :: int
  te_Ids :: fresh_ids
  te_Idp :: idp_env
  te_Poll :: "'s poll_env"

definition dispatch_grant ::
  "'s OAuth2 \<Rightarrow> 's token_env \<Rightarrow> string \<Rightarrow> AuthClient \<Rightarrow> string \<Rightarrow> string \<Rightarrow> url_values \<Rightarrow> 's stores \<Rightarrow> granted \<times> 's stores" where
  "dispatch_grant ep E grantType client clientID clientSecret form st =
     (let x = o_Exchanger ep; now = te_Now E; scope = values_Get form ''scope''
      in if grantType = GRANT_TYPE_AUTHORIZATION_CODE
         then (if values_Get form ''code'' = [] then (Inl (oauth_error 400 ''invalid_request'' ''code is required''), st)
               else if values_Get form ''redirect_uri'' = [] then (Inl (oauth_error 400 ''invalid_request'' ''redirect_uri is required''), st)
               else case RedeemAuthorizationCode x (o_Jose ep) (o_BlockKey ep) now (te_Ids E) (values_Get form ''code'') clientID
                           (values_Get form ''redirect_uri'') (values_Get form ''code_verifier'') st of
                      (r, st1) \<Rightarrow> (Inr r, st1))
         else if grantType = GRANT_TYPE_CLIENT_CREDENTIALS
         then clientCredentialsGrant ep now (f_jti (te_Ids E)) client clientID clientSecret scope (values_Get form ''resource'') st
         else if grantType = ''password''
         then (case LoginLocal x (o_Env ep) now (te_NowMilli E) (te_Ids E) (values_Get form ''username'') (values_Get form ''password'')
                      scope clientID AuthMethodOAuth2 st of
                 ((ts, e, _), st1) \<Rightarrow> (Inr (ts, e), st1))
         else if grantType = GRANT_TYPE_REFRESH_TOKEN
         then (if values_Get form ''refresh_token'' = [] then (Inl (oauth_error 400 ''invalid_request'' ''refresh_token is required''), st)
               else case RedeemRefreshToken x (te_Idp E) (te_Poll E) now (te_NowMilli E) (te_Ids E) (values_Get form ''refresh_token'') clientID st of
                      ((ts, e, _), st1) \<Rightarrow> (Inr (ts, e), st1))
         else (Inl (oauth_error 400 ''unsupported_grant_type'' ''unsupported grant_type''), st))"

text \<open>A client authenticates with its secret unless it is public.\<close>

definition client_authenticates :: "AuthClient \<Rightarrow> string \<Rightarrow> bool" where
  "client_authenticates client secret \<longleftrightarrow> ac_Public client \<or> secret = ac_ClientSecret client"

definition answer_grant :: "'s OAuth2 \<Rightarrow> instant \<Rightarrow> string \<Rightarrow> string \<Rightarrow> granted \<Rightarrow> token_answer" where
  "answer_grant ep now grantType resource g =
     (case g of
        Inl a \<Rightarrow> a
      | Inr (ts, Some e) \<Rightarrow> (case oauthErrorForRedemption e of (status, code, description) \<Rightarrow> oauth_error status code description)
      | Inr (ts, None) \<Rightarrow>
          if ts_Subject ts = [] then oauth_server_error
          else case writeResourcePATResponse ep now grantType resource ts of
                 Some a \<Rightarrow> a
               | None \<Rightarrow> Issued (jwt_response ep ts))"

definition OAuth2TokenHandler :: "'s OAuth2 \<Rightarrow> 's token_env \<Rightarrow> token_request \<Rightarrow> 's stores \<Rightarrow> token_answer \<times> 's stores" where
  "OAuth2TokenHandler ep E r st =
     (if tq_Method r \<noteq> ''POST'' then (oauth_error 405 ''invalid_request'' ''the token endpoint requires POST'', st)
      else case tq_Form r of
             None \<Rightarrow> (oauth_error 400 ''invalid_request'' ''malformed request body'', st)
           | Some form \<Rightarrow>
               if values_Get form ''grant_type'' = GRANT_TYPE_TOKEN_EXCHANGE
               then handleTokenExchange ep (te_Now E) (f_jti (te_Ids E)) form st
               else
                 (let basicID = (case tq_Basic r of Some (i, _) \<Rightarrow> i | None \<Rightarrow> []);
                      basicSecret = (case tq_Basic r of Some (_, p) \<Rightarrow> p | None \<Rightarrow> []);
                      clientID = (if basicID = [] then values_Get form ''client_id'' else basicID);
                      grantType = values_Get form ''grant_type''; scope = values_Get form ''scope''
                  in case exchange_LookupClient (o_Exchanger ep) (te_Now E) clientID (st_dcr st) of
                       (Inl _, s) \<Rightarrow> (oauth_error 500 ''server_error'' ''client lookup failed'', st\<lparr>st_dcr := s\<rparr>)
                     | (Inr None, s) \<Rightarrow> (oauth_error 400 ''invalid_client'' ''unknown client_id'', st\<lparr>st_dcr := s\<rparr>)
                     | (Inr (Some client), s) \<Rightarrow>
                         (let clientSecret = (if \<not> ac_Public client \<and> basicSecret = [] then values_Get form ''client_secret'' else basicSecret);
                              st1 = st\<lparr>st_dcr := s\<rparr>
                          in if \<not> client_authenticates client clientSecret
                             then (if tq_Basic r \<noteq> None
                                   then OAuthError 401 ''invalid_client'' ''client authentication failed'' (Some ''Basic realm=\"token\"'')
                                   else oauth_error 400 ''invalid_client'' ''client authentication failed'', st1)
                             else if ac_AllowedGrantTypes client \<noteq> [] \<and> grantType \<notin> set (ac_AllowedGrantTypes client)
                             then (oauth_error 400 ''unauthorized_client'' ''this client is not authorized for that grant_type'', st1)
                             else if ac_AllowedScopes client \<noteq> [] \<and> scope \<noteq> [] \<and>
                                  list_ex (\<lambda>s. s \<noteq> [] \<and> s \<notin> set (ac_AllowedScopes client)) (Split scope CHR '' '')
                             then (oauth_error 400 ''invalid_scope'' ''requested scope is not allowed for this client'', st1)
                             else case dispatch_grant ep E grantType client clientID clientSecret form st1 of
                                    (g, st2) \<Rightarrow> (answer_grant ep (te_Now E) grantType (values_Get form ''resource'') g, st2))))"

section \<open>Lemmas\<close>

text \<open>The answer that carries a code.\<close>

definition grants_code :: "answer \<Rightarrow> string \<Rightarrow> string \<Rightarrow> bool" where
  "grants_code a uri code \<longleftrightarrow> (\<exists>rest. a = Callback uri ((''code'', code) # rest))"

lemma grants_code_not [simp]:
  "\<not> grants_code (TextError n ra b) uri code" "\<not> grants_code (redirectAuthorizeError u s e) uri code"
  "\<not> grants_code (authorizeLoginURL q p h) uri code" "\<not> grants_code (ConsentPage v) uri code"
  by (simp_all add: grants_code_def redirectAuthorizeError_def authorizeLoginURL_def Let_def)

lemma renderConsent_no_code [simp]: "\<not> grants_code (renderConsent ep now raw client subject account req) uri code"
  by (auto simp: renderConsent_def grants_code_def split: sum.splits)

text \<open>What the client and the request have to satisfy.\<close>

definition request_admitted :: "url_parse \<Rightarrow> url_values \<Rightarrow> AuthClient \<Rightarrow> bool" where
  "request_admitted up q client \<longleftrightarrow>
     (ac_AllowedGrantTypes client \<noteq> [] \<longrightarrow> GRANT_TYPE_AUTHORIZATION_CODE \<in> set (ac_AllowedGrantTypes client)) \<and>
     (ac_AllowedScopes client \<noteq> [] \<longrightarrow>
        {s \<in> set (Split (values_Get q ''scope'') CHR '' ''). s \<noteq> []} \<subseteq> set (ac_AllowedScopes client)) \<and>
     (ac_RequirePKCE client \<longrightarrow> values_Get q ''code_challenge'' \<noteq> []) \<and>
     (values_Get q ''code_challenge'' \<noteq> [] \<longrightarrow> values_Get q ''code_challenge_method'' = PKCE_METHOD_S256) \<and>
     values_Get q ''redirect_uri'' \<in> set (ac_RedirectURIs client)"

lemma Split_empty: "Split [] c = [[]]"
  by simp

lemma authorize_client_ok:
  assumes "authorize_client up q client = None"
  shows "request_admitted up q client"
proof -
  have "ac_AllowedScopes client \<noteq> [] \<longrightarrow>
    {s \<in> set (Split (values_Get q ''scope'') CHR '' ''). s \<noteq> []} \<subseteq> set (ac_AllowedScopes client)"
  proof (cases "values_Get q ''scope'' = []")
    case False
    with assms show ?thesis by (auto simp: authorize_client_def Let_def list_ex_iff split: if_splits)
  qed (simp add: Split_empty)
  with assms show ?thesis
    unfolding request_admitted_def by (auto simp: authorize_client_def Let_def split: if_splits)
qed

lemma authorize_client_no_code: "authorize_client up q client = Some a \<Longrightarrow> \<not> grants_code a uri code"
  by (auto simp: authorize_client_def Let_def split: if_splits)

lemma issue_code_grants:
  assumes "issue_code ep now rand q ac subject st = (a, st')" and "grants_code a uri code"
  shows "uri = values_Get q ''redirect_uri'' \<and>
    fst (CreateAuthorizationCode (o_Exchanger ep) (o_Jose ep) (o_BlockKey ep) now rand (code_claims (le_Dates (o_Env ep)) q ac subject) (st_codes st)) = Inr code"
  using assms by (auto simp: issue_code_def grants_code_def split: prod.splits sum.splits)

text \<open>What a session has to satisfy: the consent, the account and the revocation.\<close>

definition session_admitted :: "'s OAuth2 \<Rightarrow> instant \<Rightarrow> url_values \<Rightarrow> AuthClient \<Rightarrow> mapclaims \<Rightarrow> string \<Rightarrow> 's stores \<Rightarrow> bool" where
  "session_admitted ep now q client ac subject st \<longleftrightarrow>
     (let req = parseAuthorizeRequest q
      in (ac_RequireConsent client \<longrightarrow> fst (consentCovers ep now subject req st) \<and> ''consent'' \<notin> set (ar_Prompt req)) \<and>
         set (ar_Prompt req) \<inter> {''login'', ''select_account''} = {} \<and>
         (ar_LoginHint req \<noteq> [] \<longrightarrow> sessionMatchesHint ac (ar_LoginHint req)) \<and>
         fst (session_revoked ep now ac st) = Inr False)"

lemma consentCovers_revoked: "st_revoked (snd (consentCovers ep now subject req st)) = st_revoked st"
  by (auto simp: consentCovers_def split: option.splits prod.splits sum.splits)

lemma session_revoked_reads: "st_revoked st = st_revoked st' \<Longrightarrow> fst (session_revoked ep now ac st) = fst (session_revoked ep now ac st')"
  by (simp add: session_revoked_def Let_def split: prod.split)

lemma consentCovers_codes: "st_codes (snd (consentCovers ep now subject req st)) = st_codes st"
  by (auto simp: consentCovers_def split: option.splits prod.splits sum.splits)

lemma session_revoked_codes: "st_codes (snd (session_revoked ep now ac st)) = st_codes st"
  by (simp add: session_revoked_def Let_def split: prod.split)

lemma authorize_session_ok:
  assumes h: "authorize_session ep now rand rawQuery client ac subject st = (a, st')" and g: "grants_code a uri code"
  defines "q \<equiv> ol_ParseQuery (o_Lib ep) rawQuery"
  shows "session_admitted ep now q client ac subject st \<and> uri = values_Get q ''redirect_uri'' \<and>
    fst (CreateAuthorizationCode (o_Exchanger ep) (o_Jose ep) (o_BlockKey ep) now rand (code_claims (le_Dates (o_Env ep)) q ac subject) (st_codes st)) = Inr code"
proof -
  let ?req = "parseAuthorizeRequest q"
  obtain covered st1 where c: "(if ac_RequireConsent client then consentCovers ep now subject ?req st else (True, st)) = (covered, st1)"
    by (rule prod.exhaust)
  obtain r st2 where rv: "session_revoked ep now ac st1 = (r, st2)" by (rule prod.exhaust)
  have s1: "st_revoked st1 = st_revoked st" "st_codes st1 = st_codes st"
    using c consentCovers_revoked [of ep now subject ?req st] consentCovers_codes [of ep now subject ?req st] by (auto split: if_splits)
  have s2: "st_codes st2 = st_codes st" using session_revoked_codes [of ep now ac st1] s1 rv by simp
  note h' = h [unfolded authorize_session_def q_def [symmetric] Let_def c prod.case]
  have ok: "set (ar_Prompt ?req) \<inter> {''login'', ''select_account''} = {}" "ar_LoginHint ?req \<noteq> [] \<longrightarrow> sessionMatchesHint ac (ar_LoginHint ?req)"
    "r = Inr False" "ac_RequireConsent client \<longrightarrow> covered \<and> ''consent'' \<notin> set (ar_Prompt ?req)"
    using h' g rv by (auto split: if_splits sum.splits bool.splits)
  with h' g rv have i: "issue_code ep now rand q ac subject st2 = (a, st')"
    by (auto split: if_splits)
  have "fst (session_revoked ep now ac st) = Inr False"
    using session_revoked_reads [OF s1(1), of ep now ac] rv ok(3) by simp
  with ok c issue_code_grants [OF i g] s2 show ?thesis
    by (simp add: session_admitted_def Let_def split: if_splits)
qed

lemma usable_session_Some:
  "usable_session client session = Some (ac, source) \<longleftrightarrow>
     session = Some (ac, source) \<and> (ac_RequireConsent client \<longrightarrow> isBrowserSession ac source)"
  by (auto simp: usable_session_def split: option.splits if_splits)

text \<open>C10: the authorize endpoint sends a code only to a redirect URI registered for a known client that may use
  the grant, the scopes and the PKCE method asked for, for a session that names a subject, is for the account
  asked for and predates no revocation of it. For a client that needs consent the session is a person's
  browser session and the stored consent covers the client, the redirect and the scopes. The code is sealed over
  exactly that client, redirect, challenge, scope and subject.\<close>

theorem authorize_code_gate:
  assumes "AuthorizeHandler ep now rand rawQuery session st = (a, st')" and "grants_code a uri code"
  defines "q \<equiv> ol_ParseQuery (o_Lib ep) rawQuery"
  shows "\<exists>client ac source subject s.
    exchange_LookupClient (o_Exchanger ep) now (values_Get q ''client_id'') (st_dcr st) = (Inr (Some client), s) \<and>
    request_admitted (x_url (o_Exchanger ep)) q client \<and> uri = values_Get q ''redirect_uri'' \<and>
    session = Some (ac, source) \<and> (ac_RequireConsent client \<longrightarrow> isBrowserSession ac source) \<and>
    lib_GetSubject (x_lib (o_Exchanger ep)) ac = Inr subject \<and> subject \<noteq> [] \<and>
    session_admitted ep now q client ac subject (st\<lparr>st_dcr := s\<rparr>) \<and>
    fst (CreateAuthorizationCode (o_Exchanger ep) (o_Jose ep) (o_BlockKey ep) now rand
           (code_claims (le_Dates (o_Env ep)) q ac subject) (st_codes st)) = Inr code"
proof -
  let ?x = "o_Exchanger ep"
  note h = assms(1) [unfolded AuthorizeHandler_def q_def [symmetric] Let_def]
  from h assms(2) obtain client s where l: "exchange_LookupClient ?x now (values_Get q ''client_id'') (st_dcr st) = (Inr (Some client), s)"
    by (auto split: if_splits prod.splits sum.splits option.splits)
  from h assms(2) l have c: "authorize_client (x_url ?x) q client = None"
    using authorize_client_no_code by (cases "authorize_client (x_url ?x) q client") (auto split: if_splits)
  from h assms(2) l c obtain ac source where u: "usable_session client session = Some (ac, source)"
    by (auto split: if_splits option.splits)
  from h assms(2) l c u obtain subject where sub: "lib_GetSubject (x_lib ?x) ac = Inr subject" "subject \<noteq> []"
    by (auto split: if_splits sum.splits)
  from h assms(2) l c u sub have "authorize_session ep now rand rawQuery client ac subject (st\<lparr>st_dcr := s\<rparr>) = (a, st')"
    by (auto split: if_splits)
  from authorize_session_ok [OF this assms(2)] authorize_client_ok [OF c] l u sub show ?thesis
    unfolding q_def usable_session_Some by (intro exI [of _ client] exI [of _ ac] exI [of _ source] exI [of _ subject] exI [of _ s]) simp
qed

definition demo_query :: url_values where
  "demo_query = [(''client_id'', [''app'']), (''response_type'', [''code'']), (''redirect_uri'', [''https://app/cb'']),
     (''code_challenge'', [''v'']), (''code_challenge_method'', [''S256'']), (''scope'', [''openid'']), (''state'', [''xyz''])]"

text \<open>A reversible encoding of a sealed request, for the concrete endpoint.\<close>

definition demo_marshal_consent :: "consentRequest \<Rightarrow> goerror + string" where
  "demo_marshal_consent c = Inr (replicate (to_nat (cr_Sub c, cr_Iss c, cr_Query c, cr_Exp c)) (CHR ''x''))"

definition demo_unmarshal_consent :: "string \<Rightarrow> goerror + consentRequest" where
  "demo_unmarshal_consent b = (case from_nat (length b) of (s, i, q, e) \<Rightarrow> Inr \<lparr>cr_Sub = s, cr_Iss = i, cr_Query = q, cr_Exp = e\<rparr>)"

definition demo_oauth_lib :: oauth_lib where
  "demo_oauth_lib = \<lparr>ol_ParseQuery = (\<lambda>_. demo_query), ol_Clean = (\<lambda>s. s), ol_CleanName = (\<lambda>s. s),
     ol_MarshalConsent = demo_marshal_consent, ol_UnmarshalConsent = demo_unmarshal_consent\<rparr>"

definition demo_endpoint :: "InMemoryCache OAuth2" where
  "demo_endpoint = \<lparr>o_Exchanger = demo_exchange, o_Env = demo_logins, o_Lib = demo_oauth_lib, o_Jose = demo_jose, o_BlockKey = ''bk'',
     o_ResourceAudiences = [''/mcp''], o_ExchangeTargets = [(''/fn'', ''fn'')], o_AccessTokenTTL = hour\<rparr>"

theorem authorize_code_gate_witness:
  "\<exists>client s. exchange_LookupClient demo_exchange minute ''app'' (st_dcr demo_stores) = (Inr (Some client), s) \<and>
     request_admitted demo_url demo_query client \<and>
     session_admitted demo_endpoint minute demo_query client [(''sub'', VStr ''alice'')] ''alice'' (demo_stores\<lparr>st_dcr := s\<rparr>)"
proof -
  let ?h = "AuthorizeHandler demo_endpoint minute (Inr ''jti'') ''q'' (Some ([(''sub'', VStr ''alice'')], ''bearer'')) demo_stores"
  let ?a = "Callback ''https://app/cb'' [(''code'', ''bk'' @ [CHR 0x00] @ ''c''), (''state'', ''xyz'')]"
  have "fst ?h = ?a" by code_simp
  then have h: "?h = (?a, snd ?h)" by (metis prod.collapse)
  have g: "grants_code ?a ''https://app/cb'' (''bk'' @ [CHR 0x00] @ ''c'')" by (simp add: grants_code_def)
  have d: "o_Exchanger demo_endpoint = demo_exchange" "ol_ParseQuery (o_Lib demo_endpoint) ''q'' = demo_query"
    "values_Get demo_query ''client_id'' = ''app''" "x_url demo_exchange = demo_url" "x_lib demo_exchange = demo_lib"
    "lib_GetSubject demo_lib [(''sub'', VStr ''alice'')] = Inr ''alice''"
    by (simp_all add: demo_endpoint_def demo_oauth_lib_def demo_query_def values_Get_def demo_exchange_def demo_lib_def demo_get_subject_def)
  from authorize_code_gate [OF h g] show ?thesis unfolding d by (auto simp: d)
qed

section \<open>The consent flow\<close>

lemma prompt_words: "w \<in> set (Fields s) \<Longrightarrow> w \<noteq> [] \<and> list_all (\<lambda>c. \<not> is_space c) w"
  using Fields_acc_words [of w "[]" s] by (simp add: Fields_def)

text \<open>Dropping prompt values leaves the rest of the request alone.\<close>

lemma withoutPrompt_request:
  "parseAuthorizeRequest (withoutPrompt q drops) =
     (parseAuthorizeRequest q)\<lparr>ar_Prompt := filter (\<lambda>p. p \<notin> set drops) (ar_Prompt (parseAuthorizeRequest q))\<rparr>"
proof -
  let ?kept = "filter (\<lambda>p. p \<notin> set drops) (Fields (values_Get q ''prompt''))"
  have "Fields (Join ?kept '' '') = ?kept" using prompt_words by (intro Fields_Join) auto
  then show ?thesis
    by (auto simp: parseAuthorizeRequest_def withoutPrompt_def values_Get_def Let_def Fields_def)
qed

text \<open>Whoever posts a decision that reaches the consent store.\<close>

definition decision_vouched :: "'s OAuth2 \<Rightarrow> instant \<Rightarrow> consent_post \<Rightarrow> string \<Rightarrow> string \<Rightarrow> consentRequest \<Rightarrow> bool" where
  "decision_vouched ep now r subject decision sealed \<longleftrightarrow>
     cp_OriginAllowed r = Some True \<and>
     (\<exists>ac source form. cp_Session r = Some (ac, source) \<and> isBrowserSession ac source \<and>
        lib_GetSubject (x_lib (o_Exchanger ep)) ac = Inr subject \<and> subject \<noteq> [] \<and> cp_Form r = Some form \<and>
        values_of form ''decision'' = [decision] \<and> decision \<in> {''allow'', ''deny''} \<and>
        (\<exists>req. values_of form ''request'' = [req] \<and> openJSON ep sealPurposeConsent (ol_UnmarshalConsent (o_Lib ep)) req = Inr sealed)) \<and>
     cr_Sub sealed = subject \<and> cr_Iss sealed = le_Issuer (o_Env ep) \<and> Unix now \<le> cr_Exp sealed"

lemma values_of_one: "length (values_of q k) = 1 \<Longrightarrow> values_of q k = [values_Get q k]"
  by (cases "values_of q k") (auto simp: values_of_def values_Get_def split: option.splits)

lemma values_Get_one: "values_of q k = [v] \<Longrightarrow> values_Get q k = v"
  by (auto simp: values_of_def values_Get_def split: option.splits)

lemma ConsentPost_vouched:
  assumes "decision_vouched ep now r subject decision sealed"
  shows "ConsentPost ep now r st = consent_decide ep now subject decision sealed st"
  using assms values_Get_one by (fastforce simp: decision_vouched_def ConsentPost_def)

lemma ConsentPost_refused:
  assumes "\<And>subject decision sealed. \<not> decision_vouched ep now r subject decision sealed"
  shows "ConsentPost ep now r st = Some (consent_forbidden, st)"
proof (rule ccontr)
  assume n: "ConsentPost ep now r st \<noteq> Some (consent_forbidden, st)"
  from n obtain ac source subject form where f: "cp_OriginAllowed r = Some True" "cp_Session r = Some (ac, source)" "isBrowserSession ac source"
    "lib_GetSubject (x_lib (o_Exchanger ep)) ac = Inr subject" "subject \<noteq> []" "cp_Form r = Some form"
    by (auto simp: ConsentPost_def split: if_splits option.splits sum.splits)
  from n f have d: "length (values_of form ''decision'') = 1" "length (values_of form ''request'') = 1"
    "values_Get form ''decision'' \<in> {''allow'', ''deny''}"
    by (auto simp: ConsentPost_def split: if_splits)
  from n f d obtain sealed where o: "openJSON ep sealPurposeConsent (ol_UnmarshalConsent (o_Lib ep)) (values_Get form ''request'') = Inr sealed"
    by (auto simp: ConsentPost_def split: if_splits sum.splits)
  from n f d o have "cr_Sub sealed = subject \<and> cr_Iss sealed = le_Issuer (o_Env ep) \<and> Unix now \<le> cr_Exp sealed"
    by (auto simp: ConsentPost_def split: if_splits)
  with f d o have "decision_vouched ep now r subject (values_Get form ''decision'') sealed"
    unfolding decision_vouched_def using values_of_one [OF d(1)] values_of_one [OF d(2)] by blast
  with assms show False by blast
qed

lemma supported_scopes_short: "sc \<in> set (supportedScopes scope) \<Longrightarrow> length sc \<le> MaxConsentScopeLen"
  using granted_scopes_supported [of scope "[]"]
  by (auto simp: set_supportedScopes SupportedScopes_def MaxConsentScopeLen_def)

definition consent_lib_law :: "'s OAuth2 \<Rightarrow> bool" where
  "consent_lib_law ep \<longleftrightarrow> jose_law (o_Jose ep) \<and>
     (\<forall>c p. ol_MarshalConsent (o_Lib ep) c = Inr p \<longrightarrow> ol_UnmarshalConsent (o_Lib ep) p = Inr c)"

lemma sealed_opens:
  assumes "consent_lib_law ep" and "sealJSON ep purpose (ol_MarshalConsent (o_Lib ep)) c = Inr sealed"
  shows "openJSON ep purpose (ol_UnmarshalConsent (o_Lib ep)) sealed = Inr c"
  using assms
  by (auto simp: consent_lib_law_def jose_law_def sealJSON_def openJSON_def seal_def open_sealed_def bindE_Inr_iff)

text \<open>The consent that covers a request: read at any store that agrees on the consent cache.\<close>

lemma consentCovers_is:
  assumes "x_consent (o_Exchanger ep) = Some ttl"
  shows "fst (consentCovers ep now subject req st) \<longleftrightarrow>
    fst (Covers (x_consents (o_Exchanger ep)) (x_ops (o_Exchanger ep)) ttl now subject (ar_ClientID req) (ar_RedirectURI req)
           (ar_Scopes req) (st_consent st)) = Inr True"
  using assms by (auto simp: consentCovers_def split: prod.splits sum.splits)

text \<open>C11: a consent decision is the user's. A decision reaches the consent store only when it comes from this
  host's own page, from the person's browser session, once, with a request sealed for that person, by this host,
  not longer than its lifetime ago; every other post is refused and changes nothing. Allowing what a consent page
  showed sends the browser back to authorize with the same request less \<open>prompt=consent\<close>, and the request is
  covered from then until the record's deadline, so the page is not shown again.\<close>

theorem consent_flow:
  assumes law: "consent_lib_law ep" "consent_codec_law (x_consents (o_Exchanger ep))"
    and x: "x_ops (o_Exchanger ep) = mem_ops" "x_consent (o_Exchanger ep) = Some ttl"
    and page: "renderConsent ep now rawQuery client0 subject account req0 = ConsentPage v"
    and post: "decision_vouched ep t r subject ''allow'' sealed" "\<exists>form. cp_Form r = Some form \<and> values_of form ''request'' = [cv_Request v]"
    and q: "q = ol_ParseQuery (o_Lib ep) rawQuery" "req = parseAuthorizeRequest q"
    and l: "exchange_LookupClient (o_Exchanger ep) t (ar_ClientID req) (st_dcr st) = (Inr (Some client), s)"
      "ac_RequireConsent client" "ar_RedirectURI req \<in> set (ac_RedirectURIs client)"
    and st: "surviving (st_consent st)" "Unix t < int64_max"
      "record_ok (loaded_record (x_consents (o_Exchanger ep)) (cache_view t (st_consent st) (consentKey (x_consents (o_Exchanger ep)) subject)))"
      "length (merge_scopes (prior_scopes (x_consents (o_Exchanger ep))
          (loaded_record (x_consents (o_Exchanger ep)) (cache_view t (st_consent st) (consentKey (x_consents (o_Exchanger ep)) subject)))
          (ar_ClientID req) (ar_RedirectURI req)) (ar_Scopes req)) \<le> MaxConsentScopes"
    and t': "t' \<le> mem_deadline t [WithTTL ttl] (st_consent st)"
  shows "(\<exists>st'. ConsentPost ep t r st = Some (ToAuthorize (withoutPrompt q [''consent'']), st') \<and>
      fst (consentCovers ep t' subject (parseAuthorizeRequest (withoutPrompt q [''consent''])) st') \<and>
      ''consent'' \<notin> set (ar_Prompt (parseAuthorizeRequest (withoutPrompt q [''consent''])))) \<and>
    ((\<forall>subject decision sealed. \<not> decision_vouched ep t r' subject decision sealed) \<longrightarrow> ConsentPost ep t r' st = Some (consent_forbidden, st))"
proof -
  let ?x = "o_Exchanger ep"
  from page obtain c where "sealJSON ep sealPurposeConsent (ol_MarshalConsent (o_Lib ep)) c = Inr (cv_Request v)" and c: "cr_Query c = rawQuery"
    by (auto simp: renderConsent_def newConsentView_def split: sum.splits)
  then have "openJSON ep sealPurposeConsent (ol_UnmarshalConsent (o_Lib ep)) (cv_Request v) = Inr c" by (intro sealed_opens law)
  with post have sealed: "cr_Query sealed = rawQuery" using c unfolding decision_vouched_def by auto
  have short: "\<forall>sc \<in> set (ar_Scopes req). length sc \<le> MaxConsentScopeLen"
    using supported_scopes_short by (auto simp: q parseAuthorizeRequest_def)
  have "t' \<le> mem_deadline t [WithTTL ttl] (snd (op_Get mem_ops t k (st_consent st)))" for k
    using t' by (simp add: mem_deadline_def entry_expiry_def applySetOptions_def)
  from mem.grant_covers [OF st(1) law(2) st(2,3,4) short this] obtain s' where
    g: "Grant (x_consents ?x) mem_ops ttl t subject (ar_ClientID req) (ar_RedirectURI req) (ar_Scopes req) (st_consent st) = Some (None, s')"
      "fst (Covers (x_consents ?x) mem_ops ttl t' subject (ar_ClientID req) (ar_RedirectURI req) (ar_Scopes req) s') = Inr True" by blast
  have "ConsentPost ep t r st = Some (ToAuthorize (withoutPrompt q [''consent'']), st\<lparr>st_dcr := s, st_consent := s'\<rparr>)"
    unfolding ConsentPost_vouched [OF post(1)] consent_decide_def Let_def sealed q(1) [symmetric] q(2) [symmetric]
    using l x g(1) by simp
  moreover have "fst (consentCovers ep t' subject (parseAuthorizeRequest (withoutPrompt q [''consent''])) (st\<lparr>st_dcr := s, st_consent := s'\<rparr>))"
    using g(2) by (simp add: consentCovers_is [OF x(2)] x(1) withoutPrompt_request q(2) [symmetric])
  moreover have "''consent'' \<notin> set (ar_Prompt (parseAuthorizeRequest (withoutPrompt q [''consent''])))"
    by (simp add: withoutPrompt_request)
  ultimately show ?thesis using ConsentPost_refused by blast
qed

definition demo_consent_endpoint :: "InMemoryCache OAuth2" where
  "demo_consent_endpoint = demo_endpoint\<lparr>o_Exchanger := demo_exchange\<lparr>
     x_ex := demo_exchanger\<lparr>e_Clients := [(''app'', demo_app\<lparr>ac_RequireConsent := True\<rparr>)]\<rparr>, x_consent := Some hour\<rparr>\<rparr>"

definition demo_sealed :: consentRequest where
  "demo_sealed = \<lparr>cr_Sub = ''alice'', cr_Iss = ''host'', cr_Query = ''q'', cr_Exp = 600\<rparr>"

definition demo_sealed_text :: string where
  "demo_sealed_text = (sealPurposeConsent @ [CHR 0x00] @ ''bk'') @ [CHR 0x00] @ projr (demo_marshal_consent demo_sealed)"

definition demo_post :: consent_post where
  "demo_post = \<lparr>cp_OriginAllowed = Some True, cp_Session = Some ([(''sub'', VStr ''alice''), (''auth_method'', VStr ''local'')], ''cookie''),
     cp_Form = Some [(''decision'', [''allow'']), (''request'', [demo_sealed_text])]\<rparr>"

lemma demo_consent_lib_law: "consent_lib_law demo_consent_endpoint"
  by (auto simp: consent_lib_law_def demo_consent_endpoint_def demo_endpoint_def demo_jose_law demo_oauth_lib_def demo_marshal_consent_def
      demo_unmarshal_consent_def)

theorem consent_flow_witness:
  "\<exists>st'. ConsentPost demo_consent_endpoint minute demo_post demo_stores = Some (ToAuthorize demo_query, st') \<and>
     ConsentPost demo_consent_endpoint minute (demo_post\<lparr>cp_OriginAllowed := None\<rparr>) demo_stores = Some (consent_forbidden, demo_stores)"
proof -
  let ?ep = demo_consent_endpoint and ?req = "parseAuthorizeRequest demo_query"
  have x: "x_ops (o_Exchanger ?ep) = mem_ops" "x_consent (o_Exchanger ?ep) = Some hour" "x_consents (o_Exchanger ?ep) = demo_consent"
    "ol_ParseQuery (o_Lib ?ep) ''q'' = demo_query" "x_lib (o_Exchanger ?ep) = demo_lib" "le_Issuer (o_Env ?ep) = ''host''" "o_Jose ?ep = demo_jose"
    "o_BlockKey ?ep = ''bk''" "ol_MarshalConsent (o_Lib ?ep) = demo_marshal_consent" "consent_codec_law (x_consents (o_Exchanger ?ep))"
    by (simp_all add: demo_consent_endpoint_def demo_endpoint_def demo_exchange_def demo_oauth_lib_def demo_logins_def demo_consent_law)
  have u: "Unix (0 + consentRequestTTL) = 600" "Unix minute = 60" "Unix minute < int64_max" "minute \<le> mem_deadline minute [WithTTL hour] (st_consent demo_stores)"
    "ar_Scopes ?req = [''openid'']" "ar_ClientID ?req = ''app''" "ar_RedirectURI ?req = ''https://app/cb''" "sealPurposeConsent \<noteq> sealPurposeAuthCode"
    "cache_view minute (st_consent demo_stores) ''alice'' = None" "isBrowserSession [(''sub'', VStr ''alice''), (''auth_method'', VStr ''local'')] ''cookie''"
    "withoutPrompt demo_query [''consent''] = demo_query"
    by code_simp+
  have s: "sealJSON ?ep sealPurposeConsent demo_marshal_consent demo_sealed = Inr demo_sealed_text"
    using u(8) by (simp add: sealJSON_def x seal_def demo_jose_def sealKey_def demo_sealed_text_def demo_marshal_consent_def)
  have page: "renderConsent ?ep 0 ''q'' demo_app ''alice'' ''alice'' ?req =
      ConsentPage (newConsentView (o_Lib ?ep) (ac_Name demo_app) (ar_RedirectURI ?req) ''alice'' demo_sealed_text (ar_Scopes ?req))"
    unfolding renderConsent_def x u(1) using s by (simp add: demo_sealed_def)
  have "openJSON ?ep sealPurposeConsent (ol_UnmarshalConsent (o_Lib ?ep)) demo_sealed_text = Inr demo_sealed"
    using sealed_opens [OF demo_consent_lib_law, of sealPurposeConsent demo_sealed] s x by simp
  then have v: "decision_vouched ?ep minute demo_post ''alice'' ''allow'' demo_sealed"
    using u(2,10) by (simp add: decision_vouched_def x demo_post_def values_of_def demo_lib_def demo_get_subject_def demo_sealed_def)
  have f: "\<exists>form. cp_Form demo_post = Some form \<and> values_of form ''request'' =
      [cv_Request (newConsentView (o_Lib ?ep) (ac_Name demo_app) (ar_RedirectURI ?req) ''alice'' demo_sealed_text (ar_Scopes ?req))]"
    by (simp add: demo_post_def values_of_def newConsentView_def)
  have l: "exchange_LookupClient (o_Exchanger ?ep) minute (ar_ClientID ?req) (st_dcr demo_stores) =
      (Inr (Some (demo_app\<lparr>ac_RequireConsent := True\<rparr>)), st_dcr demo_stores)"
    by (simp add: u(6) exchange_LookupClient_def LookupClient_def demo_consent_endpoint_def demo_endpoint_def)
  have r: "ar_RedirectURI ?req \<in> set (ac_RedirectURIs (demo_app\<lparr>ac_RequireConsent := True\<rparr>))" "ac_RequireConsent (demo_app\<lparr>ac_RequireConsent := True\<rparr>)"
    by (simp_all add: u(7) demo_app_def)
  have k: "consentKey demo_consent ''alice'' = ''alice''" by (simp add: consentKey_def demo_consent_def)
  have c: "surviving (st_consent demo_stores)" using demo_class_unbounded by (simp add: demo_stores_def unbounded_def)
  have ok: "record_ok (loaded_record (x_consents (o_Exchanger ?ep)) (cache_view minute (st_consent demo_stores) (consentKey (x_consents (o_Exchanger ?ep)) ''alice'')))"
    "length (merge_scopes (prior_scopes (x_consents (o_Exchanger ?ep))
        (loaded_record (x_consents (o_Exchanger ?ep)) (cache_view minute (st_consent demo_stores) (consentKey (x_consents (o_Exchanger ?ep)) ''alice'')))
        (ar_ClientID ?req) (ar_RedirectURI ?req)) (ar_Scopes ?req)) \<le> MaxConsentScopes"
    unfolding x k u(5,6,7,9) by (simp_all add: record_ok_def prior_scopes_def grant_at_def MaxConsentScopes_def MaxConsentScopeLen_def)
  have n: "\<forall>subject decision sealed. \<not> decision_vouched ?ep minute (demo_post\<lparr>cp_OriginAllowed := None\<rparr>) subject decision sealed"
    by (simp add: decision_vouched_def)
  from consent_flow [OF demo_consent_lib_law x(10,1,2) page v f x(4) [symmetric] refl l r(2,1) c u(3) ok u(4), of "demo_post\<lparr>cp_OriginAllowed := None\<rparr>"]
  show ?thesis using n u(11) by auto
qed

section \<open>Soundness of the token endpoint\<close>

lemma oauth_error_not_issued [simp]: "oauth_error n c d \<noteq> Issued resp" "oauth_server_error \<noteq> Issued resp"
  by (simp_all add: oauth_error_def oauth_server_error_def)

text \<open>The secret the client presented: basic authentication first, then the form.\<close>

definition presented_id :: "token_request \<Rightarrow> url_values \<Rightarrow> string" where
  "presented_id r form = (case tq_Basic r of Some (c # cs, _) \<Rightarrow> c # cs | _ \<Rightarrow> values_Get form ''client_id'')"

definition presented_secret :: "token_request \<Rightarrow> url_values \<Rightarrow> string" where
  "presented_secret r form = (case tq_Basic r of Some (_, c # cs) \<Rightarrow> c # cs | _ \<Rightarrow> values_Get form ''client_secret'')"

definition scope_within :: "AuthClient \<Rightarrow> string \<Rightarrow> bool" where
  "scope_within client scope \<longleftrightarrow> ac_AllowedScopes client \<noteq> [] \<longrightarrow>
     {s \<in> set (Split scope CHR '' ''). s \<noteq> []} \<subseteq> set (ac_AllowedScopes client)"

definition token_client :: "'s OAuth2 \<Rightarrow> instant \<Rightarrow> token_request \<Rightarrow> url_values \<Rightarrow> 's stores \<Rightarrow> AuthClient \<Rightarrow> 's \<Rightarrow> bool" where
  "token_client ep now r form st client s \<longleftrightarrow>
     exchange_LookupClient (o_Exchanger ep) now (presented_id r form) (st_dcr st) = (Inr (Some client), s) \<and>
     (ac_Public client \<or> presented_secret r form = ac_ClientSecret client) \<and>
     (ac_AllowedGrantTypes client \<noteq> [] \<longrightarrow> values_Get form ''grant_type'' \<in> set (ac_AllowedGrantTypes client)) \<and>
     scope_within client (values_Get form ''scope'')"

text \<open>What an answered grant was: a session in the standard response, or a resource token of its subject.\<close>

definition issued_for :: "'s OAuth2 \<Rightarrow> instant \<Rightarrow> string \<Rightarrow> string \<Rightarrow> TokenSet \<Rightarrow> TokenResponse \<Rightarrow> bool" where
  "issued_for ep now grantType resource ts resp \<longleftrightarrow> ts_Subject ts \<noteq> [] \<and>
     (resp = jwt_response ep ts \<or>
      grantType \<in> {GRANT_TYPE_AUTHORIZATION_CODE, GRANT_TYPE_REFRESH_TOKEN} \<and> resource \<in> set (o_ResourceAudiences ep) \<and>
      (\<exists>pat ttl. MintResourcePAT (o_Exchanger ep) now resource (ts_Subject ts) (ts_Scope ts) (o_AccessTokenTTL ep) = Inr (pat, ttl) \<and>
         tr_AccessToken resp = pat \<and> tr_RefreshToken resp = ts_RefreshToken ts))"

lemma answer_grant_issued:
  assumes "answer_grant ep now grantType resource g = Issued resp" and "\<And>a. g = Inl a \<Longrightarrow> a \<noteq> Issued resp"
  shows "\<exists>ts. g = Inr (ts, None) \<and> issued_for ep now grantType resource ts resp"
proof -
  from assms obtain ts where g: "g = Inr (ts, None)" and s: "ts_Subject ts \<noteq> []"
    by (auto simp: answer_grant_def split: sum.splits option.splits prod.splits if_splits)
  with assms(1) show ?thesis
    by (auto simp: answer_grant_def issued_for_def writeResourcePATResponse_def split: option.splits if_splits sum.splits prod.splits)
qed

lemma clientCredentialsGrant_ok:
  assumes "clientCredentialsGrant ep now jti client clientID secret scope resource st = (g, st')"
  shows "(\<forall>a. g = Inl a \<longrightarrow> a \<noteq> Issued resp) \<and>
    (\<forall>ts. g = Inr (ts, None) \<longrightarrow> \<not> ac_Public client \<and> (resource \<noteq> [] \<longrightarrow> resource \<in> set (ac_AllowedResources client) \<and>
       map_of (o_ExchangeTargets ep) resource \<noteq> None))"
  using assms by (auto simp: clientCredentialsGrant_def split: if_splits option.splits prod.splits)

lemma dispatch_grant_ok:
  assumes "dispatch_grant ep E grantType client clientID secret form st = (g, st')"
  shows "(\<forall>a. g = Inl a \<longrightarrow> a \<noteq> Issued resp) \<and>
    (\<forall>ts. g = Inr (ts, None) \<and> grantType = GRANT_TYPE_CLIENT_CREDENTIALS \<longrightarrow> \<not> ac_Public client \<and>
       (values_Get form ''resource'' \<noteq> [] \<longrightarrow> values_Get form ''resource'' \<in> set (ac_AllowedResources client)))"
proof (cases "grantType = GRANT_TYPE_CLIENT_CREDENTIALS")
  case True
  then have "grantType \<noteq> GRANT_TYPE_AUTHORIZATION_CODE"
    by (simp add: GRANT_TYPE_CLIENT_CREDENTIALS_def GRANT_TYPE_AUTHORIZATION_CODE_def)
  with assms True have "clientCredentialsGrant ep (te_Now E) (f_jti (te_Ids E)) client clientID secret (values_Get form ''scope'')
      (values_Get form ''resource'') st = (g, st')"
    by (simp add: dispatch_grant_def Let_def)
  from clientCredentialsGrant_ok [OF this, of resp] show ?thesis by blast
next
  case False
  with assms show ?thesis by (auto simp: dispatch_grant_def Let_def split: if_splits prod.splits)
qed

lemma handleTokenExchange_ok:
  assumes "handleTokenExchange ep now jti form st = (Issued resp, st')"
  shows "\<exists>aud ts s'. map_of (o_ExchangeTargets ep) (values_Get form ''resource'') = Some aud \<and>
    ExchangeSubjectToken (o_Exchanger ep) (o_Env ep) now jti (values_Get form ''subject_token'') aud (st_resolve st) = ((ts, None), s') \<and>
    tr_AccessToken resp = ts_AccessToken ts \<and> tr_RefreshToken resp = []"
  using assms by (auto simp: handleTokenExchange_def Let_def split: if_splits option.splits prod.splits)

text \<open>The handler below its first two checks, for a form that is no exchange.\<close>

lemma scope_test: "\<not> (ac_AllowedScopes client \<noteq> [] \<and> scope \<noteq> [] \<and>
    list_ex (\<lambda>s. s \<noteq> [] \<and> s \<notin> set (ac_AllowedScopes client)) (Split scope CHR '' '')) \<longleftrightarrow> scope_within client scope"
  by (cases "scope = []") (auto simp: scope_within_def list_ex_iff)

lemma presented_id_is:
  "presented_id r form = (let i = (case tq_Basic r of Some (i, _) \<Rightarrow> i | None \<Rightarrow> []) in if i = [] then values_Get form ''client_id'' else i)"
  by (auto simp: presented_id_def Let_def split: option.splits list.splits prod.splits)

lemma presented_secret_is:
  "presented_secret r form =
     (let p = (case tq_Basic r of Some (_, p) \<Rightarrow> p | None \<Rightarrow> []) in if p = [] then values_Get form ''client_secret'' else p)"
  by (auto simp: presented_secret_def Let_def split: option.splits list.splits prod.splits)

text \<open>C12: the token endpoint issues tokens only to a POST whose client is known, presented its secret unless
  it is public, and may use the grant type and the scopes it asks for; every issued token names a subject. The
  client grant is never for a public client nor for a resource outside its allow-list; a resource token is
  minted only for a code or a refresh and only for a protected resource. The token exchange, which needs no
  client, is for a known target and issues no refresh token.\<close>

theorem token_endpoint_sound:
  assumes "OAuth2TokenHandler ep E r st = (Issued resp, st')"
  shows "tq_Method r = ''POST'' \<and> (\<exists>form. tq_Form r = Some form \<and>
    (if values_Get form ''grant_type'' = GRANT_TYPE_TOKEN_EXCHANGE
     then \<exists>aud ts s'. map_of (o_ExchangeTargets ep) (values_Get form ''resource'') = Some aud \<and>
       ExchangeSubjectToken (o_Exchanger ep) (o_Env ep) (te_Now E) (f_jti (te_Ids E)) (values_Get form ''subject_token'') aud (st_resolve st) =
         ((ts, None), s') \<and> tr_AccessToken resp = ts_AccessToken ts \<and> tr_RefreshToken resp = []
     else \<exists>client s secret ts. token_client ep (te_Now E) r form st client s \<and>
       dispatch_grant ep E (values_Get form ''grant_type'') client (presented_id r form) secret form (st\<lparr>st_dcr := s\<rparr>) = (Inr (ts, None), st') \<and>
       (values_Get form ''grant_type'' = GRANT_TYPE_CLIENT_CREDENTIALS \<longrightarrow> \<not> ac_Public client \<and>
          (values_Get form ''resource'' \<noteq> [] \<longrightarrow> values_Get form ''resource'' \<in> set (ac_AllowedResources client))) \<and>
       issued_for ep (te_Now E) (values_Get form ''grant_type'') (values_Get form ''resource'') ts resp))"
proof -
  from assms obtain form where f: "tq_Method r = ''POST''" "tq_Form r = Some form"
    by (auto simp: OAuth2TokenHandler_def split: if_splits option.splits)
  show ?thesis
  proof (cases "values_Get form ''grant_type'' = GRANT_TYPE_TOKEN_EXCHANGE")
    case True
    with assms f have "handleTokenExchange ep (te_Now E) (f_jti (te_Ids E)) form st = (Issued resp, st')" by (simp add: OAuth2TokenHandler_def)
    from handleTokenExchange_ok [OF this] f True show ?thesis by simp
  next
    case False
    note h = assms [unfolded OAuth2TokenHandler_def f option.case Let_def presented_id_is [unfolded Let_def, symmetric]]
    from h f False obtain client s where l: "exchange_LookupClient (o_Exchanger ep) (te_Now E) (presented_id r form) (st_dcr st) = (Inr (Some client), s)"
      by (auto split: prod.splits sum.splits option.splits)
    define secret where "secret = (if \<not> ac_Public client \<and> (case tq_Basic r of Some (_, p) \<Rightarrow> p | None \<Rightarrow> []) = []
      then values_Get form ''client_secret'' else (case tq_Basic r of Some (_, p) \<Rightarrow> p | None \<Rightarrow> []))"
    note h1 = h [unfolded l prod.case sum.case option.case secret_def [symmetric]]
    from h1 f False have c: "client_authenticates client secret"
      "ac_AllowedGrantTypes client \<noteq> [] \<longrightarrow> values_Get form ''grant_type'' \<in> set (ac_AllowedGrantTypes client)"
      "scope_within client (values_Get form ''scope'')"
      unfolding scope_test [symmetric] by (auto split: if_splits)
    have "ac_Public client \<or> presented_secret r form = ac_ClientSecret client"
      using c(1) by (auto simp: client_authenticates_def secret_def presented_secret_is Let_def split: if_splits)
    with l c have t: "token_client ep (te_Now E) r form st client s" by (simp add: token_client_def)
    obtain g where d: "dispatch_grant ep E (values_Get form ''grant_type'') client (presented_id r form) secret form (st\<lparr>st_dcr := s\<rparr>) = (g, st')"
      and a: "answer_grant ep (te_Now E) (values_Get form ''grant_type'') (values_Get form ''resource'') g = Issued resp"
      using h1 f False c scope_test [of client "values_Get form ''scope''"] by (auto split: if_splits prod.splits)
    note dg = dispatch_grant_ok [OF d, of resp]
    from answer_grant_issued [OF a] dg obtain ts where "g = Inr (ts, None)"
      "issued_for ep (te_Now E) (values_Get form ''grant_type'') (values_Get form ''resource'') ts resp" by blast
    with t d dg f False show ?thesis by auto
  qed
qed

definition demo_token_env :: "InMemoryCache token_env" where
  "demo_token_env = \<lparr>te_Now = minute, te_NowMilli = 60000, te_Ids = demo_ids, te_Idp = demo_idp, te_Poll = demo_poll\<rparr>"

definition demo_token_form :: url_values where
  "demo_token_form = [(''grant_type'', [''refresh_token'']), (''client_id'', [''app'']), (''refresh_token'', [''T''])]"

theorem token_endpoint_sound_witness:
  "\<exists>client s. token_client demo_endpoint minute \<lparr>tq_Method = ''POST'', tq_Form = Some demo_token_form, tq_Basic = None\<rparr> demo_token_form demo_stores client s"
proof -
  let ?r = "\<lparr>tq_Method = ''POST'', tq_Form = Some demo_token_form, tq_Basic = None\<rparr>"
  let ?h = "OAuth2TokenHandler demo_endpoint demo_token_env ?r demo_stores"
  have "case fst ?h of Issued _ \<Rightarrow> True | _ \<Rightarrow> False" by code_simp
  then obtain resp where "fst ?h = Issued resp" by (auto split: token_answer.splits)
  then have h: "?h = (Issued resp, snd ?h)" by (metis prod.collapse)
  have d: "values_Get demo_token_form ''grant_type'' \<noteq> GRANT_TYPE_TOKEN_EXCHANGE" "te_Now demo_token_env = minute" by code_simp+
  from token_endpoint_sound [OF h] d show ?thesis by auto
qed

end
