(* ===== verification/Browser.thy ===== *)
theory Browser
  imports OAuth2 Web "HOL-Library.Product_Lexorder"
begin

text \<open>
  Browser logins: the redirect and origin guards of \<open>src/internal/http/http.go\<close>, the login and logout posts of
  \<open>src/internal/host/login.go\<close>, and the OIDC login with its per-login cookies of
  \<open>src/internal/auth/oidc_login.go\<close> and \<open>OAuthGet\<close> of \<open>oauth2.go\<close>.

  The URL parser, the provider's code exchange and the JSON codec of the login state are parameters; the random
  values of a login are arguments. A redirect keeps the parts of its location.
\<close>

section \<open>Redirect and origin guards\<close>

record web_url =
  w_Scheme :: string
  w_Host :: string
  w_User :: bool
  w_Hostname :: string
  w_Port :: string

type_synonym web_parse = "string \<Rightarrow> web_url option"

definition SafeReturnPath :: "web_parse \<Rightarrow> string \<Rightarrow> string" where
  "SafeReturnPath up p =
     (if p = [] then ''/''
      else if \<not> HasPrefix p ''/'' then ''/''
      else if HasPrefix p ''//'' \<or> HasPrefix p [CHR ''/'', CHR 0x5C] then ''/''
      else case up p of
             None \<Rightarrow> ''/''
           | Some u \<Rightarrow> if w_Scheme u \<noteq> [] \<or> w_Host u \<noteq> [] then ''/'' else p)"

fun cut_comma :: "string \<Rightarrow> string" where
  "cut_comma [] = []"
| "cut_comma (c # s) = (if c = CHR '','' then [] else c # cut_comma s)"

definition IsSecure :: "bool \<Rightarrow> string \<Rightarrow> bool" where
  "IsSecure tls forwardedProto \<longleftrightarrow> tls \<or> forwardedProto \<noteq> [] \<and> EqualFold (TrimSpace (cut_comma forwardedProto)) ''https''"

definition domain_matches :: "web_url \<Rightarrow> string \<Rightarrow> string \<Rightarrow> bool" where
  "domain_matches u scheme d \<longleftrightarrow>
     EqualFold (w_Host u) d \<or>
     (w_Port u = [] \<or> scheme = ''https'' \<and> w_Port u = ''443'' \<or> scheme = ''http'' \<and> w_Port u = ''80'') \<and> EqualFold (w_Hostname u) d"

definition SameOrigin :: "web_parse \<Rightarrow> string \<Rightarrow> string \<Rightarrow> string list \<Rightarrow> bool" where
  "SameOrigin up raw scheme domains \<longleftrightarrow>
     (case up raw of
        None \<Rightarrow> False
      | Some u \<Rightarrow>
          if w_Scheme u = [] \<or> w_Host u = [] \<or> \<not> EqualFold (w_Scheme u) scheme then False
          else if w_User u then False
          else list_ex (domain_matches u scheme) domains)"

text \<open>\<open>domains\<close> is absent when the handler has no host yet.\<close>

definition originAllowed :: "web_parse \<Rightarrow> header \<Rightarrow> string \<Rightarrow> string list option \<Rightarrow> bool" where
  "originAllowed up h scheme domains =
     (let same = (\<lambda>raw. case domains of None \<Rightarrow> False | Some ds \<Rightarrow> SameOrigin up raw scheme ds)
      in if h_Get h ''Origin'' \<noteq> [] then same (h_Get h ''Origin'')
         else if h_Get h ''Referer'' \<noteq> [] then same (h_Get h ''Referer'')
         else True)"

definition webKitLacksFetchUser :: "string \<Rightarrow> bool" where
  "webKitLacksFetchUser ua \<longleftrightarrow> Contains ua ''AppleWebKit/'' \<and> \<not> Contains ua ''Chrome/'' \<and> \<not> Contains ua ''Chromium/''"

definition fetch_metadata_ok :: "header \<Rightarrow> bool" where
  "fetch_metadata_ok h \<longleftrightarrow>
     h_Get h ''Sec-Fetch-Site'' = [] \<or>
     h_Get h ''Sec-Fetch-Site'' = ''same-origin'' \<and> h_Get h ''Sec-Fetch-Mode'' = ''navigate'' \<and> h_Get h ''Sec-Fetch-Dest'' = ''document'' \<and>
     (case map_of h ''Sec-Fetch-User'' of
        Some user \<Rightarrow> user = [''?1'']
      | None \<Rightarrow> webKitLacksFetchUser (h_Get h ''User-Agent''))"

definition consentOriginAllowed :: "web_parse \<Rightarrow> header \<Rightarrow> string \<Rightarrow> string list \<Rightarrow> bool" where
  "consentOriginAllowed up h scheme domains =
     (if \<not> fetch_metadata_ok h then False
      else if h_Get h ''Origin'' \<noteq> [] then SameOrigin up (h_Get h ''Origin'') scheme domains
      else if h_Get h ''Referer'' \<noteq> [] then SameOrigin up (h_Get h ''Referer'') scheme domains
      else False)"

section \<open>Login and logout of a password session\<close>

datatype page =
    BadPost nat string
  | Goto nat string "(string \<times> string) list"    \<comment> \<open>status, location and the parameters set on it\<close>

definition login_cookies :: "string \<Rightarrow> TokenSet \<Rightarrow> set_cookie list" where
  "login_cookies name ts =
     \<lparr>sk_Name = name, sk_Value = ts_AccessToken ts, sk_MaxAge = 0\<rparr> #
     (if ts_RefreshToken ts \<noteq> [] then [\<lparr>sk_Name = name @ ''_refresh'', sk_Value = ts_RefreshToken ts, sk_MaxAge = 0\<rparr>] else [])"

definition LoginPost ::
  "'s exchange \<Rightarrow> login_env \<Rightarrow> web_parse \<Rightarrow> string \<Rightarrow> instant \<Rightarrow> int \<Rightarrow> fresh_ids \<Rightarrow> bool \<Rightarrow> url_values option \<Rightarrow> 's stores \<Rightarrow>
   (page \<times> set_cookie list \<times> event_calls \<times> event_calls) \<times> 's stores" where
  "LoginPost x V up cookieName now nowMilli F sameOrigin form st =
     (if \<not> sameOrigin then ((BadPost 403 ''cross-origin request rejected'', [], [], []), st)
      else case form of
             None \<Rightarrow> ((BadPost 400 ''failed to parse form'', [], [], []), st)
           | Some q \<Rightarrow>
               (let returnURL = SafeReturnPath up (values_Get q ''return'')
                in case LoginLocal x V now nowMilli F (values_Get q ''username'') (values_Get q ''password'') [] [] AuthMethodLocal st of
                     ((ts, Some e, gate, notes), st1) \<Rightarrow>
                       ((Goto 303 ''/-/login'' [(''error'', ''invalid_credentials''), (''return'', returnURL)], [], gate, notes), st1)
                   | ((ts, None, gate, notes), st1) \<Rightarrow> ((Goto 303 returnURL [], login_cookies cookieName ts, gate, notes), st1)))"

text \<open>What a logout reads of the provider and the browser: the end-session URL, the stored ID token, whether the
  URL parses, and this host's address.\<close>

record logout_env =
  lo_EndSession :: "goerror + string"
  lo_IDToken :: "goerror + string"
  lo_Parse :: "string \<Rightarrow> goerror option"
  lo_Home :: string

definition logout_page :: "logout_env \<Rightarrow> page" where
  "logout_page L =
     (case lo_EndSession L of
        Inl e \<Rightarrow> BadPost 500 (err_msg e)
      | Inr url \<Rightarrow>
          if url = [] then Goto 302 ''/'' []
          else case lo_IDToken L of
                 Inl e \<Rightarrow> BadPost 500 (err_msg e)
               | Inr idToken \<Rightarrow>
                   (case lo_Parse L url of
                      Some e \<Rightarrow> BadPost 500 (err_msg e)
                    | None \<Rightarrow> Goto 302 url [(''id_token_hint'', idToken), (''post_logout_redirect_uri'', lo_Home L)]))"

definition logout_cookies :: "string \<Rightarrow> set_cookie list" where
  "logout_cookies name =
     [\<lparr>sk_Name = name, sk_Value = [], sk_MaxAge = -1\<rparr>, \<lparr>sk_Name = name @ ''_refresh'', sk_Value = [], sk_MaxAge = -1\<rparr>]"

definition LogoutPost ::
  "'s exchange \<Rightarrow> logout_env \<Rightarrow> string \<Rightarrow> instant \<Rightarrow> int \<Rightarrow> bool \<Rightarrow> string gomap \<Rightarrow> 's stores \<Rightarrow>
   (page \<times> set_cookie list \<times> event_calls \<times> event_calls) \<times> 's stores" where
  "LogoutPost x L cookieName now nowMilli sameOrigin jar st =
     (if \<not> sameOrigin then ((BadPost 403 ''cross-origin request rejected'', [], [], []), st)
      else let tokenID = (case map_of jar (cookieName @ ''_refresh'') of None \<Rightarrow> [] | Some v \<Rightarrow> v);
               ((barrier, async), s1) = EmitLogout x now nowMilli tokenID (st_refresh st);
               st1 = st\<lparr>st_refresh := s1\<rparr>;
               st2 = (if tokenID \<noteq> [] then snd (RevokeRefreshToken x now tokenID st1) else st1)
           in ((logout_page L, logout_cookies cookieName, barrier, async), st2))"

section \<open>The OIDC login\<close>

definition OAuthLoginPath :: string where "OAuthLoginPath = ''/-/oauth/login''"
definition loginStateCookieInfix :: string where "loginStateCookieInfix = ''_oidc_''"
definition loginStateTTL :: duration where "loginStateTTL = 10 * minute"
definition maxLoginsInFlight :: nat where "maxLoginsInFlight = 3"
definition maxLoginStateCookieBytes :: nat where "maxLoginStateCookieBytes = 2048"
definition upstreamPromptValues :: "string list" where "upstreamPromptValues = [''login'', ''consent'', ''select_account'']"

record loginState =
  ls_State :: string
  ls_Return :: string
  ls_Verifier :: string
  ls_Nonce :: string
  ls_Exp :: int

record oidc_lib =
  oi_Parse :: web_parse
  oi_Marshal :: "loginState \<Rightarrow> goerror + string"
  oi_Unmarshal :: "string \<Rightarrow> goerror + loginState"
  oi_RedirectURL :: string
  oi_Prompt :: "string list"
  oi_AuthURL :: string
  oi_S256 :: "string \<Rightarrow> string"
  oi_ExchangeCode :: "string \<Rightarrow> string \<Rightarrow> goerror + OIDCExchange"

definition joinPrompt :: "string list \<Rightarrow> string \<Rightarrow> string" where
  "joinPrompt configured requested =
     Join (fold (\<lambda>p joined. if p \<in> set upstreamPromptValues \<and> p \<notin> set joined then joined @ [p] else joined) (Fields requested) configured) '' ''"

definition OIDCLoginURL :: "string \<Rightarrow> string \<Rightarrow> string \<Rightarrow> page" where
  "OIDCLoginURL returnPath prompt loginHint =
     Goto 302 OAuthLoginPath
       ((''return'', returnPath) # (if prompt \<noteq> [] then [(''prompt'', prompt)] else []) @ (if loginHint \<noteq> [] then [(''login_hint'', loginHint)] else []))"

definition loginStateCookiePrefix :: "string \<Rightarrow> string" where
  "loginStateCookiePrefix cookieName = cookieName @ loginStateCookieInfix"

definition loginStateCookie :: "string \<Rightarrow> string \<Rightarrow> int \<Rightarrow> set_cookie" where
  "loginStateCookie name v maxAge = \<lparr>sk_Name = name, sk_Value = v, sk_MaxAge = maxAge\<rparr>"

definition openLoginState :: "'s OAuth2 \<Rightarrow> oidc_lib \<Rightarrow> string \<Rightarrow> goerror + loginState" where
  "openLoginState ep D sealed = openJSON ep sealPurposeLoginState (oi_Unmarshal D) sealed"

definition sealLoginState :: "'s OAuth2 \<Rightarrow> oidc_lib \<Rightarrow> loginState \<Rightarrow> goerror + string" where
  "sealLoginState ep D ls = sealJSON ep sealPurposeLoginState (oi_Marshal D) ls"

definition held_exp :: "'s OAuth2 \<Rightarrow> oidc_lib \<Rightarrow> string \<Rightarrow> int" where
  "held_exp ep D v = (case openLoginState ep D v of Inl _ \<Rightarrow> 0 | Inr ls \<Rightarrow> ls_Exp ls)"

text \<open>The oldest first: by expiry, then by name.\<close>

definition expireOldestLogins :: "'s OAuth2 \<Rightarrow> oidc_lib \<Rightarrow> string \<Rightarrow> string gomap \<Rightarrow> set_cookie list" where
  "expireOldestLogins ep D cookieName jar =
     (let logins = map (\<lambda>(n, v). (n, held_exp ep D v)) (filter (\<lambda>(n, v). HasPrefix n (loginStateCookiePrefix cookieName)) jar);
          excess = int (length logins) - (int maxLoginsInFlight - 1)
      in if excess \<le> 0 then []
         else map (\<lambda>(n, e). loginStateCookie n [] (-1)) (take (nat excess) (sort_key (\<lambda>(n, e). (e, n)) logins)))"

text \<open>The random values of one login.\<close>

record login_random =
  lr_State :: string
  lr_Verifier :: string
  lr_Nonce :: string

definition new_login :: "oidc_lib \<Rightarrow> instant \<Rightarrow> login_random \<Rightarrow> url_values \<Rightarrow> loginState" where
  "new_login D now R q =
     \<lparr>ls_State = lr_State R, ls_Return = SafeReturnPath (oi_Parse D) (values_Get q ''return''), ls_Verifier = lr_Verifier R,
      ls_Nonce = lr_Nonce R, ls_Exp = Unix (now + loginStateTTL)\<rparr>"

definition AuthCodeURL :: "oidc_lib \<Rightarrow> loginState \<Rightarrow> string \<Rightarrow> string \<Rightarrow> page" where
  "AuthCodeURL D ls prompt loginHint =
     Goto 302 (oi_AuthURL D)
       ((''state'', ls_State ls) #
        (if ls_Verifier ls \<noteq> [] then [(''code_challenge'', oi_S256 D (ls_Verifier ls))] else []) @
        (if ls_Nonce ls \<noteq> [] then [(''nonce'', ls_Nonce ls)] else []) @
        (let p = joinPrompt (oi_Prompt D) prompt in if p \<noteq> [] then [(''prompt'', p)] else []) @
        (if loginHint \<noteq> [] then [(''login_hint'', loginHint)] else []))"

text \<open>A start on another host than the callback's is first moved there; otherwise the login is minted. The last
  component is the login the provider is asked for.\<close>

definition OAuthLoginGet ::
  "'s OAuth2 \<Rightarrow> oidc_lib \<Rightarrow> string \<Rightarrow> instant \<Rightarrow> login_random \<Rightarrow> string \<Rightarrow> string \<Rightarrow> string gomap \<Rightarrow> page \<times> set_cookie list \<times> loginState option" where
  "OAuthLoginGet ep D cookieName now R host rawQuery jar =
     (let q = ol_ParseQuery (o_Lib ep) rawQuery;
          moved = (case oi_Parse D (oi_RedirectURL D) of
                     None \<Rightarrow> None
                   | Some cb \<Rightarrow> if w_Host cb \<noteq> [] \<and> \<not> SameOrigin (oi_Parse D) (w_Scheme cb @ ''://'' @ host) (w_Scheme cb) [w_Host cb] then Some cb else None)
      in case moved of
           Some cb \<Rightarrow> (Goto 302 (w_Scheme cb @ ''://'' @ w_Host cb @ OAuthLoginPath @ (if rawQuery = [] then [] else ''?'' @ rawQuery)) [], [], None)
         | None \<Rightarrow>
             (let ls = new_login D now R q; name = loginStateCookiePrefix cookieName @ ls_State ls
              in case sealLoginState ep D ls of
                   Inl _ \<Rightarrow> (BadPost 500 ''Internal Server Error'', [], None)
                 | Inr sealed \<Rightarrow>
                     if length name + length sealed > maxLoginStateCookieBytes then (BadPost 400 ''sign-in request too long'', [], None)
                     else (AuthCodeURL D ls (values_Get q ''prompt'') (values_Get q ''login_hint''),
                           expireOldestLogins ep D cookieName jar @ [loginStateCookie name sealed (whole_seconds loginStateTTL)], Some ls)))"

definition errLoginNotBound :: goerror where
  "errLoginNotBound = wrapf [ErrLoginNotBound] ''login was not started from this browser''"

definition consumeLoginState ::
  "'s OAuth2 \<Rightarrow> oidc_lib \<Rightarrow> string \<Rightarrow> instant \<Rightarrow> string gomap \<Rightarrow> string \<Rightarrow> (goerror + loginState) \<times> set_cookie list" where
  "consumeLoginState ep D cookieName now jar state =
     (if state = [] then (Inl errLoginNotBound, [])
      else let name = loginStateCookiePrefix cookieName @ state
           in case map_of jar name of
                None \<Rightarrow> (Inl errLoginNotBound, [])
              | Some v \<Rightarrow>
                  (case openLoginState ep D v of
                     Inl e \<Rightarrow> Inl (wrapf [ErrLoginNotBound] (err_msg errLoginNotBound @ '': '' @ err_msg e))
                   | Inr ls \<Rightarrow>
                       if ls_State ls \<noteq> state
                       then Inl (wrapf [ErrLoginNotBound] (err_msg errLoginNotBound @ '': state does not match its cookie''))
                       else if Unix now > ls_Exp ls then Inl (wrapf [ErrLoginNotBound] (err_msg errLoginNotBound @ '': login expired''))
                       else Inr ls, [loginStateCookie name [] (-1)]))"

text \<open>\<open>setHint\<close> is the configured ID token store.\<close>

definition OAuthGet ::
  "'s OAuth2 \<Rightarrow> oidc_lib \<Rightarrow> string \<Rightarrow> instant \<Rightarrow> int \<Rightarrow> fresh_ids \<Rightarrow> (string \<Rightarrow> goerror + set_cookie list) \<Rightarrow> url_values \<Rightarrow> string gomap \<Rightarrow> 's stores \<Rightarrow>
   (page \<times> set_cookie list) \<times> 's stores" where
  "OAuthGet ep D cookieName now nowMilli F setHint q jar st =
     (let unbound = ''Login was not started from this browser; please sign in again''
      in if values_Get q ''code'' = [] then ((BadPost 400 ''No code in request'', []), st)
         else case consumeLoginState ep D cookieName now jar (values_Get q ''state'') of
                (Inl _, cs) \<Rightarrow> ((BadPost 400 unbound, cs), st)
              | (Inr login, cs) \<Rightarrow>
                  (case oi_ExchangeCode D (values_Get q ''code'') (ls_Verifier login) of
                     Inl _ \<Rightarrow> ((BadPost 401 ''Failed to exchange token'', cs), st)
                   | Inr tokens \<Rightarrow>
                       if CheckIDTokenNonce (o_Env ep) (oe_RawIDToken tokens) (ls_Nonce login) \<noteq> None then ((BadPost 400 unbound, cs), st)
                       else (case ExchangeToken (o_Exchanger ep) (o_Env ep) now nowMilli F tokens st of
                               ((_, Some _, _), st1) \<Rightarrow> ((BadPost 401 ''Failed to exchange for local token'', cs), st1)
                             | ((ts, None, _), st1) \<Rightarrow>
                                 (case setHint (oe_RawIDToken tokens) of
                                    Inl _ \<Rightarrow> ((BadPost 500 ''Failed to store session hint'', cs), st1)
                                  | Inr hint \<Rightarrow> ((Goto 303 (ls_Return login) [], cs @ hint @ login_cookies cookieName ts), st1)))))"

section \<open>Staying on this origin\<close>

text \<open>How a browser reads a location: it drops tabs and line breaks, trims controls and spaces, and takes a backslash
  for a slash. A location stays when what is left is a path and no authority.\<close>

definition browser_text :: "string \<Rightarrow> string" where
  "browser_text p =
     (let edge = (\<lambda>c. (of_char c :: nat) \<le> 32)
      in filter (\<lambda>c. c \<notin> {CHR 0x09, CHR 0x0A, CHR 0x0D}) (rev (dropWhile edge (rev (dropWhile edge p)))))"

definition stays_here :: "string \<Rightarrow> bool" where
  "stays_here p \<longleftrightarrow>
     (case browser_text p of
        c # d # _ \<Rightarrow> c = CHR ''/'' \<and> d \<noteq> CHR ''/'' \<and> d \<noteq> CHR 0x5C
      | [c] \<Rightarrow> c = CHR ''/''
      | [] \<Rightarrow> False)"

text \<open>\<open>url.Parse\<close> refuses control bytes.\<close>

definition parse_law :: "web_parse \<Rightarrow> bool" where
  "parse_law up \<longleftrightarrow> (\<forall>p u c. up p = Some u \<longrightarrow> c \<in> set p \<longrightarrow> 32 \<le> (of_char c :: nat))"

lemma browser_text_slash:
  assumes "\<And>c. c \<in> set r \<Longrightarrow> 32 \<le> (of_char c :: nat)"
  shows "\<exists>k. browser_text (CHR ''/'' # r) = CHR ''/'' # take k r"
proof -
  let ?edge = "\<lambda>c. (of_char c :: nat) \<le> 32"
  have h: "dropWhile ?edge (CHR ''/'' # r) = CHR ''/'' # r" by simp
  have "\<exists>k. rev (dropWhile ?edge (rev (CHR ''/'' # r))) = CHR ''/'' # take k r"
  proof (induction r rule: rev_induct)
    case (snoc c r)
    then obtain k where "rev (dropWhile ?edge (rev (CHR ''/'' # r))) = CHR ''/'' # take k r" by blast
    moreover have "take k r = take (min k (length r)) (r @ [c])" by (simp add: min_def)
    ultimately show ?case
      by (cases "?edge c") (auto intro: exI [of _ "min k (length r)"] exI [of _ "Suc (length r)"])
  qed (auto intro: exI [of _ 0])
  then obtain k where k: "rev (dropWhile ?edge (rev (CHR ''/'' # r))) = CHR ''/'' # take k r" by blast
  have "c \<notin> {CHR 0x09, CHR 0x0A, CHR 0x0D}" if "c \<in> set (CHR ''/'' # take k r)" for c
    using that assms [of c] by (auto dest: in_set_takeD)
  then have "filter (\<lambda>c. c \<notin> {CHR 0x09, CHR 0x0A, CHR 0x0D}) (CHR ''/'' # take k r) = CHR ''/'' # take k r"
    by (intro filter_True) blast
  then show ?thesis unfolding browser_text_def Let_def h k by blast
qed

lemma SafeReturnPath_shape:
  assumes "parse_law up"
  shows "\<exists>r. SafeReturnPath up p = CHR ''/'' # r \<and> (\<forall>c \<in> set r. 32 \<le> (of_char c :: nat)) \<and> (r = [] \<or> hd r \<noteq> CHR ''/'' \<and> hd r \<noteq> CHR 0x5C)"
proof (cases "SafeReturnPath up p = ''/''")
  case False
  then obtain u where u: "up p = Some u" and s: "SafeReturnPath up p = p" "HasPrefix p ''/''" "\<not> HasPrefix p ''//''" "\<not> HasPrefix p [CHR ''/'', CHR 0x5C]"
    by (auto simp: SafeReturnPath_def split: if_splits option.splits)
  from s(2) obtain r where p: "p = CHR ''/'' # r" by (auto simp: HasPrefix_iff)
  have "r = [] \<or> hd r \<noteq> CHR ''/'' \<and> hd r \<noteq> CHR 0x5C"
    using s(3,4) by (cases r) (auto simp: p HasPrefix_def)
  moreover have "\<forall>c \<in> set r. 32 \<le> (of_char c :: nat)" using assms u by (auto simp: parse_law_def p)
  ultimately show ?thesis using s(1) p by auto
qed auto

lemma SafeReturnPath_stays:
  assumes "parse_law up"
  shows "stays_here (SafeReturnPath up p)"
proof -
  from SafeReturnPath_shape [OF assms, of p] obtain r where
    r: "SafeReturnPath up p = CHR ''/'' # r" "\<forall>c \<in> set r. 32 \<le> (of_char c :: nat)" "r = [] \<or> hd r \<noteq> CHR ''/'' \<and> hd r \<noteq> CHR 0x5C" by blast
  obtain k where k: "browser_text (CHR ''/'' # r) = CHR ''/'' # take k r" using browser_text_slash r(2) by blast
  have "take k r = [] \<or> hd (take k r) \<noteq> CHR ''/'' \<and> hd (take k r) \<noteq> CHR 0x5C"
    using r(3) by (cases k; cases r) auto
  then show ?thesis unfolding stays_here_def r(1) k by (cases "take k r") auto
qed

section \<open>The login cookies\<close>

definition login_names :: "string \<Rightarrow> string gomap \<Rightarrow> string set" where
  "login_names cookieName jar = {n \<in> fst ` set jar. HasPrefix n (loginStateCookiePrefix cookieName)}"

lemma keys_receive_deletes:
  "fst ` set (receive (map (\<lambda>(n, e). loginStateCookie n [] (-1)) ns) jar) = fst ` set jar - fst ` set ns"
proof (induction ns arbitrary: jar)
  case (Cons x ns)
  obtain n e where "x = (n, e)" by (cases x)
  moreover have "fst ` set (AList.delete n jar) = fst ` set jar - {n}" by (auto simp: AList.delete_eq image_iff)
  ultimately show ?case using Cons by (auto simp: receive_one_def loginStateCookie_def)
qed simp

lemma finite_login_names [simp]: "finite (login_names c jar)"
  by (simp add: login_names_def)

lemma expire_leaves:
  assumes "distinct (map fst jar)"
  shows "card (login_names c (receive (expireOldestLogins ep D c jar) jar)) \<le> maxLoginsInFlight - 1"
proof -
  let ?P = "\<lambda>(n, v). HasPrefix n (loginStateCookiePrefix c)"
  define logins where "logins = map (\<lambda>(n, v). (n, held_exp ep D v)) (filter ?P jar)"
  define sorted where "sorted = sort_key (\<lambda>(n, e). (e, n)) logins"
  let ?ex = "int (length logins) - (int maxLoginsInFlight - 1)"
  have names: "login_names c jar = fst ` set logins" by (force simp: login_names_def logins_def)
  have "map fst logins = map fst (filter ?P jar)" by (auto simp: logins_def)
  then have d: "distinct (map fst logins)" using assms by (simp add: distinct_map_filter)
  then have card: "card (login_names c jar) = length logins" by (metis names set_map distinct_card length_map)
  have e: "expireOldestLogins ep D c jar = (if ?ex \<le> 0 then [] else map (\<lambda>(n, e). loginStateCookie n [] (-1)) (take (nat ?ex) sorted))"
    by (simp add: expireOldestLogins_def logins_def sorted_def Let_def)
  show ?thesis
  proof (cases "?ex \<le> 0")
    case True
    then show ?thesis using card by (simp add: e maxLoginsInFlight_def)
  next
    case False
    have "distinct (map fst sorted)" using d unfolding sorted_def by (simp add: distinct_map distinct_sort)
    then have dt: "distinct (map fst (take (nat ?ex) sorted))" by (simp add: take_map [symmetric])
    have "length (take (nat ?ex) sorted) = nat ?ex" using False by (simp add: sorted_def maxLoginsInFlight_def)
    then have ct: "card (fst ` set (take (nat ?ex) sorted)) = nat ?ex" using dt by (metis set_map distinct_card length_map)
    have sub: "fst ` set (take (nat ?ex) sorted) \<subseteq> login_names c jar"
      unfolding names by (auto dest!: in_set_takeD simp: sorted_def image_iff)
    have "login_names c (receive (expireOldestLogins ep D c jar) jar) = login_names c jar - fst ` set (take (nat ?ex) sorted)"
      using False by (auto simp: e keys_receive_deletes login_names_def)
    then have "card (login_names c (receive (expireOldestLogins ep D c jar) jar)) = length logins - nat ?ex"
      using card ct sub by (simp add: card_Diff_subset finite_subset)
    then show ?thesis using False by (simp add: maxLoginsInFlight_def)
  qed
qed

lemma login_names_update:
  "login_names c (receive_one (loginStateCookie name v age) jar) \<subseteq> insert name (login_names c jar)"
  by (auto simp: login_names_def receive_one_def loginStateCookie_def AList.delete_eq dom_update)

text \<open>What a start answers when it asks the provider.\<close>

lemma OAuthLoginGet_started:
  assumes "OAuthLoginGet ep D c now R host rawQuery jar = (page, cs, Some ls)"
  shows "ls = new_login D now R (ol_ParseQuery (o_Lib ep) rawQuery) \<and>
    (\<exists>sealed. sealLoginState ep D ls = Inr sealed \<and>
       length (loginStateCookiePrefix c @ ls_State ls) + length sealed \<le> maxLoginStateCookieBytes \<and>
       cs = expireOldestLogins ep D c jar @ [loginStateCookie (loginStateCookiePrefix c @ ls_State ls) sealed (whole_seconds loginStateTTL)])"
  using assms by (auto simp: OAuthLoginGet_def Let_def split: option.splits if_splits sum.splits)

definition login_lib_law :: "'s OAuth2 \<Rightarrow> oidc_lib \<Rightarrow> bool" where
  "login_lib_law ep D \<longleftrightarrow> jose_law (o_Jose ep) \<and> parse_law (oi_Parse D) \<and>
     (\<forall>ls p. oi_Marshal D ls = Inr p \<longrightarrow> oi_Unmarshal D p = Inr ls)"

lemma login_state_opens:
  assumes "login_lib_law ep D" and "sealLoginState ep D ls = Inr sealed"
  shows "openLoginState ep D sealed = Inr ls"
  using assms
  by (auto simp: login_lib_law_def jose_law_def sealLoginState_def openLoginState_def sealJSON_def openJSON_def seal_def open_sealed_def bindE_Inr_iff)

text \<open>C15: an OIDC login that a browser starts is the one its callback finishes. After the cookies of a start the
  browser holds at most \<open>maxLoginsInFlight\<close> login cookies, and until the login expires the callback's state
  finds exactly the login that was minted: its verifier, its nonce and a return path that stays on this origin. The
  same state is refused a second time.\<close>

theorem oidc_login_completes:
  assumes law: "login_lib_law ep D" and jar: "distinct (map fst jar)"
    and start: "OAuthLoginGet ep D c now R host rawQuery jar = (page, cs, Some ls)"
    and t: "ls_State ls \<noteq> []" "Unix t \<le> ls_Exp ls"
  shows "card (login_names c (receive cs jar)) \<le> maxLoginsInFlight \<and>
    (\<exists>cs'. consumeLoginState ep D c t (receive cs jar) (ls_State ls) = (Inr ls, cs') \<and>
       consumeLoginState ep D c t' (receive cs' (receive cs jar)) (ls_State ls) = (Inl errLoginNotBound, [])) \<and>
    ls_Verifier ls = lr_Verifier R \<and> ls_Nonce ls = lr_Nonce R \<and> stays_here (ls_Return ls)"
proof -
  let ?name = "loginStateCookiePrefix c @ ls_State ls" and ?jar = "receive (expireOldestLogins ep D c jar) jar"
  from OAuthLoginGet_started [OF start] obtain sealed where ls: "ls = new_login D now R (ol_ParseQuery (o_Lib ep) rawQuery)"
    and s: "sealLoginState ep D ls = Inr sealed"
    and cs: "cs = expireOldestLogins ep D c jar @ [loginStateCookie ?name sealed (whole_seconds loginStateTTL)]" by blast
  have "card (login_names c (receive cs jar)) \<le> card (insert ?name (login_names c ?jar))"
    unfolding cs receive_simps by (intro card_mono login_names_update) simp
  also have "\<dots> \<le> Suc (card (login_names c ?jar))" by (rule card_insert_le_m1) simp_all
  also have "\<dots> \<le> maxLoginsInFlight" using expire_leaves [OF jar, of c ep D] by (simp add: maxLoginsInFlight_def)
  finally have bound: "card (login_names c (receive cs jar)) \<le> maxLoginsInFlight" .
  have "0 \<le> whole_seconds loginStateTTL" by (rule whole_seconds_nonneg) (simp add: loginStateTTL_def)
  then have m: "map_of (receive cs jar) ?name = Some sealed" by (simp add: cs map_of_receive_one loginStateCookie_def)
  have "consumeLoginState ep D c t (receive cs jar) (ls_State ls) = (Inr ls, [loginStateCookie ?name [] (-1)])"
    using t m login_state_opens [OF law s] by (simp add: consumeLoginState_def)
  moreover have "map_of (receive [loginStateCookie ?name [] (-1)] (receive cs jar)) ?name = None"
    by (simp add: map_of_receive_one loginStateCookie_def)
  then have "consumeLoginState ep D c t' (receive [loginStateCookie ?name [] (-1)] (receive cs jar)) (ls_State ls) = (Inl errLoginNotBound, [])"
    by (simp add: consumeLoginState_def)
  moreover have "stays_here (ls_Return ls)"
    using law SafeReturnPath_stays by (simp add: ls new_login_def login_lib_law_def)
  ultimately show ?thesis using bound by (simp add: ls new_login_def)
qed

text \<open>C14: a code from the provider signs a browser in only if that browser holds the cookie of a login with the
  callback's state, unexpired, the code was exchanged with that login's verifier, the ID token carries its nonce, and
  the exchange for a session of this host succeeded. The login's cookie is cleared and the browser goes to the path
  the login was started with.\<close>

theorem oidc_login_bound:
  assumes "OAuthGet ep D c now nowMilli F setHint q jar st = ((Goto n loc ps, cs), st')"
  shows "\<exists>v login tokens ts gn. map_of jar (loginStateCookiePrefix c @ values_Get q ''state'') = Some v \<and>
    openLoginState ep D v = Inr login \<and> ls_State login = values_Get q ''state'' \<and> values_Get q ''state'' \<noteq> [] \<and> Unix now \<le> ls_Exp login \<and>
    oi_ExchangeCode D (values_Get q ''code'') (ls_Verifier login) = Inr tokens \<and>
    CheckIDTokenNonce (o_Env ep) (oe_RawIDToken tokens) (ls_Nonce login) = None \<and>
    ExchangeToken (o_Exchanger ep) (o_Env ep) now nowMilli F tokens st = ((ts, None, gn), st') \<and>
    loc = ls_Return login \<and> hd cs = loginStateCookie (loginStateCookiePrefix c @ values_Get q ''state'') [] (-1) \<and>
    set (login_cookies c ts) \<subseteq> set cs"
proof -
  from assms obtain login cs0 where c: "consumeLoginState ep D c now jar (values_Get q ''state'') = (Inr login, cs0)"
    by (auto simp: OAuthGet_def Let_def split: if_splits prod.splits sum.splits)
  then obtain v where v: "map_of jar (loginStateCookiePrefix c @ values_Get q ''state'') = Some v" "openLoginState ep D v = Inr login"
    "ls_State login = values_Get q ''state''" "values_Get q ''state'' \<noteq> []" "Unix now \<le> ls_Exp login"
    "cs0 = [loginStateCookie (loginStateCookiePrefix c @ values_Get q ''state'') [] (-1)]"
    by (auto simp: consumeLoginState_def Let_def split: if_splits option.splits sum.splits)
  from assms c obtain tokens where t: "oi_ExchangeCode D (values_Get q ''code'') (ls_Verifier login) = Inr tokens"
    "CheckIDTokenNonce (o_Env ep) (oe_RawIDToken tokens) (ls_Nonce login) = None"
    by (auto simp: OAuthGet_def Let_def split: if_splits sum.splits)
  from assms c t obtain ts gn st1 where x: "ExchangeToken (o_Exchanger ep) (o_Env ep) now nowMilli F tokens st = ((ts, None, gn), st1)"
    by (auto simp: OAuthGet_def Let_def split: if_splits prod.splits option.splits)
  from assms c t x obtain hint where "loc = ls_Return login" "cs = cs0 @ hint @ login_cookies c ts" "st1 = st'"
    by (auto simp: OAuthGet_def Let_def split: if_splits sum.splits)
  with v t x show ?thesis by (intro exI [of _ v] exI [of _ login] exI [of _ tokens] exI [of _ ts] exI [of _ gn]) auto
qed

section \<open>Logout\<close>

lemma lookupRefreshClaims_store:
  assumes "x_ops x = mem_ops" and "surviving s" and "lookupRefreshClaims x now tokenID s = (r, s')"
  shows "surviving s' \<and> (\<forall>t k. cache_view t s' k = cache_view t s k)"
proof (cases "x_cached x")
  case True
  then have "s' = snd (op_Get (x_ops x) now tokenID s)" using assms(3)
    by (cases "op_Get (x_ops x) now tokenID s") (auto simp: lookupRefreshClaims_def split: sum.splits bool.splits prod.splits)
  then show ?thesis using assms(1) mem.get_inv [OF assms(2)] mem.get_view [OF assms(2)] by metis
next
  case False
  then show ?thesis using assms by (simp add: lookupRefreshClaims_def)
qed

lemma revoke_refresh:
  assumes "x_cached x"
  shows "st_refresh (snd (RevokeRefreshToken x now tokenID st)) =
    snd (op_Set (x_ops x) now (refreshRevokeTombstoneKey tokenID) ''1'' [WithTTL refreshRevokeTombstoneTTL]
      (snd (op_GetAndDelete (x_ops x) now tokenID (st_refresh st))))"
  using assms by (cases "op_GetAndDelete (x_ops x) now tokenID (st_refresh st)") (simp add: RevokeRefreshToken_def Let_def)

lemma revoke_store:
  assumes "x_ops x = mem_ops" and "x_cached x" and "surviving (st_refresh st)" and "cache_view now (st_refresh st) tokenID \<noteq> None"
  shows "cache_view t (st_refresh (snd (RevokeRefreshToken x now tokenID st))) tokenID = None \<and>
    (t \<le> mem_deadline now [WithTTL refreshRevokeTombstoneTTL] (snd (op_GetAndDelete mem_ops now tokenID (st_refresh st))) \<longrightarrow>
      cache_view t (st_refresh (snd (RevokeRefreshToken x now tokenID st))) (refreshRevokeTombstoneKey tokenID) = Some ''1'')"
proof -
  note r = revoke_refresh [OF assms(2), of now tokenID st, unfolded assms(1)]
  have i: "surviving (snd (op_GetAndDelete mem_ops now tokenID (st_refresh st)))" by (rule mem.take_inv [OF assms(3)])
  have "cache_view t (snd (op_GetAndDelete mem_ops now tokenID (st_refresh st))) tokenID = None"
    by (rule mem.take_self [OF assms(3,4)])
  then have "cache_view t (st_refresh (snd (RevokeRefreshToken x now tokenID st))) tokenID = None"
    unfolding r using mem.set_other_le [OF i tombstone_key_differs(2)] by metis
  then show ?thesis unfolding r using mem.set_self [OF i] by simp
qed

text \<open>A logout from this host's own page ends the session. The refresh token of the browser's cookie is gone
  from the store at every time, its tombstone stands, so that no redemption in flight restores it, both session
  cookies are cleared, and every subscribed hook is told of the session's subject. A logout from another origin
  changes nothing.\<close>

theorem logout_ends_session:
  assumes "x_ops x = mem_ops" and "x_cached x" and "surviving (st_refresh st)"
    and "map_of jar (cookieName @ ''_refresh'') = Some tokenID" and "tokenID \<noteq> []" and "cache_view now (st_refresh st) tokenID \<noteq> None"
    and "LogoutPost x L cookieName now nowMilli True jar st = ((page, cs, barrier, async), st')"
  shows "cache_view t (st_refresh st') tokenID = None \<and>
    (\<exists>s2. st_refresh st' = snd (op_Set mem_ops now (refreshRevokeTombstoneKey tokenID) ''1'' [WithTTL refreshRevokeTombstoneTTL] s2) \<and>
       (t \<le> mem_deadline now [WithTTL refreshRevokeTombstoneTTL] s2 \<longrightarrow>
          cache_view t (st_refresh st') (refreshRevokeTombstoneKey tokenID) = Some ''1'')) \<and>
    map_of (receive cs jar) cookieName = None \<and> map_of (receive cs jar) (cookieName @ ''_refresh'') = None \<and>
    (barrier, async) = fst (EmitLogout x now nowMilli tokenID (st_refresh st)) \<and>
    LogoutPost x L cookieName now nowMilli False jar st = ((BadPost 403 ''cross-origin request rejected'', [], [], []), st)"
proof -
  obtain hooks s1 where e: "EmitLogout x now nowMilli tokenID (st_refresh st) = (hooks, s1)" by (rule prod.exhaust)
  obtain found s1' where f: "lookupRefreshClaims x now tokenID (st_refresh st) = (found, s1')" by (rule prod.exhaust)
  then have "s1' = s1" using e assms(5) by (simp add: EmitLogout_def Let_def)
  with lookupRefreshClaims_store [OF assms(1,3) f] have s1: "surviving s1" "cache_view now s1 tokenID \<noteq> None" using assms(6) by simp_all
  let ?st1 = "st\<lparr>st_refresh := s1\<rparr>"
  have st': "st' = snd (RevokeRefreshToken x now tokenID ?st1)" "cs = logout_cookies cookieName" "hooks = (barrier, async)"
    using assms(4,5,7) e by (auto simp: LogoutPost_def Let_def split: prod.splits)
  have "surviving (st_refresh ?st1)" "cache_view now (st_refresh ?st1) tokenID \<noteq> None" using s1 by simp_all
  note v = revoke_store [OF assms(1,2) this, of t]
  note r = revoke_refresh [OF assms(2), of now tokenID ?st1, unfolded assms(1)]
  show ?thesis
    using v r e unfolding st'(1,2) st'(3) [symmetric]
    by (auto simp: logout_cookies_def map_of_receive_one LogoutPost_def)
qed

section \<open>A concrete browser\<close>

definition demo_login :: loginState where
  "demo_login = \<lparr>ls_State = ''S'', ls_Return = ''/home'', ls_Verifier = ''V'', ls_Nonce = ''N'', ls_Exp = 660\<rparr>"

definition demo_oidc :: oidc_lib where
  "demo_oidc =
     \<lparr>oi_Parse = (\<lambda>p. if list_all (\<lambda>c. 32 \<le> (of_char c :: nat)) p
                    then Some \<lparr>w_Scheme = [], w_Host = [], w_User = False, w_Hostname = [], w_Port = []\<rparr> else None),
      oi_Marshal = (\<lambda>ls. if ls = demo_login then Inr ''L'' else Inl (errorf ''json'')),
      oi_Unmarshal = (\<lambda>p. if p = ''L'' then Inr demo_login else Inl (errorf ''json'')),
      oi_RedirectURL = [], oi_Prompt = [], oi_AuthURL = ''https://idp'', oi_S256 = (\<lambda>s. s),
      oi_ExchangeCode = (\<lambda>code v. if v = ''V'' then Inr \<lparr>oe_RawIDToken = ''id'', oe_UpstreamRefreshToken = []\<rparr> else Inl (errorf ''bad verifier''))\<rparr>"

definition demo_oidc_endpoint :: "InMemoryCache OAuth2" where
  "demo_oidc_endpoint = demo_endpoint\<lparr>
     o_Env := demo_logins\<lparr>le_OIDC := True, le_VerifyID := (\<lambda>_. Inr (''N'', Inr [(''sub'', VStr ''alice'')]))\<rparr>,
     o_Lib := demo_oauth_lib\<lparr>ol_ParseQuery := (\<lambda>_. [(''return'', [''/home''])])\<rparr>,
     o_Exchanger := demo_exchange\<lparr>x_cached := False\<rparr>\<rparr>"

definition demo_random :: login_random where
  "demo_random = \<lparr>lr_State = ''S'', lr_Verifier = ''V'', lr_Nonce = ''N''\<rparr>"

lemma demo_login_law: "login_lib_law demo_oidc_endpoint demo_oidc"
  by (auto simp: login_lib_law_def demo_oidc_endpoint_def demo_endpoint_def demo_jose_law demo_oidc_def parse_law_def list_all_iff split: if_splits)

theorem oidc_login_completes_witness:
  "\<exists>cs cs'. consumeLoginState demo_oidc_endpoint demo_oidc ''s'' (2 * minute) (receive cs [(''s_oidc_A'', ''x''), (''other'', ''y'')]) ''S'' = (Inr demo_login, cs') \<and>
     card (login_names ''s'' (receive cs [(''s_oidc_A'', ''x''), (''other'', ''y'')])) \<le> maxLoginsInFlight"
proof -
  let ?jar = "[(''s_oidc_A'', ''x''), (''other'', ''y'')]"
  let ?r = "OAuthLoginGet demo_oidc_endpoint demo_oidc ''s'' minute demo_random ''host'' ''q'' ?jar"
  have e: "snd (snd ?r) = Some demo_login" by code_simp
  obtain page cs l where r: "?r = (page, cs, l)" by (rule prod_cases3)
  with e have r: "?r = (page, cs, Some demo_login)" by simp
  have d: "distinct (map fst ?jar)" "ls_State demo_login = ''S''" "ls_State demo_login \<noteq> []" by (simp_all add: demo_login_def)
  have t: "Unix (2 * minute) \<le> ls_Exp demo_login" by code_simp
  from oidc_login_completes [OF demo_login_law d(1) r d(3) t, of 0] show ?thesis unfolding d(2) by blast
qed

theorem oidc_login_bound_witness:
  "\<exists>v. map_of [(''s_oidc_S'', ''oidc-login-state'' @ [CHR 0x00] @ ''bk'' @ [CHR 0x00] @ ''L'')] ''s_oidc_S'' = Some v \<and>
     openLoginState demo_oidc_endpoint demo_oidc v = Inr demo_login"
proof -
  let ?jar = "[(''s_oidc_S'', ''oidc-login-state'' @ [CHR 0x00] @ ''bk'' @ [CHR 0x00] @ ''L'')]"
  let ?q = "[(''code'', [''c'']), (''state'', [''S''])]"
  let ?r = "OAuthGet demo_oidc_endpoint demo_oidc ''s'' minute 60000 demo_ids (\<lambda>_. Inr []) ?q ?jar demo_stores"
  have "fst (fst ?r) = Goto 303 ''/home'' []" by code_simp
  moreover obtain page cs st' where "?r = ((page, cs), st')" by (metis prod.collapse)
  ultimately have r: "?r = ((Goto 303 ''/home'' [], cs), st')" by simp
  have n: "loginStateCookiePrefix ''s'' @ values_Get ?q ''state'' = ''s_oidc_S''" by code_simp
  have o: "openLoginState demo_oidc_endpoint demo_oidc (''oidc-login-state'' @ [CHR 0x00] @ ''bk'' @ [CHR 0x00] @ ''L'') = Inr demo_login" by code_simp
  from oidc_login_bound [OF r] show ?thesis unfolding n using o by auto
qed

theorem logout_ends_session_witness:
  "\<exists>st'. cache_view (2 * minute) (st_refresh st') ''T'' = None \<and>
     snd (LogoutPost demo_exchange \<lparr>lo_EndSession = Inr [], lo_IDToken = Inr [], lo_Parse = (\<lambda>_. None), lo_Home = ''/''\<rparr> ''s'' minute 60000 True
       [(''s'', ''at''), (''s_refresh'', ''T'')] demo_stores) = st'"
proof -
  let ?L = "\<lparr>lo_EndSession = Inr [], lo_IDToken = Inr [], lo_Parse = (\<lambda>_. None), lo_Home = ''/''\<rparr>"
  let ?jar = "[(''s'', ''at''), (''s_refresh'', ''T'')]"
  let ?r = "LogoutPost demo_exchange ?L ''s'' minute 60000 True ?jar demo_stores"
  obtain page cs barrier async st' where r: "?r = ((page, cs, barrier, async), st')" by (metis prod.collapse)
  have x: "x_ops demo_exchange = mem_ops" "x_cached demo_exchange" by (simp_all add: demo_exchange_def)
  have s: "surviving (st_refresh demo_stores)"
    using mem.set_inv [of "demo_class ''refresh-tokens''" 0 "''T''" "''r''" "[]"] demo_class_unbounded
    by (simp add: demo_stores_def unbounded_def mem_ops_def)
  have v: "cache_view minute (st_refresh demo_stores) ''T'' = Some ''r''" by code_simp
  have m: "map_of ?jar (''s'' @ ''_refresh'') = Some ''T''" "''T'' \<noteq> []" "cache_view minute (st_refresh demo_stores) ''T'' \<noteq> None" using v by simp_all
  from logout_ends_session [OF x s m r, of "2 * minute"] r show ?thesis by auto
qed

end
