(* ===== verification/Capabilities.thy ===== *)
theory Capabilities
  imports Gate
begin

text \<open>
  Capabilities (\<open>src/internal/host/mint_token.go\<close>, \<open>transfer.go\<close>, \<open>capabilities.go\<close>): an authenticated
  caller mints a short-lived credential that carries a subset of its own entitlements, either as a bearer token
  or as a link to one fixed download, through the REST endpoint or through the \<open>mint_token\<close> tool of MCP.

  The attenuation check of the entitlements library, the JWT library, JSON and the random identifiers are
  parameters. Lifetimes are 64-bit nanoseconds: the product of the requested seconds wraps, as it does in Go.
\<close>

section \<open>Failures\<close>

datatype mintFailureKind = mintInvalidRequest | mintRefused | mintUnavailable

text \<open>An error of the mint: classified (\<open>*mintFailure\<close> is in its chain), or not.\<close>

record mint_error =
  me_kind :: "mintFailureKind option"
  me_err :: goerror

definition mintErrf :: "mintFailureKind \<Rightarrow> string \<Rightarrow> mint_error" where
  "mintErrf kind msg = \<lparr>me_kind = Some kind, me_err = errorf msg\<rparr>"

definition unclassified :: "string \<Rightarrow> goerror \<Rightarrow> mint_error" where
  "unclassified prefix e = \<lparr>me_kind = None, me_err = wrapf (err_is e) (prefix @ err_msg e)\<rparr>"

definition mintStatus :: "mint_error \<Rightarrow> nat" where
  "mintStatus err =
     (case me_kind err of
        Some mintInvalidRequest \<Rightarrow> 400
      | Some mintRefused \<Rightarrow> 403
      | Some mintUnavailable \<Rightarrow> 503
      | None \<Rightarrow> 500)"

definition errNoCache :: mint_error where
  "errNoCache = mintErrf mintUnavailable ''mint_token url delivery requires a configured cache''"

section \<open>Requests\<close>

definition toolNameMintToken :: string where "toolNameMintToken = ''mint_token''"
definition deliveryURL :: string where "deliveryURL = ''url''"

record TransferTarget =
  tt_Method :: string
  tt_Path :: string

record MintTokenRequest =
  mr_Entitlements :: "string list"
  mr_TTLSeconds :: int
  mr_Uses :: int
  mr_Delivery :: string
  mr_Target :: "TransferTarget option"

record MintTokenResult =
  mres_Token :: string
  mres_URL :: string
  mres_ExpiresAt :: int
  mres_Entitlements :: "string list"
  mres_UsesRemaining :: int

text \<open>\<open>quote\<close> is the verb \<open>%q\<close> of \<open>fmt\<close>.\<close>

definition validateTransferTarget :: "(string \<Rightarrow> string) \<Rightarrow> TransferTarget option \<Rightarrow> goerror option" where
  "validateTransferTarget quote t =
     (case t of
        None \<Rightarrow> Some (errorf ''delivery \"url\" requires a target'')
      | Some tgt \<Rightarrow>
          if \<not> EqualFold (TrimSpace (tt_Method tgt)) ''GET''
          then Some (errorf (''unsupported target method '' @ quote (tt_Method tgt) @ '' (only GET is supported)''))
          else if \<not> HasPrefix (tt_Path tgt) ''/''
          then Some (errorf ''target path must be an absolute path beginning with /'')
          else if HasPrefix (tt_Path tgt) ''//''
          then Some (errorf ''target path must not be scheme-relative (must not begin with //)'')
          else if HasPrefix (tt_Path tgt) ''/-/''
          then Some (errorf ''target path must not be under the reserved /-/ prefix'')
          else if list_ex (\<lambda>seg. seg = ''.'' \<or> seg = ''..'') (Split (tt_Path tgt) CHR ''/'')
          then Some (errorf ''target path must not contain . or .. segments'')
          else None)"

definition stringSliceFromClaim :: "goany option \<Rightarrow> string list" where
  "stringSliceFromClaim v =
     (case v of Some (VStrs ss) \<Rightarrow> ss | Some (VList as) \<Rightarrow> string_items as | _ \<Rightarrow> [])"

definition hasDestructiveVerb :: "string list \<Rightarrow> string list \<Rightarrow> bool" where
  "hasDestructiveVerb requested destructive =
     list_ex (\<lambda>e. let verb = last (Split e CHR '':'')
                  in verb = ''*'' \<or> verb = ''all'' \<or> verb \<in> set destructive) requested"

section \<open>The host\<close>

text \<open>The cache class \<open>cap\<close> through the interface, with its decrement.\<close>

record 's cap_store =
  cs_ops :: "'s cache_ops"
  cs_Decrement :: "instant \<Rightarrow> string \<Rightarrow> 's \<Rightarrow> (goerror + int \<times> bool) \<times> 's"

record cap_config =
  cc_Enabled :: bool
  cc_URLDelivery :: bool
  cc_TTLCap :: duration
  cc_CapabilityTTLCap :: duration
  cc_UsesCap :: int
  cc_DestructiveVerbs :: "string list"
  cc_Audience :: string
  cc_Issuer :: string
  cc_Key :: "key_type option"
  cc_KeyId :: string

record transferRecord =
  tr_JTI :: string
  tr_Sub :: string
  tr_Kind :: string
  tr_IssuedAt :: int
  tr_Entitlements :: "string list"
  tr_Target :: TransferTarget

record cap_lib =
  cl_Signer :: signer_lib
  cl_Kinds :: kind_lib
  cl_VerifyAttenuation :: "string list \<Rightarrow> string list \<Rightarrow> string \<times> bool"
  cl_ParseUnverified :: "string \<Rightarrow> goerror + mapclaims"
  cl_Marshal :: "transferRecord \<Rightarrow> goerror + string"
  cl_Unmarshal :: "string \<Rightarrow> transferRecord option"
  cl_Quote :: "string \<Rightarrow> string"

text \<open>The random values of one mint: the identifier (the signer's or \<open>rand.Text\<close>, one of which is drawn) and
  the handle of a link.\<close>

record cap_random =
  cr_jti :: string
  cr_handle :: "goerror + string"

record 's cap_host =
  ch_config :: "cap_config option"
  ch_cap :: "'s cap_store option"
  ch_exchanger :: "Exchanger option"
  ch_lib :: cap_lib

section \<open>Transfer records\<close>

definition transferKeyPrefix :: string where "transferKeyPrefix = ''transfer:''"

definition storeTransferRecord ::
  "'s cap_host \<Rightarrow> instant \<Rightarrow> string \<Rightarrow> transferRecord \<Rightarrow> duration \<Rightarrow> 's \<Rightarrow> goerror option \<times> 's" where
  "storeTransferRecord hh now handle rec ttl s =
     (case ch_cap hh of
        None \<Rightarrow> (Some (me_err errNoCache), s)
      | Some c \<Rightarrow>
          (case cl_Marshal (ch_lib hh) rec of
             Inl e \<Rightarrow> (Some e, s)
           | Inr b \<Rightarrow> op_Set (cs_ops c) now (transferKeyPrefix @ handle) b [WithTTL ttl] s))"

definition loadTransferRecord :: "'s cap_host \<Rightarrow> instant \<Rightarrow> string \<Rightarrow> 's \<Rightarrow> transferRecord option \<times> 's" where
  "loadTransferRecord hh now handle s =
     (case ch_cap hh of
        None \<Rightarrow> (None, s)
      | Some c \<Rightarrow>
          (case op_Get (cs_ops c) now (transferKeyPrefix @ handle) s of
             (Inr (val, True, _), s') \<Rightarrow> (cl_Unmarshal (ch_lib hh) val, s')
           | (_, s') \<Rightarrow> (None, s')))"

section \<open>The mint\<close>

definition capability_context :: "cap_lib \<Rightarrow> string \<Rightarrow> string \<Rightarrow> string list \<Rightarrow> mapclaims" where
  "capability_context L sub kind ents =
     [(''sub'', VStr sub), (''entitlements'', VStrs ents), (ClaimSubjectKind, VStr kind)]"

text \<open>The identifier read back from the signed token.\<close>

definition token_jti :: "cap_lib \<Rightarrow> string \<Rightarrow> string" where
  "token_jti L token = (case cl_ParseUnverified L token of Inl _ \<Rightarrow> [] | Inr mc \<Rightarrow> claim_string mc ''jti'')"

definition mintTokenOrJTI ::
  "'s cap_host \<Rightarrow> cap_config \<Rightarrow> instant \<Rightarrow> string \<Rightarrow> bool \<Rightarrow> string \<Rightarrow> string \<Rightarrow> string list \<Rightarrow> duration \<Rightarrow>
   mint_error + string \<times> string" where
  "mintTokenOrJTI hh cfg now jti isURL sub kind ents ttl =
     (let L = ch_lib hh
      in if \<not> kind_Known (cl_Kinds L) kind
         then Inl (mintErrf mintRefused (''mint_token cannot record the caller's subject kind '' @ cl_Quote L kind))
         else if isURL then Inr ([], jti)
         else case NewSigner (cc_Audience cfg) ttl (cc_Issuer cfg) (cc_Key cfg) (cc_KeyId cfg) None of
                Inl e \<Rightarrow> Inl (unclassified ''mint signer: '' e)
              | Inr signer \<Rightarrow>
                  (case Project (cl_Signer L) signer (capability_context L sub kind ents) of
                     Inl e \<Rightarrow> Inl (unclassified ''mint project: '' e)
                   | Inr projected \<Rightarrow>
                       (case SignProjected (cl_Signer L) signer now jti (AList.update CapUsesClaim (VBool True) projected) of
                          Inl e \<Rightarrow> Inl (unclassified ''mint sign: '' e)
                        | Inr token \<Rightarrow> Inr (token, if ch_cap hh \<noteq> None then token_jti L token else []))))"

text \<open>The clamps on lifetime and uses.\<close>

definition requested_ttl :: "duration \<Rightarrow> int \<Rightarrow> duration" where
  "requested_ttl ttlCap secs =
     (if secs > 0 then let reqTTL = wrap64 (secs * second) in if reqTTL < ttlCap then reqTTL else ttlCap
      else ttlCap)"

definition clamp_uses :: "int \<Rightarrow> int \<Rightarrow> int" where
  "clamp_uses usesCap uses = (let u = (if uses \<le> 0 then 1 else uses) in if u > usesCap then usesCap else u)"

definition mint_limits :: "cap_config \<Rightarrow> duration \<Rightarrow> MintTokenRequest \<Rightarrow> int \<times> duration" where
  "mint_limits cfg ttlCap req =
     (let ttl = requested_ttl ttlCap (mr_TTLSeconds req); uses = clamp_uses (cc_UsesCap cfg) (mr_Uses req)
      in if hasDestructiveVerb (mr_Entitlements req) (cc_DestructiveVerbs cfg)
         then (1, if ttl > 10 * second then 10 * second else ttl)
         else (uses, ttl))"

text \<open>The counter; a failed write is only logged, and the capability is dead on arrival.\<close>

definition provision_counter :: "'s cap_host \<Rightarrow> instant \<Rightarrow> string \<Rightarrow> int \<Rightarrow> duration \<Rightarrow> 's \<Rightarrow> 's" where
  "provision_counter hh now jti uses ttl s =
     (case ch_cap hh of
        None \<Rightarrow> s
      | Some c \<Rightarrow> if jti = [] then s
                  else snd (op_Set (cs_ops c) now (''uses:'' @ jti) (FormatInt uses) [WithTTL ttl] s))"

text \<open>The guards before anything is minted.\<close>

definition mint_guards :: "'s cap_host \<Rightarrow> string \<Rightarrow> string list \<Rightarrow> MintTokenRequest \<Rightarrow> mint_error + cap_config" where
  "mint_guards hh sub held req =
     (case ch_config hh of
        None \<Rightarrow> Inl (mintErrf mintRefused ''mint_token is not enabled on this host'')
      | Some cfg \<Rightarrow>
          if \<not> cc_Enabled cfg then Inl (mintErrf mintRefused ''mint_token is not enabled on this host'')
          else if sub = [] then Inl (mintErrf mintRefused ''mint_token requires an authenticated caller'')
          else if mr_Entitlements req = [] then Inl (mintErrf mintInvalidRequest ''mint_token requires at least one entitlement'')
          else if mr_Delivery req = deliveryURL \<and> \<not> cc_URLDelivery cfg
          then Inl (mintErrf mintRefused ''url delivery is not enabled on this host'')
          else case (if mr_Delivery req = deliveryURL then validateTransferTarget (cl_Quote (ch_lib hh)) (mr_Target req) else None) of
                 Some e \<Rightarrow> Inl \<lparr>me_kind = Some mintInvalidRequest, me_err = e\<rparr>
               | None \<Rightarrow>
                   if mr_Delivery req = deliveryURL \<and> ch_cap hh = None then Inl errNoCache
                   else case cl_VerifyAttenuation (ch_lib hh) held (mr_Entitlements req) of
                          (offender, ok) \<Rightarrow>
                            if ok then Inr cfg
                            else Inl (mintErrf mintRefused (''entitlement not held by caller: '' @ offender)))"

text \<open>The record of a link; the guards leave a target whenever one is needed.\<close>

definition transfer_record :: "instant \<Rightarrow> string \<Rightarrow> string \<Rightarrow> string \<Rightarrow> MintTokenRequest \<Rightarrow> TransferTarget \<Rightarrow> transferRecord" where
  "transfer_record now jti sub kind req tgt =
     \<lparr>tr_JTI = jti, tr_Sub = sub, tr_Kind = kind, tr_IssuedAt = Unix now, tr_Entitlements = mr_Entitlements req, tr_Target = tgt\<rparr>"

definition mintCapabilityTokenWithCap ::
  "'s cap_host \<Rightarrow> instant \<Rightarrow> cap_random \<Rightarrow> string \<Rightarrow> string \<Rightarrow> string list \<Rightarrow> MintTokenRequest \<Rightarrow> string \<Rightarrow> duration \<Rightarrow> 's \<Rightarrow>
   (mint_error + MintTokenResult) \<times> 's" where
  "mintCapabilityTokenWithCap hh now rnd sub kind held req baseURL ttlCap s =
     (case mint_guards hh sub held req of
        Inl e \<Rightarrow> (Inl e, s)
      | Inr cfg \<Rightarrow>
          (let (uses, ttl) = mint_limits cfg ttlCap req; isURL = (mr_Delivery req = deliveryURL)
           in case mintTokenOrJTI hh cfg now (cr_jti rnd) isURL sub kind (mr_Entitlements req) ttl of
                Inl e \<Rightarrow> (Inl e, s)
              | Inr (token, jti) \<Rightarrow>
                  (let s1 = provision_counter hh now jti uses ttl s;
                       result = \<lparr>mres_Token = [], mres_URL = [], mres_ExpiresAt = Unix (now + ttl),
                                 mres_Entitlements = mr_Entitlements req, mres_UsesRemaining = uses\<rparr>
                   in case (if isURL then mr_Target req else None) of
                        None \<Rightarrow> (Inr (result\<lparr>mres_Token := token\<rparr>), s1)
                      | Some tgt \<Rightarrow>
                          (case cr_handle rnd of
                             Inl e \<Rightarrow> (Inl (unclassified ''mint handle: '' e), s1)
                           | Inr handle \<Rightarrow>
                               (case storeTransferRecord hh now handle (transfer_record now jti sub kind req tgt) ttl s1 of
                                  (Some e, s2) \<Rightarrow> (Inl \<lparr>me_kind = Some mintUnavailable, me_err = e\<rparr>, s2)
                                | (None, s2) \<Rightarrow> (Inr (result\<lparr>mres_URL := baseURL @ ''/-/transfer/'' @ handle\<rparr>), s2))))))"

definition mintCapabilityToken ::
  "'s cap_host \<Rightarrow> instant \<Rightarrow> cap_random \<Rightarrow> string \<Rightarrow> string \<Rightarrow> string list \<Rightarrow> MintTokenRequest \<Rightarrow> string \<Rightarrow> 's \<Rightarrow>
   (mint_error + MintTokenResult) \<times> 's" where
  "mintCapabilityToken hh now rnd sub kind held req baseURL s =
     mintCapabilityTokenWithCap hh now rnd sub kind held req baseURL
       (case ch_config hh of None \<Rightarrow> 0 | Some cfg \<Rightarrow> cc_TTLCap cfg) s"

section \<open>The address a caller sees\<close>

record http_request =
  hr_Method :: string
  hr_Host :: string
  hr_Path :: string
  hr_Query :: string
  hr_Header :: header

definition firstForwardedValue :: "string \<Rightarrow> string" where
  "firstForwardedValue v = TrimSpace (takeWhile (\<lambda>c. c \<noteq> CHR '','') v)"

definition fwdHost :: "http_request \<Rightarrow> string" where
  "fwdHost r = (let xfh = h_Get (hr_Header r) ''X-Forwarded-Host'' in if xfh \<noteq> [] then firstForwardedValue xfh else hr_Host r)"

definition fwdScheme :: "http_request \<Rightarrow> string" where
  "fwdScheme r = (let xfp = h_Get (hr_Header r) ''X-Forwarded-Proto'' in if xfp \<noteq> [] then firstForwardedValue xfp else ''https'')"

definition transferBaseURL :: "http_request \<Rightarrow> string" where
  "transferBaseURL r = (if fwdHost r = [] then [] else fwdScheme r @ ''://'' @ fwdHost r)"

section \<open>Redeeming a link\<close>

definition SiteTransferRedeem :: string where "SiteTransferRedeem = ''transfer redeem''"

definition transferHeaders :: "string list" where
  "transferHeaders = [''Accept'', ''Accept-Encoding'', ''Range'', ''If-Range'', ''If-Modified-Since'', ''If-None-Match'']"

text \<open>The loop over the allowlist: a header of the request that is on it, and nothing else.\<close>

definition clean_headers :: "header \<Rightarrow> header" where
  "clean_headers h =
     fold (\<lambda>n acc. let vs = h_Values h n in if vs \<noteq> [] then AList.update (CanonicalMIMEHeaderKey n) vs acc else acc)
       transferHeaders []"

definition transfer_context :: "transferRecord \<Rightarrow> mapclaims" where
  "transfer_context rec =
     [(''sub'', VStr (tr_Sub rec)), (''entitlements'', VStrs (tr_Entitlements rec))] @
     (if tr_Kind rec \<noteq> [] then [(ClaimSubjectKind, VStr (tr_Kind rec))] else [])"

text \<open>The request handed to the mux.\<close>

definition bound_request :: "transferRecord \<Rightarrow> http_request \<Rightarrow> http_request" where
  "bound_request rec r =
     r\<lparr>hr_Method := tt_Method (tr_Target rec), hr_Path := tt_Path (tr_Target rec), hr_Query := [],
       hr_Header := clean_headers (hr_Header r)\<rparr>"

text \<open>\<open>None\<close> is the 410. \<open>muxed\<close>: the host has a mux.\<close>

definition TransferGet ::
  "'s cap_host \<Rightarrow> bool \<Rightarrow> instant \<Rightarrow> string \<Rightarrow> http_request \<Rightarrow> 's \<Rightarrow> (http_request \<times> mapclaims) option \<times> 's" where
  "TransferGet hh muxed now handle r s =
     (case loadTransferRecord hh now handle s of
        (None, s1) \<Rightarrow> (None, s1)
      | (Some rec, s1) \<Rightarrow>
          if \<not> EqualFold (hr_Method r) (tt_Method (tr_Target rec)) then (None, s1)
          else case ch_cap hh of
                 None \<Rightarrow> (None, s1)
               | Some c \<Rightarrow>
                   if \<not> muxed then (None, s1)
                   else (let ac = transfer_context rec; K = cl_Kinds (ch_lib hh)
                         in if VetoCredential K (ch_exchanger hh) (tr_Sub rec) (ContextSubjectKind K (ch_exchanger hh) ac)
                                 (tr_IssuedAt rec) SiteTransferRedeem \<noteq> None
                            then (None, s1)
                            else case cs_Decrement c now (''uses:'' @ tr_JTI rec) s1 of
                                   (Inr (_, True), s2) \<Rightarrow> (Some (bound_request rec r, ac), s2)
                                 | (_, s2) \<Rightarrow> (None, s2)))"

section \<open>The two surfaces of the mint\<close>

text \<open>What the surfaces need besides the host: the revocation store, the URL parser, the issuer's address and
  the JSON encoder of a result.\<close>

record 'r mint_env =
  mn_paseto :: paseto_lib
  mn_dates :: date_lib
  mn_tokens :: "(TokenManager \<times> 'r cache_ops option) option"
  mn_url :: url_parse
  mn_issuer :: string
  mn_encode :: "MintTokenResult \<Rightarrow> string"

definition StatusText :: "nat \<Rightarrow> string" where
  "StatusText n = (if n = 403 then ''Forbidden'' else if n = 503 then ''Service Unavailable''
     else if n = 500 then ''Internal Server Error'' else [])"

definition mintFromRevokedCredential ::
  "'r mint_env \<Rightarrow> signer_lib \<Rightarrow> instant \<Rightarrow> mapclaims \<Rightarrow> 'r \<Rightarrow> nat option \<times> 'r" where
  "mintFromRevokedCredential E L now ac rs =
     (case CredentialPredatesRevocation (mn_paseto E) L (mn_dates E) (mn_tokens E) now ac rs of
        (Inl _, rs') \<Rightarrow> (Some 503, rs')
      | (Inr True, rs') \<Rightarrow> (Some 403, rs')
      | (Inr False, rs') \<Rightarrow> (None, rs'))"

definition capability_cap :: "cap_config \<Rightarrow> duration" where
  "capability_cap cfg = (if cc_CapabilityTTLCap cfg \<le> 0 then cc_TTLCap cfg else cc_CapabilityTTLCap cfg)"

text \<open>\<open>decoded\<close> is the outcome of \<open>DecodeJSONBody\<close>, \<open>ctx\<close> the auth context of the request. The route exists only
  with a configuration.\<close>

definition capabilityMintHandler ::
  "'r mint_env \<Rightarrow> 's cap_host \<Rightarrow> cap_config \<Rightarrow> instant \<Rightarrow> cap_random \<Rightarrow> MintTokenRequest option \<Rightarrow> mapclaims option \<Rightarrow>
   http_request \<Rightarrow> rw \<Rightarrow> 'r \<times> 's \<Rightarrow> rw \<times> 'r \<times> 's" where
  "capabilityMintHandler E hh cfg now rnd decoded ctx r w st =
     (case decoded of
        None \<Rightarrow> (http_Error ''Failed to decode request body'' 400 w, st)
      | Some req \<Rightarrow>
          (let ac = (case ctx of None \<Rightarrow> [] | Some a \<Rightarrow> a); sub = claim_string ac ''sub''
           in if sub = []
              then (denial_Write (mn_url E) \<lparr>o_Outcome = Unauthenticated, o_Issuer = mn_issuer E, o_ResourceMetadata = [], o_Scopes = []\<rparr> w, st)
              else case mintFromRevokedCredential E (cl_Signer (ch_lib hh)) now ac (fst st) of
                     (Some status, rs) \<Rightarrow> (http_Error (StatusText status) status w, rs, snd st)
                   | (None, rs) \<Rightarrow>
                       (case mintCapabilityTokenWithCap hh now rnd sub (ContextSubjectKind (cl_Kinds (ch_lib hh)) (ch_exchanger hh) ac)
                               (stringSliceFromClaim (map_of ac ''entitlements'')) req (transferBaseURL r) (capability_cap cfg) (snd st) of
                          (Inl err, s') \<Rightarrow>
                            (http_Error (if mintStatus err = 500 then StatusText 500 else err_msg (me_err err)) (mintStatus err) w, rs, s')
                        | (Inr res, s') \<Rightarrow>
                            (rw_Write (mn_encode E res) (rw_header (h_Set ''Content-Type'' ''application/json'') w), rs, s'))))"

text \<open>The answer of the MCP tool: an error text, or the result.\<close>

datatype rpc_result = RpcError string | RpcResult MintTokenResult

definition writeMintTokenRPC ::
  "'r mint_env \<Rightarrow> 's cap_host \<Rightarrow> instant \<Rightarrow> cap_random \<Rightarrow> mapclaims option \<Rightarrow> string \<Rightarrow> string \<Rightarrow> string list \<Rightarrow>
   MintTokenRequest \<Rightarrow> http_request \<Rightarrow> 'r \<times> 's \<Rightarrow> rpc_result \<times> 'r \<times> 's" where
  "writeMintTokenRPC E hh now rnd ctx sub kind held args r st =
     (case (case ctx of None \<Rightarrow> (None, fst st)
            | Some ac \<Rightarrow> mintFromRevokedCredential E (cl_Signer (ch_lib hh)) now ac (fst st)) of
        (Some status, rs) \<Rightarrow>
          (RpcError (if status = 503 then ''mint_token unavailable: the subject's revocation could not be checked; retry''
                     else ''mint_token refused: the subject was revoked after this credential authenticated''), rs, snd st)
      | (None, rs) \<Rightarrow>
          (case mintCapabilityToken hh now rnd sub kind held args (transferBaseURL r) (snd st) of
             (Inl err, s') \<Rightarrow> (RpcError (err_msg (me_err err)), rs, s')
           | (Inr res, s') \<Rightarrow> (RpcResult res, rs, s')))"

section \<open>Recognising the tool call\<close>

record jsonRPCRequest =
  jr_ID :: string
  jr_Method :: string
  jr_Name :: string
  jr_Arguments :: string

text \<open>The index loop over leading white space.\<close>

definition json_space :: "char \<Rightarrow> bool" where
  "json_space c \<longleftrightarrow> c = CHR '' '' \<or> c = CHR 0x09 \<or> c = CHR 0x0D \<or> c = CHR 0x0A"

fun skip_space :: "string \<Rightarrow> nat \<Rightarrow> nat" where
  "skip_space [] i = i"
| "skip_space (c # s) i = (if json_space c then skip_space s (Suc i) else i)"

definition parseSingleJSONRPC :: "(string \<Rightarrow> jsonRPCRequest option) \<Rightarrow> string \<Rightarrow> jsonRPCRequest option" where
  "parseSingleJSONRPC unmarshal body =
     (if (body = [] \<or> hd body \<noteq> CHR ''{'') \<and>
         (let i = skip_space body 0 in i \<ge> length body \<or> body ! i \<noteq> CHR ''{'')
      then None else unmarshal body)"

definition no_request :: MintTokenRequest where
  "no_request = \<lparr>mr_Entitlements = [], mr_TTLSeconds = 0, mr_Uses = 0, mr_Delivery = [], mr_Target = None\<rparr>"

definition isMintTokenCall ::
  "(string \<Rightarrow> MintTokenRequest option) \<Rightarrow> jsonRPCRequest \<Rightarrow> (string \<times> MintTokenRequest) option" where
  "isMintTokenCall unmarshal req =
     (if jr_Method req \<noteq> ''tools/call'' \<or> jr_Name req \<noteq> toolNameMintToken then None
      else if jr_Arguments req \<noteq> []
      then (case unmarshal (jr_Arguments req) of None \<Rightarrow> Some (jr_ID req, no_request) | Some args \<Rightarrow> Some (jr_ID req, args))
      else Some (jr_ID req, no_request))"

definition isToolsListCall :: "jsonRPCRequest \<Rightarrow> bool" where
  "isToolsListCall req \<longleftrightarrow> jr_Method req = ''tools/list''"

text \<open>Splicing the descriptors into a forwarded \<open>tools/list\<close>: JSON objects with raw members, arrays of raw items,
  and the marshalled descriptors are parameters.\<close>

record raw_json =
  rj_Object :: "string \<Rightarrow> string gomap option"
  rj_Array :: "string \<Rightarrow> string list option"
  rj_PutObject :: "string gomap \<Rightarrow> string"
  rj_PutArray :: "string list \<Rightarrow> string"

definition spliceASToolDescriptors ::
  "raw_json \<Rightarrow> string option \<Rightarrow> string option \<Rightarrow> string \<Rightarrow> string \<times> bool" where
  "spliceASToolDescriptors J mintDesc whoamiDesc respBody =
     (case Option.bind (rj_Object J respBody) (\<lambda>envelope.
             Option.bind (map_of envelope ''result'') (\<lambda>rawResult.
             Option.bind (rj_Object J rawResult) (\<lambda>result.
             Option.bind (map_of result ''tools'') (\<lambda>rawTools.
             Option.bind (rj_Array J rawTools) (\<lambda>tools.
             Option.bind mintDesc (\<lambda>d.
             Option.bind whoamiDesc (\<lambda>w.
               Some (rj_PutObject J (AList.update ''result''
                       (rj_PutObject J (AList.update ''tools'' (rj_PutArray J (tools @ [d, w])) result)) envelope))))))))) of
        None \<Rightarrow> (respBody, False)
      | Some out \<Rightarrow> (out, True))"

section \<open>What the counters rely on\<close>

text \<open>A cache of the surviving scope whose decrement grants a use exactly when the stored number is positive.\<close>

locale counter_store = kv_store ops inv view deadline for ops :: "'s cache_ops" and inv view deadline +
  fixes dec :: "instant \<Rightarrow> string \<Rightarrow> 's \<Rightarrow> (goerror + int \<times> bool) \<times> 's"
  assumes dec_inv: "inv s \<Longrightarrow> inv (snd (dec t k s))"
    and dec_other: "inv s \<Longrightarrow> k' \<noteq> k \<Longrightarrow> view t' (snd (dec t k s)) k' = view t' s k'"
    and dec_granted: "inv s \<Longrightarrow> fst (dec t k s) = Inr (n, True) \<Longrightarrow>
          0 \<le> n \<and> (\<exists>v. view t s k = Some v \<and> ParseInt v = Some (n + 1)) \<and>
          (\<forall>t'. view t' (snd (dec t k s)) k = map_option (\<lambda>_. FormatInt n) (view t' s k))"
    and dec_grants: "inv s \<Longrightarrow> view t s k = Some v \<Longrightarrow> ParseInt v = Some n \<Longrightarrow> 0 < n \<Longrightarrow> fst (dec t k s) = Inr (n - 1, True)"
    and dec_refused: "inv s \<Longrightarrow> (\<And>n. fst (dec t k s) \<noteq> Inr (n, True)) \<Longrightarrow> view t' (snd (dec t k s)) k = view t' s k"
begin

text \<open>No more than \<open>n\<close> uses are left under \<open>k\<close>, at whatever instant it is read.\<close>

definition budget :: "int \<Rightarrow> string \<Rightarrow> 's \<Rightarrow> bool" where
  "budget n k s \<longleftrightarrow> inv s \<and>
     (\<forall>t v. view t s k = Some v \<longrightarrow> (\<exists>m. v = FormatInt m \<and> m \<le> n \<and> int64_min \<le> m \<and> m \<le> int64_max))"

lemma budgetE: "budget n k s \<Longrightarrow> view t s k = Some v \<Longrightarrow> \<exists>m. v = FormatInt m \<and> m \<le> n \<and> int64_min \<le> m \<and> m \<le> int64_max"
  by (auto simp: budget_def)

lemma budget_view: "budget n k s \<Longrightarrow> inv s' \<Longrightarrow> (\<And>t. view t s' k = None \<or> view t s' k = view t s k) \<Longrightarrow> budget n k s'"
  unfolding budget_def by (metis option.distinct(1))

lemma budget_get: "budget n k s \<Longrightarrow> budget n k (snd (op_Get ops t k' s))"
  by (rule budget_view) (auto simp: budget_def get_inv get_view)

lemma budget_inv: "budget n k s \<Longrightarrow> inv s"
  by (simp add: budget_def)

lemma budget_set:
  assumes "budget n k s" and "k' \<noteq> k"
  shows "budget n k (snd (op_Set ops t k' v opts s))"
  using assms(1) set_inv [OF budget_inv [OF assms(1)]]
  by (rule budget_view) (rule set_other_le [OF budget_inv [OF assms(1)] not_sym [OF assms(2)]])

lemma budget_spend:
  assumes "budget n k s" and "fst (dec t k s) = Inr (m, True)"
  shows "0 < n \<and> budget (n - 1) k (snd (dec t k s))"
proof -
  have i: "inv s" using assms(1) by (simp add: budget_def)
  from dec_granted [OF i assms(2)] obtain v where m: "0 \<le> m" and v: "view t s k = Some v" "ParseInt v = Some (m + 1)"
    and after: "\<And>t'. view t' (snd (dec t k s)) k = map_option (\<lambda>_. FormatInt m) (view t' s k)" by blast
  from budgetE [OF assms(1) v(1)] obtain m' where m': "v = FormatInt m'" "m' \<le> n" "int64_min \<le> m'" "m' \<le> int64_max" by blast
  then have "m' = m + 1" using v(2) by (simp add: ParseInt_FormatInt)
  then show ?thesis using m m' i after by (auto simp: budget_def dec_inv)
qed

lemma budget_mono: "budget n k s \<Longrightarrow> n \<le> n' \<Longrightarrow> budget n' k s"
  unfolding budget_def by (meson order_trans)

lemma budget_dec: "budget n k s \<Longrightarrow> budget n k (snd (dec t k' s))"
proof (cases "k' = k \<and> (\<exists>m. fst (dec t k s) = Inr (m, True))")
  case True
  assume "budget n k s"
  with True budget_spend show ?thesis using budget_mono [of "n - 1" k _ n] by force
next
  case False
  assume b: "budget n k s"
  then have i: "inv s" by (simp add: budget_def)
  have "view t' (snd (dec t k' s)) k = view t' s k" for t'
    using False dec_other [OF i, of k k'] dec_refused [OF i, of t k] by (cases "k' = k") auto
  then show ?thesis using b i by (auto simp: budget_def dec_inv)
qed

lemma budget_start:
  "inv s \<Longrightarrow> int64_min \<le> n \<Longrightarrow> n \<le> int64_max \<Longrightarrow> budget n k (snd (op_Set ops t k (FormatInt n) opts s))"
  by (auto simp: budget_def set_inv set_self split: if_splits)

end

text \<open>The in-memory cache provides it.\<close>

definition mem_decrement :: "instant \<Rightarrow> string \<Rightarrow> InMemoryCache \<Rightarrow> (goerror + int \<times> bool) \<times> InMemoryCache" where
  "mem_decrement now k s = map_prod Inr id (DecrementIfPositive now k s)"

lemma decrement_walk_single:
  "\<forall>g \<in> set gs. g = c_currentChecksum c \<Longrightarrow> decrement_walk now k gs c = ((-1, False), c)"
  by (induction gs) auto

lemma surviving_decrement:
  assumes "surviving c"
  shows "DecrementIfPositive now k c =
    (case map_of (seg_of c (c_currentChecksum c)) k of
       None \<Rightarrow> ((-1, False), c)
     | Some e \<Rightarrow> if expired now e then ((-1, False), c)
                else (case ParseInt (e_value e) of
                        None \<Rightarrow> ((-1, False), c)
                      | Some n \<Rightarrow> if n \<le> 0 then ((-1, False), c)
                          else ((n - 1, True),
                                (put_seg (c_currentChecksum c) (AList.update k (e\<lparr>e_value := FormatInt (n - 1)\<rparr>) (seg_of c (c_currentChecksum c))) c)
                                  \<lparr>c_lru := element_MoveToFront (e_element e) (c_lru c)\<rparr>)))"
  using assms decrement_walk_single [of "map fst (c_segments c)" c now k]
  by (auto simp: DecrementIfPositive_def tryDecrementEntry_def surviving_def split: option.split)

lemma mem_decrement_surviving: "surviving c \<Longrightarrow> surviving (snd (mem_decrement t k c))"
  by (auto simp: mem_decrement_def surviving_decrement split: option.split)

lemma mem_decrement_other:
  "surviving c \<Longrightarrow> k' \<noteq> k \<Longrightarrow> cache_view t' (snd (mem_decrement t k c)) k' = cache_view t' c k'"
  using mem_decrement_surviving [of c t k]
  by (auto simp: mem_decrement_def surviving_decrement surviving_view split: option.split)

lemma mem_decrement_granted:
  assumes "surviving c" and "fst (mem_decrement t k c) = Inr (n, True)"
  shows "0 \<le> n \<and> (\<exists>v. cache_view t c k = Some v \<and> ParseInt v = Some (n + 1)) \<and>
    (\<forall>t'. cache_view t' (snd (mem_decrement t k c)) k = map_option (\<lambda>_. FormatInt n) (cache_view t' c k))"
  using assms mem_decrement_surviving [OF assms(1), of t k]
  by (auto simp: mem_decrement_def surviving_decrement surviving_view expired_def split: option.splits if_splits)

lemma mem_decrement_grants:
  "surviving c \<Longrightarrow> cache_view t c k = Some v \<Longrightarrow> ParseInt v = Some n \<Longrightarrow> 0 < n \<Longrightarrow> fst (mem_decrement t k c) = Inr (n - 1, True)"
  by (auto simp: mem_decrement_def surviving_decrement surviving_view split: option.splits if_splits)

lemma mem_decrement_refused:
  assumes "surviving c" and refused: "\<And>n. fst (mem_decrement t k c) \<noteq> Inr (n, True)"
  shows "snd (mem_decrement t k c) = c"
  using assms(1) refused [of "the (ParseInt (e_value (the (map_of (seg_of c (c_currentChecksum c)) k)))) - 1"]
  by (auto simp: mem_decrement_def surviving_decrement split: option.splits if_splits)

interpretation memc: counter_store mem_ops surviving cache_view mem_deadline mem_decrement
  by unfold_locales
    (simp_all add: mem_decrement_surviving mem_decrement_other mem_decrement_granted mem_decrement_grants mem_decrement_refused)

section \<open>The life of a capability\<close>

text \<open>The identifier a mint provisions, empty when it provisions none.\<close>

definition mint_jti ::
  "'s cap_host \<Rightarrow> instant \<Rightarrow> cap_random \<Rightarrow> string \<Rightarrow> string \<Rightarrow> string list \<Rightarrow> MintTokenRequest \<Rightarrow> duration \<Rightarrow> string" where
  "mint_jti hh now rnd sub kind held req ttlCap =
     (case mint_guards hh sub held req of
        Inl _ \<Rightarrow> []
      | Inr cfg \<Rightarrow>
          (case mintTokenOrJTI hh cfg now (cr_jti rnd) (mr_Delivery req = deliveryURL) sub kind (mr_Entitlements req)
                  (snd (mint_limits cfg ttlCap req)) of
             Inl _ \<Rightarrow> [] | Inr (_, jti) \<Rightarrow> jti))"

text \<open>What happens to the capabilities of a host: mints, redemptions of links and requests at the gate.\<close>

datatype cap_event =
    EvMint instant cap_random string string "string list" MintTokenRequest string duration
  | EvRedeem instant string http_request
  | EvRequest instant gate_request

text \<open>A request the gate admits as the capability \<open>jti\<close>.\<close>

definition admits_capability :: "string \<Rightarrow> gate_answer \<Rightarrow> bool" where
  "admits_capability jti a \<longleftrightarrow>
     (case a of Serve (Some (ac, _)) \<Rightarrow> claim_bool ac CapUsesClaim \<and> claim_string ac ''jti'' = jti | _ \<Rightarrow> False)"

text \<open>One event: how often it exercises the capability \<open>jti\<close>, and the state it leaves.\<close>

fun cap_step ::
  "'s cap_host \<Rightarrow> 's gate_lib \<Rightarrow> gate_config \<Rightarrow> 's gate_exchanger option \<Rightarrow> string \<Rightarrow> cap_event \<Rightarrow> 's gate_state \<Rightarrow>
   nat \<times> 's gate_state" where
  "cap_step hh Lb c ga jti (EvMint now rnd sub kind held req base cap) gs =
     (0, gs\<lparr>gs_cap := snd (mintCapabilityTokenWithCap hh now rnd sub kind held req base cap (gs_cap gs))\<rparr>)"
| "cap_step hh Lb c ga jti (EvRedeem now handle r) gs =
     (let (served, s') = TransferGet hh True now handle r (gs_cap gs);
          mine = (case fst (loadTransferRecord hh now handle (gs_cap gs)) of None \<Rightarrow> False | Some rec \<Rightarrow> tr_JTI rec = jti)
      in (if served \<noteq> None \<and> mine then 1 else 0, gs\<lparr>gs_cap := s'\<rparr>))"
| "cap_step hh Lb c ga jti (EvRequest now rq) gs =
     (let (r, gs') = WithAuthentication Lb c ga now rq gs in (if admits_capability jti (fst r) then 1 else 0, gs'))"

fun cap_run ::
  "'s cap_host \<Rightarrow> 's gate_lib \<Rightarrow> gate_config \<Rightarrow> 's gate_exchanger option \<Rightarrow> string \<Rightarrow> cap_event list \<Rightarrow> 's gate_state \<Rightarrow> nat" where
  "cap_run hh Lb c ga jti [] gs = 0"
| "cap_run hh Lb c ga jti (ev # evs) gs =
     (let (n, gs') = cap_step hh Lb c ga jti ev gs in n + cap_run hh Lb c ga jti evs gs')"

text \<open>No later mint draws the identifier again.\<close>

fun other_jti :: "'s cap_host \<Rightarrow> string \<Rightarrow> cap_event \<Rightarrow> bool" where
  "other_jti hh jti (EvMint now rnd sub kind held req base cap) \<longleftrightarrow> mint_jti hh now rnd sub kind held req cap \<noteq> jti"
| "other_jti hh jti _ \<longleftrightarrow> True"

text \<open>The gate touches the counters only by one decrement, which an admitted capability was granted.\<close>

lemma spend_cases:
  assumes "gl_Cap Lb = Some dec" and "spend_capability Lb now ac s = (spent, s')"
  shows "(s' = s \<and> (spent = None \<longrightarrow> \<not> claim_bool ac CapUsesClaim)) \<or>
    (\<exists>k. s' = snd (dec now k s) \<and> (spent = None \<longrightarrow> k = ''uses:'' @ claim_string ac ''jti'' \<and> (\<exists>n. fst (dec now k s) = Inr (n, True))))"
proof (cases "claim_bool ac CapUsesClaim \<and> claim_string ac ''jti'' \<noteq> []")
  case True
  obtain res s1 where d: "dec now (''uses:'' @ claim_string ac ''jti'') s = (res, s1)" by (rule prod.exhaust)
  show ?thesis using assms True d
    by (auto simp: spend_capability_def Let_def split: sum.splits prod.splits bool.splits
        intro!: exI [of _ "''uses:'' @ claim_string ac ''jti''"])
next
  case False
  then show ?thesis using assms by (auto simp: spend_capability_def Let_def split: if_splits)
qed

definition gate_spends :: "(instant \<Rightarrow> string \<Rightarrow> 's \<Rightarrow> (goerror + int \<times> bool) \<times> 's) \<Rightarrow> string \<Rightarrow> instant \<Rightarrow> bool \<Rightarrow> 's \<Rightarrow> 's \<Rightarrow> bool" where
  "gate_spends dec jti now used s s' \<longleftrightarrow>
     (s' = s \<and> \<not> used) \<or> (\<exists>k. s' = snd (dec now k s) \<and> (used \<longrightarrow> k = ''uses:'' @ jti \<and> (\<exists>n. fst (dec now k s) = Inr (n, True))))"

lemma admit_spends:
  assumes "gl_Cap Lb = Some dec" and "admit Lb c ga now source ac gs = (a, gs')"
  shows "gate_spends dec jti now (admits_capability jti a) (gs_cap gs) (gs_cap gs')"
proof -
  obtain ac1 g1 where r: "refreshed_context c ga now source ac (gs_grants gs) = (ac1, g1)" by (rule prod.exhaust)
  obtain spent cap1 where s: "spend_capability Lb now ac1 (gs_cap gs) = (spent, cap1)" by (rule prod.exhaust)
  show ?thesis using assms(2) r s spend_cases [OF assms(1) s]
    by (auto simp: admit_def Let_def gate_spends_def admits_capability_def split: option.splits)
qed

lemma refuse_spends: "\<not> admits_capability jti a \<Longrightarrow> gate_spends dec jti now (admits_capability jti a) s s"
  by (simp add: gate_spends_def)

lemma not_admits [simp]:
  "\<not> admits_capability jti (Refuse n ch b)" "\<not> admits_capability jti (Serve None)"
  by (simp_all add: admits_capability_def)

lemma reject_not_admits: "\<not> admits_capability jti (fst (reject Lb c rq source err))"
  by (simp add: reject_def)

lemma WithAuthentication_spends:
  assumes "gl_Cap Lb = Some dec" and "WithAuthentication Lb c ga now rq gs = (r, gs')"
  shows "gate_spends dec jti now (admits_capability jti (fst r)) (gs_cap gs) (gs_cap gs')"
proof (cases "\<exists>source tok. read_credential c rq = Token source tok \<and> \<not> (source = HEADER \<and> looksLikePAT tok (TokenPrefix c))")
  case False
  then show ?thesis using assms(2) by (auto simp: WithAuthentication_def gate_spends_def split: credential.splits if_splits)
next
  case True
  then obtain source tok where cred: "read_credential c rq = Token source tok" and pat: "\<not> (source = HEADER \<and> looksLikePAT tok (TokenPrefix c))" by blast
  obtain res ck0 calls0 st1 where i: "identify Lb c ga now rq source tok (gs_stores gs) = ((res, ck0, calls0), st1)"
    by (metis surj_pair)
  show ?thesis
  proof (cases "bindE res (vouch Lb ga)")
    case (Inl err)
    then show ?thesis using assms(2) cred pat i reject_not_admits [of jti Lb c rq source err]
      by (cases "reject Lb c rq source err") (auto simp: WithAuthentication_def gate_spends_def)
  next
    case (Inr ac)
    obtain ac1 ck1 calls1 st2 where x: "extend_session Lb c ga now rq source ac st1 = ((ac1, ck1, calls1), st2)" by (metis surj_pair)
    obtain a g where a: "admit Lb c ga now source ac1 (gs\<lparr>gs_stores := st2\<rparr>) = (a, g)" by (rule prod.exhaust)
    have "r = (a, ck0 @ ck1, calls0 @ calls1) \<and> gs' = g"
      using assms(2) cred pat i Inr x a by (auto simp: WithAuthentication_def)
    then show ?thesis using admit_spends [OF assms(1) a, of jti] by simp
  qed
qed

text \<open>A host on the counters of the locale.\<close>

definition on_store :: "'s cap_host \<Rightarrow> 's cache_ops \<Rightarrow> (instant \<Rightarrow> string \<Rightarrow> 's \<Rightarrow> (goerror + int \<times> bool) \<times> 's) \<Rightarrow> bool" where
  "on_store hh ops dec \<longleftrightarrow> ch_cap hh = Some \<lparr>cs_ops = ops, cs_Decrement = dec\<rparr>"

text \<open>The writes of a mint: nothing, the counter, or the counter and the record of a link.\<close>

lemma store_record_write:
  "on_store hh ops dec \<Longrightarrow> storeTransferRecord hh now h rec ttl s = (e, s') \<Longrightarrow>
   s' = s \<or> (\<exists>b. s' = snd (op_Set ops now (transferKeyPrefix @ h) b [WithTTL ttl] s))"
  by (auto simp: storeTransferRecord_def on_store_def split: sum.splits) (metis snd_conv)

lemma provision_write:
  "on_store hh ops dec \<Longrightarrow> provision_counter hh now jti uses ttl s =
     (if jti = [] then s else snd (op_Set ops now (''uses:'' @ jti) (FormatInt uses) [WithTTL ttl] s))"
  by (simp add: provision_counter_def on_store_def)

lemma mint_state_cases:
  assumes "on_store hh ops dec" and "mintCapabilityTokenWithCap hh now rnd sub kind held req base ttlCap s = (r, s')"
  shows "(s' = s \<and> (\<exists>e. r = Inl e)) \<or>
    (\<exists>uses ttl. let s1 = provision_counter hh now (mint_jti hh now rnd sub kind held req ttlCap) uses ttl s
       in (\<forall>res. r = Inr res \<longrightarrow> mres_UsesRemaining res = uses) \<and>
          (s' = s1 \<or> (\<exists>h b. s' = snd (op_Set ops now (transferKeyPrefix @ h) b [WithTTL ttl] s1))))"
proof (cases "mint_guards hh sub held req")
  case (Inl e)
  then show ?thesis using assms(2) by (auto simp: mintCapabilityTokenWithCap_def)
next
  case (Inr cfg)
  obtain uses ttl where l: "mint_limits cfg ttlCap req = (uses, ttl)" by (rule prod.exhaust)
  show ?thesis
  proof (cases "mintTokenOrJTI hh cfg now (cr_jti rnd) (mr_Delivery req = deliveryURL) sub kind (mr_Entitlements req) ttl")
    case (Inl e)
    then show ?thesis using assms(2) Inr l by (auto simp: mintCapabilityTokenWithCap_def)
  next
    case (Inr tj)
    obtain token jti where tj: "tj = (token, jti)" by (cases tj)
    have j: "mint_jti hh now rnd sub kind held req ttlCap = jti"
      using Inr tj l \<open>mint_guards hh sub held req = Inr cfg\<close> by (simp add: mint_jti_def)
    let ?s1 = "provision_counter hh now jti uses ttl s"
    have "(\<forall>res. r = Inr res \<longrightarrow> mres_UsesRemaining res = uses) \<and>
      (s' = ?s1 \<or> (\<exists>h rec e. storeTransferRecord hh now h rec ttl ?s1 = (e, s')))"
      using assms(2) Inr tj l \<open>mint_guards hh sub held req = Inr cfg\<close>
      by (auto simp: mintCapabilityTokenWithCap_def Let_def split: option.splits sum.splits prod.splits if_splits)
    then show ?thesis using store_record_write [OF assms(1)] j by (metis (no_types, lifting))
  qed
qed

lemma counter_key [simp]: "transferKeyPrefix @ h \<noteq> CHR ''u'' # x" "CHR ''u'' # x \<noteq> transferKeyPrefix @ h"
  by (simp_all add: transferKeyPrefix_def)

context counter_store
begin

lemma budget_mint:
  assumes "on_store hh ops dec" and "budget n (''uses:'' @ jti) s" and "mint_jti hh now rnd sub kind held req ttlCap \<noteq> jti"
  shows "budget n (''uses:'' @ jti) (snd (mintCapabilityTokenWithCap hh now rnd sub kind held req base ttlCap s))"
proof -
  obtain r s' where m: "mintCapabilityTokenWithCap hh now rnd sub kind held req base ttlCap s = (r, s')" by (rule prod.exhaust)
  have "budget n (''uses:'' @ jti) (provision_counter hh now (mint_jti hh now rnd sub kind held req ttlCap) uses ttl s)" for uses ttl
    using assms by (simp add: provision_write budget_set)
  then show ?thesis using mint_state_cases [OF assms(1) m] assms(2) m by (auto simp: Let_def budget_set)
qed

lemma budget_minted:
  assumes "on_store hh ops dec" and "inv s"
    and "mintCapabilityTokenWithCap hh now rnd sub kind held req base ttlCap s = (Inr res, s')"
    and "mint_jti hh now rnd sub kind held req ttlCap = jti" and "jti \<noteq> []"
    and "int64_min \<le> mres_UsesRemaining res" and "mres_UsesRemaining res \<le> int64_max"
  shows "budget (mres_UsesRemaining res) (''uses:'' @ jti) s'"
proof -
  have "budget (mres_UsesRemaining res) (''uses:'' @ jti) (provision_counter hh now jti (mres_UsesRemaining res) ttl s)" for ttl
    using budget_start [OF assms(2,6,7)] assms(1,5) by (simp add: provision_write)
  then show ?thesis using mint_state_cases [OF assms(1,3)] assms(4) by (auto simp: Let_def budget_set)
qed

lemma redeem_spends:
  assumes "on_store hh ops dec" and "TransferGet hh True now handle r s = (served, s')"
  shows "\<exists>s1. s1 = snd (op_Get ops now (transferKeyPrefix @ handle) s) \<and>
    gate_spends dec jti now
      (served \<noteq> None \<and> (case fst (loadTransferRecord hh now handle s) of None \<Rightarrow> False | Some rec \<Rightarrow> tr_JTI rec = jti)) s1 s'"
proof -
  obtain rec s1 where l: "loadTransferRecord hh now handle s = (rec, s1)" by (rule prod.exhaust)
  have s1: "s1 = snd (op_Get ops now (transferKeyPrefix @ handle) s)"
    using l assms(1) by (auto simp: loadTransferRecord_def on_store_def split: sum.splits prod.splits bool.splits)
  have c: "ch_cap hh = Some \<lparr>cs_ops = ops, cs_Decrement = dec\<rparr>" using assms(1) by (simp add: on_store_def)
  show ?thesis
  proof (cases rec)
    case None
    then show ?thesis using assms(2) l s1 by (auto simp: TransferGet_def gate_spends_def)
  next
    case (Some rc)
    obtain res s2 where d: "dec now (''uses:'' @ tr_JTI rc) s1 = (res, s2)" by (rule prod.exhaust)
    show ?thesis using assms(2) l s1 c d Some
      by (auto simp: TransferGet_def gate_spends_def Let_def split: if_splits sum.splits prod.splits bool.splits
          intro!: exI [of _ "''uses:'' @ tr_JTI rc"])
  qed
qed

lemma budget_spends:
  assumes "budget n (''uses:'' @ jti) s" and "gate_spends dec jti now used s s'"
  shows "\<exists>n'. budget n' (''uses:'' @ jti) s' \<and> (if used then 1 else 0) + nat n' \<le> nat n"
proof -
  consider "s' = s" "\<not> used" | k where "s' = snd (dec now k s)" "\<not> used"
    | m where "used" "s' = snd (dec now (''uses:'' @ jti) s)" "fst (dec now (''uses:'' @ jti) s) = Inr (m, True)"
    using assms(2) by (auto simp: gate_spends_def)
  then show ?thesis
  proof cases
    case 3
    from budget_spend [OF assms(1) 3(3)] 3 show ?thesis by (intro exI [of _ "n - 1"]) auto
  next
    case (2 k)
    with budget_dec [OF assms(1), of now k] show ?thesis by (intro exI [of _ n]) simp
  qed (use assms(1) in auto)
qed

lemma cap_step_budget:
  assumes "on_store hh ops dec" and "gl_Cap Lb = Some dec" and "other_jti hh jti ev"
    and "budget n (''uses:'' @ jti) (gs_cap gs)" and "cap_step hh Lb c ga jti ev gs = (m, gs')"
  shows "\<exists>n'. budget n' (''uses:'' @ jti) (gs_cap gs') \<and> m + nat n' \<le> nat n"
proof (cases ev)
  case (EvMint now rnd sub kind held req base cap)
  then show ?thesis using assms(3,5) budget_mint [OF assms(1,4)] by (intro exI [of _ n]) auto
next
  case (EvRedeem now handle r)
  obtain served s' where t: "TransferGet hh True now handle r (gs_cap gs) = (served, s')" by (rule prod.exhaust)
  let ?used = "served \<noteq> None \<and> (case fst (loadTransferRecord hh now handle (gs_cap gs)) of None \<Rightarrow> False | Some rec \<Rightarrow> tr_JTI rec = jti)"
  from redeem_spends [OF assms(1) t, of jti] obtain s1 where
    "budget n (''uses:'' @ jti) s1" "gate_spends dec jti now ?used s1 s'" using budget_get [OF assms(4)] by blast
  from budget_spends [OF this] show ?thesis using assms(5) EvRedeem t by (auto simp: Let_def)
next
  case (EvRequest now rq)
  obtain r g where w: "WithAuthentication Lb c ga now rq gs = (r, g)" by (rule prod.exhaust)
  from budget_spends [OF assms(4) WithAuthentication_spends [OF assms(2) w]] show ?thesis
    using assms(5) EvRequest w by auto
qed

lemma cap_run_budget:
  assumes "on_store hh ops dec" and "gl_Cap Lb = Some dec" and "\<forall>ev \<in> set evs. other_jti hh jti ev"
    and "budget n (''uses:'' @ jti) (gs_cap gs)"
  shows "cap_run hh Lb c ga jti evs gs \<le> nat n"
  using assms(3,4)
proof (induction evs arbitrary: gs n)
  case (Cons ev evs)
  obtain m gs' where st: "cap_step hh Lb c ga jti ev gs = (m, gs')" by (rule prod.exhaust)
  from cap_step_budget [OF assms(1,2) _ Cons.prems(2) st] Cons.prems(1) obtain n' where
    n': "budget n' (''uses:'' @ jti) (gs_cap gs')" "m + nat n' \<le> nat n" by auto
  from Cons.IH [OF _ n'(1)] Cons.prems(1) n'(2) show ?case by (simp add: st)
qed simp

end

section \<open>What a mint issues\<close>

text \<open>The claims of a bearer capability.\<close>

definition capability_claims :: "cap_lib \<Rightarrow> cap_config \<Rightarrow> instant \<Rightarrow> string \<Rightarrow> string \<Rightarrow> string \<Rightarrow> string list \<Rightarrow> duration \<Rightarrow> string \<Rightarrow> goany option" where
  "capability_claims L cfg now jti sub kind ents ttl =
     map_of [(''exp'', VInt (Unix (now + ttl))), (''iat'', VInt (Unix now)), (''jti'', VStr jti),
       (CapUsesClaim, VBool True), (''entitlements'', VStrs (lib_Compact (cl_Signer L) ents)), (ClaimSubjectKind, VStr kind),
       (''aud'', VStrs [cc_Audience cfg]), (''iss'', VStr (cc_Issuer cfg)), (''sub'', VStr sub)]"

lemma project_capability:
  assumes "subject_law (cl_Signer L)" and "sub \<noteq> []" and "s_mapper signer = None"
  shows "Project (cl_Signer L) signer (capability_context L sub kind ents) =
    Inr [(''sub'', VStr sub), (''iss'', VStr (s_issuer signer)), (''aud'', VStrs [s_audience signer]),
         (ClaimSubjectKind, VStr kind), (''entitlements'', VStrs (lib_Compact (cl_Signer L) ents))]"
proof -
  have "lib_GetSubject (cl_Signer L) (capability_context L sub kind ents) = Inr sub"
    using assms(1) by (simp add: subject_law_def capability_context_def)
  then show ?thesis using assms(2,3)
    by (simp add: Project_def capability_context_def projectedClaims_def mintDecidedClaims_def profileClaims_def
        ClaimSubjectKind_def compact_claim_def compactEntitlements_def)
qed

lemma limits_bounded:
  assumes "mint_limits cfg ttlCap req = (uses, ttl)"
  shows "ttl \<le> ttlCap" "uses \<le> max 1 (cc_UsesCap cfg)"
    "hasDestructiveVerb (mr_Entitlements req) (cc_DestructiveVerbs cfg) \<Longrightarrow> uses = 1 \<and> ttl \<le> 10 * second"
    "\<not> hasDestructiveVerb (mr_Entitlements req) (cc_DestructiveVerbs cfg) \<Longrightarrow> uses \<le> cc_UsesCap cfg"
    "0 < ttlCap \<Longrightarrow> mr_TTLSeconds req \<le> int64_max div second \<Longrightarrow> 0 < ttl"
    "1 \<le> cc_UsesCap cfg \<Longrightarrow> 1 \<le> uses"
proof -
  have w: "0 < wrap64 (mr_TTLSeconds req * second)" if "mr_TTLSeconds req \<le> int64_max div second" "0 < mr_TTLSeconds req"
  proof -
    have "mr_TTLSeconds req * second \<le> int64_max" and "0 < mr_TTLSeconds req * second" using that by simp_all
    then show ?thesis by (simp add: wrap64_id)
  qed
  show "0 < ttlCap \<Longrightarrow> mr_TTLSeconds req \<le> int64_max div second \<Longrightarrow> 0 < ttl"
    using assms w by (auto simp: mint_limits_def requested_ttl_def Let_def split: if_splits)
qed (use assms in \<open>auto simp: mint_limits_def requested_ttl_def clamp_uses_def Let_def split: if_splits\<close>)

text \<open>The algorithm a key signs with.\<close>

definition alg_of :: "key_type option \<Rightarrow> string option" where
  "alg_of k = (case k of Some RSAKey \<Rightarrow> Some ''RS256'' | Some ECDSAKey \<Rightarrow> Some ''ES256'' | _ \<Rightarrow> None)"

lemma minted_token:
  assumes "subject_law (cl_Signer (ch_lib hh))" and "sub \<noteq> []"
    and "mintTokenOrJTI hh cfg now jti False sub kind ents ttl = Inr (token, jti')"
  shows "\<exists>alg claims. alg_of (cc_Key cfg) = Some alg \<and>
    map_of claims = capability_claims (ch_lib hh) cfg now jti sub kind ents ttl \<and>
    lib_SignedString (cl_Signer (ch_lib hh)) alg (cc_KeyId cfg) claims = Inr token"
proof -
  let ?L = "cl_Signer (ch_lib hh)"
  from assms(3) obtain signer where n: "NewSigner (cc_Audience cfg) ttl (cc_Issuer cfg) (cc_Key cfg) (cc_KeyId cfg) None = Inr signer"
    by (auto simp: mintTokenOrJTI_def Let_def split: if_splits sum.splits)
  then have s: "s_mapper signer = None" "s_issuer signer = cc_Issuer cfg" "s_audience signer = cc_Audience cfg"
    "s_duration signer = ttl" "s_kid signer = cc_KeyId cfg" "cc_Key cfg = Some (s_key signer)"
    by (auto simp: NewSigner_def split: if_splits option.splits)
  define p where "p = AList.update CapUsesClaim (VBool True) [(''sub'', VStr sub), (''iss'', VStr (cc_Issuer cfg)), (''aud'', VStrs [cc_Audience cfg]),
         (ClaimSubjectKind, VStr kind), (''entitlements'', VStrs (lib_Compact ?L ents))]"
  have t: "SignProjected ?L signer now jti p = Inr token"
    using assms(3) n project_capability [OF assms(1,2) s(1), of kind ents] s
    by (auto simp: mintTokenOrJTI_def p_def Let_def split: if_splits sum.splits)
  have sub: "lib_GetSubject ?L p = Inr sub"
    using assms(1) by (simp add: subject_law_def p_def CapUsesClaim_def)
  define out where "out = maps_Copy [(''exp'', VInt (Unix (now + ttl))), (''iat'', VInt (Unix now)), (''jti'', VStr jti)] p"
  have o: "outboundClaims ?L signer now jti p = (if expires (map_of out ''exp'') then Inr out else Inl ErrNonExpiring)"
    using sub assms(2) s(4) by (simp add: outboundClaims_def Let_def out_def)
  have m: "map_of out = capability_claims (ch_lib hh) cfg now jti sub kind ents ttl"
    unfolding capability_claims_def out_def
    by (rule arg_cong [of _ _ map_of]) (simp add: maps_Copy_def p_def CapUsesClaim_def ClaimSubjectKind_def)
  have "\<exists>alg. alg_of (cc_Key cfg) = Some alg \<and> lib_SignedString ?L alg (cc_KeyId cfg) out = Inr token"
    using t o s(5,6) by (cases "s_key signer") (auto simp: SignProjected_def alg_of_def split: if_splits)
  then show ?thesis using m by blast
qed

lemma mint_guards_Inr:
  assumes "mint_guards hh sub held req = Inr cfg"
  shows "ch_config hh = Some cfg \<and> cc_Enabled cfg \<and> sub \<noteq> [] \<and> mr_Entitlements req \<noteq> [] \<and>
    snd (cl_VerifyAttenuation (ch_lib hh) held (mr_Entitlements req)) \<and>
    (mr_Delivery req = deliveryURL \<longrightarrow> cc_URLDelivery cfg \<and> validateTransferTarget (cl_Quote (ch_lib hh)) (mr_Target req) = None)"
  using assms by (cases "cl_VerifyAttenuation (ch_lib hh) held (mr_Entitlements req)")
    (auto simp: mint_guards_def split: option.splits if_splits)

lemma mint_success:
  assumes "mintCapabilityTokenWithCap hh now rnd sub kind held req base ttlCap s = (Inr res, s')"
  shows "\<exists>cfg uses ttl token jti. mint_guards hh sub held req = Inr cfg \<and> mint_limits cfg ttlCap req = (uses, ttl) \<and>
    mintTokenOrJTI hh cfg now (cr_jti rnd) (mr_Delivery req = deliveryURL) sub kind (mr_Entitlements req) ttl = Inr (token, jti) \<and>
    mres_Entitlements res = mr_Entitlements req \<and> mres_ExpiresAt res = Unix (now + ttl) \<and> mres_UsesRemaining res = uses \<and>
    (if mr_Delivery req = deliveryURL \<and> mr_Target req \<noteq> None then mres_Token res = [] else mres_URL res = [] \<and> mres_Token res = token)"
proof -
  from assms obtain cfg where g: "mint_guards hh sub held req = Inr cfg"
    by (auto simp: mintCapabilityTokenWithCap_def split: sum.splits)
  obtain uses ttl where l: "mint_limits cfg ttlCap req = (uses, ttl)" by (rule prod.exhaust)
  let ?m = "mintTokenOrJTI hh cfg now (cr_jti rnd) (mr_Delivery req = deliveryURL) sub kind (mr_Entitlements req) ttl"
  from assms g l obtain tj where tj: "?m = Inr tj" by (cases ?m) (auto simp: mintCapabilityTokenWithCap_def Let_def)
  obtain token jti where t: "tj = (token, jti)" by (cases tj)
  show ?thesis using assms g l tj t
    by (intro exI [of _ cfg] exI [of _ uses] exI [of _ ttl] exI [of _ token] exI [of _ jti])
      (auto simp: mintCapabilityTokenWithCap_def Let_def split: sum.splits option.splits prod.splits if_splits)
qed

text \<open>C6: a capability never exceeds what its caller holds or what the host allows. When a mint answers with a
  capability, minting is enabled, the caller is named and of a known kind, and the entitlements library confirmed that
  the requested entitlements are held. The capability carries exactly these, expires no later than the ceiling of the
  surface allows and within ten seconds if any of its verbs is destructive, and has at most the configured number of
  uses, one if destructive. A bearer capability is a token signed with the host's key over exactly the caller's subject
  and kind, the compacted entitlements, that expiry, its identifier and the mark that makes the gate count its uses; a
  link is issued only when links are enabled, for a target that was validated, and carries no token.\<close>

theorem capability_attenuated:
  assumes "subject_law (cl_Signer (ch_lib hh))"
    and "mintCapabilityTokenWithCap hh now rnd sub kind held req base ttlCap s = (Inr res, s')"
  shows "\<exists>cfg ttl. ch_config hh = Some cfg \<and> cc_Enabled cfg \<and> sub \<noteq> [] \<and> kind_Known (cl_Kinds (ch_lib hh)) kind \<and>
    mr_Entitlements req \<noteq> [] \<and> snd (cl_VerifyAttenuation (ch_lib hh) held (mr_Entitlements req)) \<and>
    mres_Entitlements res = mr_Entitlements req \<and> mres_ExpiresAt res = Unix (now + ttl) \<and> ttl \<le> ttlCap \<and>
    (let destructive = hasDestructiveVerb (mr_Entitlements req) (cc_DestructiveVerbs cfg)
     in (destructive \<longrightarrow> mres_UsesRemaining res = 1 \<and> ttl \<le> 10 * second) \<and>
        (\<not> destructive \<longrightarrow> mres_UsesRemaining res \<le> cc_UsesCap cfg)) \<and>
    (if mr_Delivery req = deliveryURL
     then cc_URLDelivery cfg \<and> validateTransferTarget (cl_Quote (ch_lib hh)) (mr_Target req) = None \<and> mres_Token res = []
     else mres_URL res = [] \<and>
       (\<exists>alg claims. alg_of (cc_Key cfg) = Some alg \<and>
          map_of claims = capability_claims (ch_lib hh) cfg now (cr_jti rnd) sub kind (mr_Entitlements req) ttl \<and>
          lib_SignedString (cl_Signer (ch_lib hh)) alg (cc_KeyId cfg) claims = Inr (mres_Token res)))"
proof -
  from mint_success [OF assms(2)] obtain cfg uses ttl token jti where
    g: "mint_guards hh sub held req = Inr cfg" and l: "mint_limits cfg ttlCap req = (uses, ttl)" and
    t: "mintTokenOrJTI hh cfg now (cr_jti rnd) (mr_Delivery req = deliveryURL) sub kind (mr_Entitlements req) ttl = Inr (token, jti)" and
    r: "mres_Entitlements res = mr_Entitlements req" "mres_ExpiresAt res = Unix (now + ttl)" "mres_UsesRemaining res = uses"
      "if mr_Delivery req = deliveryURL \<and> mr_Target req \<noteq> None then mres_Token res = [] else mres_URL res = [] \<and> mres_Token res = token"
    by blast
  have k: "kind_Known (cl_Kinds (ch_lib hh)) kind" using t by (auto simp: mintTokenOrJTI_def Let_def split: if_splits)
  have gs: "ch_config hh = Some cfg" "cc_Enabled cfg" "sub \<noteq> []" "mr_Entitlements req \<noteq> []"
    "snd (cl_VerifyAttenuation (ch_lib hh) held (mr_Entitlements req))"
    "mr_Delivery req = deliveryURL \<longrightarrow> cc_URLDelivery cfg \<and> validateTransferTarget (cl_Quote (ch_lib hh)) (mr_Target req) = None"
    using mint_guards_Inr [OF g] by auto
  have tgt: "mr_Delivery req = deliveryURL \<longrightarrow> mr_Target req \<noteq> None"
    using gs(6) by (cases "mr_Target req") (auto simp: validateTransferTarget_def)
  have tok: "mr_Delivery req \<noteq> deliveryURL \<Longrightarrow> \<exists>alg claims. alg_of (cc_Key cfg) = Some alg \<and>
      map_of claims = capability_claims (ch_lib hh) cfg now (cr_jti rnd) sub kind (mr_Entitlements req) ttl \<and>
      lib_SignedString (cl_Signer (ch_lib hh)) alg (cc_KeyId cfg) claims = Inr token"
    using t by (intro minted_token [OF assms(1) gs(3)]) simp
  show ?thesis
    using gs k r tgt limits_bounded(1,3,4) [OF l] tok
    by (intro exI [of _ cfg] exI [of _ ttl]) (cases "mr_Delivery req = deliveryURL"; simp add: Let_def)
qed

lemma clamp_range:
  assumes "mint_limits cfg ttlCap req = (uses, ttl)" and "int64_min \<le> cc_UsesCap cfg" and "cc_UsesCap cfg \<le> int64_max"
  shows "int64_min \<le> uses \<and> uses \<le> int64_max"
  using assms by (auto simp: mint_limits_def clamp_uses_def Let_def split: if_splits)

text \<open>C7: a capability is good for the uses its mint reports, whatever way and in whatever order it is exercised.
  After a mint that provisioned the identifier \<open>jti\<close> in the in-memory cache, take any sequence of later mints,
  redemptions of links and requests at the gate in which no mint draws the same identifier again: the requests admitted
  as this capability and the redemptions served for it are together no more than the uses it was minted with.\<close>

theorem capability_total_budget:
  assumes "on_store hh mem_ops mem_decrement" and "gl_Cap Lb = Some mem_decrement" and "surviving (gs_cap gs)"
    and "\<And>cfg. ch_config hh = Some cfg \<Longrightarrow> int64_min \<le> cc_UsesCap cfg \<and> cc_UsesCap cfg \<le> int64_max"
    and "mintCapabilityTokenWithCap hh now rnd sub kind held req base ttlCap (gs_cap gs) = (Inr res, s')"
    and "mint_jti hh now rnd sub kind held req ttlCap = jti" and "jti \<noteq> []"
    and "\<forall>ev \<in> set evs. other_jti hh jti ev"
  shows "cap_run hh Lb c ga jti evs (gs\<lparr>gs_cap := s'\<rparr>) \<le> nat (mres_UsesRemaining res)"
proof -
  from mint_success [OF assms(5)] obtain cfg ttl where g: "mint_guards hh sub held req = Inr cfg"
    and l: "mint_limits cfg ttlCap req = (mres_UsesRemaining res, ttl)" by blast
  have "ch_config hh = Some cfg" using mint_guards_Inr [OF g] by blast
  from clamp_range [OF l] assms(4) [OF this]
  have "int64_min \<le> mres_UsesRemaining res" "mres_UsesRemaining res \<le> int64_max" by auto
  from memc.budget_minted [OF assms(1,3,5-7) this] show ?thesis
    by (intro memc.cap_run_budget [OF assms(1,2,8)]) simp
qed

text \<open>The link a mint stores is the one its redemption reads.\<close>

lemma url_mint_state:
  assumes "on_store hh mem_ops mem_decrement"
    and "mintCapabilityTokenWithCap hh now rnd sub kind held req base ttlCap s = (Inr res, s')"
    and "mr_Delivery req = deliveryURL" and "cr_handle rnd = Inr h" and "mr_Target req = Some tgt" and "cr_jti rnd \<noteq> []"
  shows "\<exists>cfg uses ttl b. mint_guards hh sub held req = Inr cfg \<and> mint_limits cfg ttlCap req = (uses, ttl) \<and>
    cl_Marshal (ch_lib hh) (transfer_record now (cr_jti rnd) sub kind req tgt) = Inr b \<and>
    s' = cache_Set now (transferKeyPrefix @ h) b [WithTTL ttl] (cache_Set now (''uses:'' @ cr_jti rnd) (FormatInt uses) [WithTTL ttl] s)"
proof -
  from mint_success [OF assms(2)] obtain cfg uses ttl token jti where
    g: "mint_guards hh sub held req = Inr cfg" and l: "mint_limits cfg ttlCap req = (uses, ttl)" and
    t: "mintTokenOrJTI hh cfg now (cr_jti rnd) True sub kind (mr_Entitlements req) ttl = Inr (token, jti)"
    using assms(3) by auto
  have "jti = cr_jti rnd" using t by (auto simp: mintTokenOrJTI_def Let_def split: if_splits)
  then show ?thesis using assms g l t
    by (auto simp: mintCapabilityTokenWithCap_def storeTransferRecord_def provision_counter_def on_store_def Let_def
        split: sum.splits)
qed

lemma mem_load_record:
  assumes "on_store hh mem_ops dec" and "surviving s"
  shows "fst (loadTransferRecord hh t h s) =
    (case cache_view t s (transferKeyPrefix @ h) of None \<Rightarrow> None | Some v \<Rightarrow> cl_Unmarshal (ch_lib hh) v)"
    and "snd (loadTransferRecord hh t h s) = snd (cache_Get t (transferKeyPrefix @ h) s)"
proof -
  have g: "cache_Get t (transferKeyPrefix @ h) s =
    (found_result (cache_view t s (transferKeyPrefix @ h)), snd (cache_Get t (transferKeyPrefix @ h) s))"
    using mem_get_result [OF assms(2)] by (metis prod.collapse)
  obtain s1 where s1: "snd (cache_Get t (transferKeyPrefix @ h) s) = s1" by simp
  show "fst (loadTransferRecord hh t h s) =
    (case cache_view t s (transferKeyPrefix @ h) of None \<Rightarrow> None | Some v \<Rightarrow> cl_Unmarshal (ch_lib hh) v)"
    using assms(1) g [unfolded s1] by (auto simp: loadTransferRecord_def on_store_def split: option.split)
  show "snd (loadTransferRecord hh t h s) = snd (cache_Get t (transferKeyPrefix @ h) s)"
    using assms(1) g [unfolded s1] s1 by (cases "cache_view t s (transferKeyPrefix @ h)") (auto simp: loadTransferRecord_def on_store_def)
qed

lemma redeem_fresh_link:
  assumes "on_store hh mem_ops mem_decrement" and "surviving s"
    and "cache_view t s (transferKeyPrefix @ h) = Some v" and "cl_Unmarshal (ch_lib hh) v = Some rec"
    and "cache_view t s (''uses:'' @ tr_JTI rec) = Some (FormatInt n)" and "0 < n" and "n \<le> int64_max"
  shows "fst (TransferGet hh True t h r s) =
    (if EqualFold (hr_Method r) (tt_Method (tr_Target rec)) \<and>
        VetoCredential (cl_Kinds (ch_lib hh)) (ch_exchanger hh) (tr_Sub rec)
          (ContextSubjectKind (cl_Kinds (ch_lib hh)) (ch_exchanger hh) (transfer_context rec)) (tr_IssuedAt rec) SiteTransferRedeem = None
     then Some (bound_request rec r, transfer_context rec) else None)"
proof -
  obtain s1 where s1: "snd (cache_Get t (transferKeyPrefix @ h) s) = s1" by simp
  have l: "loadTransferRecord hh t h s = (Some rec, s1)"
    using mem_load_record [OF assms(1,2), of t h] assms(3,4) s1 by (metis option.simps(5) prod.collapse)
  have "surviving s1" "cache_view t s1 (''uses:'' @ tr_JTI rec) = Some (FormatInt n)"
    using mem_get_surviving [OF assms(2), of t "transferKeyPrefix @ h"] cache_Get_view [of t t "transferKeyPrefix @ h" s] s1 assms(5) by auto
  from memc.dec_grants [OF this, of n] assms(6,7) have "fst (mem_decrement t (''uses:'' @ tr_JTI rec) s1) = Inr (n - 1, True)"
    by (simp add: ParseInt_FormatInt)
  then obtain s2 where d: "mem_decrement t (''uses:'' @ tr_JTI rec) s1 = (Inr (n - 1, True), s2)" by (metis prod.collapse)
  have c: "ch_cap hh = Some \<lparr>cs_ops = mem_ops, cs_Decrement = mem_decrement\<rparr>" using assms(1) by (simp add: on_store_def)
  show ?thesis using d by (simp add: TransferGet_def l c Let_def)
qed

text \<open>A link performs exactly the operation it was minted for, as the caller that minted it, until it expires.
  On an in-memory cache that evicts nothing, the first redemption of a fresh link before its expiry is handed on when
  the request has the target's method and the veto still admits the minting identity: with the target's method and path,
  no query, of the headers only those on the allowlist, and the subject, kind and entitlements of the mint. In every
  other case, and after the expiry, it is answered as gone.\<close>

theorem transfer_link_round_trip:
  assumes "on_store hh mem_ops mem_decrement" and "unbounded s"
    and "\<And>rec v. cl_Marshal (ch_lib hh) rec = Inr v \<Longrightarrow> cl_Unmarshal (ch_lib hh) v = Some rec"
    and "ch_config hh = Some cfg" and "1 \<le> cc_UsesCap cfg" and "cc_UsesCap cfg \<le> int64_max"
    and "mintCapabilityTokenWithCap hh now rnd sub kind held req base ttlCap s = (Inr res, s')"
    and "mr_Delivery req = deliveryURL" and "mr_Target req = Some tgt" and "cr_handle rnd = Inr h" and "cr_jti rnd \<noteq> []"
  defines "rec \<equiv> transfer_record now (cr_jti rnd) sub kind req tgt"
  shows "fst (TransferGet hh True t h r s') =
    (if t \<le> now + snd (mint_limits cfg ttlCap req) \<and> EqualFold (hr_Method r) (tt_Method tgt) \<and>
        VetoCredential (cl_Kinds (ch_lib hh)) (ch_exchanger hh) sub
          (ContextSubjectKind (cl_Kinds (ch_lib hh)) (ch_exchanger hh) (transfer_context rec)) (Unix now) SiteTransferRedeem = None
     then Some (r\<lparr>hr_Method := tt_Method tgt, hr_Path := tt_Path tgt, hr_Query := [], hr_Header := clean_headers (hr_Header r)\<rparr>,
                [(''sub'', VStr sub), (''entitlements'', VStrs (mr_Entitlements req))] @
                (if kind \<noteq> [] then [(ClaimSubjectKind, VStr kind)] else []))
     else None)"
proof -
  from url_mint_state [OF assms(1,7,8,10,9,11)] obtain cfg' uses ttl b where
    g: "mint_guards hh sub held req = Inr cfg'" and l: "mint_limits cfg' ttlCap req = (uses, ttl)" and
    b: "cl_Marshal (ch_lib hh) rec = Inr b" and
    s': "s' = cache_Set now (transferKeyPrefix @ h) b [WithTTL ttl] (cache_Set now (''uses:'' @ cr_jti rnd) (FormatInt uses) [WithTTL ttl] s)"
    unfolding rec_def by blast
  have cfg: "cfg' = cfg" using mint_guards_Inr [OF g] assms(4) by simp
  let ?s1 = "cache_Set now (''uses:'' @ cr_jti rnd) (FormatInt uses) [WithTTL ttl] s"
  have u: "surviving s" "c_maxItems s \<le> 0" using assms(2) by (auto simp: unbounded_def)
  have sv: "surviving ?s1" "surviving s'" using u(1) s' by (simp_all add: mem_set_surviving)
  have d: "mem_deadline now [WithTTL ttl] c = now + ttl" for c
    by (simp add: mem_deadline_def entry_expiry_def applySetOptions_def)
  have v1: "cache_view t s' (transferKeyPrefix @ h) = (if t \<le> now + ttl then Some b else None)"
    using mem.set_self [OF sv(1), of t now "transferKeyPrefix @ h" b "[WithTTL ttl]"] s' d by simp
  have v2: "cache_view t s' (''uses:'' @ cr_jti rnd) = (if t \<le> now + ttl then Some (FormatInt uses) else None)"
    using mem.set_self [OF u(1), of t now "''uses:'' @ cr_jti rnd" "FormatInt uses" "[WithTTL ttl]"] s' d
      mem_set_other [OF sv(1), of "''uses:'' @ cr_jti rnd" "transferKeyPrefix @ h" t now b "[WithTTL ttl]"] u(2) by simp
  have n: "0 < uses" "uses \<le> int64_max" using limits_bounded(2,6) [OF l] assms(5,6) cfg by auto
  show ?thesis
  proof (cases "t \<le> now + ttl")
    case True
    have "tr_JTI rec = cr_jti rnd" "tr_Sub rec = sub" "tr_IssuedAt rec = Unix now" "tr_Target rec = tgt"
      "transfer_context rec = [(''sub'', VStr sub), (''entitlements'', VStrs (mr_Entitlements req))] @
                (if kind \<noteq> [] then [(ClaimSubjectKind, VStr kind)] else [])"
      by (simp_all add: rec_def transfer_record_def transfer_context_def)
    with redeem_fresh_link [OF assms(1) sv(2), of t h b rec uses r] True v1 v2 assms(3) [OF b] n l cfg
    show ?thesis by (simp add: bound_request_def)
  next
    case False
    have "fst (loadTransferRecord hh t h s') = None" using mem_load_record(1) [OF assms(1) sv(2), of t h] v1 False by simp
    then have "fst (TransferGet hh True t h r s') = None"
      by (cases "loadTransferRecord hh t h s'") (simp add: TransferGet_def)
    then show ?thesis using False l cfg by simp
  qed
qed

section \<open>Witnesses\<close>

type_synonym record_tuple = "string \<times> string \<times> string \<times> int \<times> string list \<times> string \<times> string"

definition tuple_of_record :: "transferRecord \<Rightarrow> record_tuple" where
  "tuple_of_record r = (tr_JTI r, tr_Sub r, tr_Kind r, tr_IssuedAt r, tr_Entitlements r, tt_Method (tr_Target r), tt_Path (tr_Target r))"

definition record_of_tuple :: "record_tuple \<Rightarrow> transferRecord" where
  "record_of_tuple = (\<lambda>(j, s, k, i, e, m, p). \<lparr>tr_JTI = j, tr_Sub = s, tr_Kind = k, tr_IssuedAt = i, tr_Entitlements = e,
     tr_Target = \<lparr>tt_Method = m, tt_Path = p\<rparr>\<rparr>)"

lemma record_of_tuple_of [simp]: "record_of_tuple (tuple_of_record r) = r"
  by (simp add: record_of_tuple_def tuple_of_record_def)

definition demo_cap_lib :: cap_lib where
  "demo_cap_lib = \<lparr>cl_Signer = demo_lib, cl_Kinds = demo_kinds,
     cl_VerifyAttenuation = (\<lambda>held req. if set req \<subseteq> set held then ([], True) else (hd req, False)),
     cl_ParseUnverified = (\<lambda>_. Inr [(''jti'', VStr ''j1'')]),
     cl_Marshal = (\<lambda>r. Inr (replicate (to_nat (tuple_of_record r)) (CHR ''x''))),
     cl_Unmarshal = (\<lambda>s. Some (record_of_tuple (from_nat (length s)))), cl_Quote = id\<rparr>"

definition demo_cap_config :: cap_config where
  "demo_cap_config = \<lparr>cc_Enabled = True, cc_URLDelivery = True, cc_TTLCap = 60 * second, cc_CapabilityTTLCap = 0, cc_UsesCap = 3,
     cc_DestructiveVerbs = [''delete''], cc_Audience = ''host'', cc_Issuer = ''host'', cc_Key = Some RSAKey, cc_KeyId = ''k1''\<rparr>"

definition demo_cap_host :: "InMemoryCache cap_host" where
  "demo_cap_host = \<lparr>ch_config = Some demo_cap_config, ch_cap = Some \<lparr>cs_ops = mem_ops, cs_Decrement = mem_decrement\<rparr>,
     ch_exchanger = None, ch_lib = demo_cap_lib\<rparr>"

definition demo_mint_request :: MintTokenRequest where
  "demo_mint_request = \<lparr>mr_Entitlements = [''files:a:read''], mr_TTLSeconds = 600, mr_Uses = 2, mr_Delivery = [], mr_Target = None\<rparr>"

definition demo_link_request :: MintTokenRequest where
  "demo_link_request = demo_mint_request\<lparr>mr_Delivery := ''url'', mr_Target := Some \<lparr>tt_Method = ''GET'', tt_Path = ''/files/a''\<rparr>\<rparr>"

definition demo_random :: cap_random where "demo_random = \<lparr>cr_jti = ''j1'', cr_handle = Inr ''h1''\<rparr>"

definition demo_cap_cache :: InMemoryCache where
  "demo_cap_cache = new_cache ''cap'' \<lparr>o_MaxItems = Some 0, o_TTL = None, o_Uncycled = True\<rparr> (NewCacheManager ''host'' None)"

lemma demo_cap_unbounded: "unbounded demo_cap_cache"
  unfolding unbounded_def demo_cap_cache_def by (simp add: surviving_def new_cache_def)

lemma demo_on_store: "on_store demo_cap_host mem_ops mem_decrement"
  by (simp add: on_store_def demo_cap_host_def)

lemma demo_guards:
  "mint_guards demo_cap_host ''u1'' [''files:a:read''] demo_mint_request = Inr demo_cap_config"
  "mint_guards demo_cap_host ''u1'' [''files:a:read''] demo_link_request = Inr demo_cap_config"
  by (simp_all add: mint_guards_def demo_cap_host_def demo_cap_config_def demo_mint_request_def demo_link_request_def demo_cap_lib_def
      deliveryURL_def validateTransferTarget_def, code_simp)

lemma demo_limits:
  "mint_limits demo_cap_config (60 * second) demo_mint_request = (2, 60 * second)"
  "mint_limits demo_cap_config (60 * second) demo_link_request = (2, 60 * second)"
  by code_simp+

lemma demo_token:
  "mintTokenOrJTI demo_cap_host demo_cap_config 0 ''j1'' False ''u1'' ''User'' [''files:a:read''] (60 * second) = Inr (''RS256.u1'', ''j1'')"
  "mintTokenOrJTI demo_cap_host demo_cap_config 0 ''j1'' True ''u1'' ''User'' [''files:a:read''] (60 * second) = Inr ([], ''j1'')"
proof -
  let ?signer = "\<lparr>s_audience = ''host'', s_duration = 60 * second, s_issuer = ''host'', s_key = RSAKey, s_kid = ''k1'', s_mapper = None\<rparr>"
  have p: "Project demo_lib ?signer (capability_context demo_cap_lib ''u1'' ''User'' [''files:a:read'']) =
    Inr [(''sub'', VStr ''u1''), (''iss'', VStr ''host''), (''aud'', VStrs [''host'']), (ClaimSubjectKind, VStr ''User''),
         (''entitlements'', VStrs [''files:a:read''])]"
    using project_capability [of demo_cap_lib "''u1''" ?signer "''User''" "[''files:a:read'']"] demo_lib_law
    by (simp add: demo_cap_lib_def demo_lib_def)
  have q: "SignProjected demo_lib ?signer 0 ''j1''
     (AList.update CapUsesClaim (VBool True) [(''sub'', VStr ''u1''), (''iss'', VStr ''host''), (''aud'', VStrs [''host'']), (ClaimSubjectKind, VStr ''User''),
         (''entitlements'', VStrs [''files:a:read''])]) = Inr ''RS256.u1''" by code_simp
  have n: "NewSigner ''host'' (60 * second) ''host'' (Some RSAKey) ''k1'' None = Inr ?signer" by (simp add: NewSigner_def)
  show "mintTokenOrJTI demo_cap_host demo_cap_config 0 ''j1'' False ''u1'' ''User'' [''files:a:read''] (60 * second) = Inr (''RS256.u1'', ''j1'')"
    using n p q
    by (simp add: mintTokenOrJTI_def demo_cap_host_def demo_cap_config_def demo_cap_lib_def demo_kinds_def token_jti_def claim_string_def)
  show "mintTokenOrJTI demo_cap_host demo_cap_config 0 ''j1'' True ''u1'' ''User'' [''files:a:read''] (60 * second) = Inr ([], ''j1'')"
    by (simp add: mintTokenOrJTI_def demo_cap_host_def demo_cap_lib_def demo_kinds_def)
qed

lemma demo_mint:
  "\<exists>res s'. mintCapabilityTokenWithCap demo_cap_host 0 demo_random ''u1'' ''User'' [''files:a:read''] demo_mint_request [] (60 * second) demo_cap_cache = (Inr res, s') \<and>
     mres_UsesRemaining res = 2 \<and> mres_ExpiresAt res = 60 \<and> mres_Token res = ''RS256.u1''"
  using demo_guards(1) demo_limits(1) demo_token(1)
  by (simp add: mintCapabilityTokenWithCap_def demo_random_def deliveryURL_def)
    (simp add: demo_mint_request_def Unix_def)

lemma demo_link:
  "\<exists>res s'. mintCapabilityTokenWithCap demo_cap_host 0 demo_random ''u1'' ''User'' [''files:a:read''] demo_link_request [] (60 * second) demo_cap_cache = (Inr res, s')"
  using demo_guards(2) demo_limits(2) demo_token(2)
  by (simp add: mintCapabilityTokenWithCap_def demo_random_def deliveryURL_def)
    (simp add: demo_link_request_def demo_mint_request_def storeTransferRecord_def demo_cap_host_def demo_cap_lib_def)

theorem capability_attenuated_witness:
  "\<exists>ttl. ttl \<le> 60 * second \<and> Unix ttl = 60 \<and> snd (cl_VerifyAttenuation demo_cap_lib [''files:a:read''] [''files:a:read'']) \<and>
     2 \<le> cc_UsesCap demo_cap_config"
proof -
  from demo_mint obtain res s' where
    m: "mintCapabilityTokenWithCap demo_cap_host 0 demo_random ''u1'' ''User'' [''files:a:read''] demo_mint_request [] (60 * second) demo_cap_cache = (Inr res, s')"
    and r: "mres_UsesRemaining res = 2" "mres_ExpiresAt res = 60" by blast
  have h: "ch_lib demo_cap_host = demo_cap_lib" "ch_config demo_cap_host = Some demo_cap_config"
    "mr_Entitlements demo_mint_request = [''files:a:read'']" "cl_Signer demo_cap_lib = demo_lib"
    by (simp_all add: demo_cap_host_def demo_mint_request_def demo_cap_lib_def)
  have d: "\<not> hasDestructiveVerb [''files:a:read''] (cc_DestructiveVerbs demo_cap_config)" by code_simp
  have "subject_law (cl_Signer (ch_lib demo_cap_host))" using h demo_lib_law by simp
  from capability_attenuated [OF this m] show ?thesis
    unfolding h r using d by (auto simp: Let_def)
qed

definition demo_cap_gate :: "InMemoryCache gate_lib" where
  "demo_cap_gate = demo_gate_lib\<lparr>gl_Cap := Some mem_decrement\<rparr>"

definition demo_redeem :: http_request where
  "demo_redeem = \<lparr>hr_Method = ''GET'', hr_Host = ''h'', hr_Path = ''/-/transfer/h1'', hr_Query = ''a=1'',
     hr_Header = [(''Accept'', [''*/*'']), (''Cookie'', [''c''])]\<rparr>"

theorem capability_total_budget_witness:
  "cap_run demo_cap_host demo_cap_gate demo_gate_config None ''j1''
     [EvRequest second (demo_bearer ''cap''), EvRequest second (demo_bearer ''cap''), EvRequest second (demo_bearer ''cap''),
      EvRedeem second ''h1'' demo_redeem]
     (demo_gate_state\<lparr>gs_cap := snd (mintCapabilityTokenWithCap demo_cap_host 0 demo_random ''u1'' ''User'' [''files:a:read''] demo_mint_request [] (60 * second) demo_cap_cache)\<rparr>) \<le> 2"
proof -
  let ?gs = "demo_gate_state\<lparr>gs_cap := demo_cap_cache\<rparr>"
  from demo_mint obtain res s' where
    m: "mintCapabilityTokenWithCap demo_cap_host 0 demo_random ''u1'' ''User'' [''files:a:read''] demo_mint_request [] (60 * second) (gs_cap ?gs) = (Inr res, s')"
    and r: "mres_UsesRemaining res = 2" by auto
  have j: "mint_jti demo_cap_host 0 demo_random ''u1'' ''User'' [''files:a:read''] demo_mint_request (60 * second) = ''j1''"
    using demo_guards(1) demo_limits(1) demo_token(1)
    by (simp add: mint_jti_def demo_random_def deliveryURL_def) (simp add: demo_mint_request_def)
  have range: "int64_min \<le> cc_UsesCap cfg \<and> cc_UsesCap cfg \<le> int64_max" if "ch_config demo_cap_host = Some cfg" for cfg
    using that by (auto simp: demo_cap_host_def demo_cap_config_def)
  have g: "gl_Cap demo_cap_gate = Some mem_decrement" by (simp add: demo_cap_gate_def)
  have sv: "surviving (gs_cap ?gs)" using demo_cap_unbounded by (simp add: unbounded_def)
  let ?evs = "[EvRequest second (demo_bearer ''cap''), EvRequest second (demo_bearer ''cap''), EvRequest second (demo_bearer ''cap''),
      EvRedeem second ''h1'' demo_redeem]"
  have "\<forall>ev \<in> set ?evs. other_jti demo_cap_host ''j1'' ev" by simp
  from capability_total_budget [OF demo_on_store g sv range m j _ this] r m
  show ?thesis by (simp del: cap_run.simps)
qed

theorem transfer_link_round_trip_witness:
  "fst (TransferGet demo_cap_host True second ''h1'' demo_redeem
     (snd (mintCapabilityTokenWithCap demo_cap_host 0 demo_random ''u1'' ''User'' [''files:a:read''] demo_link_request [] (60 * second) demo_cap_cache))) =
     Some (\<lparr>hr_Method = ''GET'', hr_Host = ''h'', hr_Path = ''/files/a'', hr_Query = [], hr_Header = [(''Accept'', [''*/*''])]\<rparr>,
       [(''sub'', VStr ''u1''), (''entitlements'', VStrs [''files:a:read'']), (ClaimSubjectKind, VStr ''User'')])"
proof -
  let ?tgt = "\<lparr>tt_Method = ''GET'', tt_Path = ''/files/a''\<rparr>"
  from demo_link obtain res s' where
    m: "mintCapabilityTokenWithCap demo_cap_host 0 demo_random ''u1'' ''User'' [''files:a:read''] demo_link_request [] (60 * second) demo_cap_cache = (Inr res, s')" by blast
  have codec: "cl_Unmarshal (ch_lib demo_cap_host) v = Some rec" if "cl_Marshal (ch_lib demo_cap_host) rec = Inr v" for rec v
    using that by (auto simp: demo_cap_host_def demo_cap_lib_def)
  have h: "ch_config demo_cap_host = Some demo_cap_config" "1 \<le> cc_UsesCap demo_cap_config" "cc_UsesCap demo_cap_config \<le> int64_max"
    "mr_Delivery demo_link_request = deliveryURL" "mr_Target demo_link_request = Some ?tgt" "cr_handle demo_random = Inr ''h1''" "cr_jti demo_random \<noteq> []"
    "mr_Entitlements demo_link_request = [''files:a:read'']"
    by (simp_all add: demo_cap_host_def demo_cap_config_def demo_link_request_def demo_mint_request_def deliveryURL_def demo_random_def)
  have k: "VetoCredential (cl_Kinds (ch_lib demo_cap_host)) (ch_exchanger demo_cap_host) ''u1''
      (ContextSubjectKind (cl_Kinds (ch_lib demo_cap_host)) (ch_exchanger demo_cap_host)
        (transfer_context (transfer_record 0 (cr_jti demo_random) ''u1'' ''User'' demo_link_request ?tgt))) (Unix 0) SiteTransferRedeem = None" by code_simp
  have c: "clean_headers (hr_Header demo_redeem) = [(''Accept'', [''*/*''])]" "EqualFold (hr_Method demo_redeem) (tt_Method ?tgt)" by code_simp+
  show ?thesis
    using transfer_link_round_trip [OF demo_on_store demo_cap_unbounded codec h(1-3) m h(4-7), of second demo_redeem] m k c h(8) demo_limits(2)
    by (simp add: demo_redeem_def)
qed

section \<open>Two corners\<close>

text \<open>A lifetime whose nanoseconds overflow 64 bits is negative, not the ceiling: the capability is dead on arrival.\<close>

lemma ttl_overflow: "requested_ttl (60 * second) 9223372037 < 0"
  by code_simp

text \<open>The validation of a target trims its method; the redemption compares the stored method as it is, so the link of
  a method with surrounding space answers every request as gone.\<close>

lemma spaced_method_never_redeemed:
  "validateTransferTarget id (Some \<lparr>tt_Method = '' GET'', tt_Path = ''/f''\<rparr>) = None \<and> \<not> EqualFold ''GET'' '' GET''"
  by code_simp

end
