(* ===== verification/Binding.thy ===== *)
theory Binding
  imports Web Claims
begin

text \<open>
  How the proxy binds the placeholders of a route's requirements from a request (\<open>src/internal/host/binding.go\<close>):
  the declared source chains, the re-match of a route pattern against the escaped path, and the classification of a
  placeholder that stays unbound.

  \<open>PathUnescape\<close> is \<open>url.PathUnescape\<close>; \<open>mux_match\<close> is how \<open>net/http.ServeMux\<close> matches the segments of a pattern and
  the values its \<open>PathValue\<close> then returns, the reference the re-match is compared with.
\<close>

section \<open>Percent-encoding\<close>

definition unhex :: "char \<Rightarrow> nat option" where
  "unhex c = (let n = (of_char c :: nat)
     in if 48 \<le> n \<and> n \<le> 57 then Some (n - 48) else if 97 \<le> n \<and> n \<le> 102 then Some (n - 87)
        else if 65 \<le> n \<and> n \<le> 70 then Some (n - 55) else None)"

fun PathUnescape :: "string \<Rightarrow> string option" where
  "PathUnescape [] = Some []"
| "PathUnescape (c # s) =
     (if c = CHR ''%''
      then (case s of
              a # b # r \<Rightarrow> (case (unhex a, unhex b) of
                 (Some x, Some y) \<Rightarrow> map_option (Cons (char_of (16 * x + y))) (PathUnescape r)
               | _ \<Rightarrow> None)
            | _ \<Rightarrow> None)
      else map_option (Cons c) (PathUnescape s))"

definition percentDecode :: "string \<Rightarrow> string" where
  "percentDecode s = (case PathUnescape s of Some d \<Rightarrow> d | None \<Rightarrow> s)"

section \<open>Matching a route again\<close>

definition splitPath :: "string \<Rightarrow> string list" where
  "splitPath p = filter (\<lambda>s. s \<noteq> []) (Split p CHR ''/'')"

text \<open>The loop reads \<open>uriSegs[i]\<close>; its callers pass at least as many segments as the pattern has.\<close>

fun matchPrefix :: "string list \<Rightarrow> string list \<Rightarrow> string \<Rightarrow> string option" where
  "matchPrefix (p # ps) (u # us) needle =
     (if p = needle then (let v = percentDecode u in if v = [] then None else Some v) else matchPrefix ps us needle)"
| "matchPrefix _ _ needle = None"

definition is_catch_all :: "string \<Rightarrow> bool" where
  "is_catch_all seg \<longleftrightarrow> HasPrefix seg ''{'' \<and> HasSuffix seg ''...}''"

definition pathParamFromMatch :: "string \<Rightarrow> string \<Rightarrow> string \<Rightarrow> string option" where
  "pathParamFromMatch pattern uriPath paramName =
     (let patternSegs = splitPath pattern; uriSegs = splitPath uriPath; needle = ''{'' @ paramName @ ''}''
      in if patternSegs \<noteq> [] \<and> is_catch_all (last patternSegs)
         then (let fixed = butlast patternSegs
               in if length uriSegs < length fixed then None else matchPrefix fixed uriSegs needle)
         else if length patternSegs \<noteq> length uriSegs then None
         else matchPrefix patternSegs uriSegs needle)"

section \<open>Declared sources\<close>

definition bindingExtensionKey :: string where "bindingExtensionKey = ''x-entitlement-binding''"
definition bindingInPath :: string where "bindingInPath = ''path''"
definition bindingInQuery :: string where "bindingInQuery = ''query''"
definition bindingInHeader :: string where "bindingInHeader = ''header''"

record bindingSource =
  src_In :: string
  src_Name :: string

type_synonym bindingSpec = "bindingSource list gomap"

text \<open>\<open>quote\<close> is the verb \<open>%q\<close>.\<close>

fun parse_chain :: "(string \<Rightarrow> string) \<Rightarrow> string \<Rightarrow> nat \<Rightarrow> goany list \<Rightarrow> goerror + bindingSource list" where
  "parse_chain quote at i [] = Inr []"
| "parse_chain quote at i (item # items) =
     (let pos = at @ ''['' @ FormatInt (int i) @ '']''
      in case item of
           VMap m \<Rightarrow>
             (let src = claim_string m ''in''; name = claim_string m ''name''
              in if src \<notin> {bindingInPath, bindingInQuery, bindingInHeader}
                 then Inl (errorf (pos @ '': 'in' must be path, query, or header (got '' @ quote src @
                             '') -- a source the AS cannot read must not be declared''))
                 else if name = [] then Inl (errorf (pos @ '': 'name' must not be empty''))
                 else bindE (parse_chain quote at (Suc i) items) (\<lambda>rest. Inr (\<lparr>src_In = src, src_Name = name\<rparr> # rest)))
         | _ \<Rightarrow> Inl (errorf (pos @ '' must be an object with 'in' and 'name'' @ [CHR 0x27])))"

fun parse_entries :: "(string \<Rightarrow> string) \<Rightarrow> goany gomap \<Rightarrow> goerror + bindingSpec" where
  "parse_entries quote [] = Inr []"
| "parse_entries quote ((key, v) # obj) =
     (let at = bindingExtensionKey @ ''.'' @ key
      in case v of
           VList l \<Rightarrow>
             if l = [] then Inl (errorf (at @ '' must declare at least one source''))
             else bindE (parse_chain quote at 0 l) (\<lambda>chain. bindE (parse_entries quote obj) (\<lambda>spec. Inr ((key, chain) # spec)))
         | _ \<Rightarrow> Inl (errorf (at @ '' must be an array of sources'')))"

text \<open>\<open>Inr None\<close> is no declaration.\<close>

definition parseBindingSpec :: "(string \<Rightarrow> string) \<Rightarrow> goany gomap \<Rightarrow> goerror + bindingSpec option" where
  "parseBindingSpec quote ext =
     (case map_of ext bindingExtensionKey of
        None \<Rightarrow> Inr None
      | Some (VMap obj) \<Rightarrow> bindE (parse_entries quote obj) (\<lambda>spec. Inr (Some spec))
      | Some _ \<Rightarrow> Inl (errorf (bindingExtensionKey @ '' must be an object mapping a placeholder key to a source chain'')))"

section \<open>Resolving\<close>

text \<open>What a binding reads of a request.\<close>

record bind_request =
  br_EscapedPath :: string
  br_Query :: url_values
  br_Header :: header

definition readSource :: "'a bind_request_scheme \<Rightarrow> string \<Rightarrow> bindingSource \<Rightarrow> string option" where
  "readSource r pattern src =
     (if src_In src = bindingInPath then pathParamFromMatch pattern (br_EscapedPath r) (src_Name src)
      else if src_In src = bindingInQuery
      then (let v = values_Get (br_Query r) (src_Name src) in if v = [] then None else Some v)
      else if src_In src = bindingInHeader
      then (let v = h_Get (br_Header r) (src_Name src) in if v = [] then None else Some v)
      else None)"

fun first_source :: "'a bind_request_scheme \<Rightarrow> string \<Rightarrow> bindingSource list \<Rightarrow> string option" where
  "first_source r pattern [] = None"
| "first_source r pattern (src # chain) =
     (case readSource r pattern src of Some v \<Rightarrow> Some v | None \<Rightarrow> first_source r pattern chain)"

definition resolveKey :: "'a bind_request_scheme \<Rightarrow> string \<Rightarrow> bindingSpec \<Rightarrow> string \<Rightarrow> string option" where
  "resolveKey r pattern spec key =
     (case map_of spec key of
        Some chain \<Rightarrow> first_source r pattern chain
      | None \<Rightarrow> pathParamFromMatch pattern (br_EscapedPath r) key)"

fun resolveBinding :: "'a bind_request_scheme \<Rightarrow> string \<Rightarrow> bindingSpec \<Rightarrow> string list \<Rightarrow> string gomap" where
  "resolveBinding r pattern spec [] = []"
| "resolveBinding r pattern spec (key # keys) =
     (case resolveKey r pattern spec key of
        Some v \<Rightarrow> AList.update key v (resolveBinding r pattern spec keys)
      | None \<Rightarrow> resolveBinding r pattern spec keys)"

definition hasCallerSuppliableSource :: "bindingSource list \<Rightarrow> bool" where
  "hasCallerSuppliableSource chain = list_ex (\<lambda>src. src_In src = bindingInHeader \<or> src_In src = bindingInQuery) chain"

text \<open>The loop counts the absent keys and gives up at the first the caller cannot supply.\<close>

fun bind_failure_loop :: "bindingSpec \<Rightarrow> string gomap \<Rightarrow> string list \<Rightarrow> nat \<Rightarrow> bool" where
  "bind_failure_loop spec binding [] absent \<longleftrightarrow> absent > 0"
| "bind_failure_loop spec binding (key # keys) absent \<longleftrightarrow>
     (if map_of binding key \<noteq> None then bind_failure_loop spec binding keys absent
      else if \<not> hasCallerSuppliableSource (case map_of spec key of None \<Rightarrow> [] | Some chain \<Rightarrow> chain) then False
      else bind_failure_loop spec binding keys (Suc absent))"

definition bindFailureIsClientError :: "bindingSpec \<Rightarrow> string gomap \<Rightarrow> string list \<Rightarrow> bool" where
  "bindFailureIsClientError spec binding keys = bind_failure_loop spec binding keys 0"

text \<open>The names a route may need, in the order they are first met.\<close>

definition add_key :: "string \<Rightarrow> string list \<Rightarrow> string list" where
  "add_key k keys = (if k = [] \<or> k \<in> set keys then keys else keys @ [k])"

definition TrimSuffix :: "string \<Rightarrow> string \<Rightarrow> string" where
  "TrimSuffix s suffix = (if HasSuffix s suffix then take (length s - length suffix) s else s)"

definition segment_key :: "string \<Rightarrow> string option" where
  "segment_key seg =
     (if \<not> HasPrefix seg ''{'' \<or> \<not> HasSuffix seg ''}'' then None
      else let name = TrimSuffix (TrimPrefix seg ''{'') ''}'' in if HasSuffix name ''...'' then None else Some name)"

definition placeholderKeys :: "bindingSpec \<Rightarrow> string \<Rightarrow> string list" where
  "placeholderKeys spec pattern =
     fold (\<lambda>seg keys. case segment_key seg of None \<Rightarrow> keys | Some n \<Rightarrow> add_key n keys) (splitPath pattern)
       (fold add_key (map fst spec) [])"

section \<open>The classification of an unbound placeholder\<close>

lemma map_of_resolveBinding:
  "map_of (resolveBinding r pattern spec keys) k = (if k \<in> set keys then resolveKey r pattern spec k else None)"
  by (induction keys) (auto simp: update_conv' split: option.split)

definition chain_of :: "bindingSpec \<Rightarrow> string \<Rightarrow> bindingSource list" where
  "chain_of spec key = (case map_of spec key of None \<Rightarrow> [] | Some chain \<Rightarrow> chain)"

lemma bind_failure_loop_iff:
  "bind_failure_loop spec binding keys n \<longleftrightarrow>
     (\<forall>k \<in> set keys. map_of binding k = None \<longrightarrow> hasCallerSuppliableSource (chain_of spec k)) \<and>
     (0 < n \<or> (\<exists>k \<in> set keys. map_of binding k = None))"
  by (induction keys arbitrary: n) (auto simp: chain_of_def)

text \<open>The request with a value for every query and header source a declaration names.\<close>

definition spec_names :: "bindingSpec \<Rightarrow> string list" where
  "spec_names spec = concat (map (\<lambda>(_, chain). map src_Name chain) spec)"

definition supplied :: "bindingSpec \<Rightarrow> bind_request \<Rightarrow> bind_request" where
  "supplied spec r =
     r\<lparr>br_Query := map (\<lambda>n. (n, [''x''])) (spec_names spec) @ br_Query r,
       br_Header := map (\<lambda>n. (CanonicalMIMEHeaderKey n, [''x''])) (spec_names spec) @ br_Header r\<rparr>"

lemma spec_names_mem: "map_of spec k = Some chain \<Longrightarrow> src \<in> set chain \<Longrightarrow> src_Name src \<in> set (spec_names spec)"
  by (force simp: spec_names_def dest: map_of_SomeD)

lemma map_of_constant: "n \<in> set ns \<Longrightarrow> map_of (map (\<lambda>n. (f n, v)) ns @ m) (f n) = Some v"
  by (induction ns) auto

lemma supplied_reads:
  assumes "src_Name src \<in> set (spec_names spec)"
  shows "src_In src = bindingInPath \<Longrightarrow> readSource (supplied spec r) pattern src = readSource r pattern src"
    and "src_In src = bindingInQuery \<or> src_In src = bindingInHeader \<Longrightarrow> readSource (supplied spec r) pattern src \<noteq> None"
  using assms map_of_constant [of "src_Name src" "spec_names spec" "\<lambda>n. n" "[''x'']" "br_Query r"]
    map_of_constant [of "src_Name src" "spec_names spec" CanonicalMIMEHeaderKey "[''x'']" "br_Header r"]
  by (auto simp: readSource_def supplied_def values_Get_def h_Get_def h_Values_def bindingInPath_def bindingInQuery_def bindingInHeader_def)

lemma first_source_None: "first_source r pattern chain = None \<longleftrightarrow> (\<forall>src \<in> set chain. readSource r pattern src = None)"
  by (induction chain) (auto split: option.split)

lemma readSource_In: "readSource r pattern src = Some v \<Longrightarrow> src_In src \<in> {bindingInPath, bindingInQuery, bindingInHeader}"
  by (auto simp: readSource_def split: if_splits)

lemma supplied_resolves:
  assumes "resolveKey r pattern spec k \<noteq> None \<or> hasCallerSuppliableSource (chain_of spec k)"
  shows "resolveKey (supplied spec r) pattern spec k \<noteq> None"
proof (cases "map_of spec k")
  case None
  then show ?thesis using assms by (auto simp: resolveKey_def supplied_def chain_of_def hasCallerSuppliableSource_def)
next
  case (Some chain)
  have "\<exists>src \<in> set chain. readSource (supplied spec r) pattern src \<noteq> None"
  proof (cases "hasCallerSuppliableSource chain")
    case True
    then obtain src where src: "src \<in> set chain" "src_In src = bindingInQuery \<or> src_In src = bindingInHeader"
      by (auto simp: hasCallerSuppliableSource_def list_ex_iff)
    with supplied_reads(2) [OF spec_names_mem [OF Some src(1)] src(2)] show ?thesis by blast
  next
    case False
    then have "first_source r pattern chain \<noteq> None" using assms Some by (simp add: resolveKey_def chain_of_def)
    then obtain src where src: "src \<in> set chain" "readSource r pattern src \<noteq> None" by (auto simp: first_source_None)
    then have "src_In src \<in> {bindingInPath, bindingInQuery, bindingInHeader}" by (auto dest: readSource_In)
    with src supplied_reads [OF spec_names_mem [OF Some src(1)], of r pattern] show ?thesis
      by (intro bexI [of _ src]) auto
  qed
  then show ?thesis using Some by (auto simp: resolveKey_def first_source_None)
qed

lemma path_only_resolves:
  assumes "br_EscapedPath r' = br_EscapedPath r" and "\<not> hasCallerSuppliableSource (chain_of spec k)"
  shows "resolveKey r' pattern spec k = resolveKey r pattern spec k"
proof -
  have "first_source r' pattern chain = first_source r pattern chain" if "\<not> hasCallerSuppliableSource chain" for chain
    using that assms(1) by (induction chain) (auto simp: hasCallerSuppliableSource_def readSource_def split: option.split)
  then show ?thesis using assms by (auto simp: resolveKey_def chain_of_def split: option.split)
qed

text \<open>The proxy blames the caller for an unbound placeholder exactly when the caller can do something about it.
  When the requirements of a route do not bind, the answer is a client error if and only if some placeholder is unbound
  and there is a request with the same path, and other headers or query parameters, that binds every placeholder of the
  route; a fault of the route's declaration is never answered as the caller's, nor the other way round.\<close>

theorem bind_failure_classification:
  "bindFailureIsClientError spec (resolveBinding r pattern spec keys) keys \<longleftrightarrow>
     (\<exists>k \<in> set keys. resolveKey r pattern spec k = None) \<and>
     (\<exists>r' :: bind_request. br_EscapedPath r' = br_EscapedPath (r :: bind_request) \<and> (\<forall>k \<in> set keys. resolveKey r' pattern spec k \<noteq> None))"
    (is "?lhs \<longleftrightarrow> ?absent \<and> ?fixable")
proof -
  have l: "?lhs \<longleftrightarrow> (\<forall>k \<in> set keys. resolveKey r pattern spec k = None \<longrightarrow> hasCallerSuppliableSource (chain_of spec k)) \<and> ?absent"
    by (auto simp: bindFailureIsClientError_def bind_failure_loop_iff map_of_resolveBinding)
  moreover have "?fixable" if "\<forall>k \<in> set keys. resolveKey r pattern spec k = None \<longrightarrow> hasCallerSuppliableSource (chain_of spec k)"
  proof -
    have "br_EscapedPath (supplied spec r) = br_EscapedPath r" by (simp add: supplied_def)
    moreover have "\<forall>k \<in> set keys. resolveKey (supplied spec r) pattern spec k \<noteq> None"
      using that supplied_resolves by blast
    ultimately show ?thesis by blast
  qed
  moreover have "hasCallerSuppliableSource (chain_of spec k)" if "?fixable" "k \<in> set keys" "resolveKey r pattern spec k = None" for k
    using that path_only_resolves by metis
  ultimately show ?thesis by blast
qed

definition demo_binding :: bindingSpec where
  "demo_binding = [(''store'', [\<lparr>src_In = ''header'', src_Name = ''x-store''\<rparr>, \<lparr>src_In = ''path'', src_Name = ''store''\<rparr>])]"

theorem bind_failure_classification_witness:
  "bindFailureIsClientError demo_binding [] [''store''] \<and>
   (\<exists>r' :: bind_request. br_EscapedPath r' = ''/v1/files'' \<and> resolveKey r' ''/v1/files'' demo_binding ''store'' \<noteq> None)"
proof -
  let ?r = "\<lparr>br_EscapedPath = ''/v1/files'', br_Query = [], br_Header = []\<rparr>"
  have n: "resolveBinding ?r ''/v1/files'' demo_binding [''store''] = []" by code_simp
  have "bindFailureIsClientError demo_binding [] [''store'']" by code_simp
  with bind_failure_classification [of demo_binding ?r "''/v1/files''" "[''store'']"] n show ?thesis by auto
qed

section \<open>Agreement with the router\<close>

text \<open>\<open>ServeMux\<close> on the segments of a pattern and of the escaped request path: a literal matches its decoded spelling, a
  wildcard one segment, a trailing catch-all what remains. The result are the path values.\<close>

definition catch_all_name :: "string \<Rightarrow> string" where
  "catch_all_name seg = TrimSuffix (TrimPrefix seg ''{'') ''...}''"

fun mux_match :: "string list \<Rightarrow> string list \<Rightarrow> string gomap option" where
  "mux_match [] [] = Some []"
| "mux_match [] (u # us) = None"
| "mux_match (p # ps) us =
     (if ps = [] \<and> is_catch_all p then Some [(catch_all_name p, Join (map percentDecode us) ''/'')]
      else case us of
             [] \<Rightarrow> None
           | u # us' \<Rightarrow>
               (case segment_key p of
                  Some n \<Rightarrow> map_option (Cons (n, percentDecode u)) (mux_match ps us')
                | None \<Rightarrow> if percentDecode p = percentDecode u then mux_match ps us' else None))"

text \<open>The path of a route or of a cleaned request: non-empty segments.\<close>

definition segs_ok :: "string list \<Rightarrow> bool" where
  "segs_ok segs \<longleftrightarrow> list_all (\<lambda>s. s \<noteq> [] \<and> CHR ''/'' \<notin> set s) segs"

definition path_of :: "string list \<Rightarrow> string" where
  "path_of segs = ''/'' @ Join segs ''/''"

lemma Split_Join: "segs \<noteq> [] \<Longrightarrow> segs_ok segs \<Longrightarrow> Split (Join segs ''/'') CHR ''/'' = segs"
proof (induction segs)
  case (Cons s segs)
  then show ?case by (cases segs) (auto simp: segs_ok_def Split_none Split_append)
qed simp

lemma splitPath_path_of: "segs_ok segs \<Longrightarrow> splitPath (path_of segs) = segs"
  by (cases "segs = []") (auto simp: splitPath_def path_of_def Split_Join segs_ok_def list_all_iff intro!: filter_True)

lemma HasSuffix_append [simp]: "HasSuffix (r @ t) t"
  by (simp add: HasSuffix_def)

lemma HasSuffixE: "HasSuffix s t \<Longrightarrow> \<exists>r. s = r @ t"
  by (metis HasSuffix_def append_take_drop_id)

lemma TrimSuffix_append [simp]: "TrimSuffix (r @ t) t = r"
  by (simp add: TrimSuffix_def)

lemma segment_key_brackets: "segment_key (CHR ''{'' # n @ ''}'') = (if HasSuffix n ''...'' then None else Some n)"
  using HasSuffix_append [of "CHR ''{'' # n" "''}''"] TrimPrefix_append [of "''{''" "n @ ''}''"] HasPrefix_append [of "''{''" "n @ ''}''"]
  by (simp add: segment_key_def)

lemma segment_key_Some:
  assumes "segment_key p = Some n"
  shows "p = CHR ''{'' # n @ ''}''" and "\<not> HasSuffix n ''...''"
proof -
  have "HasPrefix p ''{''" "HasSuffix p ''}''" using assms by (auto simp: segment_key_def split: if_splits)
  moreover obtain a where "p = ''{'' @ a" using calculation(1) unfolding HasPrefix_iff by blast
  moreover obtain r where "p = r @ ''}''" using calculation(2) HasSuffixE by blast
  ultimately have "p = CHR ''{'' # a" "p = r @ ''}''" by simp_all
  then obtain m where m: "p = CHR ''{'' # m @ ''}''" by (cases r) auto
  with assms show "p = CHR ''{'' # n @ ''}''" "\<not> HasSuffix n ''...''" by (auto simp: segment_key_brackets split: if_splits)
qed

lemma PathUnescape_nonempty: "PathUnescape s = Some [] \<Longrightarrow> s = []"
  by (cases s) (auto split: if_splits list.splits option.splits prod.splits)

lemma percentDecode_nonempty: "s \<noteq> [] \<Longrightarrow> percentDecode s \<noteq> []"
  by (auto simp: percentDecode_def dest: PathUnescape_nonempty split: option.splits)

definition fixed_segs :: "string list \<Rightarrow> string list" where
  "fixed_segs ps = (if ps \<noteq> [] \<and> is_catch_all (last ps) then butlast ps else ps)"

lemma fixed_segs_Cons: "ps \<noteq> [] \<or> \<not> is_catch_all p \<Longrightarrow> fixed_segs (p # ps) = p # fixed_segs ps"
  by (auto simp: fixed_segs_def)

lemma needle_iff: "\<not> HasSuffix name ''...'' \<Longrightarrow> p = ''{'' @ name @ ''}'' \<longleftrightarrow> segment_key p = Some name"
  using segment_key_Some [of p name] by (auto simp: segment_key_brackets)

text \<open>The re-match finds what the router's match holds under the name, unless it is the catch-all's.\<close>

lemma match_agrees:
  assumes "mux_match ps us = Some vals" and "segs_ok us" and "\<not> HasSuffix name ''...''" and "name \<notin> catch_all_name ` set (filter is_catch_all ps)"
  shows "matchPrefix (fixed_segs ps) us (''{'' @ name @ ''}'') = map_of vals name \<and> length (fixed_segs ps) \<le> length us \<and>
    (fixed_segs ps = ps \<longrightarrow> length ps = length us)"
  using assms
proof (induction ps arbitrary: us vals)
  case Nil
  then show ?case by (cases us) (auto simp: fixed_segs_def)
next
  case (Cons p ps)
  show ?case
  proof (cases "ps = [] \<and> is_catch_all p")
    case True
    then show ?thesis using Cons.prems by (auto simp: fixed_segs_def)
  next
    case False
    then have f: "fixed_segs (p # ps) = p # fixed_segs ps" by (intro fixed_segs_Cons) auto
    from Cons.prems(1) False obtain u us' where us: "us = u # us'" by (cases us) (auto split: if_splits)
    have ok: "segs_ok us'" "u \<noteq> []" "name \<notin> catch_all_name ` set (filter is_catch_all ps)"
      using Cons.prems us by (auto simp: segs_ok_def split: if_splits)
    have n: "(p = ''{'' @ name @ ''}'') = (segment_key p = Some name)" using Cons.prems(3) by (rule needle_iff)
    show ?thesis
    proof (cases "segment_key p")
      case None
      then have "mux_match ps us' = Some vals" using Cons.prems(1) False us by (auto split: if_splits)
      from Cons.IH [OF this ok(1) Cons.prems(3) ok(3)] n None us f show ?thesis by auto
    next
      case (Some m)
      then obtain vals' where v: "mux_match ps us' = Some vals'" "vals = (m, percentDecode u) # vals'"
        using Cons.prems(1) False us by (auto split: if_splits)
      from Cons.IH [OF v(1) ok(1) Cons.prems(3) ok(3)] n Some us f v(2) percentDecode_nonempty [OF ok(2)] show ?thesis
        by (auto simp: Let_def)
    qed
  qed
qed



text \<open>A route that ends in a slash, or in \<open>{$}\<close>, matches in the router but not in the re-match: its parameters stay
  unbound, and the gate refuses.\<close>

lemma trailing_slash_unbound:
  "pathParamFromMatch ''/stores/{id}/'' ''/stores/a/b'' ''id'' = None" "pathParamFromMatch ''/stores/{id}/{$}'' ''/stores/a/'' ''id'' = None"
  by code_simp+

end
