(* ===== verification/Proxy.thy ===== *)
theory Proxy
  imports Capabilities Binding
begin

text \<open>
  The function proxy (\<open>src/internal/host/proxy.go\<close>), its resource tables (\<open>oauth2_resources.go\<close>,
  \<open>protected_resource.go\<close>) and the \<open>whoami\<close> tool (\<open>whoami.go\<close>): which path is sent upstream, how an API token becomes
  an identity, the authorization of a route with its bound requirements, the tools the host answers itself, and the
  Function Access Token that replaces the caller's credential.

  The router's choice of a pattern, the preparation of the outgoing header by \<open>net/http/httputil\<close>, SHA-256
  and the URL parser are parameters. The round trip itself is not modelled: forwarding is the outgoing
  request, and \<open>ModifyResponse\<close> is a function of the response.
\<close>

section \<open>Paths\<close>

definition hasDotDotSegment :: "string \<Rightarrow> bool" where
  "hasDotDotSegment decodedPath = list_ex (\<lambda>seg. seg = ''..'') (Split decodedPath CHR ''/'')"

definition TrimSlashes :: "string \<Rightarrow> string" where
  "TrimSlashes s = rev (dropWhile (\<lambda>c. c = CHR ''/'') (rev (dropWhile (\<lambda>c. c = CHR ''/'') s)))"

fun same_segments :: "string list \<Rightarrow> string list \<Rightarrow> bool" where
  "same_segments [] segs \<longleftrightarrow> True"
| "same_segments (w # want) (s # segs) \<longleftrightarrow> PathUnescape s = Some w \<and> same_segments want segs"
| "same_segments (w # want) [] \<longleftrightarrow> False"

definition trimBasePathSegments :: "string \<Rightarrow> string \<Rightarrow> string" where
  "trimBasePathSegments p basePath =
     (let base = TrimSlashes basePath
      in if base = [] then p
         else let want = Split base CHR ''/''; segs = Split (TrimPrefix p ''/'') CHR ''/''
              in if length segs < length want then p
                 else if \<not> same_segments want segs then p
                 else let rest = drop (length want) segs in if rest \<noteq> [] then ''/'' @ Join rest ''/'' else [])"

definition upstreamEscapedPath :: "string \<Rightarrow> string \<Rightarrow> string \<Rightarrow> bool \<Rightarrow> string" where
  "upstreamEscapedPath requestEscaped targetEscaped basePath stripBase =
     (let rest = (if stripBase then trimBasePathSegments requestEscaped basePath else requestEscaped);
          p = TrimSuffix targetEscaped ''/'' @ rest
      in if p = [] then ''/'' else p)"

definition stripCookieDomain :: "string \<Rightarrow> string" where
  "stripCookieDomain cookieStr =
     Join (filter (\<lambda>part. \<not> HasPrefix (map ascii_lower (TrimSpace part)) ''domain='') (Split cookieStr CHR '';'')) '';''"

section \<open>Functions and their tables\<close>

record operation =
  op_Security :: "requirement list option"
  op_Extensions :: "goany gomap"

record KDexFunction =
  kf_Name :: string
  kf_Annotations :: "string gomap"
  kf_URL :: string
  kf_Backend :: bool
  kf_BasePath :: string
  kf_Paths :: "operation gomap gomap"
  kf_Ready :: bool
  kf_Internal :: bool

definition AnnotationInvalidatesGrantsOnWrite :: string where
  "AnnotationInvalidatesGrantsOnWrite = ''kdex.dev/invalidates-grants-on-write''"

definition shouldInvalidateGrants :: "KDexFunction option \<Rightarrow> string \<Rightarrow> int \<Rightarrow> bool" where
  "shouldInvalidateGrants fn http_method status =
     (case fn of
        None \<Rightarrow> False
      | Some f \<Rightarrow>
          if map_of (kf_Annotations f) AnnotationInvalidatesGrantsOnWrite \<noteq> Some ''true'' then False
          else if http_method \<in> {''GET'', ''HEAD'', ''OPTIONS''} then False
          else status \<ge> 200 \<and> status < 300)"

text \<open>\<open>origin\<close> parses a URL and prints it without path, query and fragment.\<close>

definition fatAudienceFor :: "(string \<Rightarrow> string option) \<Rightarrow> KDexFunction \<Rightarrow> string" where
  "fatAudienceFor origin fn =
     (if \<not> kf_Backend fn then kf_URL fn else case origin (kf_URL fn) of None \<Rightarrow> kf_URL fn | Some u \<Rightarrow> u)"

definition isAPIKeyScheme :: "string \<Rightarrow> bool" where
  "isAPIKeyScheme name \<longleftrightarrow> name \<in> {''apiKeyCookie'', ''apiKeyHeader'', ''apiKeyQuery''}"

definition http_methods :: "string list" where
  "http_methods = [''CONNECT'', ''DELETE'', ''GET'', ''HEAD'', ''OPTIONS'', ''PATCH'', ''POST'', ''PUT'', ''TRACE'']"

text \<open>The operations of a function in the order the code walks them, with the key \<open>method path\<close>.\<close>

definition operations :: "KDexFunction \<Rightarrow> (string \<times> operation) list" where
  "operations fn =
     concat (map (\<lambda>(p, item). List.map_filter (\<lambda>m. map_option (Pair (m @ '' '' @ p)) (map_of item m)) http_methods) (kf_Paths fn))"

record 'r route_tables =
  rt_Requirements :: "'r gomap"
  rt_Bindings :: "bindingSpec gomap"
  rt_Invalid :: "string list"
  rt_APIKey :: bool

definition route_step ::
  "(string \<Rightarrow> string) \<Rightarrow> ('e, 'r) AuthorizationChecker \<Rightarrow> string \<times> operation \<Rightarrow> 'r route_tables \<Rightarrow> 'r route_tables" where
  "route_step quote ck ko t =
     (let (key, op) = ko;
          t1 = (case parseBindingSpec quote (op_Extensions op) of
                  Inl _ \<Rightarrow> t\<lparr>rt_Invalid := key # rt_Invalid t\<rparr>
                | Inr None \<Rightarrow> t
                | Inr (Some spec) \<Rightarrow> t\<lparr>rt_Bindings := AList.update key spec (rt_Bindings t)\<rparr>)
      in case op_Security op of
           None \<Rightarrow> t1
         | Some raw \<Rightarrow>
             t1\<lparr>rt_Requirements := AList.update key (ParseRequirements ck raw) (rt_Requirements t1),
                rt_APIKey := (rt_APIKey t1 \<or> list_ex (\<lambda>sr. list_ex isAPIKeyScheme (map fst sr)) raw)\<rparr>)"

definition route_tables ::
  "(string \<Rightarrow> string) \<Rightarrow> ('e, 'r) AuthorizationChecker \<Rightarrow> KDexFunction \<Rightarrow> 'r route_tables" where
  "route_tables quote ck fn =
     fold (route_step quote ck) (operations fn) \<lparr>rt_Requirements = [], rt_Bindings = [], rt_Invalid = [], rt_APIKey = False\<rparr>"

section \<open>Protected resources\<close>

record OAuth2Resource =
  or_BasePath :: string
  or_Resource :: string
  or_Scopes :: "string list"

text \<open>The scope lists of the scheme \<open>oauth2\<close>, over all operations; \<open>None\<close> when no operation declares it.\<close>

definition oauth2_lists :: "KDexFunction \<Rightarrow> string list list" where
  "oauth2_lists fn =
     concat (map (\<lambda>(_, op). case op_Security op of None \<Rightarrow> []
                             | Some raw \<Rightarrow> List.map_filter (\<lambda>sr. map_of sr ''oauth2'') raw) (operations fn))"

fun dedup_scopes :: "string list \<Rightarrow> string list \<Rightarrow> string list" where
  "dedup_scopes [] acc = acc"
| "dedup_scopes (s # ss) acc = dedup_scopes ss (if s \<in> set acc then acc else acc @ [s])"

definition oauth2ProtectedResources :: "string \<Rightarrow> KDexFunction list \<Rightarrow> OAuth2Resource gomap" where
  "oauth2ProtectedResources issuer functions =
     (if issuer = [] then []
      else fold (\<lambda>fn out.
             if \<not> kf_Ready fn \<or> kf_Internal fn \<or> oauth2_lists fn = [] then out
             else AList.update (kf_BasePath fn)
                    \<lparr>or_BasePath = kf_BasePath fn, or_Resource = issuer @ kf_BasePath fn, or_Scopes = dedup_scopes (concat (oauth2_lists fn)) []\<rparr> out)
           functions [])"

definition protectedResourcePath :: string where
  "protectedResourcePath = ''/.well-known/oauth-protected-resource''"

definition metadataURL :: "string \<Rightarrow> string \<Rightarrow> string" where
  "metadataURL issuer basePath = issuer @ protectedResourcePath @ basePath"

definition oauth2ResourceMetadataLocked :: "string \<Rightarrow> KDexFunction list \<Rightarrow> string gomap" where
  "oauth2ResourceMetadataLocked issuer functions =
     map (\<lambda>(basePath, _). (basePath, metadataURL issuer basePath)) (oauth2ProtectedResources issuer functions)"

definition oauth2ResourceAudiences :: "string \<Rightarrow> KDexFunction list \<Rightarrow> string list" where
  "oauth2ResourceAudiences issuer functions =
     concat (map (\<lambda>(_, r). [or_Resource r, or_BasePath r]) (oauth2ProtectedResources issuer functions))"

definition exchangeTargetAudiences :: "(string \<Rightarrow> string option) \<Rightarrow> string \<Rightarrow> KDexFunction list \<Rightarrow> string gomap" where
  "exchangeTargetAudiences origin issuer functions =
     (if issuer = [] then []
      else fold (\<lambda>fn out.
             let aud = fatAudienceFor origin fn
             in if \<not> kf_Ready fn \<or> aud = [] then out
                else AList.update (issuer @ kf_BasePath fn) aud (AList.update (kf_BasePath fn) aud out))
           functions [])"

record ProtectedResourceMetadata =
  pm_Resource :: string
  pm_AuthorizationServers :: "string list"
  pm_ScopesSupported :: "string list"

text \<open>The metadata document; \<open>None\<close> is the 404.\<close>

definition oauthProtectedResourceHandler :: "string \<Rightarrow> KDexFunction list \<Rightarrow> string \<Rightarrow> ProtectedResourceMetadata option" where
  "oauthProtectedResourceHandler issuer functions suffix =
     (let resources = oauth2ProtectedResources issuer functions;
          match = (if suffix = [] then (case resources of [(_, res)] \<Rightarrow> Some res | _ \<Rightarrow> None)
                   else map_of resources (''/'' @ TrimPrefix suffix ''/''))
      in map_option (\<lambda>m. \<lparr>pm_Resource = or_Resource m, pm_AuthorizationServers = [issuer], pm_ScopesSupported = sort (or_Scopes m)\<rparr>) match)"

section \<open>Requests\<close>

text \<open>The request of a proxied route: what a binding reads, and the rest. \<open>pq_Body\<close> is the whole body, \<open>None\<close>
  when there is none or it cannot be read.\<close>

record proxy_request = bind_request +
  pq_Method :: string
  pq_Path :: string
  pq_Host :: string
  pq_RawQuery :: string
  pq_Cookies :: "string gomap"
  pq_Body :: "string option"
  pq_Context :: "mapclaims option"

definition cookie_value :: "proxy_request \<Rightarrow> string \<Rightarrow> string" where
  "cookie_value r name = (case map_of (pq_Cookies r) name of None \<Rightarrow> [] | Some v \<Rightarrow> v)"

definition extractAPIToken :: "proxy_request \<Rightarrow> string" where
  "extractAPIToken r =
     (if cookie_value r ''X-API-TOKEN'' \<noteq> [] then cookie_value r ''X-API-TOKEN''
      else if h_Get (br_Header r) ''X-API-TOKEN'' \<noteq> [] then h_Get (br_Header r) ''X-API-TOKEN''
      else values_Get (br_Query r) ''api_token'')"

definition extractBearerOrAPIToken :: "proxy_request \<Rightarrow> string \<Rightarrow> string" where
  "extractBearerOrAPIToken r tokenPrefix =
     (if extractAPIToken r \<noteq> [] then extractAPIToken r
      else let (rest, ok) = CutPrefix (h_Get (br_Header r) ''Authorization'') ''Bearer ''
           in if ok \<and> looksLikePAT rest tokenPrefix then rest else [])"

section \<open>The whoami tool\<close>

definition toolNameWhoami :: string where "toolNameWhoami = ''whoami''"
definition SiteWhoami :: string where "SiteWhoami = ''whoami''"
definition SiteProxyPAT :: string where "SiteProxyPAT = ''proxy pat''"

record WhoamiResult =
  wr_Identity :: string
  wr_Name :: string
  wr_GivenName :: string
  wr_FamilyName :: string
  wr_PreferredUsername :: string
  wr_Entitlements :: "string list"
  wr_Withheld :: bool
  wr_Hint :: bool   \<comment> \<open>whether the explanation is given\<close>

definition whoamiFromAuthContext :: "mapclaims \<Rightarrow> goerror + WhoamiResult" where
  "whoamiFromAuthContext ac =
     (let sub = claim_string ac ''sub'';
          email = claim_string ac ''email''
      in if sub = [] then Inl (errorf ''whoami requires an authenticated caller'')
         else Inr \<lparr>wr_Identity = (if email = [] then sub else email), wr_Name = claim_string ac ''name'',
                   wr_GivenName = claim_string ac ''given_name'', wr_FamilyName = claim_string ac ''family_name'',
                   wr_PreferredUsername = claim_string ac ''preferred_username'',
                   wr_Entitlements = stringSliceFromClaim (map_of ac ''entitlements''), wr_Withheld = False, wr_Hint = False\<rparr>)"

definition applyEffectiveEntitlements :: "WhoamiResult \<Rightarrow> string list \<Rightarrow> WhoamiResult" where
  "applyEffectiveEntitlements res resolved =
     (if resolved = [] then res
      else let missing = filter (\<lambda>e. e \<notin> set (wr_Entitlements res)) resolved;
               withheld = (wr_Withheld res \<or> missing \<noteq> [])
           in res\<lparr>wr_Entitlements := wr_Entitlements res @ missing, wr_Withheld := withheld,
                  wr_Hint := (if withheld then True else wr_Hint res)\<rparr>)"

definition isWhoamiCall :: "jsonRPCRequest \<Rightarrow> string option" where
  "isWhoamiCall req = (if jr_Method req \<noteq> ''tools/call'' \<or> jr_Name req \<noteq> toolNameWhoami then None else Some (jr_ID req))"

definition writeWhoamiRPC :: "'s exchange option \<Rightarrow> mapclaims option \<Rightarrow> goerror + WhoamiResult" where
  "writeWhoamiRPC exchanger ctx =
     (let ac = (case ctx of None \<Rightarrow> [] | Some a \<Rightarrow> a)
      in case whoamiFromAuthContext ac of
           Inl e \<Rightarrow> Inl e
         | Inr res \<Rightarrow>
             (case exchanger of
                None \<Rightarrow> Inr res
              | Some x \<Rightarrow>
                  (case ResolveInternalRolesAndEntitlements x
                          \<lparr>bs_Key = claim_string ac ''sub'', bs_Kind = ContextSubjectKind (x_kinds x) (Some (x_ex x)) ac, bs_Site = SiteWhoami\<rparr> of
                     Inl _ \<Rightarrow> Inr res
                   | Inr (_, effective) \<Rightarrow> Inr (applyEffectiveEntitlements res effective))))"

section \<open>The handler\<close>

definition signerDuration :: duration where "signerDuration = 5 * minute"
definition fatCacheTTLSkew :: duration where "fatCacheTTLSkew = 30 * second"
definition maxMintPeekBytes :: nat where "maxMintPeekBytes = 1048576"

record 'r KDexFunctionHandler =
  fh_Function :: KDexFunction
  fh_tables :: "'r route_tables"
  fh_issuer :: string
  fh_oauth2Protected :: bool
  fh_oauth2Resource :: string
  fh_oauth2Scopes :: "string list"
  fh_asToolsEnabled :: bool

definition function_handler ::
  "(string \<Rightarrow> string) \<Rightarrow> ('e, 'r) AuthorizationChecker \<Rightarrow> string \<Rightarrow> string \<Rightarrow> KDexFunction list \<Rightarrow> bool \<Rightarrow> KDexFunction \<Rightarrow> 'r KDexFunctionHandler" where
  "function_handler quote ck issuer hostIssuer functions mintEnabled fn =
     (let base = \<lparr>fh_Function = fn, fh_tables = route_tables quote ck fn, fh_issuer = issuer, fh_oauth2Protected = False,
                  fh_oauth2Resource = [], fh_oauth2Scopes = [], fh_asToolsEnabled = False\<rparr>
      in case map_of (oauth2ProtectedResources hostIssuer functions) (kf_BasePath fn) of
           None \<Rightarrow> base
         | Some res \<Rightarrow> base\<lparr>fh_oauth2Protected := True, fh_oauth2Resource := or_Resource res, fh_oauth2Scopes := or_Scopes res,
                           fh_asToolsEnabled := mintEnabled\<rparr>)"

text \<open>What the handler reads of the host. \<open>pe_Match\<close> is the router's pattern, \<open>pe_Prepare\<close> the outgoing header as
  \<open>httputil.ReverseProxy\<close> prepares it, \<open>pe_XForwarded\<close> what \<open>SetXForwarded\<close> adds, \<open>pe_InvalidBound\<close> whether an error wraps
  \<open>entitlements.ErrInvalidBoundValue\<close>, \<open>pe_CookieString\<close> and \<open>pe_URLString\<close> print a cookie and a URL, and \<open>pe_TargetEscaped\<close> the escaped path of the function's URL.\<close>

record ('s, 'e, 'r) proxy_env =
  pe_ck :: "('e, 'r) AuthorizationChecker option"
  pe_cfg :: "gate_config option"
  pe_x :: "'s exchange"
  pe_store :: "'s cache_ops option"
  pe_legacy :: "'s cache_ops option"
  pe_mapper :: "(mapclaims \<Rightarrow> goerror + mapclaims) option"
  pe_signer :: Signer
  pe_fat :: "'s cache_ops"
  pe_Sha256Hex :: "string \<Rightarrow> string"
  pe_FmtOther :: "goany \<Rightarrow> string"
  pe_Match :: "proxy_request \<Rightarrow> string"
  pe_Prepare :: "header \<Rightarrow> header"
  pe_XForwarded :: "proxy_request \<Rightarrow> header \<Rightarrow> header"
  pe_InvalidBound :: "goerror \<Rightarrow> bool"
  pe_TargetEscaped :: string
  pe_mint :: "'s mint_env"
  pe_cap :: "'s cap_host"
  pe_CookieString :: "string \<Rightarrow> string \<Rightarrow> string"
  pe_URLString :: "string \<Rightarrow> string \<Rightarrow> string \<Rightarrow> string"
  pe_rpc :: "string \<Rightarrow> jsonRPCRequest option"
  pe_args :: "string \<Rightarrow> MintTokenRequest option"

record 's proxy_state =
  px_revocations :: "'s \<times> 's"
  px_memo :: 's
  px_fat :: 's
  px_cap :: 's

text \<open>The audiences a token may have, most specific first.\<close>

definition expected_audiences :: "'r KDexFunctionHandler \<Rightarrow> gate_config \<Rightarrow> string list" where
  "expected_audiences fh cfg =
     (if fh_oauth2Protected fh \<and> fh_oauth2Resource fh \<noteq> [] then [fh_oauth2Resource fh] else []) @
     (if rt_APIKey (fh_tables fh) \<or> \<not> fh_oauth2Protected fh then [gc_Audience cfg] else [])"

fun validate_first ::
  "paseto_lib \<Rightarrow> TokenManager \<Rightarrow> 's cache_ops option \<Rightarrow> 's cache_ops option \<Rightarrow> instant \<Rightarrow> string \<Rightarrow> string list \<Rightarrow> 's \<times> 's \<Rightarrow>
   (goerror + TokenData) \<times> 's \<times> 's" where
  "validate_first P tm store legacy now tok [] sl = (Inl (errorf []), sl)"
| "validate_first P tm store legacy now tok [aud] sl = ValidateToken P tm store legacy now tok aud sl"
| "validate_first P tm store legacy now tok (aud # aud' # auds) sl =
     (case ValidateToken P tm store legacy now tok aud sl of
        (Inr data, sl') \<Rightarrow> (Inr data, sl')
      | (Inl _, sl') \<Rightarrow> validate_first P tm store legacy now tok (aud' # auds) sl')"

text \<open>The bridge from an API token to an auth context.\<close>

definition bridge ::
  "('s, 'e, 'r) proxy_env \<Rightarrow> 'r KDexFunctionHandler \<Rightarrow> instant \<Rightarrow> proxy_request \<Rightarrow> 's proxy_state \<Rightarrow> mapclaims option \<times> 's proxy_state" where
  "bridge E fh now r st =
     (case (pe_cfg E, pq_Context r) of
        (Some cfg, None) \<Rightarrow>
          (case gc_Tokens cfg of
             None \<Rightarrow> (None, st)
           | Some tm \<Rightarrow>
               (let auds = expected_audiences fh cfg; tok = extractBearerOrAPIToken r (TokenPrefix cfg)
                in if \<not> (rt_APIKey (fh_tables fh) \<or> fh_oauth2Protected fh) \<or> tok = [] \<or> auds = [] then (None, st)
                   else case validate_first (x_paseto (pe_x E)) tm (pe_store E) (pe_legacy E) now tok auds (px_revocations st) of
                          (Inl _, rl) \<Rightarrow> (None, st\<lparr>px_revocations := rl\<rparr>)
                        | (Inr data, rl) \<Rightarrow>
                            (case PATAuthContext (pe_x E) now data SiteProxyPAT (px_memo st) of
                               (Inl _, m) \<Rightarrow> (None, st\<lparr>px_revocations := rl, px_memo := m\<rparr>)
                             | (Inr ac, m) \<Rightarrow>
                                 (Some (AList.update PATBridgeClaim (VBool True) ac), st\<lparr>px_revocations := rl, px_memo := m\<rparr>))))
      | (_, ctx) \<Rightarrow> (ctx, st))"

text \<open>The identity the gate, the tools and the token read.\<close>

definition proxy_context ::
  "('s, 'e, 'r) proxy_env \<Rightarrow> 'r KDexFunctionHandler \<Rightarrow> instant \<Rightarrow> proxy_request \<Rightarrow> 's proxy_state \<Rightarrow> mapclaims option \<times> 's proxy_state" where
  "proxy_context E fh now r st =
     (let (ctx, st') = bridge E fh now r st in (map_option (\<lambda>ac. EnrichAuthContext ac (pe_mapper E)) ctx, st'))"

text \<open>The gate: \<open>None\<close> admits; otherwise the status of an error, or a denial.\<close>

datatype gate_refusal = GateError nat | GateDenied deny_opts

definition route_key :: "('s, 'e, 'r) proxy_env \<Rightarrow> proxy_request \<Rightarrow> string" where
  "route_key E r = pq_Method r @ '' '' @ pe_Match E r"

definition route_requirements :: "('e, 'r) AuthorizationChecker \<Rightarrow> 'r KDexFunctionHandler \<Rightarrow> string \<Rightarrow> 'r" where
  "route_requirements ck fh key =
     (case map_of (rt_Requirements (fh_tables fh)) key of Some pr \<Rightarrow> pr | None \<Rightarrow> ParseRequirements ck [])"

definition route_spec :: "'r KDexFunctionHandler \<Rightarrow> string \<Rightarrow> bindingSpec" where
  "route_spec fh key = (case map_of (rt_Bindings (fh_tables fh)) key of Some spec \<Rightarrow> spec | None \<Rightarrow> [])"

definition route_binding :: "('s, 'e, 'r) proxy_env \<Rightarrow> 'r KDexFunctionHandler \<Rightarrow> proxy_request \<Rightarrow> string gomap" where
  "route_binding E fh r =
     (let key = route_key E r; spec = route_spec fh key
      in if key \<in> set (rt_Invalid (fh_tables fh)) then []
         else resolveBinding r (pe_Match E r) spec (placeholderKeys spec (pe_Match E r)))"

definition proxy_denial ::
  "('s, 'e, 'r) proxy_env \<Rightarrow> ('e, 'r) AuthorizationChecker \<Rightarrow> 'r KDexFunctionHandler \<Rightarrow> mapclaims option \<Rightarrow> deny_opts" where
  "proxy_denial E ck fh ctx =
     (let fn = fh_Function fh
      in \<lparr>o_Outcome = Classify (x_lib (pe_x E)) ctx (Some ck) (GetParsedEntitlements ck ctx) ''functions'' (kf_BasePath fn) [],
          o_Issuer = fh_issuer fh,
          o_ResourceMetadata = (if fh_oauth2Protected fh \<and> fh_oauth2Resource fh \<noteq> [] then metadataURL (fh_issuer fh) (kf_BasePath fn) else []),
          o_Scopes = fh_oauth2Scopes fh\<rparr>)"

definition proxy_gate ::
  "('s, 'e, 'r) proxy_env \<Rightarrow> 'r KDexFunctionHandler \<Rightarrow> proxy_request \<Rightarrow> mapclaims option \<Rightarrow> gate_refusal option" where
  "proxy_gate E fh r ctx =
     (case pe_ck E of
        None \<Rightarrow> None
      | Some ck \<Rightarrow>
          (let key = route_key E r; spec = route_spec fh key; pkeys = placeholderKeys spec (pe_Match E r);
               malformed = (key \<in> set (rt_Invalid (fh_tables fh))); binding = route_binding E fh r
           in case BindRequirements ck (route_requirements ck fh key) binding of
                Inl e \<Rightarrow>
                  if pe_InvalidBound E e then Some (GateError 400)
                  else if \<not> malformed \<and> bindFailureIsClientError spec binding pkeys then Some (GateError 400)
                  else Some (GateError 500)
              | Inr reqs \<Rightarrow>
                  (case VerifyResourceParsedEntitlements ck ''functions'' (kf_BasePath (fh_Function fh)) (GetParsedEntitlements ck ctx) reqs [] of
                     Inl _ \<Rightarrow> Some (GateError 500)
                   | Inr True \<Rightarrow> None
                   | Inr False \<Rightarrow> Some (GateDenied (proxy_denial E ck fh ctx)))))"

section \<open>The outgoing request\<close>

record upstream_request =
  ur_EscapedPath :: string
  ur_RawQuery :: string
  ur_Header :: header

definition sensitive_header :: "string \<Rightarrow> bool" where
  "sensitive_header key =
     (let c = CanonicalMIMEHeaderKey key
      in c \<in> {''Authorization'', ''Cookie'', ''Set-Cookie'', ''Forwarded''} \<or> HasPrefix c ''X-Forwarded-'')"

text \<open>The context the token is projected from: the identity with a snapshot of the cookies and headers.\<close>

definition snapshot_context :: "proxy_request \<Rightarrow> mapclaims \<Rightarrow> mapclaims" where
  "snapshot_context r ac =
     (let cookies = map (\<lambda>(k, v). (k, VStr v)) (pq_Cookies r);
          headers = map (\<lambda>(k, vs). (k, VStrs vs)) (filter (\<lambda>(k, _). \<not> sensitive_header k) (br_Header r));
          ac1 = (if cookies \<noteq> [] then AList.update ''cookies'' (VMap cookies) ac else ac)
      in if headers \<noteq> [] then AList.update ''headers'' (VMap headers) ac1 else ac1)"

text \<open>\<open>utils.Hash\<close> of a claim map: the SHA-256 of what \<open>fmt\<close> prints for the verb \<open>%v\<close>, its keys sorted. \<open>other\<close> prints
  numbers that are not integers and values of other types.\<close>

fun fmt_any :: "(goany \<Rightarrow> string) \<Rightarrow> goany \<Rightarrow> string" where
  "fmt_any other VNil = ''<nil>''"
| "fmt_any other (VBool b) = (if b then ''true'' else ''false'')"
| "fmt_any other (VInt n) = FormatInt n"
| "fmt_any other (VStr s) = s"
| "fmt_any other (VStrs ss) = ''['' @ Join ss '' '' @ '']''"
| "fmt_any other (VList as) = ''['' @ Join (map (fmt_any other) as) '' '' @ '']''"
| "fmt_any other (VMap kvs) =
     ''map['' @ Join (map (\<lambda>(k, s). k @ '':'' @ s) (sort_key fst (map (\<lambda>(k, v). (k, fmt_any other v)) kvs))) '' '' @ '']''"
| "fmt_any other v = other v"

definition Hash :: "(string \<Rightarrow> string) \<Rightarrow> (goany \<Rightarrow> string) \<Rightarrow> mapclaims \<Rightarrow> string" where
  "Hash sha other claims = sha (fmt_any other (VMap claims))"

definition fat_key :: "('s, 'e, 'r) proxy_env \<Rightarrow> string \<Rightarrow> mapclaims \<Rightarrow> string" where
  "fat_key E name projected = name @ ''-'' @ Hash (pe_Sha256Hex E) (pe_FmtOther E) projected"

text \<open>The Function Access Token: \<open>None\<close> when the claims cannot be projected or signed, which is only logged.\<close>

definition mint_fat ::
  "('s, 'e, 'r) proxy_env \<Rightarrow> string \<Rightarrow> instant \<Rightarrow> string \<Rightarrow> mapclaims \<Rightarrow> 's \<Rightarrow> string option \<times> 's" where
  "mint_fat E name now jti ctx s =
     (case Project (x_lib (pe_x E)) (pe_signer E) ctx of
        Inl _ \<Rightarrow> (None, s)
      | Inr projected \<Rightarrow>
          (case op_Get (pe_fat E) now (fat_key E name projected) s of
             (Inr (token, True, True), s1) \<Rightarrow> (Some token, s1)
           | (_, s1) \<Rightarrow>
               (case SignProjected (x_lib (pe_x E)) (pe_signer E) now jti projected of
                  Inl _ \<Rightarrow> (None, s1)
                | Inr token \<Rightarrow> (Some token, snd (op_Set (pe_fat E) now (fat_key E name projected) token [] s1)))))"

definition set_authorization :: "mapclaims option \<Rightarrow> string option \<Rightarrow> header \<Rightarrow> header" where
  "set_authorization ctx fat h =
     (case ctx of
        None \<Rightarrow> h_Del ''Authorization'' h
      | Some _ \<Rightarrow> (case fat of Some token \<Rightarrow> h_Set ''Authorization'' (''Bearer '' @ token) h | None \<Rightarrow> h))"

definition set_cookie_header :: "('s, 'e, 'r) proxy_env \<Rightarrow> proxy_request \<Rightarrow> header \<Rightarrow> header" where
  "set_cookie_header E r h =
     (if cookie_value r ''X-API-TOKEN'' \<noteq> []
      then h_Set ''Cookie'' (pe_CookieString E ''X-API-TOKEN'' (cookie_value r ''X-API-TOKEN'')) h
      else h_Del ''Cookie'' h)"

definition Rewrite ::
  "('s, 'e, 'r) proxy_env \<Rightarrow> KDexFunction \<Rightarrow> instant \<Rightarrow> string \<Rightarrow> proxy_request \<Rightarrow> mapclaims option \<Rightarrow> 's \<Rightarrow> upstream_request \<times> 's" where
  "Rewrite E fn now jti r ctx s =
     (let (fat, s') = (case ctx of None \<Rightarrow> (None, s) | Some ac \<Rightarrow> mint_fat E (kf_Name fn) now jti (snapshot_context r ac) s)
      in (\<lparr>ur_EscapedPath = upstreamEscapedPath (br_EscapedPath r) (pe_TargetEscaped E) (kf_BasePath fn) (kf_Backend fn),
           ur_RawQuery = pq_RawQuery r,
           ur_Header = pe_XForwarded E r (h_Set ''X-Kdex-Forwarded'' ''true''
                         (set_cookie_header E r (set_authorization ctx fat (pe_Prepare E (br_Header r)))))\<rparr>, s'))"

text \<open>\<open>ModifyResponse\<close>: the spliced body of a \<open>tools/list\<close>, the cookies without a domain, and whether the grant
  generation is bumped.\<close>

record upstream_response =
  us_Status :: int
  us_Header :: header
  us_Body :: string

definition splice_body :: "raw_json \<Rightarrow> string option \<Rightarrow> string option \<Rightarrow> bool \<Rightarrow> upstream_response \<Rightarrow> upstream_response" where
  "splice_body J mintDesc whoamiDesc isToolsList resp =
     (if isToolsList \<and> HasPrefix (h_Get (us_Header resp) ''Content-Type'') ''application/json''
      then let body = fst (spliceASToolDescriptors J mintDesc whoamiDesc (us_Body resp))
           in resp\<lparr>us_Body := body, us_Header := h_Set ''Content-Length'' (FormatInt (int (length body))) (us_Header resp)\<rparr>
      else resp)"

definition ModifyResponse ::
  "raw_json \<Rightarrow> string option \<Rightarrow> string option \<Rightarrow> bool \<Rightarrow> KDexFunction \<Rightarrow> string \<Rightarrow> bool \<Rightarrow> upstream_response \<Rightarrow> upstream_response \<times> bool" where
  "ModifyResponse J mintDesc whoamiDesc isToolsList fn http_method hasExchanger resp =
     (let r1 = splice_body J mintDesc whoamiDesc isToolsList resp;
          cookies = (case map_of (us_Header r1) ''Set-Cookie'' of None \<Rightarrow> None | Some cs \<Rightarrow> Some (map stripCookieDomain cs));
          r2 = (case cookies of None \<Rightarrow> r1 | Some cs \<Rightarrow> r1\<lparr>us_Header := AList.update ''Set-Cookie'' cs (us_Header r1)\<rparr>)
      in (r2, hasExchanger \<and> shouldInvalidateGrants (Some fn) http_method (us_Status r2)))"

section \<open>The handler as a whole\<close>

definition as_http_request :: "proxy_request \<Rightarrow> http_request" where
  "as_http_request r = \<lparr>hr_Method = pq_Method r, hr_Host = pq_Host r, hr_Path = pq_Path r, hr_Query = pq_RawQuery r, hr_Header = br_Header r\<rparr>"

definition openapiDiscoveryURL :: "(string \<Rightarrow> string \<Rightarrow> string \<Rightarrow> string) \<Rightarrow> http_request \<Rightarrow> string" where
  "openapiDiscoveryURL urlString r = (if fwdHost r = [] then [] else urlString (fwdScheme r) (fwdHost r) ''/-/openapi'')"

datatype proxy_outcome =
    PxRefused gate_refusal
  | PxMint string rpc_result
  | PxWhoami string "goerror + WhoamiResult"
  | PxForward upstream_request "string option"   \<comment> \<open>with the discovery URL of a \<open>tools/list\<close>\<close>

text \<open>The JSON-RPC request of a body the host looks at.\<close>

definition peeked :: "('s, 'e, 'r) proxy_env \<Rightarrow> 'r KDexFunctionHandler \<Rightarrow> proxy_request \<Rightarrow> jsonRPCRequest option" where
  "peeked E fh r =
     (if fh_asToolsEnabled fh \<and> pq_Method r = ''POST''
      then (case pq_Body r of None \<Rightarrow> None
            | Some b \<Rightarrow> if length b \<le> maxMintPeekBytes then parseSingleJSONRPC (pe_rpc E) b else None)
      else None)"

definition forward ::
  "('s, 'e, 'r) proxy_env \<Rightarrow> 'r KDexFunctionHandler \<Rightarrow> instant \<Rightarrow> string \<Rightarrow> proxy_request \<Rightarrow> mapclaims option \<Rightarrow> string option \<Rightarrow>
   's proxy_state \<Rightarrow> proxy_outcome \<times> 's proxy_state" where
  "forward E fh now jti r ctx marker st =
     (let (out, s') = Rewrite E (fh_Function fh) now jti r ctx (px_fat st) in (PxForward out marker, st\<lparr>px_fat := s'\<rparr>))"

definition serve_admitted ::
  "('s, 'e, 'r) proxy_env \<Rightarrow> 'r KDexFunctionHandler \<Rightarrow> instant \<Rightarrow> cap_random \<Rightarrow> proxy_request \<Rightarrow> mapclaims option \<Rightarrow>
   's proxy_state \<Rightarrow> proxy_outcome \<times> 's proxy_state" where
  "serve_admitted E fh now rnd r ctx st =
     (case peeked E fh r of
        None \<Rightarrow> forward E fh now (cr_jti rnd) r ctx None st
      | Some req \<Rightarrow>
          (case isMintTokenCall (pe_args E) req of
             Some (i, args) \<Rightarrow>
               (let ac = (case ctx of None \<Rightarrow> [] | Some a \<Rightarrow> a);
                    (res, rs, cs) = writeMintTokenRPC (pe_mint E) (pe_cap E) now rnd ctx (claim_string ac ''sub'')
                      (ContextSubjectKind (x_kinds (pe_x E)) (Some (x_ex (pe_x E))) ac) (stringSliceFromClaim (map_of ac ''entitlements''))
                      args (as_http_request r) (fst (px_revocations st), px_cap st)
                in (PxMint i res, st\<lparr>px_revocations := (rs, snd (px_revocations st)), px_cap := cs\<rparr>))
           | None \<Rightarrow>
               (case isWhoamiCall req of
                  Some i \<Rightarrow> (PxWhoami i (writeWhoamiRPC (Some (pe_x E)) ctx), st)
                | None \<Rightarrow>
                    forward E fh now (cr_jti rnd) r ctx
                      (if isToolsListCall req then Some (openapiDiscoveryURL (pe_URLString E) (as_http_request r)) else None) st)))"

definition proxy_handler ::
  "('s, 'e, 'r) proxy_env \<Rightarrow> 'r KDexFunctionHandler \<Rightarrow> instant \<Rightarrow> cap_random \<Rightarrow> proxy_request \<Rightarrow> 's proxy_state \<Rightarrow>
   proxy_outcome \<times> 's proxy_state" where
  "proxy_handler E fh now rnd r st =
     (if hasDotDotSegment (pq_Path r) then (PxRefused (GateError 400), st)
      else case proxy_context E fh now r st of
             (ctx, st1) \<Rightarrow>
               (case proxy_gate E fh r ctx of
                  Some g \<Rightarrow> (PxRefused g, st1)
                | None \<Rightarrow> serve_admitted E fh now rnd r ctx st1))"

section \<open>The path that goes upstream\<close>

lemma Split_Cons_sep: "Split (a @ c # b) c = Split a c @ Split b c"
  by (induction a) (auto split: list.split)

lemma Join_append: "a \<noteq> [] \<Longrightarrow> b \<noteq> [] \<Longrightarrow> Join (a @ b) sep = Join a sep @ sep @ Join b sep"
proof (induction a)
  case (Cons x a)
  then show ?case by (cases a; cases b) auto
qed simp

lemma unhex_slash [simp]: "unhex CHR ''/'' = None"
  by code_simp

text \<open>An escape is decided by three bytes; anything else by one.\<close>

lemma PathUnescape_cases:
  assumes "PathUnescape (c # s) = Some z"
  obtains (plain) z' where "c \<noteq> CHR ''%''" "PathUnescape s = Some z'" "z = c # z'"
  | (escape) a b r x y z' where "c = CHR ''%''" "s = a # b # r" "unhex a = Some x" "unhex b = Some y" "PathUnescape r = Some z'"
      "z = char_of (16 * x + y) # z'"
proof (cases "c = CHR ''%''")
  case False
  then show thesis using assms plain by (cases "PathUnescape s") auto
next
  case True
  then have "\<exists>a b r x y z'. s = a # b # r \<and> unhex a = Some x \<and> unhex b = Some y \<and> PathUnescape r = Some z' \<and> z = char_of (16 * x + y) # z'"
    using assms by (auto split: list.splits option.splits)
  with True escape show thesis by blast
qed

lemma PathUnescape_append: "PathUnescape x = Some a \<Longrightarrow> PathUnescape (x @ y) = map_option (append a) (PathUnescape y)"
proof (induction "length x" arbitrary: x a rule: less_induct)
  case less
  show ?case
  proof (cases x)
    case Nil
    then show ?thesis using less.prems by (cases "PathUnescape y") simp_all
  next
    case (Cons c s)
    from less.prems [unfolded Cons] show ?thesis
    proof (cases rule: PathUnescape_cases)
      case (plain z')
      with less.hyps [of s z'] Cons show ?thesis by (cases "PathUnescape y") simp_all
    next
      case (escape d e r u v z')
      with less.hyps [of r z'] Cons show ?thesis by (cases "PathUnescape y") simp_all
    qed
  qed
qed

lemma PathUnescape_slash:
  "PathUnescape (x @ CHR ''/'' # y) = Some z \<Longrightarrow> \<exists>a b. PathUnescape x = Some a \<and> PathUnescape y = Some b \<and> z = a @ CHR ''/'' # b"
proof (induction "length x" arbitrary: x z rule: less_induct)
  case less
  show ?case
  proof (cases x)
    case Nil
    then show ?thesis using less.prems by auto
  next
    case (Cons c s)
    from less.prems [unfolded Cons, simplified append_Cons] show ?thesis
    proof (cases rule: PathUnescape_cases)
      case (plain z')
      with less.hyps [of s z'] Cons show ?thesis by auto
    next
      case (escape d e r u v z')
      then obtain t where t: "s = d # e # t" "r = t @ CHR ''/'' # y"
        by (cases s; cases "tl s") auto
      with less.hyps [of t z'] escape Cons show ?thesis by auto
    qed
  qed
qed

definition dots_free :: "string \<Rightarrow> bool" where
  "dots_free s \<longleftrightarrow> \<not> hasDotDotSegment s"

lemma dots_free_sep: "dots_free (a @ CHR ''/'' # b) \<longleftrightarrow> dots_free a \<and> dots_free b"
  by (auto simp: dots_free_def hasDotDotSegment_def Split_Cons_sep)

lemma trim_base_suffix:
  assumes "HasPrefix p ''/''"
  shows "\<exists>x. p = x @ trimBasePathSegments p basePath \<and> (trimBasePathSegments p basePath = [] \<or> (\<exists>b. trimBasePathSegments p basePath = CHR ''/'' # b))"
proof -
  from assms obtain e where p: "p = CHR ''/'' # e" by (auto simp: HasPrefix_iff)
  let ?segs = "Split e CHR ''/''" and ?n = "length (Split (TrimSlashes basePath) CHR ''/'')"
  have tp: "TrimPrefix p ''/'' = e" using TrimPrefix_append [of "''/''" e] p by simp
  have "trimBasePathSegments p basePath =
     (if TrimSlashes basePath = [] \<or> length ?segs < ?n \<or> \<not> same_segments (Split (TrimSlashes basePath) CHR ''/'') ?segs then p
      else if drop ?n ?segs \<noteq> [] then ''/'' @ Join (drop ?n ?segs) ''/'' else [])"
    unfolding trimBasePathSegments_def Let_def tp by simp
  then consider "trimBasePathSegments p basePath = p" | "trimBasePathSegments p basePath = []"
    | "trimBasePathSegments p basePath = ''/'' @ Join (drop ?n ?segs) ''/''" "drop ?n ?segs \<noteq> []"
    by presburger
  then show ?thesis
  proof cases
    case 3
    have "take ?n ?segs \<noteq> []" by simp
    then have "e = Join (take ?n ?segs) ''/'' @ ''/'' @ Join (drop ?n ?segs) ''/''"
      using Join_append [of "take ?n ?segs" "drop ?n ?segs" "''/''"] 3(2) Join_Split [of e "CHR ''/''"] by simp
    then show ?thesis using 3 p by (intro exI [of _ "CHR ''/'' # Join (take ?n ?segs) ''/''"]) auto
  qed (use p in auto)
qed

text \<open>C18: no request reaches a route of the backend outside the function's own. Whatever the encoding of the request path
  and of the base path, the path sent upstream decodes to the backend's mount path followed by a suffix of the decoded
  request path that begins at a slash, and has no parent segment, given that the request passed the check for such
  segments and the mount path has none.\<close>

theorem upstream_path_confined:
  assumes "HasPrefix escaped ''/''" and "PathUnescape escaped = Some path" and "\<not> hasDotDotSegment path"
    and "PathUnescape target = Some mount" and "\<not> hasDotDotSegment mount"
  shows "\<exists>base pre suf. PathUnescape (TrimSuffix target ''/'') = Some base \<and> path = pre @ suf \<and> (suf = [] \<or> hd suf = CHR ''/'') \<and>
    PathUnescape (upstreamEscapedPath escaped target basePath stripBase) = Some (if base @ suf = [] then ''/'' else base @ suf) \<and>
    \<not> hasDotDotSegment (base @ suf)"
proof -
  let ?rest = "if stripBase then trimBasePathSegments escaped basePath else escaped"
  have "\<exists>x. escaped = x @ ?rest \<and> (?rest = [] \<or> (\<exists>b. ?rest = CHR ''/'' # b))"
    using trim_base_suffix [OF assms(1), of basePath] assms(1) by (auto simp: HasPrefix_iff)
  then obtain x where x: "escaped = x @ ?rest" "?rest = [] \<or> (\<exists>b. ?rest = CHR ''/'' # b)" by blast
  have "\<exists>pre suf. path = pre @ suf \<and> PathUnescape ?rest = Some suf \<and> (suf = [] \<or> (\<exists>b. suf = CHR ''/'' # b \<and> dots_free b))"
  proof (cases "?rest = []")
    case False
    then obtain b where b: "?rest = CHR ''/'' # b" using x(2) by blast
    from PathUnescape_slash [of x b path] x(1) b assms(2) obtain p q where
      "path = p @ CHR ''/'' # q" "PathUnescape b = Some q" by auto
    then show ?thesis using b assms(3) dots_free_sep [of p q]
      by (intro exI [of _ p] exI [of _ "CHR ''/'' # q"]) (simp add: dots_free_def)
  qed (intro exI [of _ path] exI [of _ "[]"], simp)
  then obtain pre suf where s: "path = pre @ suf" "PathUnescape ?rest = Some suf" "suf = [] \<or> (\<exists>b. suf = CHR ''/'' # b \<and> dots_free b)" by blast
  have "\<exists>base. PathUnescape (TrimSuffix target ''/'') = Some base \<and> dots_free base"
  proof (cases "HasSuffix target ''/''")
    case True
    then obtain t where t: "target = t @ CHR ''/'' # []" using HasSuffixE by blast
    from PathUnescape_slash [of t "[]" mount] t assms(4,5) dots_free_sep show ?thesis
      using TrimSuffix_append [of t "''/''"] by (auto simp: dots_free_def)
  qed (use assms(4,5) in \<open>auto simp: TrimSuffix_def dots_free_def\<close>)
  then obtain base where base: "PathUnescape (TrimSuffix target ''/'') = Some base" "dots_free base" by blast
  have "PathUnescape (TrimSuffix target ''/'' @ ?rest) = Some (base @ suf)"
    using PathUnescape_append [OF base(1), of ?rest] s(2) by simp
  moreover have "TrimSuffix target ''/'' @ ?rest = [] \<longleftrightarrow> base @ suf = []"
    using calculation PathUnescape_nonempty by fastforce
  moreover have "dots_free (base @ suf)" using base(2) s(3) by (auto simp: dots_free_sep)
  ultimately show ?thesis using base(1) s
    by (intro exI [of _ base] exI [of _ pre] exI [of _ suf]) (auto simp: upstreamEscapedPath_def Let_def dots_free_def)
qed

theorem upstream_path_confined_witness:
  "\<exists>base suf. PathUnescape ''/mnt'' = Some base \<and>
     PathUnescape (upstreamEscapedPath ''/v%31/api/a%2Fb'' ''/mnt/'' ''/v1'' True) = Some (if base @ suf = [] then ''/'' else base @ suf) \<and>
     \<not> hasDotDotSegment (base @ suf) \<and> upstreamEscapedPath ''/v%31/api/a%2Fb'' ''/mnt/'' ''/v1'' True = ''/mnt/api/a%2Fb''"
proof -
  have "HasPrefix ''/v%31/api/a%2Fb'' ''/''" "PathUnescape ''/v%31/api/a%2Fb'' = Some ''/v1/api/a/b''" "\<not> hasDotDotSegment ''/v1/api/a/b''"
    "PathUnescape ''/mnt/'' = Some ''/mnt/''" "\<not> hasDotDotSegment ''/mnt/''" "TrimSuffix ''/mnt/'' ''/'' = ''/mnt''"
    "upstreamEscapedPath ''/v%31/api/a%2Fb'' ''/mnt/'' ''/v1'' True = ''/mnt/api/a%2Fb''"
    by code_simp+
  with upstream_path_confined [of "''/v%31/api/a%2Fb''" "''/v1/api/a/b''" "''/mnt/''" "''/mnt/''" "''/v1''" True] show ?thesis by auto
qed

section \<open>The token that goes upstream\<close>

text \<open>A token the function's signer issued over claims that print as the projection \<open>p\<close> does.\<close>

definition fat_signed :: "('s, 'e, 'r) proxy_env \<Rightarrow> string \<Rightarrow> mapclaims \<Rightarrow> bool" where
  "fat_signed E tok p \<longleftrightarrow>
     (\<exists>t jti p'. fmt_any (pe_FmtOther E) (VMap p') = fmt_any (pe_FmtOther E) (VMap p) \<and>
        SignProjected (x_lib (pe_x E)) (pe_signer E) t jti p' = Inr tok)"

definition fat_ok :: "(InMemoryCache, 'e, 'r) proxy_env \<Rightarrow> string \<Rightarrow> InMemoryCache \<Rightarrow> bool" where
  "fat_ok E name c \<longleftrightarrow> surviving c \<and> (\<forall>t p v. cache_view t c (fat_key E name p) = Some v \<longrightarrow> fat_signed E v p)"

lemma fat_key_inj:
  "inj (pe_Sha256Hex E) \<Longrightarrow> fat_key E name p = fat_key E name q \<Longrightarrow>
   fmt_any (pe_FmtOther E) (VMap p) = fmt_any (pe_FmtOther E) (VMap q)"
  by (auto simp: fat_key_def Hash_def dest: injD)

lemma fat_signed_fmt:
  "fmt_any (pe_FmtOther E) (VMap p) = fmt_any (pe_FmtOther E) (VMap q) \<Longrightarrow> fat_signed E v p = fat_signed E v q"
  by (simp add: fat_signed_def)

lemma fat_ok_get: "fat_ok E name c \<Longrightarrow> fat_ok E name (snd (cache_Get t k c))"
  by (auto simp: fat_ok_def mem_get_surviving cache_Get_view)

lemma fat_ok_set:
  assumes "fat_ok E name c" and "inj (pe_Sha256Hex E)" and "SignProjected (x_lib (pe_x E)) (pe_signer E) t jti p = Inr v"
  shows "fat_ok E name (cache_Set t (fat_key E name p) v opts c)"
proof -
  have s: "surviving c" using assms(1) by (simp add: fat_ok_def)
  have v: "fat_signed E v p" using assms(3) by (auto simp: fat_signed_def)
  have "fat_signed E w q" if "cache_view t' (cache_Set t (fat_key E name p) v opts c) (fat_key E name q) = Some w" for t' q w
  proof (cases "fat_key E name q = fat_key E name p")
    case True
    then have "w = v" using that mem.set_self [OF s, of t' t "fat_key E name p" v opts] by (auto split: if_splits)
    then show ?thesis using v fat_signed_fmt [OF fat_key_inj [OF assms(2) True]] by simp
  next
    case False
    from mem.set_other_le [OF s False, of t' t v opts] that have "cache_view t' c (fat_key E name q) = Some w" by auto
    then show ?thesis using assms(1) by (auto simp: fat_ok_def)
  qed
  then show ?thesis using s by (auto simp: fat_ok_def mem_set_surviving)
qed

lemma mint_fat_cases:
  assumes "pe_fat E = mem_ops" and "inj (pe_Sha256Hex E)" and "fat_ok E name c" and "mint_fat E name now jti ctx c = (fat, c')"
  shows "fat_ok E name c' \<and>
    (case fat of
       Some tok \<Rightarrow> \<exists>p. Project (x_lib (pe_x E)) (pe_signer E) ctx = Inr p \<and> fat_signed E tok p
     | None \<Rightarrow> (\<exists>e. Project (x_lib (pe_x E)) (pe_signer E) ctx = Inl e) \<or>
         (\<exists>p e. Project (x_lib (pe_x E)) (pe_signer E) ctx = Inr p \<and> SignProjected (x_lib (pe_x E)) (pe_signer E) now jti p = Inl e))"
proof (cases "Project (x_lib (pe_x E)) (pe_signer E) ctx")
  case (Inl e)
  then show ?thesis using assms(3,4) by (auto simp: mint_fat_def)
next
  case (Inr p)
  let ?k = "fat_key E name p"
  have s: "surviving c" using assms(3) by (simp add: fat_ok_def)
  obtain c1 where c1: "cache_Get now ?k c = (found_result (cache_view now c ?k), c1)"
    using mem_get_result [OF s] by (metis prod.collapse)
  have ok1: "fat_ok E name c1" using fat_ok_get [OF assms(3), of now ?k] c1 by simp
  show ?thesis
  proof (cases "cache_view now c ?k")
    case (Some tok)
    then have "fat = Some tok \<and> c' = c1" using assms(1,4) Inr c1 by (auto simp: mint_fat_def)
    then show ?thesis using Inr ok1 Some assms(3) by (auto simp: fat_ok_def)
  next
    case None
    show ?thesis
    proof (cases "SignProjected (x_lib (pe_x E)) (pe_signer E) now jti p")
      case (Inl e)
      then have "fat = None \<and> c' = c1" using assms(1,4) Inr c1 None by (auto simp: mint_fat_def)
      then show ?thesis using Inl Inr ok1 by auto
    next
      case (Inr tok)
      then have "fat = Some tok \<and> c' = cache_Set now ?k tok [] c1"
        using assms(1,4) \<open>Project _ _ ctx = Inr p\<close> c1 None by (auto simp: mint_fat_def)
      then show ?thesis using Inr \<open>Project _ _ ctx = Inr p\<close> fat_ok_set [OF ok1 assms(2) Inr] by (auto simp: fat_signed_def)
    qed
  qed
qed

lemma forwarded:
  assumes "proxy_handler E fh now rnd r st = (PxForward out marker, st')"
  shows "\<exists>ctx st1 s'. \<not> hasDotDotSegment (pq_Path r) \<and> proxy_context E fh now r st = (ctx, st1) \<and> proxy_gate E fh r ctx = None \<and>
    Rewrite E (fh_Function fh) now (cr_jti rnd) r ctx (px_fat st1) = (out, s') \<and> st' = st1\<lparr>px_fat := s'\<rparr>"
proof -
  obtain ctx st1 where c: "proxy_context E fh now r st = (ctx, st1)" by (rule prod.exhaust)
  have d: "\<not> hasDotDotSegment (pq_Path r)" using assms by (auto simp: proxy_handler_def)
  have g: "proxy_gate E fh r ctx = None" using assms c d by (auto simp: proxy_handler_def split: option.splits)
  have s: "serve_admitted E fh now rnd r ctx st1 = (PxForward out marker, st')" using assms c d g by (simp add: proxy_handler_def)
  obtain out' s' where w: "Rewrite E (fh_Function fh) now (cr_jti rnd) r ctx (px_fat st1) = (out', s')" by (rule prod.exhaust)
  have "out' = out \<and> st' = st1\<lparr>px_fat := s'\<rparr>"
    using s w by (auto simp: serve_admitted_def forward_def Let_def split: option.splits prod.splits)
  then show ?thesis using c d g w by blast
qed

lemma bridge_fat: "px_fat (snd (bridge E fh now r st)) = px_fat st"
  by (simp add: bridge_def Let_def split: option.split prod.split sum.split)

text \<open>Who a bridged identity is: the holder of an API token valid for one of the function's audiences.\<close>

definition bridged :: "('s, 'e, 'r) proxy_env \<Rightarrow> 'r KDexFunctionHandler \<Rightarrow> instant \<Rightarrow> proxy_request \<Rightarrow> mapclaims \<Rightarrow> bool" where
  "bridged E fh now r ac \<longleftrightarrow>
     (\<exists>cfg tm data aud sl sl' m m' ac0. pe_cfg E = Some cfg \<and> gc_Tokens cfg = Some tm \<and>
        (rt_APIKey (fh_tables fh) \<or> fh_oauth2Protected fh) \<and> extractBearerOrAPIToken r (TokenPrefix cfg) \<noteq> [] \<and>
        aud \<in> set (expected_audiences fh cfg) \<and>
        ValidateToken (x_paseto (pe_x E)) tm (pe_store E) (pe_legacy E) now (extractBearerOrAPIToken r (TokenPrefix cfg)) aud sl = (Inr data, sl') \<and>
        PATAuthContext (pe_x E) now data SiteProxyPAT m = (Inr ac0, m') \<and> ac = AList.update PATBridgeClaim (VBool True) ac0)"

lemma validate_first_Inr:
  "validate_first P tm store legacy now tok auds sl = (Inr data, sl') \<Longrightarrow>
   \<exists>aud s s'. aud \<in> set auds \<and> ValidateToken P tm store legacy now tok aud s = (Inr data, s')"
proof (induction auds arbitrary: sl rule: induct_list012)
  case (2 a)
  then show ?case by (metis list.set_intros(1) validate_first.simps(2))
next
  case (3 a b auds)
  obtain res sl1 where v: "ValidateToken P tm store legacy now tok a sl = (res, sl1)" by (rule prod.exhaust)
  show ?case
  proof (cases res)
    case (Inr d)
    then have "ValidateToken P tm store legacy now tok a sl = (Inr data, sl')" using "3.prems" v by simp
    then show ?thesis by (intro exI [of _ a] exI [of _ sl] exI [of _ sl']) simp
  next
    case (Inl e)
    then have "validate_first P tm store legacy now tok (b # auds) sl1 = (Inr data, sl')" using "3.prems" v by simp
    from "3.IH"(2) [OF this] show ?thesis by (meson list.set_intros(2))
  qed
qed auto

lemma bridge_context:
  assumes "bridge E fh now r st = (Some ac, st')"
  shows "pq_Context r = Some ac \<or> (pq_Context r = None \<and> bridged E fh now r ac)"
proof (cases "pq_Context r")
  case (Some a)
  then show ?thesis using assms by (auto simp: bridge_def split: option.splits)
next
  case None
  from assms None obtain cfg tm where c: "pe_cfg E = Some cfg" "gc_Tokens cfg = Some tm"
    by (auto simp: bridge_def split: option.splits)
  let ?tok = "extractBearerOrAPIToken r (TokenPrefix cfg)" and ?auds = "expected_audiences fh cfg"
  have t: "rt_APIKey (fh_tables fh) \<or> fh_oauth2Protected fh" "?tok \<noteq> []" "?auds \<noteq> []"
    using assms None c by (auto simp: bridge_def Let_def split: if_splits)
  obtain res rl where v: "validate_first (x_paseto (pe_x E)) tm (pe_store E) (pe_legacy E) now ?tok ?auds (px_revocations st) = (res, rl)"
    by (rule prod.exhaust)
  from assms None c t v obtain data where d: "res = Inr data" by (cases res) (auto simp: bridge_def Let_def)
  obtain res2 m where p: "PATAuthContext (pe_x E) now data SiteProxyPAT (px_memo st) = (res2, m)" by (rule prod.exhaust)
  from assms None c t v d p obtain ac0 where a: "res2 = Inr ac0" "ac = AList.update PATBridgeClaim (VBool True) ac0"
    by (cases res2) (auto simp: bridge_def Let_def)
  from validate_first_Inr [OF v [unfolded d]] show ?thesis using None c t p a unfolding bridged_def by blast
qed

text \<open>C5: the proxy forwards only what its gate admitted. A request that is sent upstream has no parent segment in its
  path; its identity, if any, is the one the authentication gate handed over or that of an API token valid for the
  function's resource or the host, enriched by the configured mappings; and, on a host with a checker, the requirements
  of the matched route were bound from the request without error, from nothing when the route's declaration is
  malformed, and verified against that identity's entitlements.\<close>

theorem proxy_forwards_authorized:
  assumes "proxy_handler E fh now rnd r st = (PxForward out marker, st')"
  shows "\<exists>ctx. fst (proxy_context E fh now r st) = ctx \<and> \<not> hasDotDotSegment (pq_Path r) \<and>
    (\<forall>ac. ctx = Some ac \<longrightarrow> (\<exists>ac0. ac = EnrichAuthContext ac0 (pe_mapper E) \<and>
       (pq_Context r = Some ac0 \<or> (pq_Context r = None \<and> bridged E fh now r ac0)))) \<and>
    (\<forall>ck. pe_ck E = Some ck \<longrightarrow>
       (\<exists>binding reqs. BindRequirements ck (route_requirements ck fh (route_key E r)) binding = Inr reqs \<and>
          (\<forall>k v. map_of binding k = Some v \<longrightarrow> route_key E r \<notin> set (rt_Invalid (fh_tables fh)) \<and>
             resolveKey r (pe_Match E r) (route_spec fh (route_key E r)) k = Some v) \<and>
          VerifyResourceParsedEntitlements ck ''functions'' (kf_BasePath (fh_Function fh)) (GetParsedEntitlements ck ctx) reqs [] = Inr True))"
proof -
  from forwarded [OF assms] obtain ctx st1 where d: "\<not> hasDotDotSegment (pq_Path r)"
    and c: "proxy_context E fh now r st = (ctx, st1)" and g: "proxy_gate E fh r ctx = None" by blast
  have "\<exists>ac0. ac = EnrichAuthContext ac0 (pe_mapper E) \<and> (pq_Context r = Some ac0 \<or> (pq_Context r = None \<and> bridged E fh now r ac0))"
    if "ctx = Some ac" for ac
    using c that bridge_context [of E fh now r st] by (cases "bridge E fh now r st") (auto simp: proxy_context_def)
  moreover have "\<exists>reqs. BindRequirements ck (route_requirements ck fh (route_key E r)) (route_binding E fh r) = Inr reqs \<and>
      VerifyResourceParsedEntitlements ck ''functions'' (kf_BasePath (fh_Function fh)) (GetParsedEntitlements ck ctx) reqs [] = Inr True"
    if "pe_ck E = Some ck" for ck
    using g that by (auto simp: proxy_gate_def Let_def split: sum.splits if_splits bool.splits)
  moreover have "route_key E r \<notin> set (rt_Invalid (fh_tables fh)) \<and> resolveKey r (pe_Match E r) (route_spec fh (route_key E r)) k = Some v"
    if "map_of (route_binding E fh r) k = Some v" for k v
    using that by (auto simp: route_binding_def Let_def map_of_resolveBinding split: if_splits)
  ultimately show ?thesis using c d by (intro exI [of _ ctx]) (simp, blast)
qed


section \<open>Witnesses\<close>

definition demo_ent_lib :: "(string list gomap, requirement list) ent_lib" where
  "demo_ent_lib = \<lparr>el_ParseEntitlements = id, el_ParseRequirements = id, el_Verify = (\<lambda>_ _. True),
     el_VerifyResource = (\<lambda>_ _ held _ _. Inr (held \<noteq> [])), el_Calculate = (\<lambda>_ _ reqs _. Inr reqs), el_Bind = (\<lambda>reqs _. Inr reqs)\<rparr>"

definition demo_proxy_env :: "(InMemoryCache, string list gomap, requirement list) proxy_env" where
  "demo_proxy_env = \<lparr>pe_ck = Some \<lparr>ck_ec = demo_ent_lib, ck_scopeBuckets = False\<rparr>, pe_cfg = None, pe_x = demo_exchange, pe_store = None,
     pe_legacy = None, pe_mapper = None, pe_signer = demo_plain_signer, pe_fat = mem_ops, pe_Sha256Hex = id, pe_FmtOther = (\<lambda>_. []),
     pe_Match = (\<lambda>_. ''/v1/files/{id}''), pe_Prepare = id, pe_XForwarded = (\<lambda>_. id), pe_InvalidBound = (\<lambda>_. False),
     pe_TargetEscaped = ''/mnt'',
     pe_mint = \<lparr>mn_paseto = demo_paseto, mn_dates = \<lparr>dl_Exp = (\<lambda>_. Inr None), dl_Iat = (\<lambda>_. Inr None)\<rparr>, mn_tokens = None,
                mn_url = demo_md_url, mn_issuer = ''https://host'', mn_encode = (\<lambda>_. [])\<rparr>,
     pe_cap = demo_cap_host, pe_CookieString = (\<lambda>n v. n @ ''='' @ v), pe_URLString = (\<lambda>s h p. s @ ''://'' @ h @ p),
     pe_rpc = (\<lambda>_. None), pe_args = (\<lambda>_. None)\<rparr>"

definition demo_function :: KDexFunction where
  "demo_function = \<lparr>kf_Name = ''files'', kf_Annotations = [], kf_URL = ''http://files/mnt'', kf_Backend = True, kf_BasePath = ''/v1'',
     kf_Paths = [(''/v1/files/{id}'', [(''GET'', \<lparr>op_Security = Some [[(''bearer'', [''files:{id}:read''])]], op_Extensions = []\<rparr>)])],
     kf_Ready = True, kf_Internal = False\<rparr>"

definition demo_fh :: "requirement list KDexFunctionHandler" where
  "demo_fh = function_handler id \<lparr>ck_ec = demo_ent_lib, ck_scopeBuckets = False\<rparr> ''https://host'' ''https://host'' [demo_function] False demo_function"

definition demo_proxy_request :: proxy_request where
  "demo_proxy_request = \<lparr>br_EscapedPath = ''/v1/files/a%2Fb'', br_Query = [], br_Header = [(''Authorization'', [''Bearer host-token''])],
     pq_Method = ''GET'', pq_Path = ''/v1/files/a/b'', pq_Host = ''host'', pq_RawQuery = [], pq_Cookies = [(''sid'', ''c'')], pq_Body = None,
     pq_Context = Some [(''sub'', VStr ''u1''), (''entitlements'', VStrs [''files:*:read''])]\<rparr>"

definition demo_proxy_state :: "InMemoryCache proxy_state" where
  "demo_proxy_state = \<lparr>px_revocations = (demo_cap_cache, demo_cap_cache), px_memo = demo_cap_cache, px_fat = demo_class ''token'', px_cap = demo_cap_cache\<rparr>"

lemma demo_forwarded:
  "\<exists>out st'. proxy_handler demo_proxy_env demo_fh 0 demo_random demo_proxy_request demo_proxy_state = (PxForward out None, st') \<and>
     ur_EscapedPath out = ''/mnt/files/a%2Fb'' \<and> ur_Header out = [(''Authorization'', [''Bearer RS256.u1'']), (''X-Kdex-Forwarded'', [''true''])]"
proof -
  have "fst (proxy_handler demo_proxy_env demo_fh 0 demo_random demo_proxy_request demo_proxy_state) =
    PxForward \<lparr>ur_EscapedPath = ''/mnt/files/a%2Fb'', ur_RawQuery = [],
      ur_Header = [(''Authorization'', [''Bearer RS256.u1'']), (''X-Kdex-Forwarded'', [''true''])]\<rparr> None" by code_simp
  then show ?thesis by (metis prod.collapse upstream_request.select_convs(1,3))
qed

theorem proxy_forwards_authorized_witness:
  "\<exists>binding reqs. BindRequirements \<lparr>ck_ec = demo_ent_lib, ck_scopeBuckets = False\<rparr>
       (route_requirements \<lparr>ck_ec = demo_ent_lib, ck_scopeBuckets = False\<rparr> demo_fh ''GET /v1/files/{id}'') binding = Inr reqs \<and>
     (\<forall>k v. map_of binding k = Some v \<longrightarrow> resolveKey demo_proxy_request ''/v1/files/{id}'' [] k = Some v)"
proof -
  from demo_forwarded obtain out st' where
    h: "proxy_handler demo_proxy_env demo_fh 0 demo_random demo_proxy_request demo_proxy_state = (PxForward out None, st')" by blast
  have e: "pe_ck demo_proxy_env = Some \<lparr>ck_ec = demo_ent_lib, ck_scopeBuckets = False\<rparr>" "pe_Match demo_proxy_env demo_proxy_request = ''/v1/files/{id}''"
    by (simp_all add: demo_proxy_env_def)
  have k: "route_key demo_proxy_env demo_proxy_request = ''GET /v1/files/{id}''" "route_spec demo_fh ''GET /v1/files/{id}'' = []" by code_simp+
  from proxy_forwards_authorized [OF h] obtain ctx where f:
    "\<forall>ck. pe_ck demo_proxy_env = Some ck \<longrightarrow>
       (\<exists>binding reqs. BindRequirements ck (route_requirements ck demo_fh (route_key demo_proxy_env demo_proxy_request)) binding = Inr reqs \<and>
          (\<forall>k v. map_of binding k = Some v \<longrightarrow> route_key demo_proxy_env demo_proxy_request \<notin> set (rt_Invalid (fh_tables demo_fh)) \<and>
             resolveKey demo_proxy_request (pe_Match demo_proxy_env demo_proxy_request) (route_spec demo_fh (route_key demo_proxy_env demo_proxy_request)) k = Some v) \<and>
          VerifyResourceParsedEntitlements ck ''functions'' (kf_BasePath (fh_Function demo_fh)) (GetParsedEntitlements ck ctx) reqs [] = Inr True)" by blast
  from f [unfolded e k, THEN spec, THEN mp, OF refl] show ?thesis by blast
qed


section \<open>Three corners\<close>

text \<open>A token that cannot be signed leaves the caller's own credential in the outgoing request.\<close>

lemma failed_token_forwards_credential:
  "Project (x_lib (pe_x E)) (pe_signer E) (snapshot_context r ac) = Inl e \<Longrightarrow>
   (\<And>q h. map_of (pe_XForwarded E q h) ''Authorization'' = map_of h ''Authorization'') \<Longrightarrow>
   map_of (ur_Header (fst (Rewrite E fn now jti r (Some ac) s))) ''Authorization'' = map_of (pe_Prepare E (br_Header r)) ''Authorization''"
  by (simp add: Rewrite_def mint_fat_def set_authorization_def set_cookie_header_def h_Set_def h_Del_def CanonicalMIMEHeaderKey_def token_char_def)

text \<open>Two projections that grant different entitlements print, and so hash, alike.\<close>

lemma projection_hash_collision:
  "Hash sha other [(''entitlements'', VStrs [''files:a b:c:read''])] = Hash sha other [(''entitlements'', VStrs [''files:a'', ''b:c:read''])]"
  by (simp add: Hash_def)

text \<open>What \<open>whoami\<close> reports: all the credential carries and all the roles grant, flagged exactly when the roles grant more.\<close>

lemma whoami_reports_union:
  assumes "wr_Withheld res = False"
  shows "set (wr_Entitlements (applyEffectiveEntitlements res resolved)) = set (wr_Entitlements res) \<union> set resolved"
    and "wr_Withheld (applyEffectiveEntitlements res resolved) \<longleftrightarrow> \<not> set resolved \<subseteq> set (wr_Entitlements res)"
  using assms by (auto simp: applyEffectiveEntitlements_def Let_def filter_empty_conv)

end
