(* ===== verification/FunctionBuild.thy ===== *)
theory FunctionBuild
  imports Prelude
begin

text \<open>
  What the function controller has Kubernetes run: the builder of an image
  (\<open>src/internal/controller/kdexfunction_controller.go\<close>, \<open>src/internal/build/build.go\<close>), the code generation
  job (\<open>src/internal/generate/generate.go\<close>), the deployer job and the observer of a host
  (\<open>src/internal/deploy/deploy.go\<close>), and the reading of their results.

  The objects are records with the fields the sources use. A call to the API server is answered by a function of the
  record \<open>cluster\<close>, the answers of one pass; what a pass asks the server to change is an element of its list of actions.
  The JSON and YAML codecs, SHA-256, the condition helpers of the CRD package and of apimachinery, the conversion to
  unstructured objects and the OpenAPI document of a function are parameters. A nested map is compared as a list, as
  the copies the code compares keep their order; the attributes of a status are compared as a map.
\<close>

section \<open>Objects\<close>

record KDexObjectReference =
  or_Kind :: string
  or_Name :: string
  or_Namespace :: string

datatype env_source = SecretKeyRef string string | OtherSource string

record EnvVar =
  ev_Name :: string
  ev_Value :: string
  ev_ValueFrom :: "env_source option"

record Toleration =
  tol_Key :: string
  tol_Operator :: string
  tol_Value :: string
  tol_Effect :: string
  tol_Seconds :: "int option"

record ResourceRequirements =
  rr_Requests :: "string gomap"
  rr_Limits :: "string gomap"
  rr_Claims :: "string list"

record Builder =
  b_Name :: string
  b_BuilderRef :: KDexObjectReference
  b_Languages :: "string list"
  b_ServiceAccountName :: string
  b_Cache :: "string option"
  b_Tolerations :: "Toleration list"
  b_NodeSelector :: "string gomap"
  b_Env :: "EnvVar list"
  b_Resources :: "ResourceRequirements option"

record Source =
  src_Repository :: string
  src_Revision :: string
  src_Path :: string
  src_Builder :: "Builder option"
  src_Regenerate :: "bool option"

record Generator =
  g_Language :: string
  g_Image :: string
  g_Entrypoint :: string
  g_Args :: "string list"
  g_Command :: "string list"
  g_CommitterEmail :: string
  g_CommitterName :: string
  g_FunctionSubDirectory :: string
  g_GitImage :: string

record Executable =
  ex_Image :: string

record FunctionOrigin =
  o_Executable :: "Executable option"
  o_Source :: "Source option"
  o_Generator :: "Generator option"

record DeployerSpec =
  dp_Args :: "string list"
  dp_Command :: "string list"
  dp_Env :: "EnvVar list"
  dp_Image :: string
  dp_Tolerations :: "Toleration list"
  dp_NodeSelector :: "string gomap"
  dp_JobTolerations :: "Toleration list"
  dp_JobNodeSelector :: "string gomap"

record ObserverSpec =
  ob_Args :: "string list"
  ob_Command :: "string list"
  ob_Env :: "EnvVar list"
  ob_Image :: string
  ob_Tolerations :: "Toleration list"
  ob_NodeSelector :: "string gomap"
  ob_Schedule :: string
  ob_MaxBuildRetries :: "int option"
  ob_RetryCooldown :: "duration option"

record KDexFaaSAdaptorSpec =
  fa_DefaultBuilderGenerator :: string
  fa_Builders :: "Builder list"
  fa_Generators :: "Generator list"
  fa_Deployer :: DeployerSpec
  fa_Observer :: "ObserverSpec option"

text \<open>The scaling of a function; every field is optional.\<close>

record ScalingConfig =
  sc_ActivationScale :: "int option"
  sc_InitialScale :: "int option"
  sc_MaxScale :: "int option"
  sc_Metric :: "string option"
  sc_MinScale :: "int option"
  sc_PanicThresholdPercentage :: "int option"
  sc_PanicWindowPercentage :: "int option"
  sc_ScaleDownDelay :: "duration option"
  sc_ScaleToZeroPodRetentionPeriod :: "duration option"
  sc_StableWindow :: "duration option"
  sc_Target :: "int option"
  sc_TargetUtilizationPercentage :: "int option"

text \<open>The Service a function fronts, with the port as a number or a name.\<close>

datatype service_port = PortNumber int | PortName string

record ServiceBackend =
  sb_Name :: string
  sb_Namespace :: string
  sb_Port :: service_port
  sb_Scheme :: string
  sb_Path :: string

text \<open>The API of a function: its base path, and everything else of it as one value.\<close>

record FunctionAPI =
  api_BasePath :: string
  api_Rest :: string

text \<open>The specification. \<open>fs_Origin\<close> is what \<open>GetOrigin\<close> returns; a backend may lack its service.\<close>

record KDexFunctionSpec =
  fs_HostRef :: string
  fs_Backend :: "ServiceBackend option option"
  fs_Origin :: FunctionOrigin
  fs_API :: FunctionAPI
  fs_ServiceAccountName :: string
  fs_Tolerations :: "Toleration list"
  fs_NodeSelector :: "string gomap"
  fs_Volumes :: "string list"
  fs_VolumeMounts :: "string list"
  fs_Internal :: bool
  fs_Env :: "EnvVar list"
  fs_Scaling :: "ScalingConfig option"

datatype KDexFunctionState =
    NoState | Pending | OpenAPIValid | BuildValid | SourceAvailable | ExecutableAvailable | FunctionDeployed | Ready

text \<open>The strings of the states.\<close>

fun state_string :: "KDexFunctionState \<Rightarrow> string" where
  "state_string NoState = []"
| "state_string Pending = ''Pending''"
| "state_string OpenAPIValid = ''OpenAPIValid''"
| "state_string BuildValid = ''BuildValid''"
| "state_string SourceAvailable = ''SourceAvailable''"
| "state_string ExecutableAvailable = ''ExecutableAvailable''"
| "state_string FunctionDeployed = ''FunctionDeployed''"
| "state_string Ready = ''Ready''"

datatype condition_status = CTrue | CFalse | CUnknown

record condition =
  cd_Type :: string
  cd_Status :: condition_status
  cd_Reason :: string
  cd_Message :: string
  cd_LastTransitionTime :: instant

record ConditionStatuses =
  cs_Degraded :: condition_status
  cs_Progressing :: condition_status
  cs_Ready :: condition_status

record KDexFunctionStatus =
  st_State :: KDexFunctionState
  st_ObservedGeneration :: int
  st_Attributes :: "string gomap"
  st_Conditions :: "condition list"
  st_URL :: string
  st_Detail :: string
  st_OpenAPISchemaURL :: string
  st_Executable :: "Executable option"
  st_Generator :: "Generator option"
  st_Source :: "Source option"

record KDexFunctionCR =
  fn_Name :: string
  fn_Namespace :: string
  fn_UID :: string
  fn_Generation :: int
  fn_Labels :: "string gomap"
  fn_Spec :: KDexFunctionSpec
  fn_Status :: KDexFunctionStatus

text \<open>The host object, as far as its functions read it.\<close>

record KDexInternalHost =
  ih_Name :: string
  ih_Namespace :: string
  ih_Generation :: int
  ih_Scheme :: string
  ih_Domains :: "string list"
  ih_FaaSAdaptorRef :: "KDexObjectReference option"
  ih_SecretSelector :: "string option"
  ih_ImageRegistry :: string
  ih_TokenPrefix :: "string option"

section \<open>Workloads\<close>

record PodSecurityContext =
  ps_RunAsNonRoot :: bool
  ps_RunAsUser :: int
  ps_RunAsGroup :: int
  ps_SeccompProfile :: string

record SecurityContext =
  se_AllowPrivilegeEscalation :: bool
  se_Drop :: "string list"

definition PSSRestrictedPodSecurityContext :: PodSecurityContext where
  "PSSRestrictedPodSecurityContext =
     \<lparr>ps_RunAsNonRoot = True, ps_RunAsUser = 65532, ps_RunAsGroup = 65532, ps_SeccompProfile = ''RuntimeDefault''\<rparr>"

definition PSSRestrictedContainerSecurityContext :: SecurityContext where
  "PSSRestrictedContainerSecurityContext = \<lparr>se_AllowPrivilegeEscalation = False, se_Drop = [''ALL'']\<rparr>"

record Container =
  co_Name :: string
  co_Args :: "string list"
  co_Command :: "string list"
  co_Env :: "EnvVar list"
  co_Image :: string
  co_SecurityContext :: SecurityContext
  co_Resources :: "ResourceRequirements option"
  co_Mounts :: "(string \<times> string) list"

record PodSpec =
  po_Automount :: bool
  po_SecurityContext :: PodSecurityContext
  po_Containers :: "Container list"
  po_InitContainers :: "Container list"
  po_ImagePullSecrets :: "string list"
  po_NodeSelector :: "string gomap"
  po_RestartPolicy :: string
  po_ServiceAccountName :: string
  po_Tolerations :: "Toleration list"
  po_Volumes :: "string list"

record JobSpec =
  js_ActiveDeadlineSeconds :: "int option"
  js_BackoffLimit :: "int option"
  js_Completions :: int
  js_Parallelism :: "int option"
  js_TTLSecondsAfterFinished :: "int option"
  js_Annotations :: "string gomap"
  js_Pod :: PodSpec

record JobCondition =
  jc_Type :: string
  jc_Status :: condition_status
  jc_Reason :: string
  jc_Message :: string

record Job =
  j_Name :: string
  j_Namespace :: string
  j_Labels :: "string gomap"
  j_Annotations :: "string gomap"
  j_Controller :: "string option"
  j_Succeeded :: int
  j_Failed :: int
  j_Conditions :: "JobCondition list"
  j_Spec :: JobSpec

record Pod =
  pd_Annotations :: "string gomap"
  pd_Statuses :: "(string \<times> string option) list"

record CronJobSpec =
  cj_ConcurrencyPolicy :: string
  cj_Job :: JobSpec
  cj_Schedule :: string
  cj_SuccessfulJobsHistoryLimit :: int

record CronJob =
  cr_Name :: string
  cr_Namespace :: string
  cr_Labels :: "string gomap"
  cr_Spec :: CronJobSpec

text \<open>The kpack image the builder asks for, and the image object with the status kpack reports. A condition that is not
  an object is \<open>None\<close>; one has its type, its status and its message, empty when it is not a string.\<close>

record KImageSpec =
  ks_Name :: string
  ks_Namespace :: string
  ks_BuilderName :: string
  ks_BuilderKind :: string
  ks_ServiceAccount :: string
  ks_URL :: string
  ks_Revision :: string
  ks_SubPath :: string
  ks_Tag :: string
  ks_AdditionalTags :: "string list"
  ks_SuccessHistory :: int
  ks_FailedHistory :: int
  ks_Env :: "(string \<times> string) list"
  ks_CacheSize :: string
  ks_Tolerations :: "Toleration list"
  ks_NodeSelector :: "string gomap"
  ks_Resources :: "ResourceRequirements option"
  ks_Labels :: "string gomap"

record KImageStatus =
  kst_Conditions :: "(string \<times> string \<times> string) option list option"
  kst_ObservedGeneration :: "int option"
  kst_LatestImage :: "string option"

record KImage =
  ki_Namespace :: string
  ki_Name :: string
  ki_Generation :: int
  ki_Status :: "KImageStatus option"
  ki_Tag :: "string option"
  ki_AdditionalTags :: "string list option"

section \<open>Libraries and the answers of a pass\<close>

record KSecret =
  sec_Name :: string
  sec_Generation :: int
  sec_Annotations :: "string gomap"
  sec_Type :: string

text \<open>\<open>kl_SortSecrets\<close> is the order in which \<open>Find\<close> and \<open>Filter\<close> of the CRD package go through the secrets.\<close>

record kube_lib =
  kl_SetConditions :: "instant \<Rightarrow> condition list \<Rightarrow> ConditionStatuses \<Rightarrow> string \<Rightarrow> string \<Rightarrow> condition list"
  kl_SetStatusCondition :: "instant \<Rightarrow> condition list \<Rightarrow> string \<Rightarrow> condition_status \<Rightarrow> string \<Rightarrow> string \<Rightarrow> condition list"
  kl_RemoveStatusCondition :: "condition list \<Rightarrow> string \<Rightarrow> condition list"
  kl_IsStatusConditionTrue :: "condition list \<Rightarrow> string \<Rightarrow> bool"
  kl_MarshalAPI :: "FunctionAPI \<Rightarrow> string option"
  kl_Sha256Hex :: "string \<Rightarrow> string"
  kl_ParseResults :: "string \<Rightarrow> string + string \<times> string \<times> string"
  kl_ParseURL :: "string \<Rightarrow> string + string"
  kl_DurationString :: "duration \<Rightarrow> string"
  kl_Quote :: "string \<Rightarrow> string"
  kl_MarshalTolerations :: "Toleration list \<Rightarrow> string + string"
  kl_MarshalSelector :: "string gomap \<Rightarrow> string + string"
  kl_MarshalVolumes :: "string list \<Rightarrow> string + string"
  kl_MarshalEnv :: "EnvVar list \<Rightarrow> string + string"
  kl_MarshalFunction :: "KDexFunctionCR \<Rightarrow> string + string"
  kl_OpenAPI :: "string \<Rightarrow> KDexFunctionCR \<Rightarrow> string + string"
  kl_ConvertToleration :: "Toleration \<Rightarrow> string option"
  kl_ConvertResources :: "ResourceRequirements \<Rightarrow> string option"
  kl_SortSecrets :: "KSecret list \<Rightarrow> KSecret list"

text \<open>An error of the API server, by the kind the code asks about.\<close>

datatype kube_error =
    NotFound (kerr_msg: string) | Conflict (kerr_msg: string) | AlreadyExists (kerr_msg: string)
  | NoMatch (kerr_msg: string) | OtherError (kerr_msg: string)

text \<open>An adaptor, clustered or not, with what its resolution reads.\<close>

record FaaSAdaptor =
  ad_Name :: string
  ad_Generation :: int
  ad_Created :: instant
  ad_Conditions :: "condition list"
  ad_Spec :: KDexFaaSAdaptorSpec

record KService =
  svc_Ports :: "(string \<times> int) list"

text \<open>What the API server answers during one pass. \<open>ca_PutImage\<close> is \<open>CreateOrPatch\<close> for the desired image; \<open>ca_Patch\<close>
  is the label patch, whose answer is decoded into the function object.\<close>

record cluster =
  ca_now :: instant
  ca_GetHost :: "string \<Rightarrow> string \<Rightarrow> kube_error + KDexInternalHost"
  ca_KnownKind :: "string \<Rightarrow> bool"
  ca_GetAdaptor :: "string \<Rightarrow> string \<Rightarrow> string \<Rightarrow> kube_error + FaaSAdaptor"
  ca_DefaultAdaptors :: "kube_error + FaaSAdaptor list"
  ca_ListSecrets :: "string \<Rightarrow> string \<Rightarrow> string + KSecret list"
  ca_GetImage :: "string \<Rightarrow> string \<Rightarrow> kube_error + KImage"
  ca_PutImage :: "KImageSpec \<Rightarrow> string + KImage"
  ca_DeleteImage :: "string \<Rightarrow> string \<Rightarrow> kube_error option"
  ca_GetService :: "string \<Rightarrow> string \<Rightarrow> kube_error + KService"
  ca_ListEndpoints :: "string \<Rightarrow> string \<Rightarrow> kube_error + bool option list list"
  ca_GetJob :: "string \<Rightarrow> string \<Rightarrow> kube_error + Job"
  ca_CreateJob :: "Job \<Rightarrow> string option"
  ca_DeleteJob :: "Job \<Rightarrow> kube_error option"
  ca_ListJobs :: "string \<Rightarrow> string \<Rightarrow> string \<Rightarrow> kube_error + Job list"
  ca_ListPods :: "string \<Rightarrow> string \<Rightarrow> kube_error + Pod list"
  ca_GetServiceAccount :: "string \<Rightarrow> string \<Rightarrow> kube_error + string gomap"
  ca_Patch :: "KDexFunctionCR \<Rightarrow> string + KDexFunctionCR"
  ca_GetCronJob :: "string \<Rightarrow> string \<Rightarrow> kube_error + CronJob"
  ca_UpdateCronJob :: "CronJob \<Rightarrow> string option"
  ca_CreateCronJob :: "CronJob \<Rightarrow> kube_error option"
  ca_DeleteCronJob :: "string \<Rightarrow> string \<Rightarrow> kube_error option"
  ca_UpdateStatus :: "KDexFunctionCR \<Rightarrow> kube_error option"

text \<open>What a pass asks the server to change.\<close>

datatype action =
    ACreateJob Job | ADeleteJob Job | APutImage KImageSpec | ADeleteImage string string | APatchLabels KDexFunctionCR
  | AUpdateCronJob CronJob | ACreateCronJob CronJob | ADeleteCronJob string string | AUpdateStatus KDexFunctionCR

text \<open>A read of a Go map of strings: the empty string for an absent key.\<close>

definition at_key :: "string gomap \<Rightarrow> string \<Rightarrow> string" where
  "at_key m k = (case map_of m k of Some v \<Rightarrow> v | None \<Rightarrow> [])"

section \<open>The builder of an image\<close>

text \<open>\<open>strings.Cut\<close> for a one-byte separator.\<close>

fun Cut :: "string \<Rightarrow> char \<Rightarrow> (string \<times> string) option" where
  "Cut [] c = None"
| "Cut (x # s) c = (if x = c then Some ([], s) else case Cut s c of None \<Rightarrow> None | Some (a, b) \<Rightarrow> Some (x # a, b))"

definition parseBuilderGenerator :: "kube_lib \<Rightarrow> string \<Rightarrow> string + string \<times> string" where
  "parseBuilderGenerator L s =
     (case Cut s CHR ''/'' of
        None \<Rightarrow> Inl (''invalid defaultBuilderGenerator '' @ kl_Quote L s @ '': expected '' @ [CHR 0x27] @ ''<builder>/<language>'' @ [CHR 0x27])
      | Some bl \<Rightarrow> Inr bl)"

definition resolveDefaultBuilder :: "kube_lib \<Rightarrow> KDexFaaSAdaptorSpec \<Rightarrow> string + Builder" where
  "resolveDefaultBuilder L faas =
     bindE (parseBuilderGenerator L (fa_DefaultBuilderGenerator faas))
       (\<lambda>(name, language).
          case find (\<lambda>b. b_Name b = name \<and> language \<in> set (b_Languages b)) (fa_Builders faas) of
            Some b \<Rightarrow> Inr b
          | None \<Rightarrow> Inl (''no Builder named '' @ kl_Quote L name @ '' supporting language '' @ kl_Quote L language @
              '' found in FaaSAdaptor.spec.builders (defaultBuilderGenerator='' @ kl_Quote L (fa_DefaultBuilderGenerator faas) @ '')''))"

definition resolveBuilderByName :: "KDexFaaSAdaptorSpec \<Rightarrow> string \<Rightarrow> Builder option" where
  "resolveBuilderByName faas name = (if name = [] then None else find (\<lambda>b. b_Name b = name) (fa_Builders faas))"

text \<open>Go's \<open>==\<close> on two tolerations compares the pointers to their seconds: two values read from different objects are
  equal only when neither has any.\<close>

definition same_toleration :: "Toleration \<Rightarrow> Toleration \<Rightarrow> bool" where
  "same_toleration e t \<longleftrightarrow> e = t \<and> tol_Seconds t = None"

definition merge_tolerations :: "Toleration list \<Rightarrow> Toleration list \<Rightarrow> Toleration list" where
  "merge_tolerations base inline =
     fold (\<lambda>t merged. if list_ex (\<lambda>e. same_toleration e t) merged then merged else merged @ [t]) inline base"

text \<open>Replace the first variable of the same name, or append.\<close>

fun put_env :: "EnvVar list \<Rightarrow> EnvVar \<Rightarrow> EnvVar list" where
  "put_env [] e = [e]"
| "put_env (x # xs) e = (if ev_Name x = ev_Name e then e # xs else x # put_env xs e)"

definition merge_env :: "EnvVar list \<Rightarrow> EnvVar list \<Rightarrow> EnvVar list" where
  "merge_env base inline = fold (\<lambda>e merged. put_env merged e) inline base"

definition mergeResourceList :: "string gomap \<Rightarrow> string gomap \<Rightarrow> string gomap" where
  "mergeResourceList base inline = (if inline = [] then base else maps_Copy base inline)"

definition merge_resources :: "ResourceRequirements option \<Rightarrow> ResourceRequirements option \<Rightarrow> ResourceRequirements option" where
  "merge_resources base inline =
     (case inline of
        None \<Rightarrow> base
      | Some i \<Rightarrow>
          (let m = (case base of Some b \<Rightarrow> b | None \<Rightarrow> \<lparr>rr_Requests = [], rr_Limits = [], rr_Claims = []\<rparr>)
           in Some \<lparr>rr_Requests = mergeResourceList (rr_Requests m) (rr_Requests i),
                    rr_Limits = mergeResourceList (rr_Limits m) (rr_Limits i),
                    rr_Claims = (if rr_Claims i \<noteq> [] then rr_Claims i else rr_Claims m)\<rparr>))"

definition no_reference :: KDexObjectReference where
  "no_reference = \<lparr>or_Kind = [], or_Name = [], or_Namespace = []\<rparr>"

text \<open>The inline builder layered over the adaptor's; \<open>builderForBuild\<close>, its only caller, never passes a nil inline one.\<close>

definition mergeBuilder :: "Builder option \<Rightarrow> Builder \<Rightarrow> Builder" where
  "mergeBuilder base inline =
     (case base of
        None \<Rightarrow> inline
      | Some b \<Rightarrow>
          \<lparr>b_Name = (if b_Name inline \<noteq> [] then b_Name inline else b_Name b),
           b_BuilderRef = (if b_BuilderRef inline \<noteq> no_reference then b_BuilderRef inline else b_BuilderRef b),
           b_Languages = (if b_Languages inline \<noteq> [] then b_Languages inline else b_Languages b),
           b_ServiceAccountName = (if b_ServiceAccountName inline \<noteq> [] then b_ServiceAccountName inline else b_ServiceAccountName b),
           b_Cache = (if b_Cache inline \<noteq> None then b_Cache inline else b_Cache b),
           b_Tolerations = merge_tolerations (b_Tolerations b) (b_Tolerations inline),
           b_NodeSelector = (if b_NodeSelector inline \<noteq> [] then maps_Copy (b_NodeSelector b) (b_NodeSelector inline) else b_NodeSelector b),
           b_Env = merge_env (b_Env b) (b_Env inline),
           b_Resources = merge_resources (b_Resources b) (b_Resources inline)\<rparr>)"

definition builderForBuild :: "kube_lib \<Rightarrow> KDexFaaSAdaptorSpec \<Rightarrow> Builder option \<Rightarrow> string + Builder" where
  "builderForBuild L faas inline =
     (case inline of
        None \<Rightarrow> resolveDefaultBuilder L faas
      | Some i \<Rightarrow> Inr (mergeBuilder (resolveBuilderByName faas (b_Name i)) i))"

section \<open>The kpack image\<close>

definition imageRef :: "string \<Rightarrow> string \<Rightarrow> string \<Rightarrow> string \<Rightarrow> string" where
  "imageRef registry prefix name tag = registry @ ''/'' @ prefix @ name @ '':'' @ tag"

definition convert_env :: "EnvVar list \<Rightarrow> (string \<times> string) list" where
  "convert_env env = map (\<lambda>e. (ev_Name e, ev_Value e)) env"

definition desired_image :: "string \<Rightarrow> string \<Rightarrow> string \<Rightarrow> Source \<Rightarrow> Builder \<Rightarrow> KDexFunctionCR \<Rightarrow> KImageSpec" where
  "desired_image registry prefix serviceAccount source builder f =
     \<lparr>ks_Name = fs_HostRef (fn_Spec f) @ ''-'' @ fn_Name f, ks_Namespace = fn_Namespace f,
      ks_BuilderName = or_Name (b_BuilderRef builder), ks_BuilderKind = or_Kind (b_BuilderRef builder),
      ks_ServiceAccount = serviceAccount,
      ks_URL = src_Repository source, ks_Revision = src_Revision source, ks_SubPath = src_Path source,
      ks_Tag = imageRef registry prefix (fn_Name f) ''latest'',
      ks_AdditionalTags = [imageRef registry prefix (fn_Name f) (FormatInt (fn_Generation f))],
      ks_SuccessHistory = 3, ks_FailedHistory = 3,
      ks_Env = convert_env (b_Env builder),
      ks_CacheSize = (case b_Cache builder of Some sz \<Rightarrow> sz | None \<Rightarrow> ''10Gi''),
      ks_Tolerations = b_Tolerations builder, ks_NodeSelector = b_NodeSelector builder, ks_Resources = b_Resources builder,
      ks_Labels = [(''app'', ''builder''), (''function'', fn_Name f), (''kdex.dev/host'', fs_HostRef (fn_Spec f))]\<rparr>"

text \<open>The first toleration that does not convert fails the write, as does the resources block.\<close>

fun convert_tolerations :: "kube_lib \<Rightarrow> nat \<Rightarrow> Toleration list \<Rightarrow> string option" where
  "convert_tolerations L i [] = None"
| "convert_tolerations L i (t # ts) =
     (case kl_ConvertToleration L t of
        Some e \<Rightarrow> Some (''convert builder.tolerations['' @ format_nat i @ '']: '' @ e)
      | None \<Rightarrow> convert_tolerations L (Suc i) ts)"

definition convert_failure :: "kube_lib \<Rightarrow> Builder \<Rightarrow> string option" where
  "convert_failure L builder =
     (case convert_tolerations L 0 (b_Tolerations builder) of
        Some e \<Rightarrow> Some e
      | None \<Rightarrow>
          (case b_Resources builder of
             None \<Rightarrow> None
           | Some r \<Rightarrow> map_option (\<lambda>e. ''convert builder.resources: '' @ e) (kl_ConvertResources L r)))"

definition GetOrCreateKPackImage ::
  "kube_lib \<Rightarrow> cluster \<Rightarrow> string \<Rightarrow> string \<Rightarrow> string \<Rightarrow> Source \<Rightarrow> Builder \<Rightarrow> KDexFunctionCR \<Rightarrow> (string + KImage) \<times> action list" where
  "GetOrCreateKPackImage L C registry prefix serviceAccount source builder f =
     (case convert_failure L builder of
        Some e \<Rightarrow> (Inl (''failed to create image builder: '' @ e), [])
      | None \<Rightarrow>
          (let ks = desired_image registry prefix serviceAccount source builder f
           in (case ca_PutImage C ks of
                 Inl e \<Rightarrow> Inl (''failed to create image builder: '' @ e)
               | Inr img \<Rightarrow> Inr img, [APutImage ks])))"

text \<open>A failure of any generation counts; readiness only when kpack observed the current one.\<close>

definition image_condition :: "string \<Rightarrow> (string \<times> string \<times> string) option list \<Rightarrow> (string \<times> string \<times> string) option" where
  "image_condition ty cs = find (\<lambda>(t, s, m). t = ty \<and> s = ''True'') (map the (filter (\<lambda>c. c \<noteq> None) cs))"

definition inspectKPackImageStatus :: "KImage \<Rightarrow> bool \<times> string option" where
  "inspectKPackImageStatus img =
     (case ki_Status img of
        None \<Rightarrow> (False, None)
      | Some s \<Rightarrow>
          (case kst_Conditions s of
             None \<Rightarrow> (False, None)
           | Some cs \<Rightarrow>
               (case image_condition ''Failed'' cs of
                  Some (_, _, m) \<Rightarrow> (False, Some (if m = [] then ''kpack reports Failed=True'' else m))
                | None \<Rightarrow>
                    (case kst_ObservedGeneration s of
                       None \<Rightarrow> (False, None)
                     | Some g \<Rightarrow> if g < ki_Generation img then (False, None) else (image_condition ''Ready'' cs \<noteq> None, None)))))"

section \<open>Code generation\<close>

definition env_value :: "string \<Rightarrow> string \<Rightarrow> EnvVar" where
  "env_value n v = \<lparr>ev_Name = n, ev_Value = v, ev_ValueFrom = None\<rparr>"

definition env_secret :: "string \<Rightarrow> string \<Rightarrow> string \<Rightarrow> EnvVar" where
  "env_secret n secret key = \<lparr>ev_Name = n, ev_Value = [], ev_ValueFrom = Some (SecretKeyRef secret key)\<rparr>"

abbreviation ANNOTATION_GENERATION :: string where "ANNOTATION_GENERATION \<equiv> ''kdex.dev/generation''"
abbreviation WORKDIR :: string where "WORKDIR \<equiv> ''/shared''"
abbreviation SHARED_VOLUME :: string where "SHARED_VOLUME \<equiv> ''shared-volume''"

definition no_status :: KDexFunctionStatus where
  "no_status = \<lparr>st_State = NoState, st_ObservedGeneration = 0, st_Attributes = [], st_Conditions = [], st_URL = [],
     st_Detail = [], st_OpenAPISchemaURL = [], st_Executable = None, st_Generator = None, st_Source = None\<rparr>"

definition or_else :: "'a option \<Rightarrow> 'a option \<Rightarrow> 'a option" where
  "or_else x y = (case x of Some _ \<Rightarrow> x | None \<Rightarrow> y)"

text \<open>The specification the generator sees: what the status resolved stands in for what the origin leaves open; the status,
  the identity and the generation are blanked.\<close>

definition marshalled_function :: "KDexFunctionCR \<Rightarrow> KDexFunctionCR" where
  "marshalled_function f =
     (let o' = fs_Origin (fn_Spec f); s = fn_Status f
      in f\<lparr>fn_UID := ''0'', fn_Generation := 0, fn_Status := no_status,
           fn_Spec := (fn_Spec f)\<lparr>fs_Origin :=
             \<lparr>o_Executable = or_else (o_Executable o') (st_Executable s), o_Source = or_else (o_Source o') (st_Source s),
              o_Generator = or_else (o_Generator o') (st_Generator s)\<rparr>\<rparr>\<rparr>)"

definition generate_env :: "Generator \<Rightarrow> string \<Rightarrow> KDexFunctionCR \<Rightarrow> string \<Rightarrow> string \<Rightarrow> EnvVar list" where
  "generate_env g gitSecret f functionSpec apiSpec =
     [env_value ''FUNCTION_HOST'' (fs_HostRef (fn_Spec f)),
      env_value ''FUNCTION_GENERATION'' (FormatInt (fn_Generation f)),
      env_value ''FUNCTION_NAME'' (fn_Name f),
      env_value ''FUNCTION_ENTRYPOINT'' (g_Entrypoint g),
      env_value ''FUNCTION_NAMESPACE'' (fn_Namespace f),
      env_value ''FUNCTION_BASEPATH'' (api_BasePath (fs_API (fn_Spec f))),
      env_value ''FUNCTION_SPEC'' functionSpec,
      env_value ''FUNCTION_API_SPEC'' apiSpec,
      env_value ''COMMITTER_EMAIL'' (g_CommitterEmail g),
      env_value ''COMMITTER_NAME'' (g_CommitterName g),
      env_value ''COMMIT_SUB_DIRECTORY'' (g_FunctionSubDirectory g),
      env_secret ''GIT_HOST'' gitSecret ''host'',
      env_secret ''GIT_ORG'' gitSecret ''org'',
      env_secret ''GIT_PASSWORD'' gitSecret ''password'',
      env_secret ''GIT_REPO'' gitSecret ''repo'',
      env_secret ''GIT_USERNAME'' gitSecret ''username'',
      env_value ''WORKDIR'' WORKDIR] @
     (case o_Source (fs_Origin (fn_Spec f)) of
        Some s \<Rightarrow> if src_Path s \<noteq> [] then [env_value ''SOURCE_PATH'' (src_Path s)] else []
      | None \<Rightarrow> [])"

definition generate_job_name :: "KDexFunctionCR \<Rightarrow> string" where
  "generate_job_name f = fn_Name f @ ''-codegen-'' @ FormatInt (fn_Generation f)"

definition step_container :: "string \<Rightarrow> string list \<Rightarrow> string list \<Rightarrow> EnvVar list \<Rightarrow> string \<Rightarrow> ResourceRequirements option \<Rightarrow> Container" where
  "step_container name args command env img resources =
     \<lparr>co_Name = name, co_Args = args, co_Command = command, co_Env = env, co_Image = img,
      co_SecurityContext = PSSRestrictedContainerSecurityContext, co_Resources = resources, co_Mounts = [(SHARED_VOLUME, WORKDIR)]\<rparr>"

definition generate_job :: "Generator \<Rightarrow> ResourceRequirements \<Rightarrow> string list \<Rightarrow> KDexFunctionCR \<Rightarrow> EnvVar list \<Rightarrow> Job" where
  "generate_job g resources pullSecrets f env =
     \<lparr>j_Name = generate_job_name f, j_Namespace = fn_Namespace f,
      j_Labels = [(''app'', ''codegen''), (''function'', fn_Name f), (ANNOTATION_GENERATION, FormatInt (fn_Generation f))],
      j_Annotations = [(ANNOTATION_GENERATION, FormatInt (fn_Generation f))],
      j_Controller = Some (fn_UID f), j_Succeeded = 0, j_Failed = 0, j_Conditions = [],
      j_Spec = \<lparr>js_ActiveDeadlineSeconds = Some (30 * 60), js_BackoffLimit = Some 3, js_Completions = 1, js_Parallelism = Some 1,
        js_TTLSecondsAfterFinished = None, js_Annotations = [(ANNOTATION_GENERATION, FormatInt (fn_Generation f))],
        js_Pod = \<lparr>po_Automount = False, po_SecurityContext = PSSRestrictedPodSecurityContext,
          po_Containers = [step_container ''results'' [] [''patch_source_status''] env (g_GitImage g) None],
          po_InitContainers =
            [step_container ''git-checkout'' [] [''git_checkout''] env (g_GitImage g) None,
             step_container ''generate-code'' (g_Args g) (g_Command g) env (g_Image g) (Some resources),
             step_container ''git-push'' [] [''git_push''] env (g_GitImage g) None],
          po_ImagePullSecrets = pullSecrets, po_NodeSelector = [], po_RestartPolicy = ''Never'',
          po_ServiceAccountName = [], po_Tolerations = [], po_Volumes = [SHARED_VOLUME]\<rparr>\<rparr>\<rparr>"

text \<open>An existing job of the name is returned as it is.\<close>

definition GetOrCreateGenerateJob ::
  "kube_lib \<Rightarrow> cluster \<Rightarrow> Generator \<Rightarrow> ResourceRequirements \<Rightarrow> string \<Rightarrow> string list \<Rightarrow> string \<Rightarrow> KDexFunctionCR \<Rightarrow>
   (string + Job) \<times> action list" where
  "GetOrCreateGenerateJob L C g resources gitSecret pullSecrets serverUrl f =
     (case ca_GetJob C (fn_Namespace f) (generate_job_name f) of
        Inr job \<Rightarrow> (Inr job, [])
      | Inl (NotFound _) \<Rightarrow>
          (case kl_OpenAPI L serverUrl f of
             Inl e \<Rightarrow> (Inl e, [])
           | Inr apiSpec \<Rightarrow>
               (case kl_MarshalFunction L (marshalled_function f) of
                  Inl e \<Rightarrow> (Inl (''failed to marshal function spec for codegen Job: failed to marshal function spec: '' @ e), [])
                | Inr functionSpec \<Rightarrow>
                    (let job = generate_job g resources pullSecrets f (generate_env g gitSecret f functionSpec apiSpec)
                     in (case ca_CreateJob C job of
                           Some e \<Rightarrow> Inl (''failed to create code generation job: '' @ e)
                         | None \<Rightarrow> Inr job, [ACreateJob job]))))
      | Inl e \<Rightarrow> (Inl (kerr_msg e), []))"

section \<open>Deployment\<close>

text \<open>A setting of the function replaces the adaptor's default.\<close>

definition resolveTolerations :: "KDexFunctionCR \<Rightarrow> KDexFaaSAdaptorSpec \<Rightarrow> Toleration list" where
  "resolveTolerations f faas = (if fs_Tolerations (fn_Spec f) \<noteq> [] then fs_Tolerations (fn_Spec f) else dp_Tolerations (fa_Deployer faas))"

definition resolveNodeSelector :: "KDexFunctionCR \<Rightarrow> KDexFaaSAdaptorSpec \<Rightarrow> string gomap" where
  "resolveNodeSelector f faas = (if fs_NodeSelector (fn_Spec f) \<noteq> [] then fs_NodeSelector (fn_Spec f) else dp_NodeSelector (fa_Deployer faas))"

text \<open>A variable for a value that is present, marshalled; none for an absent one.\<close>

definition marshal_var :: "('a list \<Rightarrow> string + string) \<Rightarrow> string \<Rightarrow> string \<Rightarrow> 'a list \<Rightarrow> string + EnvVar list" where
  "marshal_var m name what xs =
     (if xs = [] then Inr []
      else case m xs of Inl e \<Rightarrow> Inl (''marshal function '' @ what @ '': '' @ e) | Inr v \<Rightarrow> Inr [env_value name v])"

definition functionFileAndExposureEnv :: "kube_lib \<Rightarrow> KDexFunctionCR \<Rightarrow> string + EnvVar list" where
  "functionFileAndExposureEnv L f =
     bindE (marshal_var (kl_MarshalVolumes L) ''FUNCTION_VOLUMES'' ''volumes'' (fs_Volumes (fn_Spec f))) (\<lambda>a.
     bindE (marshal_var (kl_MarshalVolumes L) ''FUNCTION_VOLUME_MOUNTS'' ''volumeMounts'' (fs_VolumeMounts (fn_Spec f))) (\<lambda>b.
       Inr (a @ b @ (if fs_Internal (fn_Spec f) then [env_value ''FUNCTION_INTERNAL'' ''true''] else []))))"

definition JobName :: "kube_lib \<Rightarrow> KDexFunctionCR \<Rightarrow> string" where
  "JobName L f =
     (let img = (case st_Executable (fn_Status f) of Some e \<Rightarrow> ex_Image e | None \<Rightarrow> []);
          adaptor = at_key (st_Attributes (fn_Status f)) ''faasAdaptor.generation''
      in fn_Name f @ ''-deployer-'' @ FormatInt (fn_Generation f) @ ''-'' @ take 8 (kl_Sha256Hex L (img @ adaptor)))"

record Deployer =
  dy_FaaSAdaptor :: KDexFaaSAdaptorSpec
  dy_Host :: KDexInternalHost
  dy_ImagePullSecrets :: "string list"
  dy_ServiceAccount :: string
  dy_TokenPrefix :: string

text \<open>The in-cluster address of the host, from which a function fetches its keys.\<close>

definition internal_url :: "Deployer \<Rightarrow> string" where
  "internal_url d = ''http://'' @ ih_Name (dy_Host d) @ ''.'' @ ih_Namespace (dy_Host d) @ ''.svc.cluster.local:8090''"

definition common_env :: "Deployer \<Rightarrow> string \<Rightarrow> KDexFunctionCR \<Rightarrow> string \<Rightarrow> EnvVar list" where
  "common_env d domain f img =
     [env_value ''AUDIENCE'' (''http://'' @ fn_Name f @ ''.'' @ fn_Namespace f @ ''.svc.cluster.local''),
      env_value ''FUNCTION_BASEPATH'' (api_BasePath (fs_API (fn_Spec f))),
      env_value ''FUNCTION_GENERATION'' (FormatInt (fn_Generation f)),
      env_value ''FUNCTION_HOST'' (fs_HostRef (fn_Spec f)),
      env_value ''FUNCTION_IMAGE'' img,
      env_value ''FUNCTION_NAME'' (fn_Name f),
      env_value ''FUNCTION_NAMESPACE'' (fn_Namespace f),
      env_value ''ISSUER'' (ih_Scheme (dy_Host d) @ ''://'' @ domain),
      env_value ''JWKS_URL'' (internal_url d @ ''/.well-known/jwks.json''),
      env_value ''PASETO_TOKEN_PREFIX'' (dy_TokenPrefix d),
      env_value ''PKS_URL'' (internal_url d @ ''/.well-known/pks.json'')] @
     (if fs_ServiceAccountName (fn_Spec f) \<noteq> []
      then [env_value ''FUNCTION_SERVICE_ACCOUNT_NAME'' (fs_ServiceAccountName (fn_Spec f))] else [])"

definition int_var :: "string \<Rightarrow> int option \<Rightarrow> EnvVar list" where
  "int_var name v = (case v of Some n \<Rightarrow> [env_value name (FormatInt n)] | None \<Rightarrow> [])"

definition duration_var :: "kube_lib \<Rightarrow> string \<Rightarrow> duration option \<Rightarrow> EnvVar list" where
  "duration_var L name v = (case v of Some d \<Rightarrow> [env_value name (kl_DurationString L d)] | None \<Rightarrow> [])"

definition scaling_env :: "kube_lib \<Rightarrow> ScalingConfig option \<Rightarrow> EnvVar list" where
  "scaling_env L scaling =
     (case scaling of
        None \<Rightarrow> []
      | Some s \<Rightarrow>
          int_var ''SCALING_ACTIVATION_SCALE'' (sc_ActivationScale s) @
          int_var ''SCALING_INITIAL_SCALE'' (sc_InitialScale s) @
          int_var ''SCALING_MAX_SCALE'' (sc_MaxScale s) @
          (case sc_Metric s of Some m \<Rightarrow> [env_value ''SCALING_METRIC'' m] | None \<Rightarrow> []) @
          int_var ''SCALING_MIN_SCALE'' (sc_MinScale s) @
          int_var ''SCALING_PANIC_THRESHOLD_PERCENTAGE'' (sc_PanicThresholdPercentage s) @
          int_var ''SCALING_PANIC_WINDOW_PERCENTAGE'' (sc_PanicWindowPercentage s) @
          duration_var L ''SCALING_SCALE_DOWN_DELAY'' (sc_ScaleDownDelay s) @
          duration_var L ''SCALING_SCALE_TO_ZERO_POD_RETENTION_PERIOD'' (sc_ScaleToZeroPodRetentionPeriod s) @
          duration_var L ''SCALING_STABLE_WINDOW'' (sc_StableWindow s) @
          int_var ''SCALING_TARGET'' (sc_Target s) @
          int_var ''SCALING_TARGET_UTILIZATION_PERCENTAGE'' (sc_TargetUtilizationPercentage s))"

text \<open>The environment of the deployer: what is listed in \<open>FORWARDED_ENV_VARS\<close> is what comes before it.\<close>

definition deploy_env :: "kube_lib \<Rightarrow> Deployer \<Rightarrow> string \<Rightarrow> KDexFunctionCR \<Rightarrow> string \<Rightarrow> string + EnvVar list" where
  "deploy_env L d domain f img =
     bindE (marshal_var (kl_MarshalTolerations L) ''FUNCTION_TOLERATIONS'' ''tolerations'' (resolveTolerations f (dy_FaaSAdaptor d))) (\<lambda>tols.
     bindE (marshal_var (kl_MarshalSelector L) ''FUNCTION_NODE_SELECTOR'' ''nodeSelector'' (resolveNodeSelector f (dy_FaaSAdaptor d))) (\<lambda>ns.
     bindE (functionFileAndExposureEnv L f) (\<lambda>files.
     bindE (marshal_var (kl_MarshalEnv L) ''FUNCTION_USER_ENV'' ''user env'' (fs_Env (fn_Spec f))) (\<lambda>user.
       let env = common_env d domain f img @ tols @ ns
       in Inr (env @ [env_value ''FORWARDED_ENV_VARS'' (Join (map ev_Name env) '','')] @ files @ user @
               dp_Env (fa_Deployer (dy_FaaSAdaptor d)) @ scaling_env L (fs_Scaling (fn_Spec f)))))))"

definition deploy_job :: "kube_lib \<Rightarrow> Deployer \<Rightarrow> KDexFunctionCR \<Rightarrow> EnvVar list \<Rightarrow> Job" where
  "deploy_job L d f env =
     (let dp = fa_Deployer (dy_FaaSAdaptor d)
      in \<lparr>j_Name = JobName L f, j_Namespace = fn_Namespace f,
          j_Labels = [(''app'', ''deployer''), (''function'', fn_Name f), (ANNOTATION_GENERATION, FormatInt (fn_Generation f))],
          j_Annotations = [(ANNOTATION_GENERATION, FormatInt (fn_Generation f))],
          j_Controller = Some (fn_UID f), j_Succeeded = 0, j_Failed = 0, j_Conditions = [],
          j_Spec = \<lparr>js_ActiveDeadlineSeconds = Some (30 * 60), js_BackoffLimit = Some 3, js_Completions = 1, js_Parallelism = Some 1,
            js_TTLSecondsAfterFinished = None, js_Annotations = [(ANNOTATION_GENERATION, FormatInt (fn_Generation f))],
            js_Pod = \<lparr>po_Automount = True, po_SecurityContext = PSSRestrictedPodSecurityContext,
              po_Containers = [\<lparr>co_Name = ''deployer'', co_Args = dp_Args dp, co_Command = dp_Command dp, co_Env = env,
                co_Image = dp_Image dp, co_SecurityContext = PSSRestrictedContainerSecurityContext, co_Resources = None, co_Mounts = []\<rparr>],
              po_InitContainers = [], po_ImagePullSecrets = dy_ImagePullSecrets d, po_NodeSelector = dp_JobNodeSelector dp,
              po_RestartPolicy = ''Never'', po_ServiceAccountName = dy_ServiceAccount d, po_Tolerations = dp_JobTolerations dp,
              po_Volumes = []\<rparr>\<rparr>\<rparr>)"

text \<open>\<open>Deploy\<close>; \<open>None\<close> is the panic of an index into the empty list of domains.\<close>

definition Deploy :: "kube_lib \<Rightarrow> cluster \<Rightarrow> Deployer \<Rightarrow> KDexFunctionCR \<Rightarrow> ((string + Job) \<times> action list) option" where
  "Deploy L C d f =
     (case st_Executable (fn_Status f) of
        None \<Rightarrow> Some (Inl (''function '' @ fn_Namespace f @ ''/'' @ fn_Name f @ '' has no executable''), [])
      | Some ex \<Rightarrow>
          (case ca_GetJob C (fn_Namespace f) (JobName L f) of
             Inr job \<Rightarrow> Some (Inr job, [])
           | Inl (NotFound _) \<Rightarrow>
               (case ih_Domains (dy_Host d) of
                  [] \<Rightarrow> None
                | domain # _ \<Rightarrow>
                    (case deploy_env L d domain f (ex_Image ex) of
                       Inl e \<Rightarrow> Some (Inl e, [])
                     | Inr env \<Rightarrow>
                         (let job = deploy_job L d f env
                          in Some (case ca_CreateJob C job of
                                     Some e \<Rightarrow> Inl (''failed to create deployment job: '' @ e)
                                   | None \<Rightarrow> Inr job, [ACreateJob job]))))
           | Inl e \<Rightarrow> Some (Inl (kerr_msg e), [])))"

section \<open>The observer of a host\<close>

abbreviation ObservedByLabel :: string where "ObservedByLabel \<equiv> ''kdex.dev/observed-by''"

definition HostObserverName :: "string \<Rightarrow> string" where
  "HostObserverName host = host @ ''-observer''"

definition observerEnv :: "kube_lib \<Rightarrow> Deployer \<Rightarrow> ObserverSpec \<Rightarrow> EnvVar list" where
  "observerEnv L d ob =
     [env_value ''FUNCTION_HOST'' (ih_Name (dy_Host d)), env_value ''FUNCTION_NAMESPACE'' (ih_Namespace (dy_Host d))] @
     int_var ''MAX_BUILD_RETRIES'' (ob_MaxBuildRetries ob) @ duration_var L ''RETRY_COOLDOWN'' (ob_RetryCooldown ob) @ ob_Env ob"

definition observerCronJobSpec :: "kube_lib \<Rightarrow> Deployer \<Rightarrow> ObserverSpec \<Rightarrow> CronJobSpec" where
  "observerCronJobSpec L d ob =
     \<lparr>cj_ConcurrencyPolicy = ''Forbid'',
      cj_Job = \<lparr>js_ActiveDeadlineSeconds = None, js_BackoffLimit = None, js_Completions = 1, js_Parallelism = None,
        js_TTLSecondsAfterFinished = Some 0, js_Annotations = [],
        js_Pod = \<lparr>po_Automount = True, po_SecurityContext = PSSRestrictedPodSecurityContext,
          po_Containers = [\<lparr>co_Name = ''observer'', co_Args = ob_Args ob, co_Command = ob_Command ob, co_Env = observerEnv L d ob,
            co_Image = ob_Image ob, co_SecurityContext = PSSRestrictedContainerSecurityContext, co_Resources = None, co_Mounts = []\<rparr>],
          po_InitContainers = [], po_ImagePullSecrets = dy_ImagePullSecrets d, po_NodeSelector = ob_NodeSelector ob,
          po_RestartPolicy = ''OnFailure'', po_ServiceAccountName = dy_ServiceAccount d, po_Tolerations = ob_Tolerations ob,
          po_Volumes = []\<rparr>\<rparr>,
      cj_Schedule = ob_Schedule ob, cj_SuccessfulJobsHistoryLimit = 1\<rparr>"

definition labelsMatch :: "string gomap \<Rightarrow> string gomap \<Rightarrow> bool" where
  "labelsMatch have desired \<longleftrightarrow>
     list_all (\<lambda>(k, v). at_key have k = v) desired"

text \<open>The label is patched on the object; the answer of the server is decoded into the function.\<close>

definition markObserved :: "cluster \<Rightarrow> Deployer \<Rightarrow> KDexFunctionCR \<Rightarrow> (string + KDexFunctionCR) \<times> action list" where
  "markObserved C d f =
     (if at_key (fn_Labels f) ObservedByLabel = ih_Name (dy_Host d) then (Inr f, [])
      else let f1 = f\<lparr>fn_Labels := AList.update ObservedByLabel (ih_Name (dy_Host d)) (fn_Labels f)\<rparr>
           in (case ca_Patch C f1 of Inl e \<Rightarrow> Inl (''failed to label function for observation: '' @ e) | Inr f2 \<Rightarrow> Inr f2,
               [APatchLabels f1]))"

definition reconcileHostObserver :: "kube_lib \<Rightarrow> cluster \<Rightarrow> Deployer \<Rightarrow> ObserverSpec \<Rightarrow> string option \<times> action list" where
  "reconcileHostObserver L C d ob =
     (let name = HostObserverName (ih_Name (dy_Host d)); ns = ih_Namespace (dy_Host d);
          desiredSpec = observerCronJobSpec L d ob; desiredLabels = [(''app'', ''observer''), (''host'', ih_Name (dy_Host d))]
      in case ca_GetCronJob C ns name of
           Inr cj \<Rightarrow>
             if cr_Spec cj = desiredSpec \<and> labelsMatch (cr_Labels cj) desiredLabels then (None, [])
             else (let cj' = cj\<lparr>cr_Spec := desiredSpec, cr_Labels := maps_Copy (cr_Labels cj) desiredLabels\<rparr>
                   in (map_option (\<lambda>e. ''failed to update observation cronjob: '' @ e) (ca_UpdateCronJob C cj'), [AUpdateCronJob cj']))
         | Inl (NotFound _) \<Rightarrow>
             (let cj = \<lparr>cr_Name = name, cr_Namespace = ns, cr_Labels = desiredLabels, cr_Spec = desiredSpec\<rparr>
              in (case ca_CreateCronJob C cj of
                    None \<Rightarrow> None
                  | Some (AlreadyExists _) \<Rightarrow> None
                  | Some e \<Rightarrow> Some (''failed to create observation cronjob: '' @ kerr_msg e), [ACreateCronJob cj]))
         | Inl e \<Rightarrow> (Some (kerr_msg e), []))"

definition retireLegacyObserver :: "cluster \<Rightarrow> Deployer \<Rightarrow> KDexFunctionCR \<Rightarrow> string option \<times> action list" where
  "retireLegacyObserver C d f =
     (let legacy = fn_Name f @ ''-observer''
      in if legacy = HostObserverName (ih_Name (dy_Host d)) then (None, [])
         else (case ca_DeleteCronJob C (fn_Namespace f) legacy of
                 None \<Rightarrow> None
               | Some (NotFound _) \<Rightarrow> None
               | Some e \<Rightarrow> Some (''failed to retire legacy observer cronjob: '' @ kerr_msg e),
               [ADeleteCronJob (fn_Namespace f) legacy]))"

definition Observe :: "kube_lib \<Rightarrow> cluster \<Rightarrow> Deployer \<Rightarrow> KDexFunctionCR \<Rightarrow> string option \<times> KDexFunctionCR \<times> action list" where
  "Observe L C d f =
     (case fa_Observer (dy_FaaSAdaptor d) of
        None \<Rightarrow> (None, f, [])
      | Some ob \<Rightarrow>
          (case markObserved C d f of
             (Inl e, as) \<Rightarrow> (Some e, f\<lparr>fn_Labels := AList.update ObservedByLabel (ih_Name (dy_Host d)) (fn_Labels f)\<rparr>, as)
           | (Inr f1, as) \<Rightarrow>
               (case reconcileHostObserver L C d ob of
                  (Some e, bs) \<Rightarrow> (Some e, f1, as @ bs)
                | (None, bs) \<Rightarrow> (case retireLegacyObserver C d f1 of (e, cs) \<Rightarrow> (e, f1, as @ bs @ cs)))))"

end
