(* ===== verification/FunctionController.thy ===== *)
theory FunctionController
  imports FunctionBuild
begin

text \<open>
  The reconciler of functions (\<open>src/internal/controller/kdexfunction_controller.go\<close>, with the resolvers of
  \<open>resolver_common.go\<close>, \<open>reference_namespaces.go\<close> and \<open>src/internal/job/\<close>): a pass over a function object is a function
  from the object and the answers of the API server to the outcome, the object as the pass leaves it in memory and the
  changes it asked for. Panics are outcomes: the deferred status write runs before them.

  The states Pending, OpenAPIValid, BuildValid, SourceAvailable, ExecutableAvailable, FunctionDeployed and Ready form the
  state machine of a function; \<open>FunctionLifecycle\<close> shows what holds along it.

  The watches that enqueue a function and logging are not modelled.
\<close>

section \<open>Resolving what a function refers to\<close>

record KDexFunctionReconciler =
  rc_ControllerNamespace :: string
  rc_FocalHost :: string
  rc_FunctionImagePrefix :: "string option"
  rc_RequeueDelay :: duration
  rc_TokenPrefix :: string
  rc_CodegenResources :: ResourceRequirements
  rc_ReferenceNamespaces :: "string list"
  rc_ServiceAccount :: string

datatype reconcile_outcome = Returned (requeue_after: duration) (returned_error: "string option") | Panicked

type_synonym handled = "reconcile_outcome \<times> KDexFunctionCR \<times> action list"

abbreviation degraded :: ConditionStatuses where
  "degraded \<equiv> \<lparr>cs_Degraded = CTrue, cs_Progressing = CFalse, cs_Ready = CFalse\<rparr>"
abbreviation progressing :: ConditionStatuses where
  "progressing \<equiv> \<lparr>cs_Degraded = CFalse, cs_Progressing = CTrue, cs_Ready = CFalse\<rparr>"
abbreviation reconciling :: ConditionStatuses where
  "reconciling \<equiv> \<lparr>cs_Degraded = CFalse, cs_Progressing = CTrue, cs_Ready = CUnknown\<rparr>"
abbreviation all_ready :: ConditionStatuses where
  "all_ready \<equiv> \<lparr>cs_Degraded = CFalse, cs_Progressing = CFalse, cs_Ready = CTrue\<rparr>"

text \<open>The reasons of a condition, named after the constants of the CRD package.\<close>

abbreviation ReconcileError :: string where "ReconcileError \<equiv> ''ReconcileError''"
abbreviation Reconciling :: string where "Reconciling \<equiv> ''Reconciling''"
abbreviation ReconcileSuccess :: string where "ReconcileSuccess \<equiv> ''ReconcileSuccess''"

definition on_status :: "(KDexFunctionStatus \<Rightarrow> KDexFunctionStatus) \<Rightarrow> KDexFunctionCR \<Rightarrow> KDexFunctionCR" where
  "on_status g f = f\<lparr>fn_Status := g (fn_Status f)\<rparr>"

definition set_conditions :: "kube_lib \<Rightarrow> cluster \<Rightarrow> ConditionStatuses \<Rightarrow> string \<Rightarrow> string \<Rightarrow> KDexFunctionCR \<Rightarrow> KDexFunctionCR" where
  "set_conditions L C statuses reason msg =
     on_status (\<lambda>s. s\<lparr>st_Conditions := kl_SetConditions L (ca_now C) (st_Conditions s) statuses reason msg\<rparr>)"

definition degrade :: "kube_lib \<Rightarrow> cluster \<Rightarrow> string \<Rightarrow> KDexFunctionCR \<Rightarrow> KDexFunctionCR" where
  "degrade L C msg f = set_conditions L C degraded ReconcileError msg f"

definition set_attribute :: "string \<Rightarrow> string \<Rightarrow> KDexFunctionCR \<Rightarrow> KDexFunctionCR" where
  "set_attribute k v = on_status (\<lambda>s. s\<lparr>st_Attributes := AList.update k v (st_Attributes s)\<rparr>)"

definition attribute :: "KDexFunctionCR \<Rightarrow> string \<Rightarrow> string" where
  "attribute f k = at_key (st_Attributes (fn_Status f)) k"

definition origin :: "KDexFunctionCR \<Rightarrow> FunctionOrigin" where
  "origin f = fs_Origin (fn_Spec f)"

text \<open>A namespace other than the referrer's must be one the host lists.\<close>

definition checkReferenceNamespace :: "kube_lib \<Rightarrow> string list \<Rightarrow> string \<Rightarrow> string \<Rightarrow> string option" where
  "checkReferenceNamespace L listed referrer ns =
     (if ns = [] \<or> ns = referrer \<or> ns \<in> set listed then None
      else Some (''namespace '' @ kl_Quote L ns @ '' is not referenceable: add it to the KDexHost'' @ [CHR 0x27] @ ''s spec.referenceNamespaces''))"

text \<open>A resolver returns the object, or what the pass returns with the function as the resolver left it.\<close>

definition ResolveHost :: "kube_lib \<Rightarrow> cluster \<Rightarrow> duration \<Rightarrow> KDexFunctionCR \<Rightarrow> (reconcile_outcome \<times> KDexFunctionCR) + KDexInternalHost" where
  "ResolveHost L C delay f =
     (case ca_GetHost C (fn_Namespace f) (fs_HostRef (fn_Spec f)) of
        Inr h \<Rightarrow> Inr h
      | Inl (NotFound m) \<Rightarrow> Inl (Returned delay None, degrade L C m f)
      | Inl e \<Rightarrow> Inl (Returned 0 (Some (kerr_msg e)), f))"

definition clustered :: "string \<Rightarrow> bool" where
  "clustered kind \<longleftrightarrow> Contains kind ''Cluster''"

text \<open>A function is not cluster scoped. The conditions an unready adaptor gets are set on a copy and are not kept.\<close>

definition ResolveKDexObjectReference ::
  "kube_lib \<Rightarrow> cluster \<Rightarrow> KDexFunctionReconciler \<Rightarrow> KDexFunctionCR \<Rightarrow> KDexObjectReference \<Rightarrow>
   (reconcile_outcome \<times> KDexFunctionCR) + FaaSAdaptor" where
  "ResolveKDexObjectReference L C r f ref =
     (if \<not> ca_KnownKind C (or_Kind ref) then Inl (Returned 0 (Some (''unknown kind '' @ or_Kind ref)), f)
      else let ns = (if clustered (or_Kind ref) then [] else if or_Namespace ref \<noteq> [] then or_Namespace ref else fn_Namespace f)
           in case checkReferenceNamespace L (rc_ReferenceNamespaces r) (fn_Namespace f) ns of
                Some e \<Rightarrow> Inl (Returned 0 (Some e), degrade L C e f)
              | None \<Rightarrow>
                  (case ca_GetAdaptor C (or_Kind ref) ns (or_Name ref) of
                     Inl e \<Rightarrow> Inl (Returned 0 (Some (kerr_msg e)), degrade L C (kerr_msg e) f)
                   | Inr a \<Rightarrow>
                       if kl_IsStatusConditionTrue L (ad_Conditions a) ''Ready'' then Inr a
                       else Inl (Returned (rc_RequeueDelay r) None, f)))"

text \<open>The default is the oldest of the marked adaptors; the sort is stable.\<close>

definition oldest_adaptor :: "FaaSAdaptor list \<Rightarrow> FaaSAdaptor option" where
  "oldest_adaptor as = (case sort_key ad_Created as of [] \<Rightarrow> None | a # _ \<Rightarrow> Some a)"

definition ResolveOrDefaultFaaSAdaptor ::
  "kube_lib \<Rightarrow> cluster \<Rightarrow> KDexFunctionReconciler \<Rightarrow> KDexInternalHost \<Rightarrow> KDexFunctionCR \<Rightarrow>
   (reconcile_outcome \<times> KDexFunctionCR) + FaaSAdaptor option" where
  "ResolveOrDefaultFaaSAdaptor L C r h f =
     (case ih_FaaSAdaptorRef h of
        Some ref \<Rightarrow> (case ResolveKDexObjectReference L C r f ref of Inl x \<Rightarrow> Inl x | Inr a \<Rightarrow> Inr (Some a))
      | None \<Rightarrow>
          (case ca_DefaultAdaptors C of
             Inl e \<Rightarrow> Inl (Returned 0 (Some (kerr_msg e)), degrade L C (kerr_msg e) f)
           | Inr as \<Rightarrow> Inr (oldest_adaptor as)))"

text \<open>The secrets of the host, by name; each leaves its generation in the attributes.\<close>

definition ResolveSecrets :: "cluster \<Rightarrow> KDexInternalHost \<Rightarrow> KDexFunctionCR \<Rightarrow> string + KSecret list \<times> KDexFunctionCR" where
  "ResolveSecrets C h f =
     (case ih_SecretSelector h of
        None \<Rightarrow> Inr ([], f)
      | Some sel \<Rightarrow>
          (case ca_ListSecrets C (ih_Namespace h) sel of
             Inl e \<Rightarrow> Inl e
           | Inr ss \<Rightarrow>
               (let sorted = sort_key sec_Name ss
                in Inr (sorted, fold (\<lambda>s. set_attribute (sec_Name s @ ''.secret.generation'') (FormatInt (sec_Generation s))) sorted f))))"

section \<open>Jobs and their results\<close>

definition GetPodForJob :: "cluster \<Rightarrow> Job \<Rightarrow> string + Pod" where
  "GetPodForJob C job =
     (case ca_ListPods C (j_Namespace job) (j_Name job) of
        Inl e \<Rightarrow> Inl (kerr_msg e)
      | Inr pods \<Rightarrow>
          (case find (\<lambda>p. at_key (pd_Annotations p) ANNOTATION_GENERATION = at_key (j_Annotations job) ANNOTATION_GENERATION) pods of
             Some p \<Rightarrow> Inr p
           | None \<Rightarrow> Inl (''no pods found for job '' @ j_Name job)))"

definition termination_message :: "string \<Rightarrow> Pod \<Rightarrow> string" where
  "termination_message name p =
     (case find (\<lambda>(n, t). n = name \<and> t \<noteq> None) (pd_Statuses p) of Some (_, Some m) \<Rightarrow> m | _ \<Rightarrow> [])"

definition isCodegenJobTerminal :: "Job \<Rightarrow> string option" where
  "isCodegenJobTerminal job =
     (case find (\<lambda>c. jc_Type c = ''Failed'' \<and> jc_Status c = CTrue) (j_Conditions job) of
        Some c \<Rightarrow> Some (jc_Reason c @ '': '' @ jc_Message c)
      | None \<Rightarrow> None)"

definition terminal_message :: "Job \<Rightarrow> string \<Rightarrow> string" where
  "terminal_message job msg =
     ''code generation job '' @ j_Namespace job @ ''/'' @ j_Name job @ '' exhausted retries: '' @ msg @
     '' '' @ [CHR 0xE2, CHR 0x80, CHR 0x94] @ '' inspect pods for details (Job is NOT auto-deleted)''"

definition markCodegenJobTerminallyFailed :: "kube_lib \<Rightarrow> cluster \<Rightarrow> Job \<Rightarrow> string \<Rightarrow> string \<Rightarrow> KDexFunctionCR \<Rightarrow> reconcile_outcome \<times> KDexFunctionCR" where
  "markCodegenJobTerminallyFailed L C job msg results f =
     (Returned 0 None, degrade L C (terminal_message job (if results \<noteq> [] then msg @ ''; results: '' @ results else msg)) f)"

definition decodeDeployerURL :: "kube_lib \<Rightarrow> string \<Rightarrow> string + string" where
  "decodeDeployerURL L msg =
     (case kl_ParseURL L msg of
        Inl e \<Rightarrow> Inl (''failed to parse deployer results: '' @ e)
      | Inr url \<Rightarrow> if url = [] then Inl ''deployer returned empty URL; backend not admitted yet'' else Inr url)"

definition job_finished :: "Job \<Rightarrow> bool" where
  "job_finished job \<longleftrightarrow> \<not> (j_Succeeded job = 0 \<and> j_Failed job = 0)"

text \<open>Which of the listed jobs are deleted: a finished one the function controls, of another generation or not the one
  kept. The first failing deletion, other than of a job already gone, ends the loop.\<close>

definition job_obsolete :: "KDexFunctionCR \<Rightarrow> string \<Rightarrow> Job \<Rightarrow> bool" where
  "job_obsolete f keep job \<longleftrightarrow>
     j_Controller job = Some (fn_UID f) \<and> (j_Succeeded job > 0 \<or> j_Failed job > 0) \<and>
     (at_key (j_Labels job) ANNOTATION_GENERATION \<noteq> FormatInt (fn_Generation f) \<or>
      (keep \<noteq> [] \<and> j_Name job \<noteq> keep))"

fun delete_jobs :: "cluster \<Rightarrow> Job list \<Rightarrow> string option \<times> action list" where
  "delete_jobs C [] = (None, [])"
| "delete_jobs C (job # jobs) =
     (case ca_DeleteJob C job of
        Some e \<Rightarrow>
          (case e of
             NotFound _ \<Rightarrow> (case delete_jobs C jobs of (r, as) \<Rightarrow> (r, ADeleteJob job # as))
           | _ \<Rightarrow> (Some (kerr_msg e), [ADeleteJob job]))
      | None \<Rightarrow> (case delete_jobs C jobs of (r, as) \<Rightarrow> (r, ADeleteJob job # as)))"

definition cleanupJobs :: "cluster \<Rightarrow> KDexFunctionCR \<Rightarrow> string \<Rightarrow> string \<Rightarrow> string option \<times> action list" where
  "cleanupJobs C f app keep =
     (case ca_ListJobs C (fn_Namespace f) app (fn_Name f) of
        Inl e \<Rightarrow> (Some (kerr_msg e), [])
      | Inr jobs \<Rightarrow> delete_jobs C (filter (job_obsolete f keep) jobs))"

text \<open>The tail the handlers share when a finished job cannot be read: degrade, delete it and try again.\<close>

definition discard_job :: "kube_lib \<Rightarrow> cluster \<Rightarrow> KDexFunctionReconciler \<Rightarrow> Job \<Rightarrow> string \<Rightarrow> KDexFunctionCR \<Rightarrow> handled" where
  "discard_job L C r job msg f =
     (case ca_DeleteJob C job of
        Some e \<Rightarrow> Returned 0 (Some (kerr_msg e))
      | None \<Rightarrow> Returned (rc_RequeueDelay r) None, degrade L C msg f, [ADeleteJob job])"

section \<open>Code generation inputs\<close>

definition sourceRegenerate :: "Source option \<Rightarrow> bool" where
  "sourceRegenerate s \<longleftrightarrow> (case s of Some x \<Rightarrow> src_Regenerate x = Some True | None \<Rightarrow> False)"

abbreviation AttrCodegenInputAPIHash :: string where "AttrCodegenInputAPIHash \<equiv> ''kdex.dev/codegen-input-api-hash''"
abbreviation AttrCodegenInputGenerator :: string where "AttrCodegenInputGenerator \<equiv> ''kdex.dev/codegen-input-generator''"

definition codegenInputAPIHash :: "kube_lib \<Rightarrow> FunctionAPI \<Rightarrow> string" where
  "codegenInputAPIHash L api = (case kl_MarshalAPI L api of None \<Rightarrow> [] | Some b \<Rightarrow> kl_Sha256Hex L b)"

definition generator_image :: "KDexFunctionCR \<Rightarrow> string" where
  "generator_image f = (case st_Generator (fn_Status f) of Some g \<Rightarrow> g_Image g | None \<Rightarrow> [])"

definition codegenInputsChanged :: "kube_lib \<Rightarrow> KDexFunctionCR \<Rightarrow> bool \<times> bool" where
  "codegenInputsChanged L f =
     (let observedAPIHash = attribute f AttrCodegenInputAPIHash; observedGenerator = attribute f AttrCodegenInputGenerator
      in (observedAPIHash \<noteq> [],
          codegenInputAPIHash L (fs_API (fn_Spec f)) \<noteq> observedAPIHash \<or> generator_image f \<noteq> observedGenerator))"

definition shouldSkipCodegen :: "kube_lib \<Rightarrow> KDexFunctionCR \<Rightarrow> bool" where
  "shouldSkipCodegen L f =
     (if o_Source (origin f) = None then False
      else if sourceRegenerate (o_Source (origin f)) then False
      else case codegenInputsChanged L f of (edgeMode, changed) \<Rightarrow> \<not> edgeMode \<or> \<not> changed)"

definition recordCodegenInputs :: "kube_lib \<Rightarrow> KDexFunctionCR \<Rightarrow> KDexFunctionCR" where
  "recordCodegenInputs L f =
     (let f1 = set_attribute AttrCodegenInputAPIHash (codegenInputAPIHash L (fs_API (fn_Spec f))) f
      in case st_Generator (fn_Status f) of
           Some g \<Rightarrow> set_attribute AttrCodegenInputGenerator (g_Image g) f1
         | None \<Rightarrow> f1)"

section \<open>The handlers of the states\<close>

record handlerContext =
  hc_faas :: KDexFaaSAdaptorSpec
  hc_gitSecret :: "string option"
  hc_host :: KDexInternalHost
  hc_pullSecrets :: "string list"

definition set_state :: "KDexFunctionState \<Rightarrow> KDexFunctionCR \<Rightarrow> KDexFunctionCR" where
  "set_state st = on_status (\<lambda>s. s\<lparr>st_State := st\<rparr>)"

text \<open>The end of a handler that moves on: the state, the detail and the conditions.\<close>

definition advance :: "kube_lib \<Rightarrow> cluster \<Rightarrow> KDexFunctionState \<Rightarrow> string \<Rightarrow> KDexFunctionCR \<Rightarrow> KDexFunctionCR" where
  "advance L C st detail f =
     (let d = state_string st @ '': '' @ detail
      in set_conditions L C progressing Reconciling d (on_status (\<lambda>s. s\<lparr>st_State := st, st_Detail := d\<rparr>) f))"

definition handlePending :: "kube_lib \<Rightarrow> cluster \<Rightarrow> KDexFunctionReconciler \<Rightarrow> handlerContext \<Rightarrow> KDexFunctionCR \<Rightarrow> handled" where
  "handlePending L C r hc f =
     (case ih_Domains (hc_host hc) of
        [] \<Rightarrow> (Panicked, f, [])
      | domain # _ \<Rightarrow>
          (let url = ih_Scheme (hc_host hc) @ ''://'' @ domain @ ''/-/openapi?type=function&tag='' @ fn_Name f
           in (Returned (rc_RequeueDelay r) None,
               advance L C OpenAPIValid url (on_status (\<lambda>s. s\<lparr>st_OpenAPISchemaURL := url\<rparr>) f), [])))"

text \<open>A ready image goes straight to deployment, with the executable of the status set in the same transition.\<close>

definition take_executable :: "KDexFunctionReconciler \<Rightarrow> Executable \<Rightarrow> KDexFunctionCR \<Rightarrow> handled" where
  "take_executable r ex f =
     (Returned (rc_RequeueDelay r) None, on_status (\<lambda>s. s\<lparr>st_Executable := Some ex, st_State := ExecutableAvailable\<rparr>) f, [])"

definition resolve_generator :: "kube_lib \<Rightarrow> handlerContext \<Rightarrow> KDexFunctionCR \<Rightarrow> string + Generator" where
  "resolve_generator L hc f =
     (case o_Generator (origin f) of
        Some g \<Rightarrow> Inr g
      | None \<Rightarrow>
          bindE (parseBuilderGenerator L (fa_DefaultBuilderGenerator (hc_faas hc))) (\<lambda>(_, language).
            case find (\<lambda>g. g_Language g = language) (fa_Generators (hc_faas hc)) of
              Some g \<Rightarrow> Inr g
            | None \<Rightarrow> Inl (''generator '' @ language @ '' not found for function '' @ fn_Namespace f @ ''/'' @ fn_Name f)))"

definition handleOpenAPIValid :: "kube_lib \<Rightarrow> cluster \<Rightarrow> KDexFunctionReconciler \<Rightarrow> handlerContext \<Rightarrow> KDexFunctionCR \<Rightarrow> handled" where
  "handleOpenAPIValid L C r hc f =
     (case o_Executable (origin f) of
        Some ex \<Rightarrow> take_executable r ex f
      | None \<Rightarrow>
          if o_Source (origin f) \<noteq> None \<and> \<not> sourceRegenerate (o_Source (origin f))
          then (Returned (rc_RequeueDelay r) None, set_state SourceAvailable f, [])
          else case resolve_generator L hc f of
                 Inl e \<Rightarrow> (Returned 0 (Some e), degrade L C e f, [])
               | Inr g \<Rightarrow>
                   (Returned (rc_RequeueDelay r) None,
                    advance L C BuildValid (g_Language g @ ''/'' @ g_Image g) (on_status (\<lambda>s. s\<lparr>st_Generator := Some g\<rparr>) f), []))"

text \<open>The builder of a generated source: the default one for the default language, else the last that knows the language.\<close>

definition source_builder :: "KDexFaaSAdaptorSpec \<Rightarrow> string \<Rightarrow> string \<Rightarrow> string \<Rightarrow> Builder option" where
  "source_builder faas defaultBuilderName defaultLanguage language =
     (let name = (if language = defaultLanguage then defaultBuilderName
                  else case find (\<lambda>b. language \<in> set (b_Languages b)) (rev (fa_Builders faas)) of Some b \<Rightarrow> b_Name b | None \<Rightarrow> [])
      in find (\<lambda>b. b_Name b = name) (rev (fa_Builders faas)))"

definition source_available :: "kube_lib \<Rightarrow> cluster \<Rightarrow> KDexFunctionReconciler \<Rightarrow> KDexFunctionCR \<Rightarrow> handled" where
  "source_available L C r f =
     (case st_Source (fn_Status f) of
        None \<Rightarrow> (Panicked, set_state SourceAvailable f, [])
      | Some s \<Rightarrow> (Returned (rc_RequeueDelay r) None, advance L C SourceAvailable (src_Repository s @ ''@'' @ src_Revision s) f, []))"

text \<open>The finished code generation job: its pod, its terminal failure, its results.\<close>

definition codegen_finished ::
  "kube_lib \<Rightarrow> cluster \<Rightarrow> KDexFunctionReconciler \<Rightarrow> handlerContext \<Rightarrow> Generator \<Rightarrow> Job \<Rightarrow> KDexFunctionCR \<Rightarrow> handled" where
  "codegen_finished L C r hc g job f =
     (case GetPodForJob C job of
        Inl e \<Rightarrow> discard_job L C r job e f
      | Inr pod \<Rightarrow>
          (let msg = termination_message ''results'' pod
           in case isCodegenJobTerminal job of
                Some t \<Rightarrow> (case markCodegenJobTerminallyFailed L C job t msg f of (out, f1) \<Rightarrow> (out, f1, []))
              | None \<Rightarrow>
                  (case kl_ParseResults L msg of
                     Inl e \<Rightarrow> discard_job L C r job e f
                   | Inr (repository, revision, path) \<Rightarrow>
                       (let f1 = recordCodegenInputs L (on_status (\<lambda>s. s\<lparr>st_Source :=
                                   Some \<lparr>src_Repository = repository, src_Revision = revision, src_Path = path,
                                         src_Builder = None, src_Regenerate = None\<rparr>\<rparr>) f)
                        in case parseBuilderGenerator L (fa_DefaultBuilderGenerator (hc_faas hc)) of
                             Inl e \<Rightarrow> discard_job L C r job e f1
                           | Inr (builderName, language) \<Rightarrow>
                               source_available L C r
                                 (case source_builder (hc_faas hc) builderName language (g_Language g) of
                                    None \<Rightarrow> f1
                                  | Some b \<Rightarrow> on_status (\<lambda>s. s\<lparr>st_Source := map_option (src_Builder_update (\<lambda>_. Some b)) (st_Source s)\<rparr>) f1)))))"

definition waiting :: "kube_lib \<Rightarrow> cluster \<Rightarrow> string \<Rightarrow> Job \<Rightarrow> KDexFunctionCR \<Rightarrow> KDexFunctionCR" where
  "waiting L C what job f =
     set_conditions L C progressing Reconciling (''Waiting on '' @ what @ '' job '' @ j_Namespace job @ ''/'' @ j_Name job @ '' to complete'') f"

definition after_cleanup :: "KDexFunctionReconciler \<Rightarrow> string option \<Rightarrow> reconcile_outcome" where
  "after_cleanup r e = (case e of Some m \<Rightarrow> Returned 0 (Some m) | None \<Rightarrow> Returned (rc_RequeueDelay r) None)"

definition run_codegen :: "kube_lib \<Rightarrow> cluster \<Rightarrow> KDexFunctionReconciler \<Rightarrow> handlerContext \<Rightarrow> KDexFunctionCR \<Rightarrow> handled" where
  "run_codegen L C r hc f =
     (case hc_gitSecret hc of
        None \<Rightarrow>
          (let e = ''git secret not found for host '' @ ih_Namespace (hc_host hc) @ ''/'' @ ih_Name (hc_host hc)
           in (Returned 0 (Some e), degrade L C e f, []))
      | Some gitSecret \<Rightarrow>
          (case (st_Generator (fn_Status f), ih_Domains (hc_host hc)) of
             (Some g, domain # _) \<Rightarrow>
               (case GetOrCreateGenerateJob L C g (rc_CodegenResources r) gitSecret (hc_pullSecrets hc)
                       (ih_Scheme (hc_host hc) @ ''://'' @ domain) f of
                  (Inl e, as) \<Rightarrow> (Returned 0 (Some e), degrade L C e f, as)
                | (Inr job, as) \<Rightarrow>
                    if \<not> job_finished job
                    then (case cleanupJobs C f ''codegen'' [] of
                            (e, bs) \<Rightarrow> (after_cleanup r e, waiting L C ''code generation'' job f, as @ bs))
                    else (case codegen_finished L C r hc g job f of (out, f1, bs) \<Rightarrow> (out, f1, as @ bs)))
           | _ \<Rightarrow> (Panicked, f, [])))"

definition handleBuildValid :: "kube_lib \<Rightarrow> cluster \<Rightarrow> KDexFunctionReconciler \<Rightarrow> handlerContext \<Rightarrow> KDexFunctionCR \<Rightarrow> handled" where
  "handleBuildValid L C r hc f =
     (case o_Executable (origin f) of
        Some ex \<Rightarrow> take_executable r ex f
      | None \<Rightarrow>
          if shouldSkipCodegen L f
          then source_available L C r
                 (case st_Source (fn_Status f) of
                    Some s \<Rightarrow> if src_Revision s = [] then on_status (\<lambda>s. s\<lparr>st_Source := o_Source (origin f)\<rparr>) f else f
                  | None \<Rightarrow> on_status (\<lambda>s. s\<lparr>st_Source := o_Source (origin f)\<rparr>) f)
          else run_codegen L C r hc f)"

text \<open>The source to build: the one declared, with the repository, revision and path of the status when that has a
  revision.\<close>

definition build_source :: "KDexFunctionCR \<Rightarrow> Source option" where
  "build_source f =
     (let spec = o_Source (origin f);
          empty = \<lparr>src_Repository = [], src_Revision = [], src_Path = [], src_Builder = None, src_Regenerate = None\<rparr>;
          base = (case spec of Some s \<Rightarrow> s | None \<Rightarrow> empty)
      in case st_Source (fn_Status f) of
           Some p \<Rightarrow>
             if src_Revision p \<noteq> []
             then Some (base\<lparr>src_Repository := src_Repository p, src_Revision := src_Revision p, src_Path := src_Path p\<rparr>)
             else spec
         | None \<Rightarrow> spec)"

definition isHostManagerServiceAccount :: "string gomap \<Rightarrow> bool" where
  "isHostManagerServiceAccount labels \<longleftrightarrow>
     at_key labels ''app.kubernetes.io/name'' = ''host-manager'' \<or> HasPrefix (at_key labels ''helm.sh/chart'') ''host-manager-''"

text \<open>An account that cannot be read is not refused.\<close>

definition refuseHostManagerServiceAccount :: "kube_lib \<Rightarrow> cluster \<Rightarrow> KDexFunctionReconciler \<Rightarrow> string \<Rightarrow> string \<Rightarrow> KDexFunctionCR \<Rightarrow> KDexFunctionCR option" where
  "refuseHostManagerServiceAccount L C r field sa f =
     (if sa = rc_ServiceAccount r \<or>
         (case ca_GetServiceAccount C (fn_Namespace f) sa of Inr labels \<Rightarrow> isHostManagerServiceAccount labels | Inl _ \<Rightarrow> False)
      then Some (degrade L C (field @ '' '' @ kl_Quote L sa @ '' is a host-manager ServiceAccount; a function must run as its own'') f)
      else None)"

definition executable_available :: "kube_lib \<Rightarrow> cluster \<Rightarrow> Executable \<Rightarrow> KDexFunctionCR \<Rightarrow> reconcile_outcome \<times> KDexFunctionCR" where
  "executable_available L C ex f =
     (Returned 0 None, advance L C ExecutableAvailable (ex_Image ex) (on_status (\<lambda>s. s\<lparr>st_Executable := Some ex\<rparr>) f))"

definition image_tags :: "KImage \<Rightarrow> string" where
  "image_tags img =
     Join ((case ki_Tag img of Some t \<Rightarrow> [t] | None \<Rightarrow> []) @ (case ki_AdditionalTags img of Some ts \<Rightarrow> ts | None \<Rightarrow> [])) '',''"

text \<open>The state of the image: failed, built or awaited. A built image without its reference is a failed type assertion.\<close>

definition image_result :: "kube_lib \<Rightarrow> cluster \<Rightarrow> KDexFunctionReconciler \<Rightarrow> KImage \<Rightarrow> KDexFunctionCR \<Rightarrow> reconcile_outcome \<times> KDexFunctionCR" where
  "image_result L C r img f =
     (let job = ki_Namespace img @ ''/'' @ ki_Name img
      in case inspectKPackImageStatus img of
           (_, Some e) \<Rightarrow> (let m = ''image builder job '' @ job @ '' failed: '' @ e in (Returned 0 (Some m), degrade L C m f))
         | (False, None) \<Rightarrow>
             (Returned (rc_RequeueDelay r) None,
              set_conditions L C progressing Reconciling (''Waiting on image builder job '' @ job @ '' to complete'') f)
         | (True, None) \<Rightarrow>
             (case Option.bind (ki_Status img) kst_LatestImage of
                None \<Rightarrow> (Panicked, f)
              | Some latest \<Rightarrow>
                  executable_available L C \<lparr>ex_Image = latest\<rparr> (set_attribute ''image.tags'' (image_tags img) f)))"

definition build_image ::
  "kube_lib \<Rightarrow> cluster \<Rightarrow> KDexFunctionReconciler \<Rightarrow> handlerContext \<Rightarrow> Source \<Rightarrow> Builder \<Rightarrow> string \<Rightarrow> KDexFunctionCR \<Rightarrow> handled" where
  "build_image L C r hc source builder buildSA f =
     (let prefix = (case rc_FunctionImagePrefix r of Some p \<Rightarrow> p | None \<Rightarrow> fs_HostRef (fn_Spec f) @ ''/'')
      in case GetOrCreateKPackImage L C (ih_ImageRegistry (hc_host hc)) prefix buildSA source builder f of
           (Inl e, as) \<Rightarrow>
             if Contains e ''Immutable field changed''
             then (let name = fs_HostRef (fn_Spec f) @ ''-'' @ fn_Name f
                   in (case ca_DeleteImage C (fn_Namespace f) name of
                         Some d \<Rightarrow> Returned 0 (Some (kerr_msg d))
                       | None \<Rightarrow> Returned second None, f, as @ [ADeleteImage (fn_Namespace f) name]))
             else (Returned 0 (Some e), degrade L C e f, as)
         | (Inr img, as) \<Rightarrow> (case image_result L C r img f of (out, f1) \<Rightarrow> (out, f1, as)))"

definition handleSourceAvailable :: "kube_lib \<Rightarrow> cluster \<Rightarrow> KDexFunctionReconciler \<Rightarrow> handlerContext \<Rightarrow> KDexFunctionCR \<Rightarrow> handled" where
  "handleSourceAvailable L C r hc f =
     (case o_Executable (origin f) of
        Some ex \<Rightarrow> (case executable_available L C ex f of (out, f1) \<Rightarrow> (out, f1, []))
      | None \<Rightarrow>
          (case build_source f of
             None \<Rightarrow>
               (let e = ''spec.origin.source and status.source are nil for '' @ fn_Namespace f @ ''/'' @ fn_Name f
                in (Returned 0 (Some e), degrade L C e f, []))
           | Some source \<Rightarrow>
               (case builderForBuild L (hc_faas hc) (src_Builder source) of
                  Inl e \<Rightarrow> (Returned 0 (Some e), degrade L C e f, [])
                | Inr builder \<Rightarrow>
                    (let sa = b_ServiceAccountName builder
                     in if sa = [] then build_image L C r hc source builder (rc_ServiceAccount r) f
                        else case refuseHostManagerServiceAccount L C r ''spec.origin.source.builder.serviceAccountName'' sa f of
                               Some f1 \<Rightarrow> (Returned 0 None, f1, [])
                             | None \<Rightarrow> build_image L C r hc source builder sa f))))"

definition resolveAPITokenPrefix :: "KDexFunctionReconciler \<Rightarrow> KDexInternalHost \<Rightarrow> string" where
  "resolveAPITokenPrefix r h =
     (case ih_TokenPrefix h of Some p \<Rightarrow> if p \<noteq> [] then p else rc_TokenPrefix r | None \<Rightarrow> rc_TokenPrefix r)"

definition deployer :: "KDexFunctionReconciler \<Rightarrow> handlerContext \<Rightarrow> Deployer" where
  "deployer r hc =
     \<lparr>dy_FaaSAdaptor = hc_faas hc, dy_Host = hc_host hc, dy_ImagePullSecrets = hc_pullSecrets hc,
      dy_ServiceAccount = rc_ServiceAccount r, dy_TokenPrefix = resolveAPITokenPrefix r (hc_host hc)\<rparr>"

text \<open>The finished deployer job; a failed cleanup after a terminal failure is only logged.\<close>

definition deploy_finished :: "kube_lib \<Rightarrow> cluster \<Rightarrow> KDexFunctionReconciler \<Rightarrow> Job \<Rightarrow> KDexFunctionCR \<Rightarrow> handled" where
  "deploy_finished L C r job f =
     (case GetPodForJob C job of
        Inl e \<Rightarrow> discard_job L C r job e f
      | Inr pod \<Rightarrow>
          (let msg = termination_message ''deployer'' pod
           in case isCodegenJobTerminal job of
                Some t \<Rightarrow>
                  (case markCodegenJobTerminallyFailed L C job t msg f of
                     (out, f1) \<Rightarrow> (out, f1, snd (cleanupJobs C f ''deployer'' (j_Name job))))
              | None \<Rightarrow>
                  (case decodeDeployerURL L msg of
                     Inl e \<Rightarrow> discard_job L C r job e f
                   | Inr url \<Rightarrow>
                       (Returned 0 None, advance L C FunctionDeployed url (on_status (\<lambda>s. s\<lparr>st_URL := url\<rparr>) f), []))))"

definition deploy_pass :: "kube_lib \<Rightarrow> cluster \<Rightarrow> KDexFunctionReconciler \<Rightarrow> handlerContext \<Rightarrow> KDexFunctionCR \<Rightarrow> handled" where
  "deploy_pass L C r hc f =
     (case Deploy L C (deployer r hc) f of
        None \<Rightarrow> (Panicked, f, [])
      | Some (Inl e, as) \<Rightarrow> (Returned 0 (Some e), degrade L C e f, as)
      | Some (Inr job, as) \<Rightarrow>
          if \<not> job_finished job
          then (case cleanupJobs C f ''deployer'' (j_Name job) of
                  (e, bs) \<Rightarrow> (after_cleanup r e, waiting L C ''function deployer'' job f, as @ bs))
          else (case deploy_finished L C r job f of (out, f1, bs) \<Rightarrow> (out, f1, as @ bs)))"

definition handleExecutableAvailable :: "kube_lib \<Rightarrow> cluster \<Rightarrow> KDexFunctionReconciler \<Rightarrow> handlerContext \<Rightarrow> KDexFunctionCR \<Rightarrow> handled" where
  "handleExecutableAvailable L C r hc f =
     (if st_Executable (fn_Status f) = None
      then (Returned (rc_RequeueDelay r) None,
            case o_Executable (origin f) of
              Some ex \<Rightarrow> on_status (\<lambda>s. s\<lparr>st_Executable := Some ex\<rparr>) f
            | None \<Rightarrow> set_state OpenAPIValid f, [])
      else let sa = fs_ServiceAccountName (fn_Spec f)
           in if sa = [] then deploy_pass L C r hc f
              else case refuseHostManagerServiceAccount L C r ''spec.serviceAccountName'' sa f of
                     Some f1 \<Rightarrow> (Returned 0 None, f1, [])
                   | None \<Rightarrow> deploy_pass L C r hc f)"

definition ready_detail :: "KDexFunctionCR \<Rightarrow> string" where
  "ready_detail f = ''Ready: '' @ st_URL (fn_Status f) @ api_BasePath (fs_API (fn_Spec f))"

definition make_ready :: "kube_lib \<Rightarrow> cluster \<Rightarrow> string \<Rightarrow> KDexFunctionCR \<Rightarrow> KDexFunctionCR" where
  "make_ready L C msg f =
     set_conditions L C all_ready ReconcileSuccess msg (on_status (\<lambda>s. s\<lparr>st_State := Ready, st_Detail := ready_detail f\<rparr>) f)"

definition handleFunctionDeployed :: "kube_lib \<Rightarrow> cluster \<Rightarrow> KDexFunctionReconciler \<Rightarrow> handlerContext \<Rightarrow> KDexFunctionCR \<Rightarrow> handled" where
  "handleFunctionDeployed L C r hc f =
     (case Observe L C (deployer r hc) f of
        (Some e, f1, as) \<Rightarrow> (Returned 0 (Some e), degrade L C e f1, as)
      | (None, f1, as) \<Rightarrow> (Returned (rc_RequeueDelay r) None, make_ready L C (ready_detail f1) f1, as))"

definition handleReady :: "kube_lib \<Rightarrow> cluster \<Rightarrow> KDexFunctionReconciler \<Rightarrow> handlerContext \<Rightarrow> KDexFunctionCR \<Rightarrow> handled" where
  "handleReady L C r hc f =
     (if st_Executable (fn_Status f) = None then (Returned (rc_RequeueDelay r) None, set_state SourceAvailable f, [])
      else if o_Source (origin f) \<noteq> None \<and> st_Source (fn_Status f) = None
      then (Returned (rc_RequeueDelay r) None, on_status (\<lambda>s. s\<lparr>st_Source := o_Source (origin f)\<rparr>) f, [])
      else case Observe L C (deployer r hc) f of
             (Some e, f1, as) \<Rightarrow> (Returned 0 (Some e), degrade L C e f1, as)
           | (None, f1, as) \<Rightarrow>
               (Returned 0 None, make_ready L C ''Function is ready'' f1, as @ snd (cleanupJobs C f1 ''deployer'' (JobName L f1))))"

section \<open>Writing the status\<close>

definition gomap_equal :: "string gomap \<Rightarrow> string gomap \<Rightarrow> bool" where
  "gomap_equal a b \<longleftrightarrow> list_all (\<lambda>k. map_of a k = map_of b k) (map fst a @ map fst b)"

text \<open>\<open>Semantic.DeepEqual\<close> on two statuses, and \<open>functionStatusEqual\<close>, which ignores the times of the conditions.\<close>

definition status_equal :: "KDexFunctionStatus \<Rightarrow> KDexFunctionStatus \<Rightarrow> bool" where
  "status_equal a b \<longleftrightarrow> gomap_equal (st_Attributes a) (st_Attributes b) \<and> a\<lparr>st_Attributes := []\<rparr> = b\<lparr>st_Attributes := []\<rparr>"

definition untimed :: "condition list \<Rightarrow> condition list" where
  "untimed cs = map (cd_LastTransitionTime_update (\<lambda>_. 0)) cs"

definition functionStatusEqual :: "KDexFunctionStatus \<Rightarrow> KDexFunctionStatus \<Rightarrow> bool" where
  "functionStatusEqual a b \<longleftrightarrow>
     status_equal (a\<lparr>st_Conditions := untimed (st_Conditions a)\<rparr>) (b\<lparr>st_Conditions := untimed (st_Conditions b)\<rparr>)"

text \<open>The deferred write of a pass: only when the status changed; a conflict is retried soon. It runs on a panic too, which
  then goes on.\<close>

definition deferred_update :: "cluster \<Rightarrow> KDexFunctionStatus \<Rightarrow> handled \<Rightarrow> handled" where
  "deferred_update C observed h =
     (case h of (out, f, as) \<Rightarrow>
        (let f1 = on_status (\<lambda>s. s\<lparr>st_ObservedGeneration := fn_Generation f\<rparr>) f
         in if functionStatusEqual observed (fn_Status f1) then (out, f1, as)
            else (case ca_UpdateStatus C f1 of
                    None \<Rightarrow> out
                  | Some e \<Rightarrow>
                      if out = Panicked then Panicked
                      else (case e of Conflict _ \<Rightarrow> Returned (50 * millisecond) None | _ \<Rightarrow> Returned 0 (Some (kerr_msg e))),
                  f1, as @ [AUpdateStatus f1])))"

section \<open>Functions backed by a Service\<close>

definition backendServiceKey :: "ServiceBackend \<Rightarrow> KDexFunctionCR \<Rightarrow> string \<times> string" where
  "backendServiceKey svc f = (if sb_Namespace svc = [] then fn_Namespace f else sb_Namespace svc, sb_Name svc)"

definition backendServiceIndexer :: "KDexFunctionCR \<Rightarrow> string list" where
  "backendServiceIndexer f =
     (case fs_Backend (fn_Spec f) of
        Some (Some svc) \<Rightarrow> (case backendServiceKey svc f of (ns, name) \<Rightarrow> [ns @ ''/'' @ name])
      | _ \<Rightarrow> [])"

definition resolveServicePort :: "KService \<Rightarrow> service_port \<Rightarrow> int option" where
  "resolveServicePort svc ref =
     (case ref of PortNumber n \<Rightarrow> Some n | PortName p \<Rightarrow> map_option snd (find (\<lambda>(n, _). n = p) (svc_Ports svc)))"

definition hasReadyEndpoint :: "cluster \<Rightarrow> string \<Rightarrow> string \<Rightarrow> kube_error + bool" where
  "hasReadyEndpoint C ns name =
     (case ca_ListEndpoints C ns name of
        Inl e \<Rightarrow> Inl e
      | Inr slices \<Rightarrow> Inr (list_ex (list_ex (\<lambda>ready. ready = Some True)) slices))"

definition set_condition :: "kube_lib \<Rightarrow> cluster \<Rightarrow> string \<Rightarrow> condition_status \<Rightarrow> string \<Rightarrow> string \<Rightarrow> KDexFunctionCR \<Rightarrow> KDexFunctionCR" where
  "set_condition L C ty st reason msg =
     on_status (\<lambda>s. s\<lparr>st_Conditions := kl_SetStatusCondition L (ca_now C) (st_Conditions s) ty st reason msg\<rparr>)"

definition observe_generation :: "KDexFunctionCR \<Rightarrow> KDexFunctionCR" where
  "observe_generation f = on_status (\<lambda>s. s\<lparr>st_ObservedGeneration := fn_Generation f\<rparr>) f"

text \<open>The write of this path: on any difference, and a failure is the error of the pass.\<close>

definition update_if_changed :: "cluster \<Rightarrow> KDexFunctionStatus \<Rightarrow> reconcile_outcome \<Rightarrow> KDexFunctionCR \<Rightarrow> handled" where
  "update_if_changed C old out f =
     (if status_equal old (fn_Status f) then (out, f, [])
      else (case ca_UpdateStatus C f of Some e \<Rightarrow> Returned 0 (Some (kerr_msg e)) | None \<Rightarrow> out, f, [AUpdateStatus f]))"

definition markBackendUnready ::
  "kube_lib \<Rightarrow> cluster \<Rightarrow> KDexFunctionReconciler \<Rightarrow> string \<Rightarrow> string \<Rightarrow> bool \<Rightarrow> KDexFunctionCR \<Rightarrow> handled" where
  "markBackendUnready L C r reason msg retainURL f =
     (let f1 = set_condition L C ''Ready'' CFalse reason msg f;
          f2 = (if retainURL then set_condition L C ''Progressing'' CTrue reason msg f1
                else set_condition L C ''Degraded'' CTrue reason msg
                       (on_status (\<lambda>s. s\<lparr>st_URL := [], st_State := OpenAPIValid\<rparr>) f1))
      in update_if_changed C (fn_Status f) (Returned (rc_RequeueDelay r) None) (observe_generation f2))"

definition service_url :: "ServiceBackend \<Rightarrow> string \<Rightarrow> int \<Rightarrow> string" where
  "service_url svc ns port =
     (if sb_Scheme svc = [] then ''http'' else sb_Scheme svc) @ ''://'' @ sb_Name svc @ ''.'' @ ns @ ''.svc.cluster.local:'' @
     FormatInt port @ (if sb_Path svc = [] then ''/'' else sb_Path svc)"

definition backend_resolved :: "kube_lib \<Rightarrow> cluster \<Rightarrow> ServiceBackend \<Rightarrow> string \<Rightarrow> int \<Rightarrow> KDexFunctionCR \<Rightarrow> handled" where
  "backend_resolved L C svc ns port f =
     (let url = service_url svc ns port;
          f1 = on_status (\<lambda>s. s\<lparr>st_Executable := None, st_Generator := None, st_Source := None, st_URL := url, st_State := Ready\<rparr>) f;
          f2 = set_condition L C ''Ready'' CTrue ''BackendResolved''
                 (''Backend Service '' @ ns @ ''/'' @ sb_Name svc @ '' resolved to '' @ url) (observe_generation f1);
          f3 = on_status (\<lambda>s. s\<lparr>st_Conditions := kl_RemoveStatusCondition L (st_Conditions s) ''Degraded''\<rparr>) f2
      in update_if_changed C (fn_Status f) (Returned 0 None) f3)"

definition port_string :: "service_port \<Rightarrow> string" where
  "port_string p = (case p of PortNumber n \<Rightarrow> FormatInt n | PortName s \<Rightarrow> s)"

definition reconcileServiceBacked ::
  "kube_lib \<Rightarrow> cluster \<Rightarrow> KDexFunctionReconciler \<Rightarrow> ServiceBackend option \<Rightarrow> KDexFunctionCR \<Rightarrow> handled" where
  "reconcileServiceBacked L C r ref f =
     (case ref of
        None \<Rightarrow> (Returned 0 None, f, [])
      | Some svc \<Rightarrow>
          (let ns = fst (backendServiceKey svc f); full = ns @ ''/'' @ sb_Name svc
           in case checkReferenceNamespace L (rc_ReferenceNamespaces r) (fn_Namespace f) ns of
                Some e \<Rightarrow> markBackendUnready L C r ''NamespaceNotReferenceable'' e False f
              | None \<Rightarrow>
                  (case ca_GetService C ns (sb_Name svc) of
                     Inl (NotFound _) \<Rightarrow> markBackendUnready L C r ''ServiceNotFound'' (''Service '' @ full @ '' not found'') False f
                   | Inl e \<Rightarrow> (Returned 0 (Some (kerr_msg e)), f, [])
                   | Inr s \<Rightarrow>
                       (case resolveServicePort s (sb_Port svc) of
                          None \<Rightarrow> markBackendUnready L C r ''InvalidPort''
                                    (''port '' @ port_string (sb_Port svc) @ '' not found in Service '' @ full) False f
                        | Some port \<Rightarrow>
                            (case hasReadyEndpoint C ns (sb_Name svc) of
                               Inl e \<Rightarrow> (Returned 0 (Some (kerr_msg e)), f, [])
                             | Inr False \<Rightarrow> markBackendUnready L C r ''NoEndpoints'' (''Service '' @ full @ '' has no ready endpoints'') True f
                             | Inr True \<Rightarrow> backend_resolved L C svc ns port f)))))"

section \<open>The pass\<close>

text \<open>Start of a pass: a new generation begins at Pending.\<close>

definition begin_pass :: "kube_lib \<Rightarrow> cluster \<Rightarrow> KDexFunctionCR \<Rightarrow> KDexFunctionCR" where
  "begin_pass L C f =
     (let f1 = (if st_ObservedGeneration (fn_Status f) < fn_Generation f then set_state Pending f else f)
      in set_conditions L C reconciling Reconciling (state_string (st_State (fn_Status f1))) f1)"

text \<open>An adaptor of another generation than the recorded one sends the function back to OpenAPIValid.\<close>

definition note_adaptor :: "FaaSAdaptor \<Rightarrow> KDexFunctionCR \<Rightarrow> KDexFunctionCR" where
  "note_adaptor a f =
     (let current = FormatInt (ad_Generation a); recorded = attribute f ''faasAdaptor.generation''
      in set_attribute ''faasAdaptor.generation'' current
           (if recorded \<noteq> [] \<and> recorded \<noteq> current then set_state OpenAPIValid f else f))"

definition make_context :: "kube_lib \<Rightarrow> KDexInternalHost \<Rightarrow> FaaSAdaptor \<Rightarrow> KSecret list \<Rightarrow> handlerContext" where
  "make_context L h a secrets =
     \<lparr>hc_faas = ad_Spec a,
      hc_gitSecret = map_option sec_Name (find (\<lambda>s. at_key (sec_Annotations s) ''kdex.dev/secret-type'' = ''git'') (kl_SortSecrets L secrets)),
      hc_host = h,
      hc_pullSecrets = map sec_Name (filter (\<lambda>s. sec_Type s = ''kubernetes.io/dockerconfigjson'') (kl_SortSecrets L secrets))\<rparr>"

definition resolve_context ::
  "kube_lib \<Rightarrow> cluster \<Rightarrow> KDexFunctionReconciler \<Rightarrow> KDexFunctionCR \<Rightarrow> (reconcile_outcome \<times> KDexFunctionCR) + handlerContext \<times> KDexFunctionCR" where
  "resolve_context L C r f =
     (case ResolveHost L C (rc_RequeueDelay r) f of
        Inl x \<Rightarrow> Inl x
      | Inr h \<Rightarrow>
          (let f1 = set_attribute ''host.generation'' (FormatInt (ih_Generation h)) f
           in case ResolveOrDefaultFaaSAdaptor L C r h f1 of
                Inl x \<Rightarrow> Inl x
              | Inr None \<Rightarrow>
                  (let e = ''no KDexFaaSAdaptors were found to handle function '' @ fn_Namespace f @ ''/'' @ fn_Name f
                   in Inl (Returned 0 (Some e), set_conditions L C degraded ReconcileSuccess e f1))
              | Inr (Some a) \<Rightarrow>
                  (let f2 = note_adaptor a f1
                   in case ResolveSecrets C h f2 of
                        Inl e \<Rightarrow> Inl (Returned 0 (Some e), degrade L C e f2)
                      | Inr (secrets, f3) \<Rightarrow> Inr (make_context L h a secrets, f3))))"

text \<open>A ready function whose image kpack has rebuilt is sent back to SourceAvailable. A failing read ends the pass.\<close>

definition image_drift :: "cluster \<Rightarrow> handlerContext \<Rightarrow> KDexFunctionCR \<Rightarrow> string + KDexFunctionCR" where
  "image_drift C hc f =
     (if o_Executable (origin f) \<noteq> None \<or> st_Source (fn_Status f) = None then Inr f
      else case ca_GetImage C (fn_Namespace f) (ih_Name (hc_host hc) @ ''-'' @ fn_Name f) of
             Inl (NotFound _) \<Rightarrow> Inr f
           | Inl (NoMatch _) \<Rightarrow> Inr f
           | Inl e \<Rightarrow> Inl (kerr_msg e)
           | Inr img \<Rightarrow>
               (case Option.bind (ki_Status img) kst_LatestImage of
                  None \<Rightarrow> Inr f
                | Some latest \<Rightarrow>
                    (case st_Executable (fn_Status f) of
                       None \<Rightarrow> Inr f
                     | Some ex \<Rightarrow>
                         Inr (if latest \<noteq> [] \<and> st_State (fn_Status f) = Ready \<and> ex_Image ex \<noteq> latest
                              then set_state SourceAvailable f else f))))"

definition codegen_drift :: "kube_lib \<Rightarrow> KDexFunctionCR \<Rightarrow> KDexFunctionCR" where
  "codegen_drift L f =
     (if st_State (fn_Status f) = Ready \<and> o_Source (origin f) \<noteq> None \<and> \<not> shouldSkipCodegen L f
      then set_state BuildValid f else f)"

definition dispatch :: "kube_lib \<Rightarrow> cluster \<Rightarrow> KDexFunctionReconciler \<Rightarrow> handlerContext \<Rightarrow> KDexFunctionCR \<Rightarrow> handled" where
  "dispatch L C r hc f =
     (case st_State (fn_Status f) of
        Pending \<Rightarrow> handlePending L C r hc f
      | OpenAPIValid \<Rightarrow> handleOpenAPIValid L C r hc f
      | BuildValid \<Rightarrow> handleBuildValid L C r hc f
      | SourceAvailable \<Rightarrow> handleSourceAvailable L C r hc f
      | ExecutableAvailable \<Rightarrow> handleExecutableAvailable L C r hc f
      | FunctionDeployed \<Rightarrow> handleFunctionDeployed L C r hc f
      | Ready \<Rightarrow> handleReady L C r hc f
      | NoState \<Rightarrow> (Returned 0 None, set_conditions L C all_ready ReconcileSuccess ''Reconciliation successful'' f, []))"

definition origin_pass :: "kube_lib \<Rightarrow> cluster \<Rightarrow> KDexFunctionReconciler \<Rightarrow> KDexFunctionCR \<Rightarrow> handled" where
  "origin_pass L C r f =
     (case resolve_context L C r (begin_pass L C f) of
        Inl (out, f1) \<Rightarrow> (out, f1, [])
      | Inr (hc, f1) \<Rightarrow>
          (case image_drift C hc f1 of
             Inl e \<Rightarrow> (Returned 0 (Some e), f1, [])
           | Inr f2 \<Rightarrow> dispatch L C r hc (codegen_drift L f2)))"

text \<open>A pass over the object the request names; a request for an object that is gone does nothing.\<close>

definition Reconcile :: "kube_lib \<Rightarrow> cluster \<Rightarrow> KDexFunctionReconciler \<Rightarrow> KDexFunctionCR \<Rightarrow> handled" where
  "Reconcile L C r f =
     (if fn_Namespace f \<noteq> rc_ControllerNamespace r then (Returned 0 None, f, [])
      else if fs_HostRef (fn_Spec f) \<noteq> rc_FocalHost r then (Returned 0 None, f, [])
      else case fs_Backend (fn_Spec f) of
             Some svc \<Rightarrow> reconcileServiceBacked L C r svc f
           | None \<Rightarrow> deferred_update C (fn_Status f) (origin_pass L C r f))"

end
