(* ===== verification/FunctionLifecycle.thy ===== *)
theory FunctionLifecycle
  imports FunctionController
begin

text \<open>
  The life of a function under the reconciler: the step relation \<open>fn_reach\<close> interleaves passes of \<open>Reconcile\<close>, under any
  answers of the API server, with edits of the specification and of the labels; its ghost component is the set of
  addresses that deployer jobs have reported. Shown are what the state of a function promises, that a ready function
  serves what was deployed for it, which workloads a pass may create, change and delete, and that the passes reach the
  ready state and then stop writing.
\<close>

section \<open>The function and its passes\<close>

named_theorems fn_defs \<open>the updates of a function object in memory\<close>

lemmas fn_updates [fn_defs] =
  on_status_def set_conditions_def degrade_def set_state_def advance_def set_attribute_def waiting_def attribute_def
  observe_generation_def set_condition_def Let_def

text \<open>What the decisions of a pass on a deployed function depend on.\<close>

definition essence ::
  "KDexFunctionCR \<Rightarrow> string \<times> string \<times> string \<times> int \<times> KDexFunctionSpec \<times> KDexFunctionState \<times> string \<times> Executable option \<times> string" where
  "essence f = (fn_Name f, fn_Namespace f, fn_UID f, fn_Generation f, fn_Spec f, st_State (fn_Status f), st_URL (fn_Status f),
     st_Executable (fn_Status f), attribute f ''faasAdaptor.generation'')"

definition identity :: "KDexFunctionCR \<Rightarrow> string \<times> string \<times> string \<times> int \<times> KDexFunctionSpec" where
  "identity f = (fn_Name f, fn_Namespace f, fn_UID f, fn_Generation f, fn_Spec f)"

text \<open>The label patch answers with the object it was sent, as it is stored: no edit of the specification lands inside it.\<close>

definition patch_same :: "cluster \<Rightarrow> bool" where
  "patch_same C \<longleftrightarrow> (\<forall>g h. ca_Patch C g = Inr h \<longrightarrow> identity h = identity g)"

definition patch_ok :: "cluster \<Rightarrow> KDexFunctionCR \<Rightarrow> bool" where
  "patch_ok C f \<longleftrightarrow> patch_same C \<and> (\<forall>g h. essence g = essence f \<longrightarrow> ca_Patch C g = Inr h \<longrightarrow> essence h = essence f)"

text \<open>What the server stores after the changes a pass asked for.\<close>

fun apply_action :: "cluster \<Rightarrow> action \<Rightarrow> KDexFunctionCR \<Rightarrow> KDexFunctionCR" where
  "apply_action C (AUpdateStatus g) f = (if ca_UpdateStatus C g = None then f\<lparr>fn_Status := fn_Status g\<rparr> else f)"
| "apply_action C (APatchLabels g) f = (case ca_Patch C g of Inr h \<Rightarrow> f\<lparr>fn_Labels := fn_Labels h\<rparr> | Inl _ \<Rightarrow> f)"
| "apply_action C _ f = f"

definition stored_after :: "cluster \<Rightarrow> KDexFunctionCR \<Rightarrow> handled \<Rightarrow> KDexFunctionCR" where
  "stored_after C f h = fold (apply_action C) (snd (snd h)) f"

text \<open>The addresses that finished deployer jobs report during a pass, by the name of the job.\<close>

definition reports :: "kube_lib \<Rightarrow> cluster \<Rightarrow> KDexFunctionCR \<Rightarrow> (string \<times> string) set" where
  "reports L C f =
     {(name, url). \<exists>job pod. ca_GetJob C (fn_Namespace f) name = Inr job \<and> job_finished job \<and> isCodegenJobTerminal job = None \<and>
        GetPodForJob C job = Inr pod \<and> decodeDeployerURL L (termination_message ''deployer'' pod) = Inr url}"

inductive fn_reach :: "kube_lib \<Rightarrow> KDexFunctionReconciler \<Rightarrow> KDexFunctionCR \<Rightarrow> (string \<times> string) set \<Rightarrow> bool"
  for L :: kube_lib and r :: KDexFunctionReconciler where
  created: "fn_Status f = no_status \<Longrightarrow> 0 < fn_Generation f \<Longrightarrow> fn_reach L r f {}"
| edited: "fn_reach L r f R \<Longrightarrow> fn_reach L r (f\<lparr>fn_Spec := spec, fn_Generation := fn_Generation f + 1\<rparr>) R"
| relabelled: "fn_reach L r f R \<Longrightarrow> fn_reach L r (f\<lparr>fn_Labels := labels\<rparr>) R"
| pass: "fn_reach L r f R \<Longrightarrow> patch_ok C f \<Longrightarrow> fn_reach L r (stored_after C f (Reconcile L C r f)) (R \<union> reports L C f)"

text \<open>The fields a state promises.\<close>

definition well_formed :: "KDexFunctionCR \<Rightarrow> bool" where
  "well_formed f \<longleftrightarrow>
     (st_State (fn_Status f) \<in> {ExecutableAvailable, FunctionDeployed, Ready} \<longrightarrow> st_Executable (fn_Status f) \<noteq> None) \<and>
     (st_State (fn_Status f) \<in> {FunctionDeployed, Ready} \<longrightarrow> st_URL (fn_Status f) \<noteq> []) \<and>
     (st_State (fn_Status f) \<noteq> NoState \<and> st_State (fn_Status f) \<noteq> Pending \<longrightarrow> attribute f ''faasAdaptor.generation'' \<noteq> [])"

definition served :: "kube_lib \<Rightarrow> (string \<times> string) set \<Rightarrow> KDexFunctionCR \<Rightarrow> bool" where
  "served L R f \<longleftrightarrow>
     (st_State (fn_Status f) \<in> {FunctionDeployed, Ready} \<longrightarrow> (JobName L f, st_URL (fn_Status f)) \<in> R)"

definition staged :: "kube_lib \<Rightarrow> (string \<times> string) set \<Rightarrow> KDexFunctionCR \<Rightarrow> bool" where
  "staged L R f \<longleftrightarrow> well_formed f \<and> served L R f"

lemma JobName_essence: "essence f = essence g \<Longrightarrow> JobName L f = JobName L g"
  by (simp add: essence_def JobName_def attribute_def)

lemma staged_essence: "essence f = essence g \<Longrightarrow> staged L R f \<longleftrightarrow> staged L R g"
  using JobName_essence [of f g L] by (auto simp: essence_def staged_def well_formed_def served_def)

lemma staged_early: "st_State (fn_Status f) \<in> {NoState, Pending} \<Longrightarrow> staged L R f"
  by (auto simp: staged_def well_formed_def served_def)

lemma staged_building:
  "st_State (fn_Status f) \<in> {OpenAPIValid, BuildValid, SourceAvailable} \<Longrightarrow> attribute f ''faasAdaptor.generation'' \<noteq> [] \<Longrightarrow> staged L R f"
  by (auto simp: staged_def well_formed_def served_def)

lemma staged_mono: "staged L R f \<Longrightarrow> R \<subseteq> R' \<Longrightarrow> staged L R' f"
  by (auto simp: staged_def served_def)

lemma secret_key: "x @ ''.secret.generation'' \<noteq> ''faasAdaptor.generation''"
proof
  assume "x @ ''.secret.generation'' = ''faasAdaptor.generation''"
  then have "rev (x @ ''.secret.generation'') = rev ''faasAdaptor.generation''" by simp
  then show False by simp
qed

lemma essence_set_attribute [simp]: "k \<noteq> ''faasAdaptor.generation'' \<Longrightarrow> essence (set_attribute k v f) = essence f"
  by (simp add: essence_def fn_defs at_key_def)

lemma essence_conditions [simp]: "essence (set_conditions L C s reason msg f) = essence f"
  by (simp add: essence_def fn_defs)

lemma essence_degrade [simp]: "essence (degrade L C msg f) = essence f"
  by (simp add: degrade_def)

lemma essence_waiting [simp]: "essence (waiting L C what job f) = essence f"
  by (simp add: waiting_def)

lemma essence_secrets: "ResolveSecrets C h f = Inr (ss, f1) \<Longrightarrow> essence f1 = essence f"
proof -
  have "essence (fold (\<lambda>s. set_attribute (sec_Name s @ ''.secret.generation'') (FormatInt (sec_Generation s))) xs f) = essence f" for xs
    using secret_key by (induction xs arbitrary: f) auto
  then show "ResolveSecrets C h f = Inr (ss, f1) \<Longrightarrow> essence f1 = essence f"
    by (auto simp: ResolveSecrets_def Let_def split: option.splits sum.splits)
qed

lemma identity_essence: "essence f = essence g \<Longrightarrow> identity f = identity g"
  by (simp add: essence_def identity_def)

lemma identity_status [simp]: "identity (f\<lparr>fn_Status := s\<rparr>) = identity f"
  by (simp add: identity_def)

lemma identity_on_status [simp]: "identity (on_status u f) = identity f"
  by (simp add: on_status_def)

lemma identity_updates [simp]:
  "identity (set_conditions L C s reason msg f) = identity f" "identity (degrade L C msg f) = identity f"
  "identity (set_state st f) = identity f" "identity (set_attribute k v f) = identity f"
  "identity (advance L C st d f) = identity f" "identity (waiting L C what job f) = identity f"
  by (simp_all add: set_conditions_def degrade_def set_state_def set_attribute_def advance_def waiting_def Let_def)

abbreviation adaptor_of :: "KDexFunctionCR \<Rightarrow> string" where
  "adaptor_of f \<equiv> attribute f ''faasAdaptor.generation''"

text \<open>What holds of the function when its handler is called: its state keeps its promises, the adaptor is recorded, and a
  deployed function is as it is stored.\<close>

definition handler_ready :: "kube_lib \<Rightarrow> (string \<times> string) set \<Rightarrow> KDexFunctionCR \<Rightarrow> KDexFunctionCR \<Rightarrow> bool" where
  "handler_ready L R f0 f \<longleftrightarrow>
     staged L R f \<and> adaptor_of f \<noteq> [] \<and> identity f = identity f0 \<and>
     (st_State (fn_Status f) \<in> {FunctionDeployed, Ready} \<longrightarrow> essence f = essence f0)"

lemma FormatInt_not_Nil [simp]: "FormatInt n \<noteq> []"
  by (simp add: FormatInt_def format_nat_not_Nil)

lemma note_adaptor_identity [simp]: "identity (note_adaptor a f) = identity f"
  by (simp add: note_adaptor_def Let_def)

lemma note_adaptor_ready:
  assumes "staged L R f"
  shows "handler_ready L R f (note_adaptor a f)"
proof -
  let ?g = "FormatInt (ad_Generation a)"
  have n: "adaptor_of (note_adaptor a f) = ?g"
    by (simp add: note_adaptor_def fn_defs at_key_def)
  have st: "st_State (fn_Status (note_adaptor a f)) =
      (if adaptor_of f \<noteq> [] \<and> adaptor_of f \<noteq> ?g then OpenAPIValid else st_State (fn_Status f))"
    by (auto simp: note_adaptor_def fn_defs)
  have same: "essence (note_adaptor a f) = essence f" if "adaptor_of f = ?g"
    using that by (auto simp: essence_def note_adaptor_def fn_defs at_key_def)
  consider "adaptor_of f = ?g" | "adaptor_of f \<noteq> []" "adaptor_of f \<noteq> ?g" | "adaptor_of f = []" by blast
  then show ?thesis
  proof cases
    case 1
    then show ?thesis using same staged_essence [of "note_adaptor a f" f] assms n by (simp add: handler_ready_def)
  next
    case 2
    then show ?thesis using st n staged_building [of "note_adaptor a f"] by (simp add: handler_ready_def)
  next
    case 3
    then have "st_State (fn_Status f) \<in> {NoState, Pending}" using assms by (auto simp: staged_def well_formed_def)
    then show ?thesis using 3 st n staged_early [of "note_adaptor a f"] by (auto simp: handler_ready_def)
  qed
qed

lemma handler_ready_essence: "handler_ready L R f0 f \<Longrightarrow> essence g = essence f \<Longrightarrow> handler_ready L R f0 g"
  using staged_essence [of g f L R] identity_essence [of g f] by (auto simp: handler_ready_def essence_def)

lemma handler_ready_from: "handler_ready L R g f \<Longrightarrow> essence g = essence h \<Longrightarrow> handler_ready L R h f"
  using identity_essence [of g h] by (auto simp: handler_ready_def)

lemma resolve_host_essence: "ResolveHost L C d f = Inl (out, f1) \<Longrightarrow> essence f1 = essence f"
  by (auto simp: ResolveHost_def split: sum.splits kube_error.splits)

lemma resolve_adaptor_essence: "ResolveOrDefaultFaaSAdaptor L C r h f = Inl (out, f1) \<Longrightarrow> essence f1 = essence f"
  by (auto simp: ResolveOrDefaultFaaSAdaptor_def ResolveKDexObjectReference_def Let_def split: sum.splits option.splits if_splits)

lemma resolve_context_refused:
  assumes "resolve_context L C r f = Inl (out, f1)" "staged L R f"
  shows "staged L R f1 \<and> identity f1 = identity f"
proof -
  have a: "handler_ready L R f (degrade L C e (note_adaptor a (set_attribute ''host.generation'' g f)))" for a e g
    by (rule handler_ready_essence [OF handler_ready_from [OF note_adaptor_ready]])
      (use assms(2) staged_essence [of "set_attribute ''host.generation'' g f" f] in simp_all)
  have b: "staged L R f1 \<and> identity f1 = identity f" if "essence f1 = essence f"
    using that staged_essence [of f1 f L R] identity_essence [of f1 f] assms(2) by simp
  show ?thesis
  proof (cases "ResolveHost L C (rc_RequeueDelay r) f")
    case (Inl x)
    then show ?thesis using assms(1) b by (auto simp: resolve_context_def dest: resolve_host_essence)
  next
    case (Inr h)
    define g where "g = set_attribute ''host.generation'' (FormatInt (ih_Generation h)) f"
    have g: "essence g = essence f" by (simp add: g_def)
    show ?thesis
    proof (cases "ResolveOrDefaultFaaSAdaptor L C r h g")
      case (Inl x)
      then show ?thesis using assms(1) b Inr g resolve_adaptor_essence [of L C r h g out f1]
        by (simp add: resolve_context_def g_def [symmetric] Let_def)
    next
      case ok: (Inr oa)
      then show ?thesis
      proof (cases oa)
        case None
        then show ?thesis using assms(1) b Inr ok g by (auto simp: resolve_context_def g_def [symmetric] Let_def)
      next
        case (Some a')
        then show ?thesis using assms(1) Inr ok a [of _ a' "FormatInt (ih_Generation h)"]
          by (auto simp: resolve_context_def g_def Let_def handler_ready_def split: sum.splits)
      qed
    qed
  qed
qed

lemma resolve_context_ready:
  assumes "resolve_context L C r f = Inr (hc, f1)" "staged L R f"
  shows "handler_ready L R f f1"
proof -
  from assms(1) obtain h a ss where
    s: "ResolveSecrets C h (note_adaptor a (set_attribute ''host.generation'' (FormatInt (ih_Generation h)) f)) = Inr (ss, f1)"
    by (auto simp: resolve_context_def Let_def split: sum.splits option.splits)
  have "staged L R (set_attribute ''host.generation'' (FormatInt (ih_Generation h)) f)"
    using assms(2) staged_essence [of "set_attribute ''host.generation'' (FormatInt (ih_Generation h)) f" f] by simp
  from handler_ready_essence [OF handler_ready_from [OF note_adaptor_ready [OF this]] essence_secrets [OF s]]
  show ?thesis by simp
qed

lemma handler_ready_back:
  assumes "handler_ready L R f0 f" "st \<in> {OpenAPIValid, BuildValid, SourceAvailable}"
  shows "handler_ready L R f0 (set_state st f)"
  using assms staged_building [of "set_state st f" L R] by (auto simp: handler_ready_def fn_defs)

lemma drift_ready:
  assumes "handler_ready L R f0 f" "image_drift C hc f = Inr f2"
  shows "handler_ready L R f0 (codegen_drift L f2)"
proof -
  have "f2 = f \<or> f2 = set_state SourceAvailable f"
    using assms(2) by (auto simp: image_drift_def split: if_splits sum.splits kube_error.splits option.splits)
  then have "handler_ready L R f0 f2" using assms(1) handler_ready_back by auto
  then show ?thesis using handler_ready_back by (auto simp: codegen_drift_def)
qed

section \<open>What a handler keeps\<close>

definition keeps :: "kube_lib \<Rightarrow> (string \<times> string) set \<Rightarrow> KDexFunctionCR \<Rightarrow> KDexFunctionCR \<Rightarrow> bool" where
  "keeps L R f0 f \<longleftrightarrow> staged L R f \<and> identity f = identity f0"

lemma keeps_ready: "handler_ready L R f0 f \<Longrightarrow> keeps L R f0 f"
  by (simp add: keeps_def handler_ready_def)

lemma keeps_essence: "keeps L R f0 f \<Longrightarrow> essence g = essence f \<Longrightarrow> keeps L R f0 g"
  using staged_essence [of g f L R] identity_essence [of g f] by (simp add: keeps_def)

lemma keeps_mono: "keeps L R f0 f \<Longrightarrow> keeps L (R \<union> R') f0 f"
  using staged_mono by (auto simp: keeps_def)

lemma keeps_building:
  assumes "handler_ready L R f0 f" "identity g = identity f" "adaptor_of g = adaptor_of f"
    and "st_State (fn_Status g) \<in> {OpenAPIValid, BuildValid, SourceAvailable}"
  shows "keeps L R' f0 g"
  using assms staged_building [of g L R'] by (auto simp: keeps_def handler_ready_def)

lemma keeps_executable:
  assumes "handler_ready L R f0 f" "identity g = identity f" "adaptor_of g = adaptor_of f"
    and "st_State (fn_Status g) = ExecutableAvailable" "st_Executable (fn_Status g) \<noteq> None"
  shows "keeps L R' f0 g"
  using assms by (auto simp: keeps_def handler_ready_def staged_def well_formed_def served_def)

lemmas keeps_same = keeps_ready [THEN keeps_essence]

lemma pending_keeps:
  assumes "handlePending L C r hc f = (out, f1, as)" "handler_ready L R f0 f"
  shows "keeps L R f0 f1"
  using assms(1) keeps_ready [OF assms(2)] keeps_building [OF assms(2)]
  by (auto simp: handlePending_def fn_defs split: list.splits)

lemma take_executable_keeps:
  assumes "take_executable r ex f = (out, f1, as)" "handler_ready L R f0 f"
  shows "keeps L R f0 f1"
  using assms(1) keeps_executable [OF assms(2)] by (auto simp: take_executable_def fn_defs)

lemma openapi_keeps:
  assumes "handleOpenAPIValid L C r hc f = (out, f1, as)" "handler_ready L R f0 f"
  shows "keeps L R f0 f1"
proof (cases "o_Executable (origin f)")
  case (Some ex)
  then show ?thesis using assms take_executable_keeps by (simp add: handleOpenAPIValid_def)
next
  case None
  have "keeps L R f0 (degrade L C e f)" for e using keeps_same [OF assms(2)] by simp
  moreover have "keeps L R f0 (set_state SourceAvailable f)" using keeps_building [OF assms(2)] by (simp add: fn_defs)
  moreover have "keeps L R f0 (advance L C BuildValid d (on_status (\<lambda>s. s\<lparr>st_Generator := Some g\<rparr>) f))" for d g
    using keeps_building [OF assms(2)] by (simp add: fn_defs)
  ultimately show ?thesis using None assms(1) by (auto simp: handleOpenAPIValid_def split: if_splits sum.splits)
qed

lemma discard_keeps: "discard_job L C r job msg f = (out, f1, as) \<Longrightarrow> keeps L R f0 f \<Longrightarrow> keeps L R f0 f1"
  using keeps_essence by (auto simp: discard_job_def)

text \<open>The updates of a source under way leave the essence alone.\<close>

lemma essence_source [simp]: "essence (on_status (\<lambda>s. s\<lparr>st_Source := u s\<rparr>) f) = essence f"
  by (simp add: essence_def fn_defs)

lemma essence_record [simp]: "essence (recordCodegenInputs L f) = essence f"
  by (simp add: recordCodegenInputs_def Let_def split: option.splits)

lemma source_available_keeps:
  assumes "source_available L C r g = (out, f1, as)" "handler_ready L R f0 f" "essence g = essence f"
  shows "keeps L R f0 f1"
proof -
  have "handler_ready L R f0 g" using handler_ready_essence [OF assms(2,3)] .
  then show ?thesis using assms(1) keeps_building by (auto simp: source_available_def fn_defs split: option.splits)
qed

lemma codegen_keeps:
  assumes "codegen_finished L C r hc g job f = (out, f1, as)" "handler_ready L R f0 f"
  shows "keeps L R f0 f1"
proof -
  have k: "keeps L R f0 f" and e: "\<And>x. essence x = essence f \<Longrightarrow> keeps L R f0 x"
    using keeps_ready [OF assms(2)] keeps_same [OF assms(2)] by auto
  show ?thesis using assms(1) k
    by (auto simp: codegen_finished_def Let_def markCodegenJobTerminallyFailed_def e
        intro: discard_keeps source_available_keeps [OF _ assms(2)] split: sum.splits option.splits prod.splits)
qed

lemma run_codegen_keeps:
  assumes "run_codegen L C r hc f = (out, f1, as)" "handler_ready L R f0 f"
  shows "keeps L R f0 f1"
proof -
  have e: "\<And>x. essence x = essence f \<Longrightarrow> keeps L R f0 x" using keeps_same [OF assms(2)] by auto
  show ?thesis using assms(1)
    by (auto simp: run_codegen_def Let_def e intro: codegen_keeps [OF _ assms(2)] split: sum.splits option.splits prod.splits list.splits if_splits)
qed

lemma build_valid_keeps:
  assumes "handleBuildValid L C r hc f = (out, f1, as)" "handler_ready L R f0 f"
  shows "keeps L R f0 f1"
  using assms(1) take_executable_keeps [OF _ assms(2)] run_codegen_keeps [OF _ assms(2)] source_available_keeps [OF _ assms(2)]
  by (auto simp: handleBuildValid_def split: option.splits if_splits)

lemma executable_keeps:
  assumes "executable_available L C ex g = (out, f1)" "handler_ready L R f0 f" "essence g = essence f"
  shows "keeps L R f0 f1"
proof -
  have "handler_ready L R f0 g" using handler_ready_essence [OF assms(2,3)] .
  then show ?thesis using assms(1) keeps_executable by (auto simp: executable_available_def fn_defs)
qed

lemma build_image_keeps:
  assumes "build_image L C r hc source builder sa f = (out, f1, as)" "handler_ready L R f0 f"
  shows "keeps L R f0 f1"
proof -
  have e: "\<And>x. essence x = essence f \<Longrightarrow> keeps L R f0 x" using keeps_same [OF assms(2)] by auto
  have "keeps L R f0 g" if "image_result L C r img f = (o', g)" for img o' g
    using that e executable_keeps [OF _ assms(2)]
    by (auto simp: image_result_def Let_def split: prod.splits option.splits bool.splits)
  then show ?thesis using assms(1) e
    by (auto simp: build_image_def Let_def split: sum.splits prod.splits if_splits)
qed

lemma refuse_essence: "refuseHostManagerServiceAccount L C r field sa f = Some f1 \<Longrightarrow> essence f1 = essence f"
  by (auto simp: refuseHostManagerServiceAccount_def split: if_splits)

lemma source_keeps:
  assumes "handleSourceAvailable L C r hc f = (out, f1, as)" "handler_ready L R f0 f"
  shows "keeps L R f0 f1"
proof -
  have e: "\<And>x. essence x = essence f \<Longrightarrow> keeps L R f0 x" using keeps_same [OF assms(2)] by auto
  show ?thesis using assms(1) e executable_keeps [OF _ assms(2)] build_image_keeps [OF _ assms(2)] refuse_essence
    by (auto simp: handleSourceAvailable_def Let_def split: option.splits sum.splits prod.splits if_splits)
qed

text \<open>A finished deployer job was found under the name of the function's current state: a new one has not run.\<close>

lemma deploy_found:
  assumes "Deploy L C d f = Some (Inr job, as)" "job_finished job"
  shows "ca_GetJob C (fn_Namespace f) (JobName L f) = Inr job \<and> as = []"
  using assms by (auto simp: Deploy_def Let_def deploy_job_def job_finished_def split: option.splits sum.splits kube_error.splits list.splits)

lemma deploy_finished_keeps:
  assumes "deploy_finished L C r job f = (out, f1, as)" "handler_ready L R f0 f" "st_Executable (fn_Status f) \<noteq> None"
    and "ca_GetJob C (fn_Namespace f) (JobName L f) = Inr job" "job_finished job"
  shows "keeps L (R \<union> reports L C f0) f0 f1"
proof -
  have e: "\<And>x. essence x = essence f \<Longrightarrow> keeps L (R \<union> reports L C f0) f0 x"
    using keeps_same [OF assms(2)] keeps_mono by blast
  have k: "keeps L (R \<union> reports L C f0) f0 f" using e by simp
  show ?thesis
  proof (cases "GetPodForJob C job")
    case (Inl x)
    then show ?thesis using assms(1) discard_keeps [OF _ k] by (auto simp: deploy_finished_def)
  next
    case (Inr pod)
    show ?thesis
    proof (cases "isCodegenJobTerminal job")
      case (Some t)
      then show ?thesis using assms(1) Inr e by (auto simp: deploy_finished_def Let_def markCodegenJobTerminallyFailed_def)
    next
      case None
      show ?thesis
      proof (cases "decodeDeployerURL L (termination_message ''deployer'' pod)")
        case (Inl x)
        then show ?thesis using assms(1) Inr None discard_keeps [OF _ k] by (auto simp: deploy_finished_def Let_def)
      next
        case url: (Inr url)
        then have f1: "f1 = advance L C FunctionDeployed url (on_status (\<lambda>s. s\<lparr>st_URL := url\<rparr>) f)"
          using assms(1) Inr None by (auto simp: deploy_finished_def Let_def)
        have "fn_Namespace f = fn_Namespace f0" using assms(2) by (simp add: handler_ready_def identity_def)
        then have "(JobName L f, url) \<in> reports L C f0"
          using assms(4,5) Inr None url by (auto simp: reports_def)
        moreover have "JobName L f1 = JobName L f" by (simp add: f1 JobName_def fn_defs)
        moreover have "url \<noteq> []" using url by (auto simp: decodeDeployerURL_def split: sum.splits if_splits)
        ultimately show ?thesis using assms(2,3) f1
          by (auto simp: keeps_def handler_ready_def staged_def well_formed_def served_def fn_defs)
      qed
    qed
  qed
qed

lemma deploy_pass_keeps:
  assumes "deploy_pass L C r hc f = (out, f1, as)" "handler_ready L R f0 f" "st_Executable (fn_Status f) \<noteq> None"
  shows "keeps L (R \<union> reports L C f0) f0 f1"
proof -
  have e: "\<And>x. essence x = essence f \<Longrightarrow> keeps L (R \<union> reports L C f0) f0 x"
    using keeps_same [OF assms(2)] keeps_mono by blast
  show ?thesis using assms(1) e deploy_finished_keeps [OF _ assms(2,3)]
    by (auto simp: deploy_pass_def dest: deploy_found split: option.splits sum.splits prod.splits if_splits)
qed

lemma executable_available_keeps:
  assumes "handleExecutableAvailable L C r hc f = (out, f1, as)" "handler_ready L R f0 f"
    and "st_State (fn_Status f) = ExecutableAvailable"
  shows "keeps L (R \<union> reports L C f0) f0 f1"
proof -
  have x: "st_Executable (fn_Status f) \<noteq> None"
    using assms(2,3) by (simp add: handler_ready_def staged_def well_formed_def)
  have e: "\<And>x. essence x = essence f \<Longrightarrow> keeps L (R \<union> reports L C f0) f0 x"
    using keeps_same [OF assms(2)] keeps_mono by blast
  show ?thesis using assms(1) x e refuse_essence deploy_pass_keeps [OF _ assms(2)]
    by (auto simp: handleExecutableAvailable_def Let_def split: option.splits if_splits)
qed

lemma mark_essence:
  assumes "markObserved C d f = (Inr g, as)" "patch_ok C f0" "essence f = essence f0"
  shows "essence g = essence f0"
proof (cases "at_key (fn_Labels f) ObservedByLabel = ih_Name (dy_Host d)")
  case True
  then show ?thesis using assms by (simp add: markObserved_def)
next
  case False
  define f1 where "f1 = f\<lparr>fn_Labels := AList.update ObservedByLabel (ih_Name (dy_Host d)) (fn_Labels f)\<rparr>"
  have "ca_Patch C f1 = Inr g" using assms(1) False by (simp add: markObserved_def f1_def Let_def split: sum.splits)
  moreover have "essence f1 = essence f0" using assms(3) by (simp add: f1_def essence_def attribute_def)
  ultimately show ?thesis using assms(2) unfolding patch_ok_def by blast
qed

lemma observe_essence:
  assumes "Observe L C d f = (res, f1, as)" "patch_ok C f0" "essence f = essence f0"
  shows "essence f1 = essence f0"
proof -
  have l: "essence (f\<lparr>fn_Labels := ls\<rparr>) = essence f0" for ls using assms(3) by (simp add: essence_def attribute_def)
  show ?thesis using assms(1,3) l mark_essence [OF _ assms(2,3)]
    by (auto simp: Observe_def split: option.splits sum.splits prod.splits)
qed

lemma make_ready_keeps:
  assumes "keeps L R f0 f" "st_State (fn_Status f) \<in> {FunctionDeployed, Ready}"
  shows "keeps L R f0 (make_ready L C msg f)"
proof -
  have "JobName L (make_ready L C msg f) = JobName L f" by (simp add: make_ready_def JobName_def fn_defs)
  then show ?thesis using assms
    by (auto simp: keeps_def staged_def well_formed_def served_def make_ready_def fn_defs)
qed

lemma deployed_keeps:
  assumes "handleFunctionDeployed L C r hc f = (out, f1, as)" "handler_ready L R f0 f" "patch_ok C f0"
    and "st_State (fn_Status f) = FunctionDeployed"
  shows "keeps L R f0 f1"
proof -
  obtain res g bs where o: "Observe L C (deployer r hc) f = (res, g, bs)" by (cases "Observe L C (deployer r hc) f")
  have f0: "essence f = essence f0" using assms(2,4) by (simp add: handler_ready_def)
  have g: "essence g = essence f" using observe_essence [OF o assms(3) f0] f0 by simp
  then have "keeps L R f0 g" "st_State (fn_Status g) = FunctionDeployed"
    using keeps_same [OF assms(2)] assms(4) by (auto simp: essence_def)
  then show ?thesis using assms(1) o keeps_essence make_ready_keeps [of L R f0 g]
    by (auto simp: handleFunctionDeployed_def split: option.splits)
qed

lemma ready_keeps:
  assumes "handleReady L C r hc f = (out, f1, as)" "handler_ready L R f0 f" "patch_ok C f0" "st_State (fn_Status f) = Ready"
  shows "keeps L R f0 f1"
proof -
  obtain res g bs where o: "Observe L C (deployer r hc) f = (res, g, bs)" by (cases "Observe L C (deployer r hc) f")
  have f0: "essence f = essence f0" using assms(2,4) by (simp add: handler_ready_def)
  have g: "essence g = essence f" using observe_essence [OF o assms(3) f0] f0 by simp
  then have k: "keeps L R f0 g" "st_State (fn_Status g) = Ready"
    using keeps_same [OF assms(2)] assms(4) by (auto simp: essence_def)
  have "keeps L R f0 (set_state SourceAvailable f)" using keeps_building [OF assms(2)] by (simp add: fn_defs)
  then show ?thesis using assms(1) o k keeps_essence [OF k(1)] make_ready_keeps [of L R f0 g] keeps_same [OF assms(2)]
    by (auto simp: handleReady_def split: option.splits if_splits)
qed

lemma dispatch_keeps:
  assumes "dispatch L C r hc f = (out, f1, as)" "handler_ready L R f0 f" "patch_ok C f0"
  shows "keeps L (R \<union> reports L C f0) f0 f1"
proof (cases "st_State (fn_Status f)")
  case NoState
  then show ?thesis using assms(1) keeps_same [OF assms(2)] keeps_mono by (auto simp: dispatch_def)
next
  case Pending
  then show ?thesis using assms keeps_mono [OF pending_keeps] by (simp add: dispatch_def)
next
  case OpenAPIValid
  then show ?thesis using assms keeps_mono [OF openapi_keeps] by (simp add: dispatch_def)
next
  case BuildValid
  then show ?thesis using assms keeps_mono [OF build_valid_keeps] by (simp add: dispatch_def)
next
  case SourceAvailable
  then show ?thesis using assms keeps_mono [OF source_keeps] by (simp add: dispatch_def)
next
  case ExecutableAvailable
  then show ?thesis using assms executable_available_keeps by (simp add: dispatch_def)
next
  case FunctionDeployed
  then show ?thesis using assms keeps_mono [OF deployed_keeps] by (simp add: dispatch_def)
next
  case Ready
  then show ?thesis using assms keeps_mono [OF ready_keeps] by (simp add: dispatch_def)
qed

lemma begin_staged:
  assumes "st_ObservedGeneration (fn_Status f) < fn_Generation f \<or> staged L R f"
  shows "staged L R (begin_pass L C f)"
  using assms staged_early [of "begin_pass L C f" L R] staged_essence [of "begin_pass L C f" f L R]
  by (auto simp: begin_pass_def fn_defs essence_def)

lemma begin_essence: "\<not> st_ObservedGeneration (fn_Status f) < fn_Generation f \<Longrightarrow> essence (begin_pass L C f) = essence f"
  by (simp add: begin_pass_def Let_def)

lemma begin_identity [simp]: "identity (begin_pass L C f) = identity f"
  by (simp add: begin_pass_def Let_def)

lemma begin_ready:
  assumes "handler_ready L R (begin_pass L C f) g"
  shows "handler_ready L R f g"
proof (cases "st_ObservedGeneration (fn_Status f) < fn_Generation f")
  case True
  then have "st_State (fn_Status (begin_pass L C f)) = Pending" by (simp add: begin_pass_def fn_defs)
  then show ?thesis using assms by (auto simp: handler_ready_def essence_def)
next
  case False
  then show ?thesis using handler_ready_from [OF assms begin_essence] by simp
qed

lemma origin_pass_keeps:
  assumes "origin_pass L C r f = (out, f1, as)" "patch_ok C f"
    and "st_ObservedGeneration (fn_Status f) < fn_Generation f \<or> staged L R f"
  shows "keeps L (R \<union> reports L C f) f f1"
proof (cases "resolve_context L C r (begin_pass L C f)")
  case (Inl x)
  then show ?thesis using assms(1) resolve_context_refused [of L C r "begin_pass L C f"] begin_staged [OF assms(3)] keeps_mono
    by (cases x) (fastforce simp: origin_pass_def keeps_def)
next
  case (Inr y)
  then obtain hc g where y: "resolve_context L C r (begin_pass L C f) = Inr (hc, g)" by (cases y) auto
  have g: "handler_ready L R f g" by (rule begin_ready [OF resolve_context_ready [OF y begin_staged [OF assms(3)]]])
  show ?thesis
  proof (cases "image_drift C hc g")
    case (Inl e)
    then show ?thesis using assms(1) y keeps_mono [OF keeps_ready [OF g]] by (auto simp: origin_pass_def)
  next
    case (Inr f2)
    then show ?thesis using assms(1) y dispatch_keeps [OF _ drift_ready [OF g Inr] assms(2)] by (auto simp: origin_pass_def)
  qed
qed

section \<open>What a pass asks the server to change\<close>

definition own_account :: "cluster \<Rightarrow> KDexFunctionReconciler \<Rightarrow> string \<Rightarrow> string \<Rightarrow> bool" where
  "own_account C r ns sa \<longleftrightarrow>
     sa \<noteq> rc_ServiceAccount r \<and> (\<forall>labels. ca_GetServiceAccount C ns sa = Inr labels \<longrightarrow> \<not> isHostManagerServiceAccount labels)"

definition restricted_pod :: "PodSpec \<Rightarrow> bool" where
  "restricted_pod p \<longleftrightarrow>
     po_SecurityContext p = PSSRestrictedPodSecurityContext \<and>
     (\<forall>c \<in> set (po_Containers p @ po_InitContainers p). co_SecurityContext c = PSSRestrictedContainerSecurityContext)"

text \<open>What is allowed: a job is bounded, restricted and the function's own, and one with an API token runs only for a
  function that names no account of a host manager; a deleted job is finished, and was either controlled by the
  function or is the job the pass read; an image is built with the host manager's account by default and never with one
  the author names; of the observers only the function's own old one is deleted.\<close>

fun action_ok :: "kube_lib \<Rightarrow> cluster \<Rightarrow> KDexFunctionReconciler \<Rightarrow> KDexFunctionCR \<Rightarrow> action \<Rightarrow> bool" where
  "action_ok L C r f (ACreateJob j) \<longleftrightarrow>
     j_Namespace j = fn_Namespace f \<and> j_Controller j = Some (fn_UID f) \<and> js_ActiveDeadlineSeconds (j_Spec j) = Some 1800 \<and>
     js_BackoffLimit (j_Spec j) = Some 3 \<and> restricted_pod (js_Pod (j_Spec j)) \<and>
     (po_Automount (js_Pod (j_Spec j)) \<longrightarrow>
        fs_ServiceAccountName (fn_Spec f) = [] \<or> own_account C r (fn_Namespace f) (fs_ServiceAccountName (fn_Spec f)))"
| "action_ok L C r f (ADeleteJob j) \<longleftrightarrow>
     job_finished j \<and> (j_Controller j = Some (fn_UID f) \<or> (\<exists>name. ca_GetJob C (fn_Namespace f) name = Inr j))"
| "action_ok L C r f (APutImage ks) \<longleftrightarrow>
     ks_Namespace ks = fn_Namespace f \<and> ks_Name ks = fs_HostRef (fn_Spec f) @ ''-'' @ fn_Name f \<and>
     (ks_ServiceAccount ks = rc_ServiceAccount r \<or> own_account C r (fn_Namespace f) (ks_ServiceAccount ks))"
| "action_ok L C r f (ADeleteImage ns name) \<longleftrightarrow> ns = fn_Namespace f \<and> name = fs_HostRef (fn_Spec f) @ ''-'' @ fn_Name f"
| "action_ok L C r f (APatchLabels g) \<longleftrightarrow> identity g = identity f"
| "action_ok L C r f (AUpdateCronJob cj) \<longleftrightarrow> restricted_pod (js_Pod (cj_Job (cr_Spec cj)))"
| "action_ok L C r f (ACreateCronJob cj) \<longleftrightarrow> restricted_pod (js_Pod (cj_Job (cr_Spec cj)))"
| "action_ok L C r f (ADeleteCronJob ns name) \<longleftrightarrow> ns = fn_Namespace f \<and> name = fn_Name f @ ''-observer''"
| "action_ok L C r f (AUpdateStatus g) \<longleftrightarrow> True"

definition acts_ok :: "kube_lib \<Rightarrow> cluster \<Rightarrow> KDexFunctionReconciler \<Rightarrow> KDexFunctionCR \<Rightarrow> action list \<Rightarrow> bool" where
  "acts_ok L C r f as \<longleftrightarrow> (\<forall>a \<in> set as. action_ok L C r f a \<and> (\<forall>g. a \<noteq> AUpdateStatus g))"

lemma acts_ok_simps [simp]:
  "acts_ok L C r f []" "acts_ok L C r f (as @ bs) \<longleftrightarrow> acts_ok L C r f as \<and> acts_ok L C r f bs"
  by (auto simp: acts_ok_def)

lemma acts_ok_cong: "identity f = identity g \<Longrightarrow> acts_ok L C r f as \<longleftrightarrow> acts_ok L C r g as"
proof -
  assume "identity f = identity g"
  then have "action_ok L C r f a = action_ok L C r g a" for a by (cases a) (auto simp: identity_def)
  then show ?thesis by (simp add: acts_ok_def)
qed

lemma cleanup_acts: "acts_ok L C r f (snd (cleanupJobs C f app keep))"
proof -
  have "acts_ok L C r f (snd (delete_jobs C js))" if "\<forall>j \<in> set js. job_obsolete f keep j" for js
    using that
  proof (induction js)
    case (Cons j js)
    then have "acts_ok L C r f [ADeleteJob j]" by (auto simp: acts_ok_def job_obsolete_def job_finished_def)
    then show ?case using Cons by (auto simp: acts_ok_def split: option.splits kube_error.splits prod.splits)
  qed simp
  then show ?thesis by (auto simp: cleanupJobs_def split: sum.splits)
qed

lemma discard_acts:
  assumes "job_finished job" "ca_GetJob C (fn_Namespace f) name = Inr job"
  shows "acts_ok L C r f (snd (snd (discard_job L C r' job msg g)))"
  using assms by (auto simp: discard_job_def acts_ok_def)

lemma generate_found:
  assumes "GetOrCreateGenerateJob L C g res git pull url f = (Inr job, as)" "job_finished job"
  shows "ca_GetJob C (fn_Namespace f) (generate_job_name f) = Inr job \<and> as = []"
  using assms by (auto simp: GetOrCreateGenerateJob_def Let_def generate_job_def job_finished_def split: sum.splits kube_error.splits option.splits)

lemma generate_acts: "acts_ok L C r f (snd (GetOrCreateGenerateJob L C g res git pull url f))"
  by (auto simp: GetOrCreateGenerateJob_def Let_def acts_ok_def generate_job_def restricted_pod_def step_container_def
      split: sum.splits kube_error.splits option.splits)

lemma deploy_acts:
  assumes "Deploy L C d f = Some (res, as)"
    and "fs_ServiceAccountName (fn_Spec f) = [] \<or> own_account C r (fn_Namespace f) (fs_ServiceAccountName (fn_Spec f))"
  shows "acts_ok L C r f as"
  using assms by (auto simp: Deploy_def Let_def acts_ok_def deploy_job_def restricted_pod_def
      split: sum.splits kube_error.splits option.splits list.splits)

lemma source_available_acts: "snd (snd (source_available L C r f)) = []"
  by (auto simp: source_available_def split: option.splits)

lemma run_codegen_acts: "acts_ok L C r f (snd (snd (run_codegen L C r hc f)))"
proof -
  have "acts_ok L C r f (snd (snd (codegen_finished L C r hc g job f)))"
    if "job_finished job" "ca_GetJob C (fn_Namespace f) (generate_job_name f) = Inr job" for g job
    using discard_acts [OF that] source_available_acts
    by (auto simp: codegen_finished_def Let_def markCodegenJobTerminallyFailed_def split: sum.splits option.splits prod.splits)
  then have fin: "acts_ok L C r f bs" if "codegen_finished L C r hc g job f = (out, f1, bs)" "job_finished job"
    "ca_GetJob C (fn_Namespace f) (generate_job_name f) = Inr job" for out f1 bs g job
    using that by (metis snd_conv)
  have gen: "acts_ok L C r f as" if "GetOrCreateGenerateJob L C g res git pull url f = (x, as)" for g res git pull url x as
    using generate_acts [of L C r f g res git pull url] that by simp
  have cl: "acts_ok L C r f as" if "cleanupJobs C f ''codegen'' [] = (e, as)" for e as
    using cleanup_acts [of L C r f "''codegen''" "[]"] that by simp
  show ?thesis
    by (auto simp: run_codegen_def Let_def dest: gen cl fin generate_found split: option.splits prod.splits list.splits sum.splits)
qed

lemma refuse_None: "refuseHostManagerServiceAccount L C r field sa f = None \<Longrightarrow> own_account C r (fn_Namespace f) sa"
  by (auto simp: refuseHostManagerServiceAccount_def own_account_def split: if_splits sum.splits)

lemma put_image_acts:
  assumes "GetOrCreateKPackImage L C reg prefix sa source builder f = (x, as)"
    and "sa = rc_ServiceAccount r \<or> own_account C r (fn_Namespace f) sa"
  shows "acts_ok L C r f as"
  using assms by (auto simp: GetOrCreateKPackImage_def desired_image_def acts_ok_def Let_def split: option.splits)

lemma build_image_acts:
  assumes "build_image L C r hc source builder sa f = (out, f1, as)"
    and "sa = rc_ServiceAccount r \<or> own_account C r (fn_Namespace f) sa"
  shows "acts_ok L C r f as"
proof -
  define prefix where "prefix = (case rc_FunctionImagePrefix r of Some p \<Rightarrow> p | None \<Rightarrow> fs_HostRef (fn_Spec f) @ ''/'')"
  obtain x bs where g: "GetOrCreateKPackImage L C (ih_ImageRegistry (hc_host hc)) prefix sa source builder f = (x, bs)" by fastforce
  have b: "acts_ok L C r f bs" by (rule put_image_acts [OF g assms(2)])
  have d: "acts_ok L C r f [ADeleteImage (fn_Namespace f) (fs_HostRef (fn_Spec f) @ ''-'' @ fn_Name f)]" by (simp add: acts_ok_def)
  show ?thesis
  proof (cases x)
    case (Inl e)
    then show ?thesis using assms(1) g b d by (auto simp: build_image_def prefix_def [symmetric] Let_def split: if_splits)
  next
    case (Inr img)
    then show ?thesis using assms(1) g b by (auto simp: build_image_def prefix_def [symmetric] Let_def split: prod.splits)
  qed
qed

lemma source_acts: "handleSourceAvailable L C r hc f = (out, f1, as) \<Longrightarrow> acts_ok L C r f as"
  by (auto simp: handleSourceAvailable_def Let_def intro: build_image_acts dest: refuse_None split: option.splits sum.splits prod.splits if_splits)

lemma deploy_finished_acts:
  assumes "deploy_finished L C r job f = (out, f1, as)" "job_finished job" "ca_GetJob C (fn_Namespace f) name = Inr job"
  shows "acts_ok L C r f as"
proof -
  have d: "acts_ok L C r f bs" if "discard_job L C r job msg g = (o', g', bs)" for msg g o' g' bs
    using discard_acts [OF assms(2,3), of L r r msg g] that by simp
  show ?thesis using assms(1) cleanup_acts
    by (auto simp: deploy_finished_def Let_def markCodegenJobTerminallyFailed_def dest: d split: sum.splits option.splits prod.splits)
qed

lemma deploy_pass_acts:
  assumes "deploy_pass L C r hc f = (out, f1, as)"
    and "fs_ServiceAccountName (fn_Spec f) = [] \<or> own_account C r (fn_Namespace f) (fs_ServiceAccountName (fn_Spec f))"
  shows "acts_ok L C r f as"
proof -
  have cl: "acts_ok L C r f bs" if "cleanupJobs C f ''deployer'' keep = (e, bs)" for e bs keep
    using cleanup_acts [of L C r f "''deployer''" keep] that by simp
  have fin: "acts_ok L C r f xs \<and> acts_ok L C r f ys"
    if "Deploy L C d f = Some (Inr job, xs)" "job_finished job" "deploy_finished L C r job f = (o', g, ys)" for d job xs o' g ys
    using deploy_found [OF that(1,2)] deploy_finished_acts [OF that(3,2)] by auto
  show ?thesis using assms(1)
    by (auto simp: deploy_pass_def dest: cl deploy_acts [OF _ assms(2)] fin split: option.splits sum.splits prod.splits if_splits)
qed

lemma executable_acts: "handleExecutableAvailable L C r hc f = (out, f1, as) \<Longrightarrow> acts_ok L C r f as"
  by (auto simp: handleExecutableAvailable_def Let_def dest: refuse_None deploy_pass_acts split: option.splits if_splits)

lemma mark_acts:
  assumes "markObserved C d f = (x, as)"
  shows "acts_ok L C r f as"
  using assms by (auto simp: markObserved_def Let_def acts_ok_def identity_def split: if_splits)

lemma host_observer_acts: "reconcileHostObserver L C d ob = (e, as) \<Longrightarrow> acts_ok L C r f as"
  by (auto simp: reconcileHostObserver_def Let_def acts_ok_def restricted_pod_def observerCronJobSpec_def
      split: sum.splits kube_error.splits if_splits)

lemma legacy_acts: "retireLegacyObserver C d f = (e, as) \<Longrightarrow> acts_ok L C r f as"
  by (auto simp: retireLegacyObserver_def Let_def acts_ok_def split: if_splits)

lemma mark_identity:
  assumes "markObserved C d f = (Inr g, as)" "patch_same C"
  shows "identity g = identity f"
  using assms by (auto simp: markObserved_def Let_def patch_same_def identity_def split: if_splits sum.splits)

lemma observe_acts:
  assumes "Observe L C d f = (e, f1, as)" "patch_same C"
  shows "acts_ok L C r f as \<and> identity f1 = identity f"
proof (cases "fa_Observer (dy_FaaSAdaptor d)")
  case None
  then show ?thesis using assms by (simp add: Observe_def)
next
  case (Some ob)
  obtain x bs where m: "markObserved C d f = (x, bs)" by (cases "markObserved C d f")
  show ?thesis
  proof (cases x)
    case (Inl y)
    then show ?thesis using assms Some m mark_acts [OF m, of L r] by (auto simp: Observe_def identity_def)
  next
    case (Inr g)
    then have g: "identity g = identity f" using mark_identity [of C d f g bs] m assms(2) by simp
    have l: "acts_ok L C r f cs" if "retireLegacyObserver C d g = (e', cs)" for e' cs
      using legacy_acts [OF that, of L r] acts_ok_cong [OF g] by simp
    have h: "acts_ok L C r f cs" if "reconcileHostObserver L C d ob = (e', cs)" for e' cs
      by (rule host_observer_acts [OF that])
    show ?thesis using assms(1) Some m Inr g mark_acts [OF m, of L r] l h
      by (auto simp: Observe_def split: prod.splits option.splits)
  qed
qed

lemma dispatch_acts:
  assumes "dispatch L C r hc f = (out, f1, as)" "patch_same C"
  shows "acts_ok L C r f as"
proof -
  obtain e g bs where o: "Observe L C (deployer r hc) f = (e, g, bs)" by (cases "Observe L C (deployer r hc) f")
  have b: "acts_ok L C r f bs" "identity g = identity f" using observe_acts [OF o assms(2)] by auto
  have "acts_ok L C r f (snd (cleanupJobs C g app keep))" for app keep
    using cleanup_acts acts_ok_cong [OF b(2)] by blast
  then have "acts_ok L C r f as" if "st_State (fn_Status f) \<in> {FunctionDeployed, Ready}"
    using that assms(1) o b by (auto simp: dispatch_def handleFunctionDeployed_def handleReady_def split: option.splits if_splits)
  moreover have "acts_ok L C r f as" if "st_State (fn_Status f) = BuildValid"
    using that assms(1) run_codegen_acts [of L C r f hc] source_available_acts
    by (auto simp: dispatch_def handleBuildValid_def take_executable_def split: option.splits if_splits) (metis snd_conv acts_ok_simps(1))+
  moreover have "acts_ok L C r f as" if "st_State (fn_Status f) \<in> {NoState, Pending, OpenAPIValid}"
    using that assms(1)
    by (auto simp: dispatch_def handlePending_def handleOpenAPIValid_def take_executable_def Let_def split: option.splits if_splits sum.splits list.splits)
  ultimately show ?thesis using assms(1) source_acts executable_acts
    by (cases "st_State (fn_Status f)") (auto simp: dispatch_def)
qed

lemma resolve_context_identity:
  assumes "resolve_context L C r f = Inr (hc, f1)"
  shows "identity f1 = identity f"
proof -
  from assms obtain h a ss where
    "ResolveSecrets C h (note_adaptor a (set_attribute ''host.generation'' (FormatInt (ih_Generation h)) f)) = Inr (ss, f1)"
    by (auto simp: resolve_context_def Let_def split: sum.splits option.splits)
  from identity_essence [OF essence_secrets [OF this]] show ?thesis by simp
qed

lemma drift_identity: "image_drift C hc f = Inr f2 \<Longrightarrow> identity (codegen_drift L f2) = identity f"
  by (auto simp: image_drift_def codegen_drift_def split: if_splits sum.splits kube_error.splits option.splits)

lemma origin_pass_acts:
  assumes "origin_pass L C r f = (out, f1, as)" "patch_same C"
  shows "acts_ok L C r f as"
proof (cases "resolve_context L C r (begin_pass L C f)")
  case (Inl x)
  then show ?thesis using assms(1) by (cases x) (simp add: origin_pass_def)
next
  case (Inr y)
  then obtain hc g where y: "resolve_context L C r (begin_pass L C f) = Inr (hc, g)" by (cases y) auto
  show ?thesis
  proof (cases "image_drift C hc g")
    case (Inl e)
    then show ?thesis using assms(1) y by (simp add: origin_pass_def)
  next
    case (Inr f2)
    have "identity (codegen_drift L f2) = identity f" using drift_identity [OF Inr] resolve_context_identity [OF y] by simp
    moreover have "acts_ok L C r (codegen_drift L f2) as"
      by (rule dispatch_acts [OF _ assms(2)]) (use assms(1) y Inr in \<open>simp add: origin_pass_def\<close>)
    ultimately show ?thesis using acts_ok_cong by blast
  qed
qed

lemma deferred_acts:
  assumes "deferred_update C st (out, f1, as) = (out', f2, bs)"
  shows "f2 = observe_generation f1 \<and>
    (if functionStatusEqual st (fn_Status f2) then bs = as else bs = as @ [AUpdateStatus f2])"
  using assms by (auto simp: deferred_update_def observe_generation_def Let_def split: if_splits)

lemma reconcile_cases:
  obtains (skipped) "Reconcile L C r f = (Returned 0 None, f, [])"
  | (backed) svc where "fs_Backend (fn_Spec f) = Some svc" "Reconcile L C r f = reconcileServiceBacked L C r svc f"
  | (origin) out f1 as where "fs_Backend (fn_Spec f) = None" "origin_pass L C r f = (out, f1, as)"
      "Reconcile L C r f = deferred_update C (fn_Status f) (out, f1, as)"
proof -
  have "Reconcile L C r f = (Returned 0 None, f, []) \<or>
      (\<exists>svc. fs_Backend (fn_Spec f) = Some svc \<and> Reconcile L C r f = reconcileServiceBacked L C r svc f) \<or>
      fs_Backend (fn_Spec f) = None \<and> Reconcile L C r f = deferred_update C (fn_Status f) (origin_pass L C r f)"
    by (auto simp: Reconcile_def split: option.split)
  then show thesis using skipped backed origin by (metis prod_cases3)
qed

lemma update_acts: "update_if_changed C st out f = (o', f1, as) \<Longrightarrow> f1 = f \<and> set as \<subseteq> {AUpdateStatus f}"
  by (auto simp: update_if_changed_def split: if_splits)

lemma service_acts:
  assumes "reconcileServiceBacked L C r svc f = (out, f1, as)"
  shows "set as \<subseteq> {AUpdateStatus f1} \<and> (as = [] \<or> st_ObservedGeneration (fn_Status f1) = fn_Generation f)"
  using assms
  by (auto simp: reconcileServiceBacked_def markBackendUnready_def backend_resolved_def fn_defs
      dest!: update_acts split: option.splits sum.splits kube_error.splits bool.splits if_splits)

lemma reconcile_acts:
  assumes "patch_same C" "a \<in> set (snd (snd (Reconcile L C r f)))"
  shows "action_ok L C r f a"
proof (cases rule: reconcile_cases [of L C r f])
  case skipped
  then show ?thesis using assms by simp
next
  case (backed svc)
  then show ?thesis using assms service_acts [of L C r svc f] by (cases "reconcileServiceBacked L C r svc f") fastforce
next
  case (origin out f1 as)
  obtain out' f2 bs where d: "deferred_update C (fn_Status f) (out, f1, as) = (out', f2, bs)"
    by (cases "deferred_update C (fn_Status f) (out, f1, as)")
  then have "a \<in> set as \<or> a = AUpdateStatus f2" using assms(2) origin(3) deferred_acts [OF d] by (auto split: if_splits)
  then show ?thesis using origin_pass_acts [OF origin(2) assms(1)] by (auto simp: acts_ok_def)
qed

section \<open>The invariant\<close>

definition fn_inv :: "kube_lib \<Rightarrow> KDexFunctionCR \<Rightarrow> (string \<times> string) set \<Rightarrow> bool" where
  "fn_inv L f R \<longleftrightarrow>
     st_ObservedGeneration (fn_Status f) \<le> fn_Generation f \<and>
     (fs_Backend (fn_Spec f) = None \<and> st_ObservedGeneration (fn_Status f) = fn_Generation f \<longrightarrow> staged L R f)"

lemma essence_labels [simp]: "essence (f\<lparr>fn_Labels := l\<rparr>) = essence f"
  by (simp add: essence_def attribute_def)

lemma fn_inv_labels: "fn_inv L f R \<Longrightarrow> R \<subseteq> R' \<Longrightarrow> fn_inv L (f\<lparr>fn_Labels := l\<rparr>) R'"
  using staged_essence [of "f\<lparr>fn_Labels := l\<rparr>" f L R'] staged_mono by (auto simp: fn_inv_def)

lemma stored_labels:
  assumes "\<forall>a \<in> set as. \<forall>g. a \<noteq> AUpdateStatus g"
  shows "\<exists>l. fold (apply_action C) as f = f\<lparr>fn_Labels := l\<rparr>"
  using assms
proof (induction as arbitrary: f)
  case Nil
  have "f = f\<lparr>fn_Labels := fn_Labels f\<rparr>" by simp
  then show ?case by (metis fold_simps(1))
next
  case (Cons a as)
  have "\<exists>l. apply_action C a f = f\<lparr>fn_Labels := l\<rparr>"
  proof (cases a)
    case (APatchLabels g)
    then show ?thesis by (cases "ca_Patch C g") (auto intro: exI [of _ "fn_Labels f"])
  qed (use Cons.prems in \<open>auto intro: exI [of _ "fn_Labels f"]\<close>)
  then obtain l where "apply_action C a f = f\<lparr>fn_Labels := l\<rparr>" ..
  then show ?case using Cons.IH [of "f\<lparr>fn_Labels := l\<rparr>"] Cons.prems by auto
qed

lemma observe_essence_id [simp]: "essence (observe_generation f) = essence f"
  by (simp add: essence_def fn_defs)

lemma pass_inv:
  assumes "fn_inv L f R" "patch_ok C f"
  shows "fn_inv L (stored_after C f (Reconcile L C r f)) (R \<union> reports L C f)"
proof (cases rule: reconcile_cases [of L C r f])
  case skipped
  then show ?thesis using assms(1) fn_inv_labels [of L f R _ "fn_Labels f"] by (simp add: stored_after_def)
next
  case (backed svc)
  obtain out f1 as where s: "reconcileServiceBacked L C r svc f = (out, f1, as)" by (cases "reconcileServiceBacked L C r svc f")
  have "fold (apply_action C) as f = f \<or> fold (apply_action C) as f = f\<lparr>fn_Status := fn_Status f1\<rparr> \<and> as \<noteq> []"
    using service_acts [OF s] by (induction as arbitrary: rule: rev_induct) (auto simp: fold_append)
  then show ?thesis using s backed assms(1) service_acts [OF s] by (auto simp: stored_after_def fn_inv_def)
next
  case (origin out f1 as)
  obtain out' f2 bs where d: "deferred_update C (fn_Status f) (out, f1, as) = (out', f2, bs)"
    by (cases "deferred_update C (fn_Status f) (out, f1, as)")
  have as: "\<forall>a \<in> set as. \<forall>g. a \<noteq> AUpdateStatus g"
    using origin_pass_acts [OF origin(2)] assms(2) by (simp add: acts_ok_def patch_ok_def)
  obtain l where l: "fold (apply_action C) as f = f\<lparr>fn_Labels := l\<rparr>" using stored_labels [OF as] by blast
  have "st_ObservedGeneration (fn_Status f) < fn_Generation f \<or> staged L R f"
    using assms(1) origin(1) by (auto simp: fn_inv_def)
  from origin_pass_keeps [OF origin(2) assms(2) this]
  have k: "staged L (R \<union> reports L C f) f1" "identity f1 = identity f" by (auto simp: keeps_def)
  define w where "w = f\<lparr>fn_Labels := l, fn_Status := fn_Status f2\<rparr>"
  have f2: "f2 = observe_generation f1" using deferred_acts [OF d] by blast
  have "essence w = essence f1"
    using k(2) f2 by (auto simp: w_def essence_def identity_def fn_defs)
  moreover have "st_ObservedGeneration (fn_Status w) = fn_Generation w"
    using k(2) f2 by (simp add: w_def identity_def fn_defs)
  ultimately have w: "fn_inv L w (R \<union> reports L C f)"
    using staged_essence [of w f1 L "R \<union> reports L C f"] k(1) by (simp add: fn_inv_def)
  have "stored_after C f (Reconcile L C r f) \<in> {f\<lparr>fn_Labels := l\<rparr>, w}"
    using origin(3) d deferred_acts [OF d] l by (auto simp: stored_after_def w_def split: if_splits)
  then show ?thesis using w fn_inv_labels [OF assms(1), of "R \<union> reports L C f" l] by auto
qed

lemma reach_inv: "fn_reach L r f R \<Longrightarrow> fn_inv L f R"
proof (induction rule: fn_reach.induct)
  case (created f)
  then show ?case by (simp add: fn_inv_def no_status_def)
next
  case (edited f R spec)
  then show ?case by (simp add: fn_inv_def)
next
  case (relabelled f R labels)
  then show ?case using fn_inv_labels by blast
next
  case (pass f R C)
  then show ?case using pass_inv by blast
qed

section \<open>Reaching and keeping the ready state\<close>

text \<open>The condition helper of the CRD package: its result depends on the conditions up to their times, and a later setting
  replaces an earlier one.\<close>

definition condition_law :: "kube_lib \<Rightarrow> bool" where
  "condition_law L \<longleftrightarrow>
     (\<forall>t t' cs cs' s reason m. untimed cs = untimed cs' \<longrightarrow>
        untimed (kl_SetConditions L t cs s reason m) = untimed (kl_SetConditions L t' cs' s reason m)) \<and>
     (\<forall>t t' cs s reason m s' reason' m'.
        untimed (kl_SetConditions L t' (kl_SetConditions L t cs s reason m) s' reason' m') = untimed (kl_SetConditions L t' cs s' reason' m'))"

text \<open>A cluster in which everything the function needs is there and every workload succeeds: the host with a domain, an
  adaptor, the secrets, jobs that have finished with a result, images that are built and reported as the latest, the
  observer in place, and status writes accepted.\<close>

definition jobs_succeed :: "kube_lib \<Rightarrow> cluster \<Rightarrow> string \<Rightarrow> bool" where
  "jobs_succeed L C ns \<longleftrightarrow>
     (\<forall>name. \<exists>job pod url repo rev path. ca_GetJob C ns name = Inr job \<and> job_finished job \<and> isCodegenJobTerminal job = None \<and>
        GetPodForJob C job = Inr pod \<and> decodeDeployerURL L (termination_message ''deployer'' pod) = Inr url \<and>
        kl_ParseResults L (termination_message ''results'' pod) = Inr (repo, rev, path) \<and> rev \<noteq> [])"

definition images_succeed :: "cluster \<Rightarrow> string \<Rightarrow> string \<Rightarrow> bool" where
  "images_succeed C ns latest \<longleftrightarrow>
     (\<forall>ks. \<exists>img. ca_PutImage C ks = Inr img \<and> inspectKPackImageStatus img = (True, None) \<and>
        Option.bind (ki_Status img) kst_LatestImage = Some latest) \<and>
     (\<forall>name. \<exists>img. ca_GetImage C ns name = Inr img \<and> Option.bind (ki_Status img) kst_LatestImage = Some latest)"

definition account_fits :: "cluster \<Rightarrow> KDexFunctionReconciler \<Rightarrow> string \<Rightarrow> string \<Rightarrow> bool" where
  "account_fits C r ns sa \<longleftrightarrow> sa = [] \<or> own_account C r ns sa"

definition builders_fit :: "kube_lib \<Rightarrow> cluster \<Rightarrow> KDexFunctionReconciler \<Rightarrow> FaaSAdaptor \<Rightarrow> KDexFunctionCR \<Rightarrow> bool" where
  "builders_fit L C r a f \<longleftrightarrow>
     (let inline = (case o_Source (origin f) of Some s \<Rightarrow> src_Builder s | None \<Rightarrow> None)
      in \<exists>b. builderForBuild L (ad_Spec a) inline = Inr b \<and> convert_failure L b = None \<and>
             account_fits C r (fn_Namespace f) (b_ServiceAccountName b))"

definition cooperative ::
  "kube_lib \<Rightarrow> cluster \<Rightarrow> KDexFunctionReconciler \<Rightarrow> KDexInternalHost \<Rightarrow> FaaSAdaptor \<Rightarrow> KSecret list \<Rightarrow> string \<Rightarrow> KDexFunctionCR \<Rightarrow> bool" where
  "cooperative L C r h a ss latest f \<longleftrightarrow>
     fn_Namespace f = rc_ControllerNamespace r \<and> fs_HostRef (fn_Spec f) = rc_FocalHost r \<and> fs_Backend (fn_Spec f) = None \<and>
     ca_GetHost C (fn_Namespace f) (fs_HostRef (fn_Spec f)) = Inr h \<and> ih_Domains h \<noteq> [] \<and>
     (\<forall>g. fn_Namespace g = fn_Namespace f \<longrightarrow> ResolveOrDefaultFaaSAdaptor L C r h g = Inr (Some a)) \<and>
     (case ih_SecretSelector h of None \<Rightarrow> ss = [] | Some sel \<Rightarrow> \<exists>xs. ca_ListSecrets C (ih_Namespace h) sel = Inr xs \<and> ss = sort_key sec_Name xs) \<and>
     jobs_succeed L C (fn_Namespace f) \<and> images_succeed C (fn_Namespace f) latest \<and>
     (\<forall>g. identity g = identity f \<longrightarrow> (\<exists>as. Observe L C (deployer r (make_context L h a ss)) g = (None, g, as))) \<and>
     account_fits C r (fn_Namespace f) (fs_ServiceAccountName (fn_Spec f)) \<and>
     (o_Executable (origin f) = None \<longrightarrow> builders_fit L C r a f) \<and>
     (o_Executable (origin f) = None \<and> o_Source (origin f) = None \<longrightarrow>
        hc_gitSecret (make_context L h a ss) \<noteq> None \<and> (\<exists>g. resolve_generator L (make_context L h a ss) f = Inr g) \<and>
        (\<exists>bl. parseBuilderGenerator L (fa_DefaultBuilderGenerator (ad_Spec a)) = Inr bl)) \<and>
     patch_same C \<and> (\<forall>g. ca_UpdateStatus C g = None)"

text \<open>The specification asks for no code generation over a declared source, and none has been recorded.\<close>

definition declared :: "KDexFunctionCR \<Rightarrow> bool" where
  "declared f \<longleftrightarrow>
     (o_Source (origin f) \<noteq> None \<longrightarrow> \<not> sourceRegenerate (o_Source (origin f)) \<and> attribute f AttrCodegenInputAPIHash = [])"

definition one_pass :: "kube_lib \<Rightarrow> cluster \<Rightarrow> KDexFunctionReconciler \<Rightarrow> KDexFunctionCR \<Rightarrow> KDexFunctionCR" where
  "one_pass L C r f = stored_after C f (Reconcile L C r f)"

lemma gomap_equal_iff: "gomap_equal a b \<longleftrightarrow> map_of a = map_of b"
proof
  assume e: "gomap_equal a b"
  show "map_of a = map_of b"
  proof
    fix k
    have "k \<in> fst ` set a \<union> fst ` set b \<Longrightarrow> map_of a k = map_of b k"
      using e by (auto simp: gomap_equal_def list_all_iff)
    moreover have "k \<notin> fst ` set a \<union> fst ` set b \<Longrightarrow> map_of a k = map_of b k"
      by (metis UnCI map_of_eq_None_iff)
    ultimately show "map_of a k = map_of b k" by blast
  qed
qed (simp add: gomap_equal_def list_all_iff)

lemma functionStatusEqual_iff:
  "functionStatusEqual a b \<longleftrightarrow>
     map_of (st_Attributes a) = map_of (st_Attributes b) \<and> untimed (st_Conditions a) = untimed (st_Conditions b) \<and>
     st_State a = st_State b \<and> st_ObservedGeneration a = st_ObservedGeneration b \<and> st_URL a = st_URL b \<and> st_Detail a = st_Detail b \<and>
     st_OpenAPISchemaURL a = st_OpenAPISchemaURL b \<and> st_Executable a = st_Executable b \<and> st_Generator a = st_Generator b \<and>
     st_Source a = st_Source b"
  by (cases a; cases b) (auto simp: functionStatusEqual_def status_equal_def gomap_equal_iff)

text \<open>A pass whose write is accepted leaves the object as it had it in memory, up to times.\<close>

lemma one_pass_status:
  assumes "fn_Namespace f = rc_ControllerNamespace r" "fs_HostRef (fn_Spec f) = rc_FocalHost r" "fs_Backend (fn_Spec f) = None"
    and "\<forall>g. ca_UpdateStatus C g = None" "origin_pass L C r f = (out, f1, as)" "\<forall>a \<in> set as. \<forall>g. a \<noteq> AUpdateStatus g"
  shows "functionStatusEqual (fn_Status (one_pass L C r f)) (fn_Status (observe_generation f1)) \<and>
    identity (one_pass L C r f) = identity f"
proof -
  have rec: "Reconcile L C r f = deferred_update C (fn_Status f) (out, f1, as)"
    using assms(1-3,5) by (simp add: Reconcile_def)
  obtain out' f2 bs where d: "deferred_update C (fn_Status f) (out, f1, as) = (out', f2, bs)"
    by (cases "deferred_update C (fn_Status f) (out, f1, as)")
  obtain l where l: "fold (apply_action C) as f = f\<lparr>fn_Labels := l\<rparr>" using stored_labels [OF assms(6)] by blast
  have "functionStatusEqual x x" for x by (simp add: functionStatusEqual_iff)
  then show ?thesis using deferred_acts [OF d] rec d l assms(4)
    by (auto simp: one_pass_def stored_after_def identity_def split: if_splits)
qed

text \<open>The attributes every pass records.\<close>

definition recorded :: "KDexInternalHost \<Rightarrow> FaaSAdaptor \<Rightarrow> KSecret list \<Rightarrow> string gomap" where
  "recorded h a ss =
     (''host.generation'', FormatInt (ih_Generation h)) # (''faasAdaptor.generation'', FormatInt (ad_Generation a)) #
     map (\<lambda>s. (sec_Name s @ ''.secret.generation'', FormatInt (sec_Generation s))) ss"

lemma cooperativeD:
  assumes "cooperative L C r h a ss latest f"
  shows "fn_Namespace f = rc_ControllerNamespace r" "fs_HostRef (fn_Spec f) = rc_FocalHost r" "fs_Backend (fn_Spec f) = None"
    and "ca_GetHost C (fn_Namespace f) (fs_HostRef (fn_Spec f)) = Inr h" "ih_Domains h \<noteq> []"
    and "\<And>g. fn_Namespace g = fn_Namespace f \<Longrightarrow> ResolveOrDefaultFaaSAdaptor L C r h g = Inr (Some a)"
    and "case ih_SecretSelector h of None \<Rightarrow> ss = [] | Some sel \<Rightarrow> \<exists>xs. ca_ListSecrets C (ih_Namespace h) sel = Inr xs \<and> ss = sort_key sec_Name xs"
    and "jobs_succeed L C (fn_Namespace f)" "images_succeed C (fn_Namespace f) latest"
    and "\<And>g. identity g = identity f \<Longrightarrow> \<exists>as. Observe L C (deployer r (make_context L h a ss)) g = (None, g, as)"
    and "account_fits C r (fn_Namespace f) (fs_ServiceAccountName (fn_Spec f))"
    and "o_Executable (origin f) = None \<Longrightarrow> builders_fit L C r a f"
    and "o_Executable (origin f) = None \<Longrightarrow> o_Source (origin f) = None \<Longrightarrow>
      hc_gitSecret (make_context L h a ss) \<noteq> None \<and> (\<exists>g. resolve_generator L (make_context L h a ss) f = Inr g) \<and>
      (\<exists>bl. parseBuilderGenerator L (fa_DefaultBuilderGenerator (ad_Spec a)) = Inr bl)"
    and "patch_same C" "ca_UpdateStatus C x = None"
  using assms unfolding cooperative_def by blast+

lemma fold_attributes:
  "\<exists>A. fold (\<lambda>s. set_attribute (k s) (v s)) ss f = on_status (\<lambda>s. s\<lparr>st_Attributes := A\<rparr>) f \<and>
     map_of A = map_of (st_Attributes (fn_Status f)) ++ map_of (rev (map (\<lambda>s. (k s, v s)) ss))"
proof (induction ss arbitrary: f)
  case Nil
  have "f = on_status (\<lambda>s. s\<lparr>st_Attributes := st_Attributes (fn_Status f)\<rparr>) f" by (simp add: on_status_def)
  then show ?case by (intro exI [of _ "st_Attributes (fn_Status f)"]) simp
next
  case (Cons x ss)
  obtain A where A: "fold (\<lambda>s. set_attribute (k s) (v s)) ss (set_attribute (k x) (v x) f) =
      on_status (\<lambda>s. s\<lparr>st_Attributes := A\<rparr>) (set_attribute (k x) (v x) f)"
    "map_of A = map_of (st_Attributes (fn_Status (set_attribute (k x) (v x) f))) ++ map_of (rev (map (\<lambda>s. (k s, v s)) ss))"
    using Cons.IH [of "set_attribute (k x) (v x) f"] by blast
  show ?case
  proof (intro exI [of _ A] conjI)
    show "fold (\<lambda>s. set_attribute (k s) (v s)) (x # ss) f = on_status (\<lambda>s. s\<lparr>st_Attributes := A\<rparr>) f"
      by (simp only: fold_simps A(1)) (simp add: set_attribute_def on_status_def)
    show "map_of A = map_of (st_Attributes (fn_Status f)) ++ map_of (rev (map (\<lambda>s. (k s, v s)) (x # ss)))"
      using A(2) by (simp add: set_attribute_def on_status_def)
  qed
qed

definition resolved_state :: "FaaSAdaptor \<Rightarrow> KDexFunctionCR \<Rightarrow> KDexFunctionState" where
  "resolved_state a g =
     (if adaptor_of g \<noteq> [] \<and> adaptor_of g \<noteq> FormatInt (ad_Generation a) then OpenAPIValid
      else if st_ObservedGeneration (fn_Status g) < fn_Generation g then Pending else st_State (fn_Status g))"

lemma resolved:
  assumes "cooperative L C r h a ss latest f" "identity g = identity f"
  shows "\<exists>A m. resolve_context L C r (begin_pass L C g) = Inr (make_context L h a ss,
      g\<lparr>fn_Status := (fn_Status g)\<lparr>st_State := resolved_state a g, st_Attributes := A,
          st_Conditions := kl_SetConditions L (ca_now C) (st_Conditions (fn_Status g)) reconciling Reconciling m\<rparr>\<rparr>) \<and>
    map_of A = map_of (st_Attributes (fn_Status g)) ++ map_of (rev (recorded h a ss))"
proof -
  define g1 where "g1 = begin_pass L C g"
  define g2 where "g2 = set_attribute ''host.generation'' (FormatInt (ih_Generation h)) g1"
  define g3 where "g3 = note_adaptor a g2"
  have id: "identity g1 = identity f" using assms(2) by (simp add: g1_def)
  then have ns: "fn_Namespace g1 = fn_Namespace f" "fn_Namespace g2 = fn_Namespace f" "fn_Spec g1 = fn_Spec f"
    by (auto simp: identity_def g2_def set_attribute_def on_status_def)
  have host: "ResolveHost L C (rc_RequeueDelay r) g1 = Inr h"
    using cooperativeD(4) [OF assms(1)] ns by (simp add: ResolveHost_def)
  have ad: "ResolveOrDefaultFaaSAdaptor L C r h g2 = Inr (Some a)"
    using cooperativeD(6) [OF assms(1)] ns by simp
  obtain A where A: "fold (\<lambda>s. set_attribute (sec_Name s @ ''.secret.generation'') (FormatInt (sec_Generation s))) ss g3 =
      on_status (\<lambda>s. s\<lparr>st_Attributes := A\<rparr>) g3"
    "map_of A = map_of (st_Attributes (fn_Status g3)) ++
       map_of (rev (map (\<lambda>s. (sec_Name s @ ''.secret.generation'', FormatInt (sec_Generation s))) ss))"
    using fold_attributes [of "\<lambda>s. sec_Name s @ ''.secret.generation''" "\<lambda>s. FormatInt (sec_Generation s)" ss g3] by auto
  have sec: "ResolveSecrets C h g3 = Inr (ss, on_status (\<lambda>s. s\<lparr>st_Attributes := A'\<rparr>) g3)"
    if "A' = (if ih_SecretSelector h = None then st_Attributes (fn_Status g3) else A)" for A'
    using cooperativeD(7) [OF assms(1)] A(1) that by (cases "ih_SecretSelector h") (auto simp: ResolveSecrets_def on_status_def Let_def)
  define A' where "A' = (if ih_SecretSelector h = None then st_Attributes (fn_Status g3) else A)"
  have nosel: "ih_SecretSelector h = None \<Longrightarrow> ss = []" using cooperativeD(7) [OF assms(1)] by simp
  have "map_of A' = map_of (st_Attributes (fn_Status g3)) ++
       map_of (rev (map (\<lambda>s. (sec_Name s @ ''.secret.generation'', FormatInt (sec_Generation s))) ss))"
    using A(2) nosel by (auto simp: A'_def)
  moreover have "map_of (st_Attributes (fn_Status g3)) = (map_of (st_Attributes (fn_Status g)))
      (''host.generation'' \<mapsto> FormatInt (ih_Generation h), ''faasAdaptor.generation'' \<mapsto> FormatInt (ad_Generation a))"
    by (auto simp: g3_def note_adaptor_def g2_def g1_def begin_pass_def fn_defs)
  ultimately have m: "map_of A' = map_of (st_Attributes (fn_Status g)) ++ map_of (rev (recorded h a ss))"
    by (simp add: recorded_def map_add_def fun_eq_iff split: option.split)
  have "adaptor_of g2 = adaptor_of g"
    by (simp add: g2_def g1_def begin_pass_def fn_defs at_key_def)
  then have st: "g3\<lparr>fn_Status := (fn_Status g3)\<lparr>st_Attributes := A'\<rparr>\<rparr> = g\<lparr>fn_Status := (fn_Status g)\<lparr>st_State := resolved_state a g, st_Attributes := A',
          st_Conditions := kl_SetConditions L (ca_now C) (st_Conditions (fn_Status g)) reconciling Reconciling
            (state_string (if st_ObservedGeneration (fn_Status g) < fn_Generation g then Pending else st_State (fn_Status g)))\<rparr>\<rparr>"
    by (cases g) (auto simp: g3_def note_adaptor_def g2_def g1_def begin_pass_def fn_defs resolved_state_def at_key_def)
  show ?thesis
    by (rule exI [of _ A'], rule exI [of _ "state_string (if st_ObservedGeneration (fn_Status g) < fn_Generation g then Pending else st_State (fn_Status g))"])
      (use host ad sec [OF A'_def] m st in \<open>simp add: resolve_context_def g1_def [symmetric] g2_def [symmetric] g3_def [symmetric] Let_def on_status_def\<close>)
qed

lemma recorded_adaptor: "map_of (rev (recorded h a ss)) ''faasAdaptor.generation'' = Some (FormatInt (ad_Generation a))"
proof -
  have "map_of (rev (map (\<lambda>s. (sec_Name s @ ''.secret.generation'', FormatInt (sec_Generation s))) ss)) ''faasAdaptor.generation'' = None"
    using secret_key by (auto simp: map_of_eq_None_iff)
  then show ?thesis by (simp add: recorded_def map_add_def)
qed

lemma recorded_hash: "map_of (rev (recorded h a ss)) AttrCodegenInputAPIHash = None"
proof -
  have "x @ ''.secret.generation'' \<noteq> AttrCodegenInputAPIHash" for x
  proof
    assume "x @ ''.secret.generation'' = AttrCodegenInputAPIHash"
    then have "rev (x @ ''.secret.generation'') = rev AttrCodegenInputAPIHash" by simp
    then show False by simp
  qed
  then show ?thesis by (auto simp: recorded_def map_of_eq_None_iff)
qed

text \<open>What a pass works on when everything resolves.\<close>

definition resolves_to ::
  "kube_lib \<Rightarrow> cluster \<Rightarrow> KDexInternalHost \<Rightarrow> FaaSAdaptor \<Rightarrow> KSecret list \<Rightarrow> KDexFunctionCR \<Rightarrow> KDexFunctionCR \<Rightarrow> bool" where
  "resolves_to L C h a ss g G \<longleftrightarrow>
     (\<exists>A m. G = g\<lparr>fn_Status := (fn_Status g)\<lparr>st_State := resolved_state a g, st_Attributes := A,
          st_Conditions := kl_SetConditions L (ca_now C) (st_Conditions (fn_Status g)) reconciling Reconciling m\<rparr>\<rparr> \<and>
        map_of A = map_of (st_Attributes (fn_Status g)) ++ map_of (rev (recorded h a ss)))"

lemma resolves_toD:
  assumes "resolves_to L C h a ss g G"
  shows "identity G = identity g" "fn_Spec G = fn_Spec g" "fn_Namespace G = fn_Namespace g" "fn_Generation G = fn_Generation g"
    and "st_State (fn_Status G) = resolved_state a g" "st_URL (fn_Status G) = st_URL (fn_Status g)"
    and "st_Executable (fn_Status G) = st_Executable (fn_Status g)" "st_Source (fn_Status G) = st_Source (fn_Status g)"
    and "st_Generator (fn_Status G) = st_Generator (fn_Status g)" "adaptor_of G = FormatInt (ad_Generation a)"
    and "attribute G AttrCodegenInputAPIHash = attribute g AttrCodegenInputAPIHash" "origin G = origin g"
  using assms recorded_adaptor [of h a ss] recorded_hash [of h a ss]
  by (auto simp: resolves_to_def attribute_def at_key_def identity_def origin_def map_add_def)

lemma one_pass_from:
  assumes "cooperative L C r h a ss latest f" "identity g = identity f"
  obtains G where "resolves_to L C h a ss g G"
    and "\<And>out g3 as. image_drift C (make_context L h a ss) G = Inr G \<Longrightarrow> codegen_drift L G = G \<Longrightarrow>
      dispatch L C r (make_context L h a ss) G = (out, g3, as) \<Longrightarrow>
      functionStatusEqual (fn_Status (one_pass L C r g)) (fn_Status (observe_generation g3)) \<and> identity (one_pass L C r g) = identity f"
proof -
  from resolved [OF assms] obtain G where
    G: "resolve_context L C r (begin_pass L C g) = Inr (make_context L h a ss, G)" "resolves_to L C h a ss g G"
    by (auto simp: resolves_to_def)
  have g: "fn_Namespace g = rc_ControllerNamespace r" "fs_HostRef (fn_Spec g) = rc_FocalHost r" "fs_Backend (fn_Spec g) = None"
    using cooperativeD(1-3) [OF assms(1)] assms(2) by (auto simp: identity_def)
  show ?thesis
  proof (rule that [OF G(2)])
    fix out g3 as
    assume d: "image_drift C (make_context L h a ss) G = Inr G" "codegen_drift L G = G" "dispatch L C r (make_context L h a ss) G = (out, g3, as)"
    then have o: "origin_pass L C r g = (out, g3, as)" using G(1) by (simp add: origin_pass_def)
    have "\<forall>a \<in> set as. \<forall>g. a \<noteq> AUpdateStatus g"
      using origin_pass_acts [OF o cooperativeD(14) [OF assms(1)]] by (simp add: acts_ok_def)
    from one_pass_status [OF g _ o this] cooperativeD(15) [OF assms(1)] assms(2)
    show "functionStatusEqual (fn_Status (one_pass L C r g)) (fn_Status (observe_generation g3)) \<and> identity (one_pass L C r g) = identity f"
      by simp
  qed
qed

text \<open>The stages of a function on its way, with what each handler finds.\<close>

definition in_stage :: "FaaSAdaptor \<Rightarrow> string \<Rightarrow> KDexFunctionCR \<Rightarrow> KDexFunctionState set \<Rightarrow> KDexFunctionCR \<Rightarrow> bool" where
  "in_stage a latest f S g \<longleftrightarrow>
     identity g = identity f \<and> adaptor_of g = FormatInt (ad_Generation a) \<and> st_State (fn_Status g) \<in> S \<and>
     (o_Source (origin f) \<noteq> None \<longrightarrow> attribute g AttrCodegenInputAPIHash = []) \<and>
     (st_State (fn_Status g) = BuildValid \<longrightarrow>
        o_Executable (origin f) = None \<and> o_Source (origin f) = None \<and> st_Generator (fn_Status g) \<noteq> None) \<and>
     (st_State (fn_Status g) = SourceAvailable \<longrightarrow> o_Executable (origin f) = None \<and> build_source g \<noteq> None) \<and>
     (st_State (fn_Status g) \<in> {ExecutableAvailable, FunctionDeployed, Ready} \<longrightarrow>
        st_Executable (fn_Status g) \<noteq> None \<and>
        (o_Executable (origin f) = None \<longrightarrow> st_Executable (fn_Status g) = Some \<lparr>ex_Image = latest\<rparr>))"

definition at_stage :: "FaaSAdaptor \<Rightarrow> string \<Rightarrow> KDexFunctionCR \<Rightarrow> KDexFunctionState set \<Rightarrow> KDexFunctionCR \<Rightarrow> bool" where
  "at_stage a latest f S g \<longleftrightarrow> in_stage a latest f S g \<and> st_ObservedGeneration (fn_Status g) = fn_Generation g"

lemma stage_written:
  assumes "functionStatusEqual (fn_Status g) (fn_Status (observe_generation g3)) \<and> identity g = identity f" "in_stage a latest f S g3"
  shows "at_stage a latest f S g"
proof -
  have i: "identity g3 = identity f" using assms(2) by (simp add: in_stage_def)
  have "build_source g = build_source g3" "attribute g k = attribute g3 k" for k
    using assms(1) i by (auto simp: functionStatusEqual_iff build_source_def origin_def identity_def fn_defs at_key_def)
  moreover have "st_ObservedGeneration (fn_Status g) = fn_Generation g"
    using assms(1) i by (auto simp: functionStatusEqual_iff identity_def fn_defs)
  ultimately show ?thesis using assms i by (simp add: at_stage_def in_stage_def functionStatusEqual_iff observe_generation_def on_status_def)
qed

lemma resolved_state_at: "at_stage a latest f S g \<Longrightarrow> resolved_state a g = st_State (fn_Status g)"
  by (simp add: at_stage_def in_stage_def resolved_state_def)

lemma no_drift:
  assumes "cooperative L C r h a ss latest f" "resolves_to L C h a ss g G" "at_stage a latest f S g"
    and "o_Source (origin f) \<noteq> None \<longrightarrow> \<not> sourceRegenerate (o_Source (origin f))"
  shows "image_drift C (make_context L h a ss) G = Inr G \<and> codegen_drift L G = G"
proof -
  have g: "identity G = identity f" "st_State (fn_Status G) = st_State (fn_Status g)" "st_Executable (fn_Status G) = st_Executable (fn_Status g)"
    "attribute G AttrCodegenInputAPIHash = attribute g AttrCodegenInputAPIHash"
    using resolves_toD [OF assms(2)] resolved_state_at [OF assms(3)] assms(3) by (simp_all add: at_stage_def in_stage_def)
  then have og: "origin G = origin f" and ns: "fn_Namespace G = fn_Namespace f" by (auto simp: identity_def origin_def)
  have s: "st_State (fn_Status g) = Ready \<Longrightarrow> o_Executable (origin f) = None \<Longrightarrow> st_Executable (fn_Status g) = Some \<lparr>ex_Image = latest\<rparr>"
    "o_Source (origin f) \<noteq> None \<Longrightarrow> attribute g AttrCodegenInputAPIHash = []"
    using assms(3) by (auto simp: at_stage_def in_stage_def)
  obtain img where img: "ca_GetImage C (fn_Namespace f) (ih_Name (hc_host (make_context L h a ss)) @ ''-'' @ fn_Name G) = Inr img"
    "Option.bind (ki_Status img) kst_LatestImage = Some latest"
    using cooperativeD(9) [OF assms(1)] by (auto simp: images_succeed_def)
  have "image_drift C (make_context L h a ss) G = Inr G"
    using g og ns s(1) img by (auto simp: image_drift_def split: option.splits)
  moreover have "codegen_drift L G = G"
    using g og s(2) assms(4) by (auto simp: codegen_drift_def shouldSkipCodegen_def codegenInputsChanged_def Let_def)
  ultimately show ?thesis by blast
qed

lemma resolves_stage:
  assumes "resolves_to L C h a ss g G" "at_stage a latest f S g"
  shows "in_stage a latest f S G"
proof -
  have "build_source G = build_source g" using resolves_toD [OF assms(1)] by (simp add: build_source_def)
  then show ?thesis using resolves_toD [OF assms(1)] resolved_state_at [OF assms(2)] assms(2) by (simp add: at_stage_def in_stage_def)
qed

lemma pass_stage:
  assumes "cooperative L C r h a ss latest f" "declared f" "at_stage a latest f S g"
    and "\<And>G. in_stage a latest f S G \<Longrightarrow> \<exists>out g3 as. dispatch L C r (make_context L h a ss) G = (out, g3, as) \<and> in_stage a latest f S' g3"
  shows "at_stage a latest f S' (one_pass L C r g)"
proof -
  have i: "identity g = identity f" using assms(3) by (simp add: at_stage_def in_stage_def)
  obtain G where G: "resolves_to L C h a ss g G"
    "\<And>out g3 as. image_drift C (make_context L h a ss) G = Inr G \<Longrightarrow> codegen_drift L G = G \<Longrightarrow>
      dispatch L C r (make_context L h a ss) G = (out, g3, as) \<Longrightarrow>
      functionStatusEqual (fn_Status (one_pass L C r g)) (fn_Status (observe_generation g3)) \<and> identity (one_pass L C r g) = identity f"
    using one_pass_from [OF assms(1) i] by blast
  have "image_drift C (make_context L h a ss) G = Inr G \<and> codegen_drift L G = G"
    using no_drift [OF assms(1) G(1) assms(3)] assms(2) by (simp add: declared_def)
  then show ?thesis using assms(4) [OF resolves_stage [OF G(1) assms(3)]] G(2) stage_written by meson
qed

lemma in_stage_origin: "in_stage a latest f S g \<Longrightarrow> origin g = origin f"
  by (simp add: in_stage_def identity_def origin_def)

lemma dispatch_openapi:
  assumes "cooperative L C r h a ss latest f" "declared f" "in_stage a latest f {OpenAPIValid} G"
  shows "\<exists>out g3 as. dispatch L C r (make_context L h a ss) G = (out, g3, as) \<and>
    in_stage a latest f {ExecutableAvailable, SourceAvailable, BuildValid} g3"
proof -
  note og = in_stage_origin [OF assms(3)]
  have st: "st_State (fn_Status G) = OpenAPIValid" using assms(3) by (simp add: in_stage_def)
  consider (ex) ex where "o_Executable (origin f) = Some ex" | (src) s where "o_Executable (origin f) = None" "o_Source (origin f) = Some s"
    | (gen) "o_Executable (origin f) = None" "o_Source (origin f) = None" by (metis not_Some_eq)
  then show ?thesis
  proof cases
    case ex
    then show ?thesis using assms(3) og st
      by (auto simp: dispatch_def handleOpenAPIValid_def take_executable_def in_stage_def fn_defs)
  next
    case src
    have "build_source (set_state SourceAvailable G) = build_source G" by (simp add: build_source_def fn_defs origin_def)
    moreover have "build_source G \<noteq> None" using src og by (auto simp: build_source_def Let_def split: option.splits)
    moreover have "\<not> sourceRegenerate (o_Source (origin f))" using assms(2) src by (simp add: declared_def)
    ultimately show ?thesis using src assms(3) og st by (auto simp: dispatch_def handleOpenAPIValid_def in_stage_def set_state_def on_status_def attribute_def)
  next
    case gen
    then obtain g where g: "resolve_generator L (make_context L h a ss) f = Inr g" using cooperativeD(13) [OF assms(1)] by blast
    have "fn_Name G = fn_Name f" "fn_Namespace G = fn_Namespace f" using assms(3) by (auto simp: in_stage_def identity_def)
    then have "resolve_generator L (make_context L h a ss) G = Inr g" using g by (simp only: resolve_generator_def og)
    then show ?thesis using gen assms(3) og st by (auto simp: dispatch_def handleOpenAPIValid_def in_stage_def fn_defs sourceRegenerate_def)
  qed
qed

lemma dispatch_build:
  assumes "cooperative L C r h a ss latest f" "in_stage a latest f {BuildValid} G"
  shows "\<exists>out g3 as. dispatch L C r (make_context L h a ss) G = (out, g3, as) \<and> in_stage a latest f {SourceAvailable} g3"
proof -
  note og = in_stage_origin [OF assms(2)]
  have st: "st_State (fn_Status G) = BuildValid" and n: "o_Executable (origin f) = None" "o_Source (origin f) = None"
    and ns: "fn_Namespace G = fn_Namespace f" using assms(2) by (auto simp: in_stage_def identity_def)
  obtain g where g: "st_Generator (fn_Status G) = Some g" using assms(2) st by (auto simp: in_stage_def)
  obtain git bn bl where git: "hc_gitSecret (make_context L h a ss) = Some git"
    "parseBuilderGenerator L (fa_DefaultBuilderGenerator (ad_Spec a)) = Inr (bn, bl)"
    using cooperativeD(13) [OF assms(1) n] by auto
  obtain d ds where dom: "ih_Domains h = d # ds" using cooperativeD(5) [OF assms(1)] by (cases "ih_Domains h") auto
  obtain job pod repo rev path where j: "ca_GetJob C (fn_Namespace f) (generate_job_name G) = Inr job" "job_finished job"
    "isCodegenJobTerminal job = None" "GetPodForJob C job = Inr pod"
    "kl_ParseResults L (termination_message ''results'' pod) = Inr (repo, rev, path)" "rev \<noteq> []"
    using cooperativeD(8) [OF assms(1)] unfolding jobs_succeed_def by metis
  have hc: "hc_host (make_context L h a ss) = h" "hc_faas (make_context L h a ss) = ad_Spec a" by (simp_all add: make_context_def)
  define f1 where "f1 = recordCodegenInputs L (on_status (\<lambda>s. s\<lparr>st_Source :=
      Some \<lparr>src_Repository = repo, src_Revision = rev, src_Path = path, src_Builder = None, src_Regenerate = None\<rparr>\<rparr>) G)"
  define x where "x = (case source_builder (ad_Spec a) bn bl (g_Language g) of None \<Rightarrow> f1
      | Some b \<Rightarrow> on_status (\<lambda>s. s\<lparr>st_Source := map_option (src_Builder_update (\<lambda>_. Some b)) (st_Source s)\<rparr>) f1)"
  have "st_Source (fn_Status f1) = Some \<lparr>src_Repository = repo, src_Revision = rev, src_Path = path, src_Builder = None, src_Regenerate = None\<rparr>"
    by (simp add: f1_def recordCodegenInputs_def fn_defs split: option.split)
  then have "\<exists>s. st_Source (fn_Status x) = Some s \<and> src_Revision s \<noteq> []" using j(6)
    by (auto simp: x_def on_status_def split: option.split)
  moreover have "essence x = essence G" by (simp add: x_def f1_def split: option.split)
  moreover have "codegen_finished L C r (make_context L h a ss) g job G = source_available L C r x"
    using j git(2) hc 
    by (cases "source_builder (ad_Spec a) bn bl (g_Language g)") (simp_all add: codegen_finished_def Let_def x_def f1_def)
  ultimately obtain s where x: "codegen_finished L C r (make_context L h a ss) g job G = source_available L C r x"
    "st_Source (fn_Status x) = Some s" "src_Revision s \<noteq> []" "essence x = essence G" by blast
  have d: "dispatch L C r (make_context L h a ss) G = source_available L C r x"
    using st og n git g dom hc j ns x(1)
    by (auto simp: dispatch_def handleBuildValid_def shouldSkipCodegen_def run_codegen_def GetOrCreateGenerateJob_def)
  show ?thesis using d x assms(2) n
    by (auto simp: source_available_def in_stage_def essence_def identity_def build_source_def fn_defs origin_def)
qed

lemma dispatch_source:
  assumes "cooperative L C r h a ss latest f" "in_stage a latest f {SourceAvailable} G"
  shows "\<exists>out g3 as. dispatch L C r (make_context L h a ss) G = (out, g3, as) \<and> in_stage a latest f {ExecutableAvailable} g3"
proof -
  note og = in_stage_origin [OF assms(2)]
  have st: "st_State (fn_Status G) = SourceAvailable" and n: "o_Executable (origin f) = None"
    and ns: "fn_Namespace G = fn_Namespace f" "identity G = identity f" using assms(2) by (auto simp: in_stage_def identity_def)
  obtain source where s: "build_source G = Some source" using assms(2) st by (auto simp: in_stage_def)
  have inl: "src_Builder source = (case o_Source (origin f) of Some s \<Rightarrow> src_Builder s | None \<Rightarrow> None)"
    using s og by (auto simp: build_source_def Let_def split: option.splits if_splits)
  obtain b where b: "builderForBuild L (ad_Spec a) (src_Builder source) = Inr b" "convert_failure L b = None"
    "account_fits C r (fn_Namespace f) (b_ServiceAccountName b)"
    using cooperativeD(12) [OF assms(1) n] inl by (auto simp: builders_fit_def Let_def)
  have hc: "hc_faas (make_context L h a ss) = ad_Spec a" by (simp add: make_context_def)
  have img: "\<exists>as. build_image L C r (make_context L h a ss) source b sa G =
      (Returned 0 None, snd (executable_available L C \<lparr>ex_Image = latest\<rparr> (set_attribute ''image.tags'' t G)), as)"
    if "t = image_tags (projr (ca_PutImage C (desired_image (ih_ImageRegistry (hc_host (make_context L h a ss)))
        (case rc_FunctionImagePrefix r of Some p \<Rightarrow> p | None \<Rightarrow> fs_HostRef (fn_Spec G) @ ''/'') sa source b G)))" for sa t
  proof -
    define ks where "ks = desired_image (ih_ImageRegistry (hc_host (make_context L h a ss)))
        (case rc_FunctionImagePrefix r of Some p \<Rightarrow> p | None \<Rightarrow> fs_HostRef (fn_Spec G) @ ''/'') sa source b G"
    obtain i where "ca_PutImage C ks = Inr i" "inspectKPackImageStatus i = (True, None)" "Option.bind (ki_Status i) kst_LatestImage = Some latest"
      using cooperativeD(9) [OF assms(1)] unfolding images_succeed_def by blast
    then show ?thesis using that b(2)
      by (simp add: build_image_def GetOrCreateKPackImage_def image_result_def ks_def executable_available_def Let_def)
  qed
  have ref: "refuseHostManagerServiceAccount L C r field (b_ServiceAccountName b) G = None" if "b_ServiceAccountName b \<noteq> []" for field
    using b(3) that ns by (auto simp: account_fits_def own_account_def refuseHostManagerServiceAccount_def split: sum.splits)
  have "\<exists>as t. dispatch L C r (make_context L h a ss) G =
      (Returned 0 None, snd (executable_available L C \<lparr>ex_Image = latest\<rparr> (set_attribute ''image.tags'' t G)), as)"
    using st og n s b(1) hc ref img by (cases "b_ServiceAccountName b = []") (fastforce simp: dispatch_def handleSourceAvailable_def)+
  then show ?thesis using assms(2) n
    by (auto simp: executable_available_def in_stage_def fn_defs at_key_def)
qed

lemma dispatch_executable:
  assumes "cooperative L C r h a ss latest f" "in_stage a latest f {ExecutableAvailable} G"
  shows "\<exists>out g3 as. dispatch L C r (make_context L h a ss) G = (out, g3, as) \<and> in_stage a latest f {FunctionDeployed} g3"
proof -
  have st: "st_State (fn_Status G) = ExecutableAvailable" "st_Executable (fn_Status G) \<noteq> None"
    and ns: "fn_Namespace G = fn_Namespace f" "fn_Spec G = fn_Spec f" using assms(2) by (auto simp: in_stage_def identity_def)
  obtain ex where ex: "st_Executable (fn_Status G) = Some ex" using st by auto
  obtain job pod url where j: "ca_GetJob C (fn_Namespace f) (JobName L G) = Inr job" "job_finished job"
    "isCodegenJobTerminal job = None" "GetPodForJob C job = Inr pod" "decodeDeployerURL L (termination_message ''deployer'' pod) = Inr url"
    using cooperativeD(8) [OF assms(1)] unfolding jobs_succeed_def by metis
  have "deploy_pass L C r (make_context L h a ss) G = (Returned 0 None, advance L C FunctionDeployed url (on_status (\<lambda>s. s\<lparr>st_URL := url\<rparr>) G), [])"
    using j ex ns by (simp add: deploy_pass_def Deploy_def deploy_finished_def Let_def)
  moreover have "refuseHostManagerServiceAccount L C r field (fs_ServiceAccountName (fn_Spec G)) G = None"
    if "fs_ServiceAccountName (fn_Spec G) \<noteq> []" for field
    using cooperativeD(11) [OF assms(1)] that ns by (auto simp: account_fits_def own_account_def refuseHostManagerServiceAccount_def split: sum.splits)
  ultimately have "dispatch L C r (make_context L h a ss) G =
      (Returned 0 None, advance L C FunctionDeployed url (on_status (\<lambda>s. s\<lparr>st_URL := url\<rparr>) G), [])"
    using st ex by (simp add: dispatch_def handleExecutableAvailable_def Let_def)
  then show ?thesis using assms(2) by (auto simp: in_stage_def fn_defs)
qed

lemma dispatch_deployed:
  assumes "cooperative L C r h a ss latest f" "in_stage a latest f {FunctionDeployed} G"
  shows "\<exists>out g3 as. dispatch L C r (make_context L h a ss) G = (out, g3, as) \<and> in_stage a latest f {Ready} g3"
proof -
  have "identity G = identity f" "st_State (fn_Status G) = FunctionDeployed" using assms(2) by (auto simp: in_stage_def)
  then obtain as where "dispatch L C r (make_context L h a ss) G = (Returned (rc_RequeueDelay r) None, make_ready L C (ready_detail G) G, as)"
    using cooperativeD(10) [OF assms(1)] by (fastforce simp: dispatch_def handleFunctionDeployed_def)
  then show ?thesis using assms(2) by (auto simp: in_stage_def make_ready_def fn_defs)
qed

text \<open>At the ready state the source of the status is filled in first, if the specification declares one.\<close>

abbreviation healed :: "KDexFunctionCR \<Rightarrow> bool" where
  "healed g \<equiv> o_Source (origin g) = None \<or> st_Source (fn_Status g) \<noteq> None"

lemma dispatch_ready:
  assumes "cooperative L C r h a ss latest f" "in_stage a latest f {Ready} G"
  shows "\<exists>out as. dispatch L C r (make_context L h a ss) G =
    (out, if healed G then make_ready L C ''Function is ready'' G else on_status (\<lambda>s. s\<lparr>st_Source := o_Source (origin G)\<rparr>) G, as)"
proof -
  have "identity G = identity f" "st_State (fn_Status G) = Ready" "st_Executable (fn_Status G) \<noteq> None"
    using assms(2) by (auto simp: in_stage_def)
  then show ?thesis using cooperativeD(10) [OF assms(1)] by (fastforce simp: dispatch_def handleReady_def)
qed

lemma ready_stays:
  assumes "cooperative L C r h a ss latest f" "declared f" "at_stage a latest f {Ready} g"
  shows "at_stage a latest f {Ready} (one_pass L C r g)"
proof (rule pass_stage [OF assms])
  fix G assume G: "in_stage a latest f {Ready} G"
  have "in_stage a latest f {Ready} (make_ready L C m G)" "in_stage a latest f {Ready} (on_status (\<lambda>s. s\<lparr>st_Source := u\<rparr>) G)" for m u
    using G by (auto simp: in_stage_def make_ready_def fn_defs)
  then show "\<exists>out g3 as. dispatch L C r (make_context L h a ss) G = (out, g3, as) \<and> in_stage a latest f {Ready} g3"
    using dispatch_ready [OF assms(1) G] by (auto split: if_splits)
qed

text \<open>What a pass at the ready state writes.\<close>

lemma ready_pass:
  assumes "cooperative L C r h a ss latest f" "declared f" "at_stage a latest f {Ready} g"
  obtains G where "resolves_to L C h a ss g G"
    "functionStatusEqual (fn_Status (one_pass L C r g)) (fn_Status (observe_generation
       (if healed G then make_ready L C ''Function is ready'' G else on_status (\<lambda>s. s\<lparr>st_Source := o_Source (origin G)\<rparr>) G)))"
proof -
  have i: "identity g = identity f" using assms(3) by (simp add: at_stage_def in_stage_def)
  obtain G where G: "resolves_to L C h a ss g G"
    "\<And>out g3 as. image_drift C (make_context L h a ss) G = Inr G \<Longrightarrow> codegen_drift L G = G \<Longrightarrow>
      dispatch L C r (make_context L h a ss) G = (out, g3, as) \<Longrightarrow>
      functionStatusEqual (fn_Status (one_pass L C r g)) (fn_Status (observe_generation g3)) \<and> identity (one_pass L C r g) = identity f"
    using one_pass_from [OF assms(1) i] by blast
  have "image_drift C (make_context L h a ss) G = Inr G \<and> codegen_drift L G = G"
    using no_drift [OF assms(1) G(1) assms(3)] assms(2) by (simp add: declared_def)
  then show ?thesis using G dispatch_ready [OF assms(1) resolves_stage [OF G(1) assms(3)]] that by blast
qed

lemma ready_heals:
  assumes "cooperative L C r h a ss latest f" "declared f" "at_stage a latest f {Ready} g"
  shows "healed (one_pass L C r g)"
proof -
  obtain G where G: "resolves_to L C h a ss g G"
    "functionStatusEqual (fn_Status (one_pass L C r g)) (fn_Status (observe_generation
       (if healed G then make_ready L C ''Function is ready'' G else on_status (\<lambda>s. s\<lparr>st_Source := o_Source (origin G)\<rparr>) G)))"
    using ready_pass [OF assms] .
  have "origin G = origin (one_pass L C r g)"
    using ready_stays [OF assms] assms(3) resolves_toD(2) [OF G(1)] by (simp add: at_stage_def in_stage_def identity_def origin_def)
  then show ?thesis using G(2) by (auto simp: functionStatusEqual_iff make_ready_def fn_defs split: if_splits)
qed

text \<open>A healed function settles: what one pass writes, the next finds.\<close>

lemma settled_status:
  assumes "condition_law L" "cooperative L C r h a ss latest f" "declared f" "at_stage a latest f {Ready} g" "healed g"
    and "resolves_to L C h a ss (one_pass L C r g) G'"
  shows "functionStatusEqual (fn_Status (one_pass L C r g)) (fn_Status (observe_generation (make_ready L C ''Function is ready'' G')))"
proof -
  obtain G where G: "resolves_to L C h a ss g G"
    "functionStatusEqual (fn_Status (one_pass L C r g)) (fn_Status (observe_generation
       (if healed G then make_ready L C ''Function is ready'' G else on_status (\<lambda>s. s\<lparr>st_Source := o_Source (origin G)\<rparr>) G)))"
    using ready_pass [OF assms(2-4)] .
  let ?p = "one_pass L C r g"
  have h: "healed G" using assms(5) resolves_toD [OF G(1)] by simp
  have p: "functionStatusEqual (fn_Status ?p) (fn_Status (observe_generation (make_ready L C ''Function is ready'' G)))"
    using G(2) h by simp
  have st: "at_stage a latest f {Ready} ?p" by (rule ready_stays [OF assms(2-4)])
  have sp: "fn_Spec ?p = fn_Spec g" "fn_Generation ?p = fn_Generation g"
    using st assms(4) by (auto simp: at_stage_def in_stage_def identity_def)
  from G(1) obtain A m where A: "G = g\<lparr>fn_Status := (fn_Status g)\<lparr>st_State := resolved_state a g, st_Attributes := A,
      st_Conditions := kl_SetConditions L (ca_now C) (st_Conditions (fn_Status g)) reconciling Reconciling m\<rparr>\<rparr>"
    "map_of A = map_of (st_Attributes (fn_Status g)) ++ map_of (rev (recorded h a ss))" unfolding resolves_to_def by blast
  from assms(6) obtain A' m' where A': "G' = ?p\<lparr>fn_Status := (fn_Status ?p)\<lparr>st_State := resolved_state a ?p, st_Attributes := A',
      st_Conditions := kl_SetConditions L (ca_now C) (st_Conditions (fn_Status ?p)) reconciling Reconciling m'\<rparr>\<rparr>"
    "map_of A' = map_of (st_Attributes (fn_Status ?p)) ++ map_of (rev (recorded h a ss))" unfolding resolves_to_def by blast
  have s: "map_of (st_Attributes (fn_Status ?p)) = map_of A" "st_URL (fn_Status ?p) = st_URL (fn_Status g)"
    "st_Detail (fn_Status ?p) = ''Ready: '' @ st_URL (fn_Status g) @ api_BasePath (fs_API (fn_Spec g))"
    "st_ObservedGeneration (fn_Status ?p) = fn_Generation g" "st_State (fn_Status ?p) = Ready"
    "untimed (st_Conditions (fn_Status ?p)) = untimed (kl_SetConditions L (ca_now C) (st_Conditions (fn_Status G)) all_ready ReconcileSuccess ''Function is ready'')"
    using p by (auto simp: functionStatusEqual_iff make_ready_def ready_detail_def fn_defs A(1))
  have "m1 ++ m2 ++ m2 = m1 ++ m2" for m1 m2 :: "string \<rightharpoonup> string" by (auto simp: map_add_def fun_eq_iff split: option.split)
  then have attr: "map_of A' = map_of A" using A(2) A'(2) s(1) by simp
  have law: "untimed (kl_SetConditions L t' (kl_SetConditions L t cs x y z) x' y' z') = untimed (kl_SetConditions L t' cs x' y' z')"
    for t t' cs x y z x' y' z' using assms(1) by (simp add: condition_law_def)
  have cong: "untimed cs = untimed cs' \<Longrightarrow> untimed (kl_SetConditions L t cs x y z) = untimed (kl_SetConditions L t' cs' x y z)"
    for t t' cs cs' x y z using assms(1) unfolding condition_law_def by blast
  have "untimed (kl_SetConditions L (ca_now C) (st_Conditions (fn_Status G')) all_ready ReconcileSuccess ''Function is ready'') =
      untimed (kl_SetConditions L (ca_now C) (st_Conditions (fn_Status ?p)) all_ready ReconcileSuccess ''Function is ready'')"
    by (simp add: A'(1) law)
  also have "\<dots> = untimed (st_Conditions (fn_Status ?p))"
    using cong [OF s(6), of "ca_now C" all_ready ReconcileSuccess "''Function is ready''" "ca_now C"] s(6) by (simp add: law)
  finally have cond: "untimed (st_Conditions (fn_Status ?p)) =
      untimed (kl_SetConditions L (ca_now C) (st_Conditions (fn_Status G')) all_ready ReconcileSuccess ''Function is ready'')" by simp
  show ?thesis using s(1-5) attr cond sp
    by (simp add: functionStatusEqual_iff make_ready_def ready_detail_def fn_defs) (simp add: A'(1))
qed

lemma start_pass:
  assumes "cooperative L C r h a ss latest f" "declared f" "st_ObservedGeneration (fn_Status f) < fn_Generation f"
  shows "at_stage a latest f {OpenAPIValid} (one_pass L C r f) \<or>
    at_stage a latest f {ExecutableAvailable, SourceAvailable, BuildValid} (one_pass L C r f)"
proof -
  obtain G where G: "resolves_to L C h a ss f G"
    "\<And>out g3 as. image_drift C (make_context L h a ss) G = Inr G \<Longrightarrow> codegen_drift L G = G \<Longrightarrow>
      dispatch L C r (make_context L h a ss) G = (out, g3, as) \<Longrightarrow>
      functionStatusEqual (fn_Status (one_pass L C r f)) (fn_Status (observe_generation g3)) \<and> identity (one_pass L C r f) = identity f"
    using one_pass_from [OF assms(1) refl] by blast
  note D = resolves_toD [OF G(1)]
  have st: "st_State (fn_Status G) \<in> {Pending, OpenAPIValid}" using D(5) assms(3) by (simp add: resolved_state_def)
  obtain img where "ca_GetImage C (fn_Namespace f) (ih_Name (hc_host (make_context L h a ss)) @ ''-'' @ fn_Name G) = Inr img"
    using cooperativeD(9) [OF assms(1)] by (auto simp: images_succeed_def)
  then have drift: "image_drift C (make_context L h a ss) G = Inr G" "codegen_drift L G = G"
    using st D(3) by (auto simp: image_drift_def codegen_drift_def split: option.splits)
  have src: "o_Source (origin f) \<noteq> None \<longrightarrow> attribute G AttrCodegenInputAPIHash = []" using assms(2) D(11) by (simp add: declared_def)
  show ?thesis
  proof (cases "st_State (fn_Status G) = OpenAPIValid")
    case True
    then have "in_stage a latest f {OpenAPIValid} G" using D src by (simp add: in_stage_def)
    from dispatch_openapi [OF assms(1,2) this] G(2) [OF drift] stage_written show ?thesis by meson
  next
    case False
    then have p: "st_State (fn_Status G) = Pending" using st by simp
    obtain d ds where dom: "ih_Domains h = d # ds" using cooperativeD(5) [OF assms(1)] by (cases "ih_Domains h") auto
    have "\<exists>out g3 as. dispatch L C r (make_context L h a ss) G = (out, g3, as) \<and> in_stage a latest f {OpenAPIValid} g3"
      using p D src dom by (auto simp: dispatch_def handlePending_def make_context_def in_stage_def fn_defs)
    then show ?thesis using G(2) [OF drift] stage_written by meson
  qed
qed

text \<open>Each stage leads to the next within one pass.\<close>

definition within :: "nat \<Rightarrow> ('a \<Rightarrow> 'a) \<Rightarrow> ('a \<Rightarrow> bool) \<Rightarrow> 'a \<Rightarrow> bool" where
  "within n step P x \<longleftrightarrow> (\<exists>m \<le> n. P ((step ^^ m) x))"

lemma within_now: "P x \<Longrightarrow> within n step P x"
  unfolding within_def by (metis funpow_0 le0)

lemma within_Suc: "within n step P (step x) \<Longrightarrow> within (Suc n) step P x"
  unfolding within_def by (metis Suc_le_mono comp_apply funpow_Suc_right)

lemma reaches_ready:
  assumes "cooperative L C r h a ss latest f" "declared f" "st_ObservedGeneration (fn_Status f) < fn_Generation f"
  shows "within 6 (one_pass L C r) (at_stage a latest f {Ready}) f"
proof -
  let ?to = "\<lambda>n. within n (one_pass L C r) (at_stage a latest f {Ready})"
  note to = pass_stage [OF assms(1,2)] dispatch_openapi [OF assms(1,2)] dispatch_build [OF assms(1)]
    dispatch_source [OF assms(1)] dispatch_executable [OF assms(1)] dispatch_deployed [OF assms(1)]
  have fd: "?to 1 g" if "at_stage a latest f {FunctionDeployed} g" for g
    using to(1) [OF that to(6)] within_Suc [of 0] within_now [of _ _ 0] by fastforce
  have ea: "?to 2 g" if "at_stage a latest f {ExecutableAvailable} g" for g
    using fd [OF to(1) [OF that to(5)]] within_Suc by (fastforce simp: numeral_2_eq_2)
  have sa: "?to 3 g" if "at_stage a latest f {SourceAvailable} g" for g
    using ea [OF to(1) [OF that to(4)]] within_Suc by (fastforce simp: numeral_3_eq_3 numeral_2_eq_2)
  have bv: "?to 4 g" if "at_stage a latest f {BuildValid} g" for g
    using within_Suc [OF sa [OF to(1) [OF that to(3)]]] by simp
  have mono: "?to m g \<Longrightarrow> m \<le> n \<Longrightarrow> ?to n g" for m n g unfolding within_def by (meson le_trans)
  have mid: "?to 4 g" if "at_stage a latest f {ExecutableAvailable, SourceAvailable, BuildValid} g" for g
  proof -
    have "at_stage a latest f {ExecutableAvailable} g \<or> at_stage a latest f {SourceAvailable} g \<or> at_stage a latest f {BuildValid} g"
      using that by (auto simp: at_stage_def in_stage_def)
    then show ?thesis using mono [OF ea] mono [OF sa] bv by auto
  qed
  have oav: "?to 5 g" if "at_stage a latest f {OpenAPIValid} g" for g
    using within_Suc [OF mid [OF to(1) [OF that to(2)]]] by simp
  have "?to 5 (one_pass L C r f)" using start_pass [OF assms] oav mono [OF mid] by auto
  from within_Suc [OF this] show ?thesis by simp
qed

text \<open>From a healed ready state on, no pass writes.\<close>

lemma settles:
  assumes "condition_law L" "cooperative L C r h a ss latest f" "declared f" "at_stage a latest f {Ready} g" "healed g"
  shows "AUpdateStatus x \<notin> set (snd (snd (Reconcile L C r (one_pass L C r g))))"
proof -
  let ?p = "one_pass L C r g"
  have p: "at_stage a latest f {Ready} ?p" "healed ?p" using ready_stays [OF assms(2-4)] ready_heals [OF assms(2-4)] by auto
  have i: "identity ?p = identity f" using p by (simp add: at_stage_def in_stage_def)
  obtain G where G: "resolve_context L C r (begin_pass L C ?p) = Inr (make_context L h a ss, G)" "resolves_to L C h a ss ?p G"
    using resolved [OF assms(2) i] by (auto simp: resolves_to_def)
  have "image_drift C (make_context L h a ss) G = Inr G \<and> codegen_drift L G = G"
    using no_drift [OF assms(2) G(2) p(1)] assms(3) by (simp add: declared_def)
  moreover have "healed G" using p(2) resolves_toD [OF G(2)] by simp
  ultimately obtain out as where o: "origin_pass L C r ?p = (out, make_ready L C ''Function is ready'' G, as)"
    using dispatch_ready [OF assms(2) resolves_stage [OF G(2) p(1)]] G(1) by (auto simp: origin_pass_def)
  have as: "\<forall>a \<in> set as. \<forall>g. a \<noteq> AUpdateStatus g"
    using origin_pass_acts [OF o cooperativeD(14) [OF assms(2)]] by (simp add: acts_ok_def)
  have "fn_Namespace ?p = rc_ControllerNamespace r" "fs_HostRef (fn_Spec ?p) = rc_FocalHost r" "fs_Backend (fn_Spec ?p) = None"
    using cooperativeD(1-3) [OF assms(2)] i by (auto simp: identity_def)
  then have "Reconcile L C r ?p = deferred_update C (fn_Status ?p) (out, make_ready L C ''Function is ready'' G, as)"
    using o by (simp add: Reconcile_def)
  then show ?thesis using settled_status [OF assms G(2)] as
    by (auto simp: deferred_update_def observe_generation_def Let_def)
qed


section \<open>Properties of the life of a function\<close>




text \<open>The variables and tolerations of a merged builder.\<close>

lemma find_put_env: "find (\<lambda>e. ev_Name e = n) (put_env xs e) = (if ev_Name e = n then Some e else find (\<lambda>e. ev_Name e = n) xs)"
  by (induction xs) auto

lemma find_merge_env:
  "find (\<lambda>e. ev_Name e = n) (merge_env base inline) =
     (case find (\<lambda>e. ev_Name e = n) (rev inline) of Some e \<Rightarrow> Some e | None \<Rightarrow> find (\<lambda>e. ev_Name e = n) base)"
proof (induction inline rule: rev_induct)
  case (snoc e inline)
  then show ?case by (simp add: merge_env_def find_put_env)
qed (simp add: merge_env_def)

lemma set_merge_tolerations: "set (merge_tolerations base inline) = set base \<union> set inline"
proof (induction inline rule: rev_induct)
  case (snoc t inline)
  then show ?case by (auto simp: merge_tolerations_def list_ex_iff same_toleration_def)
qed (simp add: merge_tolerations_def)

lemma map_of_mergeResourceList: "map_of (mergeResourceList base inline) = map_of base ++ map_of inline"
  by (simp add: mergeResourceList_def)


section \<open>Behaviours worth knowing\<close>

text \<open>A function that was generated, then backed by a Service, then given a source has recorded inputs and no generator:
  its BuildValid pass dereferences nil.\<close>

lemma generator_lost_panics:
  assumes "o_Executable (origin f) = None" "\<not> shouldSkipCodegen L f" "st_Generator (fn_Status f) = None" "hc_gitSecret hc \<noteq> None"
  shows "fst (handleBuildValid L C r hc f) = Panicked"
  using assms by (auto simp: handleBuildValid_def run_codegen_def split: option.splits)

lemma backend_drops_generator:
  "fst (snd (backend_resolved L C svc ns port f)) = f' \<Longrightarrow>
     st_Generator (fn_Status f') = None \<and> st_Attributes (fn_Status f') = st_Attributes (fn_Status f)"
  by (auto simp: backend_resolved_def update_if_changed_def fn_defs split: if_splits)

text \<open>The revision of the status wins over every later edit of the source, also when it was only copied from the
  specification; the builder recorded for a generated source is not used.\<close>

lemma source_pinned:
  "st_Source (fn_Status f) = Some p \<Longrightarrow> src_Revision p \<noteq> [] \<Longrightarrow> build_source f = Some s \<Longrightarrow>
     src_Repository s = src_Repository p \<and> src_Revision s = src_Revision p \<and> src_Path s = src_Path p \<and>
     src_Builder s = Option.bind (o_Source (origin f)) src_Builder"
  by (auto simp: build_source_def Let_def split: option.splits)

text \<open>A finished generation job is used again by a later generator of the same generation.\<close>

lemma generation_reused:
  "ca_GetJob C (fn_Namespace f) (generate_job_name f) = Inr job \<Longrightarrow>
     GetOrCreateGenerateJob L C g res git pull url f = GetOrCreateGenerateJob L C g' res' git' pull' url' f"
  by (simp add: GetOrCreateGenerateJob_def)

text \<open>A job of the expected name is taken for the function's own, whoever controls it.\<close>

lemma foreign_job_adopted:
  "st_Executable (fn_Status f) \<noteq> None \<Longrightarrow> ca_GetJob C (fn_Namespace f) (JobName L f) = Inr (job\<lparr>j_Controller := other\<rparr>) \<Longrightarrow>
     Deploy L C d f = Some (Inr (job\<lparr>j_Controller := other\<rparr>), [])"
  by (auto simp: Deploy_def)

text \<open>Tolerations with seconds are never recognised as the same.\<close>

lemma toleration_duplicated: "tol_Seconds t = Some n \<Longrightarrow> merge_tolerations [t] [t] = [t, t]"
  by (simp add: merge_tolerations_def same_toleration_def)

text \<open>An account that cannot be read is admitted.\<close>

lemma unread_account_admitted:
  "sa \<noteq> rc_ServiceAccount r \<Longrightarrow> ca_GetServiceAccount C (fn_Namespace f) sa = Inl e \<Longrightarrow>
     refuseHostManagerServiceAccount L C r field sa f = None"
  by (simp add: refuseHostManagerServiceAccount_def)

text \<open>The old observer of a function named like another host is that host's observer.\<close>

lemma other_observer_retired:
  "fn_Name f = other \<Longrightarrow> other \<noteq> ih_Name (dy_Host d) \<Longrightarrow>
     ADeleteCronJob (fn_Namespace f) (HostObserverName other) \<in> set (snd (retireLegacyObserver C d f))"
  by (simp add: retireLegacyObserver_def HostObserverName_def Let_def)

text \<open>An edit that lands inside the label patch is marked as observed without having been looked at.\<close>

lemma edit_lost_in_patch:
  assumes "ca_Patch C (f\<lparr>fn_Labels := AList.update ObservedByLabel (ih_Name (dy_Host d)) (fn_Labels f)\<rparr>) = Inr h"
    and "at_key (fn_Labels f) ObservedByLabel \<noteq> ih_Name (dy_Host d)" "fa_Observer (dy_FaaSAdaptor d) = Some ob" "d = deployer r hc"
    and "fst (reconcileHostObserver L C d ob) = None" "fst (retireLegacyObserver C d h) = None"
  shows "\<exists>as. handleFunctionDeployed L C r hc f = (Returned (rc_RequeueDelay r) None, make_ready L C (ready_detail h) h, as) \<and>
    fn_Spec (make_ready L C (ready_detail h) h) = fn_Spec h \<and> st_State (fn_Status (make_ready L C (ready_detail h) h)) = Ready"
  using assms by (auto simp: handleFunctionDeployed_def Observe_def markObserved_def make_ready_def fn_defs split: prod.splits)

section \<open>A cluster for the witnesses\<close>

definition demo_conditions :: "instant \<Rightarrow> condition list \<Rightarrow> ConditionStatuses \<Rightarrow> string \<Rightarrow> string \<Rightarrow> condition list" where
  "demo_conditions t cs s reason m =
     map (\<lambda>(ty, st). \<lparr>cd_Type = ty, cd_Status = st, cd_Reason = reason, cd_Message = m, cd_LastTransitionTime = t\<rparr>)
       [(''Degraded'', cs_Degraded s), (''Progressing'', cs_Progressing s), (''Ready'', cs_Ready s)]"

definition demo_kube :: kube_lib where
  "demo_kube = \<lparr>kl_SetConditions = demo_conditions,
     kl_SetStatusCondition = (\<lambda>t cs ty st reason m. \<lparr>cd_Type = ty, cd_Status = st, cd_Reason = reason, cd_Message = m, cd_LastTransitionTime = t\<rparr> #
       filter (\<lambda>c. cd_Type c \<noteq> ty) cs),
     kl_RemoveStatusCondition = (\<lambda>cs ty. filter (\<lambda>c. cd_Type c \<noteq> ty) cs),
     kl_IsStatusConditionTrue = (\<lambda>cs ty. list_ex (\<lambda>c. cd_Type c = ty \<and> cd_Status c = CTrue) cs),
     kl_MarshalAPI = (\<lambda>api. Some (api_BasePath api)), kl_Sha256Hex = (\<lambda>s. ''0f1e2d3c4b''),
     kl_ParseResults = (\<lambda>s. Inr (''https://git/repo'', ''5ha'', ''fn'')), kl_ParseURL = (\<lambda>s. Inr ''http://fn''),
     kl_DurationString = (\<lambda>d. ''1s''), kl_Quote = (\<lambda>s. s),
     kl_MarshalTolerations = (\<lambda>ts. Inr ''[]''), kl_MarshalSelector = (\<lambda>m. Inr ''{}''), kl_MarshalVolumes = (\<lambda>v. Inr ''[]''),
     kl_MarshalEnv = (\<lambda>e. Inr ''[]''), kl_MarshalFunction = (\<lambda>f. Inr ''spec''), kl_OpenAPI = (\<lambda>u f. Inr ''{}''),
     kl_ConvertToleration = (\<lambda>t. None), kl_ConvertResources = (\<lambda>q. None), kl_SortSecrets = (\<lambda>ss. ss)\<rparr>"

definition demo_deployer :: DeployerSpec where
  "demo_deployer = \<lparr>dp_Args = [], dp_Command = [], dp_Env = [], dp_Image = ''deployer'', dp_Tolerations = [], dp_NodeSelector = [],
     dp_JobTolerations = [], dp_JobNodeSelector = []\<rparr>"

definition demo_builder :: Builder where
  "demo_builder = \<lparr>b_Name = ''go'', b_BuilderRef = \<lparr>or_Kind = ''ClusterBuilder'', or_Name = ''go'', or_Namespace = []\<rparr>,
     b_Languages = [''go''], b_ServiceAccountName = ''build'', b_Cache = None,
     b_Tolerations = [\<lparr>tol_Key = ''spot'', tol_Operator = ''Exists'', tol_Value = [], tol_Effect = ''NoSchedule'', tol_Seconds = None\<rparr>],
     b_NodeSelector = [(''arch'', ''arm64'')], b_Env = [], b_Resources = None\<rparr>"

definition demo_generator :: Generator where
  "demo_generator = \<lparr>g_Language = ''go'', g_Image = ''gen'', g_Entrypoint = [], g_Args = [], g_Command = [], g_CommitterEmail = [],
     g_CommitterName = [], g_FunctionSubDirectory = [], g_GitImage = ''git''\<rparr>"

definition demo_adaptor :: FaaSAdaptor where
  "demo_adaptor = \<lparr>ad_Name = ''knative'', ad_Generation = 4, ad_Created = 0, ad_Conditions = [],
     ad_Spec = \<lparr>fa_DefaultBuilderGenerator = ''go/go'', fa_Builders = [demo_builder], fa_Generators = [demo_generator],
       fa_Deployer = demo_deployer, fa_Observer = None\<rparr>\<rparr>"

definition demo_ihost :: KDexInternalHost where
  "demo_ihost = \<lparr>ih_Name = ''h'', ih_Namespace = ''ns'', ih_Generation = 2, ih_Scheme = ''https'', ih_Domains = [''h.example''],
     ih_FaaSAdaptorRef = None, ih_SecretSelector = Some ''kdex'', ih_ImageRegistry = ''reg'', ih_TokenPrefix = None\<rparr>"

definition demo_secrets :: "KSecret list" where
  "demo_secrets = [\<lparr>sec_Name = ''git'', sec_Generation = 1, sec_Annotations = [(''kdex.dev/secret-type'', ''git'')], sec_Type = ''Opaque''\<rparr>]"

definition demo_pod_spec :: PodSpec where
  "demo_pod_spec = \<lparr>po_Automount = False, po_SecurityContext = PSSRestrictedPodSecurityContext, po_Containers = [], po_InitContainers = [],
     po_ImagePullSecrets = [], po_NodeSelector = [], po_RestartPolicy = ''Never'', po_ServiceAccountName = [], po_Tolerations = [], po_Volumes = []\<rparr>"

definition demo_job :: Job where
  "demo_job = \<lparr>j_Name = ''job'', j_Namespace = ''ns'', j_Labels = [], j_Annotations = [], j_Controller = Some ''u1'', j_Succeeded = 1, j_Failed = 0,
     j_Conditions = [], j_Spec = \<lparr>js_ActiveDeadlineSeconds = None, js_BackoffLimit = None, js_Completions = 1, js_Parallelism = None,
       js_TTLSecondsAfterFinished = None, js_Annotations = [], js_Pod = demo_pod_spec\<rparr>\<rparr>"

definition demo_image :: KImage where
  "demo_image = \<lparr>ki_Namespace = ''ns'', ki_Name = ''h-fn'', ki_Generation = 1,
     ki_Status = Some \<lparr>kst_Conditions = Some [Some (''Ready'', ''True'', [])], kst_ObservedGeneration = Some 1, kst_LatestImage = Some ''reg/fn''\<rparr>,
     ki_Tag = None, ki_AdditionalTags = None\<rparr>"

definition demo_kcluster :: cluster where
  "demo_kcluster = \<lparr>ca_now = 7, ca_GetHost = (\<lambda>ns n. Inr demo_ihost), ca_KnownKind = (\<lambda>k. True), ca_GetAdaptor = (\<lambda>k ns n. Inr demo_adaptor),
     ca_DefaultAdaptors = Inr [demo_adaptor], ca_ListSecrets = (\<lambda>ns sel. Inr demo_secrets), ca_GetImage = (\<lambda>ns n. Inr demo_image),
     ca_PutImage = (\<lambda>ks. Inr demo_image), ca_DeleteImage = (\<lambda>ns n. None), ca_GetService = (\<lambda>ns n. Inl (NotFound [])),
     ca_ListEndpoints = (\<lambda>ns n. Inr []), ca_GetJob = (\<lambda>ns n. Inr demo_job), ca_CreateJob = (\<lambda>j. None), ca_DeleteJob = (\<lambda>j. None),
     ca_ListJobs = (\<lambda>ns app fn. Inr [demo_job]), ca_ListPods = (\<lambda>ns n. Inr [\<lparr>pd_Annotations = [], pd_Statuses = []\<rparr>]),
     ca_GetServiceAccount = (\<lambda>ns n. Inr []), ca_Patch = Inr, ca_GetCronJob = (\<lambda>ns n. Inl (NotFound [])), ca_UpdateCronJob = (\<lambda>cj. None),
     ca_CreateCronJob = (\<lambda>cj. None), ca_DeleteCronJob = (\<lambda>ns n. None), ca_UpdateStatus = (\<lambda>f. None)\<rparr>"

definition demo_rc :: KDexFunctionReconciler where
  "demo_rc = \<lparr>rc_ControllerNamespace = ''ns'', rc_FocalHost = ''h'', rc_FunctionImagePrefix = None, rc_RequeueDelay = second, rc_TokenPrefix = [],
     rc_CodegenResources = \<lparr>rr_Requests = [], rr_Limits = [], rr_Claims = []\<rparr>, rc_ReferenceNamespaces = [], rc_ServiceAccount = ''host-manager''\<rparr>"

definition demo_fn :: "Executable option \<Rightarrow> KDexFunctionCR" where
  "demo_fn ex = \<lparr>fn_Name = ''fn'', fn_Namespace = ''ns'', fn_UID = ''u1'', fn_Generation = 1, fn_Labels = [],
     fn_Spec = \<lparr>fs_HostRef = ''h'', fs_Backend = None, fs_Origin = \<lparr>o_Executable = ex, o_Source = None, o_Generator = None\<rparr>,
       fs_API = \<lparr>api_BasePath = ''/fn'', api_Rest = []\<rparr>, fs_ServiceAccountName = [], fs_Tolerations = [], fs_NodeSelector = [],
       fs_Volumes = [], fs_VolumeMounts = [], fs_Internal = False, fs_Env = [], fs_Scaling = None\<rparr>,
     fn_Status = no_status\<rparr>"

lemmas demo_defs = demo_kube_def demo_kcluster_def demo_rc_def demo_fn_def demo_adaptor_def demo_ihost_def demo_secrets_def
  demo_job_def demo_image_def demo_builder_def demo_generator_def demo_deployer_def

lemma demo_condition_law: "condition_law demo_kube"
  by (simp add: condition_law_def demo_kube_def demo_conditions_def untimed_def)

lemma demo_jobs: "jobs_succeed demo_kube demo_kcluster ns"
  by (auto simp: jobs_succeed_def demo_kcluster_def demo_kube_def demo_job_def job_finished_def isCodegenJobTerminal_def GetPodForJob_def
      decodeDeployerURL_def termination_message_def)

lemma demo_images: "images_succeed demo_kcluster ns ''reg/fn''"
  by (auto simp: images_succeed_def demo_kcluster_def demo_image_def inspectKPackImageStatus_def image_condition_def)

lemma demo_builders: "builders_fit demo_kube demo_kcluster demo_rc demo_adaptor (demo_fn None)"
  by (simp add: builders_fit_def demo_defs origin_def builderForBuild_def resolveDefaultBuilder_def parseBuilderGenerator_def
      convert_failure_def account_fits_def own_account_def isHostManagerServiceAccount_def at_key_def HasPrefix_def)

lemma demo_cooperative: "cooperative demo_kube demo_kcluster demo_rc demo_ihost demo_adaptor demo_secrets ''reg/fn'' (demo_fn None)"
proof -
  have "ResolveOrDefaultFaaSAdaptor demo_kube demo_kcluster demo_rc demo_ihost g = Inr (Some demo_adaptor)" for g
    by (simp add: ResolveOrDefaultFaaSAdaptor_def demo_ihost_def demo_kcluster_def oldest_adaptor_def)
  moreover have "Observe demo_kube demo_kcluster (deployer demo_rc (make_context demo_kube demo_ihost demo_adaptor demo_secrets)) g = (None, g, [])" for g
    by (simp add: Observe_def deployer_def make_context_def demo_adaptor_def)
  moreover have "hc_gitSecret (make_context demo_kube demo_ihost demo_adaptor demo_secrets) \<noteq> None"
    by (simp add: make_context_def demo_secrets_def demo_kube_def at_key_def)
  moreover have "\<exists>g. resolve_generator demo_kube (make_context demo_kube demo_ihost demo_adaptor demo_secrets) (demo_fn None) = Inr g"
    by (simp add: resolve_generator_def make_context_def demo_defs origin_def parseBuilderGenerator_def)
  moreover have "\<exists>bl. parseBuilderGenerator demo_kube (fa_DefaultBuilderGenerator (ad_Spec demo_adaptor)) = Inr bl"
    by (simp add: parseBuilderGenerator_def demo_adaptor_def)
  moreover have "patch_same demo_kcluster" by (simp add: patch_same_def demo_kcluster_def)
  ultimately show ?thesis using demo_jobs demo_images demo_builders
    unfolding cooperative_def by (auto simp: demo_fn_def demo_rc_def demo_ihost_def demo_kcluster_def demo_secrets_def account_fits_def)
qed


text \<open>The function after a number of passes in this cluster.\<close>

abbreviation demo_passes :: "nat \<Rightarrow> KDexFunctionCR" where
  "demo_passes n \<equiv> (one_pass demo_kube demo_kcluster demo_rc ^^ n) (demo_fn None)"

definition demo_reports :: "nat \<Rightarrow> (string \<times> string) set" where
  "demo_reports n = (if n = 0 then {} else UNIV \<times> {''http://fn''})"

lemma demo_reported: "reports demo_kube demo_kcluster f = UNIV \<times> {''http://fn''}"
  by (auto simp: reports_def demo_kcluster_def demo_kube_def demo_job_def job_finished_def isCodegenJobTerminal_def GetPodForJob_def
      decodeDeployerURL_def termination_message_def)

lemma demo_fn_reach: "fn_reach demo_kube demo_rc (demo_passes n) (demo_reports n)"
proof (induction n)
  case 0
  show ?case by (auto simp: demo_fn_def demo_reports_def no_status_def intro: fn_reach.created)
next
  case (Suc n)
  have "patch_ok demo_kcluster f" for f by (simp add: patch_ok_def patch_same_def demo_kcluster_def)
  moreover have "demo_reports (Suc n) = demo_reports n \<union> reports demo_kube demo_kcluster (demo_passes n)"
    by (auto simp: demo_reports_def demo_reported)
  ultimately have "fn_reach demo_kube demo_rc (stored_after demo_kcluster (demo_passes n) (Reconcile demo_kube demo_kcluster demo_rc (demo_passes n)))
      (demo_reports (Suc n))" using fn_reach.pass [OF Suc, of demo_kcluster] by simp
  then show ?case by (simp add: one_pass_def [symmetric])
qed

lemma one_pass_spec: "fn_Spec (one_pass L C r f) = fn_Spec f \<and> fn_Generation (one_pass L C r f) = fn_Generation f"
proof -
  have "fn_Spec (apply_action C a f) = fn_Spec f \<and> fn_Generation (apply_action C a f) = fn_Generation f" for a f
    by (cases a) (auto split: sum.splits)
  then have "fn_Spec (fold (apply_action C) as f) = fn_Spec f \<and> fn_Generation (fold (apply_action C) as f) = fn_Generation f" for as
    by (induction as arbitrary: f) auto
  then show ?thesis by (simp add: one_pass_def stored_after_def)
qed

lemma demo_spec: "fs_Backend (fn_Spec (demo_passes n)) = None \<and> fn_Generation (demo_passes n) = 1"
  by (induction n) (simp_all add: one_pass_spec, simp add: demo_fn_def)

lemma demo_ready:
  "\<exists>n \<le> 8. st_State (fn_Status (demo_passes n)) = Ready \<and> st_ObservedGeneration (fn_Status (demo_passes n)) = fn_Generation (demo_passes n)"
proof -
  have "within 6 (one_pass demo_kube demo_kcluster demo_rc) (at_stage demo_adaptor ''reg/fn'' (demo_fn None) {Ready}) (demo_fn None)"
    by (rule reaches_ready [OF demo_cooperative]) (simp_all add: declared_def demo_fn_def origin_def no_status_def)
  then obtain n where "n \<le> 6" "at_stage demo_adaptor ''reg/fn'' (demo_fn None) {Ready} (demo_passes n)" by (auto simp: within_def)
  then show ?thesis by (intro exI [of _ n]) (auto simp: at_stage_def in_stage_def)
qed



text \<open>A ready function, and the finished job of an older generation that its pass sweeps.\<close>

definition demo_served :: KDexFunctionCR where
  "demo_served = (demo_fn None)\<lparr>fn_Status := no_status\<lparr>st_State := Ready, st_ObservedGeneration := 1,
     st_Executable := Some \<lparr>ex_Image = ''reg/fn''\<rparr>, st_URL := ''http://fn'', st_Attributes := [(''faasAdaptor.generation'', FormatInt 4)]\<rparr>\<rparr>"

lemma demo_sweeps: "ADeleteJob demo_job \<in> set (snd (snd (Reconcile demo_kube demo_kcluster demo_rc demo_served)))"
proof -
  let ?hc = "make_context demo_kube demo_ihost demo_adaptor demo_secrets"
  have c: "cleanupJobs demo_kcluster g app keep = (None, [ADeleteJob demo_job])" if "fn_UID g = ''u1''" "fn_Generation g = 1" for g app keep
    using that by (simp add: cleanupJobs_def demo_kcluster_def demo_job_def job_obsolete_def at_key_def FormatInt_not_Nil [symmetric])
  have o: "Observe demo_kube demo_kcluster (deployer demo_rc ?hc) g = (None, g, [])" for g
    by (simp add: Observe_def deployer_def make_context_def demo_adaptor_def)
  have st: "resolved_state demo_adaptor demo_served = Ready"
    by (simp add: resolved_state_def demo_served_def demo_fn_def demo_adaptor_def attribute_def at_key_def no_status_def)
  obtain A m where "resolve_context demo_kube demo_kcluster demo_rc (begin_pass demo_kube demo_kcluster demo_served) = Inr (?hc,
      demo_served\<lparr>fn_Status := (fn_Status demo_served)\<lparr>st_State := Ready, st_Attributes := A,
        st_Conditions := kl_SetConditions demo_kube (ca_now demo_kcluster) (st_Conditions (fn_Status demo_served)) reconciling Reconciling m\<rparr>\<rparr>)"
    using resolved [OF demo_cooperative, of demo_served] st by (auto simp: identity_def demo_served_def)
  then have "ADeleteJob demo_job \<in> set (snd (snd (origin_pass demo_kube demo_kcluster demo_rc demo_served)))"
    by (simp add: origin_pass_def image_drift_def codegen_drift_def dispatch_def handleReady_def o c demo_served_def demo_fn_def origin_def no_status_def)
  then show ?thesis
    by (auto simp: Reconcile_def deferred_update_def demo_served_def demo_fn_def demo_rc_def Let_def split: prod.splits)
qed



end
