(* ===== verification/TokenEndpoints.thy ===== *)
theory TokenEndpoints
  imports Capabilities
begin

text \<open>
  The API-token endpoints (\<open>src/internal/host/apitoken.go\<close>): minting a token for oneself or for another subject,
  verifying one, revoking by token, by metadata or a whole subject, and the published keys. They compose the token
  manager (\<open>ApiToken\<close>), the authorization checker (\<open>Authorization\<close>), the veto (\<open>SubjectKind\<close>) and the live
  lookup of a subject's claims (\<open>Mint\<close>).

  A handler first decides an answer, then writes it. The decoded body is an argument, as are the JSON encoder,
  \<open>time.ParseDuration\<close> and Base64; an operation reads the clock once. The routes exist only with a token manager.
\<close>

section \<open>Requests and answers\<close>

definition apitokenVerbImpersonate :: string where "apitokenVerbImpersonate = ''impersonate''"
definition apitokenVerbRevokeAny :: string where "apitokenVerbRevokeAny = ''revoke-any''"
definition provisionedMintScope :: string where "provisionedMintScope = ''apitokens_impersonate_provisioned''"
definition provisionedByClaim :: string where "provisionedByClaim = ''provisioned_by''"
definition SiteAPITokenMint :: string where "SiteAPITokenMint = ''apitokens mint''"
definition SiteAPITokenVerify :: string where "SiteAPITokenVerify = ''apitokens verify''"

record MintRequest =
  mq_Action :: string
  mq_Audience :: string
  mq_Scope :: string
  mq_Sub :: string
  mq_TTL :: string

record RevokeRequest =
  rv_Action :: string
  rv_All :: bool
  rv_Audience :: string
  rv_Sub :: string
  rv_TTL :: string
  rv_Token :: string

datatype apitoken_answer =
    AnsText nat string        \<comment> \<open>\<open>http.Error\<close>\<close>
  | AnsRetry nat string       \<comment> \<open>the same, after setting \<open>Retry-After\<close>\<close>
  | AnsDenied Outcome
  | AnsMinted string
  | AnsVerified TokenData
  | AnsRevoked

record ('e, 'c, 'x, 'r, 'l) token_host =
  th_mint :: "'r mint_env"
  th_legacy :: "'l cache_ops option"
  th_checker :: "('e, 'c) AuthorizationChecker"
  th_exchange :: "'x exchange"
  th_audience :: string
  th_ParseDuration :: "string \<Rightarrow> duration option"
  th_DurationString :: "duration \<Rightarrow> string"
  th_Base64 :: "string \<Rightarrow> string"
  th_EncodeToken :: "string \<Rightarrow> string"
  th_EncodeData :: "TokenData \<Rightarrow> string"
  th_EncodeKeys :: "string gomap list \<Rightarrow> string option \<Rightarrow> string"

abbreviation th_kinds :: "('e, 'c, 'x, 'r, 'l) token_host \<Rightarrow> kind_lib" where
  "th_kinds E \<equiv> x_kinds (th_exchange E)"

abbreviation th_ex :: "('e, 'c, 'x, 'r, 'l) token_host \<Rightarrow> Exchanger option" where
  "th_ex E \<equiv> Some (x_ex (th_exchange E))"

text \<open>The subject of the request's auth context; without one there is nobody to act for.\<close>

definition requesting_subject :: "('e, 'c, 'x, 'r, 'l) token_host \<Rightarrow> mapclaims option \<Rightarrow> (mapclaims \<times> string) option" where
  "requesting_subject E ctx =
     (case ctx of
        None \<Rightarrow> None
      | Some ac \<Rightarrow>
          (case lib_GetSubject (x_lib (th_exchange E)) ac of
             Inl _ \<Rightarrow> None
           | Inr sub \<Rightarrow> if sub = [] then None else Some (ac, sub)))"

text \<open>The check of a verb on a subject's tokens, and the answer to one refused.\<close>

definition may :: "('e, 'c, 'x, 'r, 'l) token_host \<Rightarrow> mapclaims \<Rightarrow> string \<Rightarrow> string \<Rightarrow> goerror + bool" where
  "may E ac target verb =
     CheckAccess (th_checker E) (Some ac) ''apitokens'' target [[(''bearer'', [''apitokens:'' @ verb])]] [verb]"

definition refusal :: "('e, 'c, 'x, 'r, 'l) token_host \<Rightarrow> mapclaims \<Rightarrow> string \<Rightarrow> string \<Rightarrow> apitoken_answer" where
  "refusal E ac target verb =
     AnsDenied (Classify (x_lib (th_exchange E)) (Some ac) (Some (th_checker E)) (GetParsedEntitlements (th_checker E) (Some ac))
       ''apitokens'' target [verb])"

section \<open>Minting\<close>

datatype provisionedVerdict = notProvisioned | provisionedByCaller | provisionedUnknown

definition checkProvisioned :: "('e, 'c, 'x, 'r, 'l) token_host \<Rightarrow> mapclaims \<Rightarrow> string \<Rightarrow> string \<Rightarrow> provisionedVerdict" where
  "checkProvisioned E ac caller target =
     (case ClientCredentialsSubject ac of (client, ok) \<Rightarrow>
        if \<not> ok \<or> client \<noteq> caller then notProvisioned
        else if \<not> HoldsScope (th_checker E) (Some ac) provisionedMintScope \<or> \<not> IsConfiguredClient (th_ex E) caller \<or>
           NamesClient (th_ex E) target
        then notProvisioned
        else case ResolveSubjectClaimsLive (th_exchange E) target of
               Inl _ \<Rightarrow> provisionedUnknown
             | Inr claims \<Rightarrow> if claim_string claims provisionedByClaim = caller then provisionedByCaller else notProvisioned)"

definition mint_verb :: "string \<Rightarrow> string \<Rightarrow> string" where
  "mint_verb subject requestingSub = (if subject \<noteq> requestingSub then apitokenVerbImpersonate else ''mint'')"

text \<open>The authorization of a mint: \<open>None\<close> when it may go on. Only a denied impersonation consults the provisioned path.\<close>

definition mint_refused :: "('e, 'c, 'x, 'r, 'l) token_host \<Rightarrow> mapclaims \<Rightarrow> string \<Rightarrow> string \<Rightarrow> apitoken_answer option" where
  "mint_refused E ac requestingSub subject =
     (let verb = mint_verb subject requestingSub in
      case may E ac subject verb of
        Inl _ \<Rightarrow> Some (refusal E ac subject verb)
      | Inr True \<Rightarrow> None
      | Inr False \<Rightarrow>
          if verb = apitokenVerbImpersonate
          then (case checkProvisioned E ac requestingSub subject of
                  provisionedByCaller \<Rightarrow> None
                | provisionedUnknown \<Rightarrow> Some (AnsRetry 503 ''the subject's provisioning could not be checked'')
                | notProvisioned \<Rightarrow> Some (refusal E ac subject verb))
          else Some (refusal E ac subject verb))"

definition mint_ttl :: "('e, 'c, 'x, 'r, 'l) token_host \<Rightarrow> TokenManager \<Rightarrow> string \<Rightarrow> duration option" where
  "mint_ttl E tm ttl =
     (if ttl = [] then Some (CapTTL tm (24 * hour))
      else case th_ParseDuration E ttl of None \<Rightarrow> None | Some d \<Rightarrow> if d \<le> 0 then None else Some d)"

text \<open>The kind the token records: the caller's own, or the classified one of another subject unless the veto refuses it.\<close>

definition mint_kind :: "('e, 'c, 'x, 'r, 'l) token_host \<Rightarrow> instant \<Rightarrow> mapclaims \<Rightarrow> string \<Rightarrow> string \<Rightarrow> string option" where
  "mint_kind E now ac requestingSub subject =
     (if subject = requestingSub then Some (ContextSubjectKind (th_kinds E) (th_ex E) ac)
      else let kind = SubjectKindOf (th_kinds E) (th_ex E) subject
           in if VetoCredential (th_kinds E) (th_ex E) subject kind (Unix now) SiteAPITokenMint \<noteq> None then None else Some kind)"

definition mint_key ::
  "('e, 'c, 'x, 'r, 'l) token_host \<Rightarrow> TokenManager \<Rightarrow> instant \<Rightarrow> mapclaims \<Rightarrow> string \<Rightarrow> MintRequest \<Rightarrow> apitoken_answer" where
  "mint_key E tm now ac requestingSub req =
     (case mint_ttl E tm (mq_TTL req) of
        None \<Rightarrow> AnsText 400 ''ttl must be a positive Go duration such as 2160h''
      | Some ttl \<Rightarrow>
          (case mint_kind E now ac requestingSub (mq_Sub req) of
             None \<Rightarrow> AnsText 400 ''sub cannot hold an API token on this host: current config refuses its kind''
           | Some kind \<Rightarrow>
               (case MintStatelessKey (mn_paseto (th_mint E)) (th_kinds E) tm now (mq_Audience req) (mq_Sub req) kind
                       (mq_Action req) (mq_Scope req) ttl of
                  Inl e \<Rightarrow> if errors_Is e ErrTTLExceedsMax then AnsText 400 (err_msg e) else AnsText 500 ''Failed to mint token''
                | Inr token \<Rightarrow> AnsMinted token)))"

definition apitoken_mint ::
  "('e, 'c, 'x, 'r, 'l) token_host \<Rightarrow> instant \<Rightarrow> string \<Rightarrow> MintRequest option \<Rightarrow> mapclaims option \<Rightarrow> 'r \<Rightarrow> apitoken_answer \<times> 'r" where
  "apitoken_mint E now method decoded ctx rs =
     (if method \<noteq> ''POST'' then (AnsText 405 ''Method not allowed'', rs)
      else case requesting_subject E ctx of
        None \<Rightarrow> (AnsDenied Unauthenticated, rs)
      | Some (ac, requestingSub) \<Rightarrow>
          (case decoded of
             None \<Rightarrow> (AnsText 400 ''Failed to decode request body'', rs)
           | Some req \<Rightarrow>
               if mq_Audience req = [] then (AnsText 400 ''aud is required'', rs)
               else if mq_Sub req = [] then (AnsText 400 ''sub is required'', rs)
               else case mint_refused E ac requestingSub (mq_Sub req) of
                 Some ans \<Rightarrow> (ans, rs)
               | None \<Rightarrow>
                   (case mn_tokens (th_mint E) of
                      None \<Rightarrow> (AnsText 501 ''Token manager not configured'', rs)
                    | Some (tm, _) \<Rightarrow>
                        if mq_Sub req = requestingSub
                        then (case mintFromRevokedCredential (th_mint E) (x_lib (th_exchange E)) now ac rs of
                                (Some status, rs') \<Rightarrow> (AnsText status (StatusText status), rs')
                              | (None, rs') \<Rightarrow> (mint_key E tm now ac requestingSub req, rs'))
                        else (mint_key E tm now ac requestingSub req, rs))))"

section \<open>Verifying\<close>

definition apitoken_verify ::
  "('e, 'c, 'x, 'r, 'l) token_host \<Rightarrow> instant \<Rightarrow> string \<Rightarrow> string option \<Rightarrow> 'r \<times> 'l \<Rightarrow> apitoken_answer \<times> 'r \<times> 'l" where
  "apitoken_verify E now method decoded sl =
     (if method \<noteq> ''POST'' then (AnsText 405 ''Method not allowed'', sl)
      else case decoded of
        None \<Rightarrow> (AnsText 400 ''Invalid request body'', sl)
      | Some token \<Rightarrow>
          (case mn_tokens (th_mint E) of
             None \<Rightarrow> (AnsText 500 ''Token manager not configured'', sl)
           | Some (tm, store) \<Rightarrow>
               (let tokenString = (case CutPrefix token ''Bearer '' of (after, ok) \<Rightarrow> if ok then after else token)
                in case ValidateToken (mn_paseto (th_mint E)) tm store (th_legacy E) now tokenString (th_audience E) sl of
                     (Inl _, sl') \<Rightarrow> (AnsText 401 ''Invalid token'', sl')
                   | (Inr data, sl') \<Rightarrow>
                       if VetoPAT (th_kinds E) (x_ex (th_exchange E)) data SiteAPITokenVerify \<noteq> None
                       then (AnsText 401 ''Invalid token'', sl') else (AnsVerified data, sl'))))"

section \<open>Revoking\<close>

text \<open>Whose tokens the request names. A token is inspected for any audience.\<close>

definition revoke_target ::
  "('e, 'c, 'x, 'r, 'l) token_host \<Rightarrow> TokenManager \<Rightarrow> 'r cache_ops option \<Rightarrow> instant \<Rightarrow> RevokeRequest \<Rightarrow> 'r \<times> 'l \<Rightarrow>
   (apitoken_answer + string) \<times> 'r \<times> 'l" where
  "revoke_target E tm store now req sl =
     (if rv_All req
      then (if rv_Sub req = [] \<or> rv_Audience req \<noteq> [] \<or> rv_Action req \<noteq> [] \<or> rv_Token req \<noteq> []
            then (Inl (AnsText 400 ''all takes sub, and none of aud, act or token: it revokes every audience''), sl)
            else (Inr (rv_Sub req), sl))
      else if rv_Token req \<noteq> []
      then (case ValidateToken (mn_paseto (th_mint E)) tm store (th_legacy E) now (rv_Token req) [] sl of
              (Inl _, sl') \<Rightarrow> (Inl (AnsText 400 ''Invalid token''), sl')
            | (Inr data, sl') \<Rightarrow> (Inr (td_Subject data), sl'))
      else if rv_Audience req \<noteq> [] \<and> rv_Sub req \<noteq> [] \<and> rv_Action req \<noteq> [] then (Inr (rv_Sub req), sl)
      else (Inl (AnsText 400 ''Neither token nor full metadata provided''), sl))"

text \<open>A usable lifetime may lengthen a revocation; any other is ignored.\<close>

definition revoke_ttl :: "('e, 'c, 'x, 'r, 'l) token_host \<Rightarrow> string \<Rightarrow> duration" where
  "revoke_ttl E ttl =
     (if ttl = [] then 0 else case th_ParseDuration E ttl of None \<Rightarrow> 0 | Some d \<Rightarrow> if d > 0 then d else 0)"

definition revoke_write ::
  "('e, 'c, 'x, 'r, 'l) token_host \<Rightarrow> TokenManager \<Rightarrow> 'r cache_ops option \<Rightarrow> instant \<Rightarrow> RevokeRequest \<Rightarrow> 'r \<times> 'l \<Rightarrow>
   apitoken_answer \<times> 'r \<times> 'l" where
  "revoke_write E tm store now req sl =
     (let P = mn_paseto (th_mint E); ttl = revoke_ttl E (rv_TTL req) in
      if rv_Token req \<noteq> []
      then (case RevokeToken P tm store (th_legacy E) now (rv_Token req) sl of
              (Some _, sl') \<Rightarrow> (AnsText 500 ''Failed to revoke token'', sl')
            | (None, sl') \<Rightarrow> (AnsRevoked, sl'))
      else if rv_All req
      then (case RevokeSubject P tm store now (rv_Sub req) ttl (fst sl) of
              (Some _, s') \<Rightarrow> (AnsText 500 ''Failed to revoke tokens by metadata'', s', snd sl)
            | (None, s') \<Rightarrow> (AnsRevoked, s', snd sl))
      else (case RevokeByMetadata P tm store (th_legacy E) now (rv_Audience req) (rv_Sub req) (rv_Action req) ttl sl of
              (Some _, sl') \<Rightarrow> (AnsText 500 ''Failed to revoke tokens by metadata'', sl')
            | (None, sl') \<Rightarrow> (AnsRevoked, sl')))"

definition apitoken_revoke ::
  "('e, 'c, 'x, 'r, 'l) token_host \<Rightarrow> instant \<Rightarrow> string \<Rightarrow> RevokeRequest option \<Rightarrow> mapclaims option \<Rightarrow> 'r \<times> 'l \<Rightarrow>
   apitoken_answer \<times> 'r \<times> 'l" where
  "apitoken_revoke E now method decoded ctx sl =
     (if method \<noteq> ''POST'' then (AnsText 405 ''Method not allowed'', sl)
      else case requesting_subject E ctx of
        None \<Rightarrow> (AnsDenied Unauthenticated, sl)
      | Some (ac, requestingSub) \<Rightarrow>
          (case decoded of
             None \<Rightarrow> (AnsText 400 ''Failed to decode request body'', sl)
           | Some req \<Rightarrow>
               (case mn_tokens (th_mint E) of
                  None \<Rightarrow> (AnsText 501 ''Token manager not configured'', sl)
                | Some (tm, store) \<Rightarrow>
                    (case revoke_target E tm store now req sl of
                       (Inl ans, sl1) \<Rightarrow> (ans, sl1)
                     | (Inr target, sl1) \<Rightarrow>
                         if target \<noteq> requestingSub \<and> may E ac target apitokenVerbRevokeAny \<noteq> Inr True
                         then (refusal E ac target apitokenVerbRevokeAny, sl1)
                         else revoke_write E tm store now req sl1))))"

section \<open>The handlers\<close>

definition write_answer :: "('e, 'c, 'x, 'r, 'l) token_host \<Rightarrow> apitoken_answer \<Rightarrow> rw \<Rightarrow> rw" where
  "write_answer E ans w =
     (let json = (\<lambda>body. rw_Write body (rw_header (h_Set ''Content-Type'' ''application/json'') w)) in
      case ans of
        AnsText status msg \<Rightarrow> http_Error msg status w
      | AnsRetry status msg \<Rightarrow> http_Error msg status (rw_header (h_Set ''Retry-After'' ''5'') w)
      | AnsDenied outcome \<Rightarrow>
          denial_Write (mn_url (th_mint E)) \<lparr>o_Outcome = outcome, o_Issuer = mn_issuer (th_mint E), o_ResourceMetadata = [], o_Scopes = []\<rparr> w
      | AnsMinted token \<Rightarrow> json (th_EncodeToken E token)
      | AnsVerified data \<Rightarrow> json (th_EncodeData E data)
      | AnsRevoked \<Rightarrow> json (''{\"status\":\"revoked\"}'' @ [CHR 0x0A]))"

definition apitokenMintHandler ::
  "('e, 'c, 'x, 'r, 'l) token_host \<Rightarrow> instant \<Rightarrow> string \<Rightarrow> MintRequest option \<Rightarrow> mapclaims option \<Rightarrow> rw \<Rightarrow> 'r \<Rightarrow> rw \<times> 'r" where
  "apitokenMintHandler E now method decoded ctx w rs =
     (case apitoken_mint E now method decoded ctx rs of (ans, rs') \<Rightarrow> (write_answer E ans w, rs'))"

definition apitokenVerifyHandler ::
  "('e, 'c, 'x, 'r, 'l) token_host \<Rightarrow> instant \<Rightarrow> string \<Rightarrow> string option \<Rightarrow> rw \<Rightarrow> 'r \<times> 'l \<Rightarrow> rw \<times> 'r \<times> 'l" where
  "apitokenVerifyHandler E now method decoded w sl =
     (case apitoken_verify E now method decoded sl of (ans, sl') \<Rightarrow> (write_answer E ans w, sl'))"

definition apitokenRevokeHandler ::
  "('e, 'c, 'x, 'r, 'l) token_host \<Rightarrow> instant \<Rightarrow> string \<Rightarrow> RevokeRequest option \<Rightarrow> mapclaims option \<Rightarrow> rw \<Rightarrow> 'r \<times> 'l \<Rightarrow> rw \<times> 'r \<times> 'l" where
  "apitokenRevokeHandler E now method decoded ctx w sl =
     (case apitoken_revoke E now method decoded ctx sl of (ans, sl') \<Rightarrow> (write_answer E ans w, sl'))"

text \<open>The published keys, and the longest lifetime a mint accepts where there is one.\<close>

definition published_key :: "('e, 'c, 'x, 'r, 'l) token_host \<Rightarrow> KeyPair \<Rightarrow> string gomap" where
  "published_key E kp =
     [(''kid'', kp_KeyId kp), (''alg'', ''v4.public''), (''key'', ''k4.public.'' @ th_Base64 E (kp_PublicKey kp))]"

definition apitokenDiscoveryHandler :: "('e, 'c, 'x, 'r, 'l) token_host \<Rightarrow> TokenManager \<Rightarrow> string \<Rightarrow> rw \<Rightarrow> rw" where
  "apitokenDiscoveryHandler E tm method w =
     (if method \<noteq> ''GET'' then http_Error ''Method not allowed'' 405 w
      else rw_Write (th_EncodeKeys E (map (published_key E) (tm_keyPairs tm))
             (if tm_maxTTL tm > 0 then Some (th_DurationString E (tm_maxTTL tm)) else None))
           (rw_header (h_Set ''Content-Type'' ''application/json'') w))"

section \<open>Lemmas\<close>

context ttl_store
begin

lemma cut_off_get:
  assumes "inv s" and "cut_off P s key D a"
  shows "inv (snd (op_Get ops t k s)) \<and> cut_off P (snd (op_Get ops t k s)) key D a"
  using assms by (auto simp: cut_off_def get_inv get_view)

lemma lookup_state: "snd (lookup_revoked P ops t token k s) = snd (op_Get ops t k s)"
  by (auto simp: lookup_revoked_def split: prod.splits sum.splits)

text \<open>A cut off of a token's id or of its subject is found by the check.\<close>

lemma cut_off_found:
  assumes "inv (fst sl)" and "cut_off P (fst sl) key D a" and "t \<le> D" and "pt_iat token = Inr iat" and "iat \<le> a"
    and "pt_jti token = Inr jti" and "pt_sub token = Inr sub" and "key = jti \<or> key = subjectRevocationKey P sub"
  shows "fst (revoked P ops legacy t token sl) \<noteq> Inr False"
proof -
  let ?s1 = "snd (lookup_revoked P ops t token jti (fst sl))"
  have s1: "inv ?s1" "cut_off P ?s1 key D a"
    using cut_off_get [OF assms(1,2)] by (simp_all add: lookup_state)
  have "fst (lookup_revoked P ops t token jti (fst sl)) = Inr True \<or>
      fst (lookup_revoked P ops t token (subjectRevocationKey P sub) ?s1) = Inr True"
    using assms(8) cut_off_revokes [OF assms(1,2,3,4,5)] cut_off_revokes [OF s1 assms(3,4,5)] by blast
  then show ?thesis
    using assms(6,7) by (auto simp: revoked_def join_revoked_def split: prod.splits sum.splits option.splits)
qed

end

lemma validated:
  assumes "ValidateToken P tm (Some ops) legacy now tok aud sl = (Inr data, sl')"
  obtains token kid where "revoked P ops legacy now token sl = (Inr False, sl')" "token_data token kid = Inr data"
  using assms by (auto simp: ValidateToken_def Let_def split: sum.splits option.splits prod.splits bool.splits)

lemma token_data_fields:
  assumes "token_data token kid = Inr data"
  obtains iat where "pt_sub token = Inr (td_Subject data)" "pt_jti token = Inr (td_JTI data)"
    "pt_iat token = Inr iat" "td_IssuedAt data = Unix iat"
  using assms by (auto simp: token_data_def bindE_Inr_iff split: if_splits)

lemma verified:
  assumes "apitoken_verify E now method decoded sl = (AnsVerified data, sl')"
  obtains tm store tokenString where "mn_tokens (th_mint E) = Some (tm, store)"
    "ValidateToken (mn_paseto (th_mint E)) tm store (th_legacy E) now tokenString (th_audience E) sl = (Inr data, sl')"
    "VetoPAT (th_kinds E) (x_ex (th_exchange E)) data SiteAPITokenVerify = None"
  using assms by (auto simp: apitoken_verify_def Let_def split: if_splits option.splits sum.splits prod.splits)

section \<open>Minting for whom\<close>

lemma may_mint:
  assumes "mint_refused E ac caller target = None"
  shows "may E ac target (mint_verb target caller) = Inr True \<or> (target \<noteq> caller \<and> checkProvisioned E ac caller target = provisionedByCaller)"
  using assms by (auto simp: mint_refused_def Let_def mint_verb_def apitokenVerbImpersonate_def
      split: sum.splits bool.splits provisionedVerdict.splits if_splits)

lemma provisioned_iff:
  "checkProvisioned E ac caller target = provisionedByCaller \<longleftrightarrow>
     claim_string ac ''grant_type'' = GRANT_TYPE_CLIENT_CREDENTIALS \<and> claim_string ac ''sub'' = caller \<and> caller \<noteq> [] \<and>
     HoldsScope (th_checker E) (Some ac) provisionedMintScope \<and> IsConfiguredClient (th_ex E) caller \<and> \<not> NamesClient (th_ex E) target \<and>
     (\<exists>claims. ResolveSubjectClaimsLive (th_exchange E) target = Inr claims \<and> claim_string claims provisionedByClaim = caller)"
  by (auto simp: checkProvisioned_def ClientCredentialsSubject_def Let_def split: prod.splits sum.splits if_splits)

lemma mint_key_minted:
  assumes "mint_key E tm now ac caller req = AnsMinted token"
  obtains ttl kind where "0 < ttl \<or> mq_TTL req = []" "mint_ttl E tm (mq_TTL req) = Some ttl" "mint_kind E now ac caller (mq_Sub req) = Some kind"
    "MintStatelessKey (mn_paseto (th_mint E)) (th_kinds E) tm now (mq_Audience req) (mq_Sub req) kind (mq_Action req) (mq_Scope req) ttl = Inr token"
  using assms by (auto simp: mint_key_def mint_ttl_def split: option.splits sum.splits if_splits)

lemma minted_cases:
  assumes "apitoken_mint E now method decoded ctx rs = (AnsMinted token, rs')"
  obtains ac caller req tm store where "ctx = Some ac" "lib_GetSubject (x_lib (th_exchange E)) ac = Inr caller" "caller \<noteq> []" "decoded = Some req"
    "mq_Sub req \<noteq> []" "mint_refused E ac caller (mq_Sub req) = None" "mn_tokens (th_mint E) = Some (tm, store)"
    "mint_key E tm now ac caller req = AnsMinted token"
    "mq_Sub req = caller \<longrightarrow> fst (CredentialPredatesRevocation (mn_paseto (th_mint E)) (x_lib (th_exchange E)) (mn_dates (th_mint E))
       (mn_tokens (th_mint E)) now ac rs) = Inr False"
proof -
  have r: "mint_refused E a c t \<noteq> Some (AnsMinted token)" for a c t
    by (auto simp: mint_refused_def refusal_def Let_def split: sum.splits bool.splits provisionedVerdict.splits)
  from assms show thesis
    by (auto simp: apitoken_mint_def requesting_subject_def mintFromRevokedCredential_def r
        split: if_splits option.splits sum.splits prod.splits bool.splits intro!: that)
qed

section \<open>Properties\<close>

text \<open>C16: an API token is minted only for someone its caller may act for. A caller is authenticated. For itself it needs
  the mint verb and a credential that authenticated after its subject's last revocation, and the token records the
  caller's own kind. For another subject it needs the impersonate verb on that very subject, or it is a configured
  client on its own credential holding the class scope, the target is no client and its live record names the caller
  as its provisioner; the veto must accept the target. The lifetime is positive and within the host's maximum.\<close>

theorem apitoken_mint_gate:
  assumes "apitoken_mint E now method decoded ctx rs = (AnsMinted token, rs')"
  shows "\<exists>ac caller req tm store ttl kind. ctx = Some ac \<and> lib_GetSubject (x_lib (th_exchange E)) ac = Inr caller \<and> caller \<noteq> [] \<and>
    decoded = Some req \<and> mn_tokens (th_mint E) = Some (tm, store) \<and>
    MintStatelessKey (mn_paseto (th_mint E)) (th_kinds E) tm now (mq_Audience req) (mq_Sub req) kind (mq_Action req) (mq_Scope req) ttl = Inr token \<and>
    0 < ttl \<and> (tm_maxTTL tm > 0 \<longrightarrow> ttl \<le> tm_maxTTL tm) \<and>
    (if mq_Sub req = caller
     then may E ac caller ''mint'' = Inr True \<and> kind = ContextSubjectKind (th_kinds E) (th_ex E) ac \<and>
       fst (CredentialPredatesRevocation (mn_paseto (th_mint E)) (x_lib (th_exchange E)) (mn_dates (th_mint E)) (mn_tokens (th_mint E)) now ac rs) = Inr False
     else kind = SubjectKindOf (th_kinds E) (th_ex E) (mq_Sub req) \<and>
       VetoCredential (th_kinds E) (th_ex E) (mq_Sub req) kind (Unix now) SiteAPITokenMint = None \<and>
       (may E ac (mq_Sub req) ''impersonate'' = Inr True \<or>
        claim_string ac ''grant_type'' = GRANT_TYPE_CLIENT_CREDENTIALS \<and> claim_string ac ''sub'' = caller \<and>
        HoldsScope (th_checker E) (Some ac) ''apitokens_impersonate_provisioned'' \<and> IsConfiguredClient (th_ex E) caller \<and>
        \<not> NamesClient (th_ex E) (mq_Sub req) \<and>
        (\<exists>claims. ResolveSubjectClaimsLive (th_exchange E) (mq_Sub req) = Inr claims \<and> claim_string claims ''provisioned_by'' = caller)))"
proof -
  obtain ac caller req tm store where c: "ctx = Some ac" "lib_GetSubject (x_lib (th_exchange E)) ac = Inr caller" "caller \<noteq> []" "decoded = Some req"
    "mint_refused E ac caller (mq_Sub req) = None" "mn_tokens (th_mint E) = Some (tm, store)" "mint_key E tm now ac caller req = AnsMinted token"
    "mq_Sub req = caller \<longrightarrow> fst (CredentialPredatesRevocation (mn_paseto (th_mint E)) (x_lib (th_exchange E)) (mn_dates (th_mint E))
       (mn_tokens (th_mint E)) now ac rs) = Inr False"
    using minted_cases [OF assms] by metis
  obtain ttl kind where k: "mint_ttl E tm (mq_TTL req) = Some ttl" "mint_kind E now ac caller (mq_Sub req) = Some kind"
    "MintStatelessKey (mn_paseto (th_mint E)) (th_kinds E) tm now (mq_Audience req) (mq_Sub req) kind (mq_Action req) (mq_Scope req) ttl = Inr token"
    using mint_key_minted [OF c(7)] by metis
  have "0 < ttl" using k(1) by (auto simp: mint_ttl_def CapTTL_def split: if_splits option.splits)
  moreover have "tm_maxTTL tm > 0 \<longrightarrow> ttl \<le> tm_maxTTL tm" using k(3) by (auto simp: MintStatelessKey_def split: if_splits)
  ultimately show ?thesis using c k may_mint [OF c(5)]
    by (auto simp: provisioned_iff mint_kind_def Let_def mint_verb_def apitokenVerbImpersonate_def provisionedMintScope_def provisionedByClaim_def
        split: if_splits)
qed

text \<open>What a revocation by subject or by metadata writes: the key it cuts off.\<close>

definition revoked_key :: "paseto_lib \<Rightarrow> RevokeRequest \<Rightarrow> string" where
  "revoked_key P req = (if rv_All req then subjectRevocationKey P (rv_Sub req) else GenerateJTI P (rv_Audience req) (rv_Sub req) (rv_Action req))"

lemma revoke_write_state:
  assumes "revoke_write E tm (Some ops) now req sl = (AnsRevoked, sl')" and "rv_Token req = []"
  shows "fst sl' = snd (recordRevocation (mn_paseto (th_mint E)) tm ops now (revoked_key (mn_paseto (th_mint E)) req) (revoke_ttl E (rv_TTL req)) (fst sl))"
  using assms by (auto simp: revoke_write_def RevokeSubject_def RevokeByMetadata_def revoke_def revoked_key_def Let_def
      split: if_splits option.splits prod.splits)

lemma revoke_cases:
  assumes "apitoken_revoke E now method (Some req) (Some ac) sl = (AnsRevoked, sl')" and "rv_Token req = []" and "mn_tokens (th_mint E) = Some (tm, store)"
  obtains caller where "lib_GetSubject (x_lib (th_exchange E)) ac = Inr caller" "caller \<noteq> []"
    "rv_Sub req = caller \<or> may E ac (rv_Sub req) apitokenVerbRevokeAny = Inr True"
    "revoke_write E tm store now req sl = (AnsRevoked, sl')"
  using assms by (auto simp: apitoken_revoke_def requesting_subject_def revoke_target_def refusal_def
      split: if_splits option.splits sum.splits prod.splits)

text \<open>The state a revocation leaves, after further revocations, and what is then found.\<close>

lemma revocation_cuts:
  assumes "unbounded (fst sl)" "time_law P" "0 \<le> now" "now \<le> neverExpires" "t \<le> now + RevocationTTL tm" "P = mn_paseto (th_mint E)"
    and "\<forall>(n, k, d) \<in> set rs. 0 \<le> n \<and> n \<le> neverExpires \<and> n \<le> t \<and> t \<le> n + RevocationTTL tm"
    and "revoke_write E tm (Some mem_ops) now req sl = (AnsRevoked, sl1)" "rv_Token req = []"
    and "c = mem_revocations P tm rs (fst sl1)"
  shows "unbounded c \<and> memt.cut_off P c (revoked_key P req) t now"
proof -
  have s: "fst sl1 = snd (recordRevocation P tm mem_ops now (revoked_key P req) (revoke_ttl E (rv_TTL req)) (fst sl))"
    using revoke_write_state [OF assms(8,9)] by (simp add: assms(6))
  have "unbounded (fst sl1)" "memt.cut_off P (fst sl1) (revoked_key P req) t now"
    using memt.record_inv [OF assms(1)] memt.record_cuts [OF assms(1-5)] by (simp_all add: s)
  from memt.run_keeps [OF assms(2) this assms(7)] show ?thesis by (simp add: assms(10) mem_revocations_run)
qed

lemma verified_after_cut:
  assumes "unbounded (fst sl)" "memt.cut_off P (fst sl) key t now" "P = mn_paseto (th_mint E)" "mn_tokens (th_mint E) = Some (tm, Some mem_ops)"
    and "apitoken_verify E t method decoded sl = (AnsVerified data, sl')" "key = td_JTI data \<or> key = subjectRevocationKey P (td_Subject data)"
  shows "Unix now \<le> td_IssuedAt data"
proof (rule ccontr)
  assume n: "\<not> Unix now \<le> td_IssuedAt data"
  obtain tok where v: "ValidateToken P tm (Some mem_ops) (th_legacy E) t tok (th_audience E) sl = (Inr data, sl')"
    using verified [OF assms(5)] assms(3,4) by (metis option.inject prod.inject)
  obtain token kid where r: "revoked P mem_ops (th_legacy E) t token sl = (Inr False, sl')" "token_data token kid = Inr data" by (rule validated [OF v])
  obtain iat where i: "pt_sub token = Inr (td_Subject data)" "pt_jti token = Inr (td_JTI data)" "pt_iat token = Inr iat" "td_IssuedAt data = Unix iat"
    by (rule token_data_fields [OF r(2)])
  have "iat \<le> now" using n i(4) by (auto simp: Unix_def intro: order.strict_implies_order dest: zdiv_mono1 [of now iat second])
  then have "fst (revoked P mem_ops (th_legacy E) t token sl) \<noteq> Inr False"
    by (intro memt.cut_off_found [OF assms(1,2) order_refl i(3) _ i(2,1) assms(6)])
  with r(1) show False by simp
qed

text \<open>C17: a revocation takes effect at every endpoint. A revocation by subject or by metadata is granted only to the subject
  itself or to a caller with the revoke-any verb on that subject. Once it is answered, whatever revocations follow on
  any replica's clock and for as long as the revocation lives, a token it covers that verifies was issued no earlier
  than in the second of the revocation; and after the revocation of a subject no credential that authenticated at or
  before it mints a token for its own subject.\<close>

theorem apitoken_revocation_effective:
  assumes "mn_tokens (th_mint E) = Some (tm, Some mem_ops)" "unbounded (fst sl)" "time_law P" "P = mn_paseto (th_mint E)"
    and "0 \<le> now" "now \<le> neverExpires" "t \<le> now + RevocationTTL tm"
    and "\<forall>(n, k, d) \<in> set rs. 0 \<le> n \<and> n \<le> neverExpires \<and> n \<le> t \<and> t \<le> n + RevocationTTL tm"
    and "apitoken_revoke E now method (Some req) (Some ac) sl = (AnsRevoked, sl1)" "rv_Token req = []"
    and "fst sl2 = mem_revocations P tm rs (fst sl1)"
  shows "(\<exists>caller. lib_GetSubject (x_lib (th_exchange E)) ac = Inr caller \<and> caller \<noteq> [] \<and>
      (rv_Sub req = caller \<or> may E ac (rv_Sub req) ''revoke-any'' = Inr True)) \<and>
    (\<forall>decoded data sl3. apitoken_verify E t ''POST'' decoded sl2 = (AnsVerified data, sl3) \<and>
       (if rv_All req then td_Subject data = rv_Sub req
        else td_JTI data = GenerateJTI P (rv_Audience req) (rv_Sub req) (rv_Action req)) \<longrightarrow> Unix now \<le> td_IssuedAt data) \<and>
    (\<forall>ac' i mreq tok s. rv_All req \<and> lib_GetSubject (x_lib (th_exchange E)) ac' = Inr (rv_Sub req) \<and>
       dl_Iat (mn_dates (th_mint E)) ac' = Inr (Some i) \<and> i \<le> now \<and>
       apitoken_mint E t ''POST'' (Some mreq) (Some ac') (fst sl2) = (AnsMinted tok, s) \<longrightarrow> mq_Sub mreq \<noteq> rv_Sub req)"
proof -
  obtain caller where c: "lib_GetSubject (x_lib (th_exchange E)) ac = Inr caller" "caller \<noteq> []"
    "rv_Sub req = caller \<or> may E ac (rv_Sub req) apitokenVerbRevokeAny = Inr True"
    "revoke_write E tm (Some mem_ops) now req sl = (AnsRevoked, sl1)" by (rule revoke_cases [OF assms(9,10,1)])
  have k: "unbounded (fst sl2)" "memt.cut_off P (fst sl2) (revoked_key P req) t now"
    using revocation_cuts [OF assms(2,3,5-7,4,8) c(4) assms(10,11)] by auto
  have v: "Unix now \<le> td_IssuedAt data"
    if "apitoken_verify E t ''POST'' decoded sl2 = (AnsVerified data, sl3)" "revoked_key P req = td_JTI data \<or> revoked_key P req = subjectRevocationKey P (td_Subject data)"
    for decoded data sl3 using verified_after_cut [OF k assms(4,1) that] .
  have m: "mq_Sub mreq \<noteq> rv_Sub req"
    if "rv_All req" "lib_GetSubject (x_lib (th_exchange E)) ac' = Inr (rv_Sub req)" "dl_Iat (mn_dates (th_mint E)) ac' = Inr (Some i)" "i \<le> now"
      "apitoken_mint E t ''POST'' (Some mreq) (Some ac') (fst sl2) = (AnsMinted tok, s)" for ac' i mreq tok s
  proof
    assume e: "mq_Sub mreq = rv_Sub req"
    have "fst (CredentialPredatesRevocation P (x_lib (th_exchange E)) (mn_dates (th_mint E)) (mn_tokens (th_mint E)) t ac' (fst sl2)) = Inr False \<and> rv_Sub req \<noteq> []"
      using minted_cases [OF that(5)] that(2) e assms(4) by (metis option.inject sum.inject(2))
    moreover have "fst (SubjectRevokedSince P (Some mem_ops) t (rv_Sub req) i (fst sl2)) = Inr True"
      using memt.cut_off_subject [OF k(1) _ order_refl that(4)] k(2) that(1) by (simp add: revoked_key_def)
    ultimately show False using that(2,3) assms(1) by (auto simp: CredentialPredatesRevocation_def Let_def)
  qed
  show ?thesis using c(1-3) v m by (auto simp: revoked_key_def apitokenVerbRevokeAny_def)
qed

section \<open>A host for the witnesses\<close>

text \<open>Everyone may do everything, so that only the checks of the endpoints themselves decide.\<close>

definition demo_token_host :: "(unit, unit, InMemoryCache, InMemoryCache, InMemoryCache) token_host" where
  "demo_token_host =
     \<lparr>th_mint = \<lparr>mn_paseto = demo_paseto, mn_dates = \<lparr>dl_Exp = (\<lambda>_. Inr None), dl_Iat = (\<lambda>_. Inr (Some 3))\<rparr>,
        mn_tokens = Some (demo_token_manager, Some mem_ops), mn_url = demo_url, mn_issuer = ''host'', mn_encode = (\<lambda>_. [])\<rparr>,
      th_legacy = None,
      th_checker = \<lparr>ck_ec = \<lparr>el_ParseEntitlements = (\<lambda>_. ()), el_ParseRequirements = (\<lambda>_. ()), el_Verify = (\<lambda>_ _. True),
        el_VerifyResource = (\<lambda>_ _ _ _ _. Inr True), el_Calculate = (\<lambda>_ _ rs _. Inr rs), el_Bind = (\<lambda>r _. Inr r)\<rparr>, ck_scopeBuckets = False\<rparr>,
      th_exchange = demo_exchange, th_audience = ''fn'', th_ParseDuration = (\<lambda>_. None), th_DurationString = (\<lambda>_. []),
      th_Base64 = id, th_EncodeToken = id, th_EncodeData = td_Subject, th_EncodeKeys = (\<lambda>_ _. [])\<rparr>"

definition demo_mint_body :: MintRequest where
  "demo_mint_body = \<lparr>mq_Action = ''call'', mq_Audience = ''fn'', mq_Scope = ''read'', mq_Sub = ''bob'', mq_TTL = []\<rparr>"

lemma demo_minted:
  "\<exists>token. apitoken_mint demo_token_host 5 ''POST'' (Some demo_mint_body) (Some [(''sub'', VStr ''alice'')]) demo_revocations = (AnsMinted token, demo_revocations)"
  by (simp add: apitoken_mint_def requesting_subject_def demo_token_host_def demo_exchange_def demo_lib_def demo_get_subject_def demo_mint_body_def
      mint_refused_def may_def CheckAccess_def VerifyResourceParsedEntitlements_def identityHasColon_def mint_verb_def apitokenVerbImpersonate_def
      mint_key_def mint_ttl_def mint_kind_def SubjectKindOf_def NamesClient_def demo_exchanger_def demo_kinds_def VetoCredential_def
      vetoSubjectKind_def vetoRules_def vetoUser_def HasPrefix_def ClientIDPrefix_def MintStatelessKey_def CapTTL_def demo_token_manager_def Let_def)

theorem apitoken_mint_gate_witness:
  "VetoCredential demo_kinds (Some (x_ex demo_exchange)) ''bob'' (SubjectKindOf demo_kinds (Some (x_ex demo_exchange)) ''bob'') (Unix 5) SiteAPITokenMint = None"
proof -
  obtain token where "apitoken_mint demo_token_host 5 ''POST'' (Some demo_mint_body) (Some [(''sub'', VStr ''alice'')]) demo_revocations = (AnsMinted token, demo_revocations)"
    using demo_minted by blast
  from apitoken_mint_gate [OF this] show ?thesis
    by (auto simp: demo_token_host_def demo_mint_body_def demo_exchange_def demo_lib_def demo_get_subject_def)
qed

definition demo_revoke_body :: RevokeRequest where
  "demo_revoke_body = \<lparr>rv_Action = [], rv_All = True, rv_Audience = [], rv_Sub = ''alice'', rv_TTL = [], rv_Token = []\<rparr>"

theorem apitoken_revocation_effective_witness:
  "\<exists>sl1. apitoken_revoke demo_token_host (2 * second) ''POST'' (Some demo_revoke_body) (Some [(''sub'', VStr ''alice'')]) (demo_revocations, demo_revocations) = (AnsRevoked, sl1) \<and>
     \<not> (\<exists>decoded data sl3. apitoken_verify demo_token_host minute ''POST'' decoded sl1 = (AnsVerified data, sl3) \<and>
          td_Subject data = ''alice'' \<and> td_IssuedAt data < 2)"
proof -
  let ?sl = "(demo_revocations, demo_revocations)"
  have "fst (apitoken_revoke demo_token_host (2 * second) ''POST'' (Some demo_revoke_body) (Some [(''sub'', VStr ''alice'')]) ?sl) = AnsRevoked"
    by (simp add: apitoken_revoke_def requesting_subject_def demo_token_host_def demo_exchange_def demo_lib_def demo_get_subject_def demo_revoke_body_def
        revoke_target_def revoke_write_def RevokeSubject_def memt.record_is [OF demo_revocations_unbounded])
  then obtain sl1 where r: "apitoken_revoke demo_token_host (2 * second) ''POST'' (Some demo_revoke_body) (Some [(''sub'', VStr ''alice'')]) ?sl = (AnsRevoked, sl1)"
    by (metis prod.collapse)
  have n: "RevocationTTL demo_token_manager = 87600 * hour" "neverExpires \<ge> 2 * second" "Unix (2 * second) = 2"
    by (simp_all add: RevocationTTL_def RevocationHorizon_def demo_token_manager_def Let_def neverExpires_def Unix_def)
  have h: "mn_tokens (th_mint demo_token_host) = Some (demo_token_manager, Some mem_ops)" "demo_paseto = mn_paseto (th_mint demo_token_host)"
    by (simp_all add: demo_token_host_def)
  have b: "rv_All demo_revoke_body" "rv_Token demo_revoke_body = []" "rv_Sub demo_revoke_body = ''alice''" by (simp_all add: demo_revoke_body_def)
  have c: "fst sl1 = mem_revocations demo_paseto demo_token_manager [] (fst sl1)" by (simp add: mem_revocations_def)
  have "minute \<le> 2 * second + RevocationTTL demo_token_manager" using n(1) by simp
  from apitoken_revocation_effective [OF h(1) _ demo_time_law h(2) _ n(2) this _ r b(2) c]
  have "2 \<le> td_IssuedAt data"
    if "apitoken_verify demo_token_host minute ''POST'' decoded sl1 = (AnsVerified data, sl3)" "td_Subject data = ''alice''" for decoded data sl3
    using that demo_revocations_unbounded b n(3) by (cases sl3) auto
  with r show ?thesis by (metis linorder_not_le)
qed

end
