(* ===== verification/Register.thy ===== *)
theory Register
  imports Authorization
begin

text \<open>
  Dynamic client registration over HTTP (\<open>src/internal/host/register.go\<close>, \<open>register_limiter.go\<close>): the endpoint
  with its two rate limits, over the client store of \<open>Dcr\<close>.

  The token bucket of \<open>golang.org/x/time/rate\<close> is a parameter: a new bucket for a rate and a burst, and \<open>Allow\<close>
  at a time. A request reads the clock once. \<open>net.SplitHostPort\<close> and the JSON codec are parameters.
\<close>

section \<open>The limiter\<close>

text \<open>Rates are in events per ten seconds, so that both are whole.\<close>

definition globalRegisterRate :: nat where "globalRegisterRate = 10"
definition globalRegisterBurst :: int where "globalRegisterBurst = 10"
definition perIPRegisterRate :: nat where "perIPRegisterRate = 2"
definition perIPRegisterBurst :: int where "perIPRegisterBurst = 5"
definition perIPRetryAfterSeconds :: int where "perIPRetryAfterSeconds = 5"
definition globalRetryAfterSeconds :: int where "globalRetryAfterSeconds = 10"
definition perIPEvictionInterval :: duration where "perIPEvictionInterval = 10 * minute"
definition perIPEvictionMaxIdleTime :: duration where "perIPEvictionMaxIdleTime = 10 * minute"

record 'b rate_lib =
  rl_NewLimiter :: "nat \<Rightarrow> int \<Rightarrow> 'b"
  rl_Allow :: "instant \<Rightarrow> 'b \<Rightarrow> bool \<times> 'b"

record 'b perIPEntry =
  pi_limiter :: 'b
  pi_lastSeen :: instant

record 'b registerLimiter =
  lm_global :: 'b
  lm_perIP :: "'b perIPEntry gomap"
  lm_lastGC :: instant

text \<open>\<open>lastGC\<close> starts as the zero time, which is before every clock reading.\<close>

definition zero_instant :: instant where "zero_instant = - (62135596800 * second)"

definition newRegisterLimiter :: "'b rate_lib \<Rightarrow> int \<Rightarrow> 'b registerLimiter" where
  "newRegisterLimiter R maxClients =
     (let b0 = (if maxClients > 0 \<and> maxClients < globalRegisterBurst then maxClients else globalRegisterBurst);
          burst = (if b0 < 1 then 1 else b0)
      in \<lparr>lm_global = rl_NewLimiter R globalRegisterRate burst, lm_perIP = [], lm_lastGC = zero_instant\<rparr>)"

definition allowGlobal :: "'b rate_lib \<Rightarrow> instant \<Rightarrow> 'b registerLimiter \<Rightarrow> bool \<times> 'b registerLimiter" where
  "allowGlobal R now rl = (case rl_Allow R now (lm_global rl) of (ok, b) \<Rightarrow> (ok, rl\<lparr>lm_global := b\<rparr>))"

definition gcLocked :: "instant \<Rightarrow> 'b registerLimiter \<Rightarrow> 'b registerLimiter" where
  "gcLocked now rl =
     (if now - lm_lastGC rl < perIPEvictionInterval then rl
      else rl\<lparr>lm_lastGC := now, lm_perIP := filter (\<lambda>(ip, e). \<not> now - pi_lastSeen e > perIPEvictionMaxIdleTime) (lm_perIP rl)\<rparr>)"

definition ip_bucket :: "'b rate_lib \<Rightarrow> 'b perIPEntry gomap \<Rightarrow> string \<Rightarrow> 'b" where
  "ip_bucket R m ip = (case map_of m ip of Some e \<Rightarrow> pi_limiter e | None \<Rightarrow> rl_NewLimiter R perIPRegisterRate perIPRegisterBurst)"

definition allowIP :: "'b rate_lib \<Rightarrow> instant \<Rightarrow> string \<Rightarrow> 'b registerLimiter \<Rightarrow> bool \<times> 'b registerLimiter" where
  "allowIP R now ip rl =
     (if ip = [] then (True, rl)
      else let rl1 = gcLocked now rl
           in case rl_Allow R now (ip_bucket R (lm_perIP rl1) ip) of
                (ok, b) \<Rightarrow> (ok, rl1\<lparr>lm_perIP := AList.update ip \<lparr>pi_limiter = b, pi_lastSeen = now\<rparr> (lm_perIP rl1)\<rparr>))"

text \<open>The address a request is counted under: the last entry of the forwarded list, else the peer.\<close>

definition is_blank :: "char \<Rightarrow> bool" where
  "is_blank c \<longleftrightarrow> c = CHR '' '' \<or> c = CHR 0x09"

definition trim_blanks :: "string \<Rightarrow> string" where
  "trim_blanks seg = rev (dropWhile is_blank (rev (dropWhile is_blank seg)))"

definition splitAndTrim :: "string \<Rightarrow> string list" where
  "splitAndTrim s = filter (\<lambda>seg. seg \<noteq> []) (map trim_blanks (Split s CHR '',''))"

definition clientIP :: "(string \<Rightarrow> string option) \<Rightarrow> header \<Rightarrow> string \<Rightarrow> string" where
  "clientIP SplitHostPort h remote =
     (let parts = (let xff = h_Get h ''X-Forwarded-For'' in if xff \<noteq> [] then splitAndTrim xff else []);
          peer = (case SplitHostPort remote of None \<Rightarrow> remote | Some host \<Rightarrow> host)
      in if parts \<noteq> [] \<and> last parts \<noteq> [] then last parts else peer)"

section \<open>The endpoint\<close>

record registerRequest =
  rq_RedirectURIs :: "string list"
  rq_GrantTypes :: "string list"
  rq_ResponseTypes :: "string list"
  rq_Scope :: string
  rq_ClientName :: string
  rq_TokenEndpointAuthMethod :: string

datatype register_answer =
    RegError nat string string     \<comment> \<open>status, error code and description\<close>
  | RegLimited int                 \<comment> \<open>429 with the seconds of \<open>Retry-After\<close>\<close>
  | RegCreated Client

record ('b, 's) register_host =
  rh_rate :: "'b rate_lib"
  rh_url :: url_parse
  rh_codec :: client_codec
  rh_ops :: "'s cache_ops"
  rh_ttl :: duration
  rh_schemes :: "string list"
  rh_SplitHostPort :: "string \<Rightarrow> string option"
  rh_EncodeError :: "string \<Rightarrow> string \<Rightarrow> string"
  rh_EncodeClient :: "Client \<Rightarrow> string"

definition registered_client :: "registerRequest \<Rightarrow> string list \<Rightarrow> string list \<Rightarrow> Client" where
  "registered_client req redirects grants =
     \<lparr>cl_ClientID = [], cl_RedirectURIs = redirects, cl_GrantTypes = grants, cl_ResponseTypes = [''code''], cl_Scope = rq_Scope req,
      cl_ClientName = rq_ClientName req, cl_TokenEndpointAuthMethod = ''none'', cl_CreatedAt = 0\<rparr>"

definition register_client ::
  "('b, 's) register_host \<Rightarrow> instant \<Rightarrow> goerror + string \<Rightarrow> registerRequest option \<Rightarrow> 's \<Rightarrow> register_answer \<times> 's" where
  "register_client H now rnd decoded s =
     (case decoded of
        None \<Rightarrow> (RegError 400 ''invalid_client_metadata'' ''malformed JSON'', s)
      | Some req \<Rightarrow>
          if rq_RedirectURIs req = [] then (RegError 400 ''invalid_redirect_uri'' ''redirect_uris required'', s)
          else let allowedRedirects = FilterRedirectURIs (rh_url H) (rq_RedirectURIs req) (rh_schemes H); grants = FilterGrantTypes (rq_GrantTypes req)
               in if allowedRedirects = [] then (RegError 400 ''invalid_redirect_uri'' ''no redirect_uri with an allowed scheme'', s)
                  else if grants = []
                  then (RegError 400 ''invalid_client_metadata'' (''grant_types must include at least one of: '' @ Join SupportedGrantTypes '', ''), s)
                  else case store_Register (rh_codec H) (rh_ops H) (rh_ttl H) now rnd (registered_client req allowedRedirects grants) s of
                         (Inl _, s') \<Rightarrow> (RegError 500 ''server_error'' ''could not persist client'', s')
                       | (Inr client, s') \<Rightarrow> (RegCreated client, s'))"

text \<open>The limits come before the body is read, the address's before the shared one.\<close>

definition oauth_register ::
  "('b, 's) register_host \<Rightarrow> instant \<Rightarrow> goerror + string \<Rightarrow> header \<Rightarrow> string \<Rightarrow> registerRequest option \<Rightarrow> 'b registerLimiter option \<times> 's \<Rightarrow>
   register_answer \<times> 'b registerLimiter option \<times> 's" where
  "oauth_register H now rnd h remote decoded st =
     (case fst st of
        None \<Rightarrow> (case register_client H now rnd decoded (snd st) of (ans, s') \<Rightarrow> (ans, None, s'))
      | Some rl \<Rightarrow>
          (case allowIP (rh_rate H) now (clientIP (rh_SplitHostPort H) h remote) rl of
             (False, rl1) \<Rightarrow> (RegLimited perIPRetryAfterSeconds, Some rl1, snd st)
           | (True, rl1) \<Rightarrow>
               (case allowGlobal (rh_rate H) now rl1 of
                  (False, rl2) \<Rightarrow> (RegLimited globalRetryAfterSeconds, Some rl2, snd st)
                | (True, rl2) \<Rightarrow>
                    (case register_client H now rnd decoded (snd st) of (ans, s') \<Rightarrow> (ans, Some rl2, s')))))"

definition writeRegisterError :: "('b, 's) register_host \<Rightarrow> nat \<Rightarrow> string \<Rightarrow> string \<Rightarrow> rw \<Rightarrow> rw" where
  "writeRegisterError H code errCode desc w =
     rw_Write (rh_EncodeError H errCode desc) (rw_WriteHeader code (rw_header (h_Set ''Content-Type'' ''application/json'') w))"

definition writeRegisterRateLimited :: "('b, 's) register_host \<Rightarrow> int \<Rightarrow> rw \<Rightarrow> rw" where
  "writeRegisterRateLimited H retryAfterSeconds w =
     writeRegisterError H 429 ''temporarily_unavailable'' ''registration rate limit exceeded; retry later''
       (rw_header (h_Set ''Retry-After'' (FormatInt retryAfterSeconds)) w)"

definition oauthRegisterHandler ::
  "('b, 's) register_host \<Rightarrow> instant \<Rightarrow> goerror + string \<Rightarrow> header \<Rightarrow> string \<Rightarrow> registerRequest option \<Rightarrow> rw \<Rightarrow> 'b registerLimiter option \<times> 's \<Rightarrow>
   rw \<times> 'b registerLimiter option \<times> 's" where
  "oauthRegisterHandler H now rnd h remote decoded w st =
     (case oauth_register H now rnd h remote decoded st of
        (ans, st') \<Rightarrow>
          (case ans of
             RegError code err desc \<Rightarrow> writeRegisterError H code err desc w
           | RegLimited secs \<Rightarrow> writeRegisterRateLimited H secs w
           | RegCreated client \<Rightarrow>
               rw_Write (rh_EncodeClient H client) (rw_WriteHeader 201 (rw_header (h_Set ''Content-Type'' ''application/json'') w)), st'))"

section \<open>Eviction changes no decision\<close>

text \<open>The per-address limit without eviction, as the reference.\<close>

definition allow_kept :: "'b rate_lib \<Rightarrow> instant \<Rightarrow> string \<Rightarrow> 'b perIPEntry gomap \<Rightarrow> bool \<times> 'b perIPEntry gomap" where
  "allow_kept R now ip m =
     (if ip = [] then (True, m)
      else case rl_Allow R now (ip_bucket R m ip) of (ok, b) \<Rightarrow> (ok, AList.update ip \<lparr>pi_limiter = b, pi_lastSeen = now\<rparr> m))"

fun run_limiter :: "'b rate_lib \<Rightarrow> (instant \<times> string) list \<Rightarrow> 'b registerLimiter \<Rightarrow> bool list \<times> 'b registerLimiter" where
  "run_limiter R [] rl = ([], rl)"
| "run_limiter R ((t, ip) # rs) rl =
     (case allowIP R t ip rl of (ok, rl1) \<Rightarrow> (case run_limiter R rs rl1 of (oks, rl2) \<Rightarrow> (ok # oks, rl2)))"

fun run_kept :: "'b rate_lib \<Rightarrow> (instant \<times> string) list \<Rightarrow> 'b perIPEntry gomap \<Rightarrow> bool list" where
  "run_kept R [] m = []"
| "run_kept R ((t, ip) # rs) m = (case allow_kept R t ip m of (ok, m1) \<Rightarrow> ok # run_kept R rs m1)"

text \<open>The documented bucket: it starts full and refills at its rate, so one of five tokens at one token in five seconds that
  was last asked at least 25 seconds ago answers as a new one.\<close>

definition bucket_after :: "'b rate_lib \<Rightarrow> instant list \<Rightarrow> 'b" where
  "bucket_after R us = fold (\<lambda>t b. snd (rl_Allow R t b)) us (rl_NewLimiter R perIPRegisterRate perIPRegisterBurst)"

definition refill_law :: "'b rate_lib \<Rightarrow> bool" where
  "refill_law R \<longleftrightarrow> (\<forall>us t'. sorted us \<and> us \<noteq> [] \<and> 25 * second \<le> t' - last us \<longrightarrow>
     rl_Allow R t' (bucket_after R us) = rl_Allow R t' (bucket_after R []))"

definition honest :: "'b rate_lib \<Rightarrow> instant \<Rightarrow> 'b perIPEntry \<Rightarrow> bool" where
  "honest R now e \<longleftrightarrow> (\<exists>us. sorted us \<and> us \<noteq> [] \<and> last us = pi_lastSeen e \<and> pi_limiter e = bucket_after R us \<and> pi_lastSeen e \<le> now)"

text \<open>What the two have in common: an address is known to both alike, or was evicted after its idle time.\<close>

definition evicted_like :: "'b rate_lib \<Rightarrow> instant \<Rightarrow> 'b registerLimiter \<Rightarrow> 'b perIPEntry gomap \<Rightarrow> bool" where
  "evicted_like R now rl m \<longleftrightarrow> distinct (map fst (lm_perIP rl)) \<and> lm_lastGC rl \<le> now \<and>
     (\<forall>ip e. map_of (lm_perIP rl) ip = Some e \<longrightarrow> lm_lastGC rl - pi_lastSeen e \<le> perIPEvictionMaxIdleTime) \<and>
     (\<forall>ip e. map_of m ip = Some e \<longrightarrow> honest R now e) \<and>
     (\<forall>ip. map_of (lm_perIP rl) ip = map_of m ip \<or>
        (map_of (lm_perIP rl) ip = None \<and> (\<exists>e. map_of m ip = Some e \<and> now - pi_lastSeen e > perIPEvictionMaxIdleTime)))"

lemma map_of_filter_distinct:
  assumes "distinct (map fst xs)"
  shows "map_of (filter (\<lambda>(k, v). p v) xs) k = (case map_of xs k of Some v \<Rightarrow> if p v then Some v else None | None \<Rightarrow> None)"
  using assms
proof (induction xs)
  case (Cons x xs)
  have "map_of (filter (\<lambda>(k, v). p v) xs) (fst x) = None"
    using Cons.prems by (auto simp: map_of_eq_None_iff)
  then show ?case using Cons by (cases x) auto
qed simp

lemma gc_perIP:
  assumes "distinct (map fst (lm_perIP rl))"
  shows "map_of (lm_perIP (gcLocked now rl)) ip =
    (case map_of (lm_perIP rl) ip of
       None \<Rightarrow> None
     | Some e \<Rightarrow> if perIPEvictionInterval \<le> now - lm_lastGC rl \<and> perIPEvictionMaxIdleTime < now - pi_lastSeen e then None else Some e)"
  using assms by (auto simp: gcLocked_def map_of_filter_distinct simp del: map_of_eq_Some_iff split: option.splits)

lemma gc_evicted_like:
  assumes "evicted_like R now rl m"
  shows "evicted_like R now (gcLocked now rl) m" "now - lm_lastGC (gcLocked now rl) < perIPEvictionInterval"
proof -
  let ?F = "map_of (lm_perIP rl)" and ?G = "map_of (lm_perIP (gcLocked now rl))"
  have d: "distinct (map fst (lm_perIP rl))" and F: "?F ip = Some e \<Longrightarrow> lm_lastGC rl - pi_lastSeen e \<le> perIPEvictionMaxIdleTime"
    "?F ip = map_of m ip \<or> (?F ip = None \<and> (\<exists>e. map_of m ip = Some e \<and> now - pi_lastSeen e > perIPEvictionMaxIdleTime))" for ip e
    using assms unfolding evicted_like_def by blast+
  note G = gc_perIP [OF d, of now]
  have "distinct (map fst (lm_perIP (gcLocked now rl)))" using d distinct_map_filter by (auto simp: gcLocked_def)
  moreover have "lm_lastGC (gcLocked now rl) \<le> now" using assms by (simp add: gcLocked_def evicted_like_def)
  moreover have "lm_lastGC (gcLocked now rl) - pi_lastSeen e \<le> perIPEvictionMaxIdleTime" if "?G ip = Some e" for ip e
    using that F(1) [of ip e] unfolding G by (auto simp: gcLocked_def simp del: map_of_eq_Some_iff split: option.splits if_splits)
  moreover have "?G ip = map_of m ip \<or> (?G ip = None \<and> (\<exists>e. map_of m ip = Some e \<and> now - pi_lastSeen e > perIPEvictionMaxIdleTime))" for ip
    using F(2) [of ip] unfolding G by (cases "?F ip"; cases "map_of m ip") (auto simp del: map_of_eq_Some_iff)
  ultimately show "evicted_like R now (gcLocked now rl) m" using assms unfolding evicted_like_def by blast
  show "now - lm_lastGC (gcLocked now rl) < perIPEvictionInterval"
    by (auto simp: gcLocked_def perIPEvictionInterval_def)
qed

lemma evicted_like_later: "evicted_like R now rl m \<Longrightarrow> now \<le> t \<Longrightarrow> evicted_like R t rl m"
  unfolding evicted_like_def honest_def by (smt (verit))

lemma idle_bucket:
  assumes "refill_law R" "evicted_like R now rl m"
  shows "rl_Allow R now (ip_bucket R (lm_perIP rl) ip) = rl_Allow R now (ip_bucket R m ip)"
proof -
  consider "map_of (lm_perIP rl) ip = map_of m ip" |
    e where "map_of (lm_perIP rl) ip = None" "map_of m ip = Some e" "now - pi_lastSeen e > perIPEvictionMaxIdleTime"
    using assms(2) unfolding evicted_like_def by blast
  then show ?thesis
  proof cases
    case 2
    obtain us where us: "sorted us" "us \<noteq> []" "last us = pi_lastSeen e" "pi_limiter e = bucket_after R us"
      using assms(2) 2(2) unfolding evicted_like_def honest_def by blast
    then have "rl_Allow R now (bucket_after R us) = rl_Allow R now (bucket_after R [])"
      using assms(1) 2(3) unfolding refill_law_def by (simp add: perIPEvictionMaxIdleTime_def)
    then show ?thesis using 2 us by (simp add: ip_bucket_def bucket_after_def)
  qed (simp add: ip_bucket_def)
qed

lemma sorted_below_last: "sorted us \<Longrightarrow> x \<in> set us \<Longrightarrow> x \<le> last (us :: int list)"
  by (induction us) auto

lemma honest_next:
  assumes "\<forall>ip e. map_of m ip = Some e \<longrightarrow> honest R now e" "rl_Allow R now (ip_bucket R m ip) = (ok, b)"
  shows "honest R now \<lparr>pi_limiter = b, pi_lastSeen = now\<rparr>"
proof (cases "map_of m ip")
  case None
  then show ?thesis using assms(2) unfolding honest_def
    by (intro exI [of _ "[now]"]) (simp add: ip_bucket_def bucket_after_def)
next
  case (Some e)
  then obtain us where "sorted us" "us \<noteq> []" "last us = pi_lastSeen e" "pi_limiter e = bucket_after R us" "pi_lastSeen e \<le> now"
    using assms(1) unfolding honest_def by blast
  then show ?thesis using assms(2) Some unfolding honest_def
    by (intro exI [of _ "us @ [now]"]) (auto simp: ip_bucket_def bucket_after_def sorted_append dest: sorted_below_last)
qed

lemma step_evicted_like:
  assumes "refill_law R" "evicted_like R now rl m" "allowIP R now ip rl = (ok, rl')" "allow_kept R now ip m = (ok', m')"
  shows "ok = ok' \<and> evicted_like R now rl' m' \<and> (ip \<noteq> [] \<longrightarrow> now - lm_lastGC rl' < perIPEvictionInterval)"
proof (cases "ip = []")
  case False
  let ?g = "gcLocked now rl"
  note gc = gc_evicted_like [OF assms(2)]
  obtain b where a: "rl_Allow R now (ip_bucket R m ip) = (ok, b)" and rl': "rl' = ?g\<lparr>lm_perIP := AList.update ip \<lparr>pi_limiter = b, pi_lastSeen = now\<rparr> (lm_perIP ?g)\<rparr>"
    using assms(3) False idle_bucket [OF assms(1) gc(1), of ip] by (auto simp: allowIP_def Let_def split: prod.splits)
  then have m': "m' = AList.update ip \<lparr>pi_limiter = b, pi_lastSeen = now\<rparr> m" "ok = ok'" using assms(4) False by (auto simp: allow_kept_def)
  have "honest R now \<lparr>pi_limiter = b, pi_lastSeen = now\<rparr>"
    using gc(1) a by (intro honest_next) (auto simp: evicted_like_def)
  then have "evicted_like R now rl' m'" using gc(1)
    by (auto simp: evicted_like_def rl' m'(1) perIPEvictionMaxIdleTime_def simp del: map_of_eq_Some_iff)
  then show ?thesis using gc(2) m'(2) by (simp add: rl')
qed (use assms in \<open>auto simp: allowIP_def allow_kept_def\<close>)

lemma run_evicted_like:
  assumes "refill_law R" "evicted_like R now rl m" "sorted (map fst rs)" "\<forall>(t, ip) \<in> set rs. now \<le> t"
  shows "fst (run_limiter R rs rl) = run_kept R rs m \<and>
    (rs \<noteq> [] \<and> snd (last rs) \<noteq> [] \<longrightarrow>
       (\<forall>(ip, e) \<in> set (lm_perIP (snd (run_limiter R rs rl))). fst (last rs) - pi_lastSeen e < 20 * minute))"
  using assms(2-)
proof (induction rs arbitrary: now rl m)
  case (Cons q rs)
  obtain t ip where q: "q = (t, ip)" by (cases q)
  obtain ok rl' ok' m' where s: "allowIP R t ip rl = (ok, rl')" "allow_kept R t ip m = (ok', m')"
    by (cases "allowIP R t ip rl"; cases "allow_kept R t ip m") auto
  have e: "evicted_like R t rl m" using Cons.prems q by (auto intro: evicted_like_later)
  note st = step_evicted_like [OF assms(1) e s]
  have ih: "fst (run_limiter R rs rl') = run_kept R rs m' \<and>
    (rs \<noteq> [] \<and> snd (last rs) \<noteq> [] \<longrightarrow>
       (\<forall>(ip, e) \<in> set (lm_perIP (snd (run_limiter R rs rl'))). fst (last rs) - pi_lastSeen e < 20 * minute))"
    using Cons.prems q st by (intro Cons.IH [of t]) auto
  have "t - pi_lastSeen e < 20 * minute" if "(ip', e) \<in> set (lm_perIP rl')" "ip \<noteq> []" for ip' e
  proof -
    have "distinct (map fst (lm_perIP rl'))" using st by (simp add: evicted_like_def)
    then have "lm_lastGC rl' - pi_lastSeen e \<le> perIPEvictionMaxIdleTime" using st that(1) by (auto simp: evicted_like_def)
    then show ?thesis using st that(2) by (simp add: perIPEvictionMaxIdleTime_def perIPEvictionInterval_def)
  qed
  then show ?case using ih st s by (auto simp: q split: prod.splits)
qed simp

section \<open>Registering and looking up\<close>

lemma keep_unique_self: "distinct (kept @ ys) \<Longrightarrow> list_all P ys \<Longrightarrow> keep_unique P kept ys = kept @ ys"
  by (induction ys arbitrary: kept) auto

lemma keep_unique_twice: "keep_unique P [] (keep_unique P [] xs) = keep_unique P [] xs"
  using keep_unique_self [of "[]" "keep_unique P [] xs" P] by (auto simp: distinct_keep_unique set_keep_unique list_all_iff)

lemma FilterRedirectURIs_twice: "FilterRedirectURIs up (FilterRedirectURIs up us schemes) schemes = FilterRedirectURIs up us schemes"
  by (simp add: FilterRedirectURIs_def keep_unique_twice)

lemma FilterGrantTypes_twice: "FilterGrantTypes gs \<noteq> [] \<Longrightarrow> FilterGrantTypes (FilterGrantTypes gs) = FilterGrantTypes gs"
proof -
  have "keep_unique (\<lambda>g. g \<in> set SupportedGrantTypes) [] SupportedGrantTypes = SupportedGrantTypes"
    using keep_unique_self [of "[]" SupportedGrantTypes "\<lambda>g. g \<in> set SupportedGrantTypes"]
    by (simp add: list_all_iff) (simp add: SupportedGrantTypes_def)
  then show "FilterGrantTypes gs \<noteq> [] \<Longrightarrow> FilterGrantTypes (FilterGrantTypes gs) = FilterGrantTypes gs"
    by (auto simp: FilterGrantTypes_def keep_unique_twice)
qed

lemma created:
  assumes "oauth_register H now rnd h remote decoded st = (RegCreated c, st')"
  obtains req where "decoded = Some req" "store_Register (rh_codec H) (rh_ops H) (rh_ttl H) now rnd
      (registered_client req (FilterRedirectURIs (rh_url H) (rq_RedirectURIs req) (rh_schemes H)) (FilterGrantTypes (rq_GrantTypes req))) (snd st) = (Inr c, snd st')"
    "FilterRedirectURIs (rh_url H) (rq_RedirectURIs req) (rh_schemes H) \<noteq> []" "FilterGrantTypes (rq_GrantTypes req) \<noteq> []"
proof -
  obtain s where s: "register_client H now rnd decoded (snd st) = (RegCreated c, s)" "snd st' = s"
    using assms by (auto simp: oauth_register_def split: option.splits prod.splits bool.splits)
  then show thesis using that by (auto simp: register_client_def Let_def split: option.splits prod.splits sum.splits if_splits)
qed

lemma registered:
  assumes "store_Register cd ops ttl now rnd c0 s = (Inr c, s')"
  obtains blob where "clc_Marshal cd c = Inr blob" "s' = snd (op_Set ops now (cl_ClientID c) blob [WithTTL ttl] s)" "HasPrefix (cl_ClientID c) ClientIDPrefix"
    "cl_RedirectURIs c = cl_RedirectURIs c0" "cl_GrantTypes c = cl_GrantTypes c0"
    "cl_TokenEndpointAuthMethod c0 \<noteq> [] \<longrightarrow> cl_TokenEndpointAuthMethod c = cl_TokenEndpointAuthMethod c0"
  using assms by (auto simp: store_Register_def newClientID_def Let_def HasPrefix_append split: sum.splits prod.splits option.splits)

lemma looked_up:
  assumes "unbounded s" "clc_Marshal cd c = Inr blob" "clc_Unmarshal cd blob = Inr c" "t \<le> now + ttl"
  shows "fst (store_Get cd mem_ops ttl t (cl_ClientID c) (snd (op_Set mem_ops now (cl_ClientID c) blob [WithTTL ttl] s))) = Inr (Some c)"
proof -
  let ?s = "snd (op_Set mem_ops now (cl_ClientID c) blob [WithTTL ttl] s)"
  have "cache_view t ?s (cl_ClientID c) = Some blob" using memu.set_self [OF assms(1)] assms(4) by (simp add: mem_ttl_deadline)
  then have "fst (op_Get mem_ops t (cl_ClientID c) ?s) = Inr (blob, True, True)"
    using memu.get_result [OF memu.set_inv [OF assms(1)], of t "cl_ClientID c"] by (metis found_result_simps(2))
  then obtain s1 where g: "op_Get mem_ops t (cl_ClientID c) ?s = (Inr (blob, True, True), s1)" by (metis prod.collapse)
  show ?thesis unfolding store_Get_def g using assms(3) by simp
qed

section \<open>Properties\<close>


text \<open>C39: evicting idle addresses changes no decision and keeps the table small. For requests in the order of their clock, a
  new limiter admits and refuses exactly as one that never forgets an address; after a request with an address, only
  addresses seen within the last twenty minutes are remembered.\<close>

theorem limiter_eviction_transparent:
  assumes "refill_law R" "sorted (map fst rs)" "\<forall>(t, ip) \<in> set rs. 0 \<le> t"
  shows "fst (run_limiter R rs (newRegisterLimiter R n)) = run_kept R rs [] \<and>
    (rs \<noteq> [] \<and> snd (last rs) \<noteq> [] \<longrightarrow>
       (\<forall>(ip, e) \<in> set (lm_perIP (snd (run_limiter R rs (newRegisterLimiter R n)))). fst (last rs) - pi_lastSeen e < 20 * minute))"
proof -
  have "evicted_like R 0 (newRegisterLimiter R n) []" by (simp add: evicted_like_def newRegisterLimiter_def zero_instant_def Let_def)
  from run_evicted_like [OF assms(1) this assms(2,3)] show ?thesis .
qed

section \<open>A bucket and a host for the witnesses\<close>

text \<open>A token bucket in nanotokens: \<open>rate\<close> tokens in ten seconds are \<open>rate\<close> nanotokens in ten nanoseconds.\<close>

record bucket =
  bk_rate :: nat
  bk_burst :: int
  bk_tokens :: int
  bk_last :: "instant option"

definition bucket_level :: "instant \<Rightarrow> bucket \<Rightarrow> int" where
  "bucket_level t b = (case bk_last b of None \<Rightarrow> 10 * second * bk_burst b
     | Some l \<Rightarrow> min (10 * second * bk_burst b) (bk_tokens b + int (bk_rate b) * max 0 (t - l)))"

definition demo_rate :: "bucket rate_lib" where
  "demo_rate = \<lparr>rl_NewLimiter = (\<lambda>r n. \<lparr>bk_rate = r, bk_burst = n, bk_tokens = 10 * second * n, bk_last = None\<rparr>),
     rl_Allow = (\<lambda>t b. let v = bucket_level t b; ok = 10 * second \<le> v
       in (ok, b\<lparr>bk_tokens := (if ok then v - 10 * second else v), bk_last := Some t\<rparr>))\<rparr>"

lemma demo_bucket_after:
  "bk_rate (bucket_after demo_rate us) = 2 \<and> bk_burst (bucket_after demo_rate us) = 5 \<and> 0 \<le> bk_tokens (bucket_after demo_rate us) \<and>
   (us \<noteq> [] \<longrightarrow> bk_last (bucket_after demo_rate us) = Some (last us))"
proof (induction us rule: rev_induct)
  case (snoc t us)
  then have "0 \<le> bucket_level t (bucket_after demo_rate us)" by (auto simp: bucket_level_def split: option.splits)
  with snoc show ?case by (simp add: bucket_after_def demo_rate_def Let_def)
qed (simp add: bucket_after_def demo_rate_def perIPRegisterRate_def perIPRegisterBurst_def)

lemma demo_refill_law: "refill_law demo_rate"
proof -
  have "bucket_level t (bucket_after demo_rate us) = 50 * second" if "us \<noteq> []" "25 * second \<le> t - last us" for us t
    using that demo_bucket_after [of us] by (simp add: bucket_level_def)
  moreover have "bucket_level t (bucket_after demo_rate []) = 50 * second" "bk_tokens (bucket_after demo_rate []) = 50 * second" for t
    by (simp_all add: bucket_level_def bucket_after_def demo_rate_def perIPRegisterRate_def perIPRegisterBurst_def)
  ultimately show ?thesis using demo_bucket_after demo_bucket_after [of "[]"]
    by (auto simp: refill_law_def demo_rate_def Let_def intro!: bucket.equality)
qed

theorem limiter_eviction_transparent_witness:
  "fst (run_limiter demo_rate [(0, ''a''), (second, ''a''), (30 * minute, ''b'')] (newRegisterLimiter demo_rate 0)) = [True, True, True] \<and>
   \<not> (\<exists>e. (''a'', e) \<in> set (lm_perIP (snd (run_limiter demo_rate [(0, ''a''), (second, ''a''), (30 * minute, ''b'')] (newRegisterLimiter demo_rate 0)))) \<and>
      pi_lastSeen e \<le> second)"
proof -
  let ?rs = "[(0, ''a''), (second, ''a''), (30 * minute, ''b'')]"
  have "sorted (map fst ?rs)" "\<forall>(t, ip) \<in> set ?rs. 0 \<le> t" by simp_all
  from limiter_eviction_transparent [OF demo_refill_law this, of 0] show ?thesis
    by (auto simp: demo_rate_def allow_kept_def ip_bucket_def bucket_level_def perIPRegisterRate_def perIPRegisterBurst_def Let_def)
qed

text \<open>The one client the codec knows.\<close>

definition demo_registered :: Client where
  "demo_registered = \<lparr>cl_ClientID = ''dcr_'', cl_RedirectURIs = [''https://app.example/cb''], cl_GrantTypes = [''authorization_code''],
     cl_ResponseTypes = [''code''], cl_Scope = [], cl_ClientName = [], cl_TokenEndpointAuthMethod = ''none'', cl_CreatedAt = 0\<rparr>"

definition demo_register_codec :: client_codec where
  "demo_register_codec = \<lparr>clc_Marshal = (\<lambda>c. if c = demo_registered then Inr ''c'' else Inl (errorf ''json'')),
     clc_Unmarshal = (\<lambda>_. Inr demo_registered)\<rparr>"

definition demo_register_host :: "(bucket, InMemoryCache) register_host" where
  "demo_register_host = \<lparr>rh_rate = demo_rate, rh_url = demo_url, rh_codec = demo_register_codec, rh_ops = mem_ops, rh_ttl = hour,
     rh_schemes = [''https''], rh_SplitHostPort = (\<lambda>_. None), rh_EncodeError = (\<lambda>_ _. []), rh_EncodeClient = cl_ClientID\<rparr>"

definition demo_registration :: registerRequest where
  "demo_registration = \<lparr>rq_RedirectURIs = [''javascript:x'', ''https://app.example/cb''], rq_GrantTypes = [''password'', ''authorization_code''],
     rq_ResponseTypes = [], rq_Scope = [], rq_ClientName = [], rq_TokenEndpointAuthMethod = ''client_secret_basic''\<rparr>"

lemma demo_filtered:
  "FilterRedirectURIs demo_url [''javascript:x'', ''https://app.example/cb''] [''https''] = [''https://app.example/cb'']"
  "FilterGrantTypes [''password'', ''authorization_code''] = [''authorization_code'']"
  by code_simp+

lemma demo_admitted:
  "\<exists>rl1 rl2. allowIP demo_rate 0 ''1.2.3.4'' (newRegisterLimiter demo_rate 0) = (True, rl1) \<and> allowGlobal demo_rate 0 rl1 = (True, rl2)"
  by (simp add: allowIP_def allowGlobal_def newRegisterLimiter_def gcLocked_def ip_bucket_def demo_rate_def bucket_level_def Let_def
      globalRegisterBurst_def globalRegisterRate_def perIPRegisterBurst_def perIPRegisterRate_def)

lemma demo_stored: "register_client demo_register_host 0 (Inr []) (Some demo_registration) s = (RegCreated demo_registered, cache_Set 0 ''dcr_'' ''c'' [WithTTL hour] s)"
  by (simp add: register_client_def demo_register_host_def demo_registration_def demo_filtered registered_client_def store_Register_def newClientID_def
      ClientIDPrefix_def demo_register_codec_def demo_registered_def Unix_def)


end
