(* ===== verification/Listings.thy ===== *)
theory Listings
  imports Proxy
begin

text \<open>
  What a role builder is offered: the catalog of the entitlements this host checks
  (\<open>src/internal/host/entitlement_catalog.go\<close>) and the names a resource has
  (\<open>src/internal/host/resource_names.go\<close>), answered by the host for its pages and functions and by the owning
  function, called through the host's own mux, for every other resource.

  Parameters: the predicates of the entitlements library (\<open>Dominates\<close>, \<open>VerifyAttenuation\<close>,
  \<open>ValidateRequirement\<close>), the JSON and Base64 codecs, \<open>strings.ToLower\<close> (any function: nothing depends on which
  characters it maps), and the mux as what a request makes its handler do with the writer.
  The route of the names exists only on a host with an authorization checker.
\<close>

section \<open>Registered paths\<close>

definition FunctionPathType :: string where "FunctionPathType = ''FUNCTION''"
definition PagePathType :: string where "PagePathType = ''PAGE''"

text \<open>The value of an operation's extension: built in code or decoded, or left as raw JSON.\<close>

datatype extension = Decoded goany | RawMessage string

record api_operation =
  ao_Security :: "requirement list option"
  ao_Extensions :: "extension gomap"

record PathItem =
  pi_Connect :: "api_operation option"
  pi_Delete :: "api_operation option"
  pi_Get :: "api_operation option"
  pi_Head :: "api_operation option"
  pi_Options :: "api_operation option"
  pi_Patch :: "api_operation option"
  pi_Post :: "api_operation option"
  pi_Put :: "api_operation option"
  pi_Trace :: "api_operation option"

record PathInfo =
  in_Paths :: "PathItem gomap"
  in_Type :: string

definition pathItemOperations :: "PathItem \<Rightarrow> api_operation list" where
  "pathItemOperations item =
     List.map_filter id
       [pi_Connect item, pi_Delete item, pi_Get item, pi_Head item, pi_Options item,
        pi_Patch item, pi_Post item, pi_Put item, pi_Trace item]"

section \<open>The entitlement catalog\<close>

definition entitlementCatalogPath :: string where "entitlementCatalogPath = ''/-/entitlements/catalog''"
definition kdexEntitlementsExtension :: string where "kdexEntitlementsExtension = ''x-kdex-entitlements''"

record resourceName =
  rn_Name :: string
  rn_Label :: string

record resourceNamesPage =
  np_Items :: "resourceName list"
  np_Next :: string

record listing_lib =
  ll_ValidateRequirement :: "string \<Rightarrow> goerror option"
  ll_Dominates :: "string \<Rightarrow> string \<Rightarrow> bool"
  ll_VerifyAttenuation :: "string list \<Rightarrow> string list \<Rightarrow> string \<times> bool"
  ll_UnmarshalStrings :: "string \<Rightarrow> string list option"
  ll_UnmarshalDecl :: "string \<Rightarrow> string option"     \<comment> \<open>the field \<open>resource\<close>\<close>
  ll_ToLower :: "string \<Rightarrow> string"
  ll_ValidUTF8 :: "string \<Rightarrow> bool"
  ll_Marshal :: "resourceName \<Rightarrow> string"
  ll_Unmarshal :: "string \<Rightarrow> resourceName option"
  ll_Encode64 :: "string \<Rightarrow> string"
  ll_Decode64 :: "string \<Rightarrow> string option"
  ll_UnmarshalPage :: "string \<Rightarrow> resourceNamesPage option"
  ll_EncodeQuery :: "url_values \<Rightarrow> string"
  ll_EscapePath :: "string \<Rightarrow> string"
  ll_StatusText :: "nat \<Rightarrow> string"
  ll_Quote :: "string \<Rightarrow> string"

definition extensionStrings :: "listing_lib \<Rightarrow> extension option \<Rightarrow> string list" where
  "extensionStrings L v =
     (case v of
        Some (Decoded (VStrs ss)) \<Rightarrow> ss
      | Some (Decoded (VList as)) \<Rightarrow> string_items as
      | Some (RawMessage raw) \<Rightarrow> (case ll_UnmarshalStrings L raw of Some out \<Rightarrow> out | None \<Rightarrow> [])
      | _ \<Rightarrow> [])"

type_synonym pair_table = "unit gomap gomap"

definition addPair :: "string \<Rightarrow> string \<Rightarrow> pair_table \<Rightarrow> pair_table" where
  "addPair resource verb pairs =
     (let verbs = (case map_of pairs resource of None \<Rightarrow> [] | Some vs \<Rightarrow> vs)
      in AList.update resource (AList.update verb () verbs) pairs)"

definition add_requirement :: "listing_lib \<Rightarrow> string \<Rightarrow> pair_table \<times> unit gomap \<Rightarrow> pair_table \<times> unit gomap" where
  "add_requirement L req ps =
     (if ll_ValidateRequirement L req \<noteq> None then ps
      else case Split req CHR '':'' of
             [_] \<Rightarrow> (fst ps, AList.update req () (snd ps))
           | [resource, verb] \<Rightarrow> (addPair resource verb (fst ps), snd ps)
           | [resource, _, verb] \<Rightarrow> (addPair resource verb (fst ps), snd ps)
           | _ \<Rightarrow> ps)"

definition operation_requirements :: "listing_lib \<Rightarrow> api_operation \<Rightarrow> string list" where
  "operation_requirements L op =
     (case ao_Security op of None \<Rightarrow> [] | Some srs \<Rightarrow> concat (map (\<lambda>sr. concat (map snd sr)) srs)) @
     extensionStrings L (map_of (ao_Extensions op) kdexEntitlementsExtension)"

definition path_requirements :: "listing_lib \<Rightarrow> PathInfo \<Rightarrow> string list" where
  "path_requirements L info =
     concat (map (\<lambda>(_, item). concat (map (operation_requirements L) (pathItemOperations item))) (in_Paths info))"

definition declare_path :: "listing_lib \<Rightarrow> PathInfo \<Rightarrow> pair_table \<times> unit gomap \<Rightarrow> pair_table \<times> unit gomap" where
  "declare_path L info ps =
     (let ps1 = (if in_Type info = PagePathType then (addPair ''pages'' ''read'' (fst ps), snd ps)
                 else if in_Type info = FunctionPathType then (addPair ''functions'' ''read'' (fst ps), snd ps)
                 else ps)
      in fold (add_requirement L) (path_requirements L info) ps1)"

definition declaredEntitlements :: "listing_lib \<Rightarrow> PathInfo gomap \<Rightarrow> pair_table \<times> unit gomap" where
  "declaredEntitlements L paths = fold (\<lambda>(_, info). declare_path L info) paths ([], [])"

record catalogVerbChoice =
  cv_Verb :: string
  cv_All :: "bool option"
  cv_Names :: "string list"

record catalogResource =
  ct_Resource :: string
  ct_Verbs :: "catalogVerbChoice list"

record entitlementCatalog =
  ec_Resources :: "catalogResource list"
  ec_Scopes :: "string list"

definition sortedKeys :: "'v gomap \<Rightarrow> string list" where
  "sortedKeys m = sort (mapkeys m)"

fun grantable_from :: "listing_lib \<Rightarrow> string \<Rightarrow> string \<Rightarrow> string list \<Rightarrow> string list \<Rightarrow> bool \<times> string list" where
  "grantable_from L resource verb names [] = (False, sort names)"
| "grantable_from L resource verb names (h # held) =
     (let parts = Split h CHR '':'' in
      if length parts < 2 \<or> length parts > 3 \<or> parts ! 0 \<noteq> resource then grantable_from L resource verb names held
      else if ll_Dominates L h (resource @ '':*:'' @ verb) then (True, [])
      else if length parts = 3 \<and> ll_Dominates L h (resource @ '':'' @ parts ! 1 @ '':'' @ verb) \<and> parts ! 1 \<notin> set names
      then grantable_from L resource verb (names @ [parts ! 1]) held
      else grantable_from L resource verb names held)"

definition grantable :: "listing_lib \<Rightarrow> string list \<Rightarrow> string \<Rightarrow> string \<Rightarrow> bool \<times> string list" where
  "grantable L held resource verb = grantable_from L resource verb [] held"

text \<open>A nil slice of held entitlements, \<open>None\<close>, asks for the catalog unclamped; an empty one does not.\<close>

definition verb_choice :: "listing_lib \<Rightarrow> string list option \<Rightarrow> string \<Rightarrow> string \<Rightarrow> catalogVerbChoice option" where
  "verb_choice L held resource verb =
     (case held of
        None \<Rightarrow> Some \<lparr>cv_Verb = verb, cv_All = None, cv_Names = []\<rparr>
      | Some hs \<Rightarrow>
          (case grantable L hs resource verb of (all, names) \<Rightarrow>
             if \<not> all \<and> names = [] then None
             else Some \<lparr>cv_Verb = verb, cv_All = Some all, cv_Names = (if all then [] else names)\<rparr>))"

definition catalogFrom :: "listing_lib \<Rightarrow> pair_table \<Rightarrow> unit gomap \<Rightarrow> string list option \<Rightarrow> entitlementCatalog" where
  "catalogFrom L pairs scopes held =
     (let resource_of = (\<lambda>r. \<lparr>ct_Resource = r,
            ct_Verbs = List.map_filter (verb_choice L held r)
                         (sortedKeys (case map_of pairs r of None \<Rightarrow> [] | Some vs \<Rightarrow> vs))\<rparr>)
      in \<lparr>ec_Resources = filter (\<lambda>res. ct_Verbs res \<noteq> []) (map resource_of (sortedKeys pairs)),
          ec_Scopes = filter (\<lambda>s. case held of None \<Rightarrow> True | Some hs \<Rightarrow> s \<in> set hs) (sortedKeys scopes)\<rparr>)"

text \<open>The slice a claim holds, nil for a claim that is absent or of another type.\<close>

definition claim_slice :: "goany option \<Rightarrow> string list option" where
  "claim_slice v =
     (case v of Some (VStrs ss) \<Rightarrow> Some ss | Some (VList as) \<Rightarrow> Some (string_items as) | _ \<Rightarrow> None)"

definition catalog_answer ::
  "listing_lib \<Rightarrow> PathInfo gomap \<Rightarrow> url_values \<Rightarrow> mapclaims option \<Rightarrow> entitlementCatalog option" where
  "catalog_answer L registeredPaths query ctx =
     (case declaredEntitlements L registeredPaths of (pairs, scopes) \<Rightarrow>
        if values_Get query ''all'' = ''true'' then Some (catalogFrom L pairs scopes None)
        else case ctx of
               None \<Rightarrow> None
             | Some ac \<Rightarrow> Some (catalogFrom L pairs scopes (claim_slice (map_of ac ''entitlements''))))"

definition writeCatalog :: "(entitlementCatalog \<Rightarrow> string) \<Rightarrow> entitlementCatalog \<Rightarrow> rw \<Rightarrow> rw" where
  "writeCatalog json cat w =
     rw_Write (json cat) (rw_header (h_Set ''Cache-Control'' ''private, no-store'' \<circ> h_Set ''Content-Type'' ''application/json'') w)"

definition entitlementCatalogHandler ::
  "listing_lib \<Rightarrow> url_parse \<Rightarrow> string \<Rightarrow> (entitlementCatalog \<Rightarrow> string) \<Rightarrow> PathInfo gomap \<Rightarrow> url_values \<Rightarrow> mapclaims option \<Rightarrow> rw \<Rightarrow> rw" where
  "entitlementCatalogHandler L up issuer json registeredPaths query ctx w =
     (case catalog_answer L registeredPaths query ctx of
        Some cat \<Rightarrow> writeCatalog json cat w
      | None \<Rightarrow> denial_Write up \<lparr>o_Outcome = Unauthenticated, o_Issuer = issuer, o_ResourceMetadata = [], o_Scopes = []\<rparr> w)"

section \<open>Resource names\<close>

definition resourceNamesPath :: string where "resourceNamesPath = ''/-/entitlements/resources/{resource}/names''"
definition kdexResourceListingExtension :: string where "kdexResourceListingExtension = ''x-kdex-resource-listing''"
definition resourceNamesDefaultLimit :: nat where "resourceNamesDefaultLimit = 50"
definition resourceNamesMaxLimit :: nat where "resourceNamesMaxLimit = 200"
definition maxListingResponseBytes :: nat where "maxListingResponseBytes = 2 ^ 20"
definition hostNativeResources :: "string list" where "hostNativeResources = [''pages'', ''functions'']"

text \<open>\<open>strings.Compare\<close>.\<close>

definition strings_Compare :: "string \<Rightarrow> string \<Rightarrow> int" where
  "strings_Compare s t = (if s < t then - 1 else if s = t then 0 else 1)"

definition sortKey :: "listing_lib \<Rightarrow> resourceName \<Rightarrow> string" where
  "sortKey L n = (if rn_Label n \<noteq> [] then ll_ToLower L (rn_Label n) else ll_ToLower L (rn_Name n))"

definition compareNames :: "listing_lib \<Rightarrow> resourceName \<Rightarrow> resourceName \<Rightarrow> int" where
  "compareNames L a b =
     (let c = strings_Compare (sortKey L a) (sortKey L b)
      in if c \<noteq> 0 then c else strings_Compare (rn_Name a) (rn_Name b))"

text \<open>\<open>slices.SortFunc\<close>. The order of elements that compare equal is unspecified there; the names sorted here are
  unique, so that none are.\<close>

fun insert_by :: "('a \<Rightarrow> 'a \<Rightarrow> int) \<Rightarrow> 'a \<Rightarrow> 'a list \<Rightarrow> 'a list" where
  "insert_by cmp x [] = [x]"
| "insert_by cmp x (y # ys) = (if cmp x y \<le> 0 then x # y # ys else y # insert_by cmp x ys)"

definition SortFunc :: "('a \<Rightarrow> 'a \<Rightarrow> int) \<Rightarrow> 'a list \<Rightarrow> 'a list" where
  "SortFunc cmp xs = foldr (insert_by cmp) xs []"

definition encodeNamesCursor :: "listing_lib \<Rightarrow> resourceName \<Rightarrow> string" where
  "encodeNamesCursor L n = ll_Encode64 L (ll_Marshal L n)"

definition decodeNamesCursor :: "listing_lib \<Rightarrow> string \<Rightarrow> goerror + resourceName option" where
  "decodeNamesCursor L cursor =
     (if cursor = [] then Inr None
      else case ll_Decode64 L cursor of
             None \<Rightarrow> Inl (errorf ''illegal base64 data'')
           | Some b \<Rightarrow>
               (case ll_Unmarshal L b of
                  None \<Rightarrow> Inl (errorf ''invalid cursor'')
                | Some n \<Rightarrow> if rn_Name n = [] then Inl (errorf ''invalid cursor'') else Inr (Some n)))"

definition matches_query :: "listing_lib \<Rightarrow> string \<Rightarrow> resourceName \<Rightarrow> bool" where
  "matches_query L q n =
     (let lq = ll_ToLower L q
      in \<not> (lq \<noteq> [] \<and> \<not> Contains (ll_ToLower L (rn_Name n)) lq \<and> \<not> Contains (ll_ToLower L (rn_Label n)) lq))"

definition resumes_after :: "listing_lib \<Rightarrow> resourceName option \<Rightarrow> resourceName \<Rightarrow> bool" where
  "resumes_after L after n = (case after of None \<Rightarrow> True | Some a \<Rightarrow> \<not> compareNames L n a \<le> 0)"

text \<open>The handler passes a limit of at least 1 (\<open>names_limit\<close>); the code would panic on another.\<close>

definition pageOfNames :: "listing_lib \<Rightarrow> resourceName list \<Rightarrow> string \<Rightarrow> string \<Rightarrow> nat \<Rightarrow> goerror + resourceNamesPage" where
  "pageOfNames L all_names q cursor limit =
     bindE (decodeNamesCursor L cursor) (\<lambda>after.
       let items = SortFunc (compareNames L) (filter (\<lambda>n. matches_query L q n \<and> resumes_after L after n) all_names)
       in Inr (if length items > limit
               then \<lparr>np_Items = take limit items, np_Next = encodeNamesCursor L (take limit items ! (limit - 1))\<rparr>
               else \<lparr>np_Items = items, np_Next = []\<rparr>))"

record 'r listed_page =
  lp_BasePath :: string
  lp_Label :: string
  lp_ParsedRequirements :: "'r option"

definition add_name :: "string \<Rightarrow> string \<Rightarrow> resourceName list \<Rightarrow> resourceName list" where
  "add_name name label out =
     (if name = [] \<or> name \<in> set (map rn_Name out) then out else out @ [\<lparr>rn_Name = name, rn_Label = label\<rparr>])"

definition hostNativeNames ::
  "('e, 'r) AuthorizationChecker \<Rightarrow> mapclaims option \<Rightarrow> 'r listed_page list \<Rightarrow> KDexFunction list \<Rightarrow> string \<Rightarrow> resourceName list" where
  "hostNativeNames ck ctx pages functions resource =
     (let held = GetParsedEntitlements ck ctx; none = ParseRequirements ck [] in
      if resource = ''pages''
      then fold (\<lambda>ph out. case lp_ParsedRequirements ph of
                   None \<Rightarrow> out
                 | Some reqs \<Rightarrow>
                     if VerifyResourceParsedEntitlements ck ''pages'' (lp_BasePath ph) held reqs [] = Inr True
                     then add_name (lp_BasePath ph) (lp_Label ph) out else out) pages []
      else if resource = ''functions''
      then fold (\<lambda>fn out.
                   if kf_Internal fn \<or> \<not> kf_Ready fn then out
                   else if VerifyResourceParsedEntitlements ck ''functions'' (kf_BasePath fn) held none [] = Inr True
                   then add_name (kf_BasePath fn) (kf_Name fn) out else out) functions []
      else [])"

subsection \<open>The owner of a resource\<close>

definition listingResource :: "listing_lib \<Rightarrow> extension option \<Rightarrow> string" where
  "listingResource L v =
     (case v of
        Some (Decoded (VMap m)) \<Rightarrow> (case map_of m ''resource'' of Some (VStr s) \<Rightarrow> s | _ \<Rightarrow> [])
      | Some (RawMessage raw) \<Rightarrow> (case ll_UnmarshalDecl L raw of Some s \<Rightarrow> s | None \<Rightarrow> [])
      | _ \<Rightarrow> [])"

definition lists_resource :: "listing_lib \<Rightarrow> string \<Rightarrow> string \<times> PathItem \<Rightarrow> bool" where
  "lists_resource L resource ri =
     (case pi_Get (snd ri) of
        None \<Rightarrow> False
      | Some op \<Rightarrow>
          \<not> Contains (fst ri) ''{'' \<and>
          listingResource L (map_of (ao_Extensions op) kdexResourceListingExtension) = resource)"

definition listing_routes :: "listing_lib \<Rightarrow> PathInfo gomap \<Rightarrow> string \<Rightarrow> string list" where
  "listing_routes L paths resource =
     fold (\<lambda>(_, info) routes.
             if in_Type info \<noteq> FunctionPathType then routes
             else fold (\<lambda>ri routes. if lists_resource L resource ri \<and> fst ri \<notin> set routes then routes @ [fst ri] else routes)
                    (in_Paths info) routes)
       paths []"

definition listingRoute :: "listing_lib \<Rightarrow> PathInfo gomap \<Rightarrow> string \<Rightarrow> goerror + string" where
  "listingRoute L paths resource =
     (if resource \<in> set hostNativeResources then Inr []
      else case listing_routes L paths resource of
             [] \<Rightarrow> Inr []
           | [route] \<Rightarrow> Inr route
           | routes \<Rightarrow>
               Inl (errorf (format_nat (length routes) @ '' functions declare '' @ kdexResourceListingExtension @
                            '' for resource '' @ ll_Quote L resource @ '': ['' @ Join (sort routes) '' '' @ '']'')))"

record bufferedResponse =
  bf_header :: header
  bf_body :: string
  bf_status :: nat
  bf_wroteHeader :: bool
  bf_overflow :: bool

definition new_buffer :: bufferedResponse where
  "new_buffer = \<lparr>bf_header = [], bf_body = [], bf_status = 200, bf_wroteHeader = False, bf_overflow = False\<rparr>"

definition bf_WriteHeader :: "nat \<Rightarrow> bufferedResponse \<Rightarrow> bufferedResponse" where
  "bf_WriteHeader status b = (if bf_wroteHeader b then b else b\<lparr>bf_status := status, bf_wroteHeader := True\<rparr>)"

definition bf_Write :: "string \<Rightarrow> bufferedResponse \<Rightarrow> bufferedResponse" where
  "bf_Write p b0 =
     (let b = bf_WriteHeader 200 b0
      in if length (bf_body b) + length p > maxListingResponseBytes then b\<lparr>bf_overflow := True\<rparr>
         else b\<lparr>bf_body := bf_body b @ p\<rparr>)"

text \<open>A handler's run on the buffer, which neither preserves headers nor flushes.\<close>

fun bf_apply :: "rw_op \<Rightarrow> bufferedResponse \<Rightarrow> bufferedResponse" where
  "bf_apply (OpSet k v) b = b\<lparr>bf_header := h_Set k v (bf_header b)\<rparr>"
| "bf_apply (OpAdd k v) b = b\<lparr>bf_header := h_Add k v (bf_header b)\<rparr>"
| "bf_apply (OpDel k) b = b\<lparr>bf_header := h_Del k (bf_header b)\<rparr>"
| "bf_apply (OpPreserve k v) b = b\<lparr>bf_header := h_Set k v (bf_header b)\<rparr>"
| "bf_apply (OpWriteHeader status) b = bf_WriteHeader status b"
| "bf_apply (OpWrite p) b = bf_Write p b"
| "bf_apply OpFlush b = b"

definition listing_values :: "string \<Rightarrow> string \<Rightarrow> nat \<Rightarrow> url_values" where
  "listing_values q cursor limit =
     (let v0 = [(''limit'', [format_nat limit])];
          v1 = (if q = [] then v0 else AList.update ''q'' [q] v0)
      in if cursor = [] then v1 else AList.update ''cursor'' [cursor] v1)"

definition listing_request :: "listing_lib \<Rightarrow> proxy_request \<Rightarrow> string \<Rightarrow> string \<Rightarrow> string \<Rightarrow> nat \<Rightarrow> proxy_request" where
  "listing_request L r route q cursor limit =
     (let vals = listing_values q cursor limit
      in r\<lparr>pq_Method := ''GET'', pq_Path := route, br_EscapedPath := ll_EscapePath L route, br_Query := vals,
           pq_RawQuery := ll_EncodeQuery L vals, pq_Body := None\<rparr>)"

definition dispatchListing ::
  "listing_lib \<Rightarrow> (proxy_request \<Rightarrow> rw_op list) \<Rightarrow> proxy_request \<Rightarrow> string \<Rightarrow> string \<Rightarrow> string \<Rightarrow> nat \<Rightarrow>
   resourceNamesPage option \<times> nat \<times> header" where
  "dispatchListing L serve r route q cursor limit =
     (let buf = fold bf_apply (serve (listing_request L r route q cursor limit)) new_buffer in
      if bf_status buf \<noteq> 200 then (None, bf_status buf, bf_header buf)
      else if bf_overflow buf then (None, 200, bf_header buf)
      else case ll_UnmarshalPage L (bf_body buf) of
             None \<Rightarrow> (None, 200, bf_header buf)
           | Some page \<Rightarrow>
               if length (np_Items page) > limit \<or> list_ex (\<lambda>n. rn_Name n = []) (np_Items page)
               then (None, 200, bf_header buf)
               else (Some page, 200, bf_header buf))"

subsection \<open>The handler\<close>

datatype names_answer =
    NamesText nat string
  | NamesDenied
  | NamesVerdict nat string   \<comment> \<open>the owner's status and challenge\<close>
  | NamesPage resourceNamesPage

definition names_limit :: "string \<Rightarrow> nat option" where
  "names_limit v =
     (if v = [] then Some resourceNamesDefaultLimit
      else case ParseInt v of
             None \<Rightarrow> None
           | Some n \<Rightarrow> if n < 1 \<or> n > int resourceNamesMaxLimit then None else Some (nat n))"

definition grantable_page :: "listing_lib \<Rightarrow> string list \<Rightarrow> string \<Rightarrow> string \<Rightarrow> resourceNamesPage \<Rightarrow> resourceNamesPage" where
  "grantable_page L held resource verb page =
     (if verb = [] then page
      else page\<lparr>np_Items := filter (\<lambda>n. snd (ll_VerifyAttenuation L held [resource @ '':'' @ rn_Name n @ '':'' @ verb]))
                              (np_Items page)\<rparr>)"

record ('e, 'r) names_host =
  nh_checker :: "('e, 'r) AuthorizationChecker"
  nh_pages :: "'r listed_page list"
  nh_functions :: "KDexFunction list"
  nh_registeredPaths :: "PathInfo gomap"

definition host_page ::
  "listing_lib \<Rightarrow> ('e, 'r) names_host \<Rightarrow> (proxy_request \<Rightarrow> rw_op list) \<Rightarrow> proxy_request \<Rightarrow> string \<Rightarrow> nat \<Rightarrow>
   names_answer + resourceNamesPage" where
  "host_page L hh serve r resource limit =
     (let q = values_Get (br_Query r) ''q''; cursor = values_Get (br_Query r) ''cursor'' in
      if resource \<in> set hostNativeResources
      then (case pageOfNames L (hostNativeNames (nh_checker hh) (pq_Context r) (nh_pages hh) (nh_functions hh) resource) q cursor limit of
              Inl _ \<Rightarrow> Inl (NamesText 400 ''invalid cursor'')
            | Inr page \<Rightarrow> Inr page)
      else case listingRoute L (nh_registeredPaths hh) resource of
             Inl _ \<Rightarrow> Inl (NamesText 500 (ll_StatusText L 500))
           | Inr route \<Rightarrow>
               if route = [] then Inl (NamesText 404 (ll_StatusText L 404))
               else case dispatchListing L serve r route q cursor limit of (page, status, header) \<Rightarrow>
                      if status \<noteq> 200 then Inl (NamesVerdict status (h_Get header ''WWW-Authenticate''))
                      else case page of
                             None \<Rightarrow> Inl (NamesText 502 (ll_StatusText L 502))
                           | Some p \<Rightarrow> Inr p)"

definition names_response ::
  "listing_lib \<Rightarrow> ('e, 'r) names_host \<Rightarrow> (proxy_request \<Rightarrow> rw_op list) \<Rightarrow> proxy_request \<Rightarrow> string \<Rightarrow> names_answer" where
  "names_response L hh serve r resource =
     (case pq_Context r of
        None \<Rightarrow> NamesDenied
      | Some ac \<Rightarrow>
          (case names_limit (values_Get (br_Query r) ''limit'') of
             None \<Rightarrow> NamesText 400 (''limit must be 1..'' @ format_nat resourceNamesMaxLimit)
           | Some limit \<Rightarrow>
               (case host_page L hh serve r resource limit of
                  Inl ans \<Rightarrow> ans
                | Inr page \<Rightarrow>
                    NamesPage (grantable_page L (stringSliceFromClaim (map_of ac ''entitlements'')) resource
                      (values_Get (br_Query r) ''verb'') page))))"

definition resourceNamesHandler ::
  "listing_lib \<Rightarrow> url_parse \<Rightarrow> string \<Rightarrow> (resourceNamesPage \<Rightarrow> string) \<Rightarrow> ('e, 'r) names_host \<Rightarrow> (proxy_request \<Rightarrow> rw_op list) \<Rightarrow>
   proxy_request \<Rightarrow> string \<Rightarrow> rw \<Rightarrow> rw" where
  "resourceNamesHandler L up issuer json hh serve r resource w =
     (case names_response L hh serve r resource of
        NamesDenied \<Rightarrow>
          denial_Write up \<lparr>o_Outcome = Unauthenticated, o_Issuer = issuer, o_ResourceMetadata = [], o_Scopes = []\<rparr> w
      | NamesText status msg \<Rightarrow> http_Error msg status w
      | NamesVerdict status challenge \<Rightarrow>
          http_Error (ll_StatusText L status) status
            (if challenge = [] then w else rw_header (h_Set ''WWW-Authenticate'' challenge) w)
      | NamesPage page \<Rightarrow>
          rw_Write (json page)
            (rw_header (h_Set ''Cache-Control'' ''private, no-store'' \<circ> h_Set ''Content-Type'' ''application/json'') w))"

section \<open>The order of names\<close>

text \<open>\<open>before\<close> is the strict order \<open>compareNames\<close> decides; two names it does not separate are the same.\<close>

definition before :: "listing_lib \<Rightarrow> resourceName \<Rightarrow> resourceName \<Rightarrow> bool" where
  "before L a b \<longleftrightarrow> compareNames L a b < 0"

lemma before_iff: "before L a b \<longleftrightarrow> sortKey L a < sortKey L b \<or> sortKey L a = sortKey L b \<and> rn_Name a < rn_Name b"
  by (auto simp: before_def compareNames_def strings_Compare_def)

lemma not_after_iff: "compareNames L a b \<le> 0 \<longleftrightarrow> before L a b \<or> sortKey L a = sortKey L b \<and> rn_Name a = rn_Name b"
  by (auto simp: before_def compareNames_def strings_Compare_def)

lemma resumes_after_iff: "resumes_after L after n \<longleftrightarrow> (case after of None \<Rightarrow> True | Some a \<Rightarrow> before L a n)"
  by (auto simp: resumes_after_def before_def compareNames_def strings_Compare_def split: option.splits)

lemma before_irrefl [simp]: "\<not> before L a a"
  by (simp add: before_iff)

lemma before_trans: "before L a b \<Longrightarrow> before L b c \<Longrightarrow> before L a c"
  by (auto simp: before_iff)

lemma before_total: "rn_Name a \<noteq> rn_Name b \<Longrightarrow> before L a b \<or> before L b a"
  by (auto simp: before_iff)

lemma set_insert_by [simp]: "set (insert_by cmp x ys) = insert x (set ys)"
  by (induction ys) auto

lemma set_SortFunc [simp]: "set (SortFunc cmp xs) = set xs"
  by (induction xs) (simp_all add: SortFunc_def)

lemma length_insert_by [simp]: "length (insert_by cmp x ys) = Suc (length ys)"
  by (induction ys) auto

lemma length_SortFunc [simp]: "length (SortFunc cmp xs) = length xs"
  by (induction xs) (simp_all add: SortFunc_def)

lemma sorted_insert_by:
  assumes "sorted_wrt (before L) ys" "rn_Name x \<notin> rn_Name ` set ys"
  shows "sorted_wrt (before L) (insert_by (compareNames L) x ys)"
  using assms
proof (induction ys)
  case (Cons y ys)
  show ?case
  proof (cases "compareNames L x y \<le> 0")
    case True
    hence "before L x y" using Cons.prems by (auto simp: not_after_iff)
    thus ?thesis using Cons.prems True by (auto intro: before_trans)
  next
    case False
    hence "before L y x" using before_total [of x y L] Cons.prems by (auto simp: not_after_iff)
    thus ?thesis using Cons False by auto
  qed
qed simp

lemma sorted_SortFunc:
  "distinct (map rn_Name xs) \<Longrightarrow> sorted_wrt (before L) (SortFunc (compareNames L) xs)"
proof (induction xs)
  case (Cons x xs)
  have "SortFunc (compareNames L) (x # xs) = insert_by (compareNames L) x (SortFunc (compareNames L) xs)"
    by (simp add: SortFunc_def)
  thus ?case using Cons sorted_insert_by [of L "SortFunc (compareNames L) xs" x] by simp
qed (simp add: SortFunc_def)

lemma sorted_before_unique:
  assumes "sorted_wrt (before L) xs" "sorted_wrt (before L) ys" "set xs = set ys"
  shows "xs = ys"
  using assms
proof (induction xs arbitrary: ys)
  case (Cons x xs)
  then obtain y ys' where ys: "ys = y # ys'" by (cases ys) auto
  have xy: "x = y"
  proof (rule ccontr)
    assume "x \<noteq> y"
    hence "before L x y" "before L y x" using Cons.prems ys by (metis list.set_intros(1) set_ConsD sorted_wrt.simps(2))+
    thus False using before_trans by fastforce
  qed
  have "x \<notin> set xs" "y \<notin> set ys'" using Cons.prems ys by auto
  hence "set xs = set ys'" using Cons.prems ys xy by auto
  thus ?case using Cons ys xy by auto
qed simp

section \<open>Walking the pages\<close>

text \<open>The documented behaviour of the codecs: a name of valid text survives \<open>encoding/json\<close>, whose output is never
  empty, and every string survives \<open>encoding/base64\<close>.\<close>

definition names_codec_law :: "listing_lib \<Rightarrow> bool" where
  "names_codec_law L \<longleftrightarrow>
     (\<forall>n. ll_ValidUTF8 L (rn_Name n) \<and> ll_ValidUTF8 L (rn_Label n) \<longrightarrow> ll_Unmarshal L (ll_Marshal L n) = Some n) \<and>
     (\<forall>n. ll_Marshal L n \<noteq> []) \<and> (\<forall>s. ll_Decode64 L (ll_Encode64 L s) = Some s) \<and>
     (\<forall>s. s \<noteq> [] \<longrightarrow> ll_Encode64 L s \<noteq> [])"

text \<open>A table of names: each once, none empty, all valid text.\<close>

definition names_ok :: "listing_lib \<Rightarrow> resourceName list \<Rightarrow> bool" where
  "names_ok L ns \<longleftrightarrow> distinct (map rn_Name ns) \<and>
     list_all (\<lambda>n. rn_Name n \<noteq> [] \<and> ll_ValidUTF8 L (rn_Name n) \<and> ll_ValidUTF8 L (rn_Label n)) ns"

text \<open>A client following the cursors, the table as it is at each request.\<close>

fun walk_names :: "listing_lib \<Rightarrow> string \<Rightarrow> nat \<Rightarrow> string \<Rightarrow> resourceName list list \<Rightarrow> resourceNamesPage list" where
  "walk_names L q limit cursor [] = []"
| "walk_names L q limit cursor (t # ts) =
     (case pageOfNames L t q cursor limit of
        Inl _ \<Rightarrow> []
      | Inr p \<Rightarrow> p # (if np_Next p = [] then [] else walk_names L q limit (np_Next p) ts))"

definition walk_ends :: "resourceNamesPage list \<Rightarrow> bool" where
  "walk_ends ps \<longleftrightarrow> ps \<noteq> [] \<and> np_Next (last ps) = []"

definition walked :: "resourceNamesPage list \<Rightarrow> resourceName list" where
  "walked ps = concat (map np_Items ps)"

text \<open>One page, from the cursor that stands for \<open>after\<close>: the first \<open>limit\<close> of the sorted candidates.\<close>

definition candidates :: "listing_lib \<Rightarrow> string \<Rightarrow> resourceName option \<Rightarrow> resourceName list \<Rightarrow> resourceName list" where
  "candidates L q after t =
     SortFunc (compareNames L) (filter (\<lambda>n. matches_query L q n \<and> resumes_after L after n) t)"

lemma set_candidates: "n \<in> set (candidates L q after t) \<longleftrightarrow> n \<in> set t \<and> matches_query L q n \<and> resumes_after L after n"
  by (simp add: candidates_def)

lemma sorted_candidates: "names_ok L t \<Longrightarrow> sorted_wrt (before L) (candidates L q after t)"
  by (simp add: candidates_def names_ok_def sorted_SortFunc distinct_map_filter)

lemma candidates_page:
  assumes "decodeNamesCursor L cursor = Inr after"
  shows "pageOfNames L t q cursor limit = Inr
    (if length (candidates L q after t) > limit
     then \<lparr>np_Items = take limit (candidates L q after t),
           np_Next = encodeNamesCursor L (take limit (candidates L q after t) ! (limit - 1))\<rparr>
     else \<lparr>np_Items = candidates L q after t, np_Next = []\<rparr>)"
  using assms by (simp add: pageOfNames_def candidates_def Let_def)

text \<open>The cursor of a name of a good table reads back as that name.\<close>

lemma cursor_round_trip:
  assumes "names_codec_law L" "names_ok L t" "n \<in> set t"
  shows "encodeNamesCursor L n \<noteq> []" "decodeNamesCursor L (encodeNamesCursor L n) = Inr (Some n)"
  using assms by (auto simp: names_codec_law_def names_ok_def list_all_iff encodeNamesCursor_def decodeNamesCursor_def)

text \<open>A full page resumes after its last item: what is left is what the page dropped.\<close>

lemma sorted_split:
  assumes "sorted_wrt (before L) xs" "0 < k" "k < length xs" "n \<in> set xs"
  shows "before L (take k xs ! (k - 1)) n \<longleftrightarrow> n \<in> set (drop k xs)"
proof -
  let ?a = "xs ! (k - 1)"
  obtain i where i: "i < length xs" "n = xs ! i" using assms(4) by (auto simp: in_set_conv_nth)
  have a: "take k xs ! (k - 1) = ?a" using assms(2) by simp
  have drop: "n \<in> set (drop k xs) \<longleftrightarrow> k \<le> i"
  proof
    assume "n \<in> set (drop k xs)"
    then obtain j where j: "k \<le> j" "j < length xs" "n = xs ! j"
      by (auto simp: in_set_conv_nth) (metis add.commute le_add1 less_diff_conv)
    have "i = j" using i j assms(1) by (metis before_irrefl nat_neq_iff sorted_wrt_nth_less)
    thus "k \<le> i" using j by simp
  next
    assume "k \<le> i"
    hence "drop k xs ! (i - k) = n" "i - k < length (drop k xs)" using i by auto
    thus "n \<in> set (drop k xs)" using nth_mem by metis
  qed
  have "before L ?a n \<longleftrightarrow> k \<le> i"
  proof
    assume "k \<le> i" thus "before L ?a n" using assms i by (auto intro: sorted_wrt_nth_less)
  next
    assume b: "before L ?a n"
    show "k \<le> i"
    proof (rule ccontr)
      assume "\<not> k \<le> i"
      hence "n = ?a \<or> before L n ?a"
        using assms i by (cases "i = k - 1") (auto intro: sorted_wrt_nth_less)
      thus False using b before_trans by fastforce
    qed
  qed
  thus ?thesis unfolding a drop .
qed

text \<open>Each request of a walk either ends it or resumes after the last name given.\<close>

lemma walk_step:
  assumes "names_codec_law L" "0 < limit" "names_ok L t" "decodeNamesCursor L cursor = Inr after"
  obtains (finished) "length (candidates L q after t) \<le> limit"
      "walk_names L q limit cursor (t # ts) = [\<lparr>np_Items = candidates L q after t, np_Next = []\<rparr>]"
  | (more) a next_cursor where "limit < length (candidates L q after t)" "a = take limit (candidates L q after t) ! (limit - 1)"
      "a \<in> set (take limit (candidates L q after t))"
      "next_cursor \<noteq> []" "decodeNamesCursor L next_cursor = Inr (Some a)"
      "walk_names L q limit cursor (t # ts) =
         \<lparr>np_Items = take limit (candidates L q after t), np_Next = next_cursor\<rparr> # walk_names L q limit next_cursor ts"
proof (cases "limit < length (candidates L q after t)")
  case True
  define a where "a = take limit (candidates L q after t) ! (limit - 1)"
  have mem: "a \<in> set (take limit (candidates L q after t))"
    unfolding a_def using True assms(2) by (intro nth_mem) simp
  hence "a \<in> set t" using set_candidates by (meson in_set_takeD)
  note cursor_round_trip [OF assms(1,3) this]
  thus ?thesis using more [OF True a_def mem] True candidates_page [OF assms(4), of t q limit] by (simp add: a_def)
next
  case False
  thus ?thesis using finished candidates_page [OF assms(4), of t q limit] by simp
qed

declare walk_names.simps(2) [simp del]

lemma walk_sorted:
  assumes "names_codec_law L" "0 < limit" "list_all (names_ok L) ts" "decodeNamesCursor L cursor = Inr after"
  shows "sorted_wrt (before L) (walked (walk_names L q limit cursor ts)) \<and>
    (\<forall>n \<in> set (walked (walk_names L q limit cursor ts)). resumes_after L after n)"
  using assms(3,4)
proof (induction ts arbitrary: cursor after)
  case (Cons t ts)
  have ok: "names_ok L t" "list_all (names_ok L) ts" using Cons.prems by auto
  let ?C = "candidates L q after t"
  note sorted = sorted_candidates [OF ok(1), of q after]
  show ?case
  proof (rule walk_step [OF assms(1,2) ok(1) Cons.prems(2), of q ts])
    fix a c
    assume more: "limit < length ?C" "a = take limit ?C ! (limit - 1)" "a \<in> set (take limit ?C)" "decodeNamesCursor L c = Inr (Some a)"
      and walk: "walk_names L q limit cursor (t # ts) = \<lparr>np_Items = take limit ?C, np_Next = c\<rparr> # walk_names L q limit c ts"
    note rest = Cons.IH [OF ok(2) more(4)]
    have last: "n = a \<or> before L n a" if mem: "n \<in> set (take limit ?C)" for n
    proof -
      obtain i where "i < limit" "n = ?C ! i" using mem more(1) by (auto simp: in_set_conv_nth)
      thus ?thesis using more(1,2) sorted assms(2) by (cases "i = limit - 1") (auto intro: sorted_wrt_nth_less)
    qed
    have a: "resumes_after L after a" using more(3) set_candidates by (meson in_set_takeD)
    have later: "before L a n" if "n \<in> set (walked (walk_names L q limit c ts))" for n
      using rest that by (simp add: resumes_after_iff)
    have "resumes_after L after n" if "n \<in> set (take limit ?C)" for n using that set_candidates by (meson in_set_takeD)
    moreover have "resumes_after L after n" if "n \<in> set (walked (walk_names L q limit c ts))" for n
      using later [OF that] a by (auto simp: resumes_after_iff intro: before_trans split: option.splits)
    moreover have "before L m n" if "m \<in> set (take limit ?C)" "n \<in> set (walked (walk_names L q limit c ts))" for m n
      using last [OF that(1)] later [OF that(2)] by (auto intro: before_trans)
    ultimately show ?thesis using rest sorted by (auto simp: walk walked_def sorted_wrt_append sorted_wrt_take)
  qed (use sorted set_candidates in \<open>auto simp: walked_def\<close>)
qed (simp add: walked_def)

lemma walk_page:
  assumes "names_codec_law L" "0 < limit" "list_all (names_ok L) ts" "decodeNamesCursor L cursor = Inr after"
    and "i < length (walk_names L q limit cursor ts)"
  shows "i < length ts \<and> length (np_Items (walk_names L q limit cursor ts ! i)) \<le> limit \<and>
    (\<forall>n \<in> set (np_Items (walk_names L q limit cursor ts ! i)). n \<in> set (ts ! i) \<and> matches_query L q n)"
  using assms(3-5)
proof (induction ts arbitrary: cursor after i)
  case (Cons t ts)
  have ok: "names_ok L t" "list_all (names_ok L) ts" using Cons.prems by auto
  show ?case
  proof (rule walk_step [OF assms(1,2) ok(1) Cons.prems(2), of q ts])
    fix a c
    assume dec: "decodeNamesCursor L c = Inr (Some a)"
      and walk: "walk_names L q limit cursor (t # ts) =
        \<lparr>np_Items = take limit (candidates L q after t), np_Next = c\<rparr> # walk_names L q limit c ts"
    show ?thesis
    proof (cases i)
      case 0
      thus ?thesis using set_candidates by (auto simp: walk dest!: in_set_takeD)
    next
      case (Suc j)
      thus ?thesis using Cons.IH [OF ok(2) dec, of j] Cons.prems(3) by (simp add: walk)
    qed
  qed (use Cons.prems(3) set_candidates in \<open>auto\<close>)
qed simp

lemma walk_reaches:
  assumes "names_codec_law L" "0 < limit" "list_all (names_ok L) ts" "decodeNamesCursor L cursor = Inr after"
    and "walk_ends (walk_names L q limit cursor ts)" "\<forall>t \<in> set ts. n \<in> set t" "matches_query L q n" "resumes_after L after n"
  shows "n \<in> set (walked (walk_names L q limit cursor ts))"
  using assms(3-6,8)
proof (induction ts arbitrary: cursor after)
  case (Cons t ts)
  have ok: "names_ok L t" "list_all (names_ok L) ts" using Cons.prems by auto
  let ?C = "candidates L q after t"
  have n: "n \<in> set ?C" using Cons.prems assms(7) by (simp add: set_candidates)
  show ?case
  proof (rule walk_step [OF assms(1,2) ok(1) Cons.prems(2), of q ts])
    fix a c
    assume more: "limit < length ?C" "a = take limit ?C ! (limit - 1)" "c \<noteq> []" "decodeNamesCursor L c = Inr (Some a)"
      and walk: "walk_names L q limit cursor (t # ts) = \<lparr>np_Items = take limit ?C, np_Next = c\<rparr> # walk_names L q limit c ts"
    have ends: "walk_ends (walk_names L q limit c ts)"
      using Cons.prems(3) more(3) by (auto simp: walk walk_ends_def split: if_splits)
    show ?thesis
    proof (cases "n \<in> set (take limit ?C)")
      case False
      hence "n \<in> set (drop limit ?C)" using n by (metis Un_iff append_take_drop_id set_append)
      hence "before L a n"
        using sorted_split [OF sorted_candidates [OF ok(1)] assms(2) more(1) n] more(2) by simp
      thus ?thesis using Cons.IH [OF ok(2) more(4) ends] Cons.prems(4) by (simp add: walk walked_def resumes_after_iff)
    qed (simp add: walk walked_def)
  qed (use n in \<open>simp add: walked_def\<close>)
qed (simp add: walk_ends_def)

text \<open>On a table that does not change, the next page's candidates are those the page left.\<close>

lemma candidates_drop:
  assumes "names_ok L t" "0 < limit" "limit < length (candidates L q after t)"
    and "a = take limit (candidates L q after t) ! (limit - 1)" "resumes_after L after a"
  shows "candidates L q (Some a) t = drop limit (candidates L q after t)"
proof (rule sorted_before_unique)
  let ?C = "candidates L q after t"
  show "sorted_wrt (before L) (candidates L q (Some a) t)" by (rule sorted_candidates [OF assms(1)])
  show "sorted_wrt (before L) (drop limit ?C)" using sorted_candidates [OF assms(1)] by (simp add: sorted_wrt_drop)
  have split: "n \<in> set ?C \<Longrightarrow> before L a n \<longleftrightarrow> n \<in> set (drop limit ?C)" for n
    using sorted_split [OF sorted_candidates [OF assms(1)] assms(2,3)] assms(4) by simp
  have "before L a n \<Longrightarrow> resumes_after L after n" for n
    using assms(5) by (auto simp: resumes_after_iff intro: before_trans split: option.splits)
  hence "n \<in> set (candidates L q (Some a) t) \<longleftrightarrow> n \<in> set ?C \<and> before L a n" for n
    by (auto simp: set_candidates resumes_after_iff [of L "Some a"])
  thus "set (candidates L q (Some a) t) = set (drop limit ?C)"
    using split by (auto dest: in_set_dropD)
qed

lemma walk_fixed:
  assumes "names_codec_law L" "0 < limit" "names_ok L t" "decodeNamesCursor L cursor = Inr after"
    and "length (candidates L q after t) \<le> k * limit" "0 < k"
  shows "walk_ends (walk_names L q limit cursor (replicate k t)) \<and>
    walked (walk_names L q limit cursor (replicate k t)) = candidates L q after t"
  using assms(4-6)
proof (induction k arbitrary: cursor after)
  case (Suc k)
  let ?C = "candidates L q after t"
  show ?case
  proof (rule walk_step [OF assms(1,2,3) Suc.prems(1), of q "replicate k t"])
    fix a c
    assume more: "limit < length ?C" "a = take limit ?C ! (limit - 1)" "a \<in> set (take limit ?C)" "c \<noteq> []"
        "decodeNamesCursor L c = Inr (Some a)"
      and walk: "walk_names L q limit cursor (t # replicate k t) =
        \<lparr>np_Items = take limit ?C, np_Next = c\<rparr> # walk_names L q limit c (replicate k t)"
    have "resumes_after L after a" using more(3) set_candidates by (meson in_set_takeD)
    note rest = candidates_drop [OF assms(3,2) more(1,2) this]
    have "0 < k" using Suc.prems(2) more(1) by (cases k) auto
    hence "walk_ends (walk_names L q limit c (replicate k t)) \<and> walked (walk_names L q limit c (replicate k t)) = drop limit ?C"
      using Suc.IH [OF more(5)] Suc.prems(2) by (auto simp: rest)
    thus ?thesis by (auto simp: walk walk_ends_def walked_def)
  qed (simp_all add: walk_ends_def walked_def)
qed simp

section \<open>The names the host lists\<close>

text \<open>The gate a page or a function passes to be listed.\<close>

definition page_visible :: "('e, 'r) AuthorizationChecker \<Rightarrow> mapclaims option \<Rightarrow> 'r listed_page \<Rightarrow> bool" where
  "page_visible ck ctx ph \<longleftrightarrow>
     (\<exists>reqs. lp_ParsedRequirements ph = Some reqs \<and>
        VerifyResourceParsedEntitlements ck ''pages'' (lp_BasePath ph) (GetParsedEntitlements ck ctx) reqs [] = Inr True)"

definition function_visible :: "('e, 'r) AuthorizationChecker \<Rightarrow> mapclaims option \<Rightarrow> KDexFunction \<Rightarrow> bool" where
  "function_visible ck ctx fn \<longleftrightarrow> kf_Ready fn \<and> \<not> kf_Internal fn \<and>
     VerifyResourceParsedEntitlements ck ''functions'' (kf_BasePath fn) (GetParsedEntitlements ck ctx) (ParseRequirements ck []) [] = Inr True"

lemma add_name_names: "rn_Name ` set (add_name name label out) = rn_Name ` set out \<union> ({name} - {[]})"
  by (auto simp: add_name_def)

lemma add_name_ok:
  "names_ok L out \<Longrightarrow> ll_ValidUTF8 L name \<Longrightarrow> ll_ValidUTF8 L label \<Longrightarrow> names_ok L (add_name name label out)"
  by (auto simp: names_ok_def add_name_def)

text \<open>Collecting the names of the things that pass: the set of names, and a good table.\<close>

definition collect :: "('a \<Rightarrow> bool) \<Rightarrow> ('a \<Rightarrow> string) \<Rightarrow> ('a \<Rightarrow> string) \<Rightarrow> 'a list \<Rightarrow> resourceName list" where
  "collect P name label xs = fold (\<lambda>x out. if P x then add_name (name x) (label x) out else out) xs []"

lemma collect_names: "rn_Name ` set (collect P name label xs) = {name x |x. x \<in> set xs \<and> P x \<and> name x \<noteq> []}"
proof -
  have "rn_Name ` set (fold (\<lambda>x out. if P x then add_name (name x) (label x) out else out) xs out) =
      rn_Name ` set out \<union> {name x |x. x \<in> set xs \<and> P x \<and> name x \<noteq> []}" for out
    by (induction xs arbitrary: out) (auto simp: add_name_names)
  thus ?thesis by (simp add: collect_def)
qed

lemma collect_ok:
  assumes "list_all (\<lambda>x. ll_ValidUTF8 L (name x) \<and> ll_ValidUTF8 L (label x)) xs"
  shows "names_ok L (collect P name label xs)"
proof -
  have "names_ok L out \<Longrightarrow> names_ok L (fold (\<lambda>x out. if P x then add_name (name x) (label x) out else out) xs out)" for out
    using assms by (induction xs arbitrary: out) (auto intro: add_name_ok)
  thus ?thesis by (simp add: collect_def names_ok_def)
qed

lemma native_pages: "hostNativeNames ck ctx pages fns ''pages'' = collect (page_visible ck ctx) lp_BasePath lp_Label pages"
  by (auto simp: hostNativeNames_def collect_def page_visible_def Let_def split: option.splits intro!: fold_cong ext)

lemma native_functions:
  "hostNativeNames ck ctx pages fns ''functions'' = collect (function_visible ck ctx) kf_BasePath kf_Name fns"
  by (auto simp: hostNativeNames_def collect_def function_visible_def Let_def intro!: fold_cong ext)

lemma native_other: "resource \<noteq> ''pages'' \<Longrightarrow> resource \<noteq> ''functions'' \<Longrightarrow> hostNativeNames ck ctx pages fns resource = []"
  by (simp add: hostNativeNames_def Let_def)

lemmas native_cases = native_pages native_functions native_other

definition native_names :: "('e, 'r) AuthorizationChecker \<Rightarrow> mapclaims option \<Rightarrow> 'r listed_page list \<Rightarrow> KDexFunction list \<Rightarrow> string \<Rightarrow> string set" where
  "native_names ck ctx pages fns resource =
     (if resource = ''pages'' then {lp_BasePath ph |ph. ph \<in> set pages \<and> page_visible ck ctx ph \<and> lp_BasePath ph \<noteq> []}
      else if resource = ''functions'' then {kf_BasePath fn |fn. fn \<in> set fns \<and> function_visible ck ctx fn \<and> kf_BasePath fn \<noteq> []}
      else {})"

lemma hostNativeNames_exact: "rn_Name ` set (hostNativeNames ck ctx pages fns resource) = native_names ck ctx pages fns resource"
proof -
  consider "resource = ''pages''" | "resource = ''functions''" | "resource \<noteq> ''pages''" "resource \<noteq> ''functions''" by blast
  thus ?thesis
    by cases (simp_all add: native_cases collect_names native_names_def)
qed

definition text_ok :: "listing_lib \<Rightarrow> 'r listed_page list \<Rightarrow> KDexFunction list \<Rightarrow> bool" where
  "text_ok L pages fns \<longleftrightarrow>
     list_all (\<lambda>ph. ll_ValidUTF8 L (lp_BasePath ph) \<and> ll_ValidUTF8 L (lp_Label ph)) pages \<and>
     list_all (\<lambda>fn. ll_ValidUTF8 L (kf_BasePath fn) \<and> ll_ValidUTF8 L (kf_Name fn)) fns"

lemma hostNativeNames_ok:
  assumes "text_ok L pages fns"
  shows "names_ok L (hostNativeNames ck ctx pages fns resource)"
proof -
  consider "resource = ''pages''" | "resource = ''functions''" | "resource \<noteq> ''pages''" "resource \<noteq> ''functions''" by blast
  thus ?thesis using assms
    by cases (simp_all add: native_cases collect_ok text_ok_def, simp add: names_ok_def)
qed

text \<open>C22: a client that follows the cursors while the table of names changes between its requests is given a strictly
  increasing list, so no item twice; every page has at most the limit and only matching names of the table it was
  read from; and once a page carries no cursor, every matching item that was in the table throughout has been given.\<close>

theorem names_walk_complete:
  assumes "names_codec_law L" "0 < limit" "list_all (names_ok L) tables"
    and ps: "ps = walk_names L q limit [] tables"
  shows "sorted_wrt (before L) (walked ps) \<and> distinct (walked ps) \<and>
    (\<forall>i < length ps. length (np_Items (ps ! i)) \<le> limit \<and>
       (\<forall>n \<in> set (np_Items (ps ! i)). n \<in> set (tables ! i) \<and> matches_query L q n)) \<and>
    (walk_ends ps \<longrightarrow> (\<forall>n. (\<forall>t \<in> set tables. n \<in> set t) \<and> matches_query L q n \<longrightarrow> n \<in> set (walked ps)))"
proof -
  have start: "decodeNamesCursor L [] = Inr None" by (simp add: decodeNamesCursor_def)
  have sorted: "sorted_wrt (before L) (walked ps)" using walk_sorted [OF assms(1-3) start, of q] by (simp add: ps)
  moreover have "distinct (walked ps)"
    unfolding distinct_conv_nth using sorted by (metis before_irrefl linorder_neqE_nat sorted_wrt_nth_less)
  moreover have "length (np_Items (ps ! i)) \<le> limit \<and>
      (\<forall>n \<in> set (np_Items (ps ! i)). n \<in> set (tables ! i) \<and> matches_query L q n)" if "i < length ps" for i
    using walk_page [OF assms(1-3) start, of i q] that by (simp add: ps)
  moreover have "n \<in> set (walked ps)" if "walk_ends ps" "\<forall>t \<in> set tables. n \<in> set t" "matches_query L q n" for n
    using walk_reaches [OF assms(1-3) start, of q n] that by (simp add: ps resumes_after_def)
  ultimately show ?thesis by blast
qed

text \<open>C37: while the pages and functions stay as they are, a client that follows the cursors of a host-native resource
  is done after as many requests as it takes pages of the limit to hold the names, and has then been given exactly
  the sorted list of the matching names: together the pages are the one sorted list, and its names are exactly those
  of the pages or functions whose gate the caller passes.\<close>

theorem native_listing_exact:
  assumes "names_codec_law L" "0 < limit" "text_ok L pages fns"
    and names: "names = hostNativeNames ck ctx pages fns resource"
    and "length names \<le> k * limit" "0 < k"
  shows "walk_ends (walk_names L q limit [] (replicate k names)) \<and>
    walked (walk_names L q limit [] (replicate k names)) = SortFunc (compareNames L) (filter (matches_query L q) names) \<and>
    rn_Name ` set names = native_names ck ctx pages fns resource \<and> distinct (map rn_Name names)"
proof -
  have ok: "names_ok L names" unfolding names by (rule hostNativeNames_ok [OF assms(3)])
  have start: "decodeNamesCursor L [] = Inr None" by (simp add: decodeNamesCursor_def)
  have cand: "candidates L q None names = SortFunc (compareNames L) (filter (matches_query L q) names)"
    by (simp add: candidates_def resumes_after_def)
  have "length (candidates L q None names) \<le> k * limit"
    using le_trans [OF length_filter_le assms(5)] by (simp add: cand)
  note walk = walk_fixed [OF assms(1,2) ok start this assms(6)]
  have "rn_Name ` set names = native_names ck ctx pages fns resource" unfolding names by (rule hostNativeNames_exact)
  thus ?thesis using walk cand ok by (simp add: names_ok_def)
qed

section \<open>What the catalog offers\<close>

text \<open>What is declared: a pair by the type of a path or by a well-formed requirement of one of its operations, a scope
  by a requirement of one part.\<close>

definition declared_requirement :: "listing_lib \<Rightarrow> PathInfo gomap \<Rightarrow> string \<Rightarrow> bool" where
  "declared_requirement L paths req \<longleftrightarrow>
     ll_ValidateRequirement L req = None \<and> (\<exists>info \<in> snd ` set paths. req \<in> set (path_requirements L info))"

definition declares_pair :: "listing_lib \<Rightarrow> PathInfo gomap \<Rightarrow> string \<Rightarrow> string \<Rightarrow> bool" where
  "declares_pair L paths r v \<longleftrightarrow>
     (\<exists>info \<in> snd ` set paths. in_Type info = PagePathType \<and> r = ''pages'' \<and> v = ''read'' \<or>
        in_Type info = FunctionPathType \<and> r = ''functions'' \<and> v = ''read'') \<or>
     (\<exists>req. declared_requirement L paths req \<and>
        (Split req CHR '':'' = [r, v] \<or> (\<exists>n. Split req CHR '':'' = [r, n, v])))"

definition declares_scope :: "listing_lib \<Rightarrow> PathInfo gomap \<Rightarrow> string \<Rightarrow> bool" where
  "declares_scope L paths s \<longleftrightarrow> declared_requirement L paths s \<and> length (Split s CHR '':'') = 1"

definition has_pair :: "pair_table \<Rightarrow> string \<Rightarrow> string \<Rightarrow> bool" where
  "has_pair pairs r v \<longleftrightarrow> (\<exists>vs. map_of pairs r = Some vs \<and> v \<in> set (mapkeys vs))"

lemma set_mapkeys_update: "set (mapkeys (AList.update k v m)) = insert k (set (mapkeys m))"
  by (auto simp: mapkeys_def update_keys)

lemma mapkeys_simps [simp]: "mapkeys [] = []" "mapkeys ((k, v) # m) = k # mapkeys m"
  by (simp_all add: mapkeys_def)

lemma has_pair_Nil [simp]: "\<not> has_pair [] r v"
  by (simp add: has_pair_def)

lemma has_pair_addPair: "has_pair (addPair r v pairs) r' v' \<longleftrightarrow> has_pair pairs r' v' \<or> r' = r \<and> v' = v"
  by (cases "map_of pairs r") (auto simp: has_pair_def addPair_def Let_def map_of_update set_mapkeys_update)

text \<open>What one requirement declares.\<close>

definition pair_of :: "listing_lib \<Rightarrow> string \<Rightarrow> string \<Rightarrow> string \<Rightarrow> bool" where
  "pair_of L req r v \<longleftrightarrow> ll_ValidateRequirement L req = None \<and>
     (Split req CHR '':'' = [r, v] \<or> (\<exists>n. Split req CHR '':'' = [r, n, v]))"

definition scope_of :: "listing_lib \<Rightarrow> string \<Rightarrow> string \<Rightarrow> bool" where
  "scope_of L req s \<longleftrightarrow> ll_ValidateRequirement L req = None \<and> s = req \<and> length (Split req CHR '':'') = 1"

lemma add_requirement_pair:
  "has_pair (fst (add_requirement L req ps)) r v \<longleftrightarrow> has_pair (fst ps) r v \<or> pair_of L req r v"
  by (auto simp: add_requirement_def pair_of_def has_pair_addPair split: list.splits)

lemma add_requirement_scope:
  "s \<in> set (mapkeys (snd (add_requirement L req ps))) \<longleftrightarrow> s \<in> set (mapkeys (snd ps)) \<or> scope_of L req s"
  by (auto simp: add_requirement_def scope_of_def set_mapkeys_update split: list.splits)

lemma fold_requirements:
  "has_pair (fst (fold (add_requirement L) reqs ps)) r v \<longleftrightarrow> has_pair (fst ps) r v \<or> (\<exists>req \<in> set reqs. pair_of L req r v)"
  "s \<in> set (mapkeys (snd (fold (add_requirement L) reqs ps))) \<longleftrightarrow> s \<in> set (mapkeys (snd ps)) \<or> (\<exists>req \<in> set reqs. scope_of L req s)"
  by (induction reqs arbitrary: ps) (auto simp: add_requirement_pair add_requirement_scope)

definition typed_pair :: "PathInfo \<Rightarrow> string \<Rightarrow> string \<Rightarrow> bool" where
  "typed_pair info r v \<longleftrightarrow> in_Type info = PagePathType \<and> r = ''pages'' \<and> v = ''read'' \<or>
     in_Type info = FunctionPathType \<and> r = ''functions'' \<and> v = ''read''"

lemma declare_path_adds:
  "has_pair (fst (declare_path L info ps)) r v \<longleftrightarrow>
     has_pair (fst ps) r v \<or> typed_pair info r v \<or> (\<exists>req \<in> set (path_requirements L info). pair_of L req r v)"
  "s \<in> set (mapkeys (snd (declare_path L info ps))) \<longleftrightarrow>
     s \<in> set (mapkeys (snd ps)) \<or> (\<exists>req \<in> set (path_requirements L info). scope_of L req s)"
  by (auto simp: declare_path_def Let_def fold_requirements has_pair_addPair typed_pair_def PagePathType_def FunctionPathType_def)

lemma declared_folds:
  "has_pair (fst (fold (\<lambda>(_, info). declare_path L info) paths ps)) r v \<longleftrightarrow> has_pair (fst ps) r v \<or>
     (\<exists>info \<in> snd ` set paths. typed_pair info r v \<or> (\<exists>req \<in> set (path_requirements L info). pair_of L req r v))"
  "s \<in> set (mapkeys (snd (fold (\<lambda>(_, info). declare_path L info) paths ps))) \<longleftrightarrow> s \<in> set (mapkeys (snd ps)) \<or>
     (\<exists>info \<in> snd ` set paths. \<exists>req \<in> set (path_requirements L info). scope_of L req s)"
  by (induction paths arbitrary: ps) (auto simp: declare_path_adds)

lemma declared_exact:
  "has_pair (fst (declaredEntitlements L paths)) r v \<longleftrightarrow> declares_pair L paths r v"
  "s \<in> set (mapkeys (snd (declaredEntitlements L paths))) \<longleftrightarrow> declares_scope L paths s"
  by (auto simp: declaredEntitlements_def declared_folds declares_pair_def declares_scope_def declared_requirement_def
      typed_pair_def pair_of_def scope_of_def)

text \<open>What a held entitlement lets one grant.\<close>

definition covers_all :: "listing_lib \<Rightarrow> string list \<Rightarrow> string \<Rightarrow> string \<Rightarrow> bool" where
  "covers_all L held r v \<longleftrightarrow>
     (\<exists>h \<in> set held. length (Split h CHR '':'') \<in> {2, 3} \<and> hd (Split h CHR '':'') = r \<and> ll_Dominates L h (r @ '':*:'' @ v))"

definition covers_name :: "listing_lib \<Rightarrow> string list \<Rightarrow> string \<Rightarrow> string \<Rightarrow> string \<Rightarrow> bool" where
  "covers_name L held r v n \<longleftrightarrow>
     (\<exists>h \<in> set held. (\<exists>u. Split h CHR '':'' = [r, n, u]) \<and> ll_Dominates L h (r @ '':'' @ n @ '':'' @ v))"

lemma three_parts: "length ps = 3 \<and> ps ! 0 = r \<and> ps ! Suc 0 = n \<longleftrightarrow> (\<exists>u. ps = [r, n, u])"
  by (auto simp: numeral_3_eq_3 length_Suc_conv)

lemma grantable_from_all: "fst (grantable_from L r v names held) \<longleftrightarrow> covers_all L held r v"
proof (induction held arbitrary: names)
  case (Cons h held)
  have "hd (Split h CHR '':'') = Split h CHR '':'' ! 0" by (simp add: hd_conv_nth Split_not_Nil)
  moreover have "length (Split h CHR '':'') \<in> {2, 3} \<longleftrightarrow> \<not> (length (Split h CHR '':'') < 2 \<or> length (Split h CHR '':'') > 3)" by auto
  ultimately show ?case using Cons by (auto simp: Let_def covers_all_def)
qed (simp add: covers_all_def)

lemma grantable_from_names:
  assumes "\<not> covers_all L held r v"
  shows "set (snd (grantable_from L r v names held)) = set names \<union> {n. covers_name L held r v n}"
  using assms
proof (induction held arbitrary: names)
  case (Cons h held)
  let ?p = "Split h CHR '':''"
  have hd: "hd ?p = ?p ! 0" by (simp add: hd_conv_nth Split_not_Nil)
  have rest: "\<not> covers_all L held r v" using Cons.prems by (auto simp: covers_all_def)
  have split: "covers_name L (h # held) r v n \<longleftrightarrow>
      (length ?p = 3 \<and> ?p ! 0 = r \<and> ?p ! Suc 0 = n) \<and> ll_Dominates L h (r @ '':'' @ n @ '':'' @ v) \<or> covers_name L held r v n" for n
    unfolding three_parts covers_name_def by auto
  have "\<not> length ?p < 2 \<Longrightarrow> \<not> length ?p > 3 \<Longrightarrow> ?p ! 0 = r \<Longrightarrow> \<not> ll_Dominates L h (r @ '':*:'' @ v)"
    using Cons.prems by (auto simp: covers_all_def hd)
  thus ?case using Cons.IH [OF rest] by (auto simp: Let_def split)
qed (auto simp: covers_name_def)

lemma grantable_exact:
  "fst (grantable L held r v) \<longleftrightarrow> covers_all L held r v"
  "\<not> covers_all L held r v \<Longrightarrow> set (snd (grantable L held r v)) = {n. covers_name L held r v n}"
  by (simp_all add: grantable_def grantable_from_all grantable_from_names)

text \<open>What a catalog shows.\<close>

definition shows_choice :: "entitlementCatalog \<Rightarrow> string \<Rightarrow> catalogVerbChoice \<Rightarrow> bool" where
  "shows_choice cat r ch \<longleftrightarrow> (\<exists>res \<in> set (ec_Resources cat). ct_Resource res = r \<and> ch \<in> set (ct_Verbs res))"

lemma set_map_filter: "y \<in> set (List.map_filter f xs) \<longleftrightarrow> (\<exists>x \<in> set xs. f x = Some y)"
  by (induction xs) (auto simp: List.map_filter_simps split: option.splits)

lemma in_mapkeys: "k \<in> set (mapkeys m) \<longleftrightarrow> map_of m k \<noteq> None"
  by (simp add: mapkeys_def map_of_eq_None_iff)

lemma catalog_shows:
  "shows_choice (catalogFrom L pairs scopes held) r ch \<longleftrightarrow> (\<exists>v. has_pair pairs r v \<and> verb_choice L held r v = Some ch)"
proof -
  define verbs where "verbs = (\<lambda>r. sortedKeys (case map_of pairs r of None \<Rightarrow> [] | Some vs \<Rightarrow> vs))"
  have keys: "v \<in> set (verbs r) \<longleftrightarrow> has_pair pairs r v" for r v
    by (auto simp: verbs_def sortedKeys_def has_pair_def split: option.splits)
  have "shows_choice (catalogFrom L pairs scopes held) r ch \<longleftrightarrow>
      r \<in> set (mapkeys pairs) \<and> ch \<in> set (List.map_filter (verb_choice L held r) (verbs r))"
    by (auto simp: shows_choice_def catalogFrom_def Let_def verbs_def sortedKeys_def)
  also have "\<dots> \<longleftrightarrow> (\<exists>v. has_pair pairs r v \<and> verb_choice L held r v = Some ch)"
    by (auto simp: set_map_filter keys in_mapkeys has_pair_def)
  finally show ?thesis .
qed

lemma catalog_scopes:
  "set (ec_Scopes (catalogFrom L pairs scopes (Some held))) = set (mapkeys scopes) \<inter> set held"
  by (auto simp: catalogFrom_def Let_def sortedKeys_def)

lemma catalog_answered:
  assumes "values_Get query ''all'' \<noteq> ''true''"
  shows "catalog_answer L paths query (Some ac) = Some (catalogFrom L (fst (declaredEntitlements L paths))
    (snd (declaredEntitlements L paths)) (claim_slice (map_of ac ''entitlements'')))"
  using assms by (simp add: catalog_answer_def split: prod.splits)

lemma choice_cases:
  "verb_choice L (Some held) r v = Some ch \<longleftrightarrow> cv_Verb ch = v \<and>
     (covers_all L held r v \<and> cv_All ch = Some True \<and> cv_Names ch = [] \<or>
      \<not> covers_all L held r v \<and> cv_All ch = Some False \<and> cv_Names ch \<noteq> [] \<and> cv_Names ch = snd (grantable L held r v))"
  using grantable_exact(1) [of L held r v]
  by (cases "grantable L held r v"; cases ch) (auto simp: verb_choice_def)

text \<open>C26: to a caller whose token holds a list of entitlements the catalog offers exactly what is declared and held:
  a verb for every name when a held entitlement dominates \<open>resource:*:verb\<close>; otherwise precisely the names of the
  held entitlements that dominate \<open>resource:name:verb\<close>, and the verb not at all when there is none; a scope when it is
  held. Every choice shown is one or the other, for a pair declared by a path of this host.\<close>

theorem catalog_exact:
  assumes "values_Get query ''all'' \<noteq> ''true''" "claim_slice (map_of ac ''entitlements'') = Some held"
    and "catalog_answer L paths query (Some ac) = Some cat"
  shows "((\<exists>ch. shows_choice cat r ch \<and> cv_Verb ch = v \<and> cv_All ch = Some True) \<longleftrightarrow>
      declares_pair L paths r v \<and> covers_all L held r v) \<and>
    ((\<exists>ch. shows_choice cat r ch \<and> cv_Verb ch = v \<and> cv_All ch = Some False \<and> n \<in> set (cv_Names ch)) \<longleftrightarrow>
      declares_pair L paths r v \<and> \<not> covers_all L held r v \<and> covers_name L held r v n) \<and>
    (\<exists>ch. shows_choice cat r ch \<and> cv_Verb ch = v \<and> \<not> (cv_All ch = Some True \<and> cv_Names ch = []) \<and>
      \<not> (cv_All ch = Some False \<and> cv_Names ch \<noteq> [])) = False \<and>
    (s \<in> set (ec_Scopes cat) \<longleftrightarrow> declares_scope L paths s \<and> s \<in> set held)"
proof -
  let ?d = "declaredEntitlements L paths"
  have cat: "cat = catalogFrom L (fst ?d) (snd ?d) (Some held)"
    using assms catalog_answered [OF assms(1), of L paths ac] by simp
  have shown: "shows_choice cat r ch \<longleftrightarrow> declares_pair L paths r (cv_Verb ch) \<and>
      (covers_all L held r (cv_Verb ch) \<and> cv_All ch = Some True \<and> cv_Names ch = [] \<or>
       \<not> covers_all L held r (cv_Verb ch) \<and> cv_All ch = Some False \<and> cv_Names ch \<noteq> [] \<and>
         cv_Names ch = snd (grantable L held r (cv_Verb ch)))" for ch
    by (auto simp: cat catalog_shows choice_cases declared_exact)
  have all: "(\<exists>ch. shows_choice cat r ch \<and> cv_Verb ch = v \<and> cv_All ch = Some True) \<longleftrightarrow>
      declares_pair L paths r v \<and> covers_all L held r v"
    unfolding shown by (auto intro: exI [of _ "\<lparr>cv_Verb = v, cv_All = Some True, cv_Names = []\<rparr>"])
  let ?names = "snd (grantable L held r v)"
  have "(\<exists>ch. shows_choice cat r ch \<and> cv_Verb ch = v \<and> cv_All ch = Some False \<and> n \<in> set (cv_Names ch)) \<longleftrightarrow>
      declares_pair L paths r v \<and> \<not> covers_all L held r v \<and> n \<in> set ?names"
    unfolding shown by (auto intro!: exI [of _ "\<lparr>cv_Verb = v, cv_All = Some False, cv_Names = ?names\<rparr>"])
  moreover have "\<not> covers_all L held r v \<Longrightarrow> n \<in> set ?names \<longleftrightarrow> covers_name L held r v n"
    by (simp add: grantable_exact(2))
  moreover have "s \<in> set (ec_Scopes cat) \<longleftrightarrow> declares_scope L paths s \<and> s \<in> set held"
    by (simp add: cat catalog_scopes declared_exact)
  ultimately show ?thesis using all shown by blast
qed

section \<open>What an owner's answer becomes\<close>

lemma set_listing_routes:
  "set (listing_routes L paths resource) =
     {route. \<exists>info \<in> snd ` set paths. in_Type info = FunctionPathType \<and> (\<exists>item. (route, item) \<in> set (in_Paths info) \<and> lists_resource L resource (route, item))}"
proof -
  have inner: "set (fold (\<lambda>ri routes. if lists_resource L resource ri \<and> fst ri \<notin> set routes then routes @ [fst ri] else routes) items routes)
      = set routes \<union> {route. \<exists>item. (route, item) \<in> set items \<and> lists_resource L resource (route, item)}" for items routes
    by (induction items arbitrary: routes) (auto 0 4)
  have "set (fold (\<lambda>(_, info) routes.
             if in_Type info \<noteq> FunctionPathType then routes
             else fold (\<lambda>ri routes. if lists_resource L resource ri \<and> fst ri \<notin> set routes then routes @ [fst ri] else routes)
                    (in_Paths info) routes) paths routes) = set routes \<union>
      {route. \<exists>info \<in> snd ` set paths. in_Type info = FunctionPathType \<and> (\<exists>item. (route, item) \<in> set (in_Paths info) \<and> lists_resource L resource (route, item))}" for routes
    by (induction paths arbitrary: routes) (auto simp: inner split: if_splits)
  thus ?thesis by (simp add: listing_routes_def)
qed

lemma listingRoute_one:
  assumes "listingRoute L paths resource = Inr route" "route \<noteq> []"
  shows "listing_routes L paths resource = [route]"
  using assms by (auto simp: listingRoute_def split: if_splits list.splits)

lemma names_limit_range: "names_limit v = Some limit \<Longrightarrow> 1 \<le> limit \<and> limit \<le> 200"
  by (auto simp: names_limit_def resourceNamesDefaultLimit_def resourceNamesMaxLimit_def split: if_splits option.splits)

lemma dispatched:
  assumes "dispatchListing L serve r route q cursor limit = (Some page, status, h)"
  shows "\<exists>buf. buf = fold bf_apply (serve (listing_request L r route q cursor limit)) new_buffer \<and> bf_status buf = 200 \<and>
    \<not> bf_overflow buf \<and> ll_UnmarshalPage L (bf_body buf) = Some page \<and> length (np_Items page) \<le> limit \<and>
    list_all (\<lambda>n. rn_Name n \<noteq> []) (np_Items page)"
  using assms by (auto simp: dispatchListing_def Let_def list_ex_iff list_all_iff split: if_splits option.splits)

lemma host_page_refusal: "host_page L hh serve r resource limit \<noteq> Inl (NamesPage page)"
  by (auto simp: host_page_def Let_def split: sum.splits option.splits prod.splits)

lemma buffer_bounded: "length (bf_body (fold bf_apply ops b)) \<le> max (length (bf_body b)) maxListingResponseBytes"
proof (induction ops arbitrary: b)
  case (Cons op ops)
  have "length (bf_body (bf_apply op b)) \<le> max (length (bf_body b)) maxListingResponseBytes"
    by (cases op) (auto simp: bf_WriteHeader_def bf_Write_def Let_def)
  thus ?case using Cons [of "bf_apply op b"] by simp
qed simp

lemma grantable_page_items:
  "set (np_Items (grantable_page L held resource verb page)) \<subseteq> set (np_Items page)"
  "length (np_Items (grantable_page L held resource verb page)) \<le> length (np_Items page)"
  "verb \<noteq> [] \<Longrightarrow> n \<in> set (np_Items (grantable_page L held resource verb page)) \<Longrightarrow>
     snd (ll_VerifyAttenuation L held [resource @ '':'' @ rn_Name n @ '':'' @ verb])"
  by (auto simp: grantable_page_def)


section \<open>Two divergences\<close>

text \<open>A caller whose token carries no list of entitlements is offered the catalog unclamped, every declared pair
  and scope, although it holds nothing.\<close>

lemma catalog_unclamped_without_claim:
  assumes "map_of ac ''entitlements'' = None"
  shows "catalog_answer L paths query (Some ac) = catalog_answer L paths [(''all'', [''true''])] None"
  using assms by (simp add: catalog_answer_def claim_slice_def values_Get_def split: prod.splits)

text \<open>The buffer keeps an informational status as the final one: when the owner's proxied answer is preceded by a
  \<open>103\<close>, the listing is taken for a refusal with that status, whatever the page.\<close>

lemma early_hints_latched:
  assumes "serve (listing_request L r route q cursor limit) = OpWriteHeader 103 # OpWriteHeader 200 # ops"
  shows "fst (dispatchListing L serve r route q cursor limit) = None \<and>
    fst (snd (dispatchListing L serve r route q cursor limit)) = 103"
proof -
  have "bf_wroteHeader b \<Longrightarrow> bf_status (fold bf_apply ops b) = bf_status b" for ops b
  proof (induction ops arbitrary: b)
    case (Cons op ops)
    have "bf_wroteHeader (bf_apply op b) \<and> bf_status (bf_apply op b) = bf_status b"
      using Cons.prems by (cases op) (auto simp: bf_WriteHeader_def bf_Write_def Let_def)
    thus ?case using Cons.IH by simp
  qed simp
  thus ?thesis using assms by (simp add: dispatchListing_def Let_def bf_WriteHeader_def new_buffer_def)
qed

section \<open>Concrete listings\<close>

text \<open>A library whose text is valid when it has no bar and whose codec joins the two fields with one.\<close>

definition demo_listing_lib :: listing_lib where
  "demo_listing_lib = \<lparr>ll_ValidateRequirement = (\<lambda>_. None), ll_Dominates = (=),
     ll_VerifyAttenuation = (\<lambda>held req. if set req \<subseteq> set held then ([], True) else (hd req, False)),
     ll_UnmarshalStrings = (\<lambda>_. None), ll_UnmarshalDecl = (\<lambda>_. None), ll_ToLower = map ascii_lower,
     ll_ValidUTF8 = (\<lambda>s. CHR ''|'' \<notin> set s), ll_Marshal = (\<lambda>n. rn_Name n @ ''|'' @ rn_Label n),
     ll_Unmarshal = (\<lambda>s. case Split s CHR ''|'' of [a, b] \<Rightarrow> Some \<lparr>rn_Name = a, rn_Label = b\<rparr> | _ \<Rightarrow> None),
     ll_Encode64 = id, ll_Decode64 = Some,
     ll_UnmarshalPage = (\<lambda>s. Some \<lparr>np_Items = [\<lparr>rn_Name = s, rn_Label = []\<rparr>], np_Next = []\<rparr>),
     ll_EncodeQuery = (\<lambda>_. []), ll_EscapePath = id, ll_StatusText = (\<lambda>_. []), ll_Quote = id\<rparr>"

lemma demo_codec: "names_codec_law demo_listing_lib"
  by (auto simp: names_codec_law_def demo_listing_lib_def Split_append Split_none)

definition demo_name :: "string \<Rightarrow> resourceName" where
  "demo_name s = \<lparr>rn_Name = s, rn_Label = []\<rparr>"

text \<open>Between two requests of one name each, \<open>a\<close> goes away and \<open>d\<close> comes; \<open>b\<close> is there throughout.\<close>

definition demo_tables :: "resourceName list list" where
  "demo_tables = [map demo_name [''b'', ''a''], map demo_name [''d'', ''b''], map demo_name [''d'', ''b'']]"

lemma demo_tables_ok: "list_all (names_ok demo_listing_lib) demo_tables"
  by code_simp

lemma demo_walk_ends: "walk_ends (walk_names demo_listing_lib [] 1 [] demo_tables)"
  by code_simp

theorem names_walk_complete_witness:
  "list_all (names_ok demo_listing_lib) demo_tables \<and> distinct (walked (walk_names demo_listing_lib [] 1 [] demo_tables)) \<and>
   demo_name ''b'' \<in> set (walked (walk_names demo_listing_lib [] 1 [] demo_tables))"
proof -
  note walk = names_walk_complete [OF demo_codec zero_less_one demo_tables_ok refl, of "[]"]
  have here: "\<forall>t \<in> set demo_tables. demo_name ''b'' \<in> set t" by code_simp
  have fits: "matches_query demo_listing_lib [] (demo_name ''b'')" by code_simp
  show ?thesis using walk demo_tables_ok demo_walk_ends here fits by blast
qed

definition demo_caller :: mapclaims where
  "demo_caller = [(''sub'', VStr ''u1''), (''entitlements'', VStrs [''files:a:read''])]"

definition demo_checker :: "(string list gomap, requirement list) AuthorizationChecker" where
  "demo_checker = \<lparr>ck_ec = demo_ent_lib, ck_scopeBuckets = False\<rparr>"

definition demo_listed :: "requirement list listed_page list" where
  "demo_listed = [\<lparr>lp_BasePath = ''/b'', lp_Label = ''News'', lp_ParsedRequirements = Some []\<rparr>,
     \<lparr>lp_BasePath = ''/c'', lp_Label = ''Draft'', lp_ParsedRequirements = None\<rparr>,
     \<lparr>lp_BasePath = ''/a'', lp_Label = ''about'', lp_ParsedRequirements = Some []\<rparr>]"

lemma demo_names: "hostNativeNames demo_checker (Some demo_caller) demo_listed [] ''pages'' =
  [\<lparr>rn_Name = ''/b'', rn_Label = ''News''\<rparr>, \<lparr>rn_Name = ''/a'', rn_Label = ''about''\<rparr>]"
  by code_simp

theorem native_listing_exact_witness:
  "walk_ends (walk_names demo_listing_lib [] 1 [] (replicate 2 (hostNativeNames demo_checker (Some demo_caller) demo_listed [] ''pages''))) \<and>
   walked (walk_names demo_listing_lib [] 1 [] (replicate 2 (hostNativeNames demo_checker (Some demo_caller) demo_listed [] ''pages''))) =
     [\<lparr>rn_Name = ''/a'', rn_Label = ''about''\<rparr>, \<lparr>rn_Name = ''/b'', rn_Label = ''News''\<rparr>]"
proof -
  have ok: "text_ok demo_listing_lib demo_listed []" by code_simp
  have len: "length (hostNativeNames demo_checker (Some demo_caller) demo_listed [] ''pages'') \<le> 2 * 1" by (simp add: demo_names)
  have sorted: "SortFunc (compareNames demo_listing_lib) (filter (matches_query demo_listing_lib [])
      [\<lparr>rn_Name = ''/b'', rn_Label = ''News''\<rparr>, \<lparr>rn_Name = ''/a'', rn_Label = ''about''\<rparr>]) =
      [\<lparr>rn_Name = ''/a'', rn_Label = ''about''\<rparr>, \<lparr>rn_Name = ''/b'', rn_Label = ''News''\<rparr>]" by code_simp
  show ?thesis using native_listing_exact [OF demo_codec zero_less_one ok refl len, of "[]"] sorted
    by (simp only: demo_names)
qed

definition demo_item :: PathItem where
  "demo_item = \<lparr>pi_Connect = None, pi_Delete = None,
     pi_Get = Some \<lparr>ao_Security = Some [[(''bearer'', [''files:read''])]],
       ao_Extensions = [(kdexResourceListingExtension, Decoded (VMap [(''resource'', VStr ''files'')]))]\<rparr>,
     pi_Head = None, pi_Options = None, pi_Patch = None, pi_Post = None, pi_Put = None, pi_Trace = None\<rparr>"

definition demo_paths :: "PathInfo gomap" where
  "demo_paths = [(''/v1/files'', \<lparr>in_Paths = [(''/v1/files'', demo_item)], in_Type = FunctionPathType\<rparr>)]"

theorem catalog_exact_witness:
  "\<exists>cat ch. catalog_answer demo_listing_lib demo_paths [] (Some demo_caller) = Some cat \<and>
     shows_choice cat ''files'' ch \<and> cv_Verb ch = ''read'' \<and> cv_All ch = Some False \<and> ''a'' \<in> set (cv_Names ch)"
proof -
  have q: "values_Get [] ''all'' \<noteq> ''true''" by (simp add: values_Get_def)
  have held: "claim_slice (map_of demo_caller ''entitlements'') = Some [''files:a:read'']" by code_simp
  obtain cat where cat: "catalog_answer demo_listing_lib demo_paths [] (Some demo_caller) = Some cat"
    using catalog_answered [OF q] by blast
  have "ll_ValidateRequirement demo_listing_lib ''files:read'' = None" by (simp add: demo_listing_lib_def)
  moreover have "\<exists>info \<in> snd ` set demo_paths. ''files:read'' \<in> set (path_requirements demo_listing_lib info)" by code_simp
  moreover have "Split ''files:read'' CHR '':'' = [''files'', ''read'']" by simp
  ultimately have d: "declares_pair demo_listing_lib demo_paths ''files'' ''read''"
    unfolding declares_pair_def declared_requirement_def by blast
  have "\<not> covers_all demo_listing_lib [''files:a:read''] ''files'' ''read''" by code_simp
  moreover have "covers_name demo_listing_lib [''files:a:read''] ''files'' ''read'' ''a''"
    by (auto simp: covers_name_def demo_listing_lib_def)
  ultimately show ?thesis using catalog_exact [OF q held cat, of "''files''" "''read''" "''a''" "[]"] d cat by blast
qed

definition demo_names_host :: "(string list gomap, requirement list) names_host" where
  "demo_names_host = \<lparr>nh_checker = demo_checker, nh_pages = [], nh_functions = [], nh_registeredPaths = demo_paths\<rparr>"

definition demo_owner :: "proxy_request \<Rightarrow> rw_op list" where
  "demo_owner _ = [OpWriteHeader 200, OpWrite ''a'']"

definition demo_asked :: proxy_request where
  "demo_asked = demo_proxy_request\<lparr>pq_Context := Some demo_caller\<rparr>"

definition demo_page :: resourceNamesPage where
  "demo_page = \<lparr>np_Items = [demo_name ''a''], np_Next = []\<rparr>"

lemma demo_dispatched:
  "0 < limit \<Longrightarrow> dispatchListing demo_listing_lib demo_owner r route q cursor limit = (Some demo_page, 200, [])"
  by (simp add: dispatchListing_def demo_owner_def Let_def bf_WriteHeader_def bf_Write_def new_buffer_def
      maxListingResponseBytes_def demo_listing_lib_def demo_page_def demo_name_def)

lemma demo_owner_page: "names_response demo_listing_lib demo_names_host demo_owner demo_asked ''files'' = NamesPage demo_page"
proof -
  have asked: "values_Get (br_Query demo_asked) k = []" "pq_Context demo_asked = Some demo_caller" for k
    by (simp_all add: demo_asked_def demo_proxy_request_def values_Get_def)
  have "names_limit [] = Some 50" by (simp add: names_limit_def resourceNamesDefaultLimit_def)
  moreover have "listingRoute demo_listing_lib (nh_registeredPaths demo_names_host) ''files'' = Inr ''/v1/files''" by code_simp
  ultimately show ?thesis
    by (simp add: names_response_def host_page_def asked hostNativeResources_def demo_dispatched grantable_page_def)
qed


end
