(* ===== verification/Spec2Isabelle.thy ===== *)
theory Spec2Isabelle
  imports CacheSafety Claims ClientRegistry SubjectKind Roles EventHooks Dcr ApiToken Mint Refresh RefreshSteps AuthCode Logins Web Authorization Feedback SessionGrants Gate IdToken OAuth2 Browser Proxy FunctionLifecycle TokenEndpoints Register Listings
begin

text \<open>
  A verification library of the KDex host manager (\<open>src/\<close>, Go): the program that serves a host, signs
  its users in, issues and checks their tokens and guards its routes.

  \<^bold>\<open>The parts and their theories.\<close> Each theory opens with what it holds.

  \<^item> \<open>Prelude\<close>: errors as lists of the sentinels they wrap and a message, Go's maps as association lists, the
    parts of \<open>strings\<close> and \<open>strconv\<close> the code uses, and their lemma collections.
  \<^item> \<open>Cache\<close>, \<open>Store\<close>, \<open>CacheSafety\<close>: \<open>internal/cache/memory.go\<close>. A cache is a record of segments
    (one per generation) and an LRU list; a lock is the atomicity of one operation. \<open>Store\<close> states the interface
    \<open>cache.Cache\<close> as the locale \<open>kv_store\<close> (and \<open>kv_store_unbounded\<close>) and interprets it on the in-memory
    cache; the components above reason through it.
  \<^item> \<open>Claims\<close>, \<open>Mint\<close>, \<open>Logins\<close>, \<open>Refresh\<close>, \<open>RefreshSteps\<close>, \<open>AuthCode\<close>: the signer and the exchanger
    (\<open>internal/sign/sign.go\<close>, \<open>internal/auth/exchange.go\<close>, \<open>refreshgrace.go\<close>, \<open>seal.go\<close>): projection,
    scope confinement, the mints, the logins, rotation with its grace window, authorization codes.
    \<open>RefreshSteps\<close> interleaves rotation, logout and restore at the grain of cache operations.
  \<^item> \<open>ClientRegistry\<close>, \<open>SubjectKind\<close>, \<open>Roles\<close>, \<open>Dcr\<close>: who is a client, the kind and veto of a credential,
    role bindings and identity lookups, registered clients and stored consent
    (\<open>client_registry.go\<close>, \<open>subject_kind.go\<close>, \<open>binding_key.go\<close>, \<open>roles.go\<close>, \<open>dcr/\<close>).
  \<^item> \<open>ApiToken\<close>, \<open>SessionGrants\<close>, \<open>Gate\<close>, \<open>Authorization\<close>: API tokens and revocation, the live grants of a
    session, the authentication gate, the authorization checker with its denials and challenges
    (\<open>apitoken/\<close>, \<open>session_grants.go\<close>, \<open>middleware.go\<close>, \<open>authorization.go\<close>, \<open>denial/\<close>).
  \<^item> \<open>EventHooks\<close>: signed hooks, the login gate and the HTTP credential lookup.
  \<^item> \<open>OAuth2\<close>, \<open>IdToken\<close>, \<open>Browser\<close>: the OAuth2 endpoints, the stores of the upstream ID token, and the
    logins of a browser (\<open>oidc_login.go\<close>, \<open>oauth2.go\<close>, \<open>internal/http/http.go\<close>, \<open>internal/host/login.go\<close>).
  \<^item> \<open>Capabilities\<close>: minting an attenuated capability, its links and their redemption (\<open>internal/host/mint_token.go\<close>,
    \<open>transfer.go\<close>, \<open>capabilities.go\<close>). The locale \<open>counter_store\<close> extends \<open>kv_store\<close> with the decrement.
  \<^item> \<open>Binding\<close>, \<open>Proxy\<close>: binding the placeholders of a route's requirements, the function proxy with its gate, its
    upstream path and its function token, and the protected resources (\<open>internal/host/binding.go\<close>, \<open>proxy.go\<close>,
    \<open>oauth2_resources.go\<close>, \<open>protected_resource.go\<close>, \<open>whoami.go\<close>).
  \<^item> \<open>TokenEndpoints\<close>, \<open>Register\<close>: the endpoints of API tokens and of client registration, with its rate limits
    (\<open>internal/host/apitoken.go\<close>, \<open>register.go\<close>, \<open>register_limiter.go\<close>).
  \<^item> \<open>Listings\<close>: the catalog of entitlements and the names of a resource (\<open>internal/host/entitlement_catalog.go\<close>,
    \<open>resource_names.go\<close>).
  \<^item> \<open>FunctionBuild\<close>, \<open>FunctionController\<close>, \<open>FunctionLifecycle\<close>: the controller of functions
    (\<open>internal/controller/kdexfunction_controller.go\<close>, \<open>resolver_common.go\<close>, \<open>internal/build\<close>, \<open>generate\<close>, \<open>deploy\<close>).
    A pass maps the object it read and the answers of the API server to its outcome, the object it leaves and the list
    of actions; \<open>FunctionLifecycle\<close> closes this under edits, lost writes and passes as the step relation \<open>fn_reach\<close>.
  \<^item> \<open>Web\<close>, \<open>Feedback\<close>: the capturing response writer, error pages, dispatch and the check endpoint of
    \<open>internal/host\<close>.

  \<^bold>\<open>How code becomes definitions.\<close> An operation is a function from its arguments and the state it reads to its
  result and the state it leaves; the clock, random values and what a peer does concurrently are arguments. Errors
  are the left summand. An outbound call to an event hook is an element of the returned list of calls. Libraries
  (JWT, PASETO, JOSE, bcrypt, URL and JSON codecs, LDAP) are records of functions, with what the code relies on as a
  named law of which a concrete instance is shown in the witnesses.

  \<^bold>\<open>What is proved.\<close> Every theorem marked with a claim number is a property of the program; the lemmas above it
  are the library it rests on. The groups are: what a token may carry and whom it names; who may obtain one, at every
  grant, login and exchange; single use of codes and refresh tokens, under interleaving; revocation, veto and consent
  taking effect; role resolution; bounds of the cache, of consent records and of capabilities; round trips of sealed,
  encrypted and split values; refinement of the response capture; freshness of a session's grants; attenuation and total
  use of capabilities; what the proxy lets through, to which upstream path, with which authorization, for the
  resource instance the router matched; that a token is minted and revoked only by whom it may be, and a revocation
  shows at the endpoints; what a registration yields, and that forgetting idle addresses changes no limit; that the
  catalog offers what is declared and held, and that following the pages of a listing gives every name once; and the
  life of a function: what its state promises, that its address is the one deployed for its image, which workloads a pass may create or delete, and that it becomes ready and quiet.

  \<^bold>\<open>Bounds and fuel.\<close> The grace replay polls at most \<open>graceReplayAttempts\<close> times, as the code does. Eviction of
  consent records is a \<open>partial_function\<close>: its theorem shows that it ends for records whose touch times are below
  the largest 64-bit value. The loops over cookie chunks recurse on the finite set of cookies of the request. The
  grant generation is a 64-bit word. A function in a cooperative cluster is settled within eight passes of the
  controller. A client that follows the
  cursors of a listing that does not change ends after as many requests as pages hold its names. Every other recursion
  is structural.

  \<^bold>\<open>Not modelled.\<close> The Valkey cache (scripts that run in another server); the controllers other than the
  functions', and the packing of npm packages (they collect objects of the API server); the OpenAPI assembly and the request analysis of the sniffer (third-party
  schema types); routing in \<open>net/http\<close>, page rendering and the proxy's round trip to a backend; logging; the command line.
\<close>

end
